(* ===== verification/Prelude.thy ===== *)
theory Prelude
  imports Main "HOL-Library.Word" "HOL-Library.State_Monad"
begin

text \<open>
  Shared vocabulary of the development: the machine types of the 32-bit ARM target, C faults as
  values, nullable C strings, and the generic lemmas on the state monad, lists and words that the
  component theories use.
\<close>

section \<open>Machine types\<close>

type_synonym i32 = "32 word"
type_synonym i64 = "64 word"
type_synonym u8 = "8 word"
type_synonym utf16 = "16 word list"

text \<open>A C string pointer: \<open>None\<close> is \<open>NULL\<close>, \<open>Some s\<close> points at the characters before the NUL.\<close>

type_synonym cstr = "string option"

text \<open>An address of the process; \<open>0\<close> is never handed out by the allocator.\<close>

type_synonym addr = nat

text \<open>
  The build is for a 32-bit ARM device: \<open>int\<close> and every pointer take four bytes and \<open>size_t\<close> is a
  32-bit unsigned integer, so that a product of sizes wraps at \<open>2 ^ 32\<close>.
\<close>

definition sizeof_int :: nat where
  "sizeof_int = 4"

definition sizeof_ptr :: nat where
  "sizeof_ptr = 4"

definition size_mul :: "nat \<Rightarrow> i32 \<Rightarrow> nat" where
  "size_mul n c = (n * unat c) mod 2 ^ 32"

text \<open>The number of iterations of \<open>for (int i = 0; i < c; i++)\<close>.\<close>

definition loop_count :: "i32 \<Rightarrow> nat" where
  "loop_count c = nat (sint c)"

section \<open>Faults and results\<close>

text \<open>
  What the C++ code does where the language gives it no defined result: dereferencing \<open>NULL\<close>,
  running off an array, exhausting the stack with \<open>alloca\<close>, reading an object through a pointer of
  another type, using memory after it was freed, a failed \<open>assert\<close>, and \<open>LOG_ALWAYS_FATAL\<close>; and the two ways an operation can
  fail to return: waiting in a call that never returns, and leaving the process with \<open>exit\<close>.
\<close>

datatype fault = NullDeref | OutOfBounds | StackOverflow | BadCast | UseAfterFree | AssertFail | Fatal
  | Blocked | Exited

type_synonym 'a result = "fault + 'a"

fun is_fault :: "'a result \<Rightarrow> bool" where
  "is_fault (Inl f) = True"
| "is_fault (Inr x) = False"

section \<open>The state monad\<close>

abbreviation ret :: "'a \<Rightarrow> ('s, 'a) state" where
  "ret \<equiv> State_Monad.return"

text \<open>Iterating an action over a list of inputs, and reading a fixed number of items.\<close>

primrec mapM_unit :: "'a list \<Rightarrow> ('a \<Rightarrow> ('s, unit) state) \<Rightarrow> ('s, unit) state" where
  "mapM_unit [] f = ret ()"
| "mapM_unit (x # xs) f = do { f x; mapM_unit xs f }"

primrec repeatM :: "nat \<Rightarrow> ('s, 'a) state \<Rightarrow> ('s, 'a list) state" where
  "repeatM 0 m = ret []"
| "repeatM (Suc n) m = do { x \<leftarrow> m; xs \<leftarrow> repeatM n m; ret (x # xs) }"

lemma run_state_cases [simp]:
  "run_state (case r of Inl a \<Rightarrow> f a | Inr b \<Rightarrow> g b) s =
    (case r of Inl a \<Rightarrow> run_state (f a) s | Inr b \<Rightarrow> run_state (g b) s)"
  by (cases r) auto

lemma run_state_if [simp]:
  "run_state (if b then m else n) s = (if b then run_state m s else run_state n s)"
  by simp

section \<open>Words and sizes\<close>

lemma size_mul_small: "n * unat c < 2 ^ 32 \<Longrightarrow> size_mul n c = n * unat c"
  by (simp add: size_mul_def)

lemma size_mul_less: "size_mul n c < 2 ^ 32"
  by (simp add: size_mul_def)

end
