(* ===== verification/Ril_Types.thy ===== *)
theory Ril_Types
  imports Ril_Ext
begin

text \<open>
  The data of libril: the structures libril/ril_v3.h declares and those of telephony/ril.h as far as
  libril/ril.cpp reads or fills them, the request bookkeeping of ril.cpp (\<open>CommandInfo\<close>,
  \<open>RequestInfo\<close>), what a dispatch function hands to the vendor library, and the reading and writing
  of strings.
\<close>

section \<open>Structures of ril\_v3.h\<close>

record RIL_SimPin_v3 =
  simPin_slot :: i32
  simPin_aidPtr :: cstr
  simPin_pin :: cstr

record RIL_SimPuk_v3 =
  simPuk_slot :: i32
  simPuk_aidPtr :: cstr
  simPuk_puk :: cstr
  simPuk_newPin :: cstr

record RIL_SimPinSet_v3 =
  simPinSet_slot :: i32
  simPinSet_aidPtr :: cstr
  simPinSet_pin :: cstr
  simPinSet_newPin :: cstr

record RIL_SIM_IO_v3 =
  simIO_slot :: i32
  simIO_aidPtr :: cstr
  simIO_command :: i32
  simIO_fileid :: i32
  simIO_path :: cstr
  simIO_p1 :: i32
  simIO_p2 :: i32
  simIO_p3 :: i32
  simIO_data :: cstr
  simIO_pin2 :: cstr

record RIL_RequestImsi_v3 =
  getImsi_slot :: i32
  getImsi_aid_ptr :: cstr

text \<open>Their sizes follow from the declarations: every member is an \<open>int\<close> or a pointer.\<close>

definition sizeof_RIL_SimPin_v3 :: nat where "sizeof_RIL_SimPin_v3 = 12"
definition sizeof_RIL_SimPuk_v3 :: nat where "sizeof_RIL_SimPuk_v3 = 16"
definition sizeof_RIL_SimPinSet_v3 :: nat where "sizeof_RIL_SimPinSet_v3 = 16"
definition sizeof_RIL_SIM_IO_v3 :: nat where "sizeof_RIL_SIM_IO_v3 = 40"
definition sizeof_RIL_RequestImsi_v3 :: nat where "sizeof_RIL_RequestImsi_v3 = 8"

definition RIL_VERSION_V3 :: i32 where "RIL_VERSION_V3 = 6"
definition RIL_MAX_NETWORKS :: nat where "RIL_MAX_NETWORKS = 2"

section \<open>Structures of telephony/ril.h, as the code uses them\<close>

record RIL_SMS_WriteArgs =
  wa_status :: i32
  wa_pdu :: cstr
  wa_smsc :: cstr

record RIL_UUS_Info =
  uusType :: i32
  uusDcs :: i32
  uusLength :: i32
  uusData :: "u8 list option"

record RIL_Dial =
  dial_address :: cstr
  dial_clir :: i32
  dial_uusInfo :: "RIL_UUS_Info option"

record RIL_SIM_APDU =
  apdu_sessionid :: i32
  apdu_cla :: i32
  apdu_instruction :: i32
  apdu_p1 :: i32
  apdu_p2 :: i32
  apdu_p3 :: i32
  apdu_data :: cstr

record RIL_CallForwardInfo =
  cf_status :: i32
  cf_reason :: i32
  cf_serviceClass :: i32
  cf_toa :: i32
  cf_number :: cstr
  cf_timeSeconds :: i32

record RIL_CDMA_SMS_Address =
  digit_mode :: i32
  number_mode :: i32
  addr_number_type :: i32
  addr_number_plan :: i32
  number_of_digits :: u8
  addr_digits :: "u8 list"

record RIL_CDMA_SMS_Subaddress =
  subaddressType :: i32
  sub_odd :: u8
  sub_number_of_digits :: u8
  sub_digits :: "u8 list"

record RIL_CDMA_SMS_Message =
  uTeleserviceID :: i32
  bIsServicePresent :: u8
  uServicecategory :: i32
  sAddress :: RIL_CDMA_SMS_Address
  sSubAddress :: RIL_CDMA_SMS_Subaddress
  uBearerDataLen :: i32
  aBearerData :: "u8 list"

record RIL_CDMA_SMS_WriteArgs =
  rcsw_status :: i32
  rcsw_message :: RIL_CDMA_SMS_Message

datatype ims_message = CdmaMessage RIL_CDMA_SMS_Message | GsmMessage "cstr list option"

record RIL_IMS_SMS_Message =
  rism_tech :: i32
  rism_retry :: u8
  rism_messageRef :: i32
  rism_message :: ims_message

record RIL_CDMA_SMS_Ack =
  uErrorClass :: i32
  uSMSCauseCode :: i32

record RIL_GSM_BroadcastSmsConfigInfo =
  fromServiceId :: i32
  toServiceId :: i32
  fromCodeScheme :: i32
  toCodeScheme :: i32
  gsm_selected :: u8

record RIL_CDMA_BroadcastSmsConfigInfo =
  service_category :: i32
  bci_language :: i32
  cdma_selected :: u8

record RIL_InitialAttachApn =
  pf_apn :: cstr
  pf_protocol :: cstr
  pf_authtype :: i32
  pf_username :: cstr
  pf_password :: cstr

record RIL_NV_WriteItem =
  nvwi_itemID :: i32
  nvwi_value :: cstr

record RIL_SelectUiccSub =
  uicc_slot :: i32
  uicc_app_index :: i32
  uicc_sub_type :: i32
  uicc_act_status :: i32

record RIL_SimAuthentication =
  authContext :: i32
  authData :: cstr
  auth_aid :: cstr

record RIL_DataProfileInfo =
  dp_profileId :: i32
  dp_apn :: cstr
  dp_protocol :: cstr
  dp_authType :: i32
  dp_user :: cstr
  dp_password :: cstr
  dp_type :: i32
  dp_maxConnsTime :: i32
  dp_maxConns :: i32
  dp_waitTime :: i32
  dp_enabled :: i32

record RIL_RadioCapability =
  rc_version :: i32
  rc_session :: i32
  rc_phase :: i32
  rc_rat :: i32
  logicalModemUuid :: string
  rc_status :: i32

section \<open>Requests\<close>

text \<open>What the \<open>data\<close> argument of \<open>onRequest\<close> points at.\<close>

datatype req_data =
    NullData
  | StrData cstr
  | StrsData "cstr list"
  | IntsData "i32 list"
  | RawData "u8 list option"
  | SmsWriteData RIL_SMS_WriteArgs
  | SimPinData RIL_SimPin_v3
  | SimPukData RIL_SimPuk_v3
  | SimPinSetData RIL_SimPinSet_v3
  | DialData RIL_Dial
  | SimIOData RIL_SIM_IO_v3
  | ApduData RIL_SIM_APDU
  | CallForwardData RIL_CallForwardInfo
  | CdmaSmsData RIL_CDMA_SMS_Message
  | ImsSmsData RIL_IMS_SMS_Message
  | CdmaSmsAckData RIL_CDMA_SMS_Ack
  | GsmBrSmsData "RIL_GSM_BroadcastSmsConfigInfo list"
  | CdmaBrSmsData "RIL_CDMA_BroadcastSmsConfigInfo list"
  | CdmaSmsWriteData RIL_CDMA_SMS_WriteArgs
  | RequestImsiData RIL_RequestImsi_v3
  | InitialAttachApnData RIL_InitialAttachApn
  | NVReadData i32
  | NVWriteData RIL_NV_WriteItem
  | UiccSubData RIL_SelectUiccSub
  | SimAuthData RIL_SimAuthentication
  | DataProfileData "RIL_DataProfileInfo list"
  | RadioCapabilityData RIL_RadioCapability

text \<open>A response payload the library makes up itself, without the vendor library.\<close>

datatype own_response = OwnNull | OwnInt i32 | OwnSimIO i32 i32 string

text \<open>
  What a dispatch function does, in order: \<open>OnRequest req data len\<close> calls
  \<open>s_callbacks.onRequest(req, data, len, pRI)\<close>, \<open>RequestComplete e r\<close> calls
  \<open>RIL_onRequestComplete(pRI, e, r, \<dots>)\<close>, \<open>FreeString s\<close> overwrites and frees a string it
  allocated, \<open>InvalidBlock\<close> reports the request with \<open>invalidCommandBlock\<close>, and the two \<open>Set\<close>
  actions assign the globals of that name.
\<close>

datatype action =
    OnRequest i32 req_data nat
  | RequestComplete i32 own_response
  | FreeString cstr
  | InvalidBlock
  | SetVoiceRadioTech i32
  | SetCdmaSubscriptionSource i32

datatype dispatch_fn =
    D_NULL | D_Void | D_String | D_Strings | D_Ints | D_SimPin | D_SimPuk | D_SimPinSet | D_Dial
  | D_SIM_IO | D_CallForward | D_QueryFacility | D_SetFacility | D_Raw | D_SmsWrite | D_RequestImsi
  | D_DataCall | D_VoiceRadioTech | D_CdmaSubscriptionSource | D_CdmaSms | D_ImsSms | D_CdmaSmsAck
  | D_GsmBrSmsCnf | D_CdmaBrSmsCnf | D_RilCdmaSmsWriteArgs | D_NetworkManual

datatype response_fn =
    R_NULL | R_Ints | R_FailCause | R_Strings | R_String | R_Void | R_CallList | R_SMS | R_SIM_IO
  | R_CallForwards | R_AvailableNetworks | R_DataCallList | R_SetupDataCall | R_Raw | R_Ssn
  | R_SimStatus | R_RegState | R_GsmBrSmsCnf | R_CdmaBrSmsCnf | R_CdmaSms | R_CellList
  | R_CdmaInformationRecords | R_RilSignalStrength | R_CallRing | R_CdmaCallWaiting | R_SimRefresh
  | R_CellInfoList | R_HardwareConfig | R_DcRtInfo | R_RadioCapability | R_SSData | R_LceData

record CommandInfo =
  requestNumber :: i32
  dispatchFunction :: dispatch_fn
  responseFunction :: response_fn

record RequestInfo =
  ri_token :: i32
  ri_pCI :: CommandInfo
  ri_cancelled :: bool
  ri_local :: bool

section \<open>Strings in parcels\<close>

definition strdupReadString :: "'p ext \<Rightarrow> ('p, cstr) state" where
  "strdupReadString E = do { s16 \<leftarrow> p_readString16Inplace E; ret (strndup16to8 E s16) }"

definition readStringFromParcelInplace :: "'p ext \<Rightarrow> nat \<Rightarrow> ('p, status_t \<times> string) state" where
  "readStringFromParcelInplace E maxLen = do {
     s16 \<leftarrow> p_readString16Inplace E;
     ret (case s16 of None \<Rightarrow> (NO_MEMORY, [])
          | Some w \<Rightarrow>
              let strLen = strnlen16to8 E w in
              if strLen + 1 > maxLen then (NO_MEMORY, [])
              else (case strncpy16to8 E w strLen of
                      None \<Rightarrow> (NO_MEMORY, [])
                    | Some s \<Rightarrow> (NO_ERROR, s)))
   }"

definition writeStringToParcel :: "'p ext \<Rightarrow> cstr \<Rightarrow> ('p, unit) state" where
  "writeStringToParcel E s = p_writeString16 E (strdup8to16 E s)"

end
