(* ===== verification/Ril_Dispatch.thy ===== *)
theory Ril_Dispatch
  imports Ril_Types
begin

text \<open>
  The dispatch functions of libril/ril.cpp: each unmarshals the parcel of a request, calls the
  vendor library's \<open>onRequest\<close> (or answers itself) and frees what it allocated. Every definition
  reads the parcel in the order of the code and returns the actions of the code in order, or the
  fault the code runs into.
\<close>

section \<open>Helpers\<close>

abbreviation reqno :: "RequestInfo \<Rightarrow> i32" where
  "reqno pRI \<equiv> requestNumber (ri_pCI pRI)"

text \<open>
  An array of \<open>c\<close> elements of \<open>sz\<close> bytes on the stack (\<open>alloca\<close> or a variable-length array), filled
  by a loop over \<open>c\<close>: the stack must have room for the byte count, which wraps at \<open>2 ^ 32\<close>, and the
  loop must stay inside it.
\<close>

definition stack_array :: "'p ext \<Rightarrow> nat \<Rightarrow> i32 \<Rightarrow> nat result" where
  "stack_array E sz c =
     (let bytes = size_mul sz c; n = loop_count c in
      if \<not> alloca_ok E bytes then Inl StackOverflow
      else if n * sz > bytes then Inl OutOfBounds
      else Inr n)"

text \<open>The status after a loop of reads: that of the last read, or the one before the loop.\<close>

definition last_status :: "status_t \<Rightarrow> (status_t \<times> 'a) list \<Rightarrow> status_t" where
  "last_status st rs = (if rs = [] then st else fst (last rs))"

text \<open>A zero-filled array of \<open>n\<close> bytes whose first elements are \<open>xs\<close>.\<close>

definition zero_fill :: "nat \<Rightarrow> u8 list \<Rightarrow> u8 list" where
  "zero_fill n xs = xs @ replicate (n - length xs) 0"

definition invalidCommandBlock :: "action list result" where
  "invalidCommandBlock = Inr [InvalidBlock]"

section \<open>Strings and integers\<close>

definition dispatchVoid :: "'p ext \<Rightarrow> RequestInfo \<Rightarrow> ('p, action list result) state" where
  "dispatchVoid E pRI = ret (Inr [OnRequest (reqno pRI) NullData 0])"

definition dispatchString :: "'p ext \<Rightarrow> RequestInfo \<Rightarrow> ('p, action list result) state" where
  "dispatchString E pRI = do {
     string8 \<leftarrow> strdupReadString E;
     ret (Inr [OnRequest (reqno pRI) (StrData string8) sizeof_ptr, FreeString string8])
   }"

definition dispatchStrings :: "'p ext \<Rightarrow> RequestInfo \<Rightarrow> ('p, action list result) state" where
  "dispatchStrings E pRI = do {
     (status, countStrings) \<leftarrow> p_readInt32 E;
     if status \<noteq> NO_ERROR then ret invalidCommandBlock
     else if countStrings = 0 then ret (Inr [OnRequest (reqno pRI) (StrsData []) 0])
     else if countStrings = - 1 then ret (Inr [OnRequest (reqno pRI) NullData 0])
     else case stack_array E sizeof_ptr countStrings of
         Inl f \<Rightarrow> ret (Inl f)
       | Inr n \<Rightarrow> do {
           pStrings \<leftarrow> repeatM n (strdupReadString E);
           ret (Inr (OnRequest (reqno pRI) (StrsData pStrings) (size_mul sizeof_ptr countStrings)
                      # map FreeString pStrings))
         }
   }"

definition dispatchNetworkManual :: "'p ext \<Rightarrow> RequestInfo \<Rightarrow> ('p, action list result) state" where
  "dispatchNetworkManual E pRI = do {
     s \<leftarrow> strdupReadString E;
     let pStrings = [s, Some ''NOCHANGE''];
     ret (Inr (OnRequest (reqno pRI) (StrsData pStrings) (sizeof_ptr * 2) # map FreeString pStrings))
   }"

primrec readInts :: "'p ext \<Rightarrow> nat \<Rightarrow> i32 list \<Rightarrow> ('p, i32 list option) state" where
  "readInts E 0 acc = ret (Some (rev acc))"
| "readInts E (Suc n) acc = do {
     (status, t) \<leftarrow> p_readInt32 E;
     if status \<noteq> NO_ERROR then ret None else readInts E n (t # acc)
   }"

definition dispatchInts :: "'p ext \<Rightarrow> RequestInfo \<Rightarrow> ('p, action list result) state" where
  "dispatchInts E pRI = do {
     (status, count) \<leftarrow> p_readInt32 E;
     if status \<noteq> NO_ERROR \<or> count = 0 then ret invalidCommandBlock
     else case stack_array E sizeof_int count of
         Inl f \<Rightarrow> ret (Inl f)
       | Inr n \<Rightarrow> do {
           pInts \<leftarrow> readInts E n [];
           ret (case pInts of None \<Rightarrow> invalidCommandBlock
                | Some xs \<Rightarrow> Inr [OnRequest (reqno pRI) (IntsData xs) (size_mul sizeof_int count)])
         }
   }"

section \<open>SIM requests\<close>

definition dispatchSmsWrite :: "'p ext \<Rightarrow> ril_h \<Rightarrow> RequestInfo \<Rightarrow> ('p, action list result) state" where
  "dispatchSmsWrite E H pRI = do {
     (status, t) \<leftarrow> p_readInt32 E;
     pdu \<leftarrow> strdupReadString E;
     if status \<noteq> NO_ERROR \<or> pdu = None then ret invalidCommandBlock
     else do {
       smsc \<leftarrow> strdupReadString E;
       ret (Inr [OnRequest (reqno pRI)
                   (SmsWriteData \<lparr>wa_status = t, wa_pdu = pdu, wa_smsc = smsc\<rparr>)
                   (hsizeof H ''RIL_SMS_WriteArgs''),
                 FreeString pdu])
     }
   }"

definition dispatchSimPin :: "'p ext \<Rightarrow> RequestInfo \<Rightarrow> ('p, action list result) state" where
  "dispatchSimPin E pRI = do {
     count \<leftarrow> p_readInt32V E;
     pin \<leftarrow> strdupReadString E;
     aidPtr \<leftarrow> strdupReadString E;
     ret (Inr [OnRequest (reqno pRI)
                 (SimPinData \<lparr>simPin_slot = 0, simPin_aidPtr = aidPtr, simPin_pin = pin\<rparr>)
                 sizeof_RIL_SimPin_v3,
               FreeString pin, FreeString aidPtr])
   }"

definition dispatchSimPuk :: "'p ext \<Rightarrow> RequestInfo \<Rightarrow> ('p, action list result) state" where
  "dispatchSimPuk E pRI = do {
     count \<leftarrow> p_readInt32V E;
     puk \<leftarrow> strdupReadString E;
     newPin \<leftarrow> strdupReadString E;
     aidPtr \<leftarrow> strdupReadString E;
     ret (Inr [OnRequest (reqno pRI)
                 (SimPukData \<lparr>simPuk_slot = 0, simPuk_aidPtr = aidPtr, simPuk_puk = puk,
                    simPuk_newPin = newPin\<rparr>)
                 sizeof_RIL_SimPuk_v3,
               FreeString puk, FreeString newPin, FreeString aidPtr])
   }"

definition dispatchSimPinSet :: "'p ext \<Rightarrow> RequestInfo \<Rightarrow> ('p, action list result) state" where
  "dispatchSimPinSet E pRI = do {
     count \<leftarrow> p_readInt32V E;
     pin \<leftarrow> strdupReadString E;
     newPin \<leftarrow> strdupReadString E;
     aidPtr \<leftarrow> strdupReadString E;
     ret (Inr [OnRequest (reqno pRI)
                 (SimPinSetData \<lparr>simPinSet_slot = 0, simPinSet_aidPtr = aidPtr, simPinSet_pin = pin,
                    simPinSet_newPin = newPin\<rparr>)
                 sizeof_RIL_SimPinSet_v3,
               FreeString pin, FreeString newPin, FreeString aidPtr])
   }"

definition dispatchDial ::
  "'p ext \<Rightarrow> ril_h \<Rightarrow> i32 \<Rightarrow> RequestInfo \<Rightarrow> ('p, action list result) state" where
  "dispatchDial E H version pRI = do {
     address \<leftarrow> strdupReadString E;
     (status, clir) \<leftarrow> p_readInt32 E;
     let call = (\<lambda>uus sz. Inr [OnRequest (reqno pRI)
             (DialData \<lparr>dial_address = address, dial_clir = clir, dial_uusInfo = uus\<rparr>) sz,
           FreeString address]);
     if status \<noteq> NO_ERROR \<or> address = None then ret invalidCommandBlock
     else if sint version < 3 then ret (call None (hsizeof H ''RIL_Dial'' - sizeof_ptr))
     else do {
       (status, uusPresent) \<leftarrow> p_readInt32 E;
       if status \<noteq> NO_ERROR then ret invalidCommandBlock
       else if uusPresent = 0 then ret (call None (hsizeof H ''RIL_Dial''))
       else do {
         (_, ty) \<leftarrow> p_readInt32 E;
         (_, dcs) \<leftarrow> p_readInt32 E;
         (status, len) \<leftarrow> p_readInt32 E;
         if status \<noteq> NO_ERROR then ret invalidCommandBlock
         else if len = - 1
         then ret (call (Some \<lparr>uusType = ty, uusDcs = dcs, uusLength = 0, uusData = None\<rparr>)
                     (hsizeof H ''RIL_Dial''))
         else do {
           dat \<leftarrow> p_readInplace E len;
           ret (call (Some \<lparr>uusType = ty, uusDcs = dcs, uusLength = len, uusData = dat\<rparr>)
                  (hsizeof H ''RIL_Dial''))
         }
       }
     }
   }"

text \<open>
  The two answers for the master file that ril.cpp makes up: the response to the GET RESPONSE and
  READ BINARY commands on path 3F00.
\<close>

definition mf_sim_stub :: "RIL_SIM_IO_v3 \<Rightarrow> string option result" where
  "mf_sim_stub simIO = (case simIO_path simIO of
       None \<Rightarrow> Inl NullDeref
     | Some path \<Rightarrow> Inr (
         if path = ''3F00'' \<and> simIO_command simIO = 0xc0
         then Some ''0000000a2fe2040000000005020000''
         else if path = ''3F00'' \<and> simIO_command simIO = 0xb0
         then Some ''00000000000000000010''
         else None))"

definition dispatchSIM_IO :: "'p ext \<Rightarrow> ril_h \<Rightarrow> RequestInfo \<Rightarrow> ('p, action list result) state" where
  "dispatchSIM_IO E H pRI = do {
     (_, command) \<leftarrow> p_readInt32 E;
     (_, fileid) \<leftarrow> p_readInt32 E;
     path \<leftarrow> strdupReadString E;
     (_, p1) \<leftarrow> p_readInt32 E;
     (_, p2) \<leftarrow> p_readInt32 E;
     (status, p3) \<leftarrow> p_readInt32 E;
     dat \<leftarrow> strdupReadString E;
     pin2 \<leftarrow> strdupReadString E;
     aidPtr \<leftarrow> strdupReadString E;
     let simIO = \<lparr>simIO_slot = 0, simIO_aidPtr = aidPtr, simIO_command = command,
       simIO_fileid = fileid, simIO_path = path, simIO_p1 = p1, simIO_p2 = p2, simIO_p3 = p3,
       simIO_data = dat, simIO_pin2 = pin2\<rparr>;
     ret (if status \<noteq> NO_ERROR then invalidCommandBlock
          else case mf_sim_stub simIO of
              Inl f \<Rightarrow> Inl f
            | Inr stub \<Rightarrow> Inr (
                (case stub of
                   Some res \<Rightarrow> RequestComplete (hword H ''RIL_E_SUCCESS'') (OwnSimIO 0x90 0 res)
                 | None \<Rightarrow> OnRequest (reqno pRI) (SimIOData simIO) sizeof_RIL_SIM_IO_v3)
                # map FreeString [path, dat, pin2, aidPtr]))
   }"

definition dispatchSIM_APDU :: "'p ext \<Rightarrow> ril_h \<Rightarrow> RequestInfo \<Rightarrow> ('p, action list result) state" where
  "dispatchSIM_APDU E H pRI = do {
     (_, sessionid) \<leftarrow> p_readInt32 E;
     (_, cla) \<leftarrow> p_readInt32 E;
     (_, instruction) \<leftarrow> p_readInt32 E;
     (_, p1) \<leftarrow> p_readInt32 E;
     (_, p2) \<leftarrow> p_readInt32 E;
     (status, p3) \<leftarrow> p_readInt32 E;
     dat \<leftarrow> strdupReadString E;
     ret (if status \<noteq> NO_ERROR then invalidCommandBlock
          else Inr [OnRequest (reqno pRI)
             (ApduData \<lparr>apdu_sessionid = sessionid, apdu_cla = cla, apdu_instruction = instruction,
                apdu_p1 = p1, apdu_p2 = p2, apdu_p3 = p3, apdu_data = dat\<rparr>)
             (hsizeof H ''RIL_SIM_APDU''),
           FreeString dat])
   }"

definition dispatchCallForward ::
  "'p ext \<Rightarrow> ril_h \<Rightarrow> RequestInfo \<Rightarrow> ('p, action list result) state" where
  "dispatchCallForward E H pRI = do {
     (_, st) \<leftarrow> p_readInt32 E;
     (_, reason) \<leftarrow> p_readInt32 E;
     (_, serviceClass) \<leftarrow> p_readInt32 E;
     (_, toa) \<leftarrow> p_readInt32 E;
     num \<leftarrow> strdupReadString E;
     (status, timeSeconds) \<leftarrow> p_readInt32 E;
     let number = (if num = Some [] then None else num);
     ret (if status \<noteq> NO_ERROR then invalidCommandBlock
          else Inr [OnRequest (reqno pRI)
             (CallForwardData \<lparr>cf_status = st, cf_reason = reason, cf_serviceClass = serviceClass,
                cf_toa = toa, cf_number = number, cf_timeSeconds = timeSeconds\<rparr>)
             (hsizeof H ''RIL_CallForwardInfo''),
           FreeString number])
   }"

section \<open>Facility locks\<close>

text \<open>
  Both functions rebuild the parcel up to the current position in \<open>p2\<close>, append the strings in the
  order the vendor library wants and hand \<open>p2\<close> to \<open>dispatchStrings\<close>.
\<close>

definition run_on :: "'p ext \<Rightarrow> RequestInfo \<Rightarrow> 'p \<Rightarrow> cstr list \<Rightarrow> action list result" where
  "run_on E pRI p2 frees =
     (case fst (run_state (dispatchStrings E pRI) p2) of
        Inl f \<Rightarrow> Inl f
      | Inr acts \<Rightarrow> Inr (acts @ map FreeString frees))"

definition writeStrings :: "'p ext \<Rightarrow> cstr list \<Rightarrow> ('p, unit) state" where
  "writeStrings E ss = mapM_unit ss (writeStringToParcel E)"

definition facility_slot :: "string \<Rightarrow> string" where
  "facility_slot appId = (if appId = [] then [] else ''0'')"

definition dispatchQueryFacility :: "'p ext \<Rightarrow> RequestInfo \<Rightarrow> ('p, action list result) state" where
  "dispatchQueryFacility E pRI = do {
     p0 \<leftarrow> State_Monad.get;
     let pos = p_dataPosition E p0;
     count \<leftarrow> p_readInt32V E;
     facility \<leftarrow> strdupReadString E;
     password \<leftarrow> strdupReadString E;
     serviceClass \<leftarrow> strdupReadString E;
     appId \<leftarrow> strdupReadString E;
     p \<leftarrow> State_Monad.get;
     ret (case appId of
         None \<Rightarrow> Inl NullDeref
       | Some a \<Rightarrow>
           let p2 = snd (run_state
             (do { p_writeInt32 E 5;
                   writeStrings E [Some (facility_slot a), appId, facility, password, serviceClass] })
             (p_appendFrom E p 0 pos (p_new E)))
           in run_on E pRI (p_setDataPosition E pos p2) [facility, password, serviceClass, appId])
   }"

definition dispatchSetFacility :: "'p ext \<Rightarrow> RequestInfo \<Rightarrow> ('p, action list result) state" where
  "dispatchSetFacility E pRI = do {
     p0 \<leftarrow> State_Monad.get;
     let pos = p_dataPosition E p0;
     count \<leftarrow> p_readInt32V E;
     facility \<leftarrow> strdupReadString E;
     lockString \<leftarrow> strdupReadString E;
     password \<leftarrow> strdupReadString E;
     serviceClass \<leftarrow> strdupReadString E;
     appId \<leftarrow> strdupReadString E;
     p \<leftarrow> State_Monad.get;
     ret (case appId of
         None \<Rightarrow> Inl NullDeref
       | Some a \<Rightarrow>
           let p2 = snd (run_state
             (do { p_writeInt32 E 6;
                   writeStrings E [Some (facility_slot a), appId, facility, lockString, password,
                     serviceClass] })
             (p_appendFrom E p 0 pos (p_new E)))
           in run_on E pRI (p_setDataPosition E pos p2)
                [facility, lockString, password, serviceClass, appId])
   }"

definition dispatchRaw :: "'p ext \<Rightarrow> RequestInfo \<Rightarrow> ('p, action list result) state" where
  "dispatchRaw E pRI = do {
     (status, len0) \<leftarrow> p_readInt32 E;
     if status \<noteq> NO_ERROR then ret invalidCommandBlock
     else do {
       let len = (if len0 = - 1 then 0 else len0);
       dat \<leftarrow> p_readInplace E len;
       ret (Inr [OnRequest (reqno pRI) (RawData dat) (unat len)])
     }
   }"

end
