(* ===== verification/Ril_Radio.thy ===== *)
theory Ril_Radio
  imports Ril_Ext
begin

text \<open>
  The decoding of a radio state reported by an old vendor library (libril/ril.cpp): the voice radio
  technology, the CDMA subscription source and the SIM status it stands for.
\<close>

definition decodeVoiceRadioTechnology :: "ril_h \<Rightarrow> i32 \<Rightarrow> i32" where
  "decodeVoiceRadioTechnology H radioState =
     (if radioState \<in> {hword H ''RADIO_STATE_SIM_NOT_READY'',
                       hword H ''RADIO_STATE_SIM_LOCKED_OR_ABSENT'',
                       hword H ''RADIO_STATE_SIM_READY''}
      then hword H ''RADIO_TECH_UMTS''
      else if radioState \<in> {hword H ''RADIO_STATE_RUIM_NOT_READY'',
                            hword H ''RADIO_STATE_RUIM_READY'',
                            hword H ''RADIO_STATE_RUIM_LOCKED_OR_ABSENT'',
                            hword H ''RADIO_STATE_NV_NOT_READY'',
                            hword H ''RADIO_STATE_NV_READY''}
      then hword H ''RADIO_TECH_1xRTT''
      else - 1)"

definition decodeCdmaSubscriptionSource :: "ril_h \<Rightarrow> i32 \<Rightarrow> i32" where
  "decodeCdmaSubscriptionSource H radioState =
     (if radioState \<in> {hword H ''RADIO_STATE_SIM_NOT_READY'',
                       hword H ''RADIO_STATE_SIM_LOCKED_OR_ABSENT'',
                       hword H ''RADIO_STATE_SIM_READY'',
                       hword H ''RADIO_STATE_RUIM_NOT_READY'',
                       hword H ''RADIO_STATE_RUIM_READY'',
                       hword H ''RADIO_STATE_RUIM_LOCKED_OR_ABSENT''}
      then hword H ''CDMA_SUBSCRIPTION_SOURCE_RUIM_SIM''
      else if radioState \<in> {hword H ''RADIO_STATE_NV_NOT_READY'',
                            hword H ''RADIO_STATE_NV_READY''}
      then hword H ''CDMA_SUBSCRIPTION_SOURCE_NV''
      else - 1)"

definition decodeSimStatus :: "ril_h \<Rightarrow> i32 \<Rightarrow> i32" where
  "decodeSimStatus H radioState =
     (if radioState \<in> {hword H ''RADIO_STATE_SIM_NOT_READY'',
                       hword H ''RADIO_STATE_RUIM_NOT_READY'',
                       hword H ''RADIO_STATE_NV_NOT_READY'',
                       hword H ''RADIO_STATE_NV_READY''}
      then - 1
      else if radioState \<in> {hword H ''RADIO_STATE_SIM_LOCKED_OR_ABSENT'',
                            hword H ''RADIO_STATE_SIM_READY'',
                            hword H ''RADIO_STATE_RUIM_READY'',
                            hword H ''RADIO_STATE_RUIM_LOCKED_OR_ABSENT''}
      then radioState
      else - 1)"

definition is3gpp2 :: "ril_h \<Rightarrow> i32 \<Rightarrow> bool" where
  "is3gpp2 H radioTech \<longleftrightarrow>
     radioTech \<in> {hword H ''RADIO_TECH_IS95A'', hword H ''RADIO_TECH_IS95B'',
                  hword H ''RADIO_TECH_1xRTT'', hword H ''RADIO_TECH_EVDO_0'',
                  hword H ''RADIO_TECH_EVDO_A'', hword H ''RADIO_TECH_EVDO_B'',
                  hword H ''RADIO_TECH_EHRPD''}"

end
