(* ===== verification/Ril_Dispatch_Sms.thy ===== *)
theory Ril_Dispatch_Sms
  imports Ril_Dispatch Ril_Radio
begin

text \<open>
  The dispatch functions of libril/ril.cpp for SMS, cell broadcast, data calls, radio technology and
  the later requests, and the table of dispatch functions.
\<close>

section \<open>CDMA and IMS short messages\<close>

definition constructCdmaSms ::
  "'p ext \<Rightarrow> ril_h \<Rightarrow> ('p, status_t \<times> RIL_CDMA_SMS_Message) state" where
  "constructCdmaSms E H = do {
     (_, tele) \<leftarrow> p_readInt32 E;
     (_, present) \<leftarrow> p_readU8 E;
     (_, category) \<leftarrow> p_readInt32 E;
     (_, dmode) \<leftarrow> p_readInt32 E;
     (_, nmode) \<leftarrow> p_readInt32 E;
     (_, ntype) \<leftarrow> p_readInt32 E;
     (_, nplan) \<leftarrow> p_readInt32 E;
     (_, ndigits) \<leftarrow> p_readU8 E;
     let amax = nat (hval H ''RIL_CDMA_SMS_ADDRESS_MAX'');
     ds \<leftarrow> repeatM (min (unat ndigits) amax) (p_readU8 E);
     (_, stype) \<leftarrow> p_readInt32 E;
     (_, odd) \<leftarrow> p_readU8 E;
     (_, nsub) \<leftarrow> p_readU8 E;
     let smax = nat (hval H ''RIL_CDMA_SMS_SUBADDRESS_MAX'');
     ss \<leftarrow> repeatM (min (unat nsub) smax) (p_readU8 E);
     (status, len) \<leftarrow> p_readInt32 E;
     let bmax = nat (hval H ''RIL_CDMA_SMS_BEARER_DATA_MAX'');
     bs \<leftarrow> repeatM (min (loop_count len) bmax) (p_readU8 E);
     ret (last_status status bs,
       \<lparr>uTeleserviceID = tele, bIsServicePresent = present, uServicecategory = category,
        sAddress = \<lparr>digit_mode = dmode, number_mode = nmode, addr_number_type = ntype,
          addr_number_plan = nplan, number_of_digits = ndigits,
          addr_digits = zero_fill amax (map snd ds)\<rparr>,
        sSubAddress = \<lparr>subaddressType = stype, sub_odd = odd, sub_number_of_digits = nsub,
          sub_digits = zero_fill smax (map snd ss)\<rparr>,
        uBearerDataLen = len, aBearerData = zero_fill bmax (map snd bs)\<rparr>)
   }"

definition dispatchCdmaSms :: "'p ext \<Rightarrow> ril_h \<Rightarrow> RequestInfo \<Rightarrow> ('p, action list result) state" where
  "dispatchCdmaSms E H pRI = do {
     (status, rcsm) \<leftarrow> constructCdmaSms E H;
     ret (if status \<noteq> NO_ERROR then invalidCommandBlock
          else Inr [OnRequest (reqno pRI) (CdmaSmsData rcsm) (hsizeof H ''RIL_CDMA_SMS_Message'')])
   }"

definition sizeof_rism_head :: "ril_h \<Rightarrow> nat" where
  "sizeof_rism_head H = hsizeof H ''RIL_RadioTechnologyFamily'' + 1 + 4"

definition dispatchImsCdmaSms ::
  "'p ext \<Rightarrow> ril_h \<Rightarrow> RequestInfo \<Rightarrow> u8 \<Rightarrow> i32 \<Rightarrow> ('p, action list result) state" where
  "dispatchImsCdmaSms E H pRI retry messageRef = do {
     (status, rcsm) \<leftarrow> constructCdmaSms E H;
     ret (if status \<noteq> NO_ERROR then invalidCommandBlock
          else Inr [OnRequest (reqno pRI)
             (ImsSmsData \<lparr>rism_tech = hword H ''RADIO_TECH_3GPP2'', rism_retry = retry,
                rism_messageRef = messageRef, rism_message = CdmaMessage rcsm\<rparr>)
             (sizeof_rism_head H + hsizeof H ''RIL_CDMA_SMS_Message'')])
   }"

definition dispatchImsGsmSms ::
  "'p ext \<Rightarrow> ril_h \<Rightarrow> RequestInfo \<Rightarrow> u8 \<Rightarrow> i32 \<Rightarrow> ('p, action list result) state" where
  "dispatchImsGsmSms E H pRI retry messageRef = do {
     (status, countStrings) \<leftarrow> p_readInt32 E;
     let call = (\<lambda>msg datalen. OnRequest (reqno pRI)
             (ImsSmsData \<lparr>rism_tech = hword H ''RADIO_TECH_3GPP'', rism_retry = retry,
                rism_messageRef = messageRef, rism_message = GsmMessage msg\<rparr>)
             (sizeof_rism_head H + datalen));
     if status \<noteq> NO_ERROR then ret invalidCommandBlock
     else if countStrings = 0 then ret (Inr [call (Some []) 0])
     else if countStrings = - 1 then ret (Inr [call None 0])
     else case stack_array E sizeof_ptr countStrings of
         Inl f \<Rightarrow> ret (Inl f)
       | Inr n \<Rightarrow> do {
           pStrings \<leftarrow> repeatM n (strdupReadString E);
           ret (Inr (call (Some pStrings) (size_mul sizeof_ptr countStrings)
                     # map FreeString pStrings))
         }
   }"

definition dispatchImsSms :: "'p ext \<Rightarrow> ril_h \<Rightarrow> RequestInfo \<Rightarrow> ('p, action list result) state" where
  "dispatchImsSms E H pRI = do {
     (status, fmt) \<leftarrow> p_readInt32 E;
     if status \<noteq> NO_ERROR then ret invalidCommandBlock
     else do {
       (status, retry) \<leftarrow> p_readU8 E;
       if status \<noteq> NO_ERROR then ret invalidCommandBlock
       else do {
         (status, messageRef) \<leftarrow> p_read32 E;
         if status \<noteq> NO_ERROR then ret invalidCommandBlock
         else if hword H ''RADIO_TECH_3GPP'' = fmt then dispatchImsGsmSms E H pRI retry messageRef
         else if hword H ''RADIO_TECH_3GPP2'' = fmt then dispatchImsCdmaSms E H pRI retry messageRef
         else ret (Inr [])
       }
     }
   }"

definition dispatchCdmaSmsAck :: "'p ext \<Rightarrow> ril_h \<Rightarrow> RequestInfo \<Rightarrow> ('p, action list result) state" where
  "dispatchCdmaSmsAck E H pRI = do {
     (_, cls) \<leftarrow> p_readInt32 E;
     (status, cause) \<leftarrow> p_readInt32 E;
     ret (if status \<noteq> NO_ERROR then invalidCommandBlock
          else Inr [OnRequest (reqno pRI)
             (CdmaSmsAckData \<lparr>uErrorClass = cls, uSMSCauseCode = cause\<rparr>)
             (hsizeof H ''RIL_CDMA_SMS_Ack'')])
   }"

section \<open>Cell broadcast\<close>

definition readGsmBci :: "'p ext \<Rightarrow> ('p, status_t \<times> RIL_GSM_BroadcastSmsConfigInfo) state" where
  "readGsmBci E = do {
     (_, fromS) \<leftarrow> p_readInt32 E;
     (_, toS) \<leftarrow> p_readInt32 E;
     (_, fromC) \<leftarrow> p_readInt32 E;
     (_, toC) \<leftarrow> p_readInt32 E;
     (status, sel) \<leftarrow> p_readInt32 E;
     ret (status, \<lparr>fromServiceId = fromS, toServiceId = toS, fromCodeScheme = fromC,
       toCodeScheme = toC, gsm_selected = ucast sel\<rparr>)
   }"

definition dispatchGsmBrSmsCnf :: "'p ext \<Rightarrow> ril_h \<Rightarrow> RequestInfo \<Rightarrow> ('p, action list result) state" where
  "dispatchGsmBrSmsCnf E H pRI = do {
     (status, num) \<leftarrow> p_readInt32 E;
     if status \<noteq> NO_ERROR then ret invalidCommandBlock
     else case (stack_array E (hsizeof H ''RIL_GSM_BroadcastSmsConfigInfo'') num,
                stack_array E sizeof_ptr num) of
         (Inl f, _) \<Rightarrow> ret (Inl f)
       | (_, Inl f) \<Rightarrow> ret (Inl f)
       | (Inr n, Inr _) \<Rightarrow> do {
           gsmBci \<leftarrow> repeatM n (readGsmBci E);
           ret (if last_status status gsmBci \<noteq> NO_ERROR then invalidCommandBlock
                else Inr [OnRequest (reqno pRI) (GsmBrSmsData (map snd gsmBci))
                            (size_mul sizeof_ptr num)])
         }
   }"

definition readCdmaBci :: "'p ext \<Rightarrow> ('p, status_t \<times> RIL_CDMA_BroadcastSmsConfigInfo) state" where
  "readCdmaBci E = do {
     (_, cat) \<leftarrow> p_readInt32 E;
     (_, lang) \<leftarrow> p_readInt32 E;
     (status, sel) \<leftarrow> p_readInt32 E;
     ret (status, \<lparr>service_category = cat, bci_language = lang, cdma_selected = ucast sel\<rparr>)
   }"

definition dispatchCdmaBrSmsCnf :: "'p ext \<Rightarrow> ril_h \<Rightarrow> RequestInfo \<Rightarrow> ('p, action list result) state" where
  "dispatchCdmaBrSmsCnf E H pRI = do {
     (status, num) \<leftarrow> p_readInt32 E;
     if status \<noteq> NO_ERROR then ret invalidCommandBlock
     else case (stack_array E (hsizeof H ''RIL_CDMA_BroadcastSmsConfigInfo'') num,
                stack_array E sizeof_ptr num) of
         (Inl f, _) \<Rightarrow> ret (Inl f)
       | (_, Inl f) \<Rightarrow> ret (Inl f)
       | (Inr n, Inr _) \<Rightarrow> do {
           cdmaBci \<leftarrow> repeatM n (readCdmaBci E);
           ret (if last_status status cdmaBci \<noteq> NO_ERROR then invalidCommandBlock
                else Inr [OnRequest (reqno pRI) (CdmaBrSmsData (map snd cdmaBci))
                            (size_mul sizeof_ptr num)])
         }
   }"

definition dispatchRilCdmaSmsWriteArgs ::
  "'p ext \<Rightarrow> ril_h \<Rightarrow> RequestInfo \<Rightarrow> ('p, action list result) state" where
  "dispatchRilCdmaSmsWriteArgs E H pRI = do {
     (_, st) \<leftarrow> p_readInt32 E;
     (_, tele) \<leftarrow> p_readInt32 E;
     (_, present) \<leftarrow> p_readU8 E;
     (_, category) \<leftarrow> p_readInt32 E;
     (_, dmode) \<leftarrow> p_readInt32 E;
     (_, nmode) \<leftarrow> p_readInt32 E;
     (_, ntype) \<leftarrow> p_readInt32 E;
     (_, nplan) \<leftarrow> p_readInt32 E;
     (_, ndigits) \<leftarrow> p_readU8 E;
     ds \<leftarrow> repeatM (nat (hval H ''RIL_CDMA_SMS_ADDRESS_MAX'')) (p_readU8 E);
     (_, stype) \<leftarrow> p_readInt32 E;
     (_, odd) \<leftarrow> p_readU8 E;
     (_, nsub) \<leftarrow> p_readU8 E;
     ss \<leftarrow> repeatM (nat (hval H ''RIL_CDMA_SMS_SUBADDRESS_MAX'')) (p_readU8 E);
     (status, len) \<leftarrow> p_readInt32 E;
     bs \<leftarrow> repeatM (nat (hval H ''RIL_CDMA_SMS_BEARER_DATA_MAX'')) (p_readU8 E);
     ret (if last_status status bs \<noteq> NO_ERROR then invalidCommandBlock
          else Inr [OnRequest (reqno pRI) (CdmaSmsWriteData
             \<lparr>rcsw_status = st, rcsw_message =
               \<lparr>uTeleserviceID = tele, bIsServicePresent = present, uServicecategory = category,
                sAddress = \<lparr>digit_mode = dmode, number_mode = nmode, addr_number_type = ntype,
                  addr_number_plan = nplan, number_of_digits = ndigits, addr_digits = map snd ds\<rparr>,
                sSubAddress = \<lparr>subaddressType = stype, sub_odd = odd, sub_number_of_digits = nsub,
                  sub_digits = map snd ss\<rparr>,
                uBearerDataLen = len, aBearerData = map snd bs\<rparr>\<rparr>)
             (hsizeof H ''RIL_CDMA_SMS_WriteArgs'')])
   }"

section \<open>Identity, data calls and radio technology\<close>

definition dispatchRequestImsi :: "'p ext \<Rightarrow> RequestInfo \<Rightarrow> ('p, action list result) state" where
  "dispatchRequestImsi E pRI = do {
     count \<leftarrow> p_readInt32V E;
     aid \<leftarrow> strdupReadString E;
     ret (Inr [OnRequest (reqno pRI)
                 (RequestImsiData \<lparr>getImsi_slot = 0, getImsi_aid_ptr = aid\<rparr>)
                 sizeof_RIL_RequestImsi_v3,
               FreeString aid])
   }"

definition numParamsRilV3 :: nat where "numParamsRilV3 = 6"

definition dispatchDataCall :: "'p ext \<Rightarrow> i32 \<Rightarrow> RequestInfo \<Rightarrow> ('p, action list result) state" where
  "dispatchDataCall E version pRI = do {
     p0 \<leftarrow> State_Monad.get;
     let pos = p_dataPosition E p0;
     numParams \<leftarrow> p_readInt32V E;
     if sint version < 4 \<and> sint numParams > int numParamsRilV3 then do {
       ss \<leftarrow> repeatM numParamsRilV3 (p_readString16 E);
       p \<leftarrow> State_Monad.get;
       let p2 = snd (run_state
             (do { p_writeInt32 E (word_of_nat numParamsRilV3);
                   mapM_unit ss (\<lambda>s. p_writeString16 E (Some s)) })
             (p_appendFrom E p 0 pos (p_new E)));
       ret (run_on E pRI (p_setDataPosition E pos p2) [])
     } else do {
       p \<leftarrow> State_Monad.get;
       State_Monad.set (p_setDataPosition E pos p);
       dispatchStrings E pRI
     }
   }"

definition radio_down_answer :: "ril_h \<Rightarrow> i32 \<Rightarrow> action list" where
  "radio_down_answer H radioState =
     (if radioState = hword H ''RADIO_STATE_UNAVAILABLE'' \<or> radioState = hword H ''RADIO_STATE_OFF''
      then [RequestComplete (hword H ''RIL_E_RADIO_NOT_AVAILABLE'') OwnNull] else [])"

definition decoded_answer :: "ril_h \<Rightarrow> i32 \<Rightarrow> action" where
  "decoded_answer H v =
     (if sint v < 0 then RequestComplete (hword H ''RIL_E_GENERIC_FAILURE'') OwnNull
      else RequestComplete (hword H ''RIL_E_SUCCESS'') (OwnInt v))"

text \<open>\<open>radioState\<close> is what the vendor library's \<open>onStateRequest\<close> returns.\<close>

definition dispatchVoiceRadioTech ::
  "'p ext \<Rightarrow> ril_h \<Rightarrow> i32 \<Rightarrow> RequestInfo \<Rightarrow> ('p, action list result) state" where
  "dispatchVoiceRadioTech E H radioState pRI =
     (if radioState = hword H ''RADIO_STATE_ON''
      then do { r \<leftarrow> dispatchVoid E pRI; ret (map_sum id (\<lambda>a. radio_down_answer H radioState @ a) r) }
      else let v = decodeVoiceRadioTechnology H radioState in
        ret (Inr (radio_down_answer H radioState @ [SetVoiceRadioTech v, decoded_answer H v])))"

definition dispatchCdmaSubscriptionSource ::
  "'p ext \<Rightarrow> ril_h \<Rightarrow> i32 \<Rightarrow> RequestInfo \<Rightarrow> ('p, action list result) state" where
  "dispatchCdmaSubscriptionSource E H radioState pRI =
     (if radioState = hword H ''RADIO_STATE_ON''
      then do { r \<leftarrow> dispatchVoid E pRI; ret (map_sum id (\<lambda>a. radio_down_answer H radioState @ a) r) }
      else let v = decodeCdmaSubscriptionSource H radioState in
        ret (Inr (radio_down_answer H radioState
                  @ [SetCdmaSubscriptionSource v, decoded_answer H v])))"

section \<open>Later requests\<close>

definition dispatchSetInitialAttachApn ::
  "'p ext \<Rightarrow> ril_h \<Rightarrow> RequestInfo \<Rightarrow> ('p, action list result) state" where
  "dispatchSetInitialAttachApn E H pRI = do {
     apn \<leftarrow> strdupReadString E;
     protocol \<leftarrow> strdupReadString E;
     (status, authtype) \<leftarrow> p_readInt32 E;
     username \<leftarrow> strdupReadString E;
     password \<leftarrow> strdupReadString E;
     ret (if status \<noteq> NO_ERROR then invalidCommandBlock
          else Inr (OnRequest (reqno pRI)
             (InitialAttachApnData \<lparr>pf_apn = apn, pf_protocol = protocol, pf_authtype = authtype,
                pf_username = username, pf_password = password\<rparr>)
             (hsizeof H ''RIL_InitialAttachApn'')
           # map FreeString [apn, protocol, username, password]))
   }"

definition dispatchNVReadItem :: "'p ext \<Rightarrow> ril_h \<Rightarrow> RequestInfo \<Rightarrow> ('p, action list result) state" where
  "dispatchNVReadItem E H pRI = do {
     (status, itemID) \<leftarrow> p_readInt32 E;
     ret (if status \<noteq> NO_ERROR then invalidCommandBlock
          else Inr [OnRequest (reqno pRI) (NVReadData itemID) (hsizeof H ''RIL_NV_ReadItem'')])
   }"

definition dispatchNVWriteItem :: "'p ext \<Rightarrow> ril_h \<Rightarrow> RequestInfo \<Rightarrow> ('p, action list result) state" where
  "dispatchNVWriteItem E H pRI = do {
     (status, itemID) \<leftarrow> p_readInt32 E;
     val \<leftarrow> strdupReadString E;
     ret (if status \<noteq> NO_ERROR \<or> val = None then invalidCommandBlock
          else Inr [OnRequest (reqno pRI) (NVWriteData \<lparr>nvwi_itemID = itemID, nvwi_value = val\<rparr>)
                      (hsizeof H ''RIL_NV_WriteItem''),
                    FreeString val])
   }"

definition dispatchUiccSubscripton ::
  "'p ext \<Rightarrow> ril_h \<Rightarrow> RequestInfo \<Rightarrow> ('p, action list result) state" where
  "dispatchUiccSubscripton E H pRI = do {
     (status, slot) \<leftarrow> p_readInt32 E;
     if status \<noteq> NO_ERROR then ret invalidCommandBlock else do {
     (status, app_index) \<leftarrow> p_readInt32 E;
     if status \<noteq> NO_ERROR then ret invalidCommandBlock else do {
     (status, sub_type) \<leftarrow> p_readInt32 E;
     if status \<noteq> NO_ERROR then ret invalidCommandBlock else do {
     (status, act_status) \<leftarrow> p_readInt32 E;
     if status \<noteq> NO_ERROR then ret invalidCommandBlock else
     ret (Inr [OnRequest (reqno pRI)
        (UiccSubData \<lparr>uicc_slot = slot, uicc_app_index = app_index, uicc_sub_type = sub_type,
           uicc_act_status = act_status\<rparr>)
        (hsizeof H ''RIL_SelectUiccSub'')]) }}}
   }"

definition dispatchSimAuthentication ::
  "'p ext \<Rightarrow> ril_h \<Rightarrow> RequestInfo \<Rightarrow> ('p, action list result) state" where
  "dispatchSimAuthentication E H pRI = do {
     (status, ctxt) \<leftarrow> p_readInt32 E;
     dat \<leftarrow> strdupReadString E;
     aid \<leftarrow> strdupReadString E;
     ret (if status \<noteq> NO_ERROR then invalidCommandBlock
          else Inr [OnRequest (reqno pRI)
             (SimAuthData \<lparr>authContext = ctxt, authData = dat, auth_aid = aid\<rparr>)
             (hsizeof H ''RIL_SimAuthentication''),
           FreeString dat, FreeString aid])
   }"

definition readDataProfile :: "'p ext \<Rightarrow> ('p, status_t \<times> RIL_DataProfileInfo) state" where
  "readDataProfile E = do {
     (_, profileId) \<leftarrow> p_readInt32 E;
     apn \<leftarrow> strdupReadString E;
     protocol \<leftarrow> strdupReadString E;
     (_, authType) \<leftarrow> p_readInt32 E;
     user \<leftarrow> strdupReadString E;
     password \<leftarrow> strdupReadString E;
     (_, ty) \<leftarrow> p_readInt32 E;
     (_, maxConnsTime) \<leftarrow> p_readInt32 E;
     (_, maxConns) \<leftarrow> p_readInt32 E;
     (_, waitTime) \<leftarrow> p_readInt32 E;
     (status, enabled) \<leftarrow> p_readInt32 E;
     ret (status, \<lparr>dp_profileId = profileId, dp_apn = apn, dp_protocol = protocol,
       dp_authType = authType, dp_user = user, dp_password = password, dp_type = ty,
       dp_maxConnsTime = maxConnsTime, dp_maxConns = maxConns, dp_waitTime = waitTime,
       dp_enabled = enabled\<rparr>)
   }"

definition dispatchDataProfile :: "'p ext \<Rightarrow> ril_h \<Rightarrow> RequestInfo \<Rightarrow> ('p, action list result) state" where
  "dispatchDataProfile E H pRI = do {
     (status, num) \<leftarrow> p_readInt32 E;
     if status \<noteq> NO_ERROR then ret invalidCommandBlock
     else case (stack_array E (hsizeof H ''RIL_DataProfileInfo'') num,
                stack_array E sizeof_ptr num) of
         (Inl f, _) \<Rightarrow> ret (Inl f)
       | (_, Inl f) \<Rightarrow> ret (Inl f)
       | (Inr n, Inr _) \<Rightarrow> do {
           dataProfiles \<leftarrow> repeatM n (readDataProfile E);
           ret (if last_status status dataProfiles \<noteq> NO_ERROR then invalidCommandBlock
                else Inr [OnRequest (reqno pRI) (DataProfileData (map snd dataProfiles))
                            (size_mul sizeof_ptr num)])
         }
   }"

definition dispatchRadioCapability ::
  "'p ext \<Rightarrow> ril_h \<Rightarrow> RequestInfo \<Rightarrow> ('p, action list result) state" where
  "dispatchRadioCapability E H pRI = do {
     (status, ver) \<leftarrow> p_readInt32 E;
     if status \<noteq> NO_ERROR then ret invalidCommandBlock else do {
     (status, session) \<leftarrow> p_readInt32 E;
     if status \<noteq> NO_ERROR then ret invalidCommandBlock else do {
     (status, phase) \<leftarrow> p_readInt32 E;
     if status \<noteq> NO_ERROR then ret invalidCommandBlock else do {
     (status, rat) \<leftarrow> p_readInt32 E;
     if status \<noteq> NO_ERROR then ret invalidCommandBlock else do {
     (status, uuid) \<leftarrow> readStringFromParcelInplace E (hsizeof H ''RIL_RadioCapability.logicalModemUuid'');
     if status \<noteq> NO_ERROR then ret invalidCommandBlock else do {
     (status, st) \<leftarrow> p_readInt32 E;
     if status \<noteq> NO_ERROR then ret invalidCommandBlock else
     ret (Inr [OnRequest (reqno pRI)
        (RadioCapabilityData \<lparr>rc_version = ver, rc_session = session, rc_phase = phase,
           rc_rat = rat, logicalModemUuid = uuid, rc_status = st\<rparr>)
        (hsizeof H ''RIL_RadioCapability'')]) }}}}}
   }"

section \<open>The table of dispatch functions\<close>

fun call_dispatch ::
  "'p ext \<Rightarrow> ril_h \<Rightarrow> i32 \<Rightarrow> i32 \<Rightarrow> dispatch_fn \<Rightarrow> RequestInfo \<Rightarrow> ('p, action list result) state" where
  "call_dispatch E H version radioState D_NULL pRI = ret (Inl NullDeref)"
| "call_dispatch E H version radioState D_Void pRI = dispatchVoid E pRI"
| "call_dispatch E H version radioState D_String pRI = dispatchString E pRI"
| "call_dispatch E H version radioState D_Strings pRI = dispatchStrings E pRI"
| "call_dispatch E H version radioState D_Ints pRI = dispatchInts E pRI"
| "call_dispatch E H version radioState D_SimPin pRI = dispatchSimPin E pRI"
| "call_dispatch E H version radioState D_SimPuk pRI = dispatchSimPuk E pRI"
| "call_dispatch E H version radioState D_SimPinSet pRI = dispatchSimPinSet E pRI"
| "call_dispatch E H version radioState D_Dial pRI = dispatchDial E H version pRI"
| "call_dispatch E H version radioState D_SIM_IO pRI = dispatchSIM_IO E H pRI"
| "call_dispatch E H version radioState D_CallForward pRI = dispatchCallForward E H pRI"
| "call_dispatch E H version radioState D_QueryFacility pRI = dispatchQueryFacility E pRI"
| "call_dispatch E H version radioState D_SetFacility pRI = dispatchSetFacility E pRI"
| "call_dispatch E H version radioState D_Raw pRI = dispatchRaw E pRI"
| "call_dispatch E H version radioState D_SmsWrite pRI = dispatchSmsWrite E H pRI"
| "call_dispatch E H version radioState D_RequestImsi pRI = dispatchRequestImsi E pRI"
| "call_dispatch E H version radioState D_DataCall pRI = dispatchDataCall E version pRI"
| "call_dispatch E H version radioState D_VoiceRadioTech pRI =
     dispatchVoiceRadioTech E H radioState pRI"
| "call_dispatch E H version radioState D_CdmaSubscriptionSource pRI =
     dispatchCdmaSubscriptionSource E H radioState pRI"
| "call_dispatch E H version radioState D_CdmaSms pRI = dispatchCdmaSms E H pRI"
| "call_dispatch E H version radioState D_ImsSms pRI = dispatchImsSms E H pRI"
| "call_dispatch E H version radioState D_CdmaSmsAck pRI = dispatchCdmaSmsAck E H pRI"
| "call_dispatch E H version radioState D_GsmBrSmsCnf pRI = dispatchGsmBrSmsCnf E H pRI"
| "call_dispatch E H version radioState D_CdmaBrSmsCnf pRI = dispatchCdmaBrSmsCnf E H pRI"
| "call_dispatch E H version radioState D_RilCdmaSmsWriteArgs pRI =
     dispatchRilCdmaSmsWriteArgs E H pRI"
| "call_dispatch E H version radioState D_NetworkManual pRI = dispatchNetworkManual E pRI"

end
