(* ===== verification/Ril_Response_Types.thy ===== *)
theory Ril_Response_Types
  imports Ril_Types
begin

text \<open>
  What the \<open>response\<close> pointer of a completed request or of an unsolicited message can point at: the
  structures of telephony/ril.h and libril/ril_v3.h that the response functions of libril/ril.cpp
  marshal, member for member as the code reads them.
\<close>

section \<open>Calls, messages and data calls\<close>

record RIL_LastCallFailCauseInfo =
  cause_code :: i32
  vendor_cause :: cstr

record RIL_Call =
  call_state :: i32
  call_index :: i32
  call_toa :: i32
  isMpty :: i32
  isMT :: i32
  als :: i32
  isVoice :: i32
  isVoicePrivacy :: i32
  call_number :: cstr
  numberPresentation :: i32
  call_name :: cstr
  namePresentation :: i32
  call_uusInfo :: "RIL_UUS_Info option"

record RIL_SMS_Response =
  sms_messageRef :: i32
  ackPDU :: cstr
  sms_errorCode :: i32

record RIL_Data_Call_Response_v4 =
  v4_cid :: i32
  v4_active :: i32
  v4_type :: cstr
  v4_address :: cstr

text \<open>Versions 6 and 9 of this structure are prefixes of version 11.\<close>

record RIL_Data_Call_Response_v11 =
  dc_status :: i32
  suggestedRetryTime :: i32
  dc_cid :: i32
  dc_active :: i32
  dc_type :: cstr
  dc_ifname :: cstr
  dc_addresses :: cstr
  dc_dnses :: cstr
  dc_gateways :: cstr
  dc_pcscf :: cstr
  dc_mtu :: i32

record RIL_SIM_IO_Response =
  sw1 :: i32
  sw2 :: i32
  simResponse :: cstr

record RIL_SuppSvcNotification =
  notificationType :: i32
  ssn_code :: i32
  ssn_index :: i32
  ssn_type :: i32
  ssn_number :: cstr

record RIL_NeighboringCell =
  nc_rssi :: i32
  nc_cid :: cstr

section \<open>CDMA\<close>

record RIL_CDMA_SignalInfoRecord =
  isPresent :: i32
  signalType :: i32
  alertPitch :: i32
  signal_code :: i32

record RIL_CDMA_NumberInfoRecord =
  ninfo_len :: u8
  ninfo_buf :: string
  ninfo_number_type :: i32
  ninfo_number_plan :: i32
  ninfo_pi :: i32
  ninfo_si :: i32

text \<open>The union \<open>rec\<close> of an information record, by the member that was stored.\<close>

datatype info_union =
    DisplayRec u8 string
  | NumberRec RIL_CDMA_NumberInfoRecord
  | SignalRec RIL_CDMA_SignalInfoRecord
  | RedirRec RIL_CDMA_NumberInfoRecord i32
  | LineCtrlRec i32 i32 i32 i32
  | ClirRec i32
  | AudioCtrlRec i32 i32

record RIL_CDMA_InformationRecord =
  info_name :: i32
  info_rec :: info_union

record RIL_CDMA_InformationRecords =
  numberOfInfoRecs :: i32
  infoRecs :: "RIL_CDMA_InformationRecord list"

record RIL_CDMA_CallWaiting_v6 =
  cw_number :: cstr
  cw_numberPresentation :: i32
  cw_name :: cstr
  cw_signalInfoRecord :: RIL_CDMA_SignalInfoRecord
  cw_number_type :: i32
  cw_number_plan :: i32

section \<open>Signal and cells\<close>

record RIL_LTE_SignalStrength =
  lte_signalStrength :: i32
  lte_rsrp :: i32
  lte_rsrq :: i32
  lte_rssnr :: i32
  lte_cqi :: i32

record RIL_SignalStrength_v10 =
  gw_signalStrength :: i32
  gw_bitErrorRate :: i32
  cdma_dbm :: i32
  cdma_ecio :: i32
  evdo_dbm :: i32
  evdo_ecio :: i32
  evdo_signalNoiseRatio :: i32
  LTE_SignalStrength :: RIL_LTE_SignalStrength
  td_rscp :: i32

text \<open>The union \<open>CellInfo\<close>, by member: cell identity, then signal strength.\<close>

datatype cell_union =
    CellGsm (gsm_mcc: i32) (gsm_mnc: i32) (gsm_lac: i32) (gsm_cid: i32) (gsm_ss: i32) (gsm_ber: i32)
  | CellWcdma (wcdma_mcc: i32) (wcdma_mnc: i32) (wcdma_lac: i32) (wcdma_cid: i32) (wcdma_psc: i32)
      (wcdma_ss: i32) (wcdma_ber: i32)
  | CellCdma (networkId: i32) (systemId: i32) (basestationId: i32) (longitude: i32) (latitude: i32)
      (c_dbm: i32) (c_ecio: i32) (e_dbm: i32) (e_ecio: i32) (e_snr: i32)
  | CellLte (l_mcc: i32) (l_mnc: i32) (l_ci: i32) (l_pci: i32) (l_tac: i32)
      (l_ss: i32) (l_rsrp: i32) (l_rsrq: i32) (l_rssnr: i32) (l_cqi: i32) (l_timingAdvance: i32)
  | CellTdscdma (t_mcc: i32) (t_mnc: i32) (t_lac: i32) (t_cid: i32) (t_cpid: i32) (t_rscp: i32)

record RIL_CellInfo =
  cellInfoType :: i32
  registered :: i32
  timeStampType :: i32
  timeStamp :: i64
  CellInfo :: cell_union

section \<open>Card, registration, hardware and supplementary services\<close>

record RIL_AppStatus =
  app_type :: i32
  app_state :: i32
  perso_substate :: i32
  aid_ptr :: cstr
  app_label_ptr :: cstr
  pin1_replaced :: i32
  app_pin1 :: i32
  app_pin2 :: i32

definition RIL_CARD_MAX_APPS :: nat where "RIL_CARD_MAX_APPS = 8"
definition RIL_MAX_CARDS :: nat where "RIL_MAX_CARDS = 1"

record RIL_CardStatus_v3 =
  card_state :: i32
  universal_pin_state :: i32
  num_current_3gpp_indexes :: i32
  subscription_3gpp_app_index :: "i32 list"
  num_current_3gpp2_indexes :: i32
  subscription_3gpp2_app_index :: "i32 list"
  num_applications :: i32
  applications :: "RIL_AppStatus list"

record RIL_CardList_v3 =
  num_cards :: i32
  card :: "RIL_CardStatus_v3 list"

definition sizeof_RIL_CardList_v3 :: "ril_h \<Rightarrow> nat" where
  "sizeof_RIL_CardList_v3 H =
     4 + RIL_MAX_CARDS * (4 + 4 + 4 + 4 * RIL_CARD_MAX_APPS + 4 + 4 * RIL_CARD_MAX_APPS + 4
       + RIL_CARD_MAX_APPS * hsizeof H ''RIL_AppStatus'')"

record RIL_RegistrationStateRecord_v3 =
  numElements :: i32
  regState :: "cstr list"

record RIL_RegistrationStates_v3 =
  reg_records :: "RIL_RegistrationStateRecord_v3 list"

definition sizeof_RIL_RegistrationStates_v3 :: nat where
  "sizeof_RIL_RegistrationStates_v3 = RIL_MAX_NETWORKS * 8"

record RIL_SimRefreshResponse_v7 =
  refresh_result :: i32
  refresh_ef_id :: i32
  refresh_aid :: cstr

datatype hw_union = HwModem (hw_rat: i32) (maxVoice: i32) (maxData: i32) (maxStandby: i32)
  | HwSim (modemUuid: string)

record RIL_HardwareConfig =
  hw_type :: i32
  hw_uuid :: string
  hw_state :: i32
  hw_cfg :: hw_union

datatype ss_union = CfData (numValidIndexes: i32) (cfInfo: "RIL_CallForwardInfo list")
  | SsInfo (ssInfo: "i32 list")

record RIL_StkCcUnsolSsResponse =
  ss_serviceType :: i32
  ss_requestType :: i32
  ss_teleserviceType :: i32
  ss_serviceClass :: i32
  ss_result :: i32
  ss_data :: ss_union

record RIL_DcRtInfo =
  dcrt_time :: i64
  powerState :: i32

record RIL_LceStatusInfo =
  lce_status :: u8
  actual_interval_ms :: i32

record RIL_LceDataInfo =
  last_hop_capacity_kbps :: i32
  confidence_level :: u8
  lce_suspended :: u8

record RIL_ActivityStatsInfo =
  sleep_mode_time_ms :: i32
  idle_mode_time_ms :: i32
  tx_mode_time_ms :: "i32 list"
  rx_mode_time_ms :: i32

section \<open>The response pointer\<close>

text \<open>An object in memory; arrays of pointers stand for the objects pointed at.\<close>

datatype cdata =
    Ints (un_Ints: "i32 list")
  | Strs (un_Strs: "cstr list")
  | Str (un_Str: string)
  | Bytes (un_Bytes: "u8 list")
  | FailCause (un_FailCause: RIL_LastCallFailCauseInfo)
  | Calls (un_Calls: "RIL_Call list")
  | SmsResponse (un_SmsResponse: RIL_SMS_Response)
  | DataCallsV4 (un_DataCallsV4: "RIL_Data_Call_Response_v4 list")
  | DataCallsV6 (un_DataCallsV6: "RIL_Data_Call_Response_v11 list")
  | DataCallsV9 (un_DataCallsV9: "RIL_Data_Call_Response_v11 list")
  | DataCallsV11 (un_DataCallsV11: "RIL_Data_Call_Response_v11 list")
  | SimIOResponse (un_SimIOResponse: RIL_SIM_IO_Response)
  | CallForwards (un_CallForwards: "RIL_CallForwardInfo list")
  | Ssn (un_Ssn: RIL_SuppSvcNotification)
  | Cells (un_Cells: "RIL_NeighboringCell list")
  | SignalInfo (un_SignalInfo: RIL_CDMA_SignalInfoRecord)
  | InfoRecords (un_InfoRecords: RIL_CDMA_InformationRecords)
  | SignalStrength (un_SignalStrength: RIL_SignalStrength_v10)
  | CallWaiting (un_CallWaiting: RIL_CDMA_CallWaiting_v6)
  | SimRefresh (un_SimRefresh: RIL_SimRefreshResponse_v7)
  | CellInfos (un_CellInfos: "RIL_CellInfo list")
  | HardwareConfigs (un_HardwareConfigs: "RIL_HardwareConfig list")
  | RadioCap (un_RadioCap: RIL_RadioCapability)
  | StkCcSs (un_StkCcSs: RIL_StkCcUnsolSsResponse)
  | CardList (un_CardList: RIL_CardList_v3)
  | RegStates (un_RegStates: RIL_RegistrationStates_v3)
  | GsmBci (un_GsmBci: "RIL_GSM_BroadcastSmsConfigInfo list")
  | CdmaBci (un_CdmaBci: "RIL_CDMA_BroadcastSmsConfigInfo list")
  | CdmaSms (un_CdmaSms: RIL_CDMA_SMS_Message)
  | DcRt (un_DcRt: RIL_DcRtInfo)
  | LceData (un_LceData: RIL_LceDataInfo)

text \<open>Reading the response through a pointer of one type: another object there is a bad cast.\<close>

definition cast :: "(cdata \<Rightarrow> bool) \<Rightarrow> (cdata \<Rightarrow> 'a) \<Rightarrow> cdata option \<Rightarrow> 'a option result" where
  "cast P u r = (case r of None \<Rightarrow> Inr None | Some d \<Rightarrow> if P d then Inr (Some (u d)) else Inl BadCast)"

definition with_cast ::
  "(cdata \<Rightarrow> bool) \<Rightarrow> (cdata \<Rightarrow> 'a) \<Rightarrow> cdata option \<Rightarrow> ('a option \<Rightarrow> ('p, i32 result) state)
    \<Rightarrow> ('p, i32 result) state" where
  "with_cast P u r f = (case cast P u r of Inl e \<Rightarrow> ret (Inl e) | Inr x \<Rightarrow> f x)"

text \<open>The first \<open>n\<close> elements of an array, for a loop that reads them in order.\<close>

definition elems :: "nat \<Rightarrow> 'a list option \<Rightarrow> 'a list result" where
  "elems n r = (if n = 0 then Inr [] else case r of None \<Rightarrow> Inl NullDeref
     | Some xs \<Rightarrow> if n \<le> length xs then Inr (take n xs) else Inl OutOfBounds)"

definition RIL_ERRNO_INVALID_RESPONSE :: i32 where
  "RIL_ERRNO_INVALID_RESPONSE = - 1"

abbreviation invalid_response :: "('p, i32 result) state" where
  "invalid_response \<equiv> ret (Inr RIL_ERRNO_INVALID_RESPONSE)"

end
