(* ===== verification/Ril_Response.thy ===== *)
theory Ril_Response
  imports Ril_Response_Types
begin

text \<open>
  The response functions of libril/ril.cpp, first part: each checks the pointer and the length it is
  given and marshals the object into the parcel of the answer. It returns 0 or
  \<open>RIL_ERRNO_INVALID_RESPONSE\<close>, or the fault the code runs into.
\<close>

section \<open>Integers and strings\<close>

definition responseInts :: "'p ext \<Rightarrow> i32 list option \<Rightarrow> nat \<Rightarrow> ('p, i32 result) state" where
  "responseInts E response responselen =
     (if response = None \<and> responselen \<noteq> 0 then invalid_response
      else if responselen mod sizeof_int \<noteq> 0 then invalid_response
      else let numInts = responselen div sizeof_int in do {
        p_writeInt32 E (word_of_nat numInts);
        case elems numInts response of
          Inl f \<Rightarrow> ret (Inl f)
        | Inr xs \<Rightarrow> do { mapM_unit xs (p_writeInt32 E); ret (Inr 0) } })"

definition responseFailCause ::
  "'p ext \<Rightarrow> ril_h \<Rightarrow> cdata option \<Rightarrow> nat \<Rightarrow> ('p, i32 result) state" where
  "responseFailCause E H response responselen =
     (if response = None \<and> responselen \<noteq> 0 then invalid_response
      else if responselen = sizeof_int then
        with_cast is_Ints un_Ints response (\<lambda>r. case elems 1 r of
            Inl f \<Rightarrow> ret (Inl f)
          | Inr xs \<Rightarrow> do { p_writeInt32 E (hd xs); ret (Inr 0) })
      else if responselen = hsizeof H ''RIL_LastCallFailCauseInfo'' then
        with_cast is_FailCause un_FailCause response (\<lambda>r. case r of
            None \<Rightarrow> ret (Inl NullDeref)
          | Some i \<Rightarrow> do {
              p_writeInt32 E (cause_code i);
              writeStringToParcel E (vendor_cause i);
              ret (Inr 0) })
      else invalid_response)"

definition responseStrings :: "'p ext \<Rightarrow> cstr list option \<Rightarrow> nat \<Rightarrow> ('p, i32 result) state" where
  "responseStrings E response responselen =
     (if response = None \<and> responselen \<noteq> 0 then invalid_response
      else if responselen mod sizeof_ptr \<noteq> 0 then invalid_response
      else if response = None then do { p_writeInt32 E 0; ret (Inr 0) }
      else let numStrings = responselen div sizeof_ptr in do {
        p_writeInt32 E (word_of_nat numStrings);
        case elems numStrings response of
          Inl f \<Rightarrow> ret (Inl f)
        | Inr ss \<Rightarrow> do { mapM_unit ss (writeStringToParcel E); ret (Inr 0) } })"

definition responseStringsWithVersion ::
  "i32 \<Rightarrow> 'p ext \<Rightarrow> cstr list option \<Rightarrow> nat \<Rightarrow> ('p, i32 result) state" where
  "responseStringsWithVersion version E response responselen = do {
     p_writeInt32 E version;
     responseStrings E response responselen
   }"

definition responseString :: "'p ext \<Rightarrow> string option \<Rightarrow> nat \<Rightarrow> ('p, i32 result) state" where
  "responseString E response responselen = do {
     writeStringToParcel E response;
     ret (Inr 0)
   }"

definition responseVoid :: "'p ext \<Rightarrow> ('p, i32 result) state" where
  "responseVoid E = ret (Inr 0)"

section \<open>Calls and short messages\<close>

definition writeUusInfo :: "'p ext \<Rightarrow> RIL_UUS_Info \<Rightarrow> u8 list \<Rightarrow> ('p, unit) state" where
  "writeUusInfo E uus dat = do {
     p_writeInt32 E 1;
     p_writeInt32 E (uusType uus);
     p_writeInt32 E (uusDcs uus);
     p_writeInt32 E (uusLength uus);
     p_write E (take (unat (uusLength uus)) dat)
   }"

definition writeCall :: "'p ext \<Rightarrow> i32 \<Rightarrow> RIL_Call \<Rightarrow> ('p, unit) state" where
  "writeCall E version c = do {
     p_writeInt32 E (call_state c);
     p_writeInt32 E (call_index c);
     p_writeInt32 E (call_toa c);
     p_writeInt32 E (isMpty c);
     p_writeInt32 E (isMT c);
     p_writeInt32 E (als c);
     p_writeInt32 E (isVoice c);
     p_writeInt32 E (isVoicePrivacy c);
     writeStringToParcel E (call_number c);
     p_writeInt32 E (numberPresentation c);
     writeStringToParcel E (call_name c);
     p_writeInt32 E (namePresentation c);
     if sint version < 3 then p_writeInt32 E 0
     else case call_uusInfo c of
         None \<Rightarrow> p_writeInt32 E 0
       | Some uus \<Rightarrow> (case uusData uus of
           None \<Rightarrow> p_writeInt32 E 0
         | Some dat \<Rightarrow> writeUusInfo E uus dat)
   }"

definition responseCallList ::
  "'p ext \<Rightarrow> i32 \<Rightarrow> RIL_Call list option \<Rightarrow> nat \<Rightarrow> ('p, i32 result) state" where
  "responseCallList E version response responselen =
     (if response = None \<and> responselen \<noteq> 0 then invalid_response
      else if responselen mod sizeof_ptr \<noteq> 0 then invalid_response
      else let num = responselen div sizeof_ptr in do {
        p_writeInt32 E (word_of_nat num);
        case elems num response of
          Inl f \<Rightarrow> ret (Inl f)
        | Inr cs \<Rightarrow> do { mapM_unit cs (writeCall E version); ret (Inr 0) } })"

definition responseSMS ::
  "'p ext \<Rightarrow> ril_h \<Rightarrow> RIL_SMS_Response option \<Rightarrow> nat \<Rightarrow> ('p, i32 result) state" where
  "responseSMS E H response responselen = (case response of
       None \<Rightarrow> invalid_response
     | Some p_cur \<Rightarrow>
         if responselen \<noteq> hsizeof H ''RIL_SMS_Response'' then invalid_response
         else do {
           p_writeInt32 E (sms_messageRef p_cur);
           writeStringToParcel E (ackPDU p_cur);
           p_writeInt32 E (sms_errorCode p_cur);
           ret (Inr 0)
         })"

text \<open>The strings of an available-networks answer without every fifth one.\<close>

fun skip_fifth :: "nat \<Rightarrow> 'a list \<Rightarrow> 'a list" where
  "skip_fifth i [] = []"
| "skip_fifth i (x # xs) =
     (if (i + 1) mod 5 = 0 then skip_fifth (i + 1) xs else x # skip_fifth (i + 1) xs)"

definition responseAvailableNetworks ::
  "'p ext \<Rightarrow> cstr list option \<Rightarrow> nat \<Rightarrow> ('p, i32 result) state" where
  "responseAvailableNetworks E response responselen =
     (if response = None \<and> responselen \<noteq> 0 then invalid_response
      else if responselen mod sizeof_ptr \<noteq> 0 then invalid_response
      else if response = None then do { p_writeInt32 E 0; ret (Inr 0) }
      else let numStrings = responselen div sizeof_ptr;
               finalQANelements = numStrings div 5 * 4 in do {
        p_writeInt32 E (word_of_nat finalQANelements);
        case elems numStrings response of
          Inl f \<Rightarrow> ret (Inl f)
        | Inr ss \<Rightarrow> do { mapM_unit (skip_fifth 0 ss) (writeStringToParcel E); ret (Inr 0) } })"

section \<open>Data calls\<close>

definition responseDataCallListV4 ::
  "'p ext \<Rightarrow> ril_h \<Rightarrow> RIL_Data_Call_Response_v4 list option \<Rightarrow> nat \<Rightarrow> ('p, i32 result) state" where
  "responseDataCallListV4 E H response responselen =
     (let sz = hsizeof H ''RIL_Data_Call_Response_v4'' in
      if response = None \<and> responselen \<noteq> 0 then invalid_response
      else if responselen mod sz \<noteq> 0 then invalid_response
      else let num = responselen div sz in do {
        p_writeInt32 E 4;
        p_writeInt32 E (word_of_nat num);
        case elems num response of
          Inl f \<Rightarrow> ret (Inl f)
        | Inr cs \<Rightarrow> do {
            mapM_unit cs (\<lambda>c. do {
              p_writeInt32 E (v4_cid c);
              p_writeInt32 E (v4_active c);
              writeStringToParcel E (v4_type c);
              writeStringToParcel E (v4_address c) });
            ret (Inr 0) } })"

text \<open>The members a version 6 call has.\<close>

definition writeDataCallV6 :: "'p ext \<Rightarrow> RIL_Data_Call_Response_v11 \<Rightarrow> ('p, unit) state" where
  "writeDataCallV6 E c = do {
     p_writeInt32 E (dc_status c);
     p_writeInt32 E (suggestedRetryTime c);
     p_writeInt32 E (dc_cid c);
     p_writeInt32 E (dc_active c);
     writeStringToParcel E (dc_type c);
     writeStringToParcel E (dc_ifname c);
     writeStringToParcel E (dc_addresses c);
     writeStringToParcel E (dc_dnses c);
     writeStringToParcel E (dc_gateways c)
   }"

definition responseDataCallListV6 ::
  "'p ext \<Rightarrow> ril_h \<Rightarrow> RIL_Data_Call_Response_v11 list option \<Rightarrow> nat \<Rightarrow> ('p, i32 result) state" where
  "responseDataCallListV6 E H response responselen =
     (let sz = hsizeof H ''RIL_Data_Call_Response_v6'' in
      if response = None \<and> responselen \<noteq> 0 then invalid_response
      else if responselen mod sz \<noteq> 0 then invalid_response
      else let num = responselen div sz in do {
        p_writeInt32 E 6;
        p_writeInt32 E (word_of_nat num);
        case elems num response of
          Inl f \<Rightarrow> ret (Inl f)
        | Inr cs \<Rightarrow> do { mapM_unit cs (writeDataCallV6 E); ret (Inr 0) } })"

definition writeDataCallV9 :: "'p ext \<Rightarrow> RIL_Data_Call_Response_v11 \<Rightarrow> ('p, unit) state" where
  "writeDataCallV9 E c = do {
     writeDataCallV6 E c;
     writeStringToParcel E (dc_pcscf c)
   }"

definition responseDataCallListV9 ::
  "'p ext \<Rightarrow> ril_h \<Rightarrow> RIL_Data_Call_Response_v11 list option \<Rightarrow> nat \<Rightarrow> ('p, i32 result) state" where
  "responseDataCallListV9 E H response responselen =
     (let sz = hsizeof H ''RIL_Data_Call_Response_v9'' in
      if response = None \<and> responselen \<noteq> 0 then invalid_response
      else if responselen mod sz \<noteq> 0 then invalid_response
      else let num = responselen div sz in do {
        p_writeInt32 E 10;
        p_writeInt32 E (word_of_nat num);
        case elems num response of
          Inl f \<Rightarrow> ret (Inl f)
        | Inr cs \<Rightarrow> do { mapM_unit cs (writeDataCallV9 E); ret (Inr 0) } })"

definition writeDataCallV11 :: "'p ext \<Rightarrow> RIL_Data_Call_Response_v11 \<Rightarrow> ('p, unit) state" where
  "writeDataCallV11 E c = do {
     writeDataCallV9 E c;
     p_writeInt32 E (dc_mtu c)
   }"

definition responseDataCallListV11 ::
  "'p ext \<Rightarrow> ril_h \<Rightarrow> RIL_Data_Call_Response_v11 list option \<Rightarrow> nat \<Rightarrow> ('p, i32 result) state" where
  "responseDataCallListV11 E H response responselen =
     (let sz = hsizeof H ''RIL_Data_Call_Response_v11'' in
      if response = None \<and> responselen \<noteq> 0 then invalid_response
      else if responselen mod sz \<noteq> 0 then invalid_response
      else let num = responselen div sz in do {
        p_writeInt32 E 11;
        p_writeInt32 E (word_of_nat num);
        case elems num response of
          Inl f \<Rightarrow> ret (Inl f)
        | Inr cs \<Rightarrow> do { mapM_unit cs (writeDataCallV11 E); ret (Inr 0) } })"

definition responseDataCallList ::
  "'p ext \<Rightarrow> ril_h \<Rightarrow> i32 \<Rightarrow> cdata option \<Rightarrow> nat \<Rightarrow> ('p, i32 result) state" where
  "responseDataCallList E H version response responselen =
     (if sint version < 5 then
        with_cast is_DataCallsV4 un_DataCallsV4 response
          (\<lambda>r. responseDataCallListV4 E H r responselen)
      else if responselen mod hsizeof H ''RIL_Data_Call_Response_v6'' = 0 then
        with_cast is_DataCallsV6 un_DataCallsV6 response
          (\<lambda>r. responseDataCallListV6 E H r responselen)
      else if responselen mod hsizeof H ''RIL_Data_Call_Response_v9'' = 0 then
        with_cast is_DataCallsV9 un_DataCallsV9 response
          (\<lambda>r. responseDataCallListV9 E H r responselen)
      else
        with_cast is_DataCallsV11 un_DataCallsV11 response
          (\<lambda>r. responseDataCallListV11 E H r responselen))"

definition responseSetupDataCall ::
  "'p ext \<Rightarrow> ril_h \<Rightarrow> i32 \<Rightarrow> cdata option \<Rightarrow> nat \<Rightarrow> ('p, i32 result) state" where
  "responseSetupDataCall E H version response responselen =
     (if sint version < 5 then
        with_cast is_Strs un_Strs response
          (\<lambda>r. responseStringsWithVersion version E r responselen)
      else responseDataCallList E H version response responselen)"

section \<open>Raw data, SIM files, forwarding, notifications and cells\<close>

definition responseRaw :: "'p ext \<Rightarrow> u8 list option \<Rightarrow> nat \<Rightarrow> ('p, i32 result) state" where
  "responseRaw E response responselen =
     (if response = None \<and> responselen \<noteq> 0 then invalid_response
      else case response of
          None \<Rightarrow> do { p_writeInt32 E (- 1); ret (Inr 0) }
        | Some bs \<Rightarrow> do {
            p_writeInt32 E (word_of_nat responselen);
            case elems responselen response of
              Inl f \<Rightarrow> ret (Inl f)
            | Inr xs \<Rightarrow> do { p_write E xs; ret (Inr 0) } })"

definition responseSIM_IO ::
  "'p ext \<Rightarrow> ril_h \<Rightarrow> RIL_SIM_IO_Response option \<Rightarrow> nat \<Rightarrow> ('p, i32 result) state" where
  "responseSIM_IO E H response responselen = (case response of
       None \<Rightarrow> invalid_response
     | Some p_cur \<Rightarrow>
         if responselen \<noteq> hsizeof H ''RIL_SIM_IO_Response'' then invalid_response
         else do {
           p_writeInt32 E (sw1 p_cur);
           p_writeInt32 E (sw2 p_cur);
           writeStringToParcel E (simResponse p_cur);
           ret (Inr 0)
         })"

definition writeCallForward :: "'p ext \<Rightarrow> RIL_CallForwardInfo \<Rightarrow> ('p, unit) state" where
  "writeCallForward E c = do {
     p_writeInt32 E (cf_status c);
     p_writeInt32 E (cf_reason c);
     p_writeInt32 E (cf_serviceClass c);
     p_writeInt32 E (cf_toa c);
     writeStringToParcel E (cf_number c);
     p_writeInt32 E (cf_timeSeconds c)
   }"

definition responseCallForwards ::
  "'p ext \<Rightarrow> RIL_CallForwardInfo list option \<Rightarrow> nat \<Rightarrow> ('p, i32 result) state" where
  "responseCallForwards E response responselen =
     (if response = None \<and> responselen \<noteq> 0 then invalid_response
      else if responselen mod sizeof_ptr \<noteq> 0 then invalid_response
      else let num = responselen div sizeof_ptr in do {
        p_writeInt32 E (word_of_nat num);
        case elems num response of
          Inl f \<Rightarrow> ret (Inl f)
        | Inr cs \<Rightarrow> do { mapM_unit cs (writeCallForward E); ret (Inr 0) } })"

definition responseSsn ::
  "'p ext \<Rightarrow> ril_h \<Rightarrow> RIL_SuppSvcNotification option \<Rightarrow> nat \<Rightarrow> ('p, i32 result) state" where
  "responseSsn E H response responselen = (case response of
       None \<Rightarrow> invalid_response
     | Some p_cur \<Rightarrow>
         if responselen \<noteq> hsizeof H ''RIL_SuppSvcNotification'' then invalid_response
         else do {
           p_writeInt32 E (notificationType p_cur);
           p_writeInt32 E (ssn_code p_cur);
           p_writeInt32 E (ssn_index p_cur);
           p_writeInt32 E (ssn_type p_cur);
           writeStringToParcel E (ssn_number p_cur);
           ret (Inr 0)
         })"

definition responseCellList ::
  "'p ext \<Rightarrow> RIL_NeighboringCell list option \<Rightarrow> nat \<Rightarrow> ('p, i32 result) state" where
  "responseCellList E response responselen =
     (if response = None \<and> responselen \<noteq> 0 then invalid_response
      else if responselen mod sizeof_ptr \<noteq> 0 then invalid_response
      else let num = responselen div sizeof_ptr in do {
        p_writeInt32 E (word_of_nat num);
        case elems num response of
          Inl f \<Rightarrow> ret (Inl f)
        | Inr cs \<Rightarrow> do {
            mapM_unit cs (\<lambda>c. do {
              p_writeInt32 E (nc_rssi c);
              writeStringToParcel E (nc_cid c) });
            ret (Inr 0) } })"

end
