(* ===== verification/Ril_Response_More.thy ===== *)
theory Ril_Response_More
  imports Ril_Response
begin

text \<open>
  The response functions of libril/ril.cpp, second part: the CDMA records and messages, signal
  strength and SIM refresh. A buffer in a record is the whole array of the structure.
\<close>

section \<open>CDMA\<close>

definition marshallSignalInfoRecord :: "'p ext \<Rightarrow> RIL_CDMA_SignalInfoRecord \<Rightarrow> ('p, unit) state" where
  "marshallSignalInfoRecord E r = do {
     p_writeInt32 E (isPresent r);
     p_writeInt32 E (signalType r);
     p_writeInt32 E (alertPitch r);
     p_writeInt32 E (signal_code r)
   }"

text \<open>
  The copy of the first \<open>n\<close> characters of a buffer that is terminated and written as a C string:
  it ends at the first NUL.
\<close>

definition info_string :: "u8 \<Rightarrow> string \<Rightarrow> string" where
  "info_string n buf = takeWhile (\<lambda>c. c \<noteq> CHR 0x00) (take (unat n) buf)"

definition writeNumberInfo :: "'p ext \<Rightarrow> RIL_CDMA_NumberInfoRecord \<Rightarrow> ('p, unit) state" where
  "writeNumberInfo E r = do {
     writeStringToParcel E (Some (info_string (ninfo_len r) (ninfo_buf r)));
     p_writeInt32 E (ninfo_number_type r);
     p_writeInt32 E (ninfo_number_plan r);
     p_writeInt32 E (ninfo_pi r);
     p_writeInt32 E (ninfo_si r)
   }"

text \<open>One iteration of the loop over the records; \<open>None\<close> is going on with the next one.\<close>

definition writeInfoRec ::
  "'p ext \<Rightarrow> ril_h \<Rightarrow> RIL_CDMA_InformationRecord \<Rightarrow> ('p, i32 result option) state" where
  "writeInfoRec E H infoRec = do {
     p_writeInt32 E (info_name infoRec);
     let name = info_name infoRec;
     let amax = hval H ''CDMA_ALPHA_INFO_BUFFER_LENGTH'';
     let nmax = hval H ''CDMA_NUMBER_INFO_BUFFER_LENGTH'';
     let invalid = ret (Some (Inr RIL_ERRNO_INVALID_RESPONSE));
     let bad = ret (Some (Inl BadCast));
     if name = hword H ''RIL_CDMA_DISPLAY_INFO_REC''
        \<or> name = hword H ''RIL_CDMA_EXTENDED_DISPLAY_INFO_REC'' then
       (case info_rec infoRec of
          DisplayRec alpha_len alpha_buf \<Rightarrow>
            if uint alpha_len > amax then invalid
            else do {
              writeStringToParcel E (Some (info_string alpha_len alpha_buf));
              ret None }
        | _ \<Rightarrow> bad)
     else if name = hword H ''RIL_CDMA_CALLED_PARTY_NUMBER_INFO_REC''
        \<or> name = hword H ''RIL_CDMA_CALLING_PARTY_NUMBER_INFO_REC''
        \<or> name = hword H ''RIL_CDMA_CONNECTED_NUMBER_INFO_REC'' then
       (case info_rec infoRec of
          NumberRec r \<Rightarrow>
            if uint (ninfo_len r) > nmax then invalid
            else do { writeNumberInfo E r; ret None }
        | _ \<Rightarrow> bad)
     else if name = hword H ''RIL_CDMA_SIGNAL_INFO_REC'' then
       (case info_rec infoRec of
          SignalRec r \<Rightarrow> do { marshallSignalInfoRecord E r; ret None }
        | _ \<Rightarrow> bad)
     else if name = hword H ''RIL_CDMA_REDIRECTING_NUMBER_INFO_REC'' then
       (case info_rec infoRec of
          RedirRec r reason \<Rightarrow>
            if uint (ninfo_len r) > nmax then invalid
            else do { writeNumberInfo E r; p_writeInt32 E reason; ret None }
        | _ \<Rightarrow> bad)
     else if name = hword H ''RIL_CDMA_LINE_CONTROL_INFO_REC'' then
       (case info_rec infoRec of
          LineCtrlRec polarity toggle reverse denial \<Rightarrow> do {
            p_writeInt32 E polarity; p_writeInt32 E toggle;
            p_writeInt32 E reverse; p_writeInt32 E denial; ret None }
        | _ \<Rightarrow> bad)
     else if name = hword H ''RIL_CDMA_T53_CLIR_INFO_REC'' then
       (case info_rec infoRec of
          ClirRec cause \<Rightarrow> do { p_writeInt32 E cause; ret None }
        | _ \<Rightarrow> bad)
     else if name = hword H ''RIL_CDMA_T53_AUDIO_CONTROL_INFO_REC'' then
       (case info_rec infoRec of
          AudioCtrlRec up down \<Rightarrow> do { p_writeInt32 E up; p_writeInt32 E down; ret None }
        | _ \<Rightarrow> bad)
     else invalid
   }"

fun writeInfoRecs ::
  "'p ext \<Rightarrow> ril_h \<Rightarrow> RIL_CDMA_InformationRecord list \<Rightarrow> ('p, i32 result) state" where
  "writeInfoRecs E H [] = ret (Inr 0)"
| "writeInfoRecs E H (r # rs) = do {
     x \<leftarrow> writeInfoRec E H r;
     case x of None \<Rightarrow> writeInfoRecs E H rs | Some y \<Rightarrow> ret y
   }"

definition responseCdmaInformationRecords ::
  "'p ext \<Rightarrow> ril_h \<Rightarrow> RIL_CDMA_InformationRecords option \<Rightarrow> nat \<Rightarrow> ('p, i32 result) state" where
  "responseCdmaInformationRecords E H response responselen =
     (if response = None \<and> responselen \<noteq> 0 then invalid_response
      else if responselen \<noteq> hsizeof H ''RIL_CDMA_InformationRecords'' then invalid_response
      else case response of
          None \<Rightarrow> ret (Inl NullDeref)
        | Some p_cur \<Rightarrow>
            let num = min (sint (numberOfInfoRecs p_cur))
                          (hval H ''RIL_CDMA_MAX_NUMBER_OF_INFO_RECS'') in do {
            p_writeInt32 E (word_of_int num);
            case elems (nat num) (Some (infoRecs p_cur)) of
              Inl f \<Rightarrow> ret (Inl f)
            | Inr rs \<Rightarrow> writeInfoRecs E H rs })"

definition responseCdmaSignalInfoRecord ::
  "'p ext \<Rightarrow> ril_h \<Rightarrow> RIL_CDMA_SignalInfoRecord option \<Rightarrow> nat \<Rightarrow> ('p, i32 result) state" where
  "responseCdmaSignalInfoRecord E H response responselen =
     (if responselen = 0 then invalid_response
      else case response of
          None \<Rightarrow> invalid_response
        | Some p_cur \<Rightarrow>
            if responselen \<noteq> hsizeof H ''RIL_CDMA_SignalInfoRecord'' then invalid_response
            else do { marshallSignalInfoRecord E p_cur; ret (Inr 0) })"

definition responseCallRing ::
  "'p ext \<Rightarrow> ril_h \<Rightarrow> RIL_CDMA_SignalInfoRecord option \<Rightarrow> nat \<Rightarrow> ('p, i32 result) state" where
  "responseCallRing E H response responselen =
     (if response = None \<or> responselen = 0 then responseVoid E
      else responseCdmaSignalInfoRecord E H response responselen)"

definition responseCdmaCallWaiting ::
  "'p ext \<Rightarrow> ril_h \<Rightarrow> RIL_CDMA_CallWaiting_v6 option \<Rightarrow> nat \<Rightarrow> ('p, i32 result) state" where
  "responseCdmaCallWaiting E H response responselen =
     (if response = None \<and> responselen \<noteq> 0 then invalid_response
      else case response of
          None \<Rightarrow> ret (Inl NullDeref)
        | Some p_cur \<Rightarrow>
            let full = (responselen \<ge> hsizeof H ''RIL_CDMA_CallWaiting_v6'') in do {
            writeStringToParcel E (cw_number p_cur);
            p_writeInt32 E (cw_numberPresentation p_cur);
            writeStringToParcel E (cw_name p_cur);
            marshallSignalInfoRecord E (cw_signalInfoRecord p_cur);
            p_writeInt32 E (if full then cw_number_type p_cur else 0);
            p_writeInt32 E (if full then cw_number_plan p_cur else 0);
            ret (Inr 0) })"

definition responseCdmaSms ::
  "'p ext \<Rightarrow> ril_h \<Rightarrow> RIL_CDMA_SMS_Message option \<Rightarrow> nat \<Rightarrow> ('p, i32 result) state" where
  "responseCdmaSms E H response responselen =
     (if response = None \<and> responselen \<noteq> 0 then invalid_response
      else if responselen \<noteq> hsizeof H ''RIL_CDMA_SMS_Message'' then invalid_response
      else case response of
          None \<Rightarrow> ret (Inl NullDeref)
        | Some p_cur \<Rightarrow>
            let a = sAddress p_cur; s = sSubAddress p_cur;
                amax = nat (hval H ''RIL_CDMA_SMS_ADDRESS_MAX'');
                smax = nat (hval H ''RIL_CDMA_SMS_SUBADDRESS_MAX'');
                bmax = nat (hval H ''RIL_CDMA_SMS_BEARER_DATA_MAX'') in do {
            p_writeInt32 E (uTeleserviceID p_cur);
            p_writeU8 E (bIsServicePresent p_cur);
            p_writeInt32 E (uServicecategory p_cur);
            p_writeInt32 E (digit_mode a);
            p_writeInt32 E (number_mode a);
            p_writeInt32 E (addr_number_type a);
            p_writeInt32 E (addr_number_plan a);
            p_writeU8 E (number_of_digits a);
            mapM_unit (take (min (unat (number_of_digits a)) amax) (addr_digits a)) (p_writeU8 E);
            p_writeInt32 E (subaddressType s);
            p_writeU8 E (sub_odd s);
            p_writeU8 E (sub_number_of_digits s);
            mapM_unit (take (min (unat (sub_number_of_digits s)) smax) (sub_digits s)) (p_writeU8 E);
            p_writeInt32 E (uBearerDataLen p_cur);
            mapM_unit (take (min (loop_count (uBearerDataLen p_cur)) bmax) (aBearerData p_cur))
              (p_writeU8 E);
            ret (Inr 0) })"

section \<open>Signal strength and SIM refresh\<close>

definition INT_MAX :: i32 where "INT_MAX = 0x7FFFFFFF"

text \<open>The fix-ups that a vendor library of version 6 or below needs for its LTE values.\<close>

definition fixup_LTE :: "RIL_LTE_SignalStrength \<Rightarrow> RIL_LTE_SignalStrength" where
  "fixup_LTE l = \<lparr>
     lte_signalStrength = (if lte_signalStrength l = - 1 then 99 else lte_signalStrength l),
     lte_rsrp = (if lte_rsrp l = - 1 then INT_MAX
                 else if sint (lte_rsrp l) < - 1 then - lte_rsrp l else lte_rsrp l),
     lte_rsrq = (if lte_rsrq l = - 1 then INT_MAX else lte_rsrq l),
     lte_rssnr = (if lte_rssnr l = 0 then INT_MAX else lte_rssnr l),
     lte_cqi = (if lte_cqi l = - 1 then INT_MAX else lte_cqi l)\<rparr>"

definition writeLTE :: "'p ext \<Rightarrow> RIL_LTE_SignalStrength \<Rightarrow> ('p, unit) state" where
  "writeLTE E l = do {
     p_writeInt32 E (lte_signalStrength l);
     p_writeInt32 E (lte_rsrp l);
     p_writeInt32 E (lte_rsrq l);
     p_writeInt32 E (lte_rssnr l);
     p_writeInt32 E (lte_cqi l)
   }"

definition responseRilSignalStrength ::
  "'p ext \<Rightarrow> ril_h \<Rightarrow> i32 \<Rightarrow> RIL_SignalStrength_v10 option \<Rightarrow> nat \<Rightarrow> ('p, i32 result) state" where
  "responseRilSignalStrength E H version response responselen =
     (if response = None \<and> responselen \<noteq> 0 then invalid_response
      else if responselen \<ge> hsizeof H ''RIL_SignalStrength_v5'' then
        case response of
          None \<Rightarrow> ret (Inl NullDeref)
        | Some p_cur \<Rightarrow> do {
            p_writeInt32 E (gw_signalStrength p_cur);
            p_writeInt32 E (gw_bitErrorRate p_cur);
            p_writeInt32 E (cdma_dbm p_cur);
            p_writeInt32 E (cdma_ecio p_cur);
            p_writeInt32 E (evdo_dbm p_cur);
            p_writeInt32 E (evdo_ecio p_cur);
            p_writeInt32 E (evdo_signalNoiseRatio p_cur);
            (if responselen \<ge> hsizeof H ''RIL_SignalStrength_v6'' then do {
              writeLTE E (if sint version \<le> 6 then fixup_LTE (LTE_SignalStrength p_cur)
                          else LTE_SignalStrength p_cur);
              p_writeInt32 E (if responselen \<ge> hsizeof H ''RIL_SignalStrength_v10''
                              then td_rscp p_cur else INT_MAX)
            } else do {
              p_writeInt32 E 99;
              mapM_unit [INT_MAX, INT_MAX, INT_MAX, INT_MAX, INT_MAX] (p_writeInt32 E)
            });
            ret (Inr 0) }
      else invalid_response)"

definition responseSimRefresh ::
  "'p ext \<Rightarrow> i32 \<Rightarrow> cdata option \<Rightarrow> nat \<Rightarrow> ('p, i32 result) state" where
  "responseSimRefresh E version response responselen =
     (if response = None \<and> responselen \<noteq> 0 then invalid_response
      else if version = 7 then
        with_cast is_SimRefresh un_SimRefresh response (\<lambda>r. case r of
            None \<Rightarrow> ret (Inl NullDeref)
          | Some p_cur \<Rightarrow> do {
              p_writeInt32 E (refresh_result p_cur);
              p_writeInt32 E (refresh_ef_id p_cur);
              writeStringToParcel E (refresh_aid p_cur);
              ret (Inr 0) })
      else
        with_cast is_Ints un_Ints response (\<lambda>r. case elems 2 r of
            Inl f \<Rightarrow> ret (Inl f)
          | Inr xs \<Rightarrow> do {
              p_writeInt32 E (xs ! 0);
              p_writeInt32 E (xs ! 1);
              writeStringToParcel E None;
              ret (Inr 0) }))"

end
