(* ===== verification/Ril_Response_Cells.thy ===== *)
theory Ril_Response_Cells
  imports Ril_Response_More
begin

text \<open>
  The response functions of libril/ril.cpp, third part: cells, hardware, supplementary services, card
  status, registration, cell broadcast and the link capacity messages, and the call through the
  \<open>responseFunction\<close> member of a table entry.
\<close>

section \<open>Cells and hardware\<close>

definition writeCellInfo :: "'p ext \<Rightarrow> ril_h \<Rightarrow> RIL_CellInfo \<Rightarrow> ('p, bool) state" where
  "writeCellInfo E H c = do {
     p_writeInt32 E (cellInfoType c);
     p_writeInt32 E (registered c);
     p_writeInt32 E (timeStampType c);
     p_writeInt64 E (timeStamp c);
     let ty = cellInfoType c;
     let ints = (\<lambda>xs. do { mapM_unit xs (p_writeInt32 E); ret True });
     if ty = hword H ''RIL_CELL_INFO_TYPE_GSM'' then
       (case CellInfo c of
          CellGsm mcc mnc lac cid ss ber \<Rightarrow> ints [mcc, mnc, lac, cid, ss, ber]
        | _ \<Rightarrow> ret False)
     else if ty = hword H ''RIL_CELL_INFO_TYPE_WCDMA'' then
       (case CellInfo c of
          CellWcdma mcc mnc lac cid psc ss ber \<Rightarrow> ints [mcc, mnc, lac, cid, psc, ss, ber]
        | _ \<Rightarrow> ret False)
     else if ty = hword H ''RIL_CELL_INFO_TYPE_CDMA'' then
       (case CellInfo c of
          CellCdma nid sid bsid long lat dbm ecio edbm eecio snr \<Rightarrow>
            ints [nid, sid, bsid, long, lat, dbm, ecio, edbm, eecio, snr]
        | _ \<Rightarrow> ret False)
     else if ty = hword H ''RIL_CELL_INFO_TYPE_LTE'' then
       (case CellInfo c of
          CellLte mcc mnc ci pci tac ss rsrp rsrq rssnr cqi ta \<Rightarrow>
            ints [mcc, mnc, ci, pci, tac, ss, rsrp, rsrq, rssnr, cqi, ta]
        | _ \<Rightarrow> ret False)
     else if ty = hword H ''RIL_CELL_INFO_TYPE_TD_SCDMA'' then
       (case CellInfo c of
          CellTdscdma mcc mnc lac cid cpid rscp \<Rightarrow> ints [mcc, mnc, lac, cid, cpid, rscp]
        | _ \<Rightarrow> ret False)
     else ret True
   }"

text \<open>A loop whose body can read the wrong member of a union.\<close>

fun mapM_cast :: "'a list \<Rightarrow> ('a \<Rightarrow> ('p, bool) state) \<Rightarrow> ('p, i32 result) state" where
  "mapM_cast [] f = ret (Inr 0)"
| "mapM_cast (x # xs) f = do {
     ok \<leftarrow> f x;
     if ok then mapM_cast xs f else ret (Inl BadCast)
   }"

definition responseCellInfoList ::
  "'p ext \<Rightarrow> ril_h \<Rightarrow> RIL_CellInfo list option \<Rightarrow> nat \<Rightarrow> ('p, i32 result) state" where
  "responseCellInfoList E H response responselen =
     (let sz = hsizeof H ''RIL_CellInfo'' in
      if response = None \<and> responselen \<noteq> 0 then invalid_response
      else if responselen mod sz \<noteq> 0 then invalid_response
      else let num = responselen div sz in do {
        p_writeInt32 E (word_of_nat num);
        case elems num response of
          Inl f \<Rightarrow> ret (Inl f)
        | Inr cs \<Rightarrow> mapM_cast cs (writeCellInfo E H) })"

definition writeHardwareConfig :: "'p ext \<Rightarrow> ril_h \<Rightarrow> RIL_HardwareConfig \<Rightarrow> ('p, bool) state" where
  "writeHardwareConfig E H c =
     (if hw_type c = hword H ''RIL_HARDWARE_CONFIG_MODEM'' then
        (case hw_cfg c of
           HwModem rat maxV maxD maxS \<Rightarrow> do {
             writeStringToParcel E (Some (hw_uuid c));
             p_writeInt32 E (hw_state c);
             mapM_unit [rat, maxV, maxD, maxS] (p_writeInt32 E);
             ret True }
         | HwSim _ \<Rightarrow> ret False)
      else if hw_type c = hword H ''RIL_HARDWARE_CONFIG_SIM'' then
        (case hw_cfg c of
           HwSim modem \<Rightarrow> do {
             writeStringToParcel E (Some (hw_uuid c));
             p_writeInt32 E (hw_state c);
             writeStringToParcel E (Some modem);
             ret True }
         | HwModem _ _ _ _ \<Rightarrow> ret False)
      else ret True)"

definition responseHardwareConfig ::
  "'p ext \<Rightarrow> ril_h \<Rightarrow> RIL_HardwareConfig list option \<Rightarrow> nat \<Rightarrow> ('p, i32 result) state" where
  "responseHardwareConfig E H response responselen =
     (let sz = hsizeof H ''RIL_HardwareConfig'' in
      if response = None \<and> responselen \<noteq> 0 then invalid_response
      else if responselen mod sz \<noteq> 0 then invalid_response
      else let num = responselen div sz in do {
        p_writeInt32 E (word_of_nat num);
        case elems num response of
          Inl f \<Rightarrow> ret (Inl f)
        | Inr cs \<Rightarrow> mapM_cast cs (writeHardwareConfig E H) })"

definition responseRadioCapability ::
  "'p ext \<Rightarrow> ril_h \<Rightarrow> RIL_RadioCapability option \<Rightarrow> nat \<Rightarrow> ('p, i32 result) state" where
  "responseRadioCapability E H response responselen = (case response of
       None \<Rightarrow> invalid_response
     | Some p_cur \<Rightarrow>
         if responselen \<noteq> hsizeof H ''RIL_RadioCapability'' then invalid_response
         else do {
           p_writeInt32 E (rc_version p_cur);
           p_writeInt32 E (rc_session p_cur);
           p_writeInt32 E (rc_phase p_cur);
           p_writeInt32 E (rc_rat p_cur);
           writeStringToParcel E (Some (logicalModemUuid p_cur));
           p_writeInt32 E (rc_status p_cur);
           ret (Inr 0)
         })"

section \<open>Supplementary services\<close>

definition isServiceTypeCfQuery :: "ril_h \<Rightarrow> i32 \<Rightarrow> i32 \<Rightarrow> bool" where
  "isServiceTypeCfQuery H serType reqType \<longleftrightarrow>
     reqType = hword H ''SS_INTERROGATION'' \<and>
     (serType = hword H ''SS_CFU'' \<or>
      serType = hword H ''SS_CF_BUSY'' \<or>
      serType = hword H ''SS_CF_NO_REPLY'' \<or>
      serType = hword H ''SS_CF_NOT_REACHABLE'' \<or>
      serType = hword H ''SS_CF_ALL'' \<or>
      serType = hword H ''SS_CF_ALL_CONDITIONAL'')"

definition responseSSData ::
  "'p ext \<Rightarrow> ril_h \<Rightarrow> RIL_StkCcUnsolSsResponse option \<Rightarrow> nat \<Rightarrow> ('p, i32 result) state" where
  "responseSSData E H response responselen =
     (if response = None \<and> responselen \<noteq> 0 then invalid_response
      else if responselen \<noteq> hsizeof H ''RIL_StkCcUnsolSsResponse'' then invalid_response
      else case response of
          None \<Rightarrow> ret (Inl NullDeref)
        | Some p_cur \<Rightarrow> do {
            p_writeInt32 E (ss_serviceType p_cur);
            p_writeInt32 E (ss_requestType p_cur);
            p_writeInt32 E (ss_teleserviceType p_cur);
            p_writeInt32 E (ss_serviceClass p_cur);
            p_writeInt32 E (ss_result p_cur);
            if isServiceTypeCfQuery H (ss_serviceType p_cur) (ss_requestType p_cur) then
              (case ss_data p_cur of
                 CfData n cfs \<Rightarrow>
                   let n' = (if sint n > hval H ''NUM_SERVICE_CLASSES''
                             then hword H ''NUM_SERVICE_CLASSES'' else n) in do {
                   p_writeInt32 E n';
                   case elems (loop_count n') (Some cfs) of
                     Inl f \<Rightarrow> ret (Inl f)
                   | Inr cs \<Rightarrow> do { mapM_unit cs (writeCallForward E); ret (Inr 0) } }
               | SsInfo _ \<Rightarrow> ret (Inl BadCast))
            else
              (case ss_data p_cur of
                 SsInfo xs \<Rightarrow> do {
                   p_writeInt32 E (hword H ''SS_INFO_MAX'');
                   case elems (nat (hval H ''SS_INFO_MAX'')) (Some xs) of
                     Inl f \<Rightarrow> ret (Inl f)
                   | Inr ys \<Rightarrow> do { mapM_unit ys (p_writeInt32 E); ret (Inr 0) } }
               | CfData _ _ \<Rightarrow> ret (Inl BadCast)) })"

section \<open>Card status and registration\<close>

definition writeAppStatus :: "'p ext \<Rightarrow> RIL_AppStatus \<Rightarrow> ('p, unit) state" where
  "writeAppStatus E a = do {
     p_writeInt32 E (app_type a);
     p_writeInt32 E (app_state a);
     p_writeInt32 E (perso_substate a);
     writeStringToParcel E (aid_ptr a);
     writeStringToParcel E (app_label_ptr a);
     p_writeInt32 E (pin1_replaced a);
     p_writeInt32 E (app_pin1 a);
     p_writeInt32 E (app_pin2 a)
   }"

definition sendSimStatusAppInfo ::
  "'p ext \<Rightarrow> i32 \<Rightarrow> RIL_AppStatus list \<Rightarrow> ('p, i32 result) state" where
  "sendSimStatusAppInfo E num_apps appStatus = do {
     p_writeInt32 E num_apps;
     case elems (loop_count num_apps) (Some appStatus) of
       Inl f \<Rightarrow> ret (Inl f)
     | Inr as \<Rightarrow> do { mapM_unit as (writeAppStatus E); ret (Inr 0) }
   }"

definition first_index :: "i32 \<Rightarrow> i32 list \<Rightarrow> i32" where
  "first_index n xs = (if sint n \<le> 0 then - 1 else hd xs)"

definition responseSimStatus ::
  "'p ext \<Rightarrow> ril_h \<Rightarrow> RIL_CardList_v3 option \<Rightarrow> nat \<Rightarrow> ('p, i32 result) state" where
  "responseSimStatus E H response responselen =
     (if response = None \<and> responselen \<noteq> 0 then invalid_response
      else if responselen \<noteq> sizeof_RIL_CardList_v3 H then invalid_response
      else case response of
          None \<Rightarrow> ret (Inl NullDeref)
        | Some p_cur \<Rightarrow>
            if num_cards p_cur = 0 then do {
              mapM_unit [0, 0, - 1, - 1, - 1, 0] (p_writeInt32 E);
              ret (Inr 0) }
            else let p_card = hd (card p_cur) in do {
              p_writeInt32 E (card_state p_card);
              p_writeInt32 E (universal_pin_state p_card);
              p_writeInt32 E (first_index (num_current_3gpp_indexes p_card)
                                          (subscription_3gpp_app_index p_card));
              p_writeInt32 E (first_index (num_current_3gpp2_indexes p_card)
                                          (subscription_3gpp2_app_index p_card));
              p_writeInt32 E (- 1);
              sendSimStatusAppInfo E (num_applications p_card) (applications p_card) })"

fun writeRegRecords :: "'p ext \<Rightarrow> RIL_RegistrationStateRecord_v3 list \<Rightarrow> ('p, i32 result) state" where
  "writeRegRecords E [] = ret (Inr 0)"
| "writeRegRecords E (r # rs) = do {
     p_writeInt32 E (numElements r);
     case elems (loop_count (numElements r)) (Some (regState r)) of
       Inl f \<Rightarrow> ret (Inl f)
     | Inr ss \<Rightarrow> do {
         mapM_unit ss (writeStringToParcel E);
         writeRegRecords E rs }
   }"

definition responseRegState ::
  "'p ext \<Rightarrow> RIL_RegistrationStates_v3 option \<Rightarrow> nat \<Rightarrow> ('p, i32 result) state" where
  "responseRegState E response responselen = (case response of
       None \<Rightarrow> invalid_response
     | Some p_cur \<Rightarrow>
         if responselen \<noteq> sizeof_RIL_RegistrationStates_v3 then invalid_response
         else writeRegRecords E (take RIL_MAX_NETWORKS (reg_records p_cur)))"

section \<open>Cell broadcast, power and link capacity\<close>

definition writeGsmBci :: "'p ext \<Rightarrow> RIL_GSM_BroadcastSmsConfigInfo \<Rightarrow> ('p, unit) state" where
  "writeGsmBci E c = do {
     p_writeInt32 E (fromServiceId c);
     p_writeInt32 E (toServiceId c);
     p_writeInt32 E (fromCodeScheme c);
     p_writeInt32 E (toCodeScheme c);
     p_writeInt32 E (ucast (gsm_selected c))
   }"

definition responseGsmBrSmsCnf ::
  "'p ext \<Rightarrow> RIL_GSM_BroadcastSmsConfigInfo list option \<Rightarrow> nat \<Rightarrow> ('p, i32 result) state" where
  "responseGsmBrSmsCnf E response responselen =
     (let num = responselen div sizeof_ptr in do {
        p_writeInt32 E (word_of_nat num);
        case elems num response of
          Inl f \<Rightarrow> ret (Inl f)
        | Inr cs \<Rightarrow> do { mapM_unit cs (writeGsmBci E); ret (Inr 0) } })"

definition writeCdmaBci :: "'p ext \<Rightarrow> RIL_CDMA_BroadcastSmsConfigInfo \<Rightarrow> ('p, unit) state" where
  "writeCdmaBci E c = do {
     p_writeInt32 E (service_category c);
     p_writeInt32 E (bci_language c);
     p_writeInt32 E (ucast (cdma_selected c))
   }"

definition responseCdmaBrSmsCnf ::
  "'p ext \<Rightarrow> RIL_CDMA_BroadcastSmsConfigInfo list option \<Rightarrow> nat \<Rightarrow> ('p, i32 result) state" where
  "responseCdmaBrSmsCnf E response responselen =
     (let num = responselen div sizeof_ptr in do {
        p_writeInt32 E (word_of_nat num);
        case elems num response of
          Inl f \<Rightarrow> ret (Inl f)
        | Inr cs \<Rightarrow> do { mapM_unit cs (writeCdmaBci E); ret (Inr 0) } })"

definition responseDcRtInfo ::
  "'p ext \<Rightarrow> ril_h \<Rightarrow> RIL_DcRtInfo option \<Rightarrow> nat \<Rightarrow> ('p, i32 result) state" where
  "responseDcRtInfo E H response responselen =
     (let sz = hsizeof H ''RIL_DcRtInfo''; num = responselen div sz in
      if responselen mod sz \<noteq> 0 \<or> num \<noteq> 1 then invalid_response
      else case response of
          None \<Rightarrow> ret (Inl NullDeref)
        | Some i \<Rightarrow> do {
            p_writeInt64 E (dcrt_time i);
            p_writeInt32 E (powerState i);
            ret (Inr 0) })"

definition responseLceStatus ::
  "'p ext \<Rightarrow> ril_h \<Rightarrow> RIL_LceStatusInfo option \<Rightarrow> nat \<Rightarrow> ('p, i32 result) state" where
  "responseLceStatus E H response responselen = (case response of
       None \<Rightarrow> invalid_response
     | Some p_cur \<Rightarrow>
         if responselen \<noteq> hsizeof H ''RIL_LceStatusInfo'' then invalid_response
         else do {
           p_writeU8 E (lce_status p_cur);
           p_writeInt32 E (actual_interval_ms p_cur);
           ret (Inr 0)
         })"

definition responseLceData ::
  "'p ext \<Rightarrow> ril_h \<Rightarrow> RIL_LceDataInfo option \<Rightarrow> nat \<Rightarrow> ('p, i32 result) state" where
  "responseLceData E H response responselen = (case response of
       None \<Rightarrow> invalid_response
     | Some p_cur \<Rightarrow>
         if responselen \<noteq> hsizeof H ''RIL_LceDataInfo'' then invalid_response
         else do {
           p_writeInt32 E (last_hop_capacity_kbps p_cur);
           p_writeU8 E (confidence_level p_cur);
           p_writeU8 E (lce_suspended p_cur);
           ret (Inr 0)
         })"

definition responseActivityData ::
  "'p ext \<Rightarrow> ril_h \<Rightarrow> RIL_ActivityStatsInfo option \<Rightarrow> nat \<Rightarrow> ('p, i32 result) state" where
  "responseActivityData E H response responselen = (case response of
       None \<Rightarrow> invalid_response
     | Some p_cur \<Rightarrow>
         if responselen \<noteq> hsizeof H ''RIL_ActivityStatsInfo'' then invalid_response
         else do {
           p_writeInt32 E (sleep_mode_time_ms p_cur);
           p_writeInt32 E (idle_mode_time_ms p_cur);
           case elems (nat (hval H ''RIL_NUM_TX_POWER_LEVELS'')) (Some (tx_mode_time_ms p_cur)) of
             Inl f \<Rightarrow> ret (Inl f)
           | Inr xs \<Rightarrow> do {
               mapM_unit xs (p_writeInt32 E);
               p_writeInt32 E (rx_mode_time_ms p_cur);
               ret (Inr 0) }
         })"

section \<open>The call through the table\<close>

definition call_response ::
  "'p ext \<Rightarrow> ril_h \<Rightarrow> i32 \<Rightarrow> response_fn \<Rightarrow> cdata option \<Rightarrow> nat \<Rightarrow> ('p, i32 result) state" where
  "call_response E H version fn d len = (case fn of
       R_NULL \<Rightarrow> ret (Inl NullDeref)
     | R_Ints \<Rightarrow> with_cast is_Ints un_Ints d (\<lambda>r. responseInts E r len)
     | R_FailCause \<Rightarrow> responseFailCause E H d len
     | R_Strings \<Rightarrow> with_cast is_Strs un_Strs d (\<lambda>r. responseStrings E r len)
     | R_String \<Rightarrow> with_cast is_Str un_Str d (\<lambda>r. responseString E r len)
     | R_Void \<Rightarrow> responseVoid E
     | R_CallList \<Rightarrow> with_cast is_Calls un_Calls d (\<lambda>r. responseCallList E version r len)
     | R_SMS \<Rightarrow> with_cast is_SmsResponse un_SmsResponse d (\<lambda>r. responseSMS E H r len)
     | R_SIM_IO \<Rightarrow> with_cast is_SimIOResponse un_SimIOResponse d (\<lambda>r. responseSIM_IO E H r len)
     | R_CallForwards \<Rightarrow> with_cast is_CallForwards un_CallForwards d (\<lambda>r. responseCallForwards E r len)
     | R_AvailableNetworks \<Rightarrow> with_cast is_Strs un_Strs d (\<lambda>r. responseAvailableNetworks E r len)
     | R_DataCallList \<Rightarrow> responseDataCallList E H version d len
     | R_SetupDataCall \<Rightarrow> responseSetupDataCall E H version d len
     | R_Raw \<Rightarrow> with_cast is_Bytes un_Bytes d (\<lambda>r. responseRaw E r len)
     | R_Ssn \<Rightarrow> with_cast is_Ssn un_Ssn d (\<lambda>r. responseSsn E H r len)
     | R_SimStatus \<Rightarrow> with_cast is_CardList un_CardList d (\<lambda>r. responseSimStatus E H r len)
     | R_RegState \<Rightarrow> with_cast is_RegStates un_RegStates d (\<lambda>r. responseRegState E r len)
     | R_GsmBrSmsCnf \<Rightarrow> with_cast is_GsmBci un_GsmBci d (\<lambda>r. responseGsmBrSmsCnf E r len)
     | R_CdmaBrSmsCnf \<Rightarrow> with_cast is_CdmaBci un_CdmaBci d (\<lambda>r. responseCdmaBrSmsCnf E r len)
     | R_CdmaSms \<Rightarrow> with_cast is_CdmaSms un_CdmaSms d (\<lambda>r. responseCdmaSms E H r len)
     | R_CellList \<Rightarrow> with_cast is_Cells un_Cells d (\<lambda>r. responseCellList E r len)
     | R_CdmaInformationRecords \<Rightarrow>
         with_cast is_InfoRecords un_InfoRecords d (\<lambda>r. responseCdmaInformationRecords E H r len)
     | R_RilSignalStrength \<Rightarrow>
         with_cast is_SignalStrength un_SignalStrength d
           (\<lambda>r. responseRilSignalStrength E H version r len)
     | R_CallRing \<Rightarrow> with_cast is_SignalInfo un_SignalInfo d (\<lambda>r. responseCallRing E H r len)
     | R_CdmaCallWaiting \<Rightarrow>
         with_cast is_CallWaiting un_CallWaiting d (\<lambda>r. responseCdmaCallWaiting E H r len)
     | R_SimRefresh \<Rightarrow> responseSimRefresh E version d len
     | R_CellInfoList \<Rightarrow> with_cast is_CellInfos un_CellInfos d (\<lambda>r. responseCellInfoList E H r len)
     | R_HardwareConfig \<Rightarrow>
         with_cast is_HardwareConfigs un_HardwareConfigs d (\<lambda>r. responseHardwareConfig E H r len)
     | R_DcRtInfo \<Rightarrow> with_cast is_DcRt un_DcRt d (\<lambda>r. responseDcRtInfo E H r len)
     | R_RadioCapability \<Rightarrow> with_cast is_RadioCap un_RadioCap d (\<lambda>r. responseRadioCapability E H r len)
     | R_SSData \<Rightarrow> with_cast is_StkCcSs un_StkCcSs d (\<lambda>r. responseSSData E H r len)
     | R_LceData \<Rightarrow> with_cast is_LceData un_LceData d (\<lambda>r. responseLceData E H r len))"

end
