(* ===== verification/Ril_Codec.thy ===== *)
theory Ril_Codec
  imports Ril_Dispatch_Sms Ril_Response_Cells
begin

text \<open>
  Composition rules for parcel programs: from the laws of \<open>ril_env\<close>, what a program of the dispatch
  or response functions reads or appends, item by item, and how the bytes of a written parcel are
  read back.
\<close>

section \<open>Bytes on the wire\<close>

text \<open>The bytes a program leaves in a new parcel, and the result of a program on received bytes.\<close>

definition sent :: "'p ext \<Rightarrow> ('p, 'x) state \<Rightarrow> u8 list" where
  "sent E m = p_data E (snd (run_state m (p_new E)))"

definition received :: "'p ext \<Rightarrow> ('p, 'x) state \<Rightarrow> u8 list \<Rightarrow> 'x" where
  "received E m bs = fst (run_state m (p_setData E bs))"

definition returned :: "'p ext \<Rightarrow> ('p, 'x) state \<Rightarrow> 'x" where
  "returned E m = fst (run_state m (p_new E))"

section \<open>Reading\<close>

context ril_env
begin

lemma reads_Int32:
  "reads (g (NO_ERROR, x)) y its \<Longrightarrow> reads (State_Monad.bind (p_readInt32 E) g) y (I32 x # its)"
  using reads_bind[OF reads_readInt32] by fastforce

lemma reads_Int32V:
  "reads (g x) y its \<Longrightarrow> reads (State_Monad.bind (p_readInt32V E) g) y (I32 x # its)"
  using reads_bind[OF reads_readInt32V] by fastforce

lemma reads_32:
  "reads (g (NO_ERROR, x)) y its \<Longrightarrow> reads (State_Monad.bind (p_read32 E) g) y (I32 x # its)"
  using reads_bind[OF reads_read32] by fastforce

lemma reads_U8:
  "reads (g (NO_ERROR, u)) y its \<Longrightarrow> reads (State_Monad.bind (p_readU8 E) g) y (U8 u # its)"
  using reads_bind[OF reads_readU8] by fastforce

lemma reads_Inplace:
  "length bs = unat n \<Longrightarrow> reads (g (Some bs)) y its \<Longrightarrow>
    reads (State_Monad.bind (p_readInplace E n) g) y (Raw bs # its)"
  using reads_bind[OF reads_readInplace] by fastforce

lemma reads_strdup:
  assumes "cstr_ok s"
  shows "reads (strdupReadString E) s [S16 (strdup8to16 E s)]"
proof -
  have "reads (strdupReadString E) (strndup16to8 E (strdup8to16 E s)) ([S16 (strdup8to16 E s)] @ [])"
    unfolding strdupReadString_def
    by (rule reads_bind[OF reads_readString16Inplace[OF dup8_fits]]) (rule reads_ret)
  then show ?thesis using assms by (simp add: dup_cstr)
qed

lemma reads_Str:
  "cstr_ok s \<Longrightarrow> reads (g s) y its \<Longrightarrow>
    reads (State_Monad.bind (strdupReadString E) g) y (S16 (strdup8to16 E s) # its)"
  using reads_bind[OF reads_strdup] by fastforce

lemma reads_Nil: "x = y \<Longrightarrow> reads (ret x) y []"
  by (simp add: reads_ret)

lemma reads_repeatM:
  "(\<And>x. x \<in> set xs \<Longrightarrow> reads m x (h x)) \<Longrightarrow>
    reads (repeatM (length xs) m) xs (concat (map h xs))"
proof (induction xs)
  case Nil
  then show ?case by (simp add: reads_ret)
next
  case (Cons a xs)
  have "reads (State_Monad.bind (repeatM (length xs) m) (\<lambda>ys. ret (a # ys))) (a # xs)
          (concat (map h xs) @ [])"
    by (rule reads_bind[OF Cons.IH]) (use Cons.prems in \<open>simp_all add: reads_ret\<close>)
  then show ?case using Cons.prems by (auto intro!: reads_bind[of m a])
qed

lemma reads_repeat:
  "length xs = n \<Longrightarrow> (\<And>x. x \<in> set xs \<Longrightarrow> reads m x (h x)) \<Longrightarrow> reads (g xs) y its \<Longrightarrow>
    reads (State_Monad.bind (repeatM n m) g) y (concat (map h xs) @ its)"
  by (metis reads_bind reads_repeatM)

lemma reads_bind_ret: "reads m x its \<Longrightarrow> g x = ret y \<Longrightarrow> reads (State_Monad.bind m g) y its"
  using reads_bind[of m x its g y "[]"] by (simp add: reads_ret)

text \<open>The same for one item per element, at the end of the parcel and before more items.\<close>

lemma reads_repeat1:
  "length xs = n \<Longrightarrow> (\<And>x. x \<in> set xs \<Longrightarrow> reads m x [h x]) \<Longrightarrow> reads (g xs) y its \<Longrightarrow>
    reads (State_Monad.bind (repeatM n m) g) y (map h xs @ its)"
  using reads_repeat[of xs n m "\<lambda>x. [h x]"] by simp

lemma reads_repeat_end:
  "length xs = n \<Longrightarrow> (\<And>x. x \<in> set xs \<Longrightarrow> reads m x [h x]) \<Longrightarrow> reads (g xs) y [] \<Longrightarrow>
    reads (State_Monad.bind (repeatM n m) g) y (map h xs)"
  using reads_repeat1[of xs n m h g y "[]"] by simp

lemmas reads_intros = reads_Int32 reads_Int32V reads_32 reads_U8 reads_Inplace reads_Str reads_Nil

end

section \<open>Writing\<close>

context ril_env
begin

lemma writes_Int32:
  "writes (g ()) y its \<Longrightarrow> writes (State_Monad.bind (p_writeInt32 E x) g) y (I32 x # its)"
  using writes_bind[OF writes_writeInt32] by fastforce

lemma writes_Int64:
  "writes (g ()) y its \<Longrightarrow> writes (State_Monad.bind (p_writeInt64 E x) g) y (I64 x # its)"
  using writes_bind[OF writes_writeInt64] by fastforce

lemma writes_U8:
  "writes (g ()) y its \<Longrightarrow> writes (State_Monad.bind (p_writeU8 E x) g) y (U8 x # its)"
  using writes_bind[OF writes_writeU8] by fastforce

lemma writes_Raw:
  "writes (g ()) y its \<Longrightarrow> writes (State_Monad.bind (p_write E bs) g) y (Raw bs # its)"
  using writes_bind[OF writes_write] by fastforce

lemma writes_str: "writes (writeStringToParcel E s) () [S16 (strdup8to16 E s)]"
  by (simp add: writeStringToParcel_def writes_writeString16)

lemma writes_Str:
  "writes (g ()) y its \<Longrightarrow>
    writes (State_Monad.bind (writeStringToParcel E s) g) y (S16 (strdup8to16 E s) # its)"
  using writes_bind[OF writes_str] by fastforce

lemma writes_Nil: "x = y \<Longrightarrow> writes (ret x) y []"
  by (simp add: writes_ret)

lemma writes_mapM_unit:
  "(\<And>x. x \<in> set xs \<Longrightarrow> writes (f x) () (h x)) \<Longrightarrow>
    writes (mapM_unit xs f) () (concat (map h xs))"
  by (induction xs) (auto intro!: writes_ret writes_bind)

lemma writes_mapM:
  "(\<And>x. x \<in> set xs \<Longrightarrow> writes (f x) () (h x)) \<Longrightarrow> writes (g ()) y its \<Longrightarrow>
    writes (State_Monad.bind (mapM_unit xs f) g) y (concat (map h xs) @ its)"
  by (metis writes_bind writes_mapM_unit)

lemma writes_mapM1:
  "(\<And>x. x \<in> set xs \<Longrightarrow> writes (f x) () [h x]) \<Longrightarrow> writes (g ()) y its \<Longrightarrow>
    writes (State_Monad.bind (mapM_unit xs f) g) y (map h xs @ its)"
  using writes_mapM[of xs f "\<lambda>x. [h x]"] by simp

lemma writes_mapM_end:
  "(\<And>x. x \<in> set xs \<Longrightarrow> writes (f x) () [h x]) \<Longrightarrow> writes (g ()) y [] \<Longrightarrow>
    writes (State_Monad.bind (mapM_unit xs f) g) y (map h xs)"
  using writes_mapM1[of xs f h g y "[]"] by simp

lemmas writes_intros = writes_Int32 writes_Int64 writes_U8 writes_Raw writes_Str writes_Nil
  writes_writeInt32 writes_str

end

section \<open>Round trips\<close>

context ril_env
begin

lemma sent_writes: "writes m x its \<Longrightarrow> sent E m = enc its"
  using new_R data_enc unfolding writes_def sent_def by (metis append_Nil append_Nil2 snd_conv)

lemma returned_writes: "writes m x its \<Longrightarrow> returned E m = x"
  using new_R unfolding writes_def returned_def by (metis fst_conv)

lemma received_reads_prefix: "reads m x its \<Longrightarrow> received E m (enc (its @ a)) = x"
  using setData_R unfolding reads_def received_def by (metis fst_conv)

lemma received_reads: "reads m x its \<Longrightarrow> received E m (enc its) = x"
  using received_reads_prefix[of m x its "[]"] by simp

lemma roundtrip:
  "writes w r its \<Longrightarrow> reads d x its \<Longrightarrow> returned E w = r \<and> received E d (sent E w) = x"
  by (simp add: sent_writes returned_writes received_reads)

lemma alloca_count:
  "alloca_ok E (sizeof_ptr * n) \<Longrightarrow> n < 2 ^ 28"
  using alloca_bound[of "sizeof_ptr * n"] by (simp add: sizeof_ptr_def)

end

section \<open>Running out of data\<close>

context ril_env
begin

text \<open>\<open>ends m P\<close>: at the end of the data, \<open>m\<close> stays there and its result satisfies \<open>P\<close>.\<close>

definition ends :: "('a, 'x) state \<Rightarrow> ('x \<Rightarrow> bool) \<Rightarrow> bool" where
  "ends m P \<longleftrightarrow> (\<forall>p b. R p b [] \<longrightarrow> (\<exists>x p'. run_state m p = (x, p') \<and> R p' b [] \<and> P x))"

lemma ends_bind: "ends m P \<Longrightarrow> (\<And>x. P x \<Longrightarrow> ends (g x) Q) \<Longrightarrow> ends (State_Monad.bind m g) Q"
  unfolding ends_def by fastforce

lemma ends_ret: "P x \<Longrightarrow> ends (ret x) P"
  by (simp add: ends_def)

lemma ends_readInt32: "ends (p_readInt32 E) (\<lambda>r. fst r \<noteq> NO_ERROR)"
  unfolding ends_def using readInt32_end by fastforce

lemma ends_read32: "ends (p_read32 E) (\<lambda>r. fst r \<noteq> NO_ERROR)"
  unfolding ends_def using read32_end by fastforce

lemma ends_readU8: "ends (p_readU8 E) (\<lambda>r. fst r \<noteq> NO_ERROR)"
  unfolding ends_def using readU8_end by fastforce

lemma ends_strdup: "ends (strdupReadString E) (\<lambda>s. s = None)"
  unfolding ends_def strdupReadString_def
  using readString16Inplace_end by (fastforce simp: dup16_NULL)

lemma ends_repeatM:
  "ends m P \<Longrightarrow> ends (repeatM n m) (\<lambda>xs. \<forall>x \<in> set xs. P x)"
  by (induction n) (auto intro!: ends_ret ends_bind)

lemma ends_Int32:
  "(\<And>st x. st \<noteq> NO_ERROR \<Longrightarrow> ends (g (st, x)) Q) \<Longrightarrow> ends (State_Monad.bind (p_readInt32 E) g) Q"
  by (rule ends_bind[OF ends_readInt32]) auto

lemma ends_32:
  "(\<And>st x. st \<noteq> NO_ERROR \<Longrightarrow> ends (g (st, x)) Q) \<Longrightarrow> ends (State_Monad.bind (p_read32 E) g) Q"
  by (rule ends_bind[OF ends_read32]) auto

lemma ends_U8:
  "(\<And>st x. st \<noteq> NO_ERROR \<Longrightarrow> ends (g (st, x)) Q) \<Longrightarrow> ends (State_Monad.bind (p_readU8 E) g) Q"
  by (rule ends_bind[OF ends_readU8]) auto

lemma ends_Str: "ends (g None) Q \<Longrightarrow> ends (State_Monad.bind (strdupReadString E) g) Q"
  by (rule ends_bind[OF ends_strdup]) auto

lemma ends_U8s:
  "(\<And>rs. \<forall>r \<in> set rs. fst r \<noteq> NO_ERROR \<Longrightarrow> ends (g rs) Q) \<Longrightarrow>
    ends (State_Monad.bind (repeatM n (p_readU8 E)) g) Q"
  by (rule ends_bind[OF ends_repeatM[OF ends_readU8]]) auto

lemmas ends_intros = ends_Int32 ends_32 ends_U8 ends_Str ends_U8s

end

end
