(* ===== verification/Ril_Tables.thy ===== *)
theory Ril_Tables
  imports Ril_Types
begin

text \<open>
  The tables of libril: the request and unsolicited codes of ril\_v3.h, the table of requests
  (ril\_commands.h), the table of unsolicited messages (ril\_unsol\_commands.h) and the translation
  \<open>unsolResponse_conv\<close> of ril.cpp. Codes of telephony/ril.h are looked up in the header \<open>H\<close>.
\<close>

section \<open>Codes of ril\_v3.h\<close>

definition RIL_REQUEST_VOICE_RADIO_TECH_V3 :: i32 where
  "RIL_REQUEST_VOICE_RADIO_TECH_V3 = 104"
definition RIL_REQUEST_CDMA_GET_SUBSCRIPTION_SOURCE_V3 :: i32 where
  "RIL_REQUEST_CDMA_GET_SUBSCRIPTION_SOURCE_V3 = 105"
definition RIL_REQUEST_IMS_SEND_SMS_V3 :: i32 where
  "RIL_REQUEST_IMS_SEND_SMS_V3 = 108"
definition RIL_UNSOL_VOICE_RADIO_TECH_CHANGED_V3 :: i32 where
  "RIL_UNSOL_VOICE_RADIO_TECH_CHANGED_V3 = 1031"
definition RIL_UNSOL_RESPONSE_TETHERED_MODE_STATE_CHANGED_V3 :: i32 where
  "RIL_UNSOL_RESPONSE_TETHERED_MODE_STATE_CHANGED_V3 = 1032"
definition RIL_UNSOL_RESPONSE_DATA_NETWORK_STATE_CHANGED_V3 :: i32 where
  "RIL_UNSOL_RESPONSE_DATA_NETWORK_STATE_CHANGED_V3 = 1033"
definition RIL_UNSOL_CDMA_SUBSCRIPTION_SOURCE_CHANGED_V3 :: i32 where
  "RIL_UNSOL_CDMA_SUBSCRIPTION_SOURCE_CHANGED_V3 = 1034"
definition RIL_UNSOL_CDMA_PRL_CHANGED_V3 :: i32 where
  "RIL_UNSOL_CDMA_PRL_CHANGED_V3 = 1035"
definition RIL_UNSOL_RESPONSE_IMS_NETWORK_STATE_CHANGED_V3 :: i32 where
  "RIL_UNSOL_RESPONSE_IMS_NETWORK_STATE_CHANGED_V3 = 1036"
definition RIL_UNSOL_EXIT_EMERGENCY_CALLBACK_MODE_V3 :: i32 where
  "RIL_UNSOL_EXIT_EMERGENCY_CALLBACK_MODE_V3 = 1037"
definition RIL_UNSOL_RIL_CONNECTED_V3 :: i32 where
  "RIL_UNSOL_RIL_CONNECTED_V3 = 1040"

lemmas v3_codes = RIL_REQUEST_VOICE_RADIO_TECH_V3_def
  RIL_REQUEST_CDMA_GET_SUBSCRIPTION_SOURCE_V3_def
  RIL_REQUEST_IMS_SEND_SMS_V3_def
  RIL_UNSOL_VOICE_RADIO_TECH_CHANGED_V3_def
  RIL_UNSOL_RESPONSE_TETHERED_MODE_STATE_CHANGED_V3_def
  RIL_UNSOL_RESPONSE_DATA_NETWORK_STATE_CHANGED_V3_def
  RIL_UNSOL_CDMA_SUBSCRIPTION_SOURCE_CHANGED_V3_def
  RIL_UNSOL_CDMA_PRL_CHANGED_V3_def
  RIL_UNSOL_RESPONSE_IMS_NETWORK_STATE_CHANGED_V3_def
  RIL_UNSOL_EXIT_EMERGENCY_CALLBACK_MODE_V3_def
  RIL_UNSOL_RIL_CONNECTED_V3_def

section \<open>The table of requests\<close>

abbreviation ci :: "i32 \<Rightarrow> dispatch_fn \<Rightarrow> response_fn \<Rightarrow> CommandInfo" where
  "ci n d r \<equiv> \<lparr>requestNumber = n, dispatchFunction = d, responseFunction = r\<rparr>"

definition s_commands :: "ril_h \<Rightarrow> CommandInfo list" where
  "s_commands H = [
     ci 0 D_NULL R_NULL,
     ci (hword H ''RIL_REQUEST_GET_SIM_STATUS'') D_Void R_SimStatus,
     ci (hword H ''RIL_REQUEST_ENTER_SIM_PIN'') D_SimPin R_Ints,
     ci (hword H ''RIL_REQUEST_ENTER_SIM_PUK'') D_SimPuk R_Ints,
     ci (hword H ''RIL_REQUEST_ENTER_SIM_PIN2'') D_SimPin R_Ints,
     ci (hword H ''RIL_REQUEST_ENTER_SIM_PUK2'') D_SimPuk R_Ints,
     ci (hword H ''RIL_REQUEST_CHANGE_SIM_PIN'') D_SimPinSet R_Ints,
     ci (hword H ''RIL_REQUEST_CHANGE_SIM_PIN2'') D_SimPinSet R_Ints,
     ci (hword H ''RIL_REQUEST_ENTER_NETWORK_DEPERSONALIZATION'') D_Strings R_Ints,
     ci (hword H ''RIL_REQUEST_GET_CURRENT_CALLS'') D_Void R_CallList,
     ci (hword H ''RIL_REQUEST_DIAL'') D_Dial R_Void,
     ci (hword H ''RIL_REQUEST_GET_IMSI'') D_RequestImsi R_String,
     ci (hword H ''RIL_REQUEST_HANGUP'') D_Ints R_Void,
     ci (hword H ''RIL_REQUEST_HANGUP_WAITING_OR_BACKGROUND'') D_Void R_Void,
     ci (hword H ''RIL_REQUEST_HANGUP_FOREGROUND_RESUME_BACKGROUND'') D_Void R_Void,
     ci (hword H ''RIL_REQUEST_SWITCH_WAITING_OR_HOLDING_AND_ACTIVE'') D_Void R_Void,
     ci (hword H ''RIL_REQUEST_CONFERENCE'') D_Void R_Void,
     ci (hword H ''RIL_REQUEST_UDUB'') D_Void R_Void,
     ci (hword H ''RIL_REQUEST_LAST_CALL_FAIL_CAUSE'') D_Void R_FailCause,
     ci (hword H ''RIL_REQUEST_SIGNAL_STRENGTH'') D_Void R_RilSignalStrength,
     ci (hword H ''RIL_REQUEST_VOICE_REGISTRATION_STATE'') D_Void R_RegState,
     ci (hword H ''RIL_REQUEST_DATA_REGISTRATION_STATE'') D_Void R_RegState,
     ci (hword H ''RIL_REQUEST_OPERATOR'') D_Void R_Strings,
     ci (hword H ''RIL_REQUEST_RADIO_POWER'') D_Ints R_Void,
     ci (hword H ''RIL_REQUEST_DTMF'') D_String R_Void,
     ci (hword H ''RIL_REQUEST_SEND_SMS'') D_Strings R_SMS,
     ci (hword H ''RIL_REQUEST_SEND_SMS_EXPECT_MORE'') D_Strings R_SMS,
     ci (hword H ''RIL_REQUEST_SETUP_DATA_CALL'') D_DataCall R_SetupDataCall,
     ci (hword H ''RIL_REQUEST_SIM_IO'') D_SIM_IO R_SIM_IO,
     ci (hword H ''RIL_REQUEST_SEND_USSD'') D_String R_Void,
     ci (hword H ''RIL_REQUEST_CANCEL_USSD'') D_Void R_Void,
     ci (hword H ''RIL_REQUEST_GET_CLIR'') D_Void R_Ints,
     ci (hword H ''RIL_REQUEST_SET_CLIR'') D_Ints R_Void,
     ci (hword H ''RIL_REQUEST_QUERY_CALL_FORWARD_STATUS'') D_CallForward R_CallForwards,
     ci (hword H ''RIL_REQUEST_SET_CALL_FORWARD'') D_CallForward R_Void,
     ci (hword H ''RIL_REQUEST_QUERY_CALL_WAITING'') D_Ints R_Ints,
     ci (hword H ''RIL_REQUEST_SET_CALL_WAITING'') D_Ints R_Void,
     ci (hword H ''RIL_REQUEST_SMS_ACKNOWLEDGE'') D_Ints R_Void,
     ci (hword H ''RIL_REQUEST_GET_IMEI'') D_Void R_String,
     ci (hword H ''RIL_REQUEST_GET_IMEISV'') D_Void R_String,
     ci (hword H ''RIL_REQUEST_ANSWER'') D_Void R_Void,
     ci (hword H ''RIL_REQUEST_DEACTIVATE_DATA_CALL'') D_Strings R_Void,
     ci (hword H ''RIL_REQUEST_QUERY_FACILITY_LOCK'') D_QueryFacility R_Ints,
     ci (hword H ''RIL_REQUEST_SET_FACILITY_LOCK'') D_SetFacility R_Ints,
     ci (hword H ''RIL_REQUEST_CHANGE_BARRING_PASSWORD'') D_Strings R_Void,
     ci (hword H ''RIL_REQUEST_QUERY_NETWORK_SELECTION_MODE'') D_Void R_Ints,
     ci (hword H ''RIL_REQUEST_SET_NETWORK_SELECTION_AUTOMATIC'') D_NetworkManual R_Void,
     ci (hword H ''RIL_REQUEST_SET_NETWORK_SELECTION_MANUAL'') D_NetworkManual R_Void,
     ci (hword H ''RIL_REQUEST_QUERY_AVAILABLE_NETWORKS'') D_Void R_AvailableNetworks,
     ci (hword H ''RIL_REQUEST_DTMF_START'') D_String R_Void,
     ci (hword H ''RIL_REQUEST_DTMF_STOP'') D_Void R_Void,
     ci (hword H ''RIL_REQUEST_BASEBAND_VERSION'') D_Void R_String,
     ci (hword H ''RIL_REQUEST_SEPARATE_CONNECTION'') D_Ints R_Void,
     ci (hword H ''RIL_REQUEST_SET_MUTE'') D_Ints R_Void,
     ci (hword H ''RIL_REQUEST_GET_MUTE'') D_Void R_Ints,
     ci (hword H ''RIL_REQUEST_QUERY_CLIP'') D_Void R_Ints,
     ci (hword H ''RIL_REQUEST_LAST_DATA_CALL_FAIL_CAUSE'') D_Void R_Ints,
     ci (hword H ''RIL_REQUEST_DATA_CALL_LIST'') D_Void R_DataCallList,
     ci (hword H ''RIL_REQUEST_RESET_RADIO'') D_Void R_Void,
     ci (hword H ''RIL_REQUEST_OEM_HOOK_RAW'') D_Raw R_Raw,
     ci (hword H ''RIL_REQUEST_OEM_HOOK_STRINGS'') D_Strings R_Strings,
     ci (hword H ''RIL_REQUEST_SCREEN_STATE'') D_Ints R_Void,
     ci (hword H ''RIL_REQUEST_SET_SUPP_SVC_NOTIFICATION'') D_Ints R_Void,
     ci (hword H ''RIL_REQUEST_WRITE_SMS_TO_SIM'') D_SmsWrite R_Ints,
     ci (hword H ''RIL_REQUEST_DELETE_SMS_ON_SIM'') D_Ints R_Void,
     ci (hword H ''RIL_REQUEST_SET_BAND_MODE'') D_Ints R_Void,
     ci (hword H ''RIL_REQUEST_QUERY_AVAILABLE_BAND_MODE'') D_Void R_Ints,
     ci (hword H ''RIL_REQUEST_STK_GET_PROFILE'') D_Void R_String,
     ci (hword H ''RIL_REQUEST_STK_SET_PROFILE'') D_String R_Void,
     ci (hword H ''RIL_REQUEST_STK_SEND_ENVELOPE_COMMAND'') D_String R_String,
     ci (hword H ''RIL_REQUEST_STK_SEND_TERMINAL_RESPONSE'') D_String R_Void,
     ci (hword H ''RIL_REQUEST_STK_HANDLE_CALL_SETUP_REQUESTED_FROM_SIM'') D_Ints R_Void,
     ci (hword H ''RIL_REQUEST_EXPLICIT_CALL_TRANSFER'') D_Void R_Void,
     ci (hword H ''RIL_REQUEST_SET_PREFERRED_NETWORK_TYPE'') D_Ints R_Void,
     ci (hword H ''RIL_REQUEST_GET_PREFERRED_NETWORK_TYPE'') D_Void R_Ints,
     ci (hword H ''RIL_REQUEST_GET_NEIGHBORING_CELL_IDS'') D_Void R_CellList,
     ci (hword H ''RIL_REQUEST_SET_LOCATION_UPDATES'') D_Ints R_Void,
     ci (hword H ''RIL_REQUEST_CDMA_SET_SUBSCRIPTION_SOURCE'') D_Ints R_Void,
     ci (hword H ''RIL_REQUEST_CDMA_SET_ROAMING_PREFERENCE'') D_Ints R_Void,
     ci (hword H ''RIL_REQUEST_CDMA_QUERY_ROAMING_PREFERENCE'') D_Void R_Ints,
     ci (hword H ''RIL_REQUEST_SET_TTY_MODE'') D_Ints R_Void,
     ci (hword H ''RIL_REQUEST_QUERY_TTY_MODE'') D_Void R_Ints,
     ci (hword H ''RIL_REQUEST_CDMA_SET_PREFERRED_VOICE_PRIVACY_MODE'') D_Ints R_Void,
     ci (hword H ''RIL_REQUEST_CDMA_QUERY_PREFERRED_VOICE_PRIVACY_MODE'') D_Void R_Ints,
     ci (hword H ''RIL_REQUEST_CDMA_FLASH'') D_String R_Void,
     ci (hword H ''RIL_REQUEST_CDMA_BURST_DTMF'') D_Strings R_Void,
     ci (hword H ''RIL_REQUEST_CDMA_VALIDATE_AND_WRITE_AKEY'') D_String R_Void,
     ci (hword H ''RIL_REQUEST_CDMA_SEND_SMS'') D_CdmaSms R_SMS,
     ci (hword H ''RIL_REQUEST_CDMA_SMS_ACKNOWLEDGE'') D_CdmaSmsAck R_Void,
     ci (hword H ''RIL_REQUEST_GSM_GET_BROADCAST_SMS_CONFIG'') D_Void R_GsmBrSmsCnf,
     ci (hword H ''RIL_REQUEST_GSM_SET_BROADCAST_SMS_CONFIG'') D_GsmBrSmsCnf R_Void,
     ci (hword H ''RIL_REQUEST_GSM_SMS_BROADCAST_ACTIVATION'') D_Ints R_Void,
     ci (hword H ''RIL_REQUEST_CDMA_GET_BROADCAST_SMS_CONFIG'') D_Void R_CdmaBrSmsCnf,
     ci (hword H ''RIL_REQUEST_CDMA_SET_BROADCAST_SMS_CONFIG'') D_CdmaBrSmsCnf R_Void,
     ci (hword H ''RIL_REQUEST_CDMA_SMS_BROADCAST_ACTIVATION'') D_Ints R_Void,
     ci (hword H ''RIL_REQUEST_CDMA_SUBSCRIPTION'') D_Void R_Strings,
     ci (hword H ''RIL_REQUEST_CDMA_WRITE_SMS_TO_RUIM'') D_RilCdmaSmsWriteArgs R_Ints,
     ci (hword H ''RIL_REQUEST_CDMA_DELETE_SMS_ON_RUIM'') D_Ints R_Void,
     ci (hword H ''RIL_REQUEST_DEVICE_IDENTITY'') D_Void R_Strings,
     ci (hword H ''RIL_REQUEST_EXIT_EMERGENCY_CALLBACK_MODE'') D_Void R_Void,
     ci (hword H ''RIL_REQUEST_GET_SMSC_ADDRESS'') D_Void R_String,
     ci (hword H ''RIL_REQUEST_SET_SMSC_ADDRESS'') D_String R_Void,
     ci (hword H ''RIL_REQUEST_REPORT_SMS_MEMORY_STATUS'') D_Ints R_Void,
     ci (hword H ''RIL_REQUEST_REPORT_STK_SERVICE_IS_RUNNING'') D_Void R_Void,
     ci RIL_REQUEST_CDMA_GET_SUBSCRIPTION_SOURCE_V3 D_CdmaSubscriptionSource R_Ints,
     ci 0 D_Void R_Void,
     ci 0 D_Void R_Void,
     ci 0 D_Void R_Void,
     ci RIL_REQUEST_VOICE_RADIO_TECH_V3 D_VoiceRadioTech R_Ints,
     ci 0 D_Void R_Void,
     ci 0 D_Void R_Void,
     ci 0 D_Void R_Void,
     ci 0 D_Void R_Ints,
     ci RIL_REQUEST_IMS_SEND_SMS_V3 D_ImsSms R_SMS]"

section \<open>The table of unsolicited messages\<close>

datatype WakeType = DONT_WAKE | WAKE_PARTIAL

record UnsolResponseInfo =
  unsolNumber :: i32
  unsolFunction :: response_fn
  wakeType :: WakeType

abbreviation ui :: "i32 \<Rightarrow> response_fn \<Rightarrow> WakeType \<Rightarrow> UnsolResponseInfo" where
  "ui n r w \<equiv> \<lparr>unsolNumber = n, unsolFunction = r, wakeType = w\<rparr>"

definition s_unsolResponses :: "ril_h \<Rightarrow> UnsolResponseInfo list" where
  "s_unsolResponses H = [
     ui (hword H ''RIL_UNSOL_RESPONSE_RADIO_STATE_CHANGED'') R_Void WAKE_PARTIAL,
     ui (hword H ''RIL_UNSOL_RESPONSE_CALL_STATE_CHANGED'') R_Void WAKE_PARTIAL,
     ui (hword H ''RIL_UNSOL_RESPONSE_VOICE_NETWORK_STATE_CHANGED'') R_Void WAKE_PARTIAL,
     ui (hword H ''RIL_UNSOL_RESPONSE_NEW_SMS'') R_String WAKE_PARTIAL,
     ui (hword H ''RIL_UNSOL_RESPONSE_NEW_SMS_STATUS_REPORT'') R_String WAKE_PARTIAL,
     ui (hword H ''RIL_UNSOL_RESPONSE_NEW_SMS_ON_SIM'') R_Ints WAKE_PARTIAL,
     ui (hword H ''RIL_UNSOL_ON_USSD'') R_Strings WAKE_PARTIAL,
     ui (hword H ''RIL_UNSOL_ON_USSD_REQUEST'') R_Void DONT_WAKE,
     ui (hword H ''RIL_UNSOL_NITZ_TIME_RECEIVED'') R_String WAKE_PARTIAL,
     ui (hword H ''RIL_UNSOL_SIGNAL_STRENGTH'') R_RilSignalStrength DONT_WAKE,
     ui (hword H ''RIL_UNSOL_DATA_CALL_LIST_CHANGED'') R_DataCallList WAKE_PARTIAL,
     ui (hword H ''RIL_UNSOL_SUPP_SVC_NOTIFICATION'') R_Ssn WAKE_PARTIAL,
     ui (hword H ''RIL_UNSOL_STK_SESSION_END'') R_Void WAKE_PARTIAL,
     ui (hword H ''RIL_UNSOL_STK_PROACTIVE_COMMAND'') R_String WAKE_PARTIAL,
     ui (hword H ''RIL_UNSOL_STK_EVENT_NOTIFY'') R_String WAKE_PARTIAL,
     ui (hword H ''RIL_UNSOL_STK_CALL_SETUP'') R_Ints WAKE_PARTIAL,
     ui (hword H ''RIL_UNSOL_SIM_SMS_STORAGE_FULL'') R_Void WAKE_PARTIAL,
     ui (hword H ''RIL_UNSOL_SIM_REFRESH'') R_SimRefresh WAKE_PARTIAL,
     ui (hword H ''RIL_UNSOL_CALL_RING'') R_CallRing WAKE_PARTIAL,
     ui (hword H ''RIL_UNSOL_RESPONSE_SIM_STATUS_CHANGED'') R_Void WAKE_PARTIAL,
     ui (hword H ''RIL_UNSOL_RESPONSE_CDMA_NEW_SMS'') R_CdmaSms WAKE_PARTIAL,
     ui (hword H ''RIL_UNSOL_RESPONSE_NEW_BROADCAST_SMS'') R_Raw WAKE_PARTIAL,
     ui (hword H ''RIL_UNSOL_CDMA_RUIM_SMS_STORAGE_FULL'') R_Void WAKE_PARTIAL,
     ui (hword H ''RIL_UNSOL_RESTRICTED_STATE_CHANGED'') R_Ints WAKE_PARTIAL,
     ui (hword H ''RIL_UNSOL_ENTER_EMERGENCY_CALLBACK_MODE'') R_Void WAKE_PARTIAL,
     ui (hword H ''RIL_UNSOL_CDMA_CALL_WAITING'') R_CdmaCallWaiting WAKE_PARTIAL,
     ui (hword H ''RIL_UNSOL_CDMA_OTA_PROVISION_STATUS'') R_Ints WAKE_PARTIAL,
     ui (hword H ''RIL_UNSOL_CDMA_INFO_REC'') R_CdmaInformationRecords WAKE_PARTIAL,
     ui (hword H ''RIL_UNSOL_OEM_HOOK_RAW'') R_Raw WAKE_PARTIAL,
     ui (hword H ''RIL_UNSOL_RINGBACK_TONE'') R_Ints WAKE_PARTIAL,
     ui (hword H ''RIL_UNSOL_RESEND_INCALL_MUTE'') R_Void WAKE_PARTIAL,
     ui (hword H ''RIL_UNSOL_CDMA_SUBSCRIPTION_SOURCE_CHANGED'') R_Ints WAKE_PARTIAL,
     ui (hword H ''RIL_UNSOL_CDMA_PRL_CHANGED'') R_Ints WAKE_PARTIAL,
     ui (hword H ''RIL_UNSOL_EXIT_EMERGENCY_CALLBACK_MODE'') R_Void WAKE_PARTIAL,
     ui (hword H ''RIL_UNSOL_RIL_CONNECTED'') R_Ints WAKE_PARTIAL,
     ui (hword H ''RIL_UNSOL_VOICE_RADIO_TECH_CHANGED'') R_Ints WAKE_PARTIAL,
     ui (hword H ''RIL_UNSOL_CELL_INFO_LIST'') R_CellInfoList WAKE_PARTIAL,
     ui (hword H ''RIL_UNSOL_RESPONSE_IMS_NETWORK_STATE_CHANGED'') R_Void WAKE_PARTIAL,
     ui (hword H ''RIL_UNSOL_UICC_SUBSCRIPTION_STATUS_CHANGED'') R_Ints WAKE_PARTIAL,
     ui (hword H ''RIL_UNSOL_SRVCC_STATE_NOTIFY'') R_Ints WAKE_PARTIAL,
     ui (hword H ''RIL_UNSOL_HARDWARE_CONFIG_CHANGED'') R_HardwareConfig WAKE_PARTIAL,
     ui (hword H ''RIL_UNSOL_DC_RT_INFO_CHANGED'') R_DcRtInfo WAKE_PARTIAL,
     ui (hword H ''RIL_UNSOL_RADIO_CAPABILITY'') R_RadioCapability WAKE_PARTIAL,
     ui (hword H ''RIL_UNSOL_ON_SS'') R_SSData WAKE_PARTIAL,
     ui (hword H ''RIL_UNSOL_STK_CC_ALPHA_NOTIFY'') R_String WAKE_PARTIAL,
     ui (hword H ''RIL_UNSOL_LCEDATA_RECV'') R_LceData WAKE_PARTIAL]"

section \<open>The translation of unsolicited codes\<close>

definition unsolResponse_conv :: "ril_h \<Rightarrow> (i32 \<times> i32) list" where
  "unsolResponse_conv H = [
     (RIL_UNSOL_VOICE_RADIO_TECH_CHANGED_V3, hword H ''RIL_UNSOL_VOICE_RADIO_TECH_CHANGED''),
     (RIL_UNSOL_RESPONSE_TETHERED_MODE_STATE_CHANGED_V3, 0),
     (RIL_UNSOL_RESPONSE_DATA_NETWORK_STATE_CHANGED_V3, 0),
     (RIL_UNSOL_CDMA_SUBSCRIPTION_SOURCE_CHANGED_V3, hword H ''RIL_UNSOL_CDMA_SUBSCRIPTION_SOURCE_CHANGED''),
     (RIL_UNSOL_CDMA_PRL_CHANGED_V3, hword H ''RIL_UNSOL_CDMA_PRL_CHANGED''),
     (RIL_UNSOL_RESPONSE_IMS_NETWORK_STATE_CHANGED_V3, hword H ''RIL_UNSOL_RESPONSE_IMS_NETWORK_STATE_CHANGED''),
     (RIL_UNSOL_EXIT_EMERGENCY_CALLBACK_MODE_V3, hword H ''RIL_UNSOL_EXIT_EMERGENCY_CALLBACK_MODE''),
     (RIL_UNSOL_RIL_CONNECTED_V3, hword H ''RIL_UNSOL_RIL_CONNECTED'')]"

text \<open>The loop over the table: the code as it is when no entry matches, \<open>None\<close> when it is unsupported.\<close>

fun conv_loop :: "(i32 \<times> i32) list \<Rightarrow> i32 \<Rightarrow> i32 option" where
  "conv_loop [] c = Some c"
| "conv_loop ((old, cur) # t) c =
     (if old = c then (if cur = 0 then None else Some cur) else conv_loop t c)"

definition unsol_conv :: "ril_h \<Rightarrow> i32 \<Rightarrow> i32 option" where
  "unsol_conv H c = conv_loop (unsolResponse_conv H) c"

section \<open>A header\<close>

text \<open>
  The values that telephony/ril.h documents, as far as the tables and the code use them, and structure
  sizes of the 32-bit build: a header to evaluate the model on.
\<close>

definition ref_vals :: "(string \<times> int) list" where
  "ref_vals = [
     (''RIL_UNSOL_RESPONSE_BASE'', 1000),
     (''RIL_E_SUCCESS'', 0),
     (''RIL_E_RADIO_NOT_AVAILABLE'', 1),
     (''RIL_E_GENERIC_FAILURE'', 2),
     (''RADIO_STATE_OFF'', 0),
     (''RADIO_STATE_UNAVAILABLE'', 1),
     (''RADIO_STATE_SIM_NOT_READY'', 2),
     (''RADIO_STATE_SIM_LOCKED_OR_ABSENT'', 3),
     (''RADIO_STATE_SIM_READY'', 4),
     (''RADIO_STATE_RUIM_NOT_READY'', 5),
     (''RADIO_STATE_RUIM_READY'', 6),
     (''RADIO_STATE_RUIM_LOCKED_OR_ABSENT'', 7),
     (''RADIO_STATE_NV_NOT_READY'', 8),
     (''RADIO_STATE_NV_READY'', 9),
     (''RADIO_STATE_ON'', 10),
     (''RADIO_TECH_UMTS'', 3),
     (''RADIO_TECH_IS95A'', 4),
     (''RADIO_TECH_IS95B'', 5),
     (''RADIO_TECH_1xRTT'', 6),
     (''RADIO_TECH_EVDO_0'', 7),
     (''RADIO_TECH_EVDO_A'', 8),
     (''RADIO_TECH_EVDO_B'', 12),
     (''RADIO_TECH_EHRPD'', 13),
     (''RADIO_TECH_3GPP'', 1),
     (''RADIO_TECH_3GPP2'', 2),
     (''CDMA_SUBSCRIPTION_SOURCE_RUIM_SIM'', 0),
     (''CDMA_SUBSCRIPTION_SOURCE_NV'', 1),
     (''RIL_CDMA_SMS_ADDRESS_MAX'', 36),
     (''RIL_CDMA_SMS_SUBADDRESS_MAX'', 36),
     (''RIL_CDMA_SMS_BEARER_DATA_MAX'', 255),
     (''NUM_SERVICE_CLASSES'', 7),
     (''SS_INFO_MAX'', 4),
     (''SS_CFU'', 0),
     (''SS_CF_BUSY'', 1),
     (''SS_CF_NO_REPLY'', 2),
     (''SS_CF_NOT_REACHABLE'', 3),
     (''SS_CF_ALL'', 4),
     (''SS_CF_ALL_CONDITIONAL'', 5),
     (''SS_INTERROGATION'', 2),
     (''CDMA_ALPHA_INFO_BUFFER_LENGTH'', 64),
     (''CDMA_NUMBER_INFO_BUFFER_LENGTH'', 81),
     (''RIL_CDMA_MAX_NUMBER_OF_INFO_RECS'', 10),
     (''RIL_CDMA_DISPLAY_INFO_REC'', 0),
     (''RIL_CDMA_CALLED_PARTY_NUMBER_INFO_REC'', 1),
     (''RIL_CDMA_CALLING_PARTY_NUMBER_INFO_REC'', 2),
     (''RIL_CDMA_CONNECTED_NUMBER_INFO_REC'', 3),
     (''RIL_CDMA_SIGNAL_INFO_REC'', 4),
     (''RIL_CDMA_REDIRECTING_NUMBER_INFO_REC'', 5),
     (''RIL_CDMA_LINE_CONTROL_INFO_REC'', 6),
     (''RIL_CDMA_EXTENDED_DISPLAY_INFO_REC'', 7),
     (''RIL_CDMA_T53_CLIR_INFO_REC'', 8),
     (''RIL_CDMA_T53_RELEASE_INFO_REC'', 9),
     (''RIL_CDMA_T53_AUDIO_CONTROL_INFO_REC'', 10),
     (''RIL_CELL_INFO_TYPE_GSM'', 1),
     (''RIL_CELL_INFO_TYPE_CDMA'', 2),
     (''RIL_CELL_INFO_TYPE_LTE'', 3),
     (''RIL_CELL_INFO_TYPE_WCDMA'', 4),
     (''RIL_CELL_INFO_TYPE_TD_SCDMA'', 5),
     (''RIL_HARDWARE_CONFIG_MODEM'', 0),
     (''RIL_HARDWARE_CONFIG_SIM'', 1),
     (''RIL_NUM_TX_POWER_LEVELS'', 5),
     (''RIL_REQUEST_GET_SIM_STATUS'', 1),
     (''RIL_REQUEST_ENTER_SIM_PIN'', 2),
     (''RIL_REQUEST_ENTER_SIM_PUK'', 3),
     (''RIL_REQUEST_ENTER_SIM_PIN2'', 4),
     (''RIL_REQUEST_ENTER_SIM_PUK2'', 5),
     (''RIL_REQUEST_CHANGE_SIM_PIN'', 6),
     (''RIL_REQUEST_CHANGE_SIM_PIN2'', 7),
     (''RIL_REQUEST_ENTER_NETWORK_DEPERSONALIZATION'', 8),
     (''RIL_REQUEST_GET_CURRENT_CALLS'', 9),
     (''RIL_REQUEST_DIAL'', 10),
     (''RIL_REQUEST_GET_IMSI'', 11),
     (''RIL_REQUEST_HANGUP'', 12),
     (''RIL_REQUEST_HANGUP_WAITING_OR_BACKGROUND'', 13),
     (''RIL_REQUEST_HANGUP_FOREGROUND_RESUME_BACKGROUND'', 14),
     (''RIL_REQUEST_SWITCH_WAITING_OR_HOLDING_AND_ACTIVE'', 15),
     (''RIL_REQUEST_CONFERENCE'', 16),
     (''RIL_REQUEST_UDUB'', 17),
     (''RIL_REQUEST_LAST_CALL_FAIL_CAUSE'', 18),
     (''RIL_REQUEST_SIGNAL_STRENGTH'', 19),
     (''RIL_REQUEST_VOICE_REGISTRATION_STATE'', 20),
     (''RIL_REQUEST_DATA_REGISTRATION_STATE'', 21),
     (''RIL_REQUEST_OPERATOR'', 22),
     (''RIL_REQUEST_RADIO_POWER'', 23),
     (''RIL_REQUEST_DTMF'', 24),
     (''RIL_REQUEST_SEND_SMS'', 25),
     (''RIL_REQUEST_SEND_SMS_EXPECT_MORE'', 26),
     (''RIL_REQUEST_SETUP_DATA_CALL'', 27),
     (''RIL_REQUEST_SIM_IO'', 28),
     (''RIL_REQUEST_SEND_USSD'', 29),
     (''RIL_REQUEST_CANCEL_USSD'', 30),
     (''RIL_REQUEST_GET_CLIR'', 31),
     (''RIL_REQUEST_SET_CLIR'', 32),
     (''RIL_REQUEST_QUERY_CALL_FORWARD_STATUS'', 33),
     (''RIL_REQUEST_SET_CALL_FORWARD'', 34),
     (''RIL_REQUEST_QUERY_CALL_WAITING'', 35),
     (''RIL_REQUEST_SET_CALL_WAITING'', 36),
     (''RIL_REQUEST_SMS_ACKNOWLEDGE'', 37),
     (''RIL_REQUEST_GET_IMEI'', 38),
     (''RIL_REQUEST_GET_IMEISV'', 39),
     (''RIL_REQUEST_ANSWER'', 40),
     (''RIL_REQUEST_DEACTIVATE_DATA_CALL'', 41),
     (''RIL_REQUEST_QUERY_FACILITY_LOCK'', 42),
     (''RIL_REQUEST_SET_FACILITY_LOCK'', 43),
     (''RIL_REQUEST_CHANGE_BARRING_PASSWORD'', 44),
     (''RIL_REQUEST_QUERY_NETWORK_SELECTION_MODE'', 45),
     (''RIL_REQUEST_SET_NETWORK_SELECTION_AUTOMATIC'', 46),
     (''RIL_REQUEST_SET_NETWORK_SELECTION_MANUAL'', 47),
     (''RIL_REQUEST_QUERY_AVAILABLE_NETWORKS'', 48),
     (''RIL_REQUEST_DTMF_START'', 49),
     (''RIL_REQUEST_DTMF_STOP'', 50),
     (''RIL_REQUEST_BASEBAND_VERSION'', 51),
     (''RIL_REQUEST_SEPARATE_CONNECTION'', 52),
     (''RIL_REQUEST_SET_MUTE'', 53),
     (''RIL_REQUEST_GET_MUTE'', 54),
     (''RIL_REQUEST_QUERY_CLIP'', 55),
     (''RIL_REQUEST_LAST_DATA_CALL_FAIL_CAUSE'', 56),
     (''RIL_REQUEST_DATA_CALL_LIST'', 57),
     (''RIL_REQUEST_RESET_RADIO'', 58),
     (''RIL_REQUEST_OEM_HOOK_RAW'', 59),
     (''RIL_REQUEST_OEM_HOOK_STRINGS'', 60),
     (''RIL_REQUEST_SCREEN_STATE'', 61),
     (''RIL_REQUEST_SET_SUPP_SVC_NOTIFICATION'', 62),
     (''RIL_REQUEST_WRITE_SMS_TO_SIM'', 63),
     (''RIL_REQUEST_DELETE_SMS_ON_SIM'', 64),
     (''RIL_REQUEST_SET_BAND_MODE'', 65),
     (''RIL_REQUEST_QUERY_AVAILABLE_BAND_MODE'', 66),
     (''RIL_REQUEST_STK_GET_PROFILE'', 67),
     (''RIL_REQUEST_STK_SET_PROFILE'', 68),
     (''RIL_REQUEST_STK_SEND_ENVELOPE_COMMAND'', 69),
     (''RIL_REQUEST_STK_SEND_TERMINAL_RESPONSE'', 70),
     (''RIL_REQUEST_STK_HANDLE_CALL_SETUP_REQUESTED_FROM_SIM'', 71),
     (''RIL_REQUEST_EXPLICIT_CALL_TRANSFER'', 72),
     (''RIL_REQUEST_SET_PREFERRED_NETWORK_TYPE'', 73),
     (''RIL_REQUEST_GET_PREFERRED_NETWORK_TYPE'', 74),
     (''RIL_REQUEST_GET_NEIGHBORING_CELL_IDS'', 75),
     (''RIL_REQUEST_SET_LOCATION_UPDATES'', 76),
     (''RIL_REQUEST_CDMA_SET_SUBSCRIPTION_SOURCE'', 77),
     (''RIL_REQUEST_CDMA_SET_ROAMING_PREFERENCE'', 78),
     (''RIL_REQUEST_CDMA_QUERY_ROAMING_PREFERENCE'', 79),
     (''RIL_REQUEST_SET_TTY_MODE'', 80),
     (''RIL_REQUEST_QUERY_TTY_MODE'', 81),
     (''RIL_REQUEST_CDMA_SET_PREFERRED_VOICE_PRIVACY_MODE'', 82),
     (''RIL_REQUEST_CDMA_QUERY_PREFERRED_VOICE_PRIVACY_MODE'', 83),
     (''RIL_REQUEST_CDMA_FLASH'', 84),
     (''RIL_REQUEST_CDMA_BURST_DTMF'', 85),
     (''RIL_REQUEST_CDMA_VALIDATE_AND_WRITE_AKEY'', 86),
     (''RIL_REQUEST_CDMA_SEND_SMS'', 87),
     (''RIL_REQUEST_CDMA_SMS_ACKNOWLEDGE'', 88),
     (''RIL_REQUEST_GSM_GET_BROADCAST_SMS_CONFIG'', 89),
     (''RIL_REQUEST_GSM_SET_BROADCAST_SMS_CONFIG'', 90),
     (''RIL_REQUEST_GSM_SMS_BROADCAST_ACTIVATION'', 91),
     (''RIL_REQUEST_CDMA_GET_BROADCAST_SMS_CONFIG'', 92),
     (''RIL_REQUEST_CDMA_SET_BROADCAST_SMS_CONFIG'', 93),
     (''RIL_REQUEST_CDMA_SMS_BROADCAST_ACTIVATION'', 94),
     (''RIL_REQUEST_CDMA_SUBSCRIPTION'', 95),
     (''RIL_REQUEST_CDMA_WRITE_SMS_TO_RUIM'', 96),
     (''RIL_REQUEST_CDMA_DELETE_SMS_ON_RUIM'', 97),
     (''RIL_REQUEST_DEVICE_IDENTITY'', 98),
     (''RIL_REQUEST_EXIT_EMERGENCY_CALLBACK_MODE'', 99),
     (''RIL_REQUEST_GET_SMSC_ADDRESS'', 100),
     (''RIL_REQUEST_SET_SMSC_ADDRESS'', 101),
     (''RIL_REQUEST_REPORT_SMS_MEMORY_STATUS'', 102),
     (''RIL_REQUEST_REPORT_STK_SERVICE_IS_RUNNING'', 103),
     (''RIL_UNSOL_RESPONSE_RADIO_STATE_CHANGED'', 1000),
     (''RIL_UNSOL_RESPONSE_CALL_STATE_CHANGED'', 1001),
     (''RIL_UNSOL_RESPONSE_VOICE_NETWORK_STATE_CHANGED'', 1002),
     (''RIL_UNSOL_RESPONSE_NEW_SMS'', 1003),
     (''RIL_UNSOL_RESPONSE_NEW_SMS_STATUS_REPORT'', 1004),
     (''RIL_UNSOL_RESPONSE_NEW_SMS_ON_SIM'', 1005),
     (''RIL_UNSOL_ON_USSD'', 1006),
     (''RIL_UNSOL_ON_USSD_REQUEST'', 1007),
     (''RIL_UNSOL_NITZ_TIME_RECEIVED'', 1008),
     (''RIL_UNSOL_SIGNAL_STRENGTH'', 1009),
     (''RIL_UNSOL_DATA_CALL_LIST_CHANGED'', 1010),
     (''RIL_UNSOL_SUPP_SVC_NOTIFICATION'', 1011),
     (''RIL_UNSOL_STK_SESSION_END'', 1012),
     (''RIL_UNSOL_STK_PROACTIVE_COMMAND'', 1013),
     (''RIL_UNSOL_STK_EVENT_NOTIFY'', 1014),
     (''RIL_UNSOL_STK_CALL_SETUP'', 1015),
     (''RIL_UNSOL_SIM_SMS_STORAGE_FULL'', 1016),
     (''RIL_UNSOL_SIM_REFRESH'', 1017),
     (''RIL_UNSOL_CALL_RING'', 1018),
     (''RIL_UNSOL_RESPONSE_SIM_STATUS_CHANGED'', 1019),
     (''RIL_UNSOL_RESPONSE_CDMA_NEW_SMS'', 1020),
     (''RIL_UNSOL_RESPONSE_NEW_BROADCAST_SMS'', 1021),
     (''RIL_UNSOL_CDMA_RUIM_SMS_STORAGE_FULL'', 1022),
     (''RIL_UNSOL_RESTRICTED_STATE_CHANGED'', 1023),
     (''RIL_UNSOL_ENTER_EMERGENCY_CALLBACK_MODE'', 1024),
     (''RIL_UNSOL_CDMA_CALL_WAITING'', 1025),
     (''RIL_UNSOL_CDMA_OTA_PROVISION_STATUS'', 1026),
     (''RIL_UNSOL_CDMA_INFO_REC'', 1027),
     (''RIL_UNSOL_OEM_HOOK_RAW'', 1028),
     (''RIL_UNSOL_RINGBACK_TONE'', 1029),
     (''RIL_UNSOL_RESEND_INCALL_MUTE'', 1030),
     (''RIL_UNSOL_CDMA_SUBSCRIPTION_SOURCE_CHANGED'', 1031),
     (''RIL_UNSOL_CDMA_PRL_CHANGED'', 1032),
     (''RIL_UNSOL_EXIT_EMERGENCY_CALLBACK_MODE'', 1033),
     (''RIL_UNSOL_RIL_CONNECTED'', 1034),
     (''RIL_UNSOL_VOICE_RADIO_TECH_CHANGED'', 1035),
     (''RIL_UNSOL_CELL_INFO_LIST'', 1036),
     (''RIL_UNSOL_RESPONSE_IMS_NETWORK_STATE_CHANGED'', 1037),
     (''RIL_UNSOL_UICC_SUBSCRIPTION_STATUS_CHANGED'', 1038),
     (''RIL_UNSOL_SRVCC_STATE_NOTIFY'', 1039),
     (''RIL_UNSOL_HARDWARE_CONFIG_CHANGED'', 1040),
     (''RIL_UNSOL_DC_RT_INFO_CHANGED'', 1041),
     (''RIL_UNSOL_RADIO_CAPABILITY'', 1042),
     (''RIL_UNSOL_ON_SS'', 1043),
     (''RIL_UNSOL_STK_CC_ALPHA_NOTIFY'', 1044),
     (''RIL_UNSOL_LCEDATA_RECV'', 1045)]"

definition ref_sizes :: "(string \<times> nat) list" where
  "ref_sizes = [
     (''RIL_Dial'', 12),
     (''RIL_SMS_WriteArgs'', 12),
     (''RIL_SIM_APDU'', 28),
     (''RIL_CallForwardInfo'', 24),
     (''RIL_CDMA_SMS_Message'', 360),
     (''RIL_CDMA_SMS_Ack'', 8),
     (''RIL_CDMA_SMS_WriteArgs'', 364),
     (''RIL_GSM_BroadcastSmsConfigInfo'', 20),
     (''RIL_CDMA_BroadcastSmsConfigInfo'', 12),
     (''RIL_RadioTechnologyFamily'', 4),
     (''RIL_InitialAttachApn'', 20),
     (''RIL_NV_ReadItem'', 4),
     (''RIL_NV_WriteItem'', 8),
     (''RIL_SelectUiccSub'', 16),
     (''RIL_SimAuthentication'', 12),
     (''RIL_DataProfileInfo'', 44),
     (''RIL_RadioCapability'', 84),
     (''RIL_RadioCapability.logicalModemUuid'', 64),
     (''RIL_LastCallFailCauseInfo'', 8),
     (''RIL_SMS_Response'', 12),
     (''RIL_Data_Call_Response_v4'', 16),
     (''RIL_Data_Call_Response_v6'', 36),
     (''RIL_Data_Call_Response_v9'', 40),
     (''RIL_Data_Call_Response_v11'', 44),
     (''RIL_SIM_IO_Response'', 12),
     (''RIL_SuppSvcNotification'', 20),
     (''RIL_CDMA_SignalInfoRecord'', 4),
     (''RIL_CDMA_InformationRecords'', 1004),
     (''RIL_SignalStrength_v5'', 28),
     (''RIL_SignalStrength_v6'', 48),
     (''RIL_SignalStrength_v10'', 52),
     (''RIL_CDMA_CallWaiting_v6'', 24),
     (''RIL_CellInfo'', 64),
     (''RIL_HardwareConfig'', 88),
     (''RIL_AppStatus'', 32),
     (''RIL_StkCcUnsolSsResponse'', 192),
     (''RIL_DcRtInfo'', 16),
     (''RIL_LceStatusInfo'', 8),
     (''RIL_LceDataInfo'', 8),
     (''RIL_ActivityStatsInfo'', 32)]"

definition ref_h :: ril_h where
  "ref_h = \<lparr>hval = (\<lambda>s. case map_of ref_vals s of None \<Rightarrow> 0 | Some v \<Rightarrow> v),
            hsizeof = (\<lambda>s. case map_of ref_sizes s of None \<Rightarrow> 0 | Some v \<Rightarrow> v)\<rparr>"

text \<open>Looking a name up in the association lists.\<close>

lemmas lookup_simps = map_of.simps fun_upd_apply prod.sel list.inject char.inject if_False if_True
  refl list.distinct simp_thms

lemma ref_hval:
  "map_of ref_vals s = Some v \<Longrightarrow> hval ref_h s = v"
  by (simp add: ref_h_def)

lemma ref_hsizeof:
  "map_of ref_sizes s = Some n \<Longrightarrow> hsizeof ref_h s = n"
  by (simp add: ref_h_def)

lemma ref_vals [simp]:
  "hval ref_h ''RIL_UNSOL_RESPONSE_BASE'' = 1000"
  "hval ref_h ''RIL_E_SUCCESS'' = 0"
  "hval ref_h ''RIL_E_RADIO_NOT_AVAILABLE'' = 1"
  "hval ref_h ''RIL_E_GENERIC_FAILURE'' = 2"
  "hval ref_h ''RADIO_STATE_OFF'' = 0"
  "hval ref_h ''RADIO_STATE_UNAVAILABLE'' = 1"
  "hval ref_h ''RADIO_STATE_SIM_READY'' = 4"
  "hval ref_h ''RADIO_STATE_ON'' = 10"
  "hval ref_h ''RIL_CDMA_SMS_ADDRESS_MAX'' = 36"
  "hval ref_h ''RIL_CDMA_SMS_SUBADDRESS_MAX'' = 36"
  "hval ref_h ''RIL_CDMA_SMS_BEARER_DATA_MAX'' = 255"
  "hval ref_h ''RIL_UNSOL_RESPONSE_RADIO_STATE_CHANGED'' = 1000"
  "hval ref_h ''RIL_UNSOL_NITZ_TIME_RECEIVED'' = 1008"
  "hval ref_h ''RIL_UNSOL_CDMA_SUBSCRIPTION_SOURCE_CHANGED'' = 1031"
  "hval ref_h ''RIL_UNSOL_CDMA_PRL_CHANGED'' = 1032"
  "hval ref_h ''RIL_UNSOL_EXIT_EMERGENCY_CALLBACK_MODE'' = 1033"
  "hval ref_h ''RIL_UNSOL_RIL_CONNECTED'' = 1034"
  "hval ref_h ''RIL_UNSOL_VOICE_RADIO_TECH_CHANGED'' = 1035"
  "hval ref_h ''RIL_UNSOL_RESPONSE_SIM_STATUS_CHANGED'' = 1019"
  "hval ref_h ''RIL_UNSOL_RESPONSE_IMS_NETWORK_STATE_CHANGED'' = 1037"
  by (rule ref_hval, simp only: ref_vals_def lookup_simps)+

lemma ref_sizes [simp]:
  "hsizeof ref_h ''RIL_Dial'' = 12"
  "hsizeof ref_h ''RIL_SMS_WriteArgs'' = 12"
  "hsizeof ref_h ''RIL_SIM_APDU'' = 28"
  "hsizeof ref_h ''RIL_CallForwardInfo'' = 24"
  "hsizeof ref_h ''RIL_CDMA_SMS_Message'' = 360"
  "hsizeof ref_h ''RIL_CDMA_SMS_Ack'' = 8"
  "hsizeof ref_h ''RIL_CDMA_SMS_WriteArgs'' = 364"
  "hsizeof ref_h ''RIL_GSM_BroadcastSmsConfigInfo'' = 20"
  "hsizeof ref_h ''RIL_CDMA_BroadcastSmsConfigInfo'' = 12"
  "hsizeof ref_h ''RIL_RadioTechnologyFamily'' = 4"
  "hsizeof ref_h ''RIL_InitialAttachApn'' = 20"
  "hsizeof ref_h ''RIL_NV_ReadItem'' = 4"
  "hsizeof ref_h ''RIL_NV_WriteItem'' = 8"
  "hsizeof ref_h ''RIL_SelectUiccSub'' = 16"
  "hsizeof ref_h ''RIL_SimAuthentication'' = 12"
  "hsizeof ref_h ''RIL_DataProfileInfo'' = 44"
  "hsizeof ref_h ''RIL_RadioCapability'' = 84"
  "hsizeof ref_h ''RIL_RadioCapability.logicalModemUuid'' = 64"
  "hsizeof ref_h ''RIL_LastCallFailCauseInfo'' = 8"
  "hsizeof ref_h ''RIL_SMS_Response'' = 12"
  "hsizeof ref_h ''RIL_Data_Call_Response_v4'' = 16"
  "hsizeof ref_h ''RIL_Data_Call_Response_v6'' = 36"
  "hsizeof ref_h ''RIL_Data_Call_Response_v9'' = 40"
  "hsizeof ref_h ''RIL_Data_Call_Response_v11'' = 44"
  "hsizeof ref_h ''RIL_SIM_IO_Response'' = 12"
  "hsizeof ref_h ''RIL_SuppSvcNotification'' = 20"
  "hsizeof ref_h ''RIL_CDMA_SignalInfoRecord'' = 4"
  "hsizeof ref_h ''RIL_CDMA_InformationRecords'' = 1004"
  "hsizeof ref_h ''RIL_SignalStrength_v5'' = 28"
  "hsizeof ref_h ''RIL_SignalStrength_v6'' = 48"
  "hsizeof ref_h ''RIL_SignalStrength_v10'' = 52"
  "hsizeof ref_h ''RIL_CDMA_CallWaiting_v6'' = 24"
  "hsizeof ref_h ''RIL_CellInfo'' = 64"
  "hsizeof ref_h ''RIL_HardwareConfig'' = 88"
  "hsizeof ref_h ''RIL_AppStatus'' = 32"
  "hsizeof ref_h ''RIL_StkCcUnsolSsResponse'' = 192"
  "hsizeof ref_h ''RIL_DcRtInfo'' = 16"
  "hsizeof ref_h ''RIL_LceStatusInfo'' = 8"
  "hsizeof ref_h ''RIL_LceDataInfo'' = 8"
  "hsizeof ref_h ''RIL_ActivityStatsInfo'' = 32"
  by (rule ref_hsizeof, simp only: ref_sizes_def lookup_simps)+

end
