(* ===== verification/Flat_Parcel.thy ===== *)
theory Flat_Parcel
  imports Ril_Ext
begin

unbundle bit_operations_syntax

text \<open>
  The flat format a parcel has on the wire: a byte array and a position, integers in little-endian
  order, every item padded to four bytes, a string as its length followed by its UTF-16 units and a
  terminator, \<open>-1\<close> for the null string. The format satisfies the locales \<open>parcel_api\<close> and \<open>ril_env\<close>.
\<close>

section \<open>Bytes of the items\<close>

definition enc32 :: "i32 \<Rightarrow> u8 list" where
  "enc32 w = [ucast w, ucast (drop_bit 8 w), ucast (drop_bit 16 w), ucast (drop_bit 24 w)]"

fun dec32 :: "u8 list \<Rightarrow> i32" where
  "dec32 [a, b, c, d] =
     ucast a OR push_bit 8 (ucast b) OR push_bit 16 (ucast c) OR push_bit 24 (ucast d)"
| "dec32 _ = 0"

definition enc16 :: "16 word \<Rightarrow> u8 list" where
  "enc16 w = [ucast w, ucast (drop_bit 8 w)]"

fun dec16s :: "u8 list \<Rightarrow> utf16" where
  "dec16s (a # b # bs) = (ucast a OR push_bit 8 (ucast b)) # dec16s bs"
| "dec16s _ = []"

definition padded :: "nat \<Rightarrow> nat" where
  "padded n = (n + 3) div 4 * 4"

definition pad :: "u8 list \<Rightarrow> u8 list" where
  "pad bs = bs @ replicate (padded (length bs) - length bs) 0"

fun enc_item :: "item \<Rightarrow> u8 list" where
  "enc_item (I32 x) = enc32 x"
| "enc_item (I64 y) = enc32 (ucast y) @ enc32 (ucast (drop_bit 32 y))"
| "enc_item (U8 u) = pad [u]"
| "enc_item (Raw bs) = pad bs"
| "enc_item (S16 None) = enc32 (- 1)"
| "enc_item (S16 (Some w)) = enc32 (word_of_nat (length w)) @ pad (concat (map enc16 (w @ [0])))"

definition enc_items :: "item list \<Rightarrow> u8 list" where
  "enc_items its = concat (map enc_item its)"

section \<open>The operations\<close>

type_synonym flat = "u8 list \<times> nat"

definition take_at :: "nat \<Rightarrow> flat \<Rightarrow> (u8 list \<times> flat) option" where
  "take_at n p = (case p of (bs, i) \<Rightarrow>
     if i + padded n \<le> length bs then Some (take n (drop i bs), (bs, i + padded n)) else None)"

definition put_at :: "u8 list \<Rightarrow> flat \<Rightarrow> flat" where
  "put_at xs p = (case p of (bs, i) \<Rightarrow>
     (take i bs @ xs @ drop (i + length xs) bs, i + length xs))"

definition flat_readInt32 :: "(flat, status_t \<times> i32) state" where
  "flat_readInt32 = State (\<lambda>p. case take_at 4 p of
       None \<Rightarrow> ((NOT_ENOUGH_DATA, 0), p) | Some (bs, p') \<Rightarrow> ((NO_ERROR, dec32 bs), p'))"

definition flat_readU8 :: "(flat, status_t \<times> u8) state" where
  "flat_readU8 = State (\<lambda>p. case take_at 1 p of
       None \<Rightarrow> ((NOT_ENOUGH_DATA, 0), p) | Some (bs, p') \<Rightarrow> ((NO_ERROR, hd bs), p'))"

definition flat_readInplace :: "i32 \<Rightarrow> (flat, u8 list option) state" where
  "flat_readInplace n = State (\<lambda>p. case take_at (unat n) p of
       None \<Rightarrow> (None, p) | Some (bs, p') \<Rightarrow> (Some bs, p'))"

definition flat_readString16Inplace :: "(flat, utf16 option) state" where
  "flat_readString16Inplace = State (\<lambda>p. case take_at 4 p of
       None \<Rightarrow> (None, p)
     | Some (hdr, p') \<Rightarrow>
         if 2 ^ 31 \<le> unat (dec32 hdr) then (None, p')
         else (case take_at (2 * (unat (dec32 hdr) + 1)) p' of
                 None \<Rightarrow> (None, p')
               | Some (bs, p'') \<Rightarrow> (Some (butlast (dec16s bs)), p'')))"

definition flat_put :: "u8 list \<Rightarrow> (flat, unit) state" where
  "flat_put xs = State (\<lambda>p. ((), put_at xs p))"

definition narrow :: "utf16 \<Rightarrow> string" where
  "narrow w = map (\<lambda>u. char_of (unat u)) w"

definition widen :: "string \<Rightarrow> utf16" where
  "widen s = map (\<lambda>c. word_of_nat (of_char c)) s"

definition flat_parcel :: "flat ext" where
  "flat_parcel = \<lparr>
     p_new = ([], 0),
     p_setData = (\<lambda>bs. (bs, 0)),
     p_readInt32 = flat_readInt32,
     p_readInt32V = do { r \<leftarrow> flat_readInt32; ret (snd r) },
     p_readU8 = flat_readU8,
     p_read32 = flat_readInt32,
     p_readString16Inplace = flat_readString16Inplace,
     p_readString16 = do { r \<leftarrow> flat_readString16Inplace; ret (case r of None \<Rightarrow> [] | Some w \<Rightarrow> w) },
     p_readInplace = flat_readInplace,
     p_writeInt32 = (\<lambda>x. flat_put (enc_item (I32 x))),
     p_writeInt64 = (\<lambda>y. flat_put (enc_item (I64 y))),
     p_writeU8 = (\<lambda>u. flat_put (enc_item (U8 u))),
     p_write = (\<lambda>bs. flat_put (enc_item (Raw bs))),
     p_writeString16 = (\<lambda>s. flat_put (enc_item (S16 s))),
     p_dataPosition = snd,
     p_setDataPosition = (\<lambda>i p. (fst p, i)),
     p_appendFrom = (\<lambda>p i n q. put_at (take n (drop i (fst p))) q),
     p_data = fst,
     strndup16to8 = map_option narrow,
     strnlen16to8 = length,
     strncpy16to8 = (\<lambda>w n. Some (narrow (take n w))),
     strdup8to16 = (\<lambda>c. case c of None \<Rightarrow> None
        | Some s \<Rightarrow> if length s < 2 ^ 31 then Some (widen s) else None),
     alloca_ok = (\<lambda>n. n < 1048576) \<rparr>"

lemma flat_alloca [simp]: "alloca_ok flat_parcel n \<longleftrightarrow> n < 1048576"
  by (simp add: flat_parcel_def)

text \<open>The data is the bytes of the items and the position is behind the bytes of the items read.\<close>

definition flat_R :: "flat \<Rightarrow> item list \<Rightarrow> item list \<Rightarrow> bool" where
  "flat_R p b a \<longleftrightarrow> fst p = enc_items b @ enc_items a \<and> snd p = length (enc_items b)"

section \<open>Decoding inverts encoding\<close>

lemma enc_items_simps [simp]:
  "enc_items [] = []" "enc_items (x # xs) = enc_item x @ enc_items xs"
  "enc_items (xs @ ys) = enc_items xs @ enc_items ys"
  by (simp_all add: enc_items_def)

lemma length_enc32 [simp]: "length (enc32 w) = 4"
  by (simp add: enc32_def)

lemma length_enc16s [simp]: "length (concat (map enc16 w)) = 2 * length w"
  by (induction w) (auto simp: enc16_def)

lemma padded_ge: "n \<le> padded n"
  unfolding padded_def by linarith

lemma length_pad [simp]: "length (pad bs) = padded (length bs)"
  using padded_ge [of "length bs"] by (simp add: pad_def)

lemma take_pad [simp]: "take (length bs) (pad bs @ xs) = bs" "take (length bs) (pad bs) = bs"
  "length bs - padded (length bs) = 0"
  using padded_ge [of "length bs"] by (simp_all add: pad_def)

lemma dec32_enc32 [simp]: "dec32 (enc32 w) = w"
proof (rule bit_word_eqI)
  fix n
  assume "n < LENGTH(32)"
  moreover have "24 + (n - 24) = n \<or> n < 24" by auto
  ultimately show "bit (dec32 (enc32 w)) n \<longleftrightarrow> bit w n"
    by (auto simp: enc32_def bit_simps)
qed

lemma dec16_enc16: "ucast (ucast w :: u8) OR push_bit 8 (ucast (ucast (drop_bit 8 w) :: u8)) = (w :: 16 word)"
  by (rule bit_word_eqI) (auto simp: bit_simps)

lemma dec16s_enc16s [simp]: "dec16s (concat (map enc16 w)) = w"
  by (induction w) (simp_all add: enc16_def dec16_enc16)

section \<open>Reading and writing at the position\<close>

lemma padded_eqs [simp]: "padded 4 = 4" "padded (Suc 0) = 4" "padded (padded n) = padded n"
  by (simp_all add: padded_def)

lemma take_at_item:
  assumes "flat_R p b (x # a)" "enc_item x = pad bs" "length bs = n"
  shows "take_at n p = Some (bs, (fst p, length (enc_items (b @ [x]))))"
  using assms by (cases p) (auto simp: take_at_def flat_R_def)

lemma take_at_end: "flat_R p b [] \<Longrightarrow> 0 < n \<Longrightarrow> take_at n p = None"
  using padded_ge [of n] by (cases p) (simp add: take_at_def flat_R_def)

lemma pad_enc32 [simp]: "pad (enc32 w) = enc32 w"
  by (simp add: pad_def)

lemma flat_R_step: "flat_R p b (x # a) \<Longrightarrow> flat_R (fst p, length (enc_items (b @ [x]))) (b @ [x]) a"
  by (simp add: flat_R_def)

lemma flat_put_over:
  "flat_R p b (y # a) \<Longrightarrow> length (enc_item y) = length (enc_item x) \<Longrightarrow>
     flat_R (put_at (enc_item x) p) (b @ [x]) a"
  by (cases p) (simp add: flat_R_def put_at_def)

lemma read32_item:
  assumes "flat_R p b (I32 x # a)"
  shows "run_state flat_readInt32 p =
    ((NO_ERROR, x), (fst p, length (enc_items (b @ [I32 x]))))"
  using take_at_item [OF assms, of "enc32 x" 4] by (simp add: flat_readInt32_def)

lemma readS16_None:
  assumes "flat_R p b (S16 None # a)"
  shows "run_state flat_readString16Inplace p =
    (None, (fst p, length (enc_items (b @ [S16 None]))))"
  using take_at_item [OF assms, of "enc32 (- 1)" 4]
  by (simp add: flat_readString16Inplace_def unsigned_minus_1_eq_mask mask_eq_exp_minus_1)

lemma readS16_Some:
  assumes R: "flat_R p b (S16 (Some w) # a)" and fits: "length w < 2 ^ 31"
  shows "run_state flat_readString16Inplace p =
    (Some w, (fst p, length (enc_items (b @ [S16 (Some w)]))))"
proof -
  let ?n = "word_of_nat (length w) :: i32"
  let ?bs = "concat (map enc16 (w @ [0]))"
  have n: "unat ?n = length w" using fits by (simp add: unat_of_nat take_bit_nat_eq_self)
  then have s: "\<not> 2 ^ 31 \<le> unat ?n" using fits by simp
  have R1: "flat_R p b (I32 ?n # Raw ?bs # a)" using R by (simp add: flat_R_def)
  let ?p = "(fst p, length (enc_items (b @ [I32 ?n])))"
  have t1: "take_at 4 p = Some (enc32 ?n, ?p)"
    using take_at_item [OF R1, of "enc32 ?n" 4] by simp
  have R2: "flat_R ?p (b @ [I32 ?n]) (Raw ?bs # a)" using flat_R_step [OF R1] .
  have t2: "take_at (2 * (unat ?n + 1)) ?p =
      Some (?bs, (fst p, length (enc_items ((b @ [I32 ?n]) @ [Raw ?bs]))))"
    using take_at_item [OF R2, of ?bs] n by (simp del: concat_append map_append)
  show ?thesis
    using t1 t2 s n by (simp add: flat_readString16Inplace_def del: concat_append map_append)
qed

lemma readS16_item:
  "flat_R p b (S16 s # a) \<Longrightarrow> str16_fits s \<Longrightarrow>
    run_state flat_readString16Inplace p = (s, (fst p, length (enc_items (b @ [S16 s]))))"
  by (cases s) (use readS16_None readS16_Some in auto)

section \<open>The format satisfies the interface\<close>

lemma narrow_widen: "c_string s \<Longrightarrow> narrow (widen s) = s"
proof -
  assume "c_string s"
  then have "\<forall>c \<in> set s. of_char c < (128::nat)" by (simp add: c_string_def)
  then have "map (\<lambda>c. char_of (unat (word_of_nat (of_char c) :: 16 word))) s = map (\<lambda>c. c) s"
    by (intro map_cong) (auto simp: unat_of_nat take_bit_nat_eq_self)
  then show ?thesis by (simp add: narrow_def widen_def comp_def)
qed

lemma length_widen [simp]: "length (widen s) = length s"
  by (simp add: widen_def)

interpretation flat: ril_env flat_parcel flat_R enc_items
proof (unfold_locales, goal_cases)
  case (6 p b a b' a' q c)
  from 6(2) have "enc_items b @ enc_items a = enc_items b' @ enc_items a'"
    by (metis enc_items_simps(3))
  with 6 show ?case by (cases q) (simp add: flat_parcel_def flat_R_def put_at_def)
next
  case (5 p b a b' a')
  from 5(2) have "enc_items b @ enc_items a = enc_items b' @ enc_items a'"
    by (metis enc_items_simps(3))
  with 5 show ?case by (simp add: flat_parcel_def flat_R_def)
next
  case (7 p b x a)
  then show ?case
    using flat_R_step [OF 7] read32_item [OF 7] by (simp add: flat_parcel_def)
next
  case (8 p b x a)
  then show ?case
    using flat_R_step [OF 8] read32_item [OF 8] by (simp add: flat_parcel_def)
next
  case (9 p b x a)
  then show ?case
    using flat_R_step [OF 9] read32_item [OF 9] by (simp add: flat_parcel_def)
next
  case (10 p b u a)
  then show ?case
    using take_at_item [OF 10, of "[u]" 1] flat_R_step [OF 10]
    by (simp add: flat_parcel_def flat_readU8_def)
next
  case (11 p b s a)
  then show ?case
    using flat_R_step [OF 11(1)] readS16_item [OF 11] by (simp add: flat_parcel_def)
next
  case (12 p b w a)
  then show ?case
    using flat_R_step [OF 12(1)] readS16_item [OF 12] by (simp add: flat_parcel_def)
next
  case (13 p b bs a n)
  then show ?case
    using take_at_item [OF 13(1), of bs "unat n"] flat_R_step [OF 13(1)]
    by (simp add: flat_parcel_def flat_readInplace_def)
next
  case (19 p b y a x)
  then show ?case
    using flat_put_over [OF 19, of "I32 x"] by (simp add: flat_parcel_def flat_put_def)
next
  case (31 n)
  then show ?case by (simp add: flat_parcel_def)
qed (use flat_R_step in \<open>auto simp: flat_parcel_def flat_R_def readS16_item take_at_end
       flat_readInt32_def flat_readU8_def flat_readString16Inplace_def
       flat_put_def put_at_def narrow_widen c_string_def split: option.splits\<close>)

end
