(* ===== verification/Ril_Roundtrip.thy ===== *)
theory Ril_Roundtrip
  imports Ril_Codec Ril_Tables Flat_Parcel
begin

text \<open>
  What the dispatch functions hand to the vendor library for a well-formed request, stated as round
  trips with the response functions that use the same wire layout.
\<close>

section \<open>Arrays on the stack\<close>

text \<open>A request for the witnesses.\<close>

definition pri0 :: RequestInfo where
  "pri0 = \<lparr>ri_token = 7, ri_pCI = \<lparr>requestNumber = 59, dispatchFunction = D_Strings,
     responseFunction = R_Strings\<rparr>, ri_cancelled = False, ri_local = False\<rparr>"

lemma nat_word:
  assumes "n < 2 ^ 31"
  shows "unat (word_of_nat n :: i32) = n" "sint (word_of_nat n :: i32) = int n"
    "(word_of_nat n :: i32) \<noteq> - 1"
proof -
  show "unat (word_of_nat n :: i32) = n"
    using assms by (simp add: unat_of_nat take_bit_nat_eq_self)
  show s: "sint (word_of_nat n :: i32) = int n"
    using assms by (simp add: signed_of_nat signed_take_bit_int_eq_self)
  show "(word_of_nat n :: i32) \<noteq> - 1"
  proof
    assume "(word_of_nat n :: i32) = - 1"
    then have "sint (word_of_nat n :: i32) = - 1" by simp
    then show False using s by simp
  qed
qed

lemma count_word:
  assumes "sz * n < 2 ^ 30" "0 < sz"
  shows "unat (word_of_nat n :: i32) = n" "sint (word_of_nat n :: i32) = int n"
    "loop_count (word_of_nat n) = n" "size_mul sz (word_of_nat n) = sz * n"
proof -
  have "n \<le> sz * n" using assms(2) by (cases sz) auto
  then have "n < 2 ^ 30" using assms(1) by (rule order.strict_trans1)
  then have n: "n < 2 ^ 31" by simp
  show u: "unat (word_of_nat n :: i32) = n" and s: "sint (word_of_nat n :: i32) = int n"
    using nat_word[OF n] by simp_all
  show "loop_count (word_of_nat n) = n" by (simp add: loop_count_def s)
  show "size_mul sz (word_of_nat n) = sz * n" using assms(1) by (simp add: size_mul_def u)
qed

context ril_env
begin

lemma stack_array_ok:
  assumes "alloca_ok E (sz * n)" "0 < sz"
  shows "stack_array E sz (word_of_nat n) = Inr n"
  using assms alloca_bound[OF assms(1)] count_word[of sz n] by (simp add: stack_array_def)

lemma size_mul_ok:
  "alloca_ok E (sz * n) \<Longrightarrow> 0 < sz \<Longrightarrow> size_mul sz (word_of_nat n) = sz * n"
  using alloca_bound count_word by blast

lemma count_not_special:
  assumes "alloca_ok E (sz * n)" "0 < sz"
  shows "(word_of_nat n :: i32) \<noteq> - 1" "(word_of_nat n :: i32) = 0 \<longleftrightarrow> n = 0"
proof -
  have "sz * n < 2 ^ 30" using assms(1) alloca_bound by blast
  moreover have "n \<le> sz * n" using assms(2) by (cases sz) auto
  ultimately have "n < 2 ^ 30" by (metis order.strict_trans1)
  then have n: "n < 2 ^ 31" by simp
  show "(word_of_nat n :: i32) \<noteq> - 1" by (rule nat_word(3)[OF n])
  show "(word_of_nat n :: i32) = 0 \<longleftrightarrow> n = 0"
    using nat_word(1)[OF n] by (cases "n = 0") (simp, fastforce)
qed

end

section \<open>String and integer arrays\<close>

context ril_env
begin

lemma elems_all: "n = length xs \<Longrightarrow> elems n (Some xs) = Inr xs"
  by (simp add: elems_def)

lemma writes_responseStrings:
  "writes (responseStrings E (Some ss) (sizeof_ptr * length ss)) (Inr 0)
     (I32 (word_of_nat (length ss)) # map (\<lambda>s. S16 (strdup8to16 E s)) ss)"
  by (auto simp: responseStrings_def elems_all sizeof_ptr_def intro!: writes_intros writes_mapM_end)

lemma reads_dispatchStrings:
  assumes "alloca_ok E (sizeof_ptr * length ss)" "\<forall>s \<in> set ss. cstr_ok s"
  shows "reads (dispatchStrings E pRI)
     (Inr (OnRequest (reqno pRI) (StrsData ss) (sizeof_ptr * length ss) # map FreeString ss))
     (I32 (word_of_nat (length ss)) # map (\<lambda>s. S16 (strdup8to16 E s)) ss)"
proof -
  note c = count_not_special[OF assms(1)] stack_array_ok[OF assms(1)] size_mul_ok[OF assms(1)]
  show ?thesis
  proof (cases "ss = []")
    case True
    then show ?thesis by (auto simp: dispatchStrings_def intro!: reads_intros)
  next
    case False
    then show ?thesis using assms(2) c
      by (auto simp: dispatchStrings_def sizeof_ptr_def
          intro!: reads_Int32 reads_repeat_end reads_Nil reads_strdup)
  qed
qed

lemma writes_responseInts:
  "writes (responseInts E (Some xs) (sizeof_int * length xs)) (Inr 0)
     (I32 (word_of_nat (length xs)) # map I32 xs)"
  by (auto simp: responseInts_def elems_all sizeof_int_def intro!: writes_intros writes_mapM_end)

lemma reads_readInts:
  "reads (readInts E (length xs) acc) (Some (rev acc @ xs)) (map I32 xs)"
proof (induction xs arbitrary: acc)
  case (Cons x xs)
  from Cons[of "x # acc"] show ?case by (auto intro!: reads_Int32)
qed (simp add: reads_ret)

lemma reads_dispatchInts:
  assumes "alloca_ok E (sizeof_int * length xs)" "xs \<noteq> []"
  shows "reads (dispatchInts E pRI)
     (Inr [OnRequest (reqno pRI) (IntsData xs) (sizeof_int * length xs)])
     (I32 (word_of_nat (length xs)) # map I32 xs)"
proof -
  note c = count_not_special[OF assms(1)] stack_array_ok[OF assms(1)] size_mul_ok[OF assms(1)]
  show ?thesis using assms(2) c
    by (auto simp: dispatchInts_def sizeof_int_def
        intro!: reads_Int32 reads_bind_ret[OF reads_readInts[of xs "[]"]])
qed

end

text \<open>
  String arrays survive the wire: what \<open>responseStrings\<close> marshals, \<open>dispatchStrings\<close> unmarshals
  to the same strings, NULL entries included, and hands to the vendor library with the byte length
  of the pointer array; every string is freed afterwards.
\<close>

theorem strings_roundtrip:
  assumes "ril_env E R enc" "\<forall>s \<in> set ss. cstr_ok s" "alloca_ok E (sizeof_ptr * length ss)"
  shows "returned E (responseStrings E (Some ss) (sizeof_ptr * length ss)) = Inr 0 \<and>
    received E (dispatchStrings E pRI)
      (sent E (responseStrings E (Some ss) (sizeof_ptr * length ss)))
    = Inr (OnRequest (reqno pRI) (StrsData ss) (sizeof_ptr * length ss) # map FreeString ss)"
  by (rule ril_env.roundtrip[OF assms(1) ril_env.writes_responseStrings[OF assms(1)]
      ril_env.reads_dispatchStrings[OF assms(1,3,2)]])

theorem strings_roundtrip_witness:
  "received flat_parcel (dispatchStrings flat_parcel pri0)
     (sent flat_parcel (responseStrings flat_parcel (Some [Some ''AT'', None]) 8))
   = Inr (OnRequest 59 (StrsData [Some ''AT'', None]) 8 # map FreeString [Some ''AT'', None])"
  using strings_roundtrip[OF flat.ril_env_axioms, of "[Some ''AT'', None]" pri0]
  by (simp add: c_string_def sizeof_ptr_def pri0_def)

text \<open>
  Integer arrays survive the wire: \<open>dispatchInts\<close> unmarshals what \<open>responseInts\<close> marshals.
\<close>

theorem ints_roundtrip:
  assumes "ril_env E R enc" "xs \<noteq> []" "alloca_ok E (sizeof_int * length xs)"
  shows "returned E (responseInts E (Some xs) (sizeof_int * length xs)) = Inr 0 \<and>
    received E (dispatchInts E pRI) (sent E (responseInts E (Some xs) (sizeof_int * length xs)))
    = Inr [OnRequest (reqno pRI) (IntsData xs) (sizeof_int * length xs)]"
  by (rule ril_env.roundtrip[OF assms(1) ril_env.writes_responseInts[OF assms(1)]
      ril_env.reads_dispatchInts[OF assms(1,3,2)]])

theorem ints_roundtrip_witness:
  "received flat_parcel (dispatchInts flat_parcel pri0)
     (sent flat_parcel (responseInts flat_parcel (Some [7, - 1]) 8))
   = Inr [OnRequest 59 (IntsData [7, - 1]) 8]"
  using ints_roundtrip[OF flat.ril_env_axioms, of "[7, - 1]" pri0]
  by (simp add: sizeof_int_def pri0_def)

section \<open>Raw data, short messages and cell broadcast\<close>

context ril_env
begin

lemma writes_responseRaw:
  "writes (responseRaw E (Some bs) (length bs)) (Inr 0) [I32 (word_of_nat (length bs)), Raw bs]"
  by (auto simp: responseRaw_def elems_all intro!: writes_intros)

lemma reads_dispatchRaw:
  assumes "length bs < 2 ^ 31"
  shows "reads (dispatchRaw E pRI)
    (Inr [OnRequest (reqno pRI) (RawData (Some bs)) (length bs)])
    [I32 (word_of_nat (length bs)), Raw bs]"
  using nat_word[OF assms]
    by (auto simp: dispatchRaw_def Let_def intro!: reads_intros)

text \<open>
  A message whose digit arrays have the declared sizes and are zero behind the digits that are
  used, which is what \<open>memset\<close> and the loops of \<open>constructCdmaSms\<close> leave.
\<close>

lemma zero_fill_take:
  "length xs = n \<Longrightarrow> drop k xs = replicate (n - k) 0 \<Longrightarrow> zero_fill n (take k xs) = xs"
  by (cases "k \<le> n") (simp_all add: zero_fill_def, metis append_take_drop_id)

end

fun digits_wf :: "nat \<Rightarrow> nat \<Rightarrow> u8 list \<Rightarrow> bool" where
  "digits_wf amax k xs \<longleftrightarrow> length xs = amax \<and> drop k xs = replicate (amax - k) 0"

definition sms_wf :: "ril_h \<Rightarrow> RIL_CDMA_SMS_Message \<Rightarrow> bool" where
  "sms_wf H m \<longleftrightarrow>
     digits_wf (nat (hval H ''RIL_CDMA_SMS_ADDRESS_MAX'')) (unat (number_of_digits (sAddress m)))
       (addr_digits (sAddress m)) \<and>
     digits_wf (nat (hval H ''RIL_CDMA_SMS_SUBADDRESS_MAX'')) (unat (sub_number_of_digits (sSubAddress m)))
       (sub_digits (sSubAddress m)) \<and>
     digits_wf (nat (hval H ''RIL_CDMA_SMS_BEARER_DATA_MAX'')) (loop_count (uBearerDataLen m))
       (aBearerData m)"

definition sms_items :: "ril_h \<Rightarrow> RIL_CDMA_SMS_Message \<Rightarrow> item list" where
  "sms_items H m = (let a = sAddress m; s = sSubAddress m in
     [I32 (uTeleserviceID m), U8 (bIsServicePresent m), I32 (uServicecategory m),
      I32 (digit_mode a), I32 (number_mode a), I32 (addr_number_type a), I32 (addr_number_plan a),
      U8 (number_of_digits a)]
     @ map U8 (take (min (unat (number_of_digits a)) (nat (hval H ''RIL_CDMA_SMS_ADDRESS_MAX'')))
         (addr_digits a))
     @ [I32 (subaddressType s), U8 (sub_odd s), U8 (sub_number_of_digits s)]
     @ map U8 (take (min (unat (sub_number_of_digits s)) (nat (hval H ''RIL_CDMA_SMS_SUBADDRESS_MAX'')))
         (sub_digits s))
     @ [I32 (uBearerDataLen m)]
     @ map U8 (take (min (loop_count (uBearerDataLen m)) (nat (hval H ''RIL_CDMA_SMS_BEARER_DATA_MAX'')))
         (aBearerData m)))"

context ril_env
begin

lemma writes_responseCdmaSms:
  "writes (responseCdmaSms E H (Some m) (hsizeof H ''RIL_CDMA_SMS_Message'')) (Inr 0) (sms_items H m)"
  by (auto simp: responseCdmaSms_def sms_items_def Let_def
      intro!: writes_Int32 writes_U8 writes_Nil writes_mapM1 writes_mapM_end writes_writeU8)

lemma reads_U8s:
  assumes "length us = n" "reads (g (map (Pair NO_ERROR) us)) y its"
  shows "reads (State_Monad.bind (repeatM n (p_readU8 E)) g) y (map U8 us @ its)"
proof -
  have "reads (p_readU8 E) x [U8 (snd x)]" if "x \<in> set (map (Pair NO_ERROR) us)" for x
    using that by (auto simp: reads_readU8)
  from reads_repeat1[where h = "\<lambda>x. U8 (snd x)" and g = g, OF _ this assms(2)] assms(1) show ?thesis
    by (simp add: comp_def)
qed

lemma reads_U8s_end:
  "length us = n \<Longrightarrow> reads (g (map (Pair NO_ERROR) us)) y [] \<Longrightarrow>
    reads (State_Monad.bind (repeatM n (p_readU8 E)) g) y (map U8 us)"
  using reads_U8s[of us n g y "[]"] by simp

lemma zero_fill_digits:
  "digits_wf n k xs \<Longrightarrow> zero_fill n (take (min k n) xs) = xs"
  by (auto simp: min_def intro!: zero_fill_take) (simp add: zero_fill_def)

lemma reads_constructCdmaSms:
  assumes "sms_wf H m"
  shows "reads (constructCdmaSms E H) (NO_ERROR, m) (sms_items H m)"
  using assms unfolding constructCdmaSms_def sms_items_def sms_wf_def Let_def
  by (auto simp: zero_fill_digits last_status_def comp_def last_map
      intro!: reads_Int32 reads_U8 reads_Nil reads_U8s reads_U8s_end)

end

fun gsm_bci_items :: "RIL_GSM_BroadcastSmsConfigInfo \<Rightarrow> item list" where
  "gsm_bci_items c =
     [I32 (fromServiceId c), I32 (toServiceId c), I32 (fromCodeScheme c), I32 (toCodeScheme c),
      I32 (ucast (gsm_selected c))]"

fun cdma_bci_items :: "RIL_CDMA_BroadcastSmsConfigInfo \<Rightarrow> item list" where
  "cdma_bci_items c =
     [I32 (service_category c), I32 (bci_language c), I32 (ucast (cdma_selected c))]"

context ril_env
begin

lemma reads_dispatchCdmaSms:
  assumes "sms_wf H m"
  shows "reads (dispatchCdmaSms E H pRI)
    (Inr [OnRequest (reqno pRI) (CdmaSmsData m) (hsizeof H ''RIL_CDMA_SMS_Message'')])
    (sms_items H m)"
  unfolding dispatchCdmaSms_def by (rule reads_bind_ret[OF reads_constructCdmaSms[OF assms]]) simp

lemma writes_bci:
  "writes (writeGsmBci E c) () (gsm_bci_items c)"
  "writes (writeCdmaBci E d) () (cdma_bci_items d)"
  by (auto simp: writeGsmBci_def writeCdmaBci_def intro!: writes_intros)

lemma reads_bci:
  "reads (readGsmBci E) (NO_ERROR, c) (gsm_bci_items c)"
  "reads (readCdmaBci E) (NO_ERROR, d) (cdma_bci_items d)"
  by (cases c; cases d; auto simp: readGsmBci_def readCdmaBci_def unsigned_ucast_eq
      take_bit_word_eq_self intro!: reads_intros)+

text \<open>A loop of reads that each return their status with the value.\<close>

lemma reads_repeat_ok:
  assumes "\<And>c. c \<in> set cs \<Longrightarrow> reads m (NO_ERROR, c) (h c)" "g (map (Pair NO_ERROR) cs) = ret y"
  shows "reads (State_Monad.bind (repeatM (length cs) m) g) y (concat (map h cs))"
proof -
  have "reads m x (h (snd x))" if "x \<in> set (map (Pair NO_ERROR) cs)" for x
    using that assms(1) by auto
  from reads_repeatM[of "map (Pair NO_ERROR) cs" m "\<lambda>x. h (snd x)", OF this]
  have "reads (repeatM (length cs) m) (map (Pair NO_ERROR) cs) (concat (map h cs))"
    by (simp add: comp_def)
  then show ?thesis by (rule reads_bind_ret) (rule assms(2))
qed

lemma last_status_ok: "last_status NO_ERROR (map (Pair NO_ERROR) cs) = NO_ERROR"
  by (simp add: last_status_def last_map)

lemma reads_dispatchGsmBrSmsCnf:
  assumes "alloca_ok E (hsizeof H ''RIL_GSM_BroadcastSmsConfigInfo'' * length cs)"
    "0 < hsizeof H ''RIL_GSM_BroadcastSmsConfigInfo''" "alloca_ok E (sizeof_ptr * length cs)"
  shows "reads (dispatchGsmBrSmsCnf E H pRI)
     (Inr [OnRequest (reqno pRI) (GsmBrSmsData cs) (sizeof_ptr * length cs)])
     (I32 (word_of_nat (length cs)) # concat (map gsm_bci_items cs))"
  using stack_array_ok[OF assms(1,2)] stack_array_ok[OF assms(3)] size_mul_ok[OF assms(3)]
  by (auto simp: dispatchGsmBrSmsCnf_def sizeof_ptr_def last_status_ok comp_def
      intro!: reads_Int32 reads_repeat_ok reads_bci)

lemma reads_dispatchCdmaBrSmsCnf:
  assumes "alloca_ok E (hsizeof H ''RIL_CDMA_BroadcastSmsConfigInfo'' * length cs)"
    "0 < hsizeof H ''RIL_CDMA_BroadcastSmsConfigInfo''" "alloca_ok E (sizeof_ptr * length cs)"
  shows "reads (dispatchCdmaBrSmsCnf E H pRI)
     (Inr [OnRequest (reqno pRI) (CdmaBrSmsData cs) (sizeof_ptr * length cs)])
     (I32 (word_of_nat (length cs)) # concat (map cdma_bci_items cs))"
  using stack_array_ok[OF assms(1,2)] stack_array_ok[OF assms(3)] size_mul_ok[OF assms(3)]
  by (auto simp: dispatchCdmaBrSmsCnf_def sizeof_ptr_def last_status_ok comp_def
      intro!: reads_Int32 reads_repeat_ok reads_bci)

lemma writes_mapM_ret:
  "(\<And>x. x \<in> set xs \<Longrightarrow> writes (f x) () (h x)) \<Longrightarrow>
    writes (State_Monad.bind (mapM_unit xs f) (\<lambda>_. ret y)) y (concat (map h xs))"
  using writes_mapM[of xs f h "\<lambda>_. ret y" y "[]"] by (simp add: writes_ret)

lemma writes_responseBrSmsCnf:
  "writes (responseGsmBrSmsCnf E (Some cs) (sizeof_ptr * length cs)) (Inr 0)
     (I32 (word_of_nat (length cs)) # concat (map gsm_bci_items cs))"
  "writes (responseCdmaBrSmsCnf E (Some ds) (sizeof_ptr * length ds)) (Inr 0)
     (I32 (word_of_nat (length ds)) # concat (map cdma_bci_items ds))"
  by (auto simp: responseGsmBrSmsCnf_def responseCdmaBrSmsCnf_def elems_all sizeof_ptr_def Let_def
      intro!: writes_Int32 writes_mapM_ret writes_bci)

end

text \<open>
  Binary data survives the wire: \<open>dispatchRaw\<close> hands out exactly the bytes that \<open>responseRaw\<close>
  marshalled, with their number.
\<close>

theorem raw_roundtrip:
  assumes "ril_env E R enc" "length bs < 2 ^ 31"
  shows "returned E (responseRaw E (Some bs) (length bs)) = Inr 0 \<and>
    received E (dispatchRaw E pRI) (sent E (responseRaw E (Some bs) (length bs)))
    = Inr [OnRequest (reqno pRI) (RawData (Some bs)) (length bs)]"
  by (rule ril_env.roundtrip[OF assms(1) ril_env.writes_responseRaw[OF assms(1)]
      ril_env.reads_dispatchRaw[OF assms]])

theorem raw_roundtrip_witness:
  "received flat_parcel (dispatchRaw flat_parcel pri0)
     (sent flat_parcel (responseRaw flat_parcel (Some [1, 2, 255]) 3))
   = Inr [OnRequest 59 (RawData (Some [1, 2, 255])) 3]"
  using raw_roundtrip[OF flat.ril_env_axioms, of "[1, 2, 255]" pri0]
  by (simp add: pri0_def numeral_3_eq_3)

text \<open>
  C37 CDMA messages survive the wire: a message delivered with \<open>responseCdmaSms\<close> and sent back
  through \<open>dispatchCdmaSms\<close> reaches the vendor library unchanged, also when the digit counts exceed
  the declared arrays.
\<close>

theorem cdma_sms_roundtrip:
  assumes "ril_env E R enc" "sms_wf H m"
  shows "returned E (responseCdmaSms E H (Some m) (hsizeof H ''RIL_CDMA_SMS_Message'')) = Inr 0 \<and>
    received E (dispatchCdmaSms E H pRI)
      (sent E (responseCdmaSms E H (Some m) (hsizeof H ''RIL_CDMA_SMS_Message'')))
    = Inr [OnRequest (reqno pRI) (CdmaSmsData m) (hsizeof H ''RIL_CDMA_SMS_Message'')]"
  by (rule ril_env.roundtrip[OF assms(1) ril_env.writes_responseCdmaSms[OF assms(1)]
      ril_env.reads_dispatchCdmaSms[OF assms]])

definition sms0 :: RIL_CDMA_SMS_Message where
  "sms0 = \<lparr>uTeleserviceID = 4098, bIsServicePresent = 0, uServicecategory = 0,
     sAddress = \<lparr>digit_mode = 0, number_mode = 0, addr_number_type = 1, addr_number_plan = 1,
       number_of_digits = 2, addr_digits = zero_fill 36 [5, 6]\<rparr>,
     sSubAddress = \<lparr>subaddressType = 0, sub_odd = 0, sub_number_of_digits = 0,
       sub_digits = zero_fill 36 []\<rparr>,
     uBearerDataLen = 1, aBearerData = zero_fill 255 [9]\<rparr>"

lemma drop_zero_fill: "length xs \<le> k \<Longrightarrow> drop k (zero_fill n xs) = replicate (n - k) 0"
  by (simp add: zero_fill_def)

lemma sms0_wf: "sms_wf ref_h sms0"
  by (simp add: sms_wf_def sms0_def drop_zero_fill loop_count_def)
    (simp add: zero_fill_def)

theorem cdma_sms_roundtrip_witness:
  "received flat_parcel (dispatchCdmaSms flat_parcel ref_h pri0)
     (sent flat_parcel (responseCdmaSms flat_parcel ref_h (Some sms0)
       (hsizeof ref_h ''RIL_CDMA_SMS_Message'')))
   = Inr [OnRequest 59 (CdmaSmsData sms0) (hsizeof ref_h ''RIL_CDMA_SMS_Message'')]"
  using cdma_sms_roundtrip[OF flat.ril_env_axioms sms0_wf, of pri0] by (simp add: pri0_def)

text \<open>
  Cell broadcast configurations survive the wire: \<open>dispatchGsmBrSmsCnf\<close> and
  \<open>dispatchCdmaBrSmsCnf\<close> unmarshal what \<open>responseGsmBrSmsCnf\<close> and \<open>responseCdmaBrSmsCnf\<close> marshal.
\<close>

theorem broadcast_roundtrip:
  assumes "ril_env E R enc"
    and "alloca_ok E (hsizeof H ''RIL_GSM_BroadcastSmsConfigInfo'' * length cs)"
    and "0 < hsizeof H ''RIL_GSM_BroadcastSmsConfigInfo''" "alloca_ok E (sizeof_ptr * length cs)"
    and "alloca_ok E (hsizeof H ''RIL_CDMA_BroadcastSmsConfigInfo'' * length ds)"
    and "0 < hsizeof H ''RIL_CDMA_BroadcastSmsConfigInfo''" "alloca_ok E (sizeof_ptr * length ds)"
  shows "received E (dispatchGsmBrSmsCnf E H pRI)
      (sent E (responseGsmBrSmsCnf E (Some cs) (sizeof_ptr * length cs)))
    = Inr [OnRequest (reqno pRI) (GsmBrSmsData cs) (sizeof_ptr * length cs)] \<and>
    received E (dispatchCdmaBrSmsCnf E H pRI)
      (sent E (responseCdmaBrSmsCnf E (Some ds) (sizeof_ptr * length ds)))
    = Inr [OnRequest (reqno pRI) (CdmaBrSmsData ds) (sizeof_ptr * length ds)]"
  using ril_env.roundtrip[OF assms(1) ril_env.writes_responseBrSmsCnf(1)[OF assms(1)]
      ril_env.reads_dispatchGsmBrSmsCnf[OF assms(1-4)], of pRI]
    ril_env.roundtrip[OF assms(1) ril_env.writes_responseBrSmsCnf(2)[OF assms(1)]
      ril_env.reads_dispatchCdmaBrSmsCnf[OF assms(1,5-7)], of pRI] by blast

definition gsmBci0 :: RIL_GSM_BroadcastSmsConfigInfo where
  "gsmBci0 = \<lparr>fromServiceId = 50, toServiceId = 51, fromCodeScheme = 0, toCodeScheme = 255,
     gsm_selected = 1\<rparr>"

theorem broadcast_roundtrip_witness:
  "received flat_parcel (dispatchGsmBrSmsCnf flat_parcel ref_h pri0)
     (sent flat_parcel (responseGsmBrSmsCnf flat_parcel (Some [gsmBci0]) 4))
   = Inr [OnRequest 59 (GsmBrSmsData [gsmBci0]) 4]"
  using broadcast_roundtrip[OF flat.ril_env_axioms, of ref_h "[gsmBci0]" "[]" pri0]
  by (simp add: pri0_def sizeof_ptr_def)

end
