(* ===== verification/Ril_Requests.thy ===== *)
theory Ril_Requests
  imports Ril_Roundtrip
begin

text \<open>
  What the vendor library is asked for each kind of structured request: SIM files, facility locks,
  data calls and dialling, stated on the items that the framework puts into the parcel.
\<close>

section \<open>Rebuilt parcels\<close>

context ril_env
begin

text \<open>
  \<open>dispatchQueryFacility\<close>, \<open>dispatchSetFacility\<close> and \<open>dispatchDataCall\<close> copy the parcel up to the
  position before the request data, append new items and read these.
\<close>

lemma rebuilt:
  assumes "R p (b @ its) a" "writes w () its2" "reads d x its2"
  shows "fst (run_state d (p_setDataPosition E (length (enc b))
           (snd (run_state w (p_appendFrom E p 0 (length (enc b)) (p_new E)))))) = x"
proof -
  have "R (p_appendFrom E p 0 (length (enc b)) (p_new E)) ([] @ b) []"
    using assms(1) by (rule appendFrom_R[where a' = "its @ a"]) (simp_all add: new_R)
  then obtain q where q: "run_state w (p_appendFrom E p 0 (length (enc b)) (p_new E)) = ((), q)"
      "R q (b @ its2) []"
    using assms(2) unfolding writes_def by fastforce
  have "R (p_setDataPosition E (length (enc b)) q) b (its2 @ [])"
    using q(2) by (rule setDataPosition_R) simp
  then obtain q' where "run_state d (p_setDataPosition E (length (enc b)) q) = (x, q')"
    using assms(3) unfolding reads_def by blast
  then show ?thesis by (simp add: q(1))
qed

lemma reads_get:
  assumes "\<And>p b a. R p b (its @ a) \<Longrightarrow> \<exists>p'. run_state (g p) p = (x, p') \<and> R p' (b @ its) a"
  shows "reads (State_Monad.bind State_Monad.get g) x its"
  using assms by (auto simp: reads_def)

text \<open>Reading items and then looking at the parcel.\<close>

lemma readsD:
  "reads m x its \<Longrightarrow> R p b (its @ a) \<Longrightarrow> \<exists>p'. run_state m p = (x, p') \<and> R p' (b @ its) a"
  by (simp add: reads_def)

lemma writes_writeStrings:
  "writes (do { p_writeInt32 E n; writeStrings E ss }) ()
     (I32 n # map (\<lambda>s. S16 (strdup8to16 E s)) ss)"
  unfolding writeStrings_def
  using writes_mapM_unit[of ss "writeStringToParcel E" "\<lambda>s. [S16 (strdup8to16 E s)]"]
  by (auto intro!: writes_Int32 writes_str)

end

section \<open>Facility locks\<close>

text \<open>The strings a facility request carries, read as one value.\<close>

definition readFacility :: "'p ext \<Rightarrow> nat \<Rightarrow> ('p, cstr list) state" where
  "readFacility E n = do { count \<leftarrow> p_readInt32V E; repeatM n (strdupReadString E) }"

lemma dispatchQueryFacility_alt:
  "dispatchQueryFacility E pRI = do {
     p0 \<leftarrow> State_Monad.get;
     ss \<leftarrow> readFacility E 4;
     p \<leftarrow> State_Monad.get;
     ret (case ss ! 3 of
         None \<Rightarrow> Inl NullDeref
       | Some a \<Rightarrow> run_on E pRI (p_setDataPosition E (p_dataPosition E p0)
           (snd (run_state (do { p_writeInt32 E 5;
                writeStrings E [Some (facility_slot a), ss ! 3, ss ! 0, ss ! 1, ss ! 2] })
             (p_appendFrom E p 0 (p_dataPosition E p0) (p_new E))))) ss) }"
  by (simp add: dispatchQueryFacility_def readFacility_def Let_def numeral_eq_Suc cong: option.case_cong)

lemma dispatchSetFacility_alt:
  "dispatchSetFacility E pRI = do {
     p0 \<leftarrow> State_Monad.get;
     ss \<leftarrow> readFacility E 5;
     p \<leftarrow> State_Monad.get;
     ret (case ss ! 4 of
         None \<Rightarrow> Inl NullDeref
       | Some a \<Rightarrow> run_on E pRI (p_setDataPosition E (p_dataPosition E p0)
           (snd (run_state (do { p_writeInt32 E 6;
                writeStrings E [Some (facility_slot a), ss ! 4, ss ! 0, ss ! 1, ss ! 2, ss ! 3] })
             (p_appendFrom E p 0 (p_dataPosition E p0) (p_new E))))) ss) }"
  by (simp add: dispatchSetFacility_def readFacility_def Let_def numeral_eq_Suc cong: option.case_cong)

context ril_env
begin

lemma reads_readFacility:
  assumes "\<forall>s \<in> set ss. cstr_ok s"
  shows "reads (readFacility E (length ss)) ss (I32 n # map (\<lambda>s. S16 (strdup8to16 E s)) ss)"
  unfolding readFacility_def
  using reads_repeatM[of ss "strdupReadString E" "\<lambda>s. [S16 (strdup8to16 E s)]"] assms
  by (auto intro!: reads_Int32V reads_strdup)

lemma reads_reordered:
  assumes "\<forall>s \<in> set ss. cstr_ok s" "\<forall>s \<in> set out. cstr_ok s" "alloca_ok E (sizeof_ptr * length out)"
    and F: "\<And>p0 p. F p0 p ss = run_on E pRI (p_setDataPosition E (p_dataPosition E p0)
           (snd (run_state (do { p_writeInt32 E (word_of_nat (length out)); writeStrings E out })
             (p_appendFrom E p 0 (p_dataPosition E p0) (p_new E))))) ss"
  shows "reads (do { p0 \<leftarrow> State_Monad.get; ss \<leftarrow> readFacility E (length ss); p \<leftarrow> State_Monad.get;
                     ret (F p0 p ss) })
     (Inr (OnRequest (reqno pRI) (StrsData out) (sizeof_ptr * length out)
           # map FreeString (out @ ss)))
     (I32 n # map (\<lambda>s. S16 (strdup8to16 E s)) ss)"
proof (rule reads_get)
  fix p b a
  let ?its = "I32 n # map (\<lambda>s. S16 (strdup8to16 E s)) ss"
  assume R: "R p b (?its @ a)"
  from readsD[OF reads_readFacility[OF assms(1)] R] obtain p' where
    p': "run_state (readFacility E (length ss)) p = (ss, p')" "R p' (b @ ?its) a" by blast
  have pos: "p_dataPosition E p = length (enc b)" by (rule dataPosition_enc[OF R])
  have "F p p' ss = Inr (OnRequest (reqno pRI) (StrsData out) (sizeof_ptr * length out)
           # map FreeString (out @ ss))"
    unfolding F run_on_def pos
    by (simp only: rebuilt[OF p'(2) writes_writeStrings reads_dispatchStrings[OF assms(3,2)]]) simp
  then show "\<exists>q. run_state (do { ss \<leftarrow> readFacility E (length ss); p' \<leftarrow> State_Monad.get;
                     ret (F p p' ss) }) p
      = (Inr (OnRequest (reqno pRI) (StrsData out) (sizeof_ptr * length out)
           # map FreeString (out @ ss)), q) \<and> R q (b @ ?its) a"
    using p' by simp
qed

lemma facility_slot_ok: "cstr_ok (Some (facility_slot a))"
  by (simp add: facility_slot_def c_string_def)

lemma reads_dispatchQueryFacility:
  assumes "\<forall>s \<in> {facility, password, serviceClass, Some a}. cstr_ok s" "alloca_ok E (sizeof_ptr * 5)"
  defines "ss \<equiv> [facility, password, serviceClass, Some a]"
    and "out \<equiv> [Some (facility_slot a), Some a, facility, password, serviceClass]"
  shows "reads (dispatchQueryFacility E pRI)
    (Inr (OnRequest (reqno pRI) (StrsData out) (sizeof_ptr * length out)
      # map FreeString (out @ ss)))
    (I32 n # map (\<lambda>s. S16 (strdup8to16 E s)) ss)"
proof -
  have "readFacility E 4 = readFacility E (length ss)" by (simp add: ss_def numeral_eq_Suc)
  then show ?thesis unfolding dispatchQueryFacility_alt using assms(1,2) facility_slot_ok
    by (simp only:) (rule reads_reordered; simp add: ss_def out_def sizeof_ptr_def)
qed

lemma reads_dispatchSetFacility:
  assumes "\<forall>s \<in> {facility, lockString, password, serviceClass, Some a}. cstr_ok s"
    "alloca_ok E (sizeof_ptr * 6)"
  defines "ss \<equiv> [facility, lockString, password, serviceClass, Some a]"
    and "out \<equiv> [Some (facility_slot a), Some a, facility, lockString, password, serviceClass]"
  shows "reads (dispatchSetFacility E pRI)
    (Inr (OnRequest (reqno pRI) (StrsData out) (sizeof_ptr * length out)
      # map FreeString (out @ ss)))
    (I32 n # map (\<lambda>s. S16 (strdup8to16 E s)) ss)"
proof -
  have "readFacility E 5 = readFacility E (length ss)" by (simp add: ss_def numeral_eq_Suc)
  then show ?thesis unfolding dispatchSetFacility_alt using assms(1,2) facility_slot_ok
    by (simp only:) (rule reads_reordered; simp add: ss_def out_def sizeof_ptr_def)
qed

end

text \<open>The parcel items of a list of strings with its count.\<close>

definition strs_items :: "'p ext \<Rightarrow> i32 \<Rightarrow> cstr list \<Rightarrow> item list" where
  "strs_items E n ss = I32 n # map (\<lambda>s. S16 (strdup8to16 E s)) ss"

text \<open>
  Facility requests are reordered for the old vendor interface: whatever count the framework
  sends, the vendor library gets slot, application id, facility, (lock mode,) password and service
  class, with slot "0" exactly when there is an application id; all temporary strings are freed.
\<close>

theorem facility_reordered:
  assumes "ril_env E R enc" "alloca_ok E (sizeof_ptr * 5)" "alloca_ok E (sizeof_ptr * 6)"
    and "\<forall>s \<in> {facility, lockString, password, serviceClass, Some a}. cstr_ok s"
  shows "received E (dispatchQueryFacility E pRI)
      (enc (strs_items E n [facility, password, serviceClass, Some a]))
    = Inr (OnRequest (reqno pRI)
        (StrsData [Some (facility_slot a), Some a, facility, password, serviceClass]) (sizeof_ptr * 5)
      # map FreeString ([Some (facility_slot a), Some a, facility, password, serviceClass]
          @ [facility, password, serviceClass, Some a])) \<and>
    received E (dispatchSetFacility E pRI)
      (enc (strs_items E n [facility, lockString, password, serviceClass, Some a]))
    = Inr (OnRequest (reqno pRI)
        (StrsData [Some (facility_slot a), Some a, facility, lockString, password, serviceClass])
        (sizeof_ptr * 6)
      # map FreeString ([Some (facility_slot a), Some a, facility, lockString, password, serviceClass]
          @ [facility, lockString, password, serviceClass, Some a]))"
  using assms
    ril_env.received_reads[OF assms(1) ril_env.reads_dispatchQueryFacility[OF assms(1) _ assms(2)]]
    ril_env.received_reads[OF assms(1) ril_env.reads_dispatchSetFacility[OF assms(1) _ assms(3)]]
  by (simp add: strs_items_def)

theorem facility_reordered_witness:
  "received flat_parcel (dispatchQueryFacility flat_parcel pri0)
     (enc_items (strs_items flat_parcel 4 [Some ''SC'', None, Some ''7'', Some ''A0'']))
   = Inr (OnRequest 59 (StrsData [Some ''0'', Some ''A0'', Some ''SC'', None, Some ''7'']) 20
      # map FreeString ([Some ''0'', Some ''A0'', Some ''SC'', None, Some ''7'']
          @ [Some ''SC'', None, Some ''7'', Some ''A0'']))"
  using facility_reordered[OF flat.ril_env_axioms, of "Some ''SC''" None None "Some ''7''" "''A0''" pri0 4]
  by (simp add: pri0_def sizeof_ptr_def c_string_def facility_slot_def)

section \<open>SIM files\<close>

definition sim_io_items :: "'p ext \<Rightarrow> RIL_SIM_IO_v3 \<Rightarrow> item list" where
  "sim_io_items E q = [I32 (simIO_command q), I32 (simIO_fileid q), S16 (strdup8to16 E (simIO_path q)),
     I32 (simIO_p1 q), I32 (simIO_p2 q), I32 (simIO_p3 q), S16 (strdup8to16 E (simIO_data q)),
     S16 (strdup8to16 E (simIO_pin2 q)), S16 (strdup8to16 E (simIO_aidPtr q))]"

context ril_env
begin

lemma reads_dispatchSIM_IO:
  assumes "simIO_slot q = 0" "\<forall>s \<in> {simIO_path q, simIO_data q, simIO_pin2 q, simIO_aidPtr q}. cstr_ok s"
    "mf_sim_stub q = Inr stub"
  shows "reads (dispatchSIM_IO E H pRI)
    (Inr ((case stub of Some res \<Rightarrow> RequestComplete (hword H ''RIL_E_SUCCESS'') (OwnSimIO 0x90 0 res)
           | None \<Rightarrow> OnRequest (reqno pRI) (SimIOData q) sizeof_RIL_SIM_IO_v3)
      # map FreeString [simIO_path q, simIO_data q, simIO_pin2 q, simIO_aidPtr q]))
    (sim_io_items E q)"
  using assms
  by (cases q) (auto simp: sim_io_items_def dispatchSIM_IO_def Let_def
      intro!: reads_Int32 reads_Str reads_Nil)

end

text \<open>
  SIM file access: a request for the master file 3F00 with GET RESPONSE (0xc0) or READ BINARY
  (0xb0) is answered with success and a made-up record without asking the vendor library; every other
  request with a path reaches the vendor library with all its parameters.
\<close>

theorem sim_io_master_file:
  assumes "ril_env E R enc" "simIO_slot q = 0" "simIO_path q = Some path"
    and "\<forall>s \<in> {simIO_path q, simIO_data q, simIO_pin2 q, simIO_aidPtr q}. cstr_ok s"
  shows "received E (dispatchSIM_IO E H pRI) (enc (sim_io_items E q)) = Inr (
    (if path = ''3F00'' \<and> simIO_command q = 0xc0
     then RequestComplete (hword H ''RIL_E_SUCCESS'') (OwnSimIO 0x90 0 ''0000000a2fe2040000000005020000'')
     else if path = ''3F00'' \<and> simIO_command q = 0xb0
     then RequestComplete (hword H ''RIL_E_SUCCESS'') (OwnSimIO 0x90 0 ''00000000000000000010'')
     else OnRequest (reqno pRI) (SimIOData q) 40)
    # map FreeString [simIO_path q, simIO_data q, simIO_pin2 q, simIO_aidPtr q])"
  using ril_env.received_reads[OF assms(1) ril_env.reads_dispatchSIM_IO[OF assms(1,2,4)], of _ H pRI]
    assms(3)
  by (auto simp: mf_sim_stub_def sizeof_RIL_SIM_IO_v3_def)

definition simIO0 :: RIL_SIM_IO_v3 where
  "simIO0 = \<lparr>simIO_slot = 0, simIO_aidPtr = None, simIO_command = 0xb0, simIO_fileid = 12258,
     simIO_path = Some ''3F00'', simIO_p1 = 0, simIO_p2 = 0, simIO_p3 = 10, simIO_data = None,
     simIO_pin2 = None\<rparr>"

theorem sim_io_master_file_witness:
  "received flat_parcel (dispatchSIM_IO flat_parcel ref_h pri0) (enc_items (sim_io_items flat_parcel simIO0))
   = Inr (RequestComplete 0 (OwnSimIO 0x90 0 ''00000000000000000010'')
       # map FreeString [Some ''3F00'', None, None, None])"
  using sim_io_master_file[OF flat.ril_env_axioms, of simIO0 "''3F00''" ref_h pri0]
  by (simp add: simIO0_def c_string_def)

section \<open>Truncated requests\<close>

text \<open>A loop of reads that is cut short: the last of them has failed.\<close>

definition last_bad :: "(status_t \<times> 'x) list \<Rightarrow> bool" where
  "last_bad rs \<longleftrightarrow> rs \<noteq> [] \<and> fst (last rs) \<noteq> NO_ERROR"

context ril_env
begin

text \<open>
  \<open>cuts m its P\<close>: when the data ends before the last of the items \<open>its\<close>, \<open>m\<close> reads what is there and its result
  satisfies \<open>P\<close>.
\<close>

definition cuts :: "('a, 'x) state \<Rightarrow> item list \<Rightarrow> ('x \<Rightarrow> bool) \<Rightarrow> bool" where
  "cuts m its P \<longleftrightarrow> (\<forall>k<length its. \<forall>p b. R p b (take k its) \<longrightarrow>
     (\<exists>x p' b'. run_state m p = (x, p') \<and> R p' b' [] \<and> P x))"

lemma cuts_Nil: "cuts m [] P"
  by (simp add: cuts_def)

lemma cuts_one: "ends m P \<Longrightarrow> cuts m [i] P"
  unfolding ends_def cuts_def by fastforce

lemma cuts_bind:
  assumes "reads m x its1" "cuts m its1 P" "\<And>y. P y \<Longrightarrow> ends (g y) Q" "cuts (g x) its2 Q"
  shows "cuts (State_Monad.bind m g) (its1 @ its2) Q"
  unfolding cuts_def
proof (intro allI impI)
  fix k p b
  assume k: "k < length (its1 @ its2)" and R: "R p b (take k (its1 @ its2))"
  show "\<exists>x p' b'. run_state (State_Monad.bind m g) p = (x, p') \<and> R p' b' [] \<and> Q x"
  proof (cases "k < length its1")
    case True
    then obtain y p1 b1 where 1: "run_state m p = (y, p1)" "R p1 b1 []" "P y"
      using assms(2) R unfolding cuts_def by fastforce
    then obtain z p2 where "run_state (g y) p1 = (z, p2)" "R p2 b1 []" "Q z"
      using assms(3) unfolding ends_def by blast
    then show ?thesis using 1 by auto
  next
    case False
    then obtain p1 where 1: "run_state m p = (x, p1)" "R p1 (b @ its1) (take (k - length its1) its2)"
      using readsD[OF assms(1), of p b "take (k - length its1) its2"] R by auto
    have "k - length its1 < length its2" using k False by simp
    then obtain z p2 b2 where "run_state (g x) p1 = (z, p2)" "R p2 b2 []" "Q z"
      using assms(4) 1(2) unfolding cuts_def by blast
    then show ?thesis using 1 by auto
  qed
qed

lemma cuts_bind_end:
  "reads m x its \<Longrightarrow> cuts m its P \<Longrightarrow> (\<And>y. P y \<Longrightarrow> ends (g y) Q) \<Longrightarrow> cuts (State_Monad.bind m g) its Q"
  using cuts_bind[of m x its P g Q "[]"] by (simp add: cuts_Nil)

lemma cuts_Int32:
  "(\<And>st x. st \<noteq> NO_ERROR \<Longrightarrow> ends (g (st, x)) Q) \<Longrightarrow> cuts (g (NO_ERROR, v)) its Q \<Longrightarrow>
    cuts (State_Monad.bind (p_readInt32 E) g) (I32 v # its) Q"
  using cuts_bind[OF reads_readInt32 cuts_one[OF ends_readInt32], of g Q v its] by auto

lemma cuts_U8:
  "(\<And>st x. st \<noteq> NO_ERROR \<Longrightarrow> ends (g (st, x)) Q) \<Longrightarrow> cuts (g (NO_ERROR, v)) its Q \<Longrightarrow>
    cuts (State_Monad.bind (p_readU8 E) g) (U8 v # its) Q"
  using cuts_bind[OF reads_readU8 cuts_one[OF ends_readU8], of g Q v its] by auto

lemma reads_repeat_map:
  assumes "\<And>c. c \<in> set cs \<Longrightarrow> reads m (NO_ERROR, c) (h c)"
  shows "reads (repeatM (length cs) m) (map (Pair NO_ERROR) cs) (concat (map h cs))"
proof -
  have "reads m x (h (snd x))" if "x \<in> set (map (Pair NO_ERROR) cs)" for x using that assms by auto
  from reads_repeatM[of "map (Pair NO_ERROR) cs" m "\<lambda>x. h (snd x)", OF this] show ?thesis by (simp add: comp_def)
qed

lemma cuts_repeatM:
  assumes "\<And>c. c \<in> set cs \<Longrightarrow> reads m (NO_ERROR, c) (h c)" "\<And>c. c \<in> set cs \<Longrightarrow> cuts m (h c) (\<lambda>r. fst r \<noteq> NO_ERROR)"
    "ends m (\<lambda>r. fst r \<noteq> NO_ERROR)"
  shows "cuts (repeatM (length cs) m) (concat (map h cs)) last_bad"
  using assms(1,2)
proof (induction cs)
  case (Cons c cs)
  have "cuts (State_Monad.bind m (\<lambda>x. State_Monad.bind (repeatM (length cs) m) (\<lambda>xs. ret (x # xs))))
      (h c @ concat (map h cs)) last_bad"
  proof (rule cuts_bind)
    fix x :: "status_t \<times> 'b"
    assume "fst x \<noteq> NO_ERROR"
    then show "ends (State_Monad.bind (repeatM (length cs) m) (\<lambda>xs. ret (x # xs))) last_bad"
      by (auto simp: last_bad_def intro!: ends_bind[OF ends_repeatM[OF assms(3)]] ends_ret)
  next
    have "cuts (State_Monad.bind (repeatM (length cs) m) (\<lambda>xs. ret ((NO_ERROR, c) # xs))) (concat (map h cs) @ []) last_bad"
      using Cons.prems by (intro cuts_bind[OF reads_repeat_map Cons.IH]) (auto simp: last_bad_def cuts_Nil intro!: ends_ret)
    then show "cuts (State_Monad.bind (repeatM (length cs) m) (\<lambda>xs. ret ((NO_ERROR, c) # xs))) (concat (map h cs)) last_bad"
      by simp
  qed (use Cons.prems in auto)
  then show ?case by simp
qed (simp add: cuts_Nil)

lemma cuts_loop:
  assumes "length cs = n" "\<And>c. c \<in> set cs \<Longrightarrow> reads m (NO_ERROR, c) (h c)"
    "\<And>c. c \<in> set cs \<Longrightarrow> cuts m (h c) (\<lambda>r. fst r \<noteq> NO_ERROR)" "ends m (\<lambda>r. fst r \<noteq> NO_ERROR)"
    "\<And>rs. last_bad rs \<Longrightarrow> ends (g rs) Q" "cuts (g (map (Pair NO_ERROR) cs)) its Q"
  shows "cuts (State_Monad.bind (repeatM n m) g) (concat (map h cs) @ its) Q"
  unfolding assms(1)[symmetric] using assms(2-6) by (intro cuts_bind[OF reads_repeat_map cuts_repeatM])

lemma cuts_U8s:
  assumes "length us = n" "\<And>rs. last_bad rs \<Longrightarrow> ends (g rs) Q" "cuts (g (map (Pair NO_ERROR) us)) its Q"
  shows "cuts (State_Monad.bind (repeatM n (p_readU8 E)) g) (map U8 us @ its) Q"
  using cuts_loop[of us n "p_readU8 E" "\<lambda>u. [U8 u]" g Q its] assms
  by (simp add: reads_readU8 cuts_one ends_readU8)

lemma cuts_U8s_end:
  "length us = n \<Longrightarrow> (\<And>rs. last_bad rs \<Longrightarrow> ends (g rs) Q) \<Longrightarrow>
    cuts (State_Monad.bind (repeatM n (p_readU8 E)) g) (map U8 us) Q"
  using cuts_U8s[of us n g Q "[]"] by (simp add: cuts_Nil)

lemmas cuts_intros = cuts_Int32 cuts_U8 cuts_Nil

lemma last_status_bad:
  "st \<noteq> NO_ERROR \<Longrightarrow> \<forall>r \<in> set rs. fst r \<noteq> NO_ERROR \<Longrightarrow> last_status st rs \<noteq> NO_ERROR"
  "last_bad rs \<Longrightarrow> last_status st rs \<noteq> NO_ERROR"
  by (simp_all add: last_status_def last_bad_def)

text \<open>What is left to read after a cut.\<close>

lemma received_cuts:
  assumes "cuts m its (\<lambda>r. r = x)" "k < length its"
  shows "received E m (enc (take k its)) = x"
proof -
  have "R (p_setData E (enc (take k its))) [] (take k its)" using setData_R by simp
  then show ?thesis using assms unfolding cuts_def received_def by fastforce
qed

text \<open>The rules for the reads that bind a status and a value.\<close>

lemmas ends_pairs = ends_Int32[where g = "\<lambda>(st, x). f st x" for f, unfolded prod.case]
  ends_U8[where g = "\<lambda>(st, x). f st x" for f, unfolded prod.case] ends_U8s ends_ret

lemmas cuts_pairs = cuts_Int32[where g = "\<lambda>(st, x). f st x" for f, unfolded prod.case]
  cuts_U8[where g = "\<lambda>(st, x). f st x" for f, unfolded prod.case]

lemma cuts_constructCdmaSms:
  assumes "sms_wf H m"
  shows "cuts (constructCdmaSms E H) (sms_items H m) (\<lambda>r. fst r \<noteq> NO_ERROR)"
  using assms unfolding constructCdmaSms_def sms_items_def sms_wf_def Let_def append_Cons append_Nil
  by (intro cuts_pairs cuts_U8s cuts_U8s_end ends_pairs) (simp_all add: last_status_bad)

lemma cuts_bci:
  "cuts (readGsmBci E) (gsm_bci_items c) (\<lambda>r. fst r \<noteq> NO_ERROR)" "ends (readGsmBci E) (\<lambda>r. fst r \<noteq> NO_ERROR)"
  "cuts (readCdmaBci E) (cdma_bci_items d) (\<lambda>r. fst r \<noteq> NO_ERROR)" "ends (readCdmaBci E) (\<lambda>r. fst r \<noteq> NO_ERROR)"
  by (auto simp: readGsmBci_def readCdmaBci_def intro!: cuts_intros ends_intros ends_ret)

lemma cuts_readInts: "cuts (readInts E (length xs) acc) (map I32 xs) (\<lambda>r. r = None)"
  by (induction xs arbitrary: acc) (auto intro!: cuts_intros ends_ret)

text \<open>The requests whose every item is missed.\<close>

lemma cuts_dispatchCdmaSms:
  assumes "sms_wf H m"
  shows "cuts (dispatchCdmaSms E H pRI) (sms_items H m) (\<lambda>r. r = Inr [InvalidBlock])"
  unfolding dispatchCdmaSms_def
  by (rule cuts_bind_end[OF reads_constructCdmaSms[OF assms] cuts_constructCdmaSms[OF assms]])
    (auto simp: invalidCommandBlock_def intro!: ends_ret)

lemma cuts_dispatchInts:
  assumes "alloca_ok E (sizeof_int * length xs)" "xs \<noteq> []"
  shows "cuts (dispatchInts E pRI) (I32 (word_of_nat (length xs)) # map I32 xs) (\<lambda>r. r = Inr [InvalidBlock])"
  using assms(2) count_not_special[OF assms(1)] stack_array_ok[OF assms(1)]
  by (auto simp: dispatchInts_def sizeof_int_def invalidCommandBlock_def
      intro!: cuts_Int32 cuts_bind_end[OF reads_readInts cuts_readInts] ends_ret)

lemma cuts_bci_loop:
  "(\<And>rs. last_bad rs \<Longrightarrow> ends (g rs) Q) \<Longrightarrow>
    cuts (State_Monad.bind (repeatM (length cs) (readGsmBci E)) g) (concat (map gsm_bci_items cs)) Q"
  "(\<And>rs. last_bad rs \<Longrightarrow> ends (g' rs) Q) \<Longrightarrow>
    cuts (State_Monad.bind (repeatM (length ds) (readCdmaBci E)) g') (concat (map cdma_bci_items ds)) Q"
  using cuts_bind_end[OF reads_repeat_map[OF reads_bci(1)] cuts_repeatM[OF reads_bci(1) cuts_bci(1,2)]]
    cuts_bind_end[OF reads_repeat_map[OF reads_bci(2)] cuts_repeatM[OF reads_bci(2) cuts_bci(3,4)]] by blast+

lemma cuts_dispatchGsmBrSmsCnf:
  assumes "alloca_ok E (hsizeof H ''RIL_GSM_BroadcastSmsConfigInfo'' * length cs)"
    "0 < hsizeof H ''RIL_GSM_BroadcastSmsConfigInfo''" "alloca_ok E (sizeof_ptr * length cs)"
  shows "cuts (dispatchGsmBrSmsCnf E H pRI) (I32 (word_of_nat (length cs)) # concat (map gsm_bci_items cs))
    (\<lambda>r. r = Inr [InvalidBlock])"
  using stack_array_ok[OF assms(1,2)] stack_array_ok[OF assms(3)]
  by (auto simp: dispatchGsmBrSmsCnf_def sizeof_ptr_def invalidCommandBlock_def last_status_bad
      intro!: cuts_Int32 cuts_bci_loop ends_ret)

lemma cuts_dispatchCdmaBrSmsCnf:
  assumes "alloca_ok E (hsizeof H ''RIL_CDMA_BroadcastSmsConfigInfo'' * length cs)"
    "0 < hsizeof H ''RIL_CDMA_BroadcastSmsConfigInfo''" "alloca_ok E (sizeof_ptr * length cs)"
  shows "cuts (dispatchCdmaBrSmsCnf E H pRI) (I32 (word_of_nat (length cs)) # concat (map cdma_bci_items cs))
    (\<lambda>r. r = Inr [InvalidBlock])"
  using stack_array_ok[OF assms(1,2)] stack_array_ok[OF assms(3)]
  by (auto simp: dispatchCdmaBrSmsCnf_def sizeof_ptr_def invalidCommandBlock_def last_status_bad
      intro!: cuts_Int32 cuts_bci_loop ends_ret)

text \<open>Strings, whose status is not looked at.\<close>

lemma ends_strings: "ends (repeatM n (strdupReadString E)) (\<lambda>ss. ss = replicate n None)"
  by (induction n) (auto intro!: ends_ret ends_Str ends_bind)

lemma strings_cut:
  assumes "\<forall>s\<in>set ss. cstr_ok s" "R p b (map (\<lambda>s. S16 (strdup8to16 E s)) ss)"
  shows "\<exists>p'. run_state (repeatM (length ss + n) (strdupReadString E)) p = (ss @ replicate n None, p')"
  using assms
proof (induction ss arbitrary: p b)
  case Nil
  then show ?case using ends_strings[of n] unfolding ends_def by fastforce
next
  case (Cons s ss)
  then obtain p1 where 1: "run_state (strdupReadString E) p = (s, p1)" "R p1 (b @ [S16 (strdup8to16 E s)]) (map (\<lambda>s. S16 (strdup8to16 E s)) ss)"
    using readsD[OF reads_strdup, of s p b] by fastforce
  from Cons.IH[OF _ 1(2)] Cons.prems show ?case using 1(1) by auto
qed

lemma received_strings_cut:
  assumes "alloca_ok E (sizeof_ptr * length ss)" "\<forall>s\<in>set ss. cstr_ok s" "k < length ss"
  defines "ss' \<equiv> take k ss @ replicate (length ss - k) None"
  shows "received E (dispatchStrings E pRI) (enc (I32 (word_of_nat (length ss)) # map (\<lambda>s. S16 (strdup8to16 E s)) (take k ss)))
    = Inr (OnRequest (reqno pRI) (StrsData ss') (sizeof_ptr * length ss) # map FreeString ss')"
proof -
  let ?its = "map (\<lambda>s. S16 (strdup8to16 E s)) (take k ss)"
  have ok: "\<forall>s\<in>set (take k ss). cstr_ok s" using assms(2) by (auto dest: in_set_takeD)
  have len: "length (take k ss) + (length ss - k) = length ss" "ss \<noteq> []" using assms(3) by auto
  have "R (p_setData E (enc (I32 (word_of_nat (length ss)) # ?its))) [] (I32 (word_of_nat (length ss)) # ?its)" by (rule setData_R)
  then obtain p1 where 1: "run_state (p_readInt32 E) (p_setData E (enc (I32 (word_of_nat (length ss)) # ?its))) =
      ((NO_ERROR, word_of_nat (length ss)), p1)" "R p1 [I32 (word_of_nat (length ss))] ?its"
    using readsD[OF reads_readInt32, of _ "[]"] by fastforce
  obtain p2 where "run_state (repeatM (length ss) (strdupReadString E)) p1 = (ss', p2)"
    using strings_cut[OF ok 1(2), of "length ss - k"] unfolding len(1) ss'_def by blast
  then show ?thesis
    using 1 len(2) count_not_special[OF assms(1)] stack_array_ok[OF assms(1)] size_mul_ok[OF assms(1)]
    by (simp add: received_def dispatchStrings_def sizeof_ptr_def)
qed

end

text \<open>
  C38 Requests whose data ends early, after any number of their items: an SMS in CDMA format, an array of
  integers and a configuration of GSM or CDMA cell broadcasts are reported as an invalid command block, and nothing of them
  reaches the vendor library. Of an array of strings the status of the reads is not looked at: the vendor library
  gets the request, with \<open>NULL\<close> for every string that is missing.
\<close>

theorem truncated_request:
  assumes "ril_env E R enc" "sms_wf H m" "xs \<noteq> []" "alloca_ok E (sizeof_int * length xs)"
    and "alloca_ok E (hsizeof H ''RIL_GSM_BroadcastSmsConfigInfo'' * length cs)"
    and "0 < hsizeof H ''RIL_GSM_BroadcastSmsConfigInfo''" "alloca_ok E (sizeof_ptr * length cs)"
    and "alloca_ok E (hsizeof H ''RIL_CDMA_BroadcastSmsConfigInfo'' * length ds)"
    and "0 < hsizeof H ''RIL_CDMA_BroadcastSmsConfigInfo''" "alloca_ok E (sizeof_ptr * length ds)"
    and "alloca_ok E (sizeof_ptr * length ss)" "\<forall>s\<in>set ss. cstr_ok s"
  shows "(\<forall>k<length (sms_items H m).
      received E (dispatchCdmaSms E H pRI) (enc (take k (sms_items H m))) = Inr [InvalidBlock]) \<and>
    (\<forall>k\<le>length xs.
      received E (dispatchInts E pRI) (enc (take k (I32 (word_of_nat (length xs)) # map I32 xs))) = Inr [InvalidBlock]) \<and>
    (\<forall>k\<le>length (concat (map gsm_bci_items cs)). received E (dispatchGsmBrSmsCnf E H pRI)
      (enc (take k (I32 (word_of_nat (length cs)) # concat (map gsm_bci_items cs)))) = Inr [InvalidBlock]) \<and>
    (\<forall>k\<le>length (concat (map cdma_bci_items ds)). received E (dispatchCdmaBrSmsCnf E H pRI)
      (enc (take k (I32 (word_of_nat (length ds)) # concat (map cdma_bci_items ds)))) = Inr [InvalidBlock]) \<and>
    (\<forall>k<length ss. received E (dispatchStrings E pRI)
        (enc (I32 (word_of_nat (length ss)) # map (\<lambda>s. S16 (strdup8to16 E s)) (take k ss))) =
      Inr (OnRequest (reqno pRI) (StrsData (take k ss @ replicate (length ss - k) None)) (sizeof_ptr * length ss)
        # map FreeString (take k ss @ replicate (length ss - k) None)))"
  using ril_env.received_cuts[OF assms(1) ril_env.cuts_dispatchCdmaSms[OF assms(1,2)]]
    ril_env.received_cuts[OF assms(1) ril_env.cuts_dispatchInts[OF assms(1,4,3)]]
    ril_env.received_cuts[OF assms(1) ril_env.cuts_dispatchGsmBrSmsCnf[OF assms(1,5,6,7)]]
    ril_env.received_cuts[OF assms(1) ril_env.cuts_dispatchCdmaBrSmsCnf[OF assms(1,8,9,10)]]
    ril_env.received_strings_cut[OF assms(1,11,12)]
  by (simp only: length_Cons length_map less_Suc_eq_le) simp

theorem truncated_request_witness:
  "received flat_parcel (dispatchCdmaSms flat_parcel ref_h pri0) (enc_items (take 9 (sms_items ref_h sms0))) = Inr [InvalidBlock] \<and>
   received flat_parcel (dispatchInts flat_parcel pri0) (enc_items [I32 2, I32 7]) = Inr [InvalidBlock] \<and>
   received flat_parcel (dispatchGsmBrSmsCnf flat_parcel ref_h pri0) (enc_items (I32 1 # take 4 (gsm_bci_items gsmBci0))) =
     Inr [InvalidBlock] \<and>
   received flat_parcel (dispatchStrings flat_parcel pri0) (enc_items [I32 2, S16 (strdup8to16 flat_parcel (Some ''AT''))]) =
     Inr (OnRequest 59 (StrsData [Some ''AT'', None]) 8 # map FreeString [Some ''AT'', None])"
proof -
  have len: "9 < length (sms_items ref_h sms0)" by (simp add: sms_items_def Let_def)
  have ok: "alloca_ok flat_parcel (sizeof_int * length [7, - 1 :: i32])"
      "alloca_ok flat_parcel (hsizeof ref_h ''RIL_GSM_BroadcastSmsConfigInfo'' * length [gsmBci0])"
      "alloca_ok flat_parcel (sizeof_ptr * length [gsmBci0])"
      "alloca_ok flat_parcel (hsizeof ref_h ''RIL_CDMA_BroadcastSmsConfigInfo'' * length ([] :: RIL_CDMA_BroadcastSmsConfigInfo list))"
      "alloca_ok flat_parcel (sizeof_ptr * length ([] :: RIL_CDMA_BroadcastSmsConfigInfo list))"
      "alloca_ok flat_parcel (sizeof_ptr * length [Some ''AT'', Some ''B''])"
      "0 < hsizeof ref_h ''RIL_GSM_BroadcastSmsConfigInfo''" "0 < hsizeof ref_h ''RIL_CDMA_BroadcastSmsConfigInfo''"
      "\<forall>s\<in>set [Some ''AT'', Some ''B'']. cstr_ok s" "[7, - 1 :: i32] \<noteq> []"
    by (simp_all add: sizeof_ptr_def sizeof_int_def c_string_def)
  note t = truncated_request[OF flat.ril_env_axioms sms0_wf ok(10,1,2,7,3,4,8,5,6,9), of pri0]
  note t1 = t[THEN conjunct1, THEN spec[of _ 9]]
  note t2 = t[THEN conjunct2, THEN conjunct1, THEN spec[of _ 2]]
  note t3 = t[THEN conjunct2, THEN conjunct2, THEN conjunct1, THEN spec[of _ 5]]
  note t4 = t[THEN conjunct2, THEN conjunct2, THEN conjunct2, THEN conjunct2, THEN spec[of _ 1]]
  show ?thesis
    using t1[THEN mp, OF len] t2 t3 t4 by (simp add: sizeof_ptr_def pri0_def)
qed

section \<open>Data calls and dialling\<close>

definition dial_items :: "'p ext \<Rightarrow> RIL_Dial \<Rightarrow> item list" where
  "dial_items E d = [S16 (strdup8to16 E (dial_address d)), I32 (dial_clir d)]
     @ (case dial_uusInfo d of
          None \<Rightarrow> [I32 0]
        | Some u \<Rightarrow> [I32 1, I32 (uusType u), I32 (uusDcs u)]
            @ (case uusData u of None \<Rightarrow> [I32 (- 1)] | Some bs \<Rightarrow> [I32 (uusLength u), Raw bs]))"

fun uus_wf :: "RIL_UUS_Info \<Rightarrow> bool" where
  "uus_wf u \<longleftrightarrow> (case uusData u of None \<Rightarrow> uusLength u = 0
     | Some bs \<Rightarrow> unat (uusLength u) = length bs \<and> length bs < 2 ^ 31)"

context ril_env
begin

lemma reads_dispatchDial:
  assumes "\<not> sint version < 3" "dial_address d = Some s" "c_string s" "pred_option uus_wf (dial_uusInfo d)"
  shows "reads (dispatchDial E H version pRI)
    (Inr [OnRequest (reqno pRI) (DialData d) (hsizeof H ''RIL_Dial''), FreeString (Some s)])
    (dial_items E d)"
proof (cases "dial_uusInfo d")
  case None
  then show ?thesis using assms
    by (cases d) (auto simp: dial_items_def dispatchDial_def Let_def intro!: reads_Int32 reads_Str reads_Nil)
next
  case (Some u)
  show ?thesis
  proof (cases "uusData u")
    case None
    then show ?thesis using assms Some
      by (cases d; cases u) (auto simp: dial_items_def dispatchDial_def Let_def
          intro!: reads_Int32 reads_Str reads_Nil)
  next
    case (Some bs)
    have "uusLength u = word_of_nat (length bs)" "length bs < 2 ^ 31"
      using assms(4) \<open>dial_uusInfo d = Some u\<close> Some by (auto simp flip: word_unat_eq_iff
          simp: word_unat_eq_iff unat_of_nat take_bit_nat_eq_self)
    then show ?thesis using assms \<open>dial_uusInfo d = Some u\<close> Some nat_word[of "length bs"]
      by (cases d; cases u) (auto simp: dial_items_def dispatchDial_def Let_def
          intro!: reads_Int32 reads_Str reads_Nil reads_Inplace)
  qed
qed

end

text \<open>
  Dialling: the number, the CLIR mode and the optional user-to-user information of a dial request
  reach the vendor library unchanged, and the number is freed afterwards.
\<close>

theorem dial_request:
  assumes "ril_env E R enc" "\<not> sint version < 3" "dial_address d = Some s" "c_string s"
    and "pred_option uus_wf (dial_uusInfo d)"
  shows "received E (dispatchDial E H version pRI) (enc (dial_items E d))
    = Inr [OnRequest (reqno pRI) (DialData d) (hsizeof H ''RIL_Dial''), FreeString (Some s)]"
  by (rule ril_env.received_reads[OF assms(1) ril_env.reads_dispatchDial[OF assms]])

definition dial0 :: RIL_Dial where
  "dial0 = \<lparr>dial_address = Some ''112'', dial_clir = 2, dial_uusInfo =
     Some \<lparr>uusType = 1, uusDcs = 4, uusLength = 2, uusData = Some [65, 66]\<rparr>\<rparr>"

theorem dial_request_witness:
  "received flat_parcel (dispatchDial flat_parcel ref_h 6 pri0) (enc_items (dial_items flat_parcel dial0))
   = Inr [OnRequest 59 (DialData dial0) 12, FreeString (Some ''112'')]"
  using dial_request[OF flat.ril_env_axioms, of 6 dial0 "''112''" ref_h pri0]
  by (simp add: dial0_def c_string_def pri0_def)

context ril_env
begin

lemma reads_repeat_String16:
  assumes "\<forall>w \<in> set ws. str16_fits (Some w)"
  shows "reads (repeatM (length ws) (p_readString16 E)) ws (map (\<lambda>w. S16 (Some w)) ws)"
  using reads_repeatM[of ws "p_readString16 E" "\<lambda>w. [S16 (Some w)]"] assms readString16_R
  by (auto simp: reads_def)

lemma writes_strings16:
  "writes (do { p_writeInt32 E n; mapM_unit ws (\<lambda>s. p_writeString16 E (Some s)) }) ()
     (I32 n # map (\<lambda>w. S16 (Some w)) ws)"
  using writes_mapM_unit[of ws "\<lambda>s. p_writeString16 E (Some s)" "\<lambda>w. [S16 (Some w)]"]
  by (auto intro!: writes_Int32 writes_writeString16)

lemma c_strings_16:
  "\<forall>s \<in> set ss. c_string s \<Longrightarrow>
    \<exists>ws. map (\<lambda>s. strdup8to16 E (Some s)) ss = map Some ws \<and> (\<forall>w \<in> set ws. str16_fits (Some w))"
proof (induction ss)
  case (Cons s ss)
  then obtain ws where ws: "map (\<lambda>s. strdup8to16 E (Some s)) ss = map Some ws"
    "\<forall>w \<in> set ws. str16_fits (Some w)" by auto
  obtain w where "strdup8to16 E (Some s) = Some w" using dup8_Some Cons.prems by auto
  with ws dup8_fits[of "Some s"] show ?case by (intro exI[of _ "w # ws"]) simp
qed simp

end

lemma run_dispatchDataCall_new:
  "\<not> sint version < 4 \<Longrightarrow> run_state (dispatchDataCall E version pRI) p =
    run_state (dispatchStrings E pRI)
      (p_setDataPosition E (p_dataPosition E p) (snd (run_state (p_readInt32V E) p)))"
  by (simp add: dispatchDataCall_def Let_def split_beta)

lemma run_dispatchDataCall_old:
  assumes "sint version < 4" "run_state (p_readInt32V E) p = (n, p1)" "sint n > 6"
    "run_state (repeatM 6 (p_readString16 E)) p1 = (ws, q)"
  shows "run_state (dispatchDataCall E version pRI) p =
    (run_on E pRI (p_setDataPosition E (p_dataPosition E p)
       (snd (run_state (do { p_writeInt32 E 6; mapM_unit ws (\<lambda>s. p_writeString16 E (Some s)) })
         (p_appendFrom E q 0 (p_dataPosition E p) (p_new E))))) [], q)"
  using assms by (simp add: dispatchDataCall_def numParamsRilV3_def Let_def)

context ril_env
begin

lemma reads_dispatchDataCall_new:
  assumes "\<not> sint version < 4" "alloca_ok E (sizeof_ptr * length ss)" "\<forall>s \<in> set ss. cstr_ok s"
  shows "reads (dispatchDataCall E version pRI)
    (Inr (OnRequest (reqno pRI) (StrsData ss) (sizeof_ptr * length ss) # map FreeString ss))
    (strs_items E (word_of_nat (length ss)) ss)"
  unfolding reads_def run_dispatchDataCall_new[OF assms(1)]
proof (intro allI impI)
  fix p b a
  let ?its = "strs_items E (word_of_nat (length ss)) ss"
  let ?tl = "map (\<lambda>s. S16 (strdup8to16 E s)) ss @ a"
  assume R: "R p b (?its @ a)"
  then obtain p1 where p1: "run_state (p_readInt32V E) p = (word_of_nat (length ss), p1)"
      "R p1 (b @ [I32 (word_of_nat (length ss))]) ?tl"
    using readInt32V_R[of p b "word_of_nat (length ss)" ?tl] by (auto simp: strs_items_def)
  have "R (p_setDataPosition E (length (enc b)) p1) b (?its @ a)"
    using p1(2) by (rule setDataPosition_R) (simp add: strs_items_def)
  from readsD[OF reads_dispatchStrings[OF assms(2,3), folded strs_items_def] this]
  show "\<exists>p'. run_state (dispatchStrings E pRI)
      (p_setDataPosition E (p_dataPosition E p) (snd (run_state (p_readInt32V E) p)))
    = (Inr (OnRequest (reqno pRI) (StrsData ss) (sizeof_ptr * length ss) # map FreeString ss), p')
    \<and> R p' (b @ ?its) a"
    by (simp add: p1(1) dataPosition_enc[OF R])
qed

lemma reads_dispatchDataCall_old:
  assumes "sint version < 4" "sint n > 6" "length ss = 6" "\<forall>s \<in> set ss. c_string s"
    "alloca_ok E (sizeof_ptr * 6)"
  shows "reads (dispatchDataCall E version pRI)
    (Inr (OnRequest (reqno pRI) (StrsData (map Some ss)) (sizeof_ptr * 6)
      # map FreeString (map Some ss)))
    (strs_items E n (map Some ss))"
  unfolding reads_def
proof (intro allI impI)
  fix p b a
  let ?res = "Inr (OnRequest (reqno pRI) (StrsData (map Some ss)) (sizeof_ptr * 6)
      # map FreeString (map Some ss)) :: action list result"
  obtain ws where ws: "map (\<lambda>s. strdup8to16 E (Some s)) ss = map Some ws"
    "\<forall>w \<in> set ws. str16_fits (Some w)" using c_strings_16[OF assms(4)] by blast
  have len: "length ws = 6" using ws(1) assms(3) by (metis length_map)
  have its: "map (\<lambda>s. S16 (strdup8to16 E s)) (map Some ss) = map (\<lambda>w. S16 (Some w)) ws"
    using arg_cong[OF ws(1), of "map S16"] by (simp add: comp_def)
  assume "R p b (strs_items E n (map Some ss) @ a)"
  then have R: "R p b (I32 n # map (\<lambda>w. S16 (Some w)) ws @ a)" by (simp add: strs_items_def its del: map_map)
  then obtain p1 where p1: "run_state (p_readInt32V E) p = (n, p1)"
    "R p1 (b @ [I32 n]) (map (\<lambda>w. S16 (Some w)) ws @ a)" using readInt32V_R by blast
  from readsD[OF reads_repeat_String16[OF ws(2)] p1(2)] obtain q where
    q: "run_state (repeatM 6 (p_readString16 E)) p1 = (ws, q)"
      "R q ((b @ [I32 n]) @ map (\<lambda>w. S16 (Some w)) ws) a" by (auto simp: len)
  have "reads (dispatchStrings E pRI) ?res (I32 6 # map (\<lambda>w. S16 (Some w)) ws)"
    using reads_dispatchStrings[of "map Some ss" pRI] assms(3-5) its by simp
  from rebuilt[OF _ writes_strings16[of 6 ws] this, of q b "I32 n # map (\<lambda>w. S16 (Some w)) ws" a] q(2)
  have "run_on E pRI (p_setDataPosition E (p_dataPosition E p)
       (snd (run_state (do { p_writeInt32 E 6; mapM_unit ws (\<lambda>s. p_writeString16 E (Some s)) })
         (p_appendFrom E q 0 (p_dataPosition E p) (p_new E))))) [] = ?res"
    by (simp add: run_on_def dataPosition_enc[OF R])
  with run_dispatchDataCall_old[OF assms(1) p1(1) assms(2) q(1), of pRI] q(2)
  show "\<exists>p'. run_state (dispatchDataCall E version pRI) p = (?res, p')
      \<and> R p' (b @ strs_items E n (map Some ss)) a"
    by (simp add: strs_items_def its del: map_map)
qed

end

text \<open>
  Setting up a data call: a vendor library of version 4 or later gets all the strings of the
  request; an older one gets the first six of more than six strings, as a new array.
\<close>

theorem data_call_request:
  assumes "ril_env E R enc" "\<forall>s \<in> set (ss @ extra). c_string s" "length ss = 6" "extra \<noteq> []"
    and "alloca_ok E (sizeof_ptr * 6)" "alloca_ok E (sizeof_ptr * length (ss @ extra))"
  shows "received E (dispatchDataCall E version pRI)
      (enc (strs_items E (word_of_nat (length (ss @ extra))) (map Some (ss @ extra))))
    = (let out = map Some (if sint version < 4 then ss else ss @ extra) in
       Inr (OnRequest (reqno pRI) (StrsData out) (sizeof_ptr * length out) # map FreeString out))"
proof (cases "sint version < 4")
  case True
  have n: "sint (word_of_nat (length (ss @ extra)) :: i32) > 6"
    using ril_env.alloca_bound[OF assms(1,6)] assms(3,4) count_word(2)[of sizeof_ptr "length (ss @ extra)"]
    by (cases extra) (auto simp: sizeof_ptr_def)
  have c: "\<forall>s \<in> set ss. c_string s" using assms(2) by simp
  have "strs_items E k (map Some (ss @ extra))
      = strs_items E k (map Some ss) @ map (\<lambda>s. S16 (strdup8to16 E s)) (map Some extra)" for k
    by (simp add: strs_items_def)
  with ril_env.received_reads_prefix[OF assms(1)
      ril_env.reads_dispatchDataCall_old[OF assms(1) True n assms(3) c assms(5)]]
  show ?thesis using True assms(3) by simp
next
  case False
  with ril_env.received_reads[OF assms(1) ril_env.reads_dispatchDataCall_new[OF assms(1) False,
        of "map Some (ss @ extra)" pRI]] assms(2,6)
  show ?thesis by (simp add: ball_Un)
qed

theorem data_call_request_witness:
  "received flat_parcel (dispatchDataCall flat_parcel 3 pri0)
     (enc_items (strs_items flat_parcel 7 (map Some [''1'', ''0'', ''apn'', [], [], ''0'', ''IP''])))
   = Inr (OnRequest 59 (StrsData (map Some [''1'', ''0'', ''apn'', [], [], ''0''])) 24
       # map FreeString (map Some [''1'', ''0'', ''apn'', [], [], ''0'']))"
  using data_call_request[OF flat.ril_env_axioms,
      of "[''1'', ''0'', ''apn'', [], [], ''0'']" "[''IP'']" 3 pri0]
  by (simp add: c_string_def sizeof_ptr_def pri0_def Let_def)

end
