(* ===== verification/C_Text.thy ===== *)
theory C_Text
  imports Prelude
begin

text \<open>
  Numbers as text, the way the C library reads and prints them: \<open>atoi\<close> and the conversions of
  \<open>printf\<close> that the sources use (\<open>%d\<close>, \<open>%8.8x\<close>, \<open>%8.8s\<close>). The main result is that \<open>atoi\<close> reads back
  what \<open>%d\<close> prints, and the bounds on the printed length that the fixed buffers rely on.
\<close>

section \<open>Reading\<close>

definition isspace :: "char \<Rightarrow> bool" where
  "isspace c \<longleftrightarrow> (of_char c :: nat) \<in> {9, 10, 11, 12, 13, 32}"

definition isdigit :: "char \<Rightarrow> bool" where
  "isdigit c \<longleftrightarrow> (48 :: nat) \<le> of_char c \<and> of_char c \<le> (57 :: nat)"

text \<open>\<open>atoi\<close> of the C library; numbers that do not fit an \<open>int\<close> have no defined value there.\<close>

definition atoi :: "string \<Rightarrow> int" where
  "atoi s =
     (let t = dropWhile isspace s;
          digits = (\<lambda>u. foldl (\<lambda>n c. 10 * n + (of_char c - 48)) 0 (takeWhile isdigit u))
      in if t \<noteq> [] \<and> hd t = CHR ''-'' then - digits (tl t)
         else if t \<noteq> [] \<and> hd t = CHR ''+'' then digits (tl t)
         else digits t)"

section \<open>Printing\<close>

text \<open>The digits of a number, most significant first.\<close>

definition digit :: "nat \<Rightarrow> char" where
  "digit d = (if d < 10 then char_of (48 + d) else char_of (87 + d))"

fun dec_nat :: "nat \<Rightarrow> string" where
  "dec_nat n = (if n < 10 then [digit n] else dec_nat (n div 10) @ [digit (n mod 10)])"

declare dec_nat.simps [simp del]

text \<open>\<open>%d\<close> of an \<open>int\<close>.\<close>

definition dec_text :: "int \<Rightarrow> string" where
  "dec_text i = (if i < 0 then CHR ''-'' # dec_nat (nat (- i)) else dec_nat (nat i))"

text \<open>\<open>%8.8x\<close> of a number below \<open>2 ^ 32\<close>, and \<open>%8.8s\<close>: at most eight characters, right-aligned.\<close>

definition hex8 :: "nat \<Rightarrow> string" where
  "hex8 n = map (\<lambda>k. digit (n div 16 ^ k mod 16)) (rev [0..<8])"

definition str8 :: "string \<Rightarrow> string" where
  "str8 s = replicate (8 - length s) CHR '' '' @ take 8 s"

text \<open>
  \<open>snprintf\<close> into a buffer of \<open>n\<close> characters keeps one less and returns the length of the whole text; a
  \<open>write\<close> of that many characters from the buffer then writes this.
\<close>

definition buffered :: "nat \<Rightarrow> string \<Rightarrow> string result" where
  "buffered n txt =
     (if length txt > n then Inl OutOfBounds else Inr (take (length txt) (take (n - 1) txt @ [CHR 0x00])))"

section \<open>Properties\<close>

lemma buffered_short: "length txt < n \<Longrightarrow> buffered n txt = Inr txt"
  by (simp add: buffered_def)

lemma length_hex8 [simp]: "length (hex8 n) = 8"
  by (simp add: hex8_def)

lemma length_str8 [simp]: "length (str8 s) = 8"
  by (simp add: str8_def)

lemma of_char_digit: "d < 10 \<Longrightarrow> (of_char (digit d) :: int) = 48 + int d"
proof -
  assume "d < 10"
  then have "(of_char (digit d) :: nat) = 48 + d" by (simp add: digit_def of_char_of take_bit_eq_mod)
  then show ?thesis by (metis of_nat_of_char of_nat_add of_nat_numeral)
qed

lemma isdigit_digit: "d < 10 \<Longrightarrow> isdigit (digit d)"
  by (simp add: digit_def isdigit_def of_char_of take_bit_eq_mod)

lemma isdigit_plain: "isdigit c \<Longrightarrow> \<not> isspace c \<and> c \<noteq> CHR ''-'' \<and> c \<noteq> CHR ''+''"
  by (auto simp: isdigit_def isspace_def)

lemma dec_nat_nonempty [simp]: "dec_nat n \<noteq> []"
  by (simp add: dec_nat.simps)

lemma dec_nat_digits: "\<forall>c \<in> set (dec_nat n). isdigit c"
  by (induction n rule: dec_nat.induct) (subst dec_nat.simps, auto simp: isdigit_digit)

lemma dec_nat_value: "foldl (\<lambda>n c. 10 * n + (of_char c - 48)) 0 (dec_nat n) = int n"
proof (induction n rule: dec_nat.induct)
  case (1 n)
  show ?case
  proof (cases "n < 10")
    case True then show ?thesis by (subst dec_nat.simps) (simp add: of_char_digit)
  next
    case False
    have d: "n mod 10 < 10" by simp
    have "int n = 10 * int (n div 10) + int (n mod 10)" by presburger
    then show ?thesis using False 1 by (subst dec_nat.simps) (simp add: of_char_digit[OF d])
  qed
qed

lemma dec_nat_parse:
  assumes "\<not> isdigit c"
  shows "foldl (\<lambda>n c. 10 * n + (of_char c - 48)) 0 (takeWhile isdigit (dec_nat n @ c # u)) = int n"
proof -
  have "takeWhile isdigit (dec_nat n @ c # u) = dec_nat n"
    using dec_nat_digits[of n] assms by (subst takeWhile_append2) auto
  then show ?thesis using dec_nat_value by simp
qed

text \<open>Reading back a printed number that ends at a character that is no digit.\<close>

theorem atoi_dec_text: "\<not> isdigit c \<Longrightarrow> atoi (dec_text i @ c # u) = i"
proof -
  assume c: "\<not> isdigit c"
  have h: "isdigit (hd (dec_nat n))" for n using dec_nat_digits[of n] by (simp add: list.set_sel(1))
  have "dec_nat n @ c # u = hd (dec_nat n) # tl (dec_nat n) @ c # u" for n
    by (simp flip: append_Cons)
  then have d: "dropWhile isspace (dec_nat n @ c # u) = dec_nat n @ c # u" for n
    using isdigit_plain[OF h[of n]] by (metis dropWhile.simps(2))
  have hd: "hd (dec_nat n @ c # u) = hd (dec_nat n)" for n by simp
  show ?thesis
  proof (cases "i < 0")
    case True
    have m: "\<not> isspace CHR ''-''" by (simp add: isspace_def)
    show ?thesis using True m dec_nat_parse[OF c, of "nat (- i)" u]
      by (simp add: atoi_def dec_text_def)
  next
    case False
    show ?thesis using False isdigit_plain[OF h[of "nat i"]] dec_nat_parse[OF c, of "nat i" u]
      by (simp add: atoi_def dec_text_def d hd)
  qed
qed

text \<open>A number below \<open>10 ^ k\<close> takes at most \<open>k\<close> digits, so that an \<open>int\<close> takes at most eleven characters.\<close>

lemma dec_nat_length: "0 < k \<Longrightarrow> n < 10 ^ k \<Longrightarrow> length (dec_nat n) \<le> k"
proof (induction n arbitrary: k rule: dec_nat.induct)
  case (1 n)
  show ?case
  proof (cases "n < 10")
    case True then show ?thesis using 1(2) by (subst dec_nat.simps) simp
  next
    case False
    then obtain j where k: "k = Suc j" "0 < j" using 1(2,3) by (cases k; cases "k - 1") auto
    have "n div 10 < 10 ^ j" using 1(3) k by (simp add: less_mult_imp_div_less mult.commute)
    then show ?thesis using 1(1)[of j] False k by (subst dec_nat.simps) simp
  qed
qed

lemma dec_text_length: "length (dec_text (sint (w :: i32))) \<le> 11"
proof -
  have "- (2 ^ 31) \<le> sint w" "sint w < 2 ^ 31"
    using sint_ge[of w] sint_lt[of w] by simp_all
  then have "nat (sint w) < 10 ^ 10" "nat (- sint w) < 10 ^ 10" by simp_all
  then show ?thesis using dec_nat_length[of 10] by (fastforce simp: dec_text_def)
qed

end
