(* ===== verification/Ril_Core.thy ===== *)
theory Ril_Core
  imports Ril_Dispatch_Sms Ril_Response_Cells Ril_Tables Ril_Event
begin

text \<open>
  The core of libril/ril.cpp: the pending requests, the command socket, unsolicited messages, the wake
  lock and its timers, and the callbacks of the event loop, for the build of this device (one SIM, no
  multi-SIM callbacks, \<open>assert\<close> compiled out). The state extends that of the event library. Each
  function of the code is one function on the state; the mutexes of the code make its accesses to
  the list of requests and to the socket atomic. What the world does in a step (results of \<open>write\<close>,
  what the vendor library answers) is part of the state or an argument.
\<close>

section \<open>State\<close>

text \<open>Results of \<open>write\<close>, in order: so many bytes taken, or an error.\<close>

datatype write_result = Wrote nat | WEINTR | WEAGAIN | WError

datatype timed_cb = WakeTimeoutCb | UserCb nat

record UserCallbackInfo =
  uc_callback :: timed_cb
  uc_userParam :: addr

text \<open>
  \<open>radioState\<close> is what \<open>onStateRequest\<close> returns, \<open>elapsed\<close> the value of \<open>elapsedRealtime\<close>,
  \<open>wr_script\<close> the results of the next calls of \<open>write\<close>, \<open>sock_out\<close> the bytes the command socket has
  taken since the connection was accepted, \<open>onRequests\<close> the calls of the vendor library's \<open>onRequest\<close>, \<open>timed_calls\<close> those of its timed
  callbacks and \<open>ril_impl\<close> the property gsm.version.ril-impl.
\<close>

record ril_state = ev_state +
  cb_version :: i32
  cb_getVersion :: "cstr option"
  s_registerCalled :: bool
  s_started :: bool
  fdListen :: int
  fdCommand :: int
  s_pendingRequests :: "(addr \<times> RequestInfo) list"
  voiceRadioTech :: i32
  cdmaSubscriptionSource :: i32
  simRuimStatus :: i32
  s_lastNITZTimeData :: "u8 list option"
  s_last_wake_timeout_info :: addr
  user_cbs :: "(addr \<times> UserCallbackInfo) list"
  wake_lock :: bool
  wakeup_pipe :: nat
  in_dispatch_thread :: bool
  radioState :: i32
  elapsed :: i64
  wr_script :: "write_result list"
  sock_out :: "u8 list"
  onRequests :: "(i32 \<times> req_data \<times> nat \<times> addr) list"
  timed_calls :: "(nat \<times> addr) list"
  ril_impl :: cstr

text \<open>The addresses of the event structures that are global variables.\<close>

definition s_commands_event :: addr where "s_commands_event = 3"
definition s_wakeupfd_event :: addr where "s_wakeupfd_event = 4"
definition s_listen_event :: addr where "s_listen_event = 5"
definition s_debug_event :: addr where "s_debug_event = 6"

text \<open>The allocator returns an address that no global variable and no live block has.\<close>

definition live :: "ril_state \<Rightarrow> addr list" where
  "live s = map fst (s_pendingRequests s) @ map fst (user_cbs s)"

definition malloc :: "ril_state \<Rightarrow> addr" where
  "malloc s = Suc (foldr max (live s) 9)"

section \<open>The command socket\<close>

definition RESPONSE_SOLICITED :: i32 where "RESPONSE_SOLICITED = 0"
definition RESPONSE_UNSOLICITED :: i32 where "RESPONSE_UNSOLICITED = 1"
definition MAX_COMMAND_BYTES :: nat where "MAX_COMMAND_BYTES = 8 * 1024"

text \<open>
  The loop of \<open>blockingWrite\<close>: the return value, the bytes taken and the remaining results of
  \<open>write\<close>; \<open>None\<close> when the last \<open>write\<close> has not returned. After an error the socket is closed, so
  that later calls of \<open>write\<close> fail.
\<close>

fun write_loop :: "write_result list \<Rightarrow> u8 list \<Rightarrow> (int \<times> u8 list \<times> write_result list) option" where
  "write_loop ws [] = Some (0, [], ws)"
| "write_loop [] (b # bs) = None"
| "write_loop (Wrote k # ws) (b # bs) =
     map_option (\<lambda>(r, out, ws'). (r, take k (b # bs) @ out, ws')) (write_loop ws (drop k (b # bs)))"
| "write_loop (WEINTR # ws) (b # bs) = write_loop ws (b # bs)"
| "write_loop (WEAGAIN # ws) (b # bs) = write_loop ws (b # bs)"
| "write_loop (WError # ws) (b # bs) = Some (- 1, [], ws)"

definition blockingWrite :: "u8 list \<Rightarrow> ril_state \<Rightarrow> (int \<times> ril_state) result" where
  "blockingWrite buf s = (case write_loop (wr_script s) buf of
       None \<Rightarrow> Inl Blocked
     | Some (r, out, ws) \<Rightarrow> Inr (r, s\<lparr>sock_out := sock_out s @ out, wr_script := ws\<rparr>))"

text \<open>The bytes of \<open>htonl(n)\<close>, most significant first.\<close>

definition htonl :: "nat \<Rightarrow> u8 list" where
  "htonl n = [word_of_nat (n div 2 ^ 24), word_of_nat (n div 2 ^ 16), word_of_nat (n div 2 ^ 8),
     word_of_nat n]"

definition sendResponseRaw :: "u8 list \<Rightarrow> ril_state \<Rightarrow> (int \<times> ril_state) result" where
  "sendResponseRaw dat s =
     (if fdCommand s < 0 then Inr (- 1, s)
      else if length dat > MAX_COMMAND_BYTES then Inr (- 1, s)
      else case blockingWrite (htonl (length dat)) s of
          Inl f \<Rightarrow> Inl f
        | Inr (r, s1) \<Rightarrow>
            if r < 0 then Inr (r, s1)
            else case blockingWrite dat s1 of
                Inl f \<Rightarrow> Inl f
              | Inr (r, s2) \<Rightarrow> if r < 0 then Inr (r, s2) else Inr (0, s2))"

definition sendResponse :: "'p ext \<Rightarrow> 'p \<Rightarrow> ril_state \<Rightarrow> (int \<times> ril_state) result" where
  "sendResponse E p s = sendResponseRaw (p_data E p) s"

section \<open>Requests\<close>

text \<open>Taking a request off the list by its address; \<open>NULL\<close> is never found.\<close>

fun unlink :: "addr \<Rightarrow> (addr \<times> 'r) list \<Rightarrow> (addr \<times> 'r) list" where
  "unlink a [] = []"
| "unlink a ((b, r) # xs) = (if a = b then xs else (b, r) # unlink a xs)"

definition checkAndDequeueRequestInfo :: "addr \<Rightarrow> ril_state \<Rightarrow> bool \<times> ril_state" where
  "checkAndDequeueRequestInfo a s =
     (if a = 0 then (False, s)
      else if a \<in> fst ` set (s_pendingRequests s)
      then (True, s\<lparr>s_pendingRequests := unlink a (s_pendingRequests s)\<rparr>)
      else (False, s))"

text \<open>The answer to a request: token and error code, then the payload; a payload that cannot be marshalled
  overwrites the error code.\<close>

definition answer ::
  "'p ext \<Rightarrow> ril_h \<Rightarrow> i32 \<Rightarrow> RequestInfo \<Rightarrow> i32 \<Rightarrow> cdata option \<Rightarrow> nat \<Rightarrow> ('p, unit result) state" where
  "answer E H version pRI e response responselen = do {
     p_writeInt32 E RESPONSE_SOLICITED;
     p_writeInt32 E (ri_token pRI);
     p \<leftarrow> State_Monad.get;
     let errorOffset = p_dataPosition E p;
     p_writeInt32 E e;
     if response = None then ret (Inr ())
     else do {
       r \<leftarrow> call_response E H version (responseFunction (ri_pCI pRI)) response responselen;
       case r of
         Inl f \<Rightarrow> ret (Inl f)
       | Inr rc \<Rightarrow>
           if rc \<noteq> 0 then do {
             p \<leftarrow> State_Monad.get;
             State_Monad.set (p_setDataPosition E errorOffset p);
             p_writeInt32 E rc;
             ret (Inr ())
           } else ret (Inr ())
     }
   }"

definition RIL_onRequestComplete ::
  "'p ext \<Rightarrow> ril_h \<Rightarrow> addr \<Rightarrow> i32 \<Rightarrow> cdata option \<Rightarrow> nat \<Rightarrow> ril_state \<Rightarrow> ril_state result" where
  "RIL_onRequestComplete E H t e response responselen s =
     (case (checkAndDequeueRequestInfo t s, map_of (s_pendingRequests s) t) of
        ((True, s1), Some pRI) \<Rightarrow>
          if ri_local pRI then Inr s1
          else if ri_cancelled pRI then Inr s1
          else (case run_state (answer E H (cb_version s) pRI e response responselen) (p_new E) of
              (Inl f, _) \<Rightarrow> Inl f
            | (Inr _, p) \<Rightarrow> map_sum id snd (sendResponse E p s1))
      | _ \<Rightarrow> Inr s)"

text \<open>The payloads the library makes up itself.\<close>

fun own_data :: "ril_h \<Rightarrow> own_response \<Rightarrow> cdata option \<times> nat" where
  "own_data H OwnNull = (None, 0)"
| "own_data H (OwnInt v) = (Some (Ints [v]), sizeof_int)"
| "own_data H (OwnSimIO a b r) =
     (Some (SimIOResponse \<lparr>sw1 = a, sw2 = b, simResponse = Some r\<rparr>), hsizeof H ''RIL_SIM_IO_Response'')"

text \<open>
  The actions of a dispatch function for the request at address \<open>a\<close>. When the vendor library completes
  the request within \<open>onRequest\<close>, that is a completion right after this step.
\<close>

fun run_action :: "'p ext \<Rightarrow> ril_h \<Rightarrow> addr \<Rightarrow> action \<Rightarrow> ril_state \<Rightarrow> ril_state result" where
  "run_action E H a (OnRequest r d n) s = Inr (s\<lparr>onRequests := onRequests s @ [(r, d, n, a)]\<rparr>)"
| "run_action E H a (RequestComplete e r) s =
     RIL_onRequestComplete E H a e (fst (own_data H r)) (snd (own_data H r)) s"
| "run_action E H a (FreeString c) s = Inr s"
| "run_action E H a InvalidBlock s = Inr s"
| "run_action E H a (SetVoiceRadioTech v) s = Inr (s\<lparr>voiceRadioTech := v\<rparr>)"
| "run_action E H a (SetCdmaSubscriptionSource v) s = Inr (s\<lparr>cdmaSubscriptionSource := v\<rparr>)"

fun run_actions :: "'p ext \<Rightarrow> ril_h \<Rightarrow> addr \<Rightarrow> action list \<Rightarrow> ril_state \<Rightarrow> ril_state result" where
  "run_actions E H a [] s = Inr s"
| "run_actions E H a (x # xs) s =
     (case run_action E H a x s of Inl f \<Rightarrow> Inl f | Inr s' \<Rightarrow> run_actions E H a xs s')"

definition enqueue :: "addr \<Rightarrow> RequestInfo \<Rightarrow> ril_state \<Rightarrow> ril_state" where
  "enqueue a pRI s = s\<lparr>s_pendingRequests := (a, pRI) # s_pendingRequests s\<rparr>"

definition issueLocalRequest ::
  "ril_h \<Rightarrow> nat \<Rightarrow> req_data \<Rightarrow> nat \<Rightarrow> ril_state \<Rightarrow> ril_state result" where
  "issueLocalRequest H request dat len s =
     (if request < length (s_commands H) then
        let a = malloc s;
            s1 = enqueue a \<lparr>ri_token = - 1, ri_pCI = s_commands H ! request, ri_cancelled = False,
                   ri_local = True\<rparr> s
        in Inr (s1\<lparr>onRequests := onRequests s1 @ [(word_of_nat request, dat, len, a)]\<rparr>)
      else Inl OutOfBounds)"

definition unsupported :: "ril_h \<Rightarrow> i32 \<Rightarrow> bool" where
  "unsupported H request \<longleftrightarrow>
     sint request < 1 \<or> sint request \<ge> int (length (s_commands H)) \<or>
     requestNumber (s_commands H ! nat (sint request)) = 0"

definition processCommandBuffer ::
  "'p ext \<Rightarrow> ril_h \<Rightarrow> u8 list \<Rightarrow> ril_state \<Rightarrow> ril_state result" where
  "processCommandBuffer E H buffer s =
     (let ((_, request), p1) = run_state (p_readInt32 E) (p_setData E buffer);
          ((status, token), p2) = run_state (p_readInt32 E) p1
      in if status \<noteq> NO_ERROR then Inr s
         else if unsupported H request then
           let pErr = snd (run_state (do { p_writeInt32 E RESPONSE_SOLICITED; p_writeInt32 E token;
                 p_writeInt32 E (hword H ''RIL_E_GENERIC_FAILURE'') }) (p_new E))
           in map_sum id snd (sendResponse E pErr s)
         else
           let a = malloc s;
               pRI = \<lparr>ri_token = token, ri_pCI = s_commands H ! nat (sint request),
                      ri_cancelled = False, ri_local = False\<rparr>
           in (case fst (run_state (call_dispatch E H (cb_version s) (radioState s)
                       (dispatchFunction (ri_pCI pRI)) pRI) p2) of
                 Inl f \<Rightarrow> Inl f
               | Inr acts \<Rightarrow> run_actions E H a acts (enqueue a pRI s)))"

definition onCommandsSocketClosed :: "ril_state \<Rightarrow> ril_state" where
  "onCommandsSocketClosed s =
     s\<lparr>s_pendingRequests := map (\<lambda>(a, r). (a, r\<lparr>ri_cancelled := True\<rparr>)) (s_pendingRequests s)\<rparr>"

end
