(* ===== verification/Ril_Unsol.thy ===== *)
theory Ril_Unsol
  imports C_Text Ril_Core Ril_Radio
begin

text \<open>
  Unsolicited messages, timed callbacks and the wake lock of libril/ril.cpp, and the callbacks that the
  event loop runs: the listening socket, the command socket, the wake-up pipe and the timers.
\<close>

section \<open>Timed callbacks and the wake lock\<close>

definition triggerEvLoop :: "ril_state \<Rightarrow> ril_state" where
  "triggerEvLoop s = (if in_dispatch_thread s then s else s\<lparr>wakeup_pipe := Suc (wakeup_pipe s)\<rparr>)"

definition rilEventAddWakeup :: "addr \<Rightarrow> ril_state \<Rightarrow> ril_state" where
  "rilEventAddWakeup ev s = triggerEvLoop (ril_event_add ev s)"

text \<open>The event of a \<open>UserCallbackInfo\<close> lives inside it; both go by the address of the block.\<close>

definition internalRequestTimedCallback ::
  "timed_cb \<Rightarrow> addr \<Rightarrow> timeval option \<Rightarrow> ril_state \<Rightarrow> (addr \<times> ril_state) result" where
  "internalRequestTimedCallback callback param relativeTime s =
     (let a = malloc s;
          s1 = s\<lparr>user_cbs := (a, \<lparr>uc_callback = callback, uc_userParam = param\<rparr>) # user_cbs s\<rparr>;
          myRelativeTime = (case relativeTime of None \<Rightarrow> \<lparr>tv_sec = 0, tv_usec = 0\<rparr> | Some t \<Rightarrow> t);
          s2 = ril_event_set a (- 1) False F_userTimer a s1
      in (case ril_timer_add a (Some myRelativeTime) s2 of
            None \<Rightarrow> Inl Blocked
          | Some s3 \<Rightarrow> Inr (a, triggerEvLoop s3)))"

definition RIL_requestTimedCallback ::
  "nat \<Rightarrow> addr \<Rightarrow> timeval option \<Rightarrow> ril_state \<Rightarrow> ril_state result" where
  "RIL_requestTimedCallback callback param relativeTime s =
     map_sum id snd (internalRequestTimedCallback (UserCb callback) param relativeTime s)"

text \<open>The kernel's wake lock of this name is held or not; it does not count.\<close>

definition grabPartialWakeLock :: "ril_state \<Rightarrow> ril_state" where
  "grabPartialWakeLock s = s\<lparr>wake_lock := True\<rparr>"

definition releaseWakeLock :: "ril_state \<Rightarrow> ril_state" where
  "releaseWakeLock s = s\<lparr>wake_lock := False\<rparr>"

definition wakeTimeoutCallback :: "addr \<Rightarrow> ril_state \<Rightarrow> ril_state" where
  "wakeTimeoutCallback param s = (if param = 0 then releaseWakeLock s else s)"

fun call_timed :: "timed_cb \<Rightarrow> addr \<Rightarrow> ril_state \<Rightarrow> ril_state" where
  "call_timed WakeTimeoutCb param s = wakeTimeoutCallback param s"
| "call_timed (UserCb k) param s = s\<lparr>timed_calls := timed_calls s @ [(k, param)]\<rparr>"

definition userTimerCallback :: "addr \<Rightarrow> ril_state \<Rightarrow> ril_state result" where
  "userTimerCallback a s = (case map_of (user_cbs s) a of
       None \<Rightarrow> Inl UseAfterFree
     | Some p_info \<Rightarrow>
         let s1 = call_timed (uc_callback p_info) (uc_userParam p_info) s;
             s2 = (if s_last_wake_timeout_info s1 \<noteq> 0 \<and> s_last_wake_timeout_info s1 = a
                   then s1\<lparr>s_last_wake_timeout_info := 0\<rparr> else s1)
         in Inr (s2\<lparr>user_cbs := unlink a (user_cbs s2)\<rparr>))"

definition TIMEVAL_WAKE_TIMEOUT :: timeval where
  "TIMEVAL_WAKE_TIMEOUT = \<lparr>tv_sec = 0, tv_usec = 200000\<rparr>"

text \<open>Marking the previous wake timer as cancelled and starting a new one.\<close>

fun set_userParam :: "addr \<Rightarrow> addr \<Rightarrow> (addr \<times> UserCallbackInfo) list \<Rightarrow> (addr \<times> UserCallbackInfo) list" where
  "set_userParam a v [] = []"
| "set_userParam a v ((b, i) # xs) =
     (if a = b then (b, i\<lparr>uc_userParam := v\<rparr>) # xs else (b, i) # set_userParam a v xs)"

definition schedule_release :: "ril_state \<Rightarrow> ril_state result" where
  "schedule_release s =
     (let s1 = (if s_last_wake_timeout_info s \<noteq> 0
                then s\<lparr>user_cbs := set_userParam (s_last_wake_timeout_info s) 1 (user_cbs s)\<rparr> else s)
      in (case internalRequestTimedCallback WakeTimeoutCb 0 (Some TIMEVAL_WAKE_TIMEOUT) s1 of
            Inl f \<Rightarrow> Inl f
          | Inr (a, s2) \<Rightarrow> Inr (s2\<lparr>s_last_wake_timeout_info := a\<rparr>)))"

section \<open>Unsolicited messages\<close>

text \<open>\<open>unsol\<close> stands for \<open>RIL_onUnsolicitedResponse\<close>, which calls this function and is called by it.\<close>

definition notify_if ::
  "bool \<Rightarrow> (ril_state \<Rightarrow> ril_state) \<Rightarrow> (ril_state \<Rightarrow> ril_state result) \<Rightarrow> ril_state \<Rightarrow> ril_state result" where
  "notify_if b upd send s = (if b then send (upd s) else Inr s)"

definition processRadioState ::
  "(i32 \<Rightarrow> cdata option \<Rightarrow> nat \<Rightarrow> ril_state \<Rightarrow> ril_state result) \<Rightarrow> ril_h \<Rightarrow> i32 \<Rightarrow> ril_state
    \<Rightarrow> (i32 \<times> ril_state) result" where
  "processRadioState unsol H newRadioState s =
     (if sint newRadioState > hval H ''RADIO_STATE_UNAVAILABLE''
         \<and> sint newRadioState < hval H ''RADIO_STATE_ON'' then
        let tech = decodeVoiceRadioTechnology H newRadioState in
        case notify_if (tech \<noteq> voiceRadioTech s) (\<lambda>s. s\<lparr>voiceRadioTech := tech\<rparr>)
               (unsol (hword H ''RIL_UNSOL_VOICE_RADIO_TECH_CHANGED'') (Some (Ints [tech])) sizeof_int) s of
          Inl f \<Rightarrow> Inl f
        | Inr s1 \<Rightarrow>
            let src = decodeCdmaSubscriptionSource H newRadioState in
            (case notify_if (is3gpp2 H tech \<and> src \<noteq> cdmaSubscriptionSource s1)
                    (\<lambda>s. s\<lparr>cdmaSubscriptionSource := src\<rparr>)
                    (unsol (hword H ''RIL_UNSOL_CDMA_SUBSCRIPTION_SOURCE_CHANGED'')
                       (Some (Ints [src])) sizeof_int) s1 of
               Inl f \<Rightarrow> Inl f
             | Inr s2 \<Rightarrow>
                 let sim = decodeSimStatus H newRadioState in
                 (case notify_if (sim \<noteq> simRuimStatus s2) (\<lambda>s. s\<lparr>simRuimStatus := sim\<rparr>)
                         (unsol (hword H ''RIL_UNSOL_RESPONSE_SIM_STATUS_CHANGED'') None 0) s2 of
                    Inl f \<Rightarrow> Inl f
                  | Inr s3 \<Rightarrow> Inr (hword H ''RADIO_STATE_ON'', s3)))
      else Inr (newRadioState, s))"

text \<open>The end of \<open>RIL_onUnsolicitedResponse\<close>: sending, keeping a lost time message, the wake timer.\<close>

definition send_unsol ::
  "'p ext \<Rightarrow> ril_h \<Rightarrow> i32 \<Rightarrow> bool \<Rightarrow> 'p \<Rightarrow> ril_state \<Rightarrow> ril_state result" where
  "send_unsol E H c shouldScheduleTimeout p s =
     (case sendResponse E p s of
        Inl f \<Rightarrow> Inl f
      | Inr (r, s1) \<Rightarrow>
          let s2 = (if r \<noteq> 0 \<and> c = hword H ''RIL_UNSOL_NITZ_TIME_RECEIVED''
                    then s1\<lparr>s_lastNITZTimeData := Some (p_data E p)\<rparr> else s1)
          in if shouldScheduleTimeout then schedule_release s2 else Inr s2)"

text \<open>
  The first argument bounds the depth of the recursion through \<open>processRadioState\<close>. The \<open>None\<close>
  branch of \<open>unsol_conv\<close> and the next two tests are the early returns of the code.
\<close>

fun RIL_onUnsolicitedResponse ::
  "'p ext \<Rightarrow> ril_h \<Rightarrow> nat \<Rightarrow> i32 \<Rightarrow> cdata option \<Rightarrow> nat \<Rightarrow> ril_state \<Rightarrow> ril_state result" where
  "RIL_onUnsolicitedResponse E H 0 code dat datalen s = Inl StackOverflow"
| "RIL_onUnsolicitedResponse E H (Suc depth) code dat datalen s =
     (case unsol_conv H code of
        None \<Rightarrow> Inr s
      | Some c \<Rightarrow>
          let index = sint c - hval H ''RIL_UNSOL_RESPONSE_BASE'' in
          if \<not> s_registerCalled s then Inr s
          else if index < 0 \<or> index \<ge> int (length (s_unsolResponses H)) then Inr s
          else
            let info = s_unsolResponses H ! nat index;
                wake = (wakeType info = WAKE_PARTIAL);
                s1 = (if wake then grabPartialWakeLock s else s);
                timeReceived = (if c = hword H ''RIL_UNSOL_NITZ_TIME_RECEIVED'' then elapsed s1 else 0);
                (r, p) = run_state (do { p_writeInt32 E RESPONSE_UNSOLICITED; p_writeInt32 E c;
                  call_response E H (cb_version s1) (unsolFunction info) dat datalen }) (p_new E)
            in (case r of
                  Inl f \<Rightarrow> Inl f
                | Inr rc \<Rightarrow>
                    if rc \<noteq> 0 then Inr (if wake then releaseWakeLock s1 else s1)
                    else if c = hword H ''RIL_UNSOL_RESPONSE_RADIO_STATE_CHANGED'' then
                      (case processRadioState (RIL_onUnsolicitedResponse E H depth) H (radioState s1) s1 of
                         Inl f \<Rightarrow> Inl f
                       | Inr (newState, s2) \<Rightarrow>
                           send_unsol E H c wake (snd (run_state (p_writeInt32 E newState) p)) s2)
                    else if c = hword H ''RIL_UNSOL_NITZ_TIME_RECEIVED'' then
                      send_unsol E H c wake (snd (run_state (p_writeInt64 E timeReceived) p)) s1
                    else send_unsol E H c wake p s1))"

text \<open>Two levels are enough, as is shown with the properties of this theory.\<close>

definition UNSOL_DEPTH :: nat where "UNSOL_DEPTH = 2"

definition RIL_UNSOL_RESPONSE ::
  "'p ext \<Rightarrow> ril_h \<Rightarrow> i32 \<Rightarrow> cdata option \<Rightarrow> nat \<Rightarrow> ril_state \<Rightarrow> ril_state result" where
  "RIL_UNSOL_RESPONSE E H = RIL_onUnsolicitedResponse E H UNSOL_DEPTH"

section \<open>Connections\<close>

definition onNewCommandConnect :: "'p ext \<Rightarrow> ril_h \<Rightarrow> ril_state \<Rightarrow> ril_state result" where
  "onNewCommandConnect E H s =
     (case RIL_UNSOL_RESPONSE E H RIL_UNSOL_RIL_CONNECTED_V3 (Some (Ints [cb_version s])) sizeof_int s of
        Inl f \<Rightarrow> Inl f
      | Inr s1 \<Rightarrow>
        (case RIL_UNSOL_RESPONSE E H (hword H ''RIL_UNSOL_RESPONSE_RADIO_STATE_CHANGED'') None 0 s1 of
           Inl f \<Rightarrow> Inl f
         | Inr s2 \<Rightarrow>
           (case (case s_lastNITZTimeData s2 of
                    None \<Rightarrow> Inr s2
                  | Some dat \<Rightarrow> map_sum id (\<lambda>(r, s'). s'\<lparr>s_lastNITZTimeData := None\<rparr>)
                      (sendResponseRaw dat s2)) of
              Inl f \<Rightarrow> Inl f
            | Inr s3 \<Rightarrow> Inr (s3\<lparr>ril_impl :=
                (case cb_getVersion s3 of Some v \<Rightarrow> v | None \<Rightarrow> Some ''unavailable'')\<rparr>))))"

text \<open>
  A connection on the telephony socket: \<open>accepted\<close> is what \<open>accept\<close> returns, \<open>pw_name\<close> the name of
  the user at the other end, when that can be found out. The stream \<open>sock_out\<close> of the new connection is empty.
\<close>

definition PHONE_PROCESS :: string where "PHONE_PROCESS = ''radio''"

definition listenCallback ::
  "'p ext \<Rightarrow> ril_h \<Rightarrow> int \<Rightarrow> string option \<Rightarrow> ril_state \<Rightarrow> ril_state result" where
  "listenCallback E H accepted pw_name s =
     (if accepted < 0 then Inr (rilEventAddWakeup s_listen_event s)
      else if pw_name \<noteq> Some PHONE_PROCESS
      then Inr (rilEventAddWakeup s_listen_event (onCommandsSocketClosed s))
      else
        let s1 = s\<lparr>fdCommand := accepted, sock_out := []\<rparr>;
            s2 = ril_event_set s_commands_event accepted True F_processCommands 0 s1
        in onNewCommandConnect E H (rilEventAddWakeup s_commands_event s2))"

text \<open>Results of \<open>record_stream_get_next\<close>, in order.\<close>

datatype record_result = Record "u8 list" | EndOfStream | REAGAIN | RError

fun processCommandsCallback ::
  "'p ext \<Rightarrow> ril_h \<Rightarrow> record_result list \<Rightarrow> ril_state \<Rightarrow> ril_state result" where
  "processCommandsCallback E H [] s = Inl Blocked"
| "processCommandsCallback E H (Record r # rs) s =
     (case processCommandBuffer E H r s of
        Inl f \<Rightarrow> Inl f
      | Inr s' \<Rightarrow> processCommandsCallback E H rs s')"
| "processCommandsCallback E H (REAGAIN # rs) s = Inr s"
| "processCommandsCallback E H (e # rs) s =
     (let s1 = ril_event_del s_commands_event (s\<lparr>fdCommand := - 1\<rparr>)
      in Inr (onCommandsSocketClosed (rilEventAddWakeup s_listen_event s1)))"

definition processWakeupCallback :: "ril_state \<Rightarrow> ril_state" where
  "processWakeupCallback s = s\<lparr>wakeup_pipe := 0\<rparr>"

section \<open>The debug socket\<close>

definition local_request :: "ril_h \<Rightarrow> string \<Rightarrow> req_data \<Rightarrow> nat \<Rightarrow> ril_state \<Rightarrow> ril_state result" where
  "local_request H name dat len s = issueLocalRequest H (nat (hval H name)) dat len s"

text \<open>
  \<open>received\<close> holds the arguments that came in over the accepted connection, \<open>None\<close> when \<open>accept\<close> or a
  \<open>recv\<close> failed, and \<open>uusInfo\<close> what the stack held in the member of \<open>dialData\<close> that the code does not
  set. The number of the SIM in the last argument selects the only one of this build.
\<close>

definition debugCallback ::
  "'p ext \<Rightarrow> ril_h \<Rightarrow> string list option \<Rightarrow> RIL_UUS_Info option \<Rightarrow> ril_state \<Rightarrow> ril_state result" where
  "debugCallback E H received uusInfo s = (case received of
       None \<Rightarrow> Inr s
     | Some [] \<Rightarrow> Inl OutOfBounds
     | Some (arg # args) \<Rightarrow>
         (let n = atoi arg;
              qxdm = (\<lambda>mode. local_request H ''RIL_REQUEST_OEM_HOOK_RAW''
                        (IntsData [65536, 16, mode, 32, 0, 8]) (6 * sizeof_int))
          in if n = 0 then local_request H ''RIL_REQUEST_RESET_RADIO'' NullData 0 s
             else if n = 1 then
               map_sum id (\<lambda>s1. if fdCommand s1 > 0 then s1\<lparr>fdCommand := - 1\<rparr> else s1)
                 (local_request H ''RIL_REQUEST_RADIO_POWER'' (IntsData [0]) sizeof_int s)
             else if n = 2 then
               RIL_UNSOL_RESPONSE E H (hword H ''RIL_UNSOL_RESPONSE_VOICE_NETWORK_STATE_CHANGED'') None 0 s
             else if n = 3 then qxdm 1 s
             else if n = 4 then qxdm 0 s
             else if n = 5 then
               (case local_request H ''RIL_REQUEST_RADIO_POWER'' (IntsData [1]) sizeof_int s of
                  Inl f \<Rightarrow> Inl f
                | Inr s1 \<Rightarrow> local_request H ''RIL_REQUEST_SET_NETWORK_SELECTION_AUTOMATIC'' NullData 0 s1)
             else if n = 6 then
               (case args of
                  [] \<Rightarrow> Inl OutOfBounds
                | apn # _ \<Rightarrow>
                    local_request H ''RIL_REQUEST_SETUP_DATA_CALL'' (StrsData [Some apn]) sizeof_ptr s)
             else if n = 7 then
               local_request H ''RIL_REQUEST_DEACTIVATE_DATA_CALL'' (StrsData [Some ''1'']) sizeof_ptr s
             else if n = 8 then
               (case args of
                  [] \<Rightarrow> Inl OutOfBounds
                | number # _ \<Rightarrow>
                    local_request H ''RIL_REQUEST_DIAL''
                      (DialData \<lparr>dial_address = Some number, dial_clir = 0, dial_uusInfo = uusInfo\<rparr>)
                      (hsizeof H ''RIL_Dial'') s)
             else if n = 9 then local_request H ''RIL_REQUEST_ANSWER'' NullData 0 s
             else if n = 10 then local_request H ''RIL_REQUEST_HANGUP'' (IntsData [1]) sizeof_int s
             else Inr s))"

section \<open>Start-up\<close>

text \<open>The start of the event loop thread; \<open>pipe_fd\<close> is the read end of the wake-up pipe.\<close>

definition eventLoop_start :: "int option \<Rightarrow> ril_state \<Rightarrow> ril_state" where
  "eventLoop_start pipe_fd s =
     (let s1 = (ril_event_init s)\<lparr>s_started := True\<rparr> in
      case pipe_fd of
        None \<Rightarrow> s1
      | Some fd \<Rightarrow> rilEventAddWakeup s_wakeupfd_event
          (ril_event_set s_wakeupfd_event fd True F_processWakeup 0 s1))"

text \<open>\<open>RIL_SOCKET_1\<close>; \<open>sock\<close> is the descriptor of the control socket and \<open>listens\<close> the result of \<open>listen\<close>.\<close>

definition startListen :: "int \<Rightarrow> int \<Rightarrow> ril_state \<Rightarrow> ril_state result" where
  "startListen sock listens s =
     (if sock < 0 then Inl Exited
      else if listens < 0 then Inl Exited
      else Inr (rilEventAddWakeup s_listen_event
        (ril_event_set s_listen_event sock False F_listen 0 (s\<lparr>fdListen := sock\<rparr>))))"

record RIL_RadioFunctions =
  rf_version :: i32
  rf_getVersion :: "cstr option"

definition RIL_register ::
  "RIL_RadioFunctions option \<Rightarrow> int option \<Rightarrow> int \<times> int \<Rightarrow> int \<times> int \<Rightarrow> ril_state \<Rightarrow> ril_state result" where
  "RIL_register callbacks pipe_fd sock dbg s = (case callbacks of
       None \<Rightarrow> Inr s
     | Some cb \<Rightarrow>
         if rf_version cb \<noteq> RIL_VERSION_V3 then Inr s
         else if s_registerCalled s then Inr s
         else
           let s1 = s\<lparr>cb_version := rf_version cb, cb_getVersion := rf_getVersion cb,
                      fdListen := - 1, fdCommand := - 1, s_registerCalled := True\<rparr>;
               s2 = (if s_started s1 then s1 else eventLoop_start pipe_fd s1)
           in (case startListen (fst sock) (snd sock) s2 of
                 Inl f \<Rightarrow> Inl f
               | Inr s3 \<Rightarrow>
                   if fst dbg < 0 \<or> snd dbg < 0 then Inl Exited
                   else Inr (rilEventAddWakeup s_debug_event
                     (ril_event_set s_debug_event (fst dbg) True F_debug 0 s3))))"

section \<open>The callbacks of the loop\<close>

text \<open>
  What the world answers to a callback: the results of \<open>accept\<close>, the name of the peer, the records of the
  command socket and the arguments on the debug socket.
\<close>

record world =
  w_accept :: int
  w_pw_name :: "string option"
  w_records :: "record_result list"
  w_debug :: "string list option"
  w_stack :: "RIL_UUS_Info option"

definition ril_call :: "'p ext \<Rightarrow> ril_h \<Rightarrow> world \<Rightarrow> ev_func \<Rightarrow> int \<Rightarrow> addr \<Rightarrow> ril_state \<Rightarrow> ril_state result" where
  "ril_call E H w f fd param s = (case f of
       F_none \<Rightarrow> Inl NullDeref
     | F_processWakeup \<Rightarrow> Inr (processWakeupCallback s)
     | F_processCommands \<Rightarrow> processCommandsCallback E H (w_records w) s
     | F_listen \<Rightarrow> listenCallback E H (w_accept w) (w_pw_name w) s
     | F_debug \<Rightarrow> debugCallback E H (w_debug w) (w_stack w) s
     | F_userTimer \<Rightarrow> userTimerCallback param s)"

end
