(* ===== verification/Ril_Core_Props.thy ===== *)
theory Ril_Core_Props
  imports Ril_Core Ril_Codec Ril_Roundtrip Flat_Parcel
begin

text \<open>
  Correctness of the core: framing on the command socket, the life of a request from
  \<open>processCommandBuffer\<close> to \<open>RIL_onRequestComplete\<close>, and the errors in between.
\<close>

section \<open>Writing to the socket\<close>

lemma write_loop_sound:
  "write_loop ws buf = Some (r, out, ws') \<Longrightarrow>
    (r = 0 \<and> out = buf) \<or> (r = - 1 \<and> (\<exists>rest. rest \<noteq> [] \<and> buf = out @ rest))"
proof (induction ws buf arbitrary: r out ws' rule: write_loop.induct)
  case (3 k ws b bs)
  then obtain o1 where o1: "write_loop ws (drop k (b # bs)) = Some (r, o1, ws')"
      "out = take k (b # bs) @ o1" by (auto simp del: take.simps drop.simps)
  from 3(1)[OF o1(1)] show ?case
    unfolding o1(2) by (metis append.assoc append_take_drop_id)
qed auto

text \<open>The bytes that a sequence of results of \<open>write\<close> takes.\<close>

fun taken :: "write_result list \<Rightarrow> nat" where
  "taken [] = 0"
| "taken (Wrote k # ws) = k + taken ws"
| "taken (_ # ws) = taken ws"

lemma write_loop_complete:
  "WError \<notin> set ws \<Longrightarrow> length buf \<le> taken ws \<Longrightarrow> \<exists>ws'. write_loop ws buf = Some (0, buf, ws')"
proof (induction ws buf rule: write_loop.induct)
  case (3 k ws b bs)
  then have "\<exists>ws'. write_loop ws (drop k (b # bs)) = Some (0, drop k (b # bs), ws')"
    by (simp del: drop.simps add: length_drop)
  then show ?case by (auto simp del: take.simps drop.simps)
qed auto

lemma blockingWrite_sound:
  "blockingWrite buf s = Inr (r, s') \<Longrightarrow>
    (\<exists>out ws. s' = s\<lparr>sock_out := sock_out s @ out, wr_script := ws\<rparr> \<and>
      ((r = 0 \<and> out = buf) \<or> (r = - 1 \<and> (\<exists>rest. rest \<noteq> [] \<and> buf = out @ rest))))"
  unfolding blockingWrite_def using write_loop_sound
  by (fastforce split: option.splits prod.splits)

section \<open>Frames\<close>

text \<open>The length in the first four bytes of a frame.\<close>

definition ntohl :: "u8 list \<Rightarrow> nat" where
  "ntohl bs = foldl (\<lambda>n b. n * 256 + unat b) 0 bs"

lemma ntohl_htonl:
  assumes "n < 2 ^ 32"
  shows "ntohl (htonl n) = n"
proof -
  have b: "unat (word_of_nat m :: u8) = m mod 256" for m
    by (simp add: unat_of_nat take_bit_eq_mod)
  define m1 m2 m3 where "m1 = n div 256" and "m2 = m1 div 256" and "m3 = m2 div 256"
  have d: "n div 2 ^ 8 = m1" "n div 2 ^ 16 = m2" "n div 2 ^ 24 = m3"
    by (simp_all add: m1_def m2_def m3_def div_mult2_eq[symmetric])
  have "m3 < 256" using assms by (simp flip: d(3) add: div_less_iff_less_mult)
  moreover have "n = m1 * 256 + n mod 256" "m1 = m2 * 256 + m1 mod 256" "m2 = m3 * 256 + m2 mod 256"
    by (simp_all add: m1_def m2_def m3_def)
  ultimately show ?thesis unfolding ntohl_def htonl_def d by (simp add: b)
qed

lemma length_htonl [simp]: "length (htonl n) = 4"
  by (simp add: htonl_def)

text \<open>The payloads of the complete frames of a byte stream, as the framework reads them.\<close>

function frames :: "u8 list \<Rightarrow> u8 list list" where
  "frames bs =
     (if length bs < 4 \<or> length bs < 4 + ntohl (take 4 bs) then []
      else take (ntohl (take 4 bs)) (drop 4 bs) # frames (drop (4 + ntohl (take 4 bs)) bs))"
  by auto
termination by (relation "measure length") auto

declare frames.simps [simp del]

lemma frames_Nil [simp]: "frames [] = []"
  by (simp add: frames.simps)

definition frame :: "u8 list \<Rightarrow> u8 list" where
  "frame dat = htonl (length dat) @ dat"

lemma frames_frame: "length dat < 2 ^ 32 \<Longrightarrow> frames (frame dat @ bs) = dat # frames bs"
  by (subst frames.simps) (simp add: frame_def ntohl_htonl)

text \<open>A stream that consists of whole frames; more can be appended to it.\<close>

definition framed :: "u8 list \<Rightarrow> bool" where
  "framed bs \<longleftrightarrow> (\<forall>more. frames (bs @ more) = frames bs @ frames more)"

lemma framed_Nil [simp]: "framed []"
  by (simp add: framed_def)

lemma framed_frame: "framed bs \<Longrightarrow> length dat < 2 ^ 32 \<Longrightarrow> framed (bs @ frame dat)"
  unfolding framed_def
proof
  fix more
  assume bs: "\<forall>more. frames (bs @ more) = frames bs @ frames more" and len: "length dat < 2 ^ 32"
  have "frames (bs @ frame dat @ m) = frames bs @ dat # frames m" for m
    using bs frames_frame[OF len, of m] by simp
  from this[of more] this[of "[]"]
  show "frames ((bs @ frame dat) @ more) = frames (bs @ frame dat) @ frames more" by simp
qed

lemma sendResponseRaw_sound:
  assumes "sendResponseRaw dat s = Inr (r, s')"
  shows "(r = 0 \<and> 0 \<le> fdCommand s \<and> length dat \<le> MAX_COMMAND_BYTES \<and>
      (\<exists>ws. s' = s\<lparr>sock_out := sock_out s @ frame dat, wr_script := ws\<rparr>)) \<or>
    (r = - 1 \<and> (fdCommand s < 0 \<or> length dat > MAX_COMMAND_BYTES) \<and> s' = s) \<or>
    (r = - 1 \<and> (\<exists>out rest ws. rest \<noteq> [] \<and> frame dat = out @ rest \<and>
      s' = s\<lparr>sock_out := sock_out s @ out, wr_script := ws\<rparr>))"
proof (cases "fdCommand s < 0 \<or> length dat > MAX_COMMAND_BYTES")
  case True
  then have "sendResponseRaw dat s = Inr (- 1, s)" by (auto simp: sendResponseRaw_def)
  then have "r = - 1" "s' = s" using assms by simp_all
  then show ?thesis using True by blast
next
  case False
  then obtain r1 s1 where 1: "blockingWrite (htonl (length dat)) s = Inr (r1, s1)"
    using assms by (auto simp: sendResponseRaw_def split: sum.splits)
  then obtain o1 w1 where s1: "s1 = s\<lparr>sock_out := sock_out s @ o1, wr_script := w1\<rparr>"
    and r1: "r1 = 0 \<and> o1 = htonl (length dat) \<or>
      r1 = - 1 \<and> (\<exists>rest. rest \<noteq> [] \<and> htonl (length dat) = o1 @ rest)"
    using blockingWrite_sound by metis
  show ?thesis
  proof (cases "r1 = 0")
    case True
    then obtain r2 s2 where 2: "blockingWrite dat s1 = Inr (r2, s2)"
      using assms False 1 by (auto simp: sendResponseRaw_def split: sum.splits)
    then obtain o2 w2 where s2: "s2 = s1\<lparr>sock_out := sock_out s1 @ o2, wr_script := w2\<rparr>"
      and r2: "r2 = 0 \<and> o2 = dat \<or> r2 = - 1 \<and> (\<exists>rest. rest \<noteq> [] \<and> dat = o2 @ rest)"
      using blockingWrite_sound by metis
    have o1: "o1 = htonl (length dat)" using True r1 by simp
    have s': "s' = s\<lparr>sock_out := sock_out s @ (o1 @ o2), wr_script := w2\<rparr>" "r = r2"
      using assms False True 1 2 r2 s1 s2 by (auto simp: sendResponseRaw_def)
    from r2 show ?thesis
    proof (elim disjE conjE exE)
      assume "r2 = 0" "o2 = dat"
      then show ?thesis using s' o1 False by (auto simp: frame_def)
    next
      fix rest
      assume "r2 = - 1" "rest \<noteq> []" "dat = o2 @ rest"
      then have "r = - 1 \<and> (\<exists>out rest ws. rest \<noteq> [] \<and> frame dat = out @ rest \<and>
          s' = s\<lparr>sock_out := sock_out s @ out, wr_script := ws\<rparr>)"
        using s' o1 by (intro conjI exI[of _ "o1 @ o2"] exI[of _ rest] exI[of _ w2]) (auto simp: frame_def)
      then show ?thesis by blast
    qed
  next
    case False
    with r1 obtain rest where "r1 = - 1" "rest \<noteq> []" "htonl (length dat) = o1 @ rest" by auto
    moreover have "r = - 1" "s' = s1"
      using assms 1 calculation \<open>\<not> (fdCommand s < 0 \<or> length dat > MAX_COMMAND_BYTES)\<close>
      by (auto simp: sendResponseRaw_def)
    ultimately have "r = - 1 \<and> (\<exists>out rest ws. rest \<noteq> [] \<and> frame dat = out @ rest \<and>
          s' = s\<lparr>sock_out := sock_out s @ out, wr_script := ws\<rparr>)"
      using s1 by (intro conjI exI[of _ o1] exI[of _ "rest @ dat"] exI[of _ w1]) (auto simp: frame_def)
    then show ?thesis by blast
  qed
qed

lemma sendResponseRaw_complete:
  assumes "0 \<le> fdCommand s" "length dat \<le> MAX_COMMAND_BYTES"
    "wr_script s = Wrote a # Wrote b # ws" "4 \<le> a" "length dat \<le> b" "dat \<noteq> []"
  shows "sendResponseRaw dat s = Inr (0, s\<lparr>sock_out := sock_out s @ frame dat, wr_script := ws\<rparr>)"
proof -
  obtain d ds where d: "dat = d # ds" using assms(6) by (cases dat) auto
  have 1: "blockingWrite (htonl (length dat)) s
      = Inr (0, s\<lparr>sock_out := sock_out s @ htonl (length dat), wr_script := Wrote b # ws\<rparr>)"
    using assms(3,4) by (simp add: blockingWrite_def htonl_def)
  have 2: "write_loop (Wrote b # ws) dat = Some (0, dat, ws)"
    using assms(5) d by simp
  show ?thesis using assms(1,2) 1 2
    by (simp add: sendResponseRaw_def frame_def) (simp add: blockingWrite_def)
qed

text \<open>Sending touches only the socket.\<close>

lemma sendResponseRaw_frame:
  assumes "sendResponseRaw dat s = Inr (r, s')"
  shows "\<exists>out ws. s' = s\<lparr>sock_out := sock_out s @ out, wr_script := ws\<rparr>"
proof -
  have "s = s\<lparr>sock_out := sock_out s @ [], wr_script := wr_script s\<rparr>" by simp
  with sendResponseRaw_sound[OF assms] show ?thesis by blast
qed

lemma sendResponse_frame:
  assumes "map_sum id snd (sendResponse E p s) = Inr s'"
  shows "\<exists>out ws. s' = s\<lparr>sock_out := sock_out s @ out, wr_script := ws\<rparr>"
proof -
  from assms obtain r where "sendResponseRaw (p_data E p) s = Inr (r, s')"
    by (cases "sendResponse E p s") (auto simp: sendResponse_def)
  then show ?thesis by (rule sendResponseRaw_frame)
qed

section \<open>The list of requests\<close>

definition req_inv :: "ril_state \<Rightarrow> bool" where
  "req_inv s \<longleftrightarrow> distinct (live s) \<and> 0 \<notin> set (live s)"

lemma foldr_max_upper: "x \<in> set xs \<Longrightarrow> x \<le> foldr max xs (k :: nat)" "k \<le> foldr max xs k"
  by (induction xs) auto

lemma malloc_fresh: "malloc s \<notin> set (live s)" "9 < malloc s"
  using foldr_max_upper(1)[of "malloc s" "live s" 9] foldr_max_upper(2)[of 9 "live s"]
  by (auto simp: malloc_def)

lemma fst_unlink: "distinct (map fst xs) \<Longrightarrow> fst ` set (unlink a xs) = fst ` set xs - {a}"
  by (induction a xs rule: unlink.induct) auto

lemma set_unlink: "set (unlink a xs) \<subseteq> set xs"
  by (induction a xs rule: unlink.induct) (auto split: if_splits)

lemma distinct_unlink: "distinct (map fst xs) \<Longrightarrow> distinct (map fst (unlink a xs))"
proof (induction xs)
  case (Cons x xs)
  then show ?case using set_unlink[of a xs] by (cases x) (auto simp: image_iff)
qed simp

lemma map_of_unlink: "distinct (map fst xs) \<Longrightarrow> map_of (unlink a xs) = (map_of xs)(a := None)"
proof (induction a xs rule: unlink.induct)
  case (2 a b r xs)
  then have "map_of xs b = None" by (simp add: map_of_eq_None_iff)
  then show ?case using 2 by (auto simp: fun_upd_idem fun_upd_twist)
qed simp

lemma dequeue:
  "a \<noteq> 0 \<Longrightarrow> map_of (s_pendingRequests s) a = Some r \<Longrightarrow>
    checkAndDequeueRequestInfo a s = (True, s\<lparr>s_pendingRequests := unlink a (s_pendingRequests s)\<rparr>)"
  by (auto simp: checkAndDequeueRequestInfo_def dest: map_of_SomeD) (metis fst_conv image_eqI map_of_SomeD)

lemma dequeue_unknown:
  "a = 0 \<or> map_of (s_pendingRequests s) a = None \<Longrightarrow> checkAndDequeueRequestInfo a s = (False, s)"
  by (auto simp: checkAndDequeueRequestInfo_def map_of_eq_None_iff)

lemma complete_unknown:
  "a = 0 \<or> map_of (s_pendingRequests s) a = None \<Longrightarrow> RIL_onRequestComplete E H a e r n s = Inr s"
  by (simp add: RIL_onRequestComplete_def dequeue_unknown)

lemma complete_known:
  assumes "a \<noteq> 0" "map_of (s_pendingRequests s) a = Some pRI"
  shows "RIL_onRequestComplete E H a e r n s =
    (let s1 = s\<lparr>s_pendingRequests := unlink a (s_pendingRequests s)\<rparr> in
     if ri_local pRI \<or> ri_cancelled pRI then Inr s1
     else case run_state (answer E H (cb_version s) pRI e r n) (p_new E) of
         (Inl f, _) \<Rightarrow> Inl f
       | (Inr _, p) \<Rightarrow> map_sum id snd (sendResponse E p s1))"
  using assms by (simp add: RIL_onRequestComplete_def dequeue)

text \<open>Whatever the result, a completion only takes the request off the list and writes to the socket.\<close>

lemma complete_effect:
  assumes "a \<noteq> 0" "map_of (s_pendingRequests s) a = Some pRI" "RIL_onRequestComplete E H a e r n s = Inr s'"
  shows "\<exists>out ws. s' = s\<lparr>s_pendingRequests := unlink a (s_pendingRequests s),
    sock_out := sock_out s @ out, wr_script := ws\<rparr> \<and> (ri_local pRI \<or> ri_cancelled pRI \<longrightarrow> out = [])"
proof (cases "ri_local pRI \<or> ri_cancelled pRI")
  case True
  then have "s' = s\<lparr>s_pendingRequests := unlink a (s_pendingRequests s)\<rparr>"
    using assms(3) complete_known[OF assms(1,2), of E H e r n] by (simp add: Let_def)
  then show ?thesis by (intro exI[of _ "[]"] exI[of _ "wr_script s"]) simp
next
  case False
  obtain x p where run: "run_state (answer E H (cb_version s) pRI e r n) (p_new E) = (x, p)" by fastforce
  with assms(3) complete_known[OF assms(1,2), of E H e r n] False
  have "map_sum id snd (sendResponse E p (s\<lparr>s_pendingRequests := unlink a (s_pendingRequests s)\<rparr>)) = Inr s'"
    by (cases x) (simp_all add: Let_def)
  from sendResponse_frame[OF this] show ?thesis using False by auto
qed

section \<open>A state to evaluate on\<close>

text \<open>A library that has just been registered and whose command socket is open and takes everything.\<close>

definition ril0 :: ril_state where
  "ril0 = ril_event_init \<lparr>ev_heap = (\<lambda>_. zero_event), watch_table = [], readFds = {}, nfds = 0,
     now = \<lparr>tv_sec = 4, tv_usec = 0\<rparr>, cb_version = 6, cb_getVersion = None, s_registerCalled = True,
     s_started = True, fdListen = 5, fdCommand = 6, s_pendingRequests = [], voiceRadioTech = - 1,
     cdmaSubscriptionSource = - 1, simRuimStatus = - 1, s_lastNITZTimeData = None,
     s_last_wake_timeout_info = 0, user_cbs = [], wake_lock = False, wakeup_pipe = 0,
     in_dispatch_thread = True, radioState = 10, elapsed = 0,
     wr_script = [Wrote 4, Wrote 64, Wrote 4, Wrote 64], sock_out = [], onRequests = [],
     timed_calls = [], ril_impl = None\<rparr>"

lemma ril0_sel [simp]:
  "s_pendingRequests ril0 = []" "user_cbs ril0 = []" "fdCommand ril0 = 6" "cb_version ril0 = 6"
  "wr_script ril0 = [Wrote 4, Wrote 64, Wrote 4, Wrote 64]" "sock_out ril0 = []" "onRequests ril0 = []"
  "s_registerCalled ril0" "radioState ril0 = 10" "s_lastNITZTimeData ril0 = None" "elapsed ril0 = 0"
  "s_last_wake_timeout_info ril0 = 0" "\<not> wake_lock ril0" "in_dispatch_thread ril0"
  by (simp_all add: ril0_def ril_event_init_def init_list_def Let_def)

section \<open>Answers\<close>

context ril_env
begin

lemma writes_run: "writes m x its \<Longrightarrow> R p b [] \<Longrightarrow> \<exists>p'. run_state m p = (x, p') \<and> R p' (b @ its) []"
  by (simp add: writes_def)

lemma answer_bytes:
  assumes "response = None \<and> rc = 0 \<and> its = [] \<or> response \<noteq> None \<and>
    writes (call_response E H version (responseFunction (ri_pCI pRI)) response n) (Inr rc) its"
  shows "\<exists>p. run_state (answer E H version pRI e response n) (p_new E) = (Inr (), p) \<and>
    p_data E p = enc ([I32 RESPONSE_SOLICITED, I32 (ri_token pRI), I32 (if rc = 0 then e else rc)] @ its)"
proof -
  let ?b = "[I32 RESPONSE_SOLICITED, I32 (ri_token pRI)]"
  obtain p1 where p1: "run_state (p_writeInt32 E RESPONSE_SOLICITED) (p_new E) = ((), p1)"
    "R p1 [I32 RESPONSE_SOLICITED] []" using writeInt32_R[OF new_R] by auto
  obtain p2 where p2: "run_state (p_writeInt32 E (ri_token pRI)) p1 = ((), p2)" "R p2 ?b []"
    using writeInt32_R[OF p1(2)] by auto
  obtain p3 where p3: "run_state (p_writeInt32 E e) p2 = ((), p3)" "R p3 (?b @ [I32 e]) []"
    using writeInt32_R[OF p2(2)] by auto
  have off: "p_dataPosition E p2 = length (enc ?b)" by (rule dataPosition_enc[OF p2(2)])
  show ?thesis
  proof (cases "response = None")
    case True
    then show ?thesis using assms p1(1) p2(1) p3 data_enc[OF p3(2)] by (simp add: answer_def Let_def)
  next
    case False
    then obtain d where resp: "response = Some d" by auto
    with assms have w: "writes (call_response E H version (responseFunction (ri_pCI pRI)) response n) (Inr rc) its"
      by blast
    obtain p4 where p4: "run_state (call_response E H version (responseFunction (ri_pCI pRI)) response n) p3
        = (Inr rc, p4)" "R p4 ((?b @ [I32 e]) @ its) []" using writes_run[OF w p3(2)] by blast
    show ?thesis
    proof (cases "rc = 0")
      case True
      then show ?thesis using resp p1(1) p2(1) p3(1) p4 data_enc[OF p4(2)]
        by (simp add: answer_def Let_def)
    next
      case rc: False
      have "R (p_setDataPosition E (length (enc ?b)) p4) ?b (I32 e # its)"
        using p4(2) by (rule setDataPosition_R) simp
      then obtain p5 where p5: "run_state (p_writeInt32 E rc) (p_setDataPosition E (length (enc ?b)) p4)
          = ((), p5)" "R p5 (?b @ [I32 rc]) its" using writeInt32_over by blast
      then show ?thesis using resp rc p1(1) p2(1) p3(1) p4(1) data_enc[OF p5(2)]
        by (simp add: answer_def Let_def off)
    qed
  qed
qed

end

text \<open>
  C7 Completing a request: the first completion of a pending request takes it off the list and sends one
  frame with its token, the error code and the marshalled payload; when the payload cannot be
  marshalled the error code in the frame is replaced by that of the response function.
\<close>

theorem request_answered:
  assumes "ril_env E R enc" "a \<noteq> 0" "map_of (s_pendingRequests s) a = Some pRI"
    and "\<not> ri_local pRI" "\<not> ri_cancelled pRI"
    and "response = None \<and> rc = 0 \<and> its = [] \<or> response \<noteq> None \<and>
      parcel_api.writes R (call_response E H (cb_version s) (responseFunction (ri_pCI pRI)) response n) (Inr rc) its"
  shows "RIL_onRequestComplete E H a e response n s =
    map_sum id snd (sendResponseRaw
      (enc ([I32 RESPONSE_SOLICITED, I32 (ri_token pRI), I32 (if rc = 0 then e else rc)] @ its))
      (s\<lparr>s_pendingRequests := unlink a (s_pendingRequests s)\<rparr>))"
proof -
  obtain p where "run_state (answer E H (cb_version s) pRI e response n) (p_new E) = (Inr (), p)"
    "p_data E p = enc ([I32 RESPONSE_SOLICITED, I32 (ri_token pRI), I32 (if rc = 0 then e else rc)] @ its)"
    using ril_env.answer_bytes[OF assms(1,6)] by blast
  then show ?thesis using complete_known[OF assms(2,3), of E H e response n] assms(4,5)
    by (simp add: Let_def sendResponse_def)
qed

theorem request_answered_witness:
  "RIL_onRequestComplete flat_parcel ref_h 10 0 (Some (Ints [3])) 4
     (enqueue 10 (pri0\<lparr>ri_pCI := \<lparr>requestNumber = 1, dispatchFunction = D_Void, responseFunction = R_Ints\<rparr>\<rparr>) ril0)
   = map_sum id snd (sendResponseRaw (enc_items [I32 0, I32 7, I32 0, I32 1, I32 3])
       (ril0\<lparr>s_pendingRequests := []\<rparr>))"
proof -
  let ?pRI = "pri0\<lparr>ri_pCI := \<lparr>requestNumber = 1, dispatchFunction = D_Void, responseFunction = R_Ints\<rparr>\<rparr>"
  let ?s = "enqueue 10 ?pRI ril0"
  have "flat.writes (call_response flat_parcel ref_h (cb_version ?s) (responseFunction (ri_pCI ?pRI))
      (Some (Ints [3])) 4) (Inr 0) [I32 1, I32 3]"
    using flat.writes_responseInts[of "[3]"] by (simp add: call_response_def with_cast_def cast_def sizeof_int_def)
  then show ?thesis
    using request_answered[OF flat.ril_env_axioms, of 10 ?s ?pRI "Some (Ints [3])" 0 "[I32 1, I32 3]" ref_h 4 0]
    by (simp add: enqueue_def pri0_def RESPONSE_SOLICITED_def)
qed

text \<open>A sequence of completions by the vendor library, each with its token, error code and response.\<close>

fun complete_all ::
  "'p ext \<Rightarrow> ril_h \<Rightarrow> (addr \<times> i32 \<times> cdata option \<times> nat) list \<Rightarrow> ril_state \<Rightarrow> ril_state result" where
  "complete_all E H [] s = Inr s"
| "complete_all E H ((a, e, response, n) # cs) s =
     (case RIL_onRequestComplete E H a e response n s of Inl f \<Rightarrow> Inl f | Inr s' \<Rightarrow> complete_all E H cs s')"

text \<open>A completion puts nothing on the list of pending requests.\<close>

lemma complete_shrinks:
  assumes "RIL_onRequestComplete E H b e response n s = Inr s'"
  shows "fst ` set (s_pendingRequests s') \<subseteq> fst ` set (s_pendingRequests s)"
proof (cases "b = 0 \<or> map_of (s_pendingRequests s) b = None")
  case True
  then show ?thesis using assms complete_unknown[OF True, of E H e response n] by simp
next
  case False
  then obtain pRI where p: "b \<noteq> 0" "map_of (s_pendingRequests s) b = Some pRI" by auto
  then show ?thesis using complete_effect[OF p assms] set_unlink[of b "s_pendingRequests s"] by auto
qed

lemma gone_ignored:
  "a \<notin> fst ` set (s_pendingRequests s) \<Longrightarrow> complete_all E H cs s = complete_all E H (filter (\<lambda>c. fst c \<noteq> a) cs) s"
proof (induction cs arbitrary: s)
  case (Cons c cs)
  obtain b e response n where c: "c = (b, e, response, n)" by (cases c)
  show ?case
  proof (cases "b = a")
    case True
    then have "map_of (s_pendingRequests s) b = None" using Cons.prems by (simp add: map_of_eq_None_iff)
    then show ?thesis using Cons complete_unknown[of b s E H e response n] True c by simp
  next
    case False
    have "a \<notin> fst ` set (s_pendingRequests s1)" if "RIL_onRequestComplete E H b e response n s = Inr s1" for s1
      using complete_shrinks[OF that] Cons.prems by blast
    then show ?thesis using Cons.IH False c by (auto split: sum.splits)
  qed
qed simp

text \<open>
  C8 At most one answer: once a request has been completed, the completions that follow have the effect
  they would have without those of this request, whatever results they bring and
  however they are mixed with completions of other requests; and the request is off the list. This
  lasts until a new request is put on the list at the same address.
\<close>

theorem completed_once:
  assumes "req_inv s" "RIL_onRequestComplete E H a e response n s = Inr s'"
  shows "a \<notin> fst ` set (s_pendingRequests s') \<and> complete_all E H cs s' = complete_all E H (filter (\<lambda>c. fst c \<noteq> a) cs) s'"
proof (cases "a = 0 \<or> map_of (s_pendingRequests s) a = None")
  case True
  have "s' = s" using assms(2) complete_unknown[OF True, of E H e response n] by simp
  moreover have "0 \<notin> fst ` set (s_pendingRequests s)" using assms(1) by (simp add: req_inv_def live_def)
  then have "a \<notin> fst ` set (s_pendingRequests s)"
    using True by (elim disjE) (simp_all add: map_of_eq_None_iff)
  ultimately show ?thesis using gone_ignored by blast
next
  case False
  then obtain pRI where p: "a \<noteq> 0" "map_of (s_pendingRequests s) a = Some pRI" by auto
  obtain out ws where s': "s' = s\<lparr>s_pendingRequests := unlink a (s_pendingRequests s),
      sock_out := sock_out s @ out, wr_script := ws\<rparr>" using complete_effect[OF p assms(2)] by blast
  have "distinct (map fst (s_pendingRequests s))" using assms(1) by (simp add: req_inv_def live_def)
  then have gone: "a \<notin> fst ` set (s_pendingRequests s')" unfolding s' by (simp add: fst_unlink)
  then show ?thesis using gone_ignored by blast
qed

theorem completed_once_witness:
  "\<exists>s'. RIL_onRequestComplete flat_parcel ref_h 10 2 None 0 (enqueue 10 pri0 ril0) = Inr s' \<and>
     complete_all flat_parcel ref_h [(10, 0, None, 0), (10, 1, None, 0)] s' = Inr s'"
proof -
  let ?s = "enqueue 10 pri0 ril0"
  have inv: "req_inv ?s" by (simp add: req_inv_def live_def enqueue_def)
  have "RIL_onRequestComplete flat_parcel ref_h 10 2 None 0 ?s
    = Inr (ril0\<lparr>s_pendingRequests := [], sock_out := frame (enc_items [I32 0, I32 7, I32 2]),
        wr_script := [Wrote 4, Wrote 64]\<rparr>)"
  proof -
    obtain p where p: "run_state (answer flat_parcel ref_h 6 pri0 2 None 0) (p_new flat_parcel) = (Inr (), p)"
      "p_data flat_parcel p = enc_items [I32 0, I32 7, I32 2]"
      using flat.answer_bytes[of None 0 "[]" ref_h 6 pri0 0 2] by (auto simp: RESPONSE_SOLICITED_def pri0_def)
    have "length (enc_items [I32 0, I32 7, I32 2]) = 12" "enc_items [I32 0, I32 7, I32 2] \<noteq> []"
      by (simp_all add: enc_items_def enc32_def)
    then show ?thesis
      using complete_known[of 10 ?s pri0 flat_parcel ref_h 2 None 0] p
        sendResponseRaw_complete[of "?s\<lparr>s_pendingRequests := []\<rparr>" "enc_items [I32 0, I32 7, I32 2]" 4 64]
      by (simp add: enqueue_def Let_def sendResponse_def pri0_def MAX_COMMAND_BYTES_def)
  qed
  then show ?thesis using completed_once[OF inv, of flat_parcel ref_h 10 2 None 0 _ "[(10, 0, None, 0), (10, 1, None, 0)]"]
    by simp
qed

end
