(* ===== verification/Ril_Lifecycle.thy ===== *)
theory Ril_Lifecycle
  imports Ril_Core_Props
begin

text \<open>
  From the command socket to the vendor library and back: frames on the socket, the life of a request,
  requests the library refuses, answers or drops itself, and the loss of the connection.
\<close>

section \<open>Frames on the socket\<close>

lemma frames_prefix:
  assumes "frame dat = out @ rest" "rest \<noteq> []" "length dat < 2 ^ 32"
  shows "frames out = []"
proof (cases "length out < 4")
  case False
  then have "take 4 out = htonl (length dat)"
    using arg_cong[OF assms(1), of "take 4"] by (simp add: frame_def)
  moreover have "length out + length rest = 4 + length dat"
    using arg_cong[OF assms(1), of length] by (simp add: frame_def)
  moreover obtain b bs where "rest = b # bs" using assms(2) by (cases rest) auto
  ultimately show ?thesis using assms(3) by (simp add: frames.simps[of out] ntohl_htonl)
qed (simp add: frames.simps[of out])

lemma max_bytes_small: "length dat \<le> MAX_COMMAND_BYTES \<Longrightarrow> length dat < 2 ^ 32"
  by (simp add: MAX_COMMAND_BYTES_def)

text \<open>
  C9 Framing: on a socket that has carried whole frames so far, a message that is sent arrives as one
  more frame with exactly its bytes; a message that is not sent (no connection, too long, or an
  error of \<open>write\<close>) never shows up as a frame, and without a connection nothing is written.
\<close>

theorem sends_framed:
  assumes "framed (sock_out s)" "sendResponseRaw dat s = Inr (r, s')"
  shows "(r = 0 \<and> framed (sock_out s') \<and> frames (sock_out s') = frames (sock_out s) @ [dat]) \<or>
    (r = - 1 \<and> frames (sock_out s') = frames (sock_out s) \<and>
     (fdCommand s < 0 \<or> length dat > MAX_COMMAND_BYTES \<longrightarrow> s' = s))"
  using sendResponseRaw_sound[OF assms(2)]
proof (elim disjE conjE exE)
  fix ws
  assume 1: "r = 0" "length dat \<le> MAX_COMMAND_BYTES"
    "s' = s\<lparr>sock_out := sock_out s @ frame dat, wr_script := ws\<rparr>"
  then have "frames (sock_out s') = frames (sock_out s) @ [dat]"
    using assms(1) frames_frame[OF max_bytes_small, of dat "[]"] by (simp add: framed_def)
  then show ?thesis using 1 assms(1) framed_frame[OF _ max_bytes_small] by simp
next
  fix out rest ws
  assume 1: "r = - 1" "rest \<noteq> []" "frame dat = out @ rest"
    "s' = s\<lparr>sock_out := sock_out s @ out, wr_script := ws\<rparr>"
  show ?thesis
  proof (cases "fdCommand s < 0 \<or> length dat > MAX_COMMAND_BYTES")
    case True
    then have "sendResponseRaw dat s = Inr (- 1, s)" by (auto simp: sendResponseRaw_def)
    then have "s' = s" using assms(2) by simp
    then show ?thesis using 1(1) by simp
  next
    case False
    then have "frames out = []" using frames_prefix[OF 1(3,2) max_bytes_small] by simp
    then show ?thesis using 1 assms(1) False by (simp add: framed_def)
  qed
qed simp_all

theorem sends_framed_witness:
  "\<exists>s'. sendResponseRaw [1, 2, 3] ril0 = Inr (0, s') \<and> frames (sock_out s') = [[1, 2, 3]]"
proof -
  have "sendResponseRaw [1, 2, 3] ril0
      = Inr (0, ril0\<lparr>sock_out := frame [1, 2, 3], wr_script := [Wrote 4, Wrote 64]\<rparr>)"
    using sendResponseRaw_complete[of ril0 "[1, 2, 3]" 4 64] by (simp add: MAX_COMMAND_BYTES_def)
  then show ?thesis using sends_framed[of ril0 "[1, 2, 3]" 0] by fastforce
qed

text \<open>
  C10 Writing returns: whatever pieces \<open>write\<close> takes, and however often it is interrupted or would
  block, \<open>blockingWrite\<close> returns with all bytes written, in order, as soon as \<open>write\<close> has taken as many
  bytes as there are; it gives up only on a real error.
\<close>

theorem blocking_write_completes:
  assumes "WError \<notin> set (wr_script s)" "length buf \<le> taken (wr_script s)"
  shows "\<exists>ws. blockingWrite buf s = Inr (0, s\<lparr>sock_out := sock_out s @ buf, wr_script := ws\<rparr>)"
  using write_loop_complete[OF assms] by (auto simp: blockingWrite_def)

theorem blocking_write_completes_witness:
  "\<exists>ws. blockingWrite [1, 2, 3] (ril0\<lparr>wr_script := [WEAGAIN, Wrote 1, Wrote 0, WEINTR, Wrote 2]\<rparr>)
     = Inr (0, ril0\<lparr>sock_out := [1, 2, 3], wr_script := ws\<rparr>)"
  using blocking_write_completes[of "ril0\<lparr>wr_script := [WEAGAIN, Wrote 1, Wrote 0, WEINTR, Wrote 2]\<rparr>" "[1, 2, 3]"]
  by simp

section \<open>The life of a request\<close>

lemma run_free: "run_actions E H a (map FreeString cs) s = Inr s"
  by (induction cs) auto

lemma run_vendor_call:
  "run_actions E H a (OnRequest r d n # map FreeString cs) s = Inr (s\<lparr>onRequests := onRequests s @ [(r, d, n, a)]\<rparr>)"
  by (simp add: run_free)

definition new_request :: "ril_h \<Rightarrow> i32 \<Rightarrow> i32 \<Rightarrow> RequestInfo" where
  "new_request H request token = \<lparr>ri_token = token, ri_pCI = s_commands H ! nat (sint request),
     ri_cancelled = False, ri_local = False\<rparr>"

context ril_env
begin

lemma read_head:
  obtains p1 p2 where "run_state (p_readInt32 E) (p_setData E (enc (I32 request # I32 token # its)))
      = ((NO_ERROR, request), p1)"
    "run_state (p_readInt32 E) p1 = ((NO_ERROR, token), p2)" "R p2 [I32 request, I32 token] its"
proof -
  obtain p1 where 1: "run_state (p_readInt32 E) (p_setData E (enc (I32 request # I32 token # its)))
      = ((NO_ERROR, request), p1)" "R p1 [I32 request] (I32 token # its)"
    using readInt32_R[OF setData_R] by fastforce
  obtain p2 where "run_state (p_readInt32 E) p1 = ((NO_ERROR, token), p2)"
    "R p2 [I32 request, I32 token] its" using readInt32_R[OF 1(2)] by auto
  with 1(1) show thesis by (rule that)
qed

lemma process_dispatch:
  assumes "\<not> unsupported H request"
    "reads (call_dispatch E H (cb_version s) (radioState s)
       (dispatchFunction (s_commands H ! nat (sint request))) (new_request H request token)) (Inr acts) its"
  shows "processCommandBuffer E H (enc (I32 request # I32 token # its @ rest)) s
    = run_actions E H (malloc s) acts (enqueue (malloc s) (new_request H request token) s)"
proof -
  obtain p1 p2 where p: "run_state (p_readInt32 E) (p_setData E (enc (I32 request # I32 token # its @ rest)))
      = ((NO_ERROR, request), p1)"
    "run_state (p_readInt32 E) p1 = ((NO_ERROR, token), p2)" "R p2 [I32 request, I32 token] (its @ rest)"
    by (rule read_head)
  from p(3) have "fst (run_state (call_dispatch E H (cb_version s) (radioState s)
      (dispatchFunction (s_commands H ! nat (sint request))) (new_request H request token)) p2) = Inr acts"
    using assms(2) unfolding reads_def by (metis fst_conv)
  then show ?thesis using assms(1) p(1,2)
    by (simp add: processCommandBuffer_def Let_def new_request_def)
qed

lemma process_unsupported:
  assumes "unsupported H request"
  shows "processCommandBuffer E H (enc (I32 request # I32 token # its)) s
    = map_sum id snd (sendResponseRaw (enc [I32 RESPONSE_SOLICITED, I32 token,
        I32 (hword H ''RIL_E_GENERIC_FAILURE'')]) s)"
proof -
  obtain p1 p2 where p: "run_state (p_readInt32 E) (p_setData E (enc (I32 request # I32 token # its)))
      = ((NO_ERROR, request), p1)"
    "run_state (p_readInt32 E) p1 = ((NO_ERROR, token), p2)" "R p2 [I32 request, I32 token] its"
    by (rule read_head)
  let ?m = "do { p_writeInt32 E RESPONSE_SOLICITED; p_writeInt32 E token;
      p_writeInt32 E (hword H ''RIL_E_GENERIC_FAILURE'') }"
  have "writes ?m () [I32 RESPONSE_SOLICITED, I32 token, I32 (hword H ''RIL_E_GENERIC_FAILURE'')]"
    by (intro writes_intros)
  from sent_writes[OF this] show ?thesis using assms p(1,2)
    by (simp add: processCommandBuffer_def Let_def sendResponse_def sent_def)
qed

end

text \<open>
  C1 The life of a request: a supported request that its dispatch function accepts is put on the list
  under an address no other request has and handed to the vendor library once, with nothing
  written to the socket. When the vendor library completes that address, the answer carries the token of
  the request and the marshalled payload, and the list is as it was before.
\<close>

theorem request_lifecycle:
  assumes "ril_env E R enc" "\<not> unsupported H request"
    and "parcel_api.reads R (call_dispatch E H (cb_version s) (radioState s)
          (dispatchFunction (s_commands H ! nat (sint request))) (new_request H request token))
          (Inr (OnRequest r d n # map FreeString cs)) its"
    and "response = None \<and> rc = 0 \<and> out = [] \<or> response \<noteq> None \<and>
      parcel_api.writes R (call_response E H (cb_version s)
        (responseFunction (s_commands H ! nat (sint request))) response len) (Inr rc) out"
  shows "\<exists>s1. processCommandBuffer E H (enc (I32 request # I32 token # its @ rest)) s = Inr s1 \<and>
    malloc s \<notin> fst ` set (s_pendingRequests s) \<and>
    s1 = s\<lparr>s_pendingRequests := (malloc s, new_request H request token) # s_pendingRequests s,
           onRequests := onRequests s @ [(r, d, n, malloc s)]\<rparr> \<and>
    RIL_onRequestComplete E H (malloc s) e response len s1 =
      map_sum id snd (sendResponseRaw
        (enc ([I32 RESPONSE_SOLICITED, I32 token, I32 (if rc = 0 then e else rc)] @ out))
        (s1\<lparr>s_pendingRequests := s_pendingRequests s\<rparr>))"
proof -
  let ?a = "malloc s" and ?pRI = "new_request H request token"
  let ?s1 = "s\<lparr>s_pendingRequests := (?a, ?pRI) # s_pendingRequests s,
      onRequests := onRequests s @ [(r, d, n, ?a)]\<rparr>"
  have "processCommandBuffer E H (enc (I32 request # I32 token # its @ rest)) s = Inr ?s1"
    using ril_env.process_dispatch[OF assms(1-3)] by (simp add: run_vendor_call[unfolded run_actions.simps] run_free enqueue_def)
  moreover have "?a \<noteq> 0" using malloc_fresh(2)[of s] by simp
  from ril_env.answer_bytes[OF assms(1), of response rc out H "cb_version s" ?pRI len e]
  obtain p where "run_state (answer E H (cb_version s) ?pRI e response len) (p_new E) = (Inr (), p)"
    "p_data E p = enc ([I32 RESPONSE_SOLICITED, I32 token, I32 (if rc = 0 then e else rc)] @ out)"
    using assms(4) by (auto simp: new_request_def)
  then have "RIL_onRequestComplete E H ?a e response len ?s1 =
      map_sum id snd (sendResponseRaw
        (enc ([I32 RESPONSE_SOLICITED, I32 token, I32 (if rc = 0 then e else rc)] @ out))
        (?s1\<lparr>s_pendingRequests := s_pendingRequests s\<rparr>))"
    using complete_known[OF \<open>?a \<noteq> 0\<close>, of ?s1 ?pRI E H e response len]
    by (simp add: Let_def sendResponse_def new_request_def)
  ultimately show ?thesis using malloc_fresh(1)[of s] by (intro exI[of _ ?s1]) (auto simp: live_def)
qed

lemma s_commands_v3:
  "length (s_commands H) = 114"
  "s_commands H ! 104 = ci RIL_REQUEST_CDMA_GET_SUBSCRIPTION_SOURCE_V3 D_CdmaSubscriptionSource R_Ints"
  "s_commands H ! 105 = ci 0 D_Void R_Void" "s_commands H ! 106 = ci 0 D_Void R_Void"
  "s_commands H ! 107 = ci 0 D_Void R_Void"
  "s_commands H ! 108 = ci RIL_REQUEST_VOICE_RADIO_TECH_V3 D_VoiceRadioTech R_Ints"
  "s_commands H ! 109 = ci 0 D_Void R_Void" "s_commands H ! 110 = ci 0 D_Void R_Void"
  "s_commands H ! 111 = ci 0 D_Void R_Void" "s_commands H ! 112 = ci 0 D_Void R_Ints"
  "s_commands H ! 113 = ci RIL_REQUEST_IMS_SEND_SMS_V3 D_ImsSms R_SMS"
  by (simp_all add: s_commands_def)

lemma v3_codes_supported: "\<not> unsupported H 104" "\<not> unsupported H 108" "\<not> unsupported H 113"
  by (simp_all add: unsupported_def s_commands_v3 v3_codes)

theorem request_lifecycle_witness:
  "\<exists>s1. processCommandBuffer flat_parcel ref_h (enc_items [I32 108, I32 9]) ril0 = Inr s1 \<and>
     onRequests s1 = [(104, NullData, 0, 10)] \<and>
     RIL_onRequestComplete flat_parcel ref_h 10 0 (Some (Ints [3])) 4 s1 =
       map_sum id snd (sendResponseRaw (enc_items [I32 0, I32 9, I32 0, I32 1, I32 3])
         (s1\<lparr>s_pendingRequests := []\<rparr>))"
proof -
  have m: "malloc ril0 = 10" by (simp add: malloc_def live_def)
  have sup: "\<not> unsupported ref_h 108" by (rule v3_codes_supported)
  let ?pRI = "new_request ref_h 108 9"
  have d: "flat.reads (call_dispatch flat_parcel ref_h (cb_version ril0) (radioState ril0)
      (dispatchFunction (s_commands ref_h ! nat (sint (108 :: i32)))) ?pRI)
      (Inr (OnRequest 104 NullData 0 # map FreeString [])) []"
    by (simp add: s_commands_v3 dispatchVoiceRadioTech_def dispatchVoid_def radio_down_answer_def
        new_request_def v3_codes flat.reads_ret)
  have w: "flat.writes (call_response flat_parcel ref_h (cb_version ril0)
      (responseFunction (s_commands ref_h ! nat (sint (108 :: i32)))) (Some (Ints [3])) 4) (Inr 0) [I32 1, I32 3]"
    using flat.writes_responseInts[of "[3]"]
    by (simp add: s_commands_v3 call_response_def with_cast_def cast_def sizeof_int_def)
  from request_lifecycle[OF flat.ril_env_axioms sup d, of "Some (Ints [3])" 0 "[I32 1, I32 3]" 4 "[]" 0] w
  show ?thesis by (auto simp: m RESPONSE_SOLICITED_def)
qed

section \<open>Requests the library answers itself\<close>

text \<open>
  Unsupported requests: a request with a code outside the table, or with an entry that is stubbed
  out, is answered at once with a generic failure under its own token; it is neither put on the list
  nor shown to the vendor library.
\<close>

theorem unsupported_request:
  assumes "ril_env E R enc" "unsupported H request"
  shows "processCommandBuffer E H (enc (I32 request # I32 token # its)) s
    = map_sum id snd (sendResponseRaw (enc [I32 RESPONSE_SOLICITED, I32 token,
        I32 (hword H ''RIL_E_GENERIC_FAILURE'')]) s)"
  by (rule ril_env.process_unsupported[OF assms])

theorem unsupported_request_witness:
  "processCommandBuffer flat_parcel ref_h (enc_items [I32 500, I32 9]) ril0
   = map_sum id snd (sendResponseRaw (enc_items [I32 0, I32 9, I32 2]) ril0)"
  using unsupported_request[OF flat.ril_env_axioms, of ref_h 500 9 "[]" ril0]
  by (simp add: unsupported_def s_commands_v3 RESPONSE_SOLICITED_def)

text \<open>
  The translated requests: of the requests that were added after the old interface, exactly three are
  supported, and the vendor library gets them under the codes of the old interface; the index of an
  entry is therefore not its request number, as the comment at \<open>s_commands\<close> says and the self-check of
  \<open>RIL_register\<close> asserts.
\<close>

theorem v3_requests_translated:
  "{request. 104 \<le> sint request \<and> \<not> unsupported H request} = {104, 108, 113} \<and>
   map (\<lambda>i. requestNumber (s_commands H ! i)) [104, 108, 113] = [105, 104, 108]"
proof -
  have "request \<in> {104, 108, 113}" if r: "104 \<le> sint request" "\<not> unsupported H request" for request :: i32
  proof -
    have "sint request < 114" using r by (auto simp: unsupported_def s_commands_v3)
    with r(1) have "sint request \<in> {104..113}" by simp
    then have "sint request \<in> {104, 105, 106, 107, 108, 109, 110, 111, 112, 113}"
      unfolding atLeastAtMost_iff insert_iff empty_iff by presburger
    then have "sint request \<in> {104, 108, 113}"
      using r(2) by (elim insertE) (simp_all add: unsupported_def s_commands_v3)
    then have "word_of_int (sint request) \<in> (word_of_int ` {104, 108, 113} :: i32 set)" by blast
    then show ?thesis by simp
  qed
  then show ?thesis using v3_codes_supported by (auto simp: s_commands_v3 v3_codes)
qed

section \<open>The radio is off\<close>

context ril_env
begin

lemma answered_itself:
  assumes "map_of (s_pendingRequests s) a = None" "a \<noteq> 0" "ri_token pRI = token"
    "\<not> ri_local pRI" "\<not> ri_cancelled pRI"
  shows "RIL_onRequestComplete E H a e None 0 (enqueue a pRI s)
    = map_sum id snd (sendResponseRaw (enc [I32 RESPONSE_SOLICITED, I32 token, I32 e]) s)"
proof -
  obtain p where "run_state (answer E H (cb_version s) pRI e None 0) (p_new E) = (Inr (), p)"
    "p_data E p = enc [I32 RESPONSE_SOLICITED, I32 token, I32 e]"
    using answer_bytes[of None 0 "[]" H "cb_version s" pRI 0 e] assms(3) by auto
  then show ?thesis using complete_known[of a "enqueue a pRI s" pRI E H e None 0] assms
    by (simp add: enqueue_def Let_def sendResponse_def)
qed

end

text \<open>
  The dispatch functions for the voice technology and the subscription source complete the request as
  not available and do not return; the second completion finds the request gone.
\<close>

lemma run_radio_off:
  assumes "ril_env E R enc" "a = malloc s" "ri_token pRI = token" "\<not> ri_local pRI" "\<not> ri_cancelled pRI"
    "\<And>s. run_action E H a x s = Inr (f s)"
    "\<And>s out ws. f (s\<lparr>sock_out := out, wr_script := ws\<rparr>) = (f s)\<lparr>sock_out := out, wr_script := ws\<rparr>"
    "s_pendingRequests (f s) = s_pendingRequests s"
  shows "run_actions E H a [RequestComplete e OwnNull, x, decoded_answer H v] (enqueue a pRI s)
    = map_sum id (\<lambda>(_, s'). f s')
        (sendResponseRaw (enc [I32 RESPONSE_SOLICITED, I32 token, I32 e]) s)"
proof -
  have free: "map_of (s_pendingRequests s) a = None" "a \<noteq> 0"
    using malloc_fresh[of s] assms(2) by (auto simp: live_def map_of_eq_None_iff)
  have gone: "run_action E H a (decoded_answer H v) (f s') = Inr (f s')"
    if r: "sendResponseRaw dat s = Inr (r, s')" for dat r s'
  proof -
    obtain out ws where "s' = s\<lparr>sock_out := sock_out s @ out, wr_script := ws\<rparr>"
      using sendResponseRaw_frame[OF r] by blast
    then have "map_of (s_pendingRequests (f s')) a = None" using free assms(7,8) by simp
    then show ?thesis using complete_unknown[of a "f s'" E H] by (simp add: decoded_answer_def)
  qed
  show ?thesis
    using ril_env.answered_itself[OF assms(1) free assms(3-5), of H e] assms(6) gone
    by (cases "sendResponseRaw (enc [I32 RESPONSE_SOLICITED, I32 token, I32 e]) s") auto
qed

text \<open>
  The radio is off: a request for the voice technology or the subscription source while the radio is
  off or unavailable is answered exactly once, as not available, although the code completes the
  request twice; the vendor library is not asked.
\<close>

theorem radio_off_answered_once:
  assumes "ril_env E R enc"
    and "radioState s = hword H ''RADIO_STATE_UNAVAILABLE'' \<or> radioState s = hword H ''RADIO_STATE_OFF''"
    and "radioState s \<noteq> hword H ''RADIO_STATE_ON''"
  shows "processCommandBuffer E H (enc (I32 108 # I32 token # its)) s =
      map_sum id (\<lambda>(_, s'). s'\<lparr>voiceRadioTech := decodeVoiceRadioTechnology H (radioState s)\<rparr>)
        (sendResponseRaw (enc [I32 RESPONSE_SOLICITED, I32 token,
           I32 (hword H ''RIL_E_RADIO_NOT_AVAILABLE'')]) s) \<and>
    processCommandBuffer E H (enc (I32 104 # I32 token # its)) s =
      map_sum id (\<lambda>(_, s'). s'\<lparr>cdmaSubscriptionSource := decodeCdmaSubscriptionSource H (radioState s)\<rparr>)
        (sendResponseRaw (enc [I32 RESPONSE_SOLICITED, I32 token,
           I32 (hword H ''RIL_E_RADIO_NOT_AVAILABLE'')]) s)"
proof (intro conjI)
  let ?na = "hword H ''RIL_E_RADIO_NOT_AVAILABLE''" and ?d = "\<lambda>i. call_dispatch E H (cb_version s) (radioState s)
      (dispatchFunction (s_commands H ! nat (sint (i :: i32)))) (new_request H i token)"
  let ?v = "decodeVoiceRadioTechnology H (radioState s)" and ?c = "decodeCdmaSubscriptionSource H (radioState s)"
  have "parcel_api.reads R (?d 108) (Inr [RequestComplete ?na OwnNull, SetVoiceRadioTech ?v, decoded_answer H ?v]) []"
    "parcel_api.reads R (?d 104) (Inr [RequestComplete ?na OwnNull, SetCdmaSubscriptionSource ?c, decoded_answer H ?c]) []"
    using assms(2,3) ril_env.axioms(1)[OF assms(1)]
    by (simp_all add: s_commands_v3 dispatchVoiceRadioTech_def dispatchCdmaSubscriptionSource_def
        radio_down_answer_def Let_def parcel_api.reads_ret)
  note d = ril_env.process_dispatch[OF assms(1) v3_codes_supported(2) this(1), where rest = its]
    ril_env.process_dispatch[OF assms(1) v3_codes_supported(1) this(2), where rest = its]
  show "processCommandBuffer E H (enc (I32 108 # I32 token # its)) s =
      map_sum id (\<lambda>(_, s'). s'\<lparr>voiceRadioTech := ?v\<rparr>)
        (sendResponseRaw (enc [I32 RESPONSE_SOLICITED, I32 token, I32 ?na]) s)"
    unfolding d(1)[unfolded append_Nil]
    by (rule run_radio_off[OF assms(1)]) (simp_all add: new_request_def)
  show "processCommandBuffer E H (enc (I32 104 # I32 token # its)) s =
      map_sum id (\<lambda>(_, s'). s'\<lparr>cdmaSubscriptionSource := ?c\<rparr>)
        (sendResponseRaw (enc [I32 RESPONSE_SOLICITED, I32 token, I32 ?na]) s)"
    unfolding d(2)[unfolded append_Nil]
    by (rule run_radio_off[OF assms(1)]) (simp_all add: new_request_def)
qed

theorem radio_off_answered_once_witness:
  "map_sum id frames (map_sum id sock_out (processCommandBuffer flat_parcel ref_h
     (enc_items [I32 108, I32 9]) (ril0\<lparr>radioState := 1\<rparr>))) = Inr [enc_items [I32 0, I32 9, I32 1]]"
proof -
  let ?s = "ril0\<lparr>radioState := 1\<rparr>" and ?d = "enc_items [I32 0, I32 9, I32 1]"
  have len: "length ?d = 12" "?d \<noteq> []" by (simp_all add: enc_items_def enc32_def)
  then have "sendResponseRaw ?d ?s = Inr (0, ?s\<lparr>sock_out := frame ?d, wr_script := [Wrote 4, Wrote 64]\<rparr>)"
    using sendResponseRaw_complete[of ?s ?d 4 64] by (simp add: MAX_COMMAND_BYTES_def)
  then show ?thesis
    using radio_off_answered_once[OF flat.ril_env_axioms, of ?s ref_h 9 "[]"] frames_frame[of ?d "[]"] len
    by (simp add: RESPONSE_SOLICITED_def)
qed

section \<open>A lost connection\<close>

text \<open>Completions by the vendor library, one after the other.\<close>

fun completions ::
  "'p ext \<Rightarrow> ril_h \<Rightarrow> (addr \<times> i32 \<times> cdata option \<times> nat) list \<Rightarrow> ril_state \<Rightarrow> ril_state result" where
  "completions E H [] s = Inr s"
| "completions E H ((a, e, r, n) # cs) s =
     (case RIL_onRequestComplete E H a e r n s of Inl f \<Rightarrow> Inl f | Inr s' \<Rightarrow> completions E H cs s')"

lemma completions_silent:
  "\<forall>(a, r) \<in> set (s_pendingRequests s). ri_cancelled r \<Longrightarrow>
    \<exists>ps. completions E H cs s = Inr (s\<lparr>s_pendingRequests := ps\<rparr>) \<and> set ps \<subseteq> set (s_pendingRequests s)"
proof (induction E H cs s rule: completions.induct)
  case (1 E H s)
  then show ?case by (intro exI[of _ "s_pendingRequests s"]) simp
next
  case (2 E H a e r n cs s)
  show ?case
  proof (cases "a = 0 \<or> map_of (s_pendingRequests s) a = None")
    case True
    then have c: "RIL_onRequestComplete E H a e r n s = Inr s" by (rule complete_unknown)
    then show ?thesis using 2(1)[OF c 2(2)] by simp
  next
    case False
    then obtain pRI where p: "a \<noteq> 0" "map_of (s_pendingRequests s) a = Some pRI" by auto
    then have "ri_cancelled pRI" using 2(2) map_of_SomeD[OF p(2)] by auto
    then have c: "RIL_onRequestComplete E H a e r n s
        = Inr (s\<lparr>s_pendingRequests := unlink a (s_pendingRequests s)\<rparr>)"
      using complete_known[OF p, of E H e r n] by (simp add: Let_def)
    have "\<forall>(b, r) \<in> set (unlink a (s_pendingRequests s)). ri_cancelled r"
      using 2(2) set_unlink[of a "s_pendingRequests s"] by blast
    with 2(1)[OF c] obtain ps where
      "completions E H cs (s\<lparr>s_pendingRequests := unlink a (s_pendingRequests s)\<rparr>)
         = Inr (s\<lparr>s_pendingRequests := ps\<rparr>)" "set ps \<subseteq> set (unlink a (s_pendingRequests s))" by auto
    then show ?thesis using c set_unlink[of a "s_pendingRequests s"] by auto
  qed
qed

text \<open>
  A lost connection: after \<open>onCommandsSocketClosed\<close>, whatever the vendor library completes, in
  whatever order and however often, is taken off the list without a byte on the socket, so that a new
  client never sees answers to requests of the old one.
\<close>

theorem closed_socket_silent:
  "\<exists>ps. completions E H cs (onCommandsSocketClosed s)
     = Inr ((onCommandsSocketClosed s)\<lparr>s_pendingRequests := ps\<rparr>) \<and>
   set ps \<subseteq> set (s_pendingRequests (onCommandsSocketClosed s)) \<and>
   sock_out (onCommandsSocketClosed s) = sock_out s"
proof -
  have "\<forall>(a, r) \<in> set (s_pendingRequests (onCommandsSocketClosed s)). ri_cancelled r"
    by (auto simp: onCommandsSocketClosed_def)
  from completions_silent[OF this, of E H cs] show ?thesis
    by (simp add: onCommandsSocketClosed_def)
qed

end
