(* ===== verification/Ril_Event_Lists.thy ===== *)
theory Ril_Event_Lists
  imports Ril_Event
begin

text \<open>
  The linked lists of ril\_event.cpp implement lists of events: the predicate \<open>dll\<close> relates a list
  head in the store to the list of its members, and \<open>addToList\<close> and \<open>removeFromList\<close> insert before
  and remove at the position the code means.
\<close>

section \<open>Segments\<close>

text \<open>\<open>seg h p xs q\<close>: from \<open>p\<close>, the links lead through \<open>xs\<close> to \<open>q\<close> and back.\<close>

fun seg :: "(addr \<Rightarrow> ril_event) \<Rightarrow> addr \<Rightarrow> addr list \<Rightarrow> addr \<Rightarrow> bool" where
  "seg h p [] q \<longleftrightarrow> ev_next (h p) = q \<and> ev_prev (h q) = p"
| "seg h p (x # xs) q \<longleftrightarrow> ev_next (h p) = x \<and> ev_prev (h x) = p \<and> seg h x xs q"

definition dll :: "(addr \<Rightarrow> ril_event) \<Rightarrow> addr \<Rightarrow> addr list \<Rightarrow> bool" where
  "dll h l xs \<longleftrightarrow> seg h l xs l \<and> distinct (l # xs)"

lemma seg_append: "seg h p (xs @ y # ys) q \<longleftrightarrow> seg h p xs y \<and> seg h y ys q"
  by (induction xs arbitrary: p) auto

lemma seg_cong:
  "(\<And>x. x \<in> set (p # xs) \<Longrightarrow> ev_next (h' x) = ev_next (h x)) \<Longrightarrow>
   (\<And>x. x \<in> set (xs @ [q]) \<Longrightarrow> ev_prev (h' x) = ev_prev (h x)) \<Longrightarrow>
   seg h' p xs q = seg h p xs q"
  by (induction xs arbitrary: p) auto

lemma seg_prev: "seg h p xs q \<Longrightarrow> ev_prev (h q) = last (p # xs)"
  by (induction xs arbitrary: p) auto

lemma seg_next: "seg h p xs q \<Longrightarrow> ev_next (h p) = hd (xs @ [q])"
  by (cases xs) auto

lemma dll_next: "dll h l xs \<Longrightarrow> ev_next (h l) = hd (xs @ [l])"
  by (simp add: dll_def seg_next)

lemma dll_split_next: "dll h l (xs @ y # ys) \<Longrightarrow> ev_next (h y) = hd (ys @ [l])"
  by (simp add: dll_def seg_append seg_next)

lemma dll_cong:
  "(\<And>x. x \<in> set (l # xs) \<Longrightarrow> ev_next (h' x) = ev_next (h x) \<and> ev_prev (h' x) = ev_prev (h x)) \<Longrightarrow>
   dll h' l xs = dll h l xs"
  unfolding dll_def by (subst seg_cong[of l xs h' h l]) auto

section \<open>The two operations\<close>

lemma addToList_links:
  assumes "ev \<noteq> l" "ev_prev (ev_heap s l) \<noteq> ev"
  shows "ev_next (ev_heap (addToList ev l s) x) =
      (if x = ev then l else if x = ev_prev (ev_heap s l) then ev else ev_next (ev_heap s x))"
    and "ev_prev (ev_heap (addToList ev l s) x) =
      (if x = ev then ev_prev (ev_heap s l) else if x = l then ev else ev_prev (ev_heap s x))"
  using assms by (auto simp: addToList_def Let_def)

lemma removeFromList_links:
  assumes "ev_next (ev_heap s ev) \<noteq> ev" "ev_prev (ev_heap s ev) \<noteq> ev"
  shows "ev_next (ev_heap (removeFromList ev s) x) =
      (if x = ev then 0 else if x = ev_prev (ev_heap s ev) then ev_next (ev_heap s ev)
       else ev_next (ev_heap s x))"
    and "ev_prev (ev_heap (removeFromList ev s) x) =
      (if x = ev then 0 else if x = ev_next (ev_heap s ev) then ev_prev (ev_heap s ev)
       else ev_prev (ev_heap s x))"
  using assms by (auto simp: removeFromList_def Let_def)

text \<open>The data of the events and the rest of the state stay.\<close>

lemma list_ops_frame [simp]:
  "ev_fd (ev_heap (addToList ev l s) x) = ev_fd (ev_heap s x)"
  "ev_index (ev_heap (addToList ev l s) x) = ev_index (ev_heap s x)"
  "ev_persist (ev_heap (addToList ev l s) x) = ev_persist (ev_heap s x)"
  "ev_timeout (ev_heap (addToList ev l s) x) = ev_timeout (ev_heap s x)"
  "ev_func (ev_heap (addToList ev l s) x) = ev_func (ev_heap s x)"
  "ev_param (ev_heap (addToList ev l s) x) = ev_param (ev_heap s x)"
  "watch_table (addToList ev l s) = watch_table s"
  "readFds (addToList ev l s) = readFds s"
  "nfds (addToList ev l s) = nfds s"
  "now (addToList ev l s) = now s"
  "ev_state.more (addToList ev l s) = ev_state.more s"
  "ev_fd (ev_heap (removeFromList ev s) x) = ev_fd (ev_heap s x)"
  "ev_index (ev_heap (removeFromList ev s) x) = ev_index (ev_heap s x)"
  "ev_persist (ev_heap (removeFromList ev s) x) = ev_persist (ev_heap s x)"
  "ev_timeout (ev_heap (removeFromList ev s) x) = ev_timeout (ev_heap s x)"
  "ev_func (ev_heap (removeFromList ev s) x) = ev_func (ev_heap s x)"
  "ev_param (ev_heap (removeFromList ev s) x) = ev_param (ev_heap s x)"
  "watch_table (removeFromList ev s) = watch_table s"
  "readFds (removeFromList ev s) = readFds s"
  "nfds (removeFromList ev s) = nfds s"
  "now (removeFromList ev s) = now s"
  "ev_state.more (removeFromList ev s) = ev_state.more s"
  by (auto simp: addToList_def removeFromList_def Let_def)

lemma addToList_dll:
  assumes d: "dll (ev_heap s) l (xs @ ys)" and ev: "ev \<notin> set (l # xs @ ys)"
  shows "dll (ev_heap (addToList ev (hd (ys @ [l])) s)) l (xs @ ev # ys)"
proof -
  define z u where "z = hd (ys @ [l])" and "u = last (l # xs)"
  let ?h = "ev_heap s" and ?h' = "ev_heap (addToList ev z s)"
  have z: "ys = [] \<Longrightarrow> z = l" "\<And>y ys'. ys = y # ys' \<Longrightarrow> z = y" by (auto simp: z_def)
  have segs: "seg ?h l xs z" "ys \<noteq> [] \<Longrightarrow> seg ?h z (tl ys) l"
    using d unfolding dll_def z_def by (cases ys; simp add: seg_append)+
  have u: "ev_prev (?h z) = u" unfolding u_def by (rule seg_prev[OF segs(1)])
  have u_in: "u \<in> set (l # xs)" unfolding u_def by (rule last_in_set) simp
  have z_in: "z \<in> set (l # ys)" using z by (cases ys) auto
  have ne: "ev \<noteq> z" "ev_prev (?h z) \<noteq> ev" using ev z_in u_in unfolding u by auto
  note links = addToList_links[OF ne, unfolded u]
  have dist: "distinct (l # xs @ ys)" using d by (simp add: dll_def)
  have 1: "seg ?h' l xs ev"
  proof (cases xs rule: rev_cases)
    case Nil
    then show ?thesis using ev by (simp add: links u_def)
  next
    case (snoc xs' v)
    then have "u = v" by (simp add: u_def)
    moreover have "seg ?h' l xs' v = seg ?h l xs' v"
      using ev dist z_in snoc \<open>u = v\<close> by (intro seg_cong) (auto simp: links)
    ultimately show ?thesis using segs(1) snoc ev by (auto simp: seg_append links)
  qed
  have 2: "seg ?h' ev ys l"
  proof (cases ys)
    case Nil
    then have "l = z" using z(1) by simp
    then show ?thesis using Nil ne(1) by (simp add: links)
  next
    case (Cons y ys')
    then have ys: "ys = z # ys'" using z(2) by simp
    then have "seg ?h' z ys' l = seg ?h z ys' l"
      using ev dist u_in by (intro seg_cong) (auto simp: links)
    then show ?thesis using segs(2) ys ev by (auto simp: links)
  qed
  show ?thesis using 1 2 ev dist by (simp add: dll_def seg_append z_def)
qed

lemma dll_pos:
  assumes "dll h l (xs @ ys)"
  shows "hd (ys @ [l]) \<in> set (l # ys)" "ev_prev (h (hd (ys @ [l]))) \<in> set (l # xs)"
proof -
  show "hd (ys @ [l]) \<in> set (l # ys)" by (cases ys) auto
  have "seg h l xs (hd (ys @ [l]))" using assms unfolding dll_def by (cases ys) (auto simp: seg_append)
  from seg_prev[OF this] show "ev_prev (h (hd (ys @ [l]))) \<in> set (l # xs)"
    using last_in_set[of "l # xs"] by simp
qed

text \<open>Another list is not touched.\<close>

lemma addToList_other:
  assumes "dll (ev_heap s) l (xs @ ys)" "ev \<notin> set (l # xs @ ys)"
    "set (k # zs) \<inter> set (ev # l # xs @ ys) = {}"
  shows "dll (ev_heap (addToList ev (hd (ys @ [l])) s)) k zs = dll (ev_heap s) k zs"
proof (rule dll_cong)
  fix x
  assume x: "x \<in> set (k # zs)"
  have ne: "ev \<noteq> hd (ys @ [l])" "ev_prev (ev_heap s (hd (ys @ [l]))) \<noteq> ev"
    using dll_pos[OF assms(1)] assms(2) by auto
  have "x \<noteq> ev" "x \<noteq> hd (ys @ [l])" "x \<noteq> ev_prev (ev_heap s (hd (ys @ [l])))"
    using x assms(3) dll_pos[OF assms(1)] by auto
  then show "ev_next (ev_heap (addToList ev (hd (ys @ [l])) s) x) = ev_next (ev_heap s x) \<and>
      ev_prev (ev_heap (addToList ev (hd (ys @ [l])) s) x) = ev_prev (ev_heap s x)"
    by (simp add: addToList_links[OF ne])
qed

lemma dll_member_links:
  assumes "dll h l (xs @ ev # ys)"
  shows "ev_next (h ev) = hd (ys @ [l])" "ev_prev (h ev) = last (l # xs)"
    "ev_next (h ev) \<noteq> ev" "ev_prev (h ev) \<noteq> ev"
proof -
  have s: "seg h l xs ev" "seg h ev ys l" and d: "distinct (l # xs @ ev # ys)"
    using assms by (auto simp: dll_def seg_append)
  show n: "ev_next (h ev) = hd (ys @ [l])" using seg_next[OF s(2)] .
  show p: "ev_prev (h ev) = last (l # xs)" using seg_prev[OF s(1)] .
  show "ev_next (h ev) \<noteq> ev" using d n by (cases ys) auto
  show "ev_prev (h ev) \<noteq> ev" using d p last_in_set[of "l # xs"] by auto
qed

lemma removeFromList_dll:
  assumes d: "dll (ev_heap s) l (xs @ ev # ys)"
  shows "dll (ev_heap (removeFromList ev s)) l (xs @ ys)"
proof -
  define z u where "z = hd (ys @ [l])" and "u = last (l # xs)"
  note m = dll_member_links[OF d, folded z_def u_def]
  note links = removeFromList_links[OF m(3,4), unfolded m(1,2)]
  let ?h = "ev_heap s" and ?h' = "ev_heap (removeFromList ev s)"
  have s: "seg ?h l xs ev" "seg ?h ev ys l" and dist: "distinct (l # xs @ ev # ys)"
    using d by (auto simp: dll_def seg_append)
  have u_in: "u \<in> set (l # xs)" unfolding u_def by (rule last_in_set) simp
  have z: "ys = [] \<Longrightarrow> z = l" "\<And>y ys'. ys = y # ys' \<Longrightarrow> z = y" by (auto simp: z_def)
  have z_in: "z \<in> set (l # ys)" using z by (cases ys) auto
  have 1: "seg ?h' l xs z"
  proof (cases xs rule: rev_cases)
    case Nil
    then show ?thesis using dist z_in by (auto simp: links u_def)
  next
    case (snoc xs' v)
    then have "u = v" by (simp add: u_def)
    moreover have "seg ?h' l xs' v = seg ?h l xs' v"
      using dist z_in snoc \<open>u = v\<close> by (intro seg_cong) (auto simp: links)
    ultimately show ?thesis using s(1) snoc dist z_in by (auto simp: seg_append links)
  qed
  show ?thesis
  proof (cases ys)
    case Nil
    then show ?thesis using 1 dist z(1) by (simp add: dll_def)
  next
    case (Cons y ys')
    have "seg ?h' y ys' l = seg ?h y ys' l"
      using dist u_in Cons z(2)[OF Cons] by (intro seg_cong) (auto simp: links)
    then show ?thesis using 1 s(2) Cons dist z(2)[OF Cons] by (simp add: dll_def seg_append)
  qed
qed

lemma removeFromList_other:
  assumes d: "dll (ev_heap s) l (xs @ ev # ys)" "set (k # zs) \<inter> set (l # xs @ ev # ys) = {}"
  shows "dll (ev_heap (removeFromList ev s)) k zs = dll (ev_heap s) k zs"
proof (rule dll_cong)
  fix x
  assume x: "x \<in> set (k # zs)"
  note m = dll_member_links[OF d(1)]
  have "last (l # xs) \<in> set (l # xs)" by (rule last_in_set) simp
  moreover have "hd (ys @ [l]) \<in> set (l # ys)" by (cases ys) auto
  ultimately have "x \<noteq> ev" "x \<noteq> last (l # xs)" "x \<noteq> hd (ys @ [l])" using x d(2) by auto
  then show "ev_next (ev_heap (removeFromList ev s) x) = ev_next (ev_heap s x) \<and>
      ev_prev (ev_heap (removeFromList ev s) x) = ev_prev (ev_heap s x)"
    by (simp add: removeFromList_links[OF m(3,4)] m(1,2))
qed

end
