(* ===== verification/Ril_Event_Props.thy ===== *)
theory Ril_Event_Props
  imports Ril_Event_Lists
begin

text \<open>
  Correctness of the event library: the timer list stays sorted, exactly the expired timers and the
  ready descriptors become pending, and a round fires what is pending in order. The client side, the
  callbacks, is the locale \<open>event_callbacks\<close>.
\<close>

section \<open>Time\<close>

definition tv_norm :: "timeval \<Rightarrow> bool" where
  "tv_norm t \<longleftrightarrow> 0 \<le> tv_usec t \<and> tv_usec t < 1000000 \<and> 0 \<le> tv_sec t \<and> tv_sec t < 2 ^ 31"

definition usecs :: "timeval \<Rightarrow> int" where
  "usecs t = 1000000 * tv_sec t + tv_usec t"

lemma getNow_norm:
  assumes "0 \<le> nsec" "nsec < 10 ^ 9" "0 \<le> sec" "sec < 2 ^ 31"
  shows "tv_norm (getNow (sec, nsec)) \<and> usecs (getNow (sec, nsec)) = (10 ^ 9 * sec + nsec) div 1000"
proof -
  have "(10 ^ 9 * sec + nsec) div 1000 = (nsec + (1000000 * sec) * 1000) div 1000" by (simp add: algebra_simps)
  also have "\<dots> = 1000000 * sec + nsec div 1000" by (subst div_mult_self1) simp_all
  finally show ?thesis using assms by (simp add: tv_norm_def usecs_def getNow_def pos_imp_zdiv_nonneg_iff)
qed

lemma timer_less_trans [trans]: "timer_less a b \<Longrightarrow> timer_less b c \<Longrightarrow> timer_less a c"
  by (auto simp: timer_less_def split: if_splits)

lemma timer_le_trans: "\<not> timer_less b a \<Longrightarrow> \<not> timer_less c b \<Longrightarrow> \<not> timer_less c a"
  by (auto simp: timer_less_def split: if_splits)

lemma timer_less_asym: "timer_less a b \<Longrightarrow> \<not> timer_less b a"
  by (auto simp: timer_less_def split: if_splits)

lemma time32_id [simp]: "- 2147483648 \<le> x \<Longrightarrow> x < 2147483648 \<Longrightarrow> time32 x = x"
  unfolding time32_def by (rule signed_take_bit_int_eq_self) simp_all

text \<open>On normalised values the operations are those of the number of microseconds, as long as the seconds fit.\<close>

lemma usecs_less: "tv_norm a \<Longrightarrow> tv_norm b \<Longrightarrow> timer_less a b \<longleftrightarrow> usecs a < usecs b"
  unfolding tv_norm_def timer_less_def usecs_def by auto

lemma usecs_add:
  assumes "tv_norm a" "tv_norm b" "tv_sec a + tv_sec b < 2 ^ 31 - 1"
  shows "tv_norm (timeradd a b) \<and> usecs (timeradd a b) = usecs a + usecs b"
  using assms unfolding tv_norm_def timeradd_def usecs_def by (auto simp: Let_def)

lemma usecs_sub: "tv_norm a \<Longrightarrow> tv_norm b \<Longrightarrow> usecs (timersub a b) = usecs a - usecs b"
  unfolding tv_norm_def timersub_def usecs_def by (auto simp: Let_def)

text \<open>A timer that is asked for too far in the future lies in the past.\<close>

lemma timeradd_wraps:
  assumes "tv_norm a" "tv_norm b" "2 ^ 31 \<le> tv_sec a + tv_sec b"
  shows "timer_less (timeradd a b) a"
proof -
  have "time32 (tv_sec a + tv_sec b) = tv_sec a + tv_sec b - 2 ^ 32"
    using assms signed_take_bit_int_eq_self[of 31 "tv_sec a + tv_sec b - 2 ^ 32"]
      signed_take_bit_add[of 31 "tv_sec a + tv_sec b - 2 ^ 32" "2 ^ 32"]
    by (simp add: time32_def tv_norm_def signed_take_bit_eq_take_bit_shift)
  then show ?thesis using assms unfolding tv_norm_def timeradd_def timer_less_def by (auto simp: Let_def)
qed

section \<open>The invariant of the two lists\<close>

abbreviation timeout_of :: "'a ev_state_scheme \<Rightarrow> addr \<Rightarrow> timeval" where
  "timeout_of s x \<equiv> ev_timeout (ev_heap s x)"

definition timers_sorted :: "'a ev_state_scheme \<Rightarrow> addr list \<Rightarrow> bool" where
  "timers_sorted s ts \<longleftrightarrow> sorted_wrt (\<lambda>a b. \<not> timer_less (timeout_of s b) (timeout_of s a)) ts"

text \<open>\<open>ev_inv s ts ps\<close>: the timers are \<open>ts\<close>, earliest first, and the pending events are \<open>ps\<close>.\<close>

definition ev_inv :: "'a ev_state_scheme \<Rightarrow> addr list \<Rightarrow> addr list \<Rightarrow> bool" where
  "ev_inv s ts ps \<longleftrightarrow>
     dll (ev_heap s) timer_list ts \<and> dll (ev_heap s) pending_list ps \<and>
     distinct (timer_list # pending_list # ts @ ps) \<and> 0 \<notin> set (ts @ ps) \<and> timers_sorted s ts"

lemma heads [simp]: "timer_list \<noteq> pending_list" "pending_list \<noteq> timer_list" "timer_list \<noteq> 0" "pending_list \<noteq> 0"
  by (simp_all add: timer_list_def pending_list_def)

lemma ev_invD:
  assumes "ev_inv s ts ps"
  shows "dll (ev_heap s) timer_list ts" "dll (ev_heap s) pending_list ps"
    "distinct (timer_list # pending_list # ts @ ps)" "0 \<notin> set (ts @ ps)" "timers_sorted s ts"
  using assms by (auto simp: ev_inv_def)

lemma dll_heap_cong:
  "(\<And>x. ev_next (h' x) = ev_next (h x) \<and> ev_prev (h' x) = ev_prev (h x)) \<Longrightarrow> dll h' l xs = dll h l xs"
  by (rule dll_cong) simp

section \<open>Adding a timer\<close>

definition insert_timer :: "'a ev_state_scheme \<Rightarrow> timeval \<Rightarrow> addr \<Rightarrow> addr list \<Rightarrow> addr list" where
  "insert_timer s t ev ts =
     takeWhile (\<lambda>x. timer_less (timeout_of s x) t) ts @ ev
       # dropWhile (\<lambda>x. timer_less (timeout_of s x) t) ts"

lemma find_later_walk:
  "dll h timer_list (xs @ ys) \<Longrightarrow>
    find_later h t (hd (ys @ [timer_list])) =
      Some (hd (dropWhile (\<lambda>x. timer_less (ev_timeout (h x)) t) ys @ [timer_list]))"
proof (induction ys arbitrary: xs)
  case Nil
  then show ?case by (simp add: find_later.simps)
next
  case (Cons y ys)
  have "y \<noteq> timer_list" using Cons.prems by (auto simp: dll_def)
  moreover have "ev_next (h y) = hd (ys @ [timer_list])" by (rule dll_split_next[OF Cons.prems])
  moreover have "find_later h t (hd (ys @ [timer_list])) =
      Some (hd (dropWhile (\<lambda>x. timer_less (ev_timeout (h x)) t) ys @ [timer_list]))"
    using Cons.IH[of "xs @ [y]"] Cons.prems by simp
  ultimately show ?case by (simp add: find_later.simps[of h t y])
qed

lemma sorted_insert_timer:
  assumes "sorted_wrt (\<lambda>a b. \<not> timer_less (T b) (T a)) ts" "T ev = t"
  shows "sorted_wrt (\<lambda>a b. \<not> timer_less (T b) (T a))
    (takeWhile (\<lambda>x. timer_less (T x) t) ts @ ev # dropWhile (\<lambda>x. timer_less (T x) t) ts)"
  using assms(1)
proof (induction ts)
  case (Cons x ts)
  have all: "\<forall>y \<in> set ts. \<not> timer_less (T y) (T x)" using Cons.prems by simp
  show ?case
  proof (cases "timer_less (T x) t")
    case True
    then have "\<not> timer_less (T ev) (T x)" using assms(2) timer_less_asym by simp
    moreover have "set (takeWhile (\<lambda>x. timer_less (T x) t) ts @ dropWhile (\<lambda>x. timer_less (T x) t) ts)
        = set ts" by simp
    ultimately show ?thesis using Cons True all by (auto dest: set_takeWhileD set_dropWhileD)
  next
    case False
    then have "\<forall>y \<in> set (x # ts). \<not> timer_less (T y) t"
      using all timer_le_trans[of "T x" t] by (auto dest: timer_le_trans)
    then show ?thesis using Cons.prems False assms(2) by simp
  qed
qed simp

text \<open>
  \<open>fresh_event s ts ps ev\<close>: \<open>ev\<close> is an event that is in neither list.
\<close>

definition fresh_event :: "addr list \<Rightarrow> addr list \<Rightarrow> addr \<Rightarrow> bool" where
  "fresh_event ts ps ev \<longleftrightarrow> ev \<notin> set (0 # timer_list # pending_list # ts @ ps)"

lemma distinct_insert_mid:
  "distinct (a # b # (xs @ ys) @ ps) \<Longrightarrow> x \<notin> set (a # b # (xs @ ys) @ ps) \<Longrightarrow>
    distinct (a # b # (xs @ x # ys) @ ps)"
  by auto

lemma timer_add_inv:
  fixes s :: "'a ev_state_scheme"
  assumes inv: "ev_inv s ts ps" and ev: "fresh_event ts ps ev"
  shows "\<exists>s'. ril_timer_add ev (Some d) s = Some s' \<and>
      ev_inv s' (insert_timer s (timeradd (now s) d) ev ts) ps \<and>
      timeout_of s' ev = timeradd (now s) d \<and>
      (\<forall>x. x \<noteq> ev \<longrightarrow> timeout_of s' x = timeout_of s x)"
proof -
  let ?t = "timeradd (now s) d"
  define s1 where "s1 = ev_upd ev (\<lambda>e. e\<lparr>ev_fd := - 1, ev_timeout := ?t\<rparr>) s"
  let ?P = "\<lambda>x. timer_less (timeout_of s x) ?t"
  let ?xs = "takeWhile ?P ts" and ?ys = "dropWhile ?P ts"
  note i = ev_invD[OF inv]
  have ev': "ev \<notin> set (timer_list # ts)" "ev \<notin> set (pending_list # ps)" "ev \<noteq> 0"
    using ev by (auto simp: fresh_event_def)
  have dll1: "dll (ev_heap s1) l xs = dll (ev_heap s) l xs" for l xs
    by (rule dll_heap_cong) (simp add: s1_def)
  have dt: "dll (ev_heap s1) timer_list (?xs @ ?ys)" using i(1) by (simp add: dll1)
  have P1: "dropWhile (\<lambda>x. timer_less (ev_timeout (ev_heap s1 x)) ?t) ts = ?ys"
    using ev'(1) by (intro dropWhile_cong) (auto simp: s1_def)
  have "find_later (ev_heap s1) ?t (hd (ts @ [timer_list])) = Some (hd (?ys @ [timer_list]))"
    using find_later_walk[of "ev_heap s1" "[]" ts ?t] i(1) by (simp add: dll1 P1)
  moreover have "ev_next (ev_heap s timer_list) = hd (ts @ [timer_list])" by (rule dll_next[OF i(1)])
  ultimately have run: "ril_timer_add ev (Some d) s = Some (addToList ev (hd (?ys @ [timer_list])) s1)"
    by (simp add: ril_timer_add_def s1_def)
  have "ev \<notin> set (timer_list # ?xs @ ?ys)" using ev'(1) by simp
  note add = addToList_dll[OF dt this] addToList_other[OF dt this, of pending_list ps]
  have disj: "set (pending_list # ps) \<inter> set (ev # timer_list # ?xs @ ?ys) = {}"
    using i(3) ev' by auto
  define s2 where "s2 = addToList ev (hd (?ys @ [timer_list])) s1"
  have T: "timeout_of s2 x = (if x = ev then ?t else timeout_of s x)" for x
    by (simp add: s2_def s1_def)
  have "sorted_wrt (\<lambda>a b. \<not> timer_less (timeout_of s2 b) (timeout_of s2 a)) ts"
    using i(5) ev'(1) unfolding timers_sorted_def
    by (elim sorted_wrt_mono_rel[rotated]) (auto simp: T)
  moreover have "timeout_of s2 ev = ?t" by (simp add: T)
  moreover have "takeWhile (\<lambda>x. timer_less (timeout_of s2 x) ?t) ts = ?xs"
    "dropWhile (\<lambda>x. timer_less (timeout_of s2 x) ?t) ts = ?ys"
    using ev'(1) by (auto simp: T intro!: takeWhile_cong dropWhile_cong)
  ultimately have "timers_sorted s2 (insert_timer s ?t ev ts)"
    using sorted_insert_timer[of "timeout_of s2" ts ev ?t]
    unfolding insert_timer_def timers_sorted_def by metis
  moreover have "distinct (timer_list # pending_list # (?xs @ ev # ?ys) @ ps)"
    by (rule distinct_insert_mid) (use i(3) ev' in simp_all)
  ultimately have "ev_inv s2 (insert_timer s ?t ev ts) ps"
    using add disj i(2,4) ev'(3) dll1
    by (auto simp: ev_inv_def insert_timer_def s2_def dest: set_takeWhileD set_dropWhileD)
  then show ?thesis using run T by (auto simp: s2_def)
qed

section \<open>Expiring timers\<close>

text \<open>\<open>same_data s s'\<close>: the two states differ only in the links of the events.\<close>

definition same_data :: "'a ev_state_scheme \<Rightarrow> 'a ev_state_scheme \<Rightarrow> bool" where
  "same_data s s' \<longleftrightarrow>
     (\<forall>x. ev_fd (ev_heap s' x) = ev_fd (ev_heap s x) \<and> ev_index (ev_heap s' x) = ev_index (ev_heap s x) \<and>
       ev_persist (ev_heap s' x) = ev_persist (ev_heap s x) \<and> timeout_of s' x = timeout_of s x \<and>
       ev_func (ev_heap s' x) = ev_func (ev_heap s x) \<and> ev_param (ev_heap s' x) = ev_param (ev_heap s x)) \<and>
     watch_table s' = watch_table s \<and> readFds s' = readFds s \<and> nfds s' = nfds s \<and> now s' = now s \<and>
     ev_state.more s' = ev_state.more s"

lemma same_data_refl [simp]: "same_data s s"
  by (simp add: same_data_def)

lemma same_data_trans: "same_data s t \<Longrightarrow> same_data t u \<Longrightarrow> same_data s u"
  by (simp add: same_data_def)

lemma same_data_links [simp]:
  "same_data s (addToList ev l s)" "same_data s (removeFromList ev s)"
  by (simp_all add: same_data_def)

lemma same_data_timeout: "same_data s s' \<Longrightarrow> timeout_of s' x = timeout_of s x"
  by (simp add: same_data_def)

lemma timers_sorted_cong: "same_data s s' \<Longrightarrow> timers_sorted s' ts = timers_sorted s ts"
  by (simp add: timers_sorted_def same_data_timeout)

text \<open>Moving the first timer to the end of the pending list.\<close>

lemma move_first:
  assumes inv: "ev_inv s (x # ts) ps"
  defines "s' \<equiv> addToList x pending_list (removeFromList x s)"
  shows "ev_inv s' ts (ps @ [x])" "same_data s s'"
proof -
  note i = ev_invD[OF inv]
  let ?s1 = "removeFromList x s"
  have d: "dll (ev_heap s) timer_list ([] @ x # ts)" using i(1) by simp
  have t1: "dll (ev_heap ?s1) timer_list ts" using removeFromList_dll[OF d] by simp
  have p1: "dll (ev_heap ?s1) pending_list (ps @ [])"
    using removeFromList_other[OF d, of pending_list ps] i(2,3) by auto
  have x: "x \<notin> set (pending_list # ps @ [])" using i(3) by auto
  have "dll (ev_heap s') pending_list (ps @ [x])"
    using addToList_dll[OF p1 x] by (simp add: s'_def)
  moreover have "dll (ev_heap s') timer_list ts"
    using addToList_other[OF p1 x, of timer_list ts] t1 i(3) by (auto simp: s'_def)
  moreover show same: "same_data s s'"
    unfolding s'_def by (rule same_data_trans[of _ ?s1]) simp_all
  moreover have "timers_sorted s' ts"
    using i(5) timers_sorted_cong[OF same] by (simp add: timers_sorted_def)
  ultimately show "ev_inv s' ts (ps @ [x])" using i(3,4) by (auto simp: ev_inv_def)
qed

lemma expire_walk:
  "ev_inv s ts ps \<Longrightarrow>
    \<exists>s'. expire t (hd (ts @ [timer_list])) s = Some s' \<and> same_data s s' \<and>
      ev_inv s' (dropWhile (\<lambda>x. timer_less (timeout_of s x) t) ts)
        (ps @ takeWhile (\<lambda>x. timer_less (timeout_of s x) t) ts)"
proof (induction ts arbitrary: s ps)
  case Nil
  then show ?case by (simp add: expire.simps)
next
  case (Cons x ts)
  note i = ev_invD[OF Cons.prems]
  have x: "x \<noteq> timer_list" using i(3) by auto
  show ?case
  proof (cases "timer_less (timeout_of s x) t")
    case False
    then show ?thesis using Cons.prems by (simp add: expire.simps)
  next
    case True
    let ?s1 = "addToList x pending_list (removeFromList x s)"
    note m = move_first[OF Cons.prems]
    have nxt: "ev_next (ev_heap s x) = hd (ts @ [timer_list])"
      using dll_split_next[of "ev_heap s" timer_list "[]" x ts] i(1) by simp
    obtain s' where s': "expire t (hd (ts @ [timer_list])) ?s1 = Some s'" "same_data ?s1 s'"
        "ev_inv s' (dropWhile (\<lambda>x. timer_less (timeout_of ?s1 x) t) ts)
          ((ps @ [x]) @ takeWhile (\<lambda>x. timer_less (timeout_of ?s1 x) t) ts)"
      using Cons.IH[OF m(1)] by blast
    have "expire t x s = Some s'" using s'(1) x True nxt by (simp add: expire.simps[of t x s])
    then show ?thesis using s'(3) same_data_trans[OF m(2) s'(2)] True by simp
  qed
qed

lemma processTimeouts_inv:
  assumes "ev_inv s ts ps"
  shows "\<exists>s'. processTimeouts s = Some s' \<and> same_data s s' \<and>
    ev_inv s' (dropWhile (\<lambda>x. timer_less (timeout_of s x) (now s)) ts)
      (ps @ takeWhile (\<lambda>x. timer_less (timeout_of s x) (now s)) ts)"
  using expire_walk[OF assms] dll_next[OF ev_invD(1)[OF assms]] by (simp add: processTimeouts_def)

text \<open>In a sorted list the expired timers are exactly a prefix.\<close>

lemma sorted_expired:
  assumes "timers_sorted s ts"
  shows "takeWhile (\<lambda>x. timer_less (timeout_of s x) t) ts = filter (\<lambda>x. timer_less (timeout_of s x) t) ts"
    and "dropWhile (\<lambda>x. timer_less (timeout_of s x) t) ts = filter (\<lambda>x. \<not> timer_less (timeout_of s x) t) ts"
  using assms unfolding timers_sorted_def
proof (induction ts)
  case (Cons x ts)
  { case 1
    then show ?case using Cons.IH(1) timer_le_trans by (auto simp: filter_empty_conv) }
  { case 2
    then show ?case using Cons.IH(2) timer_le_trans by (auto intro!: filter_True[symmetric]) }
qed simp_all

section \<open>Firing\<close>

text \<open>What firing a list of events in order does.\<close>

fun fire_list ::
  "'a callback \<Rightarrow> addr list \<Rightarrow> 'a ev_state_scheme \<Rightarrow> 'a ev_state_scheme result" where
  "fire_list call [] s = Inr s"
| "fire_list call (x # xs) s =
     (case call (ev_func (ev_heap s x)) (ev_fd (ev_heap s x)) (ev_param (ev_heap s x))
         (removeFromList x s) of
        Inl f \<Rightarrow> Inl f
      | Inr s' \<Rightarrow> fire_list call xs s')"

lemma remove_pending:
  assumes inv: "ev_inv s ts (x # ps)"
  shows "ev_inv (removeFromList x s) ts ps"
proof -
  note i = ev_invD[OF inv]
  have d: "dll (ev_heap s) pending_list ([] @ x # ps)" using i(2) by simp
  have "dll (ev_heap (removeFromList x s)) pending_list ps" using removeFromList_dll[OF d] by simp
  moreover have "dll (ev_heap (removeFromList x s)) timer_list ts"
    using removeFromList_other[OF d, of timer_list ts] i(1,3) by auto
  moreover have "timers_sorted (removeFromList x s) ts"
    using i(5) timers_sorted_cong[OF same_data_links(2)] by blast
  ultimately show ?thesis using i(3,4) by (auto simp: ev_inv_def)
qed

text \<open>
  The contract of the callbacks: the client has an invariant \<open>I\<close> on top of that of the lists, and a
  callback, called for the first pending event after that was taken off the list, keeps it; whatever
  it does with timers and descriptors, it leaves the events that are still pending alone.
\<close>

locale event_callbacks =
  fixes call :: "'a callback"
    and I :: "'a ev_state_scheme \<Rightarrow> addr list \<Rightarrow> addr list \<Rightarrow> bool"
  assumes I_inv: "I s ts ps \<Longrightarrow> ev_inv s ts ps"
    and keeps: "I s ts (x # ps) \<Longrightarrow>
      call (ev_func (ev_heap s x)) (ev_fd (ev_heap s x)) (ev_param (ev_heap s x)) (removeFromList x s)
        = Inr s' \<Longrightarrow> \<exists>ts'. I s' ts' ps"
begin

lemma fire_walk:
  "I s ts ps \<Longrightarrow> fire call (hd (ps @ [pending_list])) s = Some (fire_list call ps s)"
proof (induction ps arbitrary: s ts)
  case Nil
  then show ?case by (simp add: fire.simps)
next
  case (Cons x ps)
  note i = ev_invD[OF I_inv[OF Cons.prems]]
  have x: "x \<noteq> pending_list" using i(3) by auto
  have nxt: "ev_next (ev_heap s x) = hd (ps @ [pending_list])"
    using dll_split_next[of "ev_heap s" pending_list "[]" x ps] i(2) by simp
  show ?case
  proof (cases "call (ev_func (ev_heap s x)) (ev_fd (ev_heap s x)) (ev_param (ev_heap s x))
      (removeFromList x s)")
    case (Inl f)
    then show ?thesis using x by (simp add: fire.simps[of call x s])
  next
    case (Inr s2)
    obtain ts' where "I s2 ts' ps" using keeps[OF Cons.prems Inr] by blast
    from Cons.IH[OF this] show ?thesis using x nxt Inr by (simp add: fire.simps[of call x s])
  qed
qed

lemma fire_list_inv:
  "I s ts ps \<Longrightarrow> fire_list call ps s = Inr s' \<Longrightarrow> \<exists>ts'. I s' ts' []"
proof (induction ps arbitrary: s ts)
  case (Cons x ps)
  then obtain s2 where s2: "call (ev_func (ev_heap s x)) (ev_fd (ev_heap s x))
      (ev_param (ev_heap s x)) (removeFromList x s) = Inr s2" "fire_list call ps s2 = Inr s'"
    by (auto split: sum.splits)
  obtain ts' where "I s2 ts' ps" using keeps[OF Cons.prems(1) s2(1)] by blast
  then show ?case using Cons.IH s2(2) by blast
qed auto

lemma firePending_runs:
  "I s ts ps \<Longrightarrow> firePending call s = Some (fire_list call ps s)"
  using fire_walk[of s ts ps] dll_next[OF ev_invD(2)[OF I_inv], of s ts ps]
  by (simp add: firePending_def)

end

section \<open>Watched descriptors\<close>

abbreviation watched :: "'a ev_state_scheme \<Rightarrow> addr list" where
  "watched s \<equiv> filter (\<lambda>a. a \<noteq> 0) (watch_table s)"

text \<open>
  The table: eight slots, every watched event knows its slot, no two of them watch the same
  descriptor, \<open>readFds\<close> is the set of their descriptors and \<open>nfds\<close> is above all of them.
\<close>

definition tab_inv :: "'a ev_state_scheme \<Rightarrow> bool" where
  "tab_inv s \<longleftrightarrow>
     length (watch_table s) = MAX_FD_EVENTS \<and>
     (\<forall>i < MAX_FD_EVENTS. watch_table s ! i \<noteq> 0 \<longrightarrow> ev_index (ev_heap s (watch_table s ! i)) = int i) \<and>
     distinct (map (\<lambda>a. ev_fd (ev_heap s a)) (watched s)) \<and>
     readFds s = (\<lambda>a. ev_fd (ev_heap s a)) ` set (watched s) \<and>
     (\<forall>a \<in> set (watched s). 0 \<le> ev_fd (ev_heap s a) \<and> ev_fd (ev_heap s a) < nfds s)"

lemma tab_inv_cong: "same_data s s' \<Longrightarrow> tab_inv s' = tab_inv s"
  by (simp add: tab_inv_def same_data_def)

lemma free_slot_None: "free_slot tab = None \<longleftrightarrow> 0 \<notin> set tab"
  by (induction tab) auto

lemma free_slot_Some:
  "free_slot tab = Some i \<Longrightarrow> i < length tab \<and> tab ! i = 0 \<and> (\<forall>j < i. tab ! j \<noteq> 0)"
proof (induction tab arbitrary: i)
  case (Cons a tab)
  then show ?case by (auto split: if_splits simp: nth_Cons split: nat.splits)
qed simp

lemma filter_split:
  "i < length tab \<Longrightarrow>
    filter P tab = filter P (take i tab) @ (if P (tab ! i) then [tab ! i] else []) @ filter P (drop (Suc i) tab)"
  by (subst id_take_nth_drop[of i tab]) simp_all

lemma set_update_free:
  assumes "i < length tab" "tab ! i = 0" "a \<noteq> 0"
  shows "set (filter (\<lambda>a. a \<noteq> 0) (tab[i := a])) = insert a (set (filter (\<lambda>a. a \<noteq> (0 :: nat)) tab))"
proof -
  have "set (filter (\<lambda>a. a \<noteq> 0) tab)
      = set (filter (\<lambda>a. a \<noteq> 0) (take i tab)) \<union> set (filter (\<lambda>a. a \<noteq> 0) (drop (Suc i) tab))"
    using filter_split[OF assms(1), of "\<lambda>a. a \<noteq> 0"] assms(2) by simp
  then show ?thesis using assms by (simp add: upd_conv_take_nth_drop)
qed

lemma event_add_full: "0 \<notin> set (watch_table s) \<Longrightarrow> ril_event_add ev s = s"
  by (simp add: ril_event_add_def free_slot_None[THEN iffD2])

lemma max_fd_fold:
  "n \<le> fold (\<lambda>rev n. if rev \<noteq> 0 \<and> ev_fd (h rev) > n then ev_fd (h rev) else n) tab n \<and>
   (\<forall>a \<in> set tab. a \<noteq> 0 \<longrightarrow> ev_fd (h a) \<le>
      fold (\<lambda>rev n. if rev \<noteq> 0 \<and> ev_fd (h rev) > n then ev_fd (h rev) else n) tab n)"
proof (induction tab arbitrary: n)
  case (Cons a tab)
  define m where "m = (if a \<noteq> 0 \<and> ev_fd (h a) > n then ev_fd (h a) else n)"
  have "n \<le> m" "a \<noteq> 0 \<Longrightarrow> ev_fd (h a) \<le> m" by (auto simp: m_def)
  with Cons[of m] show ?case unfolding list.set fold.simps comp_def m_def[symmetric] by fastforce
qed simp

lemma max_fd_upper: "a \<in> set tab \<Longrightarrow> a \<noteq> 0 \<Longrightarrow> ev_fd (h a) \<le> max_fd h tab"
  using max_fd_fold[of 0 h tab] by (simp add: max_fd_def)

lemma event_add_inv:
  assumes t: "tab_inv s" and ev: "ev \<noteq> 0" "ev \<notin> set (watch_table s)"
    and fd: "0 \<le> ev_fd (ev_heap s ev)" "ev_fd (ev_heap s ev) \<notin> readFds s"
  shows "tab_inv (ril_event_add ev s)"
proof (cases "free_slot (watch_table s)")
  case None
  then show ?thesis using t by (simp add: ril_event_add_def)
next
  case (Some i)
  note f = free_slot_Some[OF Some]
  let ?tab = "watch_table s" and ?fd = "ev_fd (ev_heap s ev)" and ?s' = "ril_event_add ev s"
  have tab: "watch_table ?s' = ?tab[i := ev]" "readFds ?s' = insert ?fd (readFds s)"
    "nfds ?s' = max (nfds s) (?fd + 1)"
    "\<And>a. ev_fd (ev_heap ?s' a) = ev_fd (ev_heap s a)"
    "\<And>a. ev_index (ev_heap ?s' a) = (if a = ev then int i else ev_index (ev_heap s a))"
    using Some by (auto simp: ril_event_add_def Let_def)
  define A B where "A = filter (\<lambda>a. a \<noteq> 0) (take i ?tab)" and "B = filter (\<lambda>a. a \<noteq> 0) (drop (Suc i) ?tab)"
  have w: "watched ?s' = A @ ev # B" "watched s = A @ B"
    using f ev filter_split[of i ?tab "\<lambda>a. a \<noteq> 0"]
    by (simp_all add: A_def B_def tab upd_conv_take_nth_drop)
  show ?thesis unfolding tab_inv_def
  proof (intro conjI allI impI ballI)
    show "length (watch_table ?s') = MAX_FD_EVENTS" using t by (simp add: tab tab_inv_def)
    fix j
    assume j: "j < MAX_FD_EVENTS" "watch_table ?s' ! j \<noteq> 0"
    show "ev_index (ev_heap ?s' (watch_table ?s' ! j)) = int j"
    proof (cases "j = i")
      case True
      then show ?thesis using f by (simp add: tab)
    next
      case False
      then have "?tab ! j \<noteq> ev" using j t ev(2) by (metis nth_mem tab_inv_def)
      then show ?thesis using False j t by (simp add: tab tab_inv_def)
    qed
  next
    have "distinct (map (\<lambda>a. ev_fd (ev_heap s a)) (watched s))" "?fd \<notin> (\<lambda>a. ev_fd (ev_heap s a)) ` set (watched s)"
      using t fd(2) unfolding tab_inv_def by auto
    then show "distinct (map (\<lambda>a. ev_fd (ev_heap ?s' a)) (watched ?s'))"
      unfolding w tab(4) by auto
    have "readFds s = (\<lambda>a. ev_fd (ev_heap s a)) ` set (watched s)" using t by (simp add: tab_inv_def)
    then show "readFds ?s' = (\<lambda>a. ev_fd (ev_heap ?s' a)) ` set (watched ?s')"
      unfolding w tab(2,4) by auto
  next
    fix a
    assume "a \<in> set (watched ?s')"
    then have "a = ev \<or> a \<in> set (watched s)" unfolding w by auto
    moreover have "\<forall>a \<in> set (watched s). 0 \<le> ev_fd (ev_heap s a) \<and> ev_fd (ev_heap s a) < nfds s"
      using t by (simp add: tab_inv_def)
    ultimately show "0 \<le> ev_fd (ev_heap ?s' a)" "ev_fd (ev_heap ?s' a) < nfds ?s'"
      unfolding tab(3,4) using fd(1) by fastforce+
  qed
qed

lemma removeWatch_fields:
  assumes "i < length (watch_table s)"
  shows "watch_table (removeWatch ev i s) = (watch_table s)[i := 0]"
    "readFds (removeWatch ev i s) = readFds s - {ev_fd (ev_heap s ev)}"
    "ev_heap (removeWatch ev i s) = (ev_heap s)(ev := (ev_heap s ev)\<lparr>ev_index := - 1\<rparr>)"
    "nfds (removeWatch ev i s) = (if ev_fd (ev_heap s ev) + 1 = nfds s
       then max_fd (ev_heap (removeWatch ev i s)) ((watch_table s)[i := 0]) + 1 else nfds s)"
    "now (removeWatch ev i s) = now s" "ev_state.more (removeWatch ev i s) = ev_state.more s"
  by (simp_all add: removeWatch_def Let_def)

lemma removeWatch_inv:
  assumes t: "tab_inv s" and i: "i < MAX_FD_EVENTS" "watch_table s ! i = ev" "ev \<noteq> 0"
  shows "tab_inv (removeWatch ev i s)"
    "set (watched (removeWatch ev i s)) = set (watched s) - {ev}"
proof -
  let ?tab = "watch_table s" and ?fd = "\<lambda>a. ev_fd (ev_heap s a)" and ?s' = "removeWatch ev i s"
  have len: "i < length ?tab" using t i(1) by (simp add: tab_inv_def)
  note f = removeWatch_fields[OF len, of ev]
  have fd: "ev_fd (ev_heap ?s' a) = ?fd a" for a by (simp add: f)
  define A B where "A = filter (\<lambda>a. a \<noteq> 0) (take i ?tab)" and "B = filter (\<lambda>a. a \<noteq> 0) (drop (Suc i) ?tab)"
  have w: "watched s = A @ ev # B" "watched ?s' = A @ B"
    using filter_split[OF len, of "\<lambda>a. a \<noteq> 0"] i(2,3) len
    by (simp_all add: A_def B_def f upd_conv_take_nth_drop)
  have dist: "distinct (map ?fd (watched s))" using t by (simp add: tab_inv_def)
  have rest: "\<forall>a \<in> set (watched ?s'). ?fd a \<noteq> ?fd ev \<and> a \<noteq> ev"
    using dist unfolding w by (auto simp: image_iff)
  show set: "set (watched ?s') = set (watched s) - {ev}" using rest unfolding w by auto
  show "tab_inv ?s'" unfolding tab_inv_def
  proof (intro conjI allI impI ballI)
    show "length (watch_table ?s') = MAX_FD_EVENTS" using t by (simp add: f tab_inv_def)
    fix j
    assume j: "j < MAX_FD_EVENTS" "watch_table ?s' ! j \<noteq> 0"
    then have ji: "j \<noteq> i" using len by (auto simp: f)
    then have "watch_table ?s' ! j = ?tab ! j" by (simp add: f)
    moreover have "watch_table ?s' ! j \<in> set (watched ?s')"
      using j t by (simp add: tab_inv_def f)
    ultimately show "ev_index (ev_heap ?s' (watch_table ?s' ! j)) = int j"
      using rest j t by (auto simp: f tab_inv_def)
  next
    show "distinct (map (\<lambda>a. ev_fd (ev_heap ?s' a)) (watched ?s'))"
      using dist unfolding w fd by simp
    have "readFds s = ?fd ` set (watched s)" using t by (simp add: tab_inv_def)
    then show "readFds ?s' = (\<lambda>a. ev_fd (ev_heap ?s' a)) ` set (watched ?s')"
      using rest unfolding f(2) fd w by auto
  next
    fix a
    assume a: "a \<in> set (watched ?s')"
    then have b: "0 \<le> ?fd a" "?fd a < nfds s" using t set unfolding tab_inv_def by blast+
    then show "0 \<le> ev_fd (ev_heap ?s' a)" by (simp add: fd)
    show "ev_fd (ev_heap ?s' a) < nfds ?s'"
    proof (cases "?fd ev + 1 = nfds s")
      case True
      have "a \<in> set (?tab[i := 0])" "a \<noteq> 0" using a by (auto simp: f)
      from max_fd_upper[OF this, of "ev_heap ?s'"] show ?thesis using True by (simp add: f(4))
    next
      case False
      then show ?thesis using b fd by (simp add: f(4))
    qed
  qed
qed

lemma event_del_inv:
  assumes "tab_inv s" "ev_index (ev_heap s ev) = int i" "i < MAX_FD_EVENTS" "watch_table s ! i = ev" "ev \<noteq> 0"
  shows "tab_inv (ril_event_del ev s)" "set (watched (ril_event_del ev s)) = set (watched s) - {ev}"
  using removeWatch_inv[OF assms(1,3,4,5)] assms(2,3) by (simp_all add: ril_event_del_def)

text \<open>\<open>same_events s s'\<close>: no event got another descriptor, flag, time or callback.\<close>

definition same_events :: "'a ev_state_scheme \<Rightarrow> 'a ev_state_scheme \<Rightarrow> bool" where
  "same_events s s' \<longleftrightarrow>
     (\<forall>x. ev_fd (ev_heap s' x) = ev_fd (ev_heap s x) \<and>
       ev_persist (ev_heap s' x) = ev_persist (ev_heap s x) \<and> timeout_of s' x = timeout_of s x \<and>
       ev_func (ev_heap s' x) = ev_func (ev_heap s x) \<and> ev_param (ev_heap s' x) = ev_param (ev_heap s x))"

lemma same_data_events: "same_data s s' \<Longrightarrow> same_events s s'"
  by (simp add: same_data_def same_events_def)

lemma same_events_trans: "same_events s t \<Longrightarrow> same_events t u \<Longrightarrow> same_events s u"
  by (simp add: same_events_def)

lemma removeWatch_ev_inv:
  assumes "i < length (watch_table s)" "ev_inv s ts ps"
  shows "ev_inv (removeWatch ev i s) ts ps" "same_events s (removeWatch ev i s)"
proof -
  note f = removeWatch_fields[OF assms(1), of ev]
  have "dll (ev_heap (removeWatch ev i s)) l xs = dll (ev_heap s) l xs" for l xs
    by (rule dll_heap_cong) (simp add: f)
  moreover show same: "same_events s (removeWatch ev i s)" by (simp add: same_events_def f)
  ultimately show "ev_inv (removeWatch ev i s) ts ps"
    using assms(2) by (simp add: ev_inv_def timers_sorted_def same_events_def)
qed

lemma add_pending:
  assumes inv: "ev_inv s ts ps" and x: "fresh_event ts ps x"
  shows "ev_inv (addToList x pending_list s) ts (ps @ [x])"
proof -
  note i = ev_invD[OF inv]
  have p: "dll (ev_heap s) pending_list (ps @ [])" "x \<notin> set (pending_list # ps @ [])"
    using i(2) x by (auto simp: fresh_event_def)
  have "dll (ev_heap (addToList x pending_list s)) pending_list (ps @ [x])"
    using addToList_dll[OF p] by simp
  moreover have "dll (ev_heap (addToList x pending_list s)) timer_list ts"
    using addToList_other[OF p, of timer_list ts] i(1,3) x by (auto simp: fresh_event_def)
  moreover have "timers_sorted (addToList x pending_list s) ts"
    using i(5) timers_sorted_cong[OF same_data_links(1)] by blast
  ultimately show ?thesis using i(3,4) x by (auto simp: ev_inv_def fresh_event_def)
qed

lemma watched_distinct: "tab_inv s \<Longrightarrow> distinct (watched s)"
  unfolding tab_inv_def by (metis distinct_map)

lemma slot_unique:
  assumes "tab_inv s" "i < MAX_FD_EVENTS" "j < MAX_FD_EVENTS" "watch_table s ! i = watch_table s ! j"
    "watch_table s ! i \<noteq> 0"
  shows "i = j"
  using assms unfolding tab_inv_def by (metis of_nat_eq_iff)

abbreviation ready :: "int set \<Rightarrow> 'a ev_state_scheme \<Rightarrow> addr \<Rightarrow> bool" where
  "ready rfds s a \<equiv> a \<noteq> 0 \<and> ev_fd (ev_heap s a) \<in> rfds"

lemma readies_inv:
  "ev_inv s ts ps \<Longrightarrow> tab_inv s \<Longrightarrow> distinct is \<Longrightarrow> \<forall>i \<in> set is. i < MAX_FD_EVENTS \<Longrightarrow>
   \<forall>i \<in> set is. watch_table s ! i \<noteq> 0 \<longrightarrow> fresh_event ts ps (watch_table s ! i) \<Longrightarrow>
   r = take (nat n) (filter (ready rfds s) (map ((!) (watch_table s)) is)) \<Longrightarrow>
   ev_inv (readies rfds is n s) ts (ps @ r) \<and> tab_inv (readies rfds is n s) \<and>
   set (watched (readies rfds is n s)) = set (watched s) - {a \<in> set r. \<not> ev_persist (ev_heap s a)} \<and>
   same_events s (readies rfds is n s)"
proof (induction "is" arbitrary: s ps n r)
  case Nil
  then show ?case by (simp add: same_events_def)
next
  case (Cons i "is")
  let ?x = "watch_table s ! i"
  show ?case
  proof (cases "n > 0 \<and> ready rfds s ?x")
    case False
    then have r: "readies rfds (i # is) n s = (if n > 0 then readies rfds is n s else s)"
      "n > 0 \<Longrightarrow> r = take (nat n) (filter (ready rfds s) (map ((!) (watch_table s)) is))"
      "\<not> n > 0 \<Longrightarrow> r = []"
      using Cons.prems(6) by auto
    show ?thesis
    proof (cases "n > 0")
      case True
      then show ?thesis using Cons.IH[OF Cons.prems(1,2) _ _ _ r(2)] Cons.prems(3-5) r(1) by simp
    next
      case False
      then show ?thesis using r Cons.prems(1,2) by (simp add: same_events_def)
    qed
  next
    case True
    define s1 where "s1 = addToList ?x pending_list s"
    define s2 where "s2 = (if \<not> ev_persist (ev_heap s1 ?x) then removeWatch ?x i s1 else s1)"
    have fresh: "fresh_event ts ps ?x" using Cons.prems(5) True by simp
    have inv1: "ev_inv s1 ts (ps @ [?x])"
      unfolding s1_def by (rule add_pending[OF Cons.prems(1) fresh])
    have tab1: "tab_inv s1" "watch_table s1 = watch_table s" "same_data s s1"
      using Cons.prems(2) tab_inv_cong[OF same_data_links(1)] by (auto simp: s1_def)
    have i: "i < length (watch_table s1)" "i < MAX_FD_EVENTS"
      using Cons.prems(2,4) tab1(2) by (auto simp: tab_inv_def)
    have "ev_inv s2 ts (ps @ [?x])" and "tab_inv s2" and ev2: "same_events s s2"
      and w2: "set (watched s2) = set (watched s) - (if ev_persist (ev_heap s ?x) then {} else {?x})"
      and t2: "\<And>j. j \<noteq> i \<Longrightarrow> watch_table s2 ! j = watch_table s ! j"
      using removeWatch_ev_inv[OF i(1) inv1, of ?x] removeWatch_inv[OF tab1(1) i(2)] True inv1 tab1
        same_data_events[OF tab1(3)] same_events_trans[of s s1]
        removeWatch_fields(1)[OF i(1), of ?x]
      by (auto simp: s2_def s1_def)
    note inv2 = \<open>ev_inv s2 ts (ps @ [?x])\<close> \<open>tab_inv s2\<close>
    define r' where "r' = take (nat (n - 1)) (filter (ready rfds s2) (map ((!) (watch_table s2)) is))"
    have same_map: "map ((!) (watch_table s2)) is = map ((!) (watch_table s)) is"
      using Cons.prems(3) by (auto intro!: t2)
    have "filter (ready rfds s2) xs = filter (ready rfds s) xs" for xs
      using ev2 by (simp add: same_events_def)
    then have "r' = take (nat (n - 1)) (filter (ready rfds s) (map ((!) (watch_table s)) is))"
      unfolding r'_def same_map by simp
    moreover have "nat n = Suc (nat (n - 1))" using True by linarith
    ultimately have r: "r = ?x # r'" using Cons.prems(6) True by simp
    have fresh2: "\<forall>j \<in> set is. watch_table s2 ! j \<noteq> 0 \<longrightarrow> fresh_event ts (ps @ [?x]) (watch_table s2 ! j)"
    proof (intro ballI impI)
      fix j
      assume j: "j \<in> set is" "watch_table s2 ! j \<noteq> 0"
      then have "j \<noteq> i" using Cons.prems(3) by auto
      then have "watch_table s2 ! j = watch_table s ! j" "watch_table s ! j \<noteq> ?x"
        using t2 slot_unique[OF Cons.prems(2), of j i] j Cons.prems(4) by auto
      then show "fresh_event ts (ps @ [?x]) (watch_table s2 ! j)"
        using Cons.prems(5) j by (auto simp: fresh_event_def)
    qed
    have run: "readies rfds (i # is) n s = readies rfds is (n - 1) s2"
      using True by (simp add: s2_def s1_def Let_def)
    from Cons.IH[OF inv2 _ _ fresh2 r'_def] Cons.prems(3,4)
    have "ev_inv (readies rfds is (n - 1) s2) ts ((ps @ [?x]) @ r') \<and> tab_inv (readies rfds is (n - 1) s2)
      \<and> set (watched (readies rfds is (n - 1) s2)) = set (watched s2) - {a \<in> set r'. \<not> ev_persist (ev_heap s2 a)}
      \<and> same_events s2 (readies rfds is (n - 1) s2)" by simp
    then show ?thesis using run r w2 ev2 same_events_trans[OF ev2]
      by (auto simp: same_events_def)
  qed
qed

lemma link_more [simp]:
  "ev_state.more (addToList ev l s) = ev_state.more s" "ev_state.more (removeFromList ev s) = ev_state.more s"
  "ev_state.more (removeWatch ev i s) = ev_state.more s"
  by (simp_all add: addToList_def removeFromList_def removeWatch_def Let_def)

lemma readies_more [simp]: "ev_state.more (readies rfds is n s) = ev_state.more s"
  by (induction "is" arbitrary: n s) (simp_all add: Let_def)

section \<open>The first half of a round\<close>

text \<open>
  \<open>poll\<close>: what a round does before it fires the events. The expired timers and the ready events, in
  this order, become pending; events that are not persistent are no longer watched.
\<close>

definition poll :: "int \<Rightarrow> int set \<Rightarrow> timeval \<Rightarrow> 'a ev_state_scheme \<Rightarrow> 'a ev_state_scheme option" where
  "poll n rfds t s = map_option (processReadReadies rfds n) (processTimeouts (s\<lparr>now := t\<rparr>))"

abbreviation due :: "timeval \<Rightarrow> 'a ev_state_scheme \<Rightarrow> addr \<Rightarrow> bool" where
  "due t s x \<equiv> timer_less (timeout_of s x) t"

abbreviation ready_events :: "int \<Rightarrow> int set \<Rightarrow> 'a ev_state_scheme \<Rightarrow> addr list" where
  "ready_events n rfds s \<equiv> take (nat n) (filter (ready rfds s) (watch_table s))"

lemma poll_inv:
  fixes s :: "'a ev_state_scheme"
  assumes "ev_inv s ts []" "tab_inv s" "\<forall>a \<in> set (watched s). fresh_event ts [] a"
  shows "\<exists>s'. poll n rfds t s = Some s' \<and>
    ev_inv s' (filter (\<lambda>x. \<not> due t s x) ts) (filter (due t s) ts @ ready_events n rfds s) \<and>
    tab_inv s' \<and> same_events s s' \<and> ev_state.more s' = ev_state.more s \<and>
    set (watched s') = set (watched s) - {a \<in> set (ready_events n rfds s). \<not> ev_persist (ev_heap s a)}"
proof -
  let ?s = "s\<lparr>now := t\<rparr>" and ?exp = "filter (due t s) ts" and ?rest = "filter (\<lambda>x. \<not> due t s x) ts"
  have "ev_inv ?s ts []" using assms(1) by (simp add: ev_inv_def timers_sorted_def)
  then obtain s2 where s2: "processTimeouts ?s = Some s2" "same_data ?s s2" "ev_inv s2 ?rest ?exp"
    using processTimeouts_inv[of ?s ts "[]"] sorted_expired[OF ev_invD(5), of ?s ts "[]"] by auto
  have tab2: "tab_inv s2" "watch_table s2 = watch_table s"
    using assms(2) s2(2) tab_inv_cong[OF s2(2)] by (auto simp: tab_inv_def same_data_def)
  have len: "length (watch_table s2) = MAX_FD_EVENTS" using tab2 by (simp add: tab_inv_def)
  have fresh: "\<forall>i \<in> set [0..<MAX_FD_EVENTS]. watch_table s2 ! i \<noteq> 0 \<longrightarrow>
      fresh_event ?rest ?exp (watch_table s2 ! i)"
    using assms(3) len tab2(2) by (auto simp: fresh_event_def)
  have "ready_events n rfds s
      = take (nat n) (filter (ready rfds s2) (map ((!) (watch_table s2)) [0..<MAX_FD_EVENTS]))"
    using s2(2) tab2(2) len map_nth[of "watch_table s2"] by (simp add: same_data_def)
  from readies_inv[OF s2(3) tab2(1) _ _ fresh this]
  have s3: "ev_inv (processReadReadies rfds n s2) ?rest (?exp @ ready_events n rfds s)"
    "tab_inv (processReadReadies rfds n s2)" "same_events s2 (processReadReadies rfds n s2)"
    "set (watched (processReadReadies rfds n s2))
       = set (watched s2) - {a \<in> set (ready_events n rfds s). \<not> ev_persist (ev_heap s2 a)}"
    by (simp_all add: processReadReadies_def)
  moreover have "same_events s s2" using same_data_events[OF s2(2)] by (simp add: same_events_def)
  moreover have "ev_state.more (processReadReadies rfds n s2) = ev_state.more s"
    using s2(2) by (simp add: processReadReadies_def same_data_def)
  ultimately show ?thesis
    using s2(1) tab2(2) same_events_trans[of s s2] by (auto simp: poll_def same_events_def)
qed

section \<open>Properties\<close>

text \<open>A state for the witnesses: one timer, at 5 s, and a persistent watch on descriptor 3.\<close>

definition ev_demo :: ev_state where
  "ev_demo = (ril_event_add 11 (ril_event_set 11 3 True F_listen 0 (ril_event_init
     \<lparr>ev_heap = (\<lambda>_. zero_event), watch_table = [], readFds = {}, nfds = 0,
      now = \<lparr>tv_sec = 4, tv_usec = 0\<rparr>\<rparr>)))"

definition ev_demo1 :: ev_state where
  "ev_demo1 = addToList 10 timer_list
     (ev_upd 10 (\<lambda>_. zero_event\<lparr>ev_fd := - 1, ev_timeout := \<lparr>tv_sec = 5, tv_usec = 0\<rparr>\<rparr>) ev_demo)"

lemmas ev_demo_defs = ev_demo_def ev_demo1_def ril_event_add_def ril_event_set_def ril_event_init_def
  init_list_def addToList_def timer_list_def pending_list_def MAX_FD_EVENTS_def Let_def

lemma ev_demo1_inv: "ev_inv ev_demo1 [10] []"
  by (simp add: ev_inv_def dll_def timers_sorted_def ev_demo_defs numeral_eq_Suc)

lemma ev_demo1_tab: "tab_inv ev_demo1"
  by (simp add: tab_inv_def ev_demo_defs numeral_eq_Suc less_Suc_eq zero_event_def)

lemma ev_demo1_vals:
  "timeout_of ev_demo1 10 = \<lparr>tv_sec = 5, tv_usec = 0\<rparr>" "now ev_demo1 = \<lparr>tv_sec = 4, tv_usec = 0\<rparr>"
  "watch_table ev_demo1 = [11, 0, 0, 0, 0, 0, 0, 0]" "ev_fd (ev_heap ev_demo1 11) = 3"
  by (simp_all add: ev_demo_defs numeral_eq_Suc zero_event_def)

text \<open>
  C33 Adding a timer: \<open>ril_timer_add\<close> always finds its place, and the linked list then holds the new
  timer between the earlier ones and the rest, so that the timers stay sorted by their time; the
  pending events and the times of the other timers are not touched.
\<close>

theorem timer_add_sorted:
  assumes "ev_inv s ts ps" "fresh_event ts ps ev"
  shows "\<exists>s'. ril_timer_add ev (Some d) s = Some s' \<and>
      ev_inv s' (insert_timer s (timeradd (now s) d) ev ts) ps \<and>
      timeout_of s' ev = timeradd (now s) d \<and>
      (\<forall>x. x \<noteq> ev \<longrightarrow> timeout_of s' x = timeout_of s x)"
  by (rule timer_add_inv[OF assms])

theorem timer_add_sorted_witness:
  "\<exists>s'. ril_timer_add 12 (Some \<lparr>tv_sec = 0, tv_usec = 200000\<rparr>) ev_demo1 = Some s' \<and>
     ev_inv s' [12, 10] []"
proof -
  have "insert_timer ev_demo1 (timeradd (now ev_demo1) \<lparr>tv_sec = 0, tv_usec = 200000\<rparr>) 12 [10] = [12, 10]"
    by (simp add: insert_timer_def ev_demo1_vals timeradd_def timer_less_def)
  with timer_add_sorted[OF ev_demo1_inv, of 12 "\<lparr>tv_sec = 0, tv_usec = 200000\<rparr>"] show ?thesis
    by (simp add: fresh_event_def timer_list_def pending_list_def) metis
qed

text \<open>
  Expiry: \<open>processTimeouts\<close> terminates and moves exactly the timers whose time lies before the
  current time to the end of the pending list, in the order of their times.
\<close>

theorem timeouts_exact:
  assumes "ev_inv s ts ps"
  shows "\<exists>s'. processTimeouts s = Some s' \<and> same_data s s' \<and>
    ev_inv s' (filter (\<lambda>x. \<not> timer_less (timeout_of s x) (now s)) ts)
      (ps @ filter (\<lambda>x. timer_less (timeout_of s x) (now s)) ts)"
  using processTimeouts_inv[OF assms] sorted_expired[OF ev_invD(5)[OF assms]] by simp

theorem timeouts_exact_witness:
  "\<exists>s'. processTimeouts ev_demo1 = Some s' \<and> ev_inv s' [10] []"
  using timeouts_exact[OF ev_demo1_inv] by (auto simp: ev_demo1_vals timer_less_def)

text \<open>
  The time to sleep: \<open>calcNextTimeout\<close> returns nothing exactly when no timer is set, and else the
  time to the earliest of all timers, or 0 when that has passed, so that no timer is overslept.
\<close>

theorem next_timeout:
  assumes "ev_inv s ts ps" "tv_norm (now s)" "\<forall>x \<in> set ts. tv_norm (timeout_of s x)"
  shows "(calcNextTimeout s = None \<longleftrightarrow> ts = []) \<and>
    (\<forall>d. calcNextTimeout s = Some d \<longrightarrow>
      (\<forall>x \<in> set ts. usecs d \<le> max 0 (usecs (timeout_of s x) - usecs (now s))) \<and>
      (\<exists>x \<in> set ts. usecs d = max 0 (usecs (timeout_of s x) - usecs (now s))))"
proof (cases ts)
  case Nil
  then show ?thesis using dll_next[OF ev_invD(1)[OF assms(1)]] by (simp add: calcNextTimeout_def)
next
  case (Cons x xs)
  note i = ev_invD[OF assms(1)]
  have nxt: "ev_next (ev_heap s timer_list) = x" "x \<noteq> timer_list"
    using dll_next[OF i(1)] i(3) Cons by auto
  have min: "usecs (timeout_of s x) \<le> usecs (timeout_of s y)" if "y \<in> set ts" for y
    using i(5) that assms(3) Cons usecs_less[of "timeout_of s y" "timeout_of s x"]
    by (auto simp: timers_sorted_def)
  obtain d where d: "calcNextTimeout s = Some d"
    by (cases "calcNextTimeout s") (auto simp: calcNextTimeout_def nxt Let_def split: if_splits)
  have "usecs d = max 0 (usecs (timeout_of s x) - usecs (now s))"
    using d nxt usecs_sub[of "timeout_of s x" "now s"] usecs_less[of "now s" "timeout_of s x"] assms(2,3) Cons
    by (auto simp: calcNextTimeout_def usecs_def Let_def split: if_splits)
  moreover have "usecs d \<le> max 0 (usecs (timeout_of s y) - usecs (now s))" if "y \<in> set ts" for y
    using min[OF that] calculation by simp
  ultimately show ?thesis using d Cons by auto
qed

theorem next_timeout_witness:
  "map_option usecs (calcNextTimeout ev_demo1) = Some 1000000"
proof -
  have "calcNextTimeout ev_demo1 \<noteq> None"
    "\<And>d. calcNextTimeout ev_demo1 = Some d \<Longrightarrow> usecs d = 1000000"
    using next_timeout[OF ev_demo1_inv] by (simp_all add: ev_demo1_vals tv_norm_def usecs_def)
  then show ?thesis by (cases "calcNextTimeout ev_demo1") auto
qed

text \<open>
  The boundary of expiry: the comment in \<open>processTimeouts\<close> asks for \<open>now >= ev->timeout\<close>, but a timer
  whose time is the very time of the clock stays in the timer list and does not become pending, while
  \<open>calcNextTimeout\<close> already returns a zero delay for it when it is the first: the loop polls until the clock has moved on.
\<close>

theorem timeout_boundary:
  assumes "ev_inv s ts ps" "x \<in> set ts" "timeout_of s x = now s"
  shows "(\<exists>s' ts' ps'. processTimeouts s = Some s' \<and> ev_inv s' ts' ps' \<and> x \<in> set ts' \<and> x \<notin> set ps') \<and>
    (x = hd ts \<longrightarrow> calcNextTimeout s = Some \<lparr>tv_sec = 0, tv_usec = 0\<rparr>)"
proof
  have less: "\<not> timer_less (now s) (now s)" by (simp add: timer_less_def)
  let ?exp = "filter (\<lambda>x. timer_less (timeout_of s x) (now s)) ts" and ?rest = "filter (\<lambda>x. \<not> timer_less (timeout_of s x) (now s)) ts"
  obtain s' where s': "processTimeouts s = Some s'" "ev_inv s' ?rest (ps @ ?exp)"
    using processTimeouts_inv[OF assms(1)] unfolding sorted_expired[OF ev_invD(5)[OF assms(1)]] by blast
  have "x \<in> set ?rest" using assms(2,3) less by simp
  moreover have "distinct (?rest @ (ps @ ?exp))" using ev_invD(3)[OF s'(2)] by simp
  ultimately have "x \<in> set ?rest" "x \<notin> set (ps @ ?exp)" by (simp, metis IntI distinct_append empty_iff)
  then show "\<exists>s' ts' ps'. processTimeouts s = Some s' \<and> ev_inv s' ts' ps' \<and> x \<in> set ts' \<and> x \<notin> set ps'"
    using s' by blast
  show "x = hd ts \<longrightarrow> calcNextTimeout s = Some \<lparr>tv_sec = 0, tv_usec = 0\<rparr>"
  proof
    assume "x = hd ts"
    then have "ev_next (ev_heap s timer_list) = x" "x \<noteq> timer_list"
      using dll_next[OF ev_invD(1)[OF assms(1)]] ev_invD(3)[OF assms(1)] assms(2) by (cases ts; auto)+
    then show "calcNextTimeout s = Some \<lparr>tv_sec = 0, tv_usec = 0\<rparr>" using assms(3) less by (simp add: calcNextTimeout_def)
  qed
qed

theorem timeout_boundary_witness:
  "\<exists>s' ts' ps'. processTimeouts (ev_demo1\<lparr>now := \<lparr>tv_sec = 5, tv_usec = 0\<rparr>\<rparr>) = Some s' \<and> ev_inv s' ts' ps' \<and> 10 \<in> set ts' \<and>
     calcNextTimeout (ev_demo1\<lparr>now := \<lparr>tv_sec = 5, tv_usec = 0\<rparr>\<rparr>) = Some \<lparr>tv_sec = 0, tv_usec = 0\<rparr>"
proof -
  have "ev_inv (ev_demo1\<lparr>now := \<lparr>tv_sec = 5, tv_usec = 0\<rparr>\<rparr>) [10] []"
    using ev_demo1_inv by (simp add: ev_inv_def timers_sorted_def)
  from timeout_boundary[OF this, of 10] show ?thesis by (auto simp: ev_demo1_vals)
qed

text \<open>
  C34 Watching descriptors: \<open>ril_event_add\<close> and \<open>ril_event_del\<close> keep the table consistent (every
  event knows its slot, \<open>readFds\<close> holds exactly the watched descriptors, \<open>nfds\<close> is above them); a
  deleted event is no longer watched, and an event that is added while all eight slots are taken is
  dropped without a trace.
\<close>

theorem watch_table_consistent:
  assumes "tab_inv s" "ev \<noteq> 0" "ev \<notin> set (watch_table s)" "0 \<le> ev_fd (ev_heap s ev)"
    "ev_fd (ev_heap s ev) \<notin> readFds s"
  shows "tab_inv (ril_event_add ev s) \<and>
    (0 \<in> set (watch_table s) \<longrightarrow> ev \<in> set (watched (ril_event_add ev s)) \<and>
       tab_inv (ril_event_del ev (ril_event_add ev s)) \<and>
       set (watched (ril_event_del ev (ril_event_add ev s))) = set (watched s)) \<and>
    (0 \<notin> set (watch_table s) \<longrightarrow> ril_event_add ev s = s)"
proof (cases "0 \<in> set (watch_table s)")
  case False
  then show ?thesis using assms(1) event_add_full[of s ev] by simp
next
  case True
  then obtain i where i: "free_slot (watch_table s) = Some i" using free_slot_None by blast
  note f = free_slot_Some[OF i]
  have inv: "tab_inv (ril_event_add ev s)" by (rule event_add_inv[OF assms])
  let ?s' = "ril_event_add ev s"
  have tab: "watch_table ?s' = (watch_table s)[i := ev]" "ev_index (ev_heap ?s' ev) = int i"
    using i by (auto simp: ril_event_add_def Let_def)
  have lt: "i < MAX_FD_EVENTS" using f assms(1) by (simp add: tab_inv_def)
  have slot: "watch_table ?s' ! i = ev" using f by (simp add: tab)
  have "set (watched ?s') = insert ev (set (watched s))"
    using set_update_free[of i "watch_table s" ev] f assms(2) by (simp add: tab)
  moreover note event_del_inv[OF inv tab(2) lt slot assms(2)]
  ultimately show ?thesis using inv True assms(3) by auto
qed

theorem watch_table_consistent_witness:
  "tab_inv (ril_event_add 12 (ril_event_set 12 7 False F_debug 0 ev_demo1)) \<and>
   12 \<in> set (watched (ril_event_add 12 (ril_event_set 12 7 False F_debug 0 ev_demo1)))"
proof -
  let ?s = "ril_event_set 12 7 False F_debug 0 ev_demo1"
  have "tab_inv ?s" by (simp add: tab_inv_def ev_demo_defs numeral_eq_Suc less_Suc_eq zero_event_def)
  moreover have "watch_table ?s = [11, 0, 0, 0, 0, 0, 0, 0]" "readFds ?s = {3}"
    "ev_fd (ev_heap ?s 12) = 7" by (simp_all add: ev_demo_defs numeral_eq_Suc zero_event_def)
  ultimately show ?thesis using watch_table_consistent[of ?s 12] by simp
qed

text \<open>The timers that are to fire at time \<open>t\<close>: those whose time has been reached.\<close>

abbreviation reached :: "timeval \<Rightarrow> 'a ev_state_scheme \<Rightarrow> addr \<Rightarrow> bool" where
  "reached t s x \<equiv> \<not> timer_less t (timeout_of s x)"

text \<open>The code compares strictly; the two agree but for a timer whose time is exactly \<open>t\<close>.\<close>

lemma reached_due: "timeout_of s x \<noteq> t \<Longrightarrow> reached t s x \<longleftrightarrow> due t s x"
  by (cases "timeout_of s x"; cases t) (auto simp: timer_less_def)

text \<open>
  C32 One round of the loop: when \<open>select\<close> reports \<open>n\<close> ready descriptors at time \<open>t\<close>, which is not
  exactly the time of a timer, the timers whose time has been reached (\<open>now >= timeout\<close>) and then the first
  \<open>n\<close> ready watched events, in table order, and nothing else, are made pending and are passed to the callbacks
  one after the other, each once and in this order, until one faults; the later timers stay. The callbacks have to keep
  the contract \<open>event_callbacks\<close>.
\<close>

theorem loop_round_fires:
  fixes t :: timeval and n :: int and rfds :: "int set" and s :: "'a ev_state_scheme"
  assumes "event_callbacks call I" "ev_inv s ts []" "tab_inv s" "\<forall>a \<in> set (watched s). fresh_event ts [] a"
    and "\<forall>x \<in> set ts. timeout_of s x \<noteq> t"
  defines "fired \<equiv> filter (reached t s) ts @ ready_events n rfds s"
    and "rest \<equiv> filter (\<lambda>x. \<not> reached t s x) ts"
  assumes "\<And>s1. same_events s s1 \<Longrightarrow> tab_inv s1 \<Longrightarrow> ev_state.more s1 = ev_state.more s \<Longrightarrow>
    set (watched s1) = set (watched s) - {a \<in> set (ready_events n rfds s). \<not> ev_persist (ev_heap s a)} \<Longrightarrow>
    ev_inv s1 rest fired \<Longrightarrow> I s1 rest fired"
  shows "\<exists>s1. loop_round call (SelReady n rfds t) s = Some (True, fire_list call fired s1) \<and>
    same_events s s1 \<and> ev_inv s1 rest fired \<and>
    (\<forall>s'. fire_list call fired s1 = Inr s' \<longrightarrow> (\<exists>ts'. I s' ts' []))"
proof -
  have eq: "fired = filter (due t s) ts @ ready_events n rfds s" "rest = filter (\<lambda>x. \<not> due t s x) ts"
    unfolding fired_def rest_def using assms(5) reached_due[of s _ t] by (simp_all cong: filter_cong)
  obtain s1 where s1: "poll n rfds t s = Some s1" "ev_inv s1 rest fired" "tab_inv s1" "same_events s s1"
    "ev_state.more s1 = ev_state.more s"
    "set (watched s1) = set (watched s) - {a \<in> set (ready_events n rfds s). \<not> ev_persist (ev_heap s a)}"
    using poll_inv[OF assms(2-4), of n rfds t] unfolding eq by blast
  note I = assms(8)[OF s1(4,3,5,6,2)]
  have "loop_round call (SelReady n rfds t) s = Some (True, fire_list call fired s1)"
    using event_callbacks.firePending_runs[OF assms(1) I] s1(1)
    by (auto simp: loop_round_def poll_def split: option.splits)
  then show ?thesis
    using s1(2,4) event_callbacks.fire_list_inv[OF assms(1) I] by blast
qed

theorem loop_round_fires_witness:
  "\<exists>s1 :: ev_state. loop_round (\<lambda>f fd param s. Inr s) (SelReady 1 {3} \<lparr>tv_sec = 6, tv_usec = 0\<rparr>) ev_demo1
     = Some (True, fire_list (\<lambda>f fd param s. Inr s) [10, 11] s1) \<and> ev_inv s1 [] [10, 11]"
proof -
  have cb: "event_callbacks (\<lambda>f fd param s. Inr s) ev_inv"
    by unfold_locales (auto dest: remove_pending)
  have "\<forall>a \<in> set (watched ev_demo1). fresh_event [10] [] a"
    by (simp add: ev_demo1_vals fresh_event_def timer_list_def pending_list_def)
  from loop_round_fires[OF cb ev_demo1_inv ev_demo1_tab this,
      where t = "\<lparr>tv_sec = 6, tv_usec = 0\<rparr>" and n = 1 and rfds = "{3}"]
  show ?thesis by (auto simp: ev_demo1_vals timer_less_def)
qed

end
