(* ===== verification/Ril_Invariant.thy ===== *)
theory Ril_Invariant
  imports Ril_Unsol Ril_Lifecycle Ril_Event_Props
begin

text \<open>
  The invariant of the library between its atomic steps, and that every operation of ril.cpp keeps it:
  the event lists and the table are well formed, live blocks have distinct addresses, every timer
  belongs to a live callback block, only one of listening and command socket is in use, and a wake lock
  that is held has a timer that releases it.
\<close>

section \<open>The invariant\<close>

definition statics :: "addr set" where
  "statics = {s_commands_event, s_wakeupfd_event, s_listen_event, s_debug_event}"

lemmas static_defs = statics_def s_commands_event_def s_wakeupfd_event_def s_listen_event_def s_debug_event_def

definition static_func :: "addr \<Rightarrow> ev_func" where
  "static_func a = (if a = s_commands_event then F_processCommands
     else if a = s_wakeupfd_event then F_processWakeup
     else if a = s_listen_event then F_listen else F_debug)"

text \<open>The event at \<open>a\<close> belongs to a callback block that has not been freed.\<close>

definition timer_block :: "ril_state \<Rightarrow> addr \<Rightarrow> bool" where
  "timer_block s a \<longleftrightarrow>
     ev_func (ev_heap s a) = F_userTimer \<and> ev_param (ev_heap s a) = a \<and> a \<in> fst ` set (user_cbs s)"

definition live_ok :: "ril_state \<Rightarrow> bool" where
  "live_ok s \<longleftrightarrow> distinct (live s) \<and> (\<forall>a \<in> set (live s). 9 < a)"

text \<open>An event is in use when it is watched or waits to be fired.\<close>

definition active :: "ril_state \<Rightarrow> addr list \<Rightarrow> addr \<Rightarrow> bool" where
  "active s ps a \<longleftrightarrow> a \<in> set (watched s) \<or> a \<in> set ps"

text \<open>\<open>fds\<close> gives the descriptors of the wake-up pipe, the listening socket and the debug socket.\<close>

definition fds_ok :: "(addr \<Rightarrow> int) \<Rightarrow> ril_state \<Rightarrow> bool" where
  "fds_ok fds s \<longleftrightarrow>
     distinct (map fds [s_wakeupfd_event, s_listen_event, s_debug_event]) \<and>
     (\<forall>a \<in> statics - {s_commands_event}. 0 \<le> fds a \<and> ev_fd (ev_heap s a) = fds a) \<and>
     (s_commands_event \<in> set (watched s) \<longrightarrow>
        ev_fd (ev_heap s s_commands_event) \<notin> fds ` (statics - {s_commands_event}))"

definition statics_ok :: "ril_state \<Rightarrow> addr list \<Rightarrow> bool" where
  "statics_ok s ps \<longleftrightarrow>
     set (watched s) \<subseteq> statics \<and>
     (\<forall>a \<in> statics. active s ps a \<longrightarrow> ev_func (ev_heap s a) = static_func a) \<and>
     \<not> (active s ps s_listen_event \<and> active s ps s_commands_event) \<and>
     (s_listen_event \<in> set ps \<longrightarrow> s_listen_event \<notin> set (watched s)) \<and>
     (s_commands_event \<in> set ps \<longrightarrow> s_commands_event \<in> set (watched s)) \<and>
     (s_commands_event \<in> set (watched s) \<longrightarrow> ev_persist (ev_heap s s_commands_event)) \<and>
     ev_func (ev_heap s s_listen_event) = F_listen \<and> \<not> ev_persist (ev_heap s s_listen_event)"

text \<open>The last wake timer is set and not cancelled; with \<open>L\<close>, a lock that is held has such a timer.\<close>

definition wake_ok :: "bool \<Rightarrow> ril_state \<Rightarrow> addr list \<Rightarrow> addr list \<Rightarrow> bool" where
  "wake_ok L s ts ps \<longleftrightarrow>
     (s_last_wake_timeout_info s \<noteq> 0 \<longrightarrow>
        s_last_wake_timeout_info s \<in> set ts \<union> set ps \<and>
        map_of (user_cbs s) (s_last_wake_timeout_info s)
          = Some \<lparr>uc_callback = WakeTimeoutCb, uc_userParam = 0\<rparr>) \<and>
     (L \<longrightarrow> wake_lock s \<longrightarrow> s_last_wake_timeout_info s \<noteq> 0)"

definition ril_inv :: "(addr \<Rightarrow> int) \<Rightarrow> bool \<Rightarrow> ril_state \<Rightarrow> addr list \<Rightarrow> addr list \<Rightarrow> bool" where
  "ril_inv fds L s ts ps \<longleftrightarrow>
     ev_inv s ts ps \<and> tab_inv s \<and> live_ok s \<and> fds_ok fds s \<and> statics_ok s ps \<and> wake_ok L s ts ps \<and>
     (\<forall>a \<in> set ts. timer_block s a) \<and> (\<forall>a \<in> set ps. a \<in> statics \<or> timer_block s a)"

lemmas ril_inv_defs = ril_inv_def ev_inv_def timers_sorted_def tab_inv_def live_ok_def live_def fds_ok_def
  statics_ok_def active_def wake_ok_def timer_block_def

lemma ril_invD:
  assumes "ril_inv fds L s ts ps"
  shows "ev_inv s ts ps" "tab_inv s" "live_ok s" "fds_ok fds s" "statics_ok s ps" "wake_ok L s ts ps"
    "\<forall>a \<in> set ts. timer_block s a" "\<forall>a \<in> set ps. a \<in> statics \<or> timer_block s a"
  using assms by (simp_all add: ril_inv_def)

lemma ril_inv_weaken: "ril_inv fds L s ts ps \<Longrightarrow> (L' \<Longrightarrow> L) \<Longrightarrow> ril_inv fds L' s ts ps"
  by (auto simp: ril_inv_def wake_ok_def)

text \<open>The fields the invariant does not mention.\<close>

lemma ril_inv_frame [simp]:
  "ril_inv fds L (s\<lparr>sock_out := x1\<rparr>) ts ps = ril_inv fds L s ts ps"
  "ril_inv fds L (s\<lparr>wr_script := x2\<rparr>) ts ps = ril_inv fds L s ts ps"
  "ril_inv fds L (s\<lparr>onRequests := x3\<rparr>) ts ps = ril_inv fds L s ts ps"
  "ril_inv fds L (s\<lparr>voiceRadioTech := x4\<rparr>) ts ps = ril_inv fds L s ts ps"
  "ril_inv fds L (s\<lparr>cdmaSubscriptionSource := x4\<rparr>) ts ps = ril_inv fds L s ts ps"
  "ril_inv fds L (s\<lparr>simRuimStatus := x4\<rparr>) ts ps = ril_inv fds L s ts ps"
  "ril_inv fds L (s\<lparr>radioState := x4\<rparr>) ts ps = ril_inv fds L s ts ps"
  "ril_inv fds L (s\<lparr>s_lastNITZTimeData := x5\<rparr>) ts ps = ril_inv fds L s ts ps"
  "ril_inv fds L (s\<lparr>wakeup_pipe := x6\<rparr>) ts ps = ril_inv fds L s ts ps"
  "ril_inv fds L (s\<lparr>elapsed := x7\<rparr>) ts ps = ril_inv fds L s ts ps"
  "ril_inv fds L (s\<lparr>timed_calls := x8\<rparr>) ts ps = ril_inv fds L s ts ps"
  "ril_inv fds L (s\<lparr>ril_impl := x9\<rparr>) ts ps = ril_inv fds L s ts ps"
  "ril_inv fds L (s\<lparr>fdCommand := x10\<rparr>) ts ps = ril_inv fds L s ts ps"
  "ril_inv fds L (s\<lparr>in_dispatch_thread := x11\<rparr>) ts ps = ril_inv fds L s ts ps"
  by (simp_all add: ril_inv_defs)

lemma ril_inv_lock:
  "ril_inv fds L s ts ps \<Longrightarrow> ril_inv fds False (s\<lparr>wake_lock := x\<rparr>) ts ps"
  "ril_inv fds False s ts ps \<Longrightarrow> ril_inv fds L (s\<lparr>wake_lock := False\<rparr>) ts ps"
  "ril_inv fds L s ts ps \<Longrightarrow> ril_inv fds L (s\<lparr>wake_lock := False\<rparr>) ts ps"
  by (simp_all add: ril_inv_defs)

lemma map_sum_Inr: "map_sum f g x = Inr y \<longleftrightarrow> (\<exists>z. x = Inr z \<and> y = g z)"
  by (cases x) auto

lemma timer_not_static: "live_ok s \<Longrightarrow> timer_block s a \<Longrightarrow> a \<notin> statics"
proof -
  assume "live_ok s" "timer_block s a"
  then have "9 < a" by (auto simp: live_ok_def live_def timer_block_def simp del: Un_iff)
  then show ?thesis by (auto simp: static_defs)
qed

section \<open>Requests\<close>

lemma insert_disjoint: "A \<subseteq> insert m B \<Longrightarrow> B \<inter> C = {} \<Longrightarrow> m \<notin> C \<Longrightarrow> A \<inter> C = {}"
  by blast

lemma insert_all: "A \<subseteq> insert m B \<Longrightarrow> \<forall>a \<in> B \<union> C. P a \<Longrightarrow> P m \<Longrightarrow> \<forall>a \<in> A \<union> C. P a"
  by blast

lemma ril_inv_pending:
  assumes "ril_inv fds L s ts ps" "distinct (map fst rs)"
    "fst ` set rs \<subseteq> insert (malloc s) (fst ` set (s_pendingRequests s))"
  shows "ril_inv fds L (s\<lparr>s_pendingRequests := rs\<rparr>) ts ps"
proof -
  note lo = ril_invD(3)[OF assms(1), unfolded live_ok_def live_def distinct_append set_append set_map]
  have d: "fst ` set (s_pendingRequests s) \<inter> fst ` set (user_cbs s) = {}" using lo by (rule conjunct1[THEN conjunct2, THEN conjunct2])
  have g: "\<forall>a \<in> fst ` set (s_pendingRequests s) \<union> fst ` set (user_cbs s). 9 < a" using lo by (rule conjunct2)
  note m = malloc_fresh(1)[of s, unfolded live_def set_append set_map Un_iff de_Morgan_disj, THEN conjunct2]
    malloc_fresh(2)[of s]
  have "fst ` set rs \<inter> fst ` set (user_cbs s) = {}" 
    by (rule insert_disjoint[OF assms(3) d m(1)])
  moreover have "\<forall>a \<in> fst ` set rs \<union> fst ` set (user_cbs s). 9 < a" 
    by (rule insert_all[OF assms(3) g m(2)])
  moreover have "distinct (map fst (user_cbs s))" using lo by (rule conjunct1[THEN conjunct2, THEN conjunct1])
  ultimately have "live_ok (s\<lparr>s_pendingRequests := rs\<rparr>)"
    using assms(2) by (simp add: live_ok_def live_def)
  moreover have "ev_inv (s\<lparr>s_pendingRequests := rs\<rparr>) ts ps = ev_inv s ts ps"
    "tab_inv (s\<lparr>s_pendingRequests := rs\<rparr>) = tab_inv s" "fds_ok fds (s\<lparr>s_pendingRequests := rs\<rparr>) = fds_ok fds s"
    "statics_ok (s\<lparr>s_pendingRequests := rs\<rparr>) ps = statics_ok s ps"
    "wake_ok L (s\<lparr>s_pendingRequests := rs\<rparr>) ts ps = wake_ok L s ts ps"
    "\<And>a. timer_block (s\<lparr>s_pendingRequests := rs\<rparr>) a = timer_block s a"
    by (simp_all add: ril_inv_defs)
  ultimately show ?thesis using assms(1) by (simp add: ril_inv_def)
qed

lemma live_distinct: "ril_inv fds L s ts ps \<Longrightarrow> distinct (map fst (s_pendingRequests s))"
  by (simp add: ril_inv_def live_ok_def live_def)

lemma enqueue_inv: "ril_inv fds L s ts ps \<Longrightarrow> ril_inv fds L (enqueue (malloc s) pRI s) ts ps"
  unfolding enqueue_def using live_distinct malloc_fresh(1)[of s]
  by (intro ril_inv_pending) (auto simp: live_def)

lemma sendResponseRaw_inv:
  "sendResponseRaw dat s = Inr (r, s') \<Longrightarrow> ril_inv fds L s ts ps \<Longrightarrow> ril_inv fds L s' ts ps"
  using sendResponseRaw_frame by fastforce

lemma complete_inv:
  assumes "RIL_onRequestComplete E H a e r n s = Inr s'" "ril_inv fds L s ts ps"
  shows "ril_inv fds L s' ts ps"
proof (cases "a = 0 \<or> map_of (s_pendingRequests s) a = None")
  case True
  then show ?thesis using assms complete_unknown[OF True, of E H e r n] by simp
next
  case False
  then obtain pRI where p: "a \<noteq> 0" "map_of (s_pendingRequests s) a = Some pRI" by auto
  obtain out ws where s': "s' = s\<lparr>s_pendingRequests := unlink a (s_pendingRequests s),
      sock_out := sock_out s @ out, wr_script := ws\<rparr>" using complete_effect[OF p assms(1)] by blast
  have "ril_inv fds L (s\<lparr>s_pendingRequests := unlink a (s_pendingRequests s)\<rparr>) ts ps"
    using set_unlink distinct_unlink[OF live_distinct[OF assms(2)]]
    by (intro ril_inv_pending[OF assms(2)]) fastforce+
  then show ?thesis unfolding s' by simp
qed

lemma run_action_inv:
  "run_action E H a x s = Inr s' \<Longrightarrow> ril_inv fds L s ts ps \<Longrightarrow> ril_inv fds L s' ts ps"
  by (cases x) (auto intro: complete_inv)

lemma run_actions_inv:
  "run_actions E H a xs s = Inr s' \<Longrightarrow> ril_inv fds L s ts ps \<Longrightarrow> ril_inv fds L s' ts ps"
  by (induction xs arbitrary: s) (auto split: sum.splits intro: run_action_inv)

lemma issueLocalRequest_inv:
  "issueLocalRequest H request dat len s = Inr s' \<Longrightarrow> ril_inv fds L s ts ps \<Longrightarrow> ril_inv fds L s' ts ps"
  by (auto simp: issueLocalRequest_def Let_def intro: enqueue_inv split: if_splits)

lemma processCommandBuffer_inv:
  assumes "processCommandBuffer E H buffer s = Inr s'" "ril_inv fds L s ts ps"
  shows "ril_inv fds L s' ts ps"
proof -
  obtain r1 request p1 where 1: "run_state (p_readInt32 E) (p_setData E buffer) = ((r1, request), p1)"
    by (metis prod.exhaust)
  obtain status token p2 where 2: "run_state (p_readInt32 E) p1 = ((status, token), p2)"
    by (metis prod.exhaust)
  show ?thesis using assms 1 2
    by (auto simp: processCommandBuffer_def sendResponse_def Let_def map_sum_Inr
        split: if_splits sum.splits prod.splits intro: run_actions_inv enqueue_inv sendResponseRaw_inv)
qed

lemma onCommandsSocketClosed_inv:
  assumes "ril_inv fds L s ts ps"
  shows "ril_inv fds L (onCommandsSocketClosed s) ts ps"
proof -
  let ?rs = "map (\<lambda>(a, r). (a, r\<lparr>ri_cancelled := True\<rparr>)) (s_pendingRequests s)"
  have keys: "map fst ?rs = map fst (s_pendingRequests s)" by (simp add: case_prod_beta comp_def)
  moreover have "fst ` set ?rs = fst ` set (s_pendingRequests s)"
    by (simp add: image_image case_prod_beta)
  ultimately show ?thesis unfolding onCommandsSocketClosed_def
    using live_distinct[OF assms] by (intro ril_inv_pending[OF assms]) (simp_all only:, blast)
qed

section \<open>Timed callbacks\<close>

text \<open>The fields of ril.cpp depend on the extension of the record only.\<close>

lemma core_cong:
  "ev_state.more s' = ev_state.more (s :: ril_state) \<Longrightarrow> user_cbs s' = user_cbs s"
  "ev_state.more s' = ev_state.more s \<Longrightarrow> s_pendingRequests s' = s_pendingRequests s"
  "ev_state.more s' = ev_state.more s \<Longrightarrow> s_last_wake_timeout_info s' = s_last_wake_timeout_info s"
  "ev_state.more s' = ev_state.more s \<Longrightarrow> wake_lock s' = wake_lock s"
  by (cases s; cases s'; simp)+

lemma live_cong: "ev_state.more s' = ev_state.more s \<Longrightarrow> live s' = live s"
  unfolding live_def using core_cong(1,2)[of s' s] by presburger

lemma timer_add_fields:
  assumes "ril_timer_add ev (Some d) s = Some s'"
  shows "ev_state.more s' = ev_state.more s" "watch_table s' = watch_table s" "readFds s' = readFds s"
    "nfds s' = nfds s" "ev_func (ev_heap s' x) = ev_func (ev_heap s x)"
    "ev_param (ev_heap s' x) = ev_param (ev_heap s x)" "ev_index (ev_heap s' x) = ev_index (ev_heap s x)"
    "ev_persist (ev_heap s' x) = ev_persist (ev_heap s x)" "x \<noteq> ev \<Longrightarrow> ev_fd (ev_heap s' x) = ev_fd (ev_heap s x)"
  using assms by (auto simp: ril_timer_add_def Let_def split: if_splits)

lemma ev_inv_local:
  "fresh_event ts ps a \<Longrightarrow> ev_inv (s\<lparr>ev_heap := (ev_heap s)(a := e)\<rparr>) ts ps = ev_inv s ts ps"
proof -
  assume a: "fresh_event ts ps a"
  have "dll ((ev_heap s)(a := e)) timer_list ts = dll (ev_heap s) timer_list ts"
    "dll ((ev_heap s)(a := e)) pending_list ps = dll (ev_heap s) pending_list ps"
    using a by (auto intro!: dll_cong simp: fresh_event_def)
  moreover have "timers_sorted (s\<lparr>ev_heap := (ev_heap s)(a := e)\<rparr>) ts = timers_sorted s ts"
    using a unfolding timers_sorted_def
    by (intro iffI; elim sorted_wrt_mono_rel[rotated]) (auto simp: fresh_event_def split: if_splits)
  ultimately show ?thesis by (simp add: ev_inv_def)
qed

lemma tab_inv_local:
  assumes "watch_table s' = watch_table s" "readFds s' = readFds s" "nfds s' = nfds s"
    "\<And>a. a \<in> set (watched s) \<Longrightarrow> ev_fd (ev_heap s' a) = ev_fd (ev_heap s a) \<and> ev_index (ev_heap s' a) = ev_index (ev_heap s a)"
  shows "tab_inv s \<Longrightarrow> tab_inv s'"
proof -
  assume t: "tab_inv s"
  have fd: "map (\<lambda>a. ev_fd (ev_heap s' a)) (watched s) = map (\<lambda>a. ev_fd (ev_heap s a)) (watched s)"
    "(\<lambda>a. ev_fd (ev_heap s' a)) ` set (watched s) = (\<lambda>a. ev_fd (ev_heap s a)) ` set (watched s)"
    using assms(4) by (auto intro: image_cong)
  have "ev_index (ev_heap s' (watch_table s ! i)) = int i"
    if "i < MAX_FD_EVENTS" "watch_table s ! i \<noteq> 0" for i
    using that t assms(4)[of "watch_table s ! i"] by (simp add: tab_inv_def)
  moreover have "\<forall>a \<in> set (watched s). 0 \<le> ev_fd (ev_heap s' a) \<and> ev_fd (ev_heap s' a) < nfds s"
    using t assms(4) unfolding tab_inv_def by metis
  ultimately show ?thesis using t unfolding tab_inv_def assms(1-3) fd by (intro conjI) blast+
qed

lemma malloc_not_event:
  assumes "ril_inv fds L s ts ps"
  shows "fresh_event ts ps (malloc s)" "malloc s \<notin> statics"
proof -
  have m: "9 < malloc s" by (rule malloc_fresh)
  then show st: "malloc s \<notin> statics" by (simp add: static_defs)
  have "malloc s \<notin> fst ` set (user_cbs s)" using malloc_fresh(1)[of s] by (simp add: live_def)
  then have "\<not> timer_block s (malloc s)" by (simp add: timer_block_def)
  then have "malloc s \<notin> set ts" "malloc s \<notin> set ps" using ril_invD(7,8)[OF assms] st by blast+
  then show "fresh_event ts ps (malloc s)" using m by (simp add: fresh_event_def timer_list_def pending_list_def)
qed

text \<open>
  A change of the event structures that leaves the static events alone keeps the invariant, given the
  new lists, the live blocks and the wake timer.
\<close>

lemma ril_inv_events:
  assumes "ril_inv fds L s ts ps" "ev_inv s' ts' ps"
    and "watch_table s' = watch_table s" "readFds s' = readFds s" "nfds s' = nfds s"
    and st: "\<And>a. a \<in> statics \<Longrightarrow> ev_fd (ev_heap s' a) = ev_fd (ev_heap s a) \<and>
      ev_index (ev_heap s' a) = ev_index (ev_heap s a) \<and> ev_func (ev_heap s' a) = ev_func (ev_heap s a) \<and>
      ev_persist (ev_heap s' a) = ev_persist (ev_heap s a)"
    and "live_ok s'" "wake_ok L s' ts' ps" "\<forall>a \<in> set ts'. timer_block s' a"
      "\<forall>a \<in> set ps. a \<in> statics \<or> timer_block s' a"
  shows "ril_inv fds L s' ts' ps"
proof -
  note i = ril_invD[OF assms(1)]
  have w: "set (watched s) \<subseteq> statics" using i(5) by (simp add: statics_ok_def)
  then have "tab_inv s'" using i(2) st by (intro tab_inv_local[OF assms(3-5)]) blast+
  moreover have "fds_ok fds s'" using i(4) st unfolding fds_ok_def assms(3)
    by (simp add: static_defs)
  moreover have "statics_ok s' ps" using i(5) st unfolding statics_ok_def active_def assms(3)
    by (simp add: static_defs static_func_def)
  ultimately show ?thesis using assms unfolding ril_inv_def by blast
qed

lemma set_insert_timer: "set (insert_timer s t ev ts) = insert ev (set ts)"
proof -
  have "set (xs @ ev # ys) = insert ev (set (xs @ ys))" for xs ys :: "addr list" by auto
  then show ?thesis by (simp only: insert_timer_def takeWhile_dropWhile_id)
qed

lemma timed_inv:
  assumes "ril_inv fds L s ts ps"
  shows "\<exists>s' ts'. internalRequestTimedCallback cb param t s = Inr (malloc s, s') \<and>
    ril_inv fds L s' ts' ps \<and> set ts' = insert (malloc s) (set ts) \<and>
    user_cbs s' = (malloc s, \<lparr>uc_callback = cb, uc_userParam = param\<rparr>) # user_cbs s \<and>
    s_last_wake_timeout_info s' = s_last_wake_timeout_info s \<and> wake_lock s' = wake_lock s"
proof -
  note i = ril_invD[OF assms] and fresh = malloc_not_event[OF assms]
  let ?a = "malloc s"
  define d where "d = (case t of None \<Rightarrow> \<lparr>tv_sec = 0, tv_usec = 0\<rparr> | Some t \<Rightarrow> t)"
  define s1 where "s1 = s\<lparr>user_cbs := (?a, \<lparr>uc_callback = cb, uc_userParam = param\<rparr>) # user_cbs s\<rparr>"
  define s2 where "s2 = ril_event_set ?a (- 1) False F_userTimer ?a s1"
  have "ev_inv s1 ts ps" using i(1) by (simp add: s1_def ev_inv_def timers_sorted_def)
  then have e2: "ev_inv s2 ts ps" using ev_inv_local[OF fresh(1), of s1] by (simp add: s2_def ril_event_set_def)
  obtain s3 where s3: "ril_timer_add ?a (Some d) s2 = Some s3" "ev_inv s3 (insert_timer s2 (timeradd (now s2) d) ?a ts) ps"
    using timer_add_inv[OF e2 fresh(1), of d] by blast
  let ?ts = "insert_timer s2 (timeradd (now s2) d) ?a ts"
  note f = timer_add_fields[OF s3(1)]
  have set: "set ?ts = insert ?a (set ts)"
    by (rule set_insert_timer)
  have core: "user_cbs s3 = (?a, \<lparr>uc_callback = cb, uc_userParam = param\<rparr>) # user_cbs s"
    "s_pendingRequests s3 = s_pendingRequests s" "s_last_wake_timeout_info s3 = s_last_wake_timeout_info s"
    "wake_lock s3 = wake_lock s"
    using core_cong[OF f(1)] by (simp_all add: s2_def s1_def ril_event_set_def)
  have h: "ev_func (ev_heap s3 x) = (if x = ?a then F_userTimer else ev_func (ev_heap s x))"
    "ev_param (ev_heap s3 x) = (if x = ?a then ?a else ev_param (ev_heap s x))" for x
    using f(5,6)[of x] by (auto simp: s2_def s1_def ril_event_set_def)
  have "ril_inv fds L s3 ?ts ps"
  proof (rule ril_inv_events[OF assms s3(2)])
    show "watch_table s3 = watch_table s" "readFds s3 = readFds s" "nfds s3 = nfds s"
      using f by (simp_all add: s2_def s1_def ril_event_set_def)
    fix a assume "a \<in> statics"
    then have "a \<noteq> ?a" using fresh(2) by blast
    then show "ev_fd (ev_heap s3 a) = ev_fd (ev_heap s a) \<and> ev_index (ev_heap s3 a) = ev_index (ev_heap s a) \<and>
        ev_func (ev_heap s3 a) = ev_func (ev_heap s a) \<and> ev_persist (ev_heap s3 a) = ev_persist (ev_heap s a)"
      using f(5,7,8,9)[of a] by (simp add: s2_def s1_def ril_event_set_def)
  next
    show "live_ok s3" using i(3) malloc_fresh[of s] by (auto simp: live_ok_def live_def core)
    have "map_of (user_cbs s) ?a = None"
      using malloc_fresh(1)[of s] by (simp add: live_def map_of_eq_None_iff)
    then show "wake_ok L s3 ?ts ps" using i(6) unfolding wake_ok_def core set by auto
    show "\<forall>a \<in> set ?ts. timer_block s3 a" "\<forall>a \<in> set ps. a \<in> statics \<or> timer_block s3 a"
      using i(7,8) unfolding set timer_block_def h core by auto
  qed
  moreover have "internalRequestTimedCallback cb param t s = Inr (?a, triggerEvLoop s3)"
    using s3(1) by (simp add: internalRequestTimedCallback_def Let_def s2_def s1_def d_def)
  ultimately show ?thesis using set core by (auto simp: triggerEvLoop_def intro!: exI[of _ ?ts])
qed

text \<open>The wake timer: the previous one is marked, a new one is set and becomes the last one.\<close>

lemma set_userParam_fst [simp]: "map fst (set_userParam a v xs) = map fst xs"
  by (induction a v xs rule: set_userParam.induct) auto

lemma mark_inv:
  assumes "ril_inv fds L s ts ps"
  shows "ril_inv fds False (s\<lparr>user_cbs := set_userParam a v (user_cbs s), s_last_wake_timeout_info := 0\<rparr>) ts ps"
proof -
  let ?s = "s\<lparr>user_cbs := set_userParam a v (user_cbs s), s_last_wake_timeout_info := 0\<rparr>"
  note i = ril_invD[OF assms]
  have keys: "fst ` set (set_userParam a v (user_cbs s)) = fst ` set (user_cbs s)"
    using arg_cong[OF set_userParam_fst, of set] by (simp only: set_map)
  then have t: "timer_block ?s x = timer_block s x" for x by (simp add: timer_block_def)
  show ?thesis
  proof (rule ril_inv_events[OF ril_inv_weaken[OF assms]])
    show "ev_inv ?s ts ps" using i(1) by (simp add: ev_inv_def timers_sorted_def)
    show "live_ok ?s" using i(3) keys by (simp add: live_ok_def live_def)
    show "wake_ok False ?s ts ps" by (simp add: wake_ok_def)
    show "\<forall>a \<in> set ts. timer_block ?s a" "\<forall>a \<in> set ps. a \<in> statics \<or> timer_block ?s a"
      using i(7,8) t by simp_all
  qed simp_all
qed

lemma set_userParam_id: "a \<notin> fst ` set xs \<Longrightarrow> set_userParam a v xs = xs"
  by (induction a v xs rule: set_userParam.induct) auto

lemma addToList_last:
  "addToList ev l (s\<lparr>s_last_wake_timeout_info := x\<rparr>) = (addToList ev l s)\<lparr>s_last_wake_timeout_info := x\<rparr>"
  by (simp add: addToList_def Let_def)

lemma last_heap_comm:
  "s\<lparr>s_last_wake_timeout_info := x, ev_heap := h\<rparr> = s\<lparr>ev_heap := h, s_last_wake_timeout_info := x\<rparr>"
  by simp

lemma timed_last:
  "internalRequestTimedCallback cb param t (s\<lparr>s_last_wake_timeout_info := x\<rparr>)
   = map_sum id (\<lambda>(a, s'). (a, s'\<lparr>s_last_wake_timeout_info := x\<rparr>)) (internalRequestTimedCallback cb param t s)"
proof -
  have "malloc (s\<lparr>s_last_wake_timeout_info := x\<rparr>) = malloc s" by (simp add: malloc_def live_def)
  moreover have "ril_timer_add ev tv (s\<lparr>s_last_wake_timeout_info := x\<rparr>)
      = map_option (\<lambda>s'. s'\<lparr>s_last_wake_timeout_info := x\<rparr>) (ril_timer_add ev tv s)" for ev tv and s :: ril_state
    by (cases tv) (simp_all add: ril_timer_add_def Let_def last_heap_comm addToList_last option.map_comp comp_def)
  moreover have "ril_event_set a fd p f q (s\<lparr>s_last_wake_timeout_info := x, user_cbs := u\<rparr>)
      = (ril_event_set a fd p f q (s\<lparr>user_cbs := u\<rparr>))\<lparr>s_last_wake_timeout_info := x\<rparr>" for a fd p f q u
    by (simp add: ril_event_set_def)
  moreover have "triggerEvLoop (s\<lparr>s_last_wake_timeout_info := x\<rparr>) = (triggerEvLoop s)\<lparr>s_last_wake_timeout_info := x\<rparr>"
    for s by (simp add: triggerEvLoop_def)
  ultimately show ?thesis
    by (simp add: internalRequestTimedCallback_def Let_def) (simp split: option.splits)
qed

lemma schedule_release_inv:
  assumes "ril_inv fds L s ts ps"
  shows "\<exists>s' ts'. schedule_release s = Inr s' \<and> ril_inv fds True s' ts' ps"
proof -
  let ?l = "s_last_wake_timeout_info s"
  define s1 where "s1 = s\<lparr>user_cbs := set_userParam ?l 1 (user_cbs s)\<rparr>"
  have "0 \<notin> set (live s)" using ril_invD(3)[OF assms] by (auto simp: live_ok_def simp del: One_nat_def)
  then have "?l = 0 \<Longrightarrow> set_userParam ?l 1 (user_cbs s) = user_cbs s"
    by (intro set_userParam_id) (simp add: live_def)
  then have marked: "(if ?l \<noteq> 0 then s\<lparr>user_cbs := set_userParam ?l 1 (user_cbs s)\<rparr> else s) = s1"
    by (simp add: s1_def)
  have "ril_inv fds False (s1\<lparr>s_last_wake_timeout_info := 0\<rparr>) ts ps"
    using mark_inv[OF assms, of ?l 1] by (simp add: s1_def)
  from timed_inv[OF this, of WakeTimeoutCb 0 "Some TIMEVAL_WAKE_TIMEOUT"]
  obtain a s2 ts2 where s2: "internalRequestTimedCallback WakeTimeoutCb 0 (Some TIMEVAL_WAKE_TIMEOUT) s1 = Inr (a, s2)"
    "ril_inv fds False (s2\<lparr>s_last_wake_timeout_info := 0\<rparr>) ts2 ps" "a \<in> set ts2"
    "map_of (user_cbs s2) a = Some \<lparr>uc_callback = WakeTimeoutCb, uc_userParam = 0\<rparr>"
    unfolding timed_last map_sum_Inr by fastforce
  have "a \<noteq> 0" using ril_invD(1)[OF s2(2)] s2(3) by (auto simp: ev_inv_def)
  have "ril_inv fds True (s2\<lparr>s_last_wake_timeout_info := a\<rparr>) ts2 ps"
  proof -
    have "ril_inv fds False (s2\<lparr>s_last_wake_timeout_info := 0\<rparr>) ts2 ps = ril_inv fds True (s2\<lparr>s_last_wake_timeout_info := a\<rparr>) ts2 ps"
      using s2(3,4) \<open>a \<noteq> 0\<close> by (simp add: ril_inv_defs)
    then show ?thesis using s2(2) by simp
  qed
  then show ?thesis unfolding schedule_release_def Let_def marked using s2(1) by auto
qed

section \<open>Unsolicited messages\<close>

lemma send_unsol_inv:
  assumes "send_unsol E H c w p s = Inr s'" "ril_inv fds L s ts ps"
  shows "\<exists>ts'. ril_inv fds (w \<or> L) s' ts' ps"
proof -
  obtain r s1 where 1: "sendResponseRaw (p_data E p) s = Inr (r, s1)"
    using assms(1) by (auto simp: send_unsol_def sendResponse_def split: sum.splits)
  define s2 where "s2 = (if r \<noteq> 0 \<and> c = hword H ''RIL_UNSOL_NITZ_TIME_RECEIVED''
      then s1\<lparr>s_lastNITZTimeData := Some (p_data E p)\<rparr> else s1)"
  have inv: "ril_inv fds L s2 ts ps"
    using sendResponseRaw_inv[OF 1 assms(2)] by (simp add: s2_def)
  have "s' = s2 \<and> \<not> w \<or> w \<and> schedule_release s2 = Inr s'"
    using assms(1) 1 by (auto simp: send_unsol_def sendResponse_def Let_def s2_def split: if_splits)
  then show ?thesis
  proof (elim disjE conjE)
    assume "w" "schedule_release s2 = Inr s'"
    then show ?thesis using schedule_release_inv[OF inv] by auto
  qed (use inv in auto)
qed

lemma notify_if_inv:
  assumes "notify_if b upd send s = Inr s'" "ril_inv fds L s ts ps"
    and "\<And>s s' ts. send s = Inr s' \<Longrightarrow> ril_inv fds L s ts ps \<Longrightarrow> \<exists>ts'. ril_inv fds L s' ts' ps"
    and "\<And>ts. ril_inv fds L (upd s) ts ps = ril_inv fds L s ts ps"
  shows "\<exists>ts'. ril_inv fds L s' ts' ps"
  using assms by (cases b) (auto simp: notify_if_def)

lemma processRadioState_inv:
  assumes "processRadioState unsol H st s = Inr (new, s')" "ril_inv fds L s ts ps"
    and u: "\<And>c d n s s' ts. unsol c d n s = Inr s' \<Longrightarrow> ril_inv fds L s ts ps \<Longrightarrow> \<exists>ts'. ril_inv fds L s' ts' ps"
  shows "\<exists>ts'. ril_inv fds L s' ts' ps"
proof (cases "sint st > hval H ''RADIO_STATE_UNAVAILABLE'' \<and> sint st < hval H ''RADIO_STATE_ON''")
  case True
  let ?tech = "decodeVoiceRadioTechnology H st" and ?src = "decodeCdmaSubscriptionSource H st"
    and ?sim = "decodeSimStatus H st"
  obtain s1 s2 where 1: "notify_if (?tech \<noteq> voiceRadioTech s) (\<lambda>s. s\<lparr>voiceRadioTech := ?tech\<rparr>)
      (unsol (hword H ''RIL_UNSOL_VOICE_RADIO_TECH_CHANGED'') (Some (Ints [?tech])) sizeof_int) s = Inr s1"
    and 2: "notify_if (is3gpp2 H ?tech \<and> ?src \<noteq> cdmaSubscriptionSource s1) (\<lambda>s. s\<lparr>cdmaSubscriptionSource := ?src\<rparr>)
      (unsol (hword H ''RIL_UNSOL_CDMA_SUBSCRIPTION_SOURCE_CHANGED'') (Some (Ints [?src])) sizeof_int) s1 = Inr s2"
    and 3: "notify_if (?sim \<noteq> simRuimStatus s2) (\<lambda>s. s\<lparr>simRuimStatus := ?sim\<rparr>)
      (unsol (hword H ''RIL_UNSOL_RESPONSE_SIM_STATUS_CHANGED'') None 0) s2 = Inr s'"
    using assms(1) True unfolding processRadioState_def Let_def by (auto split: sum.splits)
  have "\<exists>ts'. ril_inv fds L s1 ts' ps" by (rule notify_if_inv[OF 1 assms(2)]) (erule (1) u, simp)
  then obtain ts1 where i1: "ril_inv fds L s1 ts1 ps" by blast
  have "\<exists>ts'. ril_inv fds L s2 ts' ps" by (rule notify_if_inv[OF 2 i1]) (erule (1) u, simp)
  then obtain ts2 where i2: "ril_inv fds L s2 ts2 ps" by blast
  show ?thesis by (rule notify_if_inv[OF 3 i2]) (erule (1) u, simp)
next
  case False
  then show ?thesis using assms(1,2) unfolding processRadioState_def by auto
qed

text \<open>The two ways through \<open>RIL_onUnsolicitedResponse\<close>: the early returns and the rest.\<close>

definition unsol_known :: "ril_h \<Rightarrow> i32 \<Rightarrow> bool" where
  "unsol_known H c \<longleftrightarrow> 0 \<le> sint c - hval H ''RIL_UNSOL_RESPONSE_BASE'' \<and>
     sint c - hval H ''RIL_UNSOL_RESPONSE_BASE'' < int (length (s_unsolResponses H))"

definition unsol_info :: "ril_h \<Rightarrow> i32 \<Rightarrow> UnsolResponseInfo" where
  "unsol_info H c = s_unsolResponses H ! nat (sint c - hval H ''RIL_UNSOL_RESPONSE_BASE'')"

definition unsol_wake :: "ril_h \<Rightarrow> i32 \<Rightarrow> bool" where
  "unsol_wake H c \<longleftrightarrow> wakeType (unsol_info H c) = WAKE_PARTIAL"

definition unsol_payload :: "'p ext \<Rightarrow> ril_h \<Rightarrow> i32 \<Rightarrow> i32 \<Rightarrow> cdata option \<Rightarrow> nat \<Rightarrow> ('p, i32 result) state" where
  "unsol_payload E H version c dat n = do { p_writeInt32 E RESPONSE_UNSOLICITED; p_writeInt32 E c;
     call_response E H version (unsolFunction (unsol_info H c)) dat n }"

lemma unsol_ignored:
  assumes "unsol_conv H code = None \<or> \<not> s_registerCalled s \<or> unsol_conv H code = Some c \<and> \<not> unsol_known H c"
  shows "RIL_onUnsolicitedResponse E H (Suc depth) code dat n s = Inr s"
  using assms by (auto simp: Let_def unsol_known_def split: option.splits)

lemma unsol_body:
  assumes "unsol_conv H code = Some c" "s_registerCalled s" "unsol_known H c"
    and s1: "s1 = (if unsol_wake H c then grabPartialWakeLock s else s)"
    and run: "run_state (unsol_payload E H (cb_version s1) c dat n) (p_new E) = (r, p)"
  shows "RIL_onUnsolicitedResponse E H (Suc depth) code dat n s = (case r of
       Inl f \<Rightarrow> Inl f
     | Inr rc \<Rightarrow>
         if rc \<noteq> 0 then Inr (if unsol_wake H c then releaseWakeLock s1 else s1)
         else if c = hword H ''RIL_UNSOL_RESPONSE_RADIO_STATE_CHANGED'' then
           (case processRadioState (RIL_onUnsolicitedResponse E H depth) H (radioState s1) s1 of
              Inl f \<Rightarrow> Inl f
            | Inr (newState, s2) \<Rightarrow>
                send_unsol E H c (unsol_wake H c) (snd (run_state (p_writeInt32 E newState) p)) s2)
         else if c = hword H ''RIL_UNSOL_NITZ_TIME_RECEIVED'' then
           send_unsol E H c (unsol_wake H c) (snd (run_state (p_writeInt64 E (elapsed s1)) p)) s1
         else send_unsol E H c (unsol_wake H c) p s1)"
  using assms(1-3) run unfolding RIL_onUnsolicitedResponse.simps Let_def unsol_payload_def
  by (simp only: option.case unsol_info_def[symmetric] unsol_wake_def[symmetric] s1[symmetric] prod.case)
    (simp add: unsol_known_def)

lemma unsol_inv:
  "RIL_onUnsolicitedResponse E H depth code dat n s = Inr s' \<Longrightarrow> ril_inv fds L s ts ps \<Longrightarrow>
    \<exists>ts'. ril_inv fds L s' ts' ps"
proof (induction depth arbitrary: code dat n s s' L ts)
  case (Suc depth)
  show ?case
  proof (cases "\<exists>c. unsol_conv H code = Some c \<and> s_registerCalled s \<and> unsol_known H c")
    case False
    then have "RIL_onUnsolicitedResponse E H (Suc depth) code dat n s = Inr s"
      by (intro unsol_ignored[where c = "the (unsol_conv H code)"]) auto
    then show ?thesis using Suc.prems by auto
  next
    case True
    then obtain c where c: "unsol_conv H code = Some c" "s_registerCalled s" "unsol_known H c" by blast
    define w where "w = unsol_wake H c"
    define s1 where "s1 = (if w then grabPartialWakeLock s else s)"
    have s1: "ril_inv fds (\<not> w \<and> L) s1 ts ps"
      using Suc.prems(2) ril_inv_lock(1) by (cases w) (simp_all add: s1_def grabPartialWakeLock_def)
    have send: "\<exists>ts'. ril_inv fds L s' ts' ps"
      if "send_unsol E H c w q s2 = Inr s'" "ril_inv fds (\<not> w \<and> L) s2 ts2 ps" for q s2 ts2
      using send_unsol_inv[OF that] ril_inv_weaken[of fds "w \<or> \<not> w \<and> L" s' _ ps L] by blast
    have err: "ril_inv fds L (if w then releaseWakeLock s1 else s1) ts ps"
      using s1 ril_inv_lock(2)[of fds s1] by (cases w) (simp_all add: releaseWakeLock_def)
    have rad: "\<exists>ts'. ril_inv fds L s' ts' ps"
      if "processRadioState (RIL_onUnsolicitedResponse E H depth) H st s1 = Inr (new, s2)"
        "send_unsol E H c w q s2 = Inr s'" for st new s2 q
    proof -
      have "\<exists>ts'. ril_inv fds (\<not> w \<and> L) s2 ts' ps"
        by (rule processRadioState_inv[OF that(1) s1]) (erule (1) Suc.IH)
      then show ?thesis using send[OF that(2)] by blast
    qed
    obtain r p where run: "run_state (unsol_payload E H (cb_version s1) c dat n) (p_new E) = (r, p)"
      by fastforce
    note body = unsol_body[OF c s1_def[unfolded w_def] run, folded w_def]
    show ?thesis using Suc.prems(1) err send[OF _ s1] rad unfolding body
      by (auto split: sum.splits if_splits prod.splits)
  qed
qed simp

section \<open>Connections\<close>

lemma add_fields:
  "ev_state.more (ril_event_add ev s) = ev_state.more s"
  "ev_next (ev_heap (ril_event_add ev s) x) = ev_next (ev_heap s x)"
  "ev_prev (ev_heap (ril_event_add ev s) x) = ev_prev (ev_heap s x)"
  "ev_fd (ev_heap (ril_event_add ev s) x) = ev_fd (ev_heap s x)"
  "ev_persist (ev_heap (ril_event_add ev s) x) = ev_persist (ev_heap s x)"
  "ev_func (ev_heap (ril_event_add ev s) x) = ev_func (ev_heap s x)"
  "ev_param (ev_heap (ril_event_add ev s) x) = ev_param (ev_heap s x)"
  "ev_timeout (ev_heap (ril_event_add ev s) x) = ev_timeout (ev_heap s x)"
  by (auto simp: ril_event_add_def Let_def split: option.splits)

lemma add_watched:
  "ev \<noteq> 0 \<Longrightarrow> set (watched (ril_event_add ev s)) \<subseteq> insert ev (set (watched s))"
  using set_update_subset_insert[of "watch_table s"]
  by (auto simp: ril_event_add_def Let_def split: option.splits)

lemma del_fields:
  "ev_state.more (ril_event_del ev s) = ev_state.more s"
  "ev_next (ev_heap (ril_event_del ev s) x) = ev_next (ev_heap s x)"
  "ev_prev (ev_heap (ril_event_del ev s) x) = ev_prev (ev_heap s x)"
  "ev_fd (ev_heap (ril_event_del ev s) x) = ev_fd (ev_heap s x)"
  "ev_persist (ev_heap (ril_event_del ev s) x) = ev_persist (ev_heap s x)"
  "ev_func (ev_heap (ril_event_del ev s) x) = ev_func (ev_heap s x)"
  "ev_param (ev_heap (ril_event_del ev s) x) = ev_param (ev_heap s x)"
  "ev_timeout (ev_heap (ril_event_del ev s) x) = ev_timeout (ev_heap s x)"
  by (auto simp: ril_event_del_def removeWatch_def Let_def)

lemma ev_inv_links:
  assumes "\<And>x. ev_next (ev_heap s' x) = ev_next (ev_heap s x)" "\<And>x. ev_prev (ev_heap s' x) = ev_prev (ev_heap s x)"
    "\<And>x. timeout_of s' x = timeout_of s x"
  shows "ev_inv s' ts ps = ev_inv s ts ps"
  unfolding ev_inv_def timers_sorted_def assms(3) using dll_heap_cong[of "ev_heap s'" "ev_heap s"] assms(1,2) by simp

text \<open>Adding and deleting watches keeps the rest of the state, when the static events come out right.\<close>

lemma ril_inv_watch:
  assumes "ril_inv fds L s ts ps"
    and links: "\<And>x. ev_next (ev_heap s' x) = ev_next (ev_heap s x)" "\<And>x. ev_prev (ev_heap s' x) = ev_prev (ev_heap s x)"
      "\<And>x. timeout_of s' x = timeout_of s x" "\<And>x. ev_func (ev_heap s' x) = ev_func (ev_heap s x)"
      "\<And>x. ev_param (ev_heap s' x) = ev_param (ev_heap s x)"
    and "ev_state.more s' = ev_state.more s" "tab_inv s'" "fds_ok fds s'" "statics_ok s' ps"
  shows "ril_inv fds L s' ts ps"
proof -
  note i = ril_invD[OF assms(1)] and c = core_cong[OF assms(7)]
  have "ev_inv s' ts ps" using i(1) ev_inv_links[of s' s] links(1-3) by simp
  moreover have "live_ok s'" using i(3) live_cong[OF assms(7)] by (simp add: live_ok_def)
  moreover have "wake_ok L s' ts ps" using i(6) by (simp add: wake_ok_def c)
  moreover have "timer_block s' x = timer_block s x" for x by (simp add: timer_block_def links c)
  ultimately show ?thesis using i(7,8) assms(8-10) by (simp add: ril_inv_def)
qed

lemma readFds_fds:
  assumes "ril_inv fds L s ts ps"
  shows "readFds s = (\<lambda>a. ev_fd (ev_heap s a)) ` set (watched s)" "set (watched s) \<subseteq> statics"
    "\<And>a. a \<in> statics - {s_commands_event} \<Longrightarrow> ev_fd (ev_heap s a) = fds a"
    "inj_on fds (statics - {s_commands_event})"
  using ril_invD(2,4,5)[OF assms] by (auto simp: tab_inv_def statics_ok_def fds_ok_def static_defs inj_on_def)

text \<open>Listening again.\<close>

lemma listen_again_inv:
  assumes "ril_inv fds L s ts ps" "\<not> active s ps s_listen_event" "\<not> active s ps s_commands_event"
  shows "ril_inv fds L (rilEventAddWakeup s_listen_event s) ts ps"
proof -
  let ?l = s_listen_event and ?s = "ril_event_add s_listen_event s"
  note i = ril_invD[OF assms(1)] and r = readFds_fds[OF assms(1)]
  have l: "?l \<noteq> 0" "?l \<in> statics - {s_commands_event}" "?l \<notin> set (watch_table s)"
    using assms(2) by (auto simp: static_defs active_def)
  have fd: "0 \<le> ev_fd (ev_heap s ?l)" using i(4) l(2) by (auto simp: fds_ok_def)
  have ne: "a \<noteq> s_commands_event" "a \<noteq> ?l" if "a \<in> set (watched s)" for a
    using assms(2,3) that by (auto simp: active_def)
  have "ev_fd (ev_heap s ?l) \<notin> readFds s"
  proof
    assume "ev_fd (ev_heap s ?l) \<in> readFds s"
    then obtain a where a: "a \<in> set (watched s)" "ev_fd (ev_heap s a) = ev_fd (ev_heap s ?l)"
      using r(1) by auto
    then have "a \<in> statics - {s_commands_event}" using r(2) ne(1) by auto
    then have "fds a = fds ?l" using a(2) r(3) l(2) by metis
    then show False using inj_onD[OF r(4) _ \<open>a \<in> statics - {s_commands_event}\<close> l(2)] ne(2)[OF a(1)] by blast
  qed
  then have tab: "tab_inv ?s" using event_add_inv[OF i(2) l(1,3) fd] by blast
  have w: "set (watched ?s) \<subseteq> insert ?l (set (watched s))" by (rule add_watched[OF l(1)])
  have "s_commands_event \<noteq> ?l" by (simp add: static_defs)
  then have nc: "s_commands_event \<notin> set (watched ?s)" using w ne(1) by blast
  have "fds_ok fds ?s" using i(4) nc unfolding fds_ok_def add_fields by blast
  moreover have "statics_ok ?s ps"
    using i(5) w assms(2,3) l(2) unfolding statics_ok_def active_def add_fields
    by (auto simp: static_func_def static_defs)
  ultimately have "ril_inv fds L ?s ts ps"
    using tab by (intro ril_inv_watch[OF assms(1)]) (simp_all add: add_fields)
  then show ?thesis by (simp add: rilEventAddWakeup_def triggerEvLoop_def)
qed

text \<open>A new connection: \<open>accept\<close> never returns a descriptor that is in use.\<close>

definition accept_ok :: "(addr \<Rightarrow> int) \<Rightarrow> int \<Rightarrow> bool" where
  "accept_ok fds fd \<longleftrightarrow> fd \<notin> fds ` (statics - {s_commands_event})"

lemma connect_inv:
  assumes "ril_inv fds L s ts ps" "\<not> active s ps s_listen_event" "\<not> active s ps s_commands_event"
    "0 \<le> fd" "accept_ok fds fd"
  shows "ril_inv fds L (rilEventAddWakeup s_commands_event
    (ril_event_set s_commands_event fd True F_processCommands 0 s)) ts ps"
proof -
  let ?c = s_commands_event
  let ?s1 = "ril_event_set ?c fd True F_processCommands 0 s"
  note i = ril_invD[OF assms(1)] and r = readFds_fds[OF assms(1)]
  have c: "?c \<noteq> 0" "?c \<in> statics" "?c \<notin> set (watch_table s)"
    using assms(3) by (auto simp: static_defs active_def)
  have fr: "fresh_event ts ps ?c"
    using i(7) timer_not_static[OF i(3)] c(2) assms(3)
    by (auto simp: fresh_event_def active_def static_defs timer_list_def pending_list_def)
  have h: "ev_heap ?s1 x = (if x = ?c then zero_event\<lparr>ev_fd := fd, ev_index := - 1, ev_persist := True,
      ev_func := F_processCommands, ev_param := 0\<rparr> else ev_heap s x)" for x
    by (simp add: ril_event_set_def)
  have t1: "watch_table ?s1 = watch_table s" "readFds ?s1 = readFds s" "nfds ?s1 = nfds s"
    "ev_state.more ?s1 = ev_state.more s" by (simp_all add: ril_event_set_def)
  have wc: "a \<noteq> ?c" if "a \<in> set (watched s)" for a using assms(3) that by (auto simp: active_def)
  have "tab_inv ?s1" by (rule tab_inv_local[OF t1(1-3) _ i(2)]) (use wc h in auto)
  moreover have "fd \<notin> readFds s"
  proof
    assume "fd \<in> readFds s"
    then obtain a where a: "a \<in> set (watched s)" "ev_fd (ev_heap s a) = fd" using r(1) by auto
    then have "a \<in> statics - {?c}" using r(2) wc by auto
    then show False using assms(5) r(3) a(2) by (auto simp: accept_ok_def)
  qed
  ultimately have tab: "tab_inv (ril_event_add ?c ?s1)"
    using event_add_inv[of ?s1 ?c] c t1 h assms(4) by simp
  have "ev_inv ?s1 ts ps" using ev_inv_local[OF fr, of s] i(1) by (simp add: ril_event_set_def)
  then have ev: "ev_inv (ril_event_add ?c ?s1) ts ps"
    using ev_inv_links[of "ril_event_add ?c ?s1" ?s1] by (simp add: add_fields)
  have w: "set (watched (ril_event_add ?c ?s1)) \<subseteq> insert ?c (set (watched s))"
    using add_watched[OF c(1), of ?s1] t1 by simp
  have core: "ev_state.more (ril_event_add ?c ?s1) = ev_state.more s" by (simp add: add_fields t1)
  note cc = core_cong[OF core]
  have "fds_ok fds (ril_event_add ?c ?s1)"
    using i(4) assms(5) unfolding fds_ok_def add_fields h accept_ok_def by auto
  moreover have "statics_ok (ril_event_add ?c ?s1) ps"
    using i(5) w assms(2,3) c(2) unfolding statics_ok_def active_def add_fields h
    by (auto simp: static_func_def static_defs)
  moreover have "timer_block (ril_event_add ?c ?s1) x = timer_block s x" if "x \<noteq> ?c" for x
    using that by (simp add: timer_block_def add_fields h cc)
  moreover have "\<forall>a \<in> set ts. a \<noteq> ?c" "\<forall>a \<in> set ps. a \<noteq> ?c" using fr by (auto simp: fresh_event_def)
  moreover have "live_ok (ril_event_add ?c ?s1)" using i(3) live_cong[OF core] by (simp add: live_ok_def)
  moreover have "wake_ok L (ril_event_add ?c ?s1) ts ps" using i(6) by (simp add: wake_ok_def cc)
  ultimately have "ril_inv fds L (ril_event_add ?c ?s1) ts ps"
    using ev tab i(7,8) by (simp add: ril_inv_def)
  then show ?thesis by (simp add: rilEventAddWakeup_def triggerEvLoop_def)
qed

lemma unsol_response_inv:
  "RIL_UNSOL_RESPONSE E H c d n s = Inr s' \<Longrightarrow> ril_inv fds L s ts ps \<Longrightarrow> \<exists>ts'. ril_inv fds L s' ts' ps"
  unfolding RIL_UNSOL_RESPONSE_def by (rule unsol_inv)

lemma onNewCommandConnect_inv:
  assumes "onNewCommandConnect E H s = Inr s'" "ril_inv fds L s ts ps"
  shows "\<exists>ts'. ril_inv fds L s' ts' ps"
proof -
  obtain s1 s2 where
    1: "RIL_UNSOL_RESPONSE E H RIL_UNSOL_RIL_CONNECTED_V3 (Some (Ints [cb_version s])) sizeof_int s = Inr s1"
    and 2: "RIL_UNSOL_RESPONSE E H (hword H ''RIL_UNSOL_RESPONSE_RADIO_STATE_CHANGED'') None 0 s1 = Inr s2"
    using assms(1) by (auto simp: onNewCommandConnect_def split: sum.splits)
  obtain ts1 where "ril_inv fds L s1 ts1 ps" using unsol_response_inv[OF 1 assms(2)] by blast
  then obtain ts2 where i2: "ril_inv fds L s2 ts2 ps" using unsol_response_inv[OF 2] by blast
  show ?thesis
  proof (cases "s_lastNITZTimeData s2")
    case None
    then show ?thesis using assms(1) 1 2 i2 by (auto simp: onNewCommandConnect_def)
  next
    case (Some d)
    then obtain r s3 where s3: "sendResponseRaw d s2 = Inr (r, s3)"
      using assms(1) 1 2 by (auto simp: onNewCommandConnect_def map_sum_Inr split: sum.splits)
    have "ril_inv fds L s3 ts2 ps" by (rule sendResponseRaw_inv[OF s3 i2])
    then show ?thesis using assms(1) 1 2 Some s3 by (auto simp: onNewCommandConnect_def)
  qed
qed

lemma listenCallback_inv:
  assumes "listenCallback E H fd pw s = Inr s'" "ril_inv fds L s ts ps" "accept_ok fds fd"
    "\<not> active s ps s_listen_event" "\<not> active s ps s_commands_event"
  shows "\<exists>ts'. ril_inv fds L s' ts' ps"
proof -
  have closed: "ril_inv fds L (rilEventAddWakeup s_listen_event (onCommandsSocketClosed s)) ts ps"
    using assms(4,5) by (intro listen_again_inv onCommandsSocketClosed_inv[OF assms(2)])
      (simp_all add: active_def onCommandsSocketClosed_def)
  consider "fd < 0" | "0 \<le> fd" "pw \<noteq> Some PHONE_PROCESS" | "0 \<le> fd" "pw = Some PHONE_PROCESS" by linarith
  then show ?thesis
  proof cases
    case 1
    then show ?thesis using assms(1) listen_again_inv[OF assms(2,4,5)] by (auto simp: listenCallback_def)
  next
    case 2
    then show ?thesis using assms(1) closed by (auto simp: listenCallback_def)
  next
    case 3
    have "ril_inv fds L (s\<lparr>fdCommand := fd, sock_out := []\<rparr>) ts ps" using assms(2) by simp
    from connect_inv[OF this _ _ 3(1) assms(3)] 3 assms(1,4,5) onNewCommandConnect_inv
    show ?thesis by (simp add: listenCallback_def Let_def active_def) blast
  qed
qed

lemma disconnect_inv:
  assumes "ril_inv fds L s ts ps" "s_commands_event \<in> set (watched s)" "s_commands_event \<notin> set ps"
  shows "ril_inv fds L (ril_event_del s_commands_event s) ts ps"
    "set (watched (ril_event_del s_commands_event s)) = set (watched s) - {s_commands_event}"
proof -
  let ?c = s_commands_event and ?s = "ril_event_del s_commands_event s"
  note i = ril_invD[OF assms(1)]
  obtain j where j: "j < length (watch_table s)" "watch_table s ! j = ?c"
    using assms(2) by (auto simp: in_set_conv_nth)
  then have "j < MAX_FD_EVENTS" "ev_index (ev_heap s ?c) = int j" "?c \<noteq> 0"
    using i(2) by (auto simp: tab_inv_def static_defs)
  note d = event_del_inv[OF i(2) this(2,1) j(2) this(3)]
  show w: "set (watched ?s) = set (watched s) - {?c}" by (rule d(2))
  have "fds_ok fds ?s" using i(4) w unfolding fds_ok_def del_fields by blast
  moreover have "statics_ok ?s ps"
    using i(5) assms(3) unfolding statics_ok_def active_def del_fields w by blast
  ultimately show "ril_inv fds L ?s ts ps"
    using d(1) by (intro ril_inv_watch[OF assms(1)]) (simp_all add: del_fields)
qed

text \<open>Handling a command does not touch the events.\<close>

lemma complete_events:
  "RIL_onRequestComplete E H a e r n s = Inr s' \<Longrightarrow> watch_table s' = watch_table s"
proof (cases "a = 0 \<or> map_of (s_pendingRequests s) a = None")
  case False
  then obtain pRI where p: "a \<noteq> 0" "map_of (s_pendingRequests s) a = Some pRI" by auto
  assume "RIL_onRequestComplete E H a e r n s = Inr s'"
  then show ?thesis using complete_effect[OF p, of E H e r n s'] by auto
next
  case True
  assume "RIL_onRequestComplete E H a e r n s = Inr s'"
  then show ?thesis using complete_unknown[OF True, of E H e r n] by simp
qed

lemma run_actions_events: "run_actions E H a xs s = Inr s' \<Longrightarrow> watch_table s' = watch_table s"
proof (induction xs arbitrary: s)
  case (Cons x xs)
  have "watch_table s1 = watch_table s" if "run_action E H a x s = Inr s1" for s1
    using that by (cases x) (auto dest: complete_events)
  then show ?case using Cons by (auto split: sum.splits)
qed simp

lemma processCommandBuffer_events:
  assumes "processCommandBuffer E H buffer s = Inr s'"
  shows "watch_table s' = watch_table s"
proof -
  obtain r1 request p1 where 1: "run_state (p_readInt32 E) (p_setData E buffer) = ((r1, request), p1)"
    by (metis prod.exhaust)
  obtain status token p2 where 2: "run_state (p_readInt32 E) p1 = ((status, token), p2)"
    by (metis prod.exhaust)
  have "watch_table s' = watch_table s" if "sendResponseRaw dat s = Inr (r, s')" for dat r s'
    using sendResponseRaw_frame[OF that] by auto
  then show ?thesis using assms 1 2
    by (auto simp: processCommandBuffer_def sendResponse_def Let_def map_sum_Inr enqueue_def
        split: if_splits sum.splits prod.splits dest!: run_actions_events)
qed

lemma close_inv:
  assumes "ril_inv fds L s ts ps" "s_commands_event \<in> set (watched s)" "s_commands_event \<notin> set ps"
  shows "ril_inv fds L (onCommandsSocketClosed (rilEventAddWakeup s_listen_event
    (ril_event_del s_commands_event (s\<lparr>fdCommand := - 1\<rparr>)))) ts ps"
proof -
  let ?s = "s\<lparr>fdCommand := - 1\<rparr>"
  have inv: "ril_inv fds L ?s ts ps" "s_commands_event \<in> set (watched ?s)" using assms(1,2) by simp_all
  note d = disconnect_inv[OF inv assms(3)]
  have "s_listen_event \<noteq> s_commands_event" by (simp add: static_defs)
  then have "\<not> active (ril_event_del s_commands_event ?s) ps s_listen_event"
    "\<not> active (ril_event_del s_commands_event ?s) ps s_commands_event"
    using ril_invD(5)[OF inv(1)] inv(2) assms(3) unfolding statics_ok_def active_def d(2) by blast+
  then show ?thesis by (intro onCommandsSocketClosed_inv listen_again_inv d(1))
qed

lemma processCommandsCallback_inv:
  "processCommandsCallback E H rs s = Inr s' \<Longrightarrow> ril_inv fds L s ts ps \<Longrightarrow>
    s_commands_event \<in> set (watched s) \<Longrightarrow> s_commands_event \<notin> set ps \<Longrightarrow> ril_inv fds L s' ts ps"
proof (induction rs arbitrary: s)
  case (Cons e rs)
  show ?case
  proof (cases e)
    case (Record r)
    then obtain s1 where s1: "processCommandBuffer E H r s = Inr s1" "processCommandsCallback E H rs s1 = Inr s'"
      using Cons.prems(1) by (auto split: sum.splits)
    then show ?thesis using Cons.prems(2-4) processCommandBuffer_events[OF s1(1)]
      by (intro Cons.IH[OF s1(2) processCommandBuffer_inv[OF s1(1)]]) simp_all
  qed (use Cons.prems close_inv[OF Cons.prems(2-4)] in \<open>simp_all add: Let_def\<close>)
qed simp

section \<open>Firing an event\<close>

lemma removeFromList_fields:
  "watch_table (removeFromList x s) = watch_table s" "readFds (removeFromList x s) = readFds s"
  "nfds (removeFromList x s) = nfds s" "ev_state.more (removeFromList x s) = ev_state.more s"
  by (simp_all add: removeFromList_def Let_def)

text \<open>An event is taken off the pending list; its callback may change the live blocks and the wake lock.\<close>

lemma ril_inv_fired:
  assumes "ril_inv fds L s ts (x # ps)" and h: "ev_heap s' = ev_heap (removeFromList x s)"
    and w: "watch_table s' = watch_table s" "readFds s' = readFds s" "nfds s' = nfds s"
    and "live_ok s'" "wake_ok L s' ts ps"
    and k: "\<And>a. a \<noteq> x \<Longrightarrow> a \<in> fst ` set (user_cbs s) \<Longrightarrow> a \<in> fst ` set (user_cbs s')"
  shows "ril_inv fds L s' ts ps"
proof -
  note i = ril_invD[OF assms(1)]
  have "ev_inv (removeFromList x s) ts ps" by (rule remove_pending[OF i(1)])
  then have ev: "ev_inv s' ts ps" by (simp add: ev_inv_def timers_sorted_def h)
  have "tab_inv (removeFromList x s)" using i(2) tab_inv_cong[OF same_data_links(2)] by blast
  then have tab: "tab_inv s'" by (simp add: tab_inv_def h w removeFromList_fields)
  have "fds_ok fds s'" using i(4) by (simp add: fds_ok_def h w)
  moreover have "statics_ok s' ps" using i(5) by (auto simp: statics_ok_def active_def h w)
  moreover have "timer_block s a \<Longrightarrow> a \<noteq> x \<Longrightarrow> timer_block s' a" for a
    using k by (simp add: timer_block_def h)
  moreover have "\<forall>a \<in> set ts. a \<noteq> x" "\<forall>a \<in> set ps. a \<noteq> x" using i(1) by (auto simp: ev_inv_def)
  ultimately show ?thesis using ev tab assms(6,7) i(7,8) by (auto simp: ril_inv_def)
qed

lemma last_in_keys:
  assumes "ril_inv fds L s ts ps" "s_last_wake_timeout_info s \<noteq> 0"
  shows "s_last_wake_timeout_info s \<in> fst ` set (user_cbs s)"
  using ril_invD(6)[OF assms(1)] assms(2) map_of_eq_None_iff[of "user_cbs s" "s_last_wake_timeout_info s"]
  by (auto simp: wake_ok_def)

lemma keys_live:
  assumes "live_ok s" "a \<in> fst ` set (user_cbs s)"
  shows "9 < a"
  using assms by (auto simp: live_ok_def live_def simp del: Un_iff)

text \<open>A static event that is taken off the pending list leaves the invariant as it is.\<close>

lemma fired_static_inv:
  assumes "ril_inv fds L s ts (x # ps)" "x \<in> statics"
  shows "ril_inv fds L (removeFromList x s) ts ps"
proof (rule ril_inv_fired[OF assms(1)])
  note i = ril_invD[OF assms(1)] and c = core_cong[OF removeFromList_fields(4)]
  have "s_last_wake_timeout_info s \<noteq> x" if "s_last_wake_timeout_info s \<noteq> 0"
    using keys_live[OF i(3) last_in_keys[OF assms(1) that]] assms(2) by (auto simp: static_defs)
  then show "wake_ok L (removeFromList x s) ts ps" using i(6) by (auto simp: wake_ok_def c)
  show "live_ok (removeFromList x s)" using i(3) live_cong[OF removeFromList_fields(4)] by (simp add: live_ok_def)
qed (simp_all add: removeFromList_fields core_cong[OF removeFromList_fields(4)])

lemma unlink_live:
  assumes "live_ok s" "s_pendingRequests s' = s_pendingRequests s" "user_cbs s' = unlink x (user_cbs s)"
  shows "live_ok s'"
proof -
  have l: "distinct (map fst (user_cbs s))" "distinct (map fst (s_pendingRequests s))"
    "set (map fst (s_pendingRequests s)) \<inter> set (map fst (user_cbs s)) = {}"
    "\<forall>a \<in> set (map fst (s_pendingRequests s)) \<union> set (map fst (user_cbs s)). 9 < a"
    using assms(1) unfolding live_ok_def live_def distinct_append set_append by auto
  have "set (map fst (unlink x (user_cbs s))) \<subseteq> set (map fst (user_cbs s))"
    using fst_unlink[OF l(1), of x] by auto
  then show ?thesis using l distinct_unlink[OF l(1)]
    unfolding live_ok_def live_def assms(2,3) distinct_append set_append by blast
qed

lemma call_timed_fields:
  "ev_heap (call_timed c p s) = ev_heap s" "watch_table (call_timed c p s) = watch_table s"
  "readFds (call_timed c p s) = readFds s" "nfds (call_timed c p s) = nfds s"
  "user_cbs (call_timed c p s) = user_cbs s" "s_pendingRequests (call_timed c p s) = s_pendingRequests s"
  "s_last_wake_timeout_info (call_timed c p s) = s_last_wake_timeout_info s"
  "wake_lock (call_timed c p s) = (wake_lock s \<and> \<not> (c = WakeTimeoutCb \<and> p = 0))"
  by (cases c; simp add: wakeTimeoutCallback_def releaseWakeLock_def)+

text \<open>A timer that fires finds its block, runs and frees it.\<close>

lemma timer_fires:
  assumes "ril_inv fds L s ts (x # ps)" "x \<notin> statics"
  shows "\<exists>s'. userTimerCallback x (removeFromList x s) = Inr s' \<and> ril_inv fds L s' ts ps"
proof -
  let ?s = "removeFromList x s"
  note i = ril_invD[OF assms(1)] and f = removeFromList_fields[of x s] and c = core_cong[OF removeFromList_fields(4)]
  obtain p_info where b: "map_of (user_cbs s) x = Some p_info"
    using i(8) assms(2) map_of_eq_None_iff[of "user_cbs s" x] by (auto simp: timer_block_def)
  have "x \<noteq> 0" using i(1) by (auto simp: ev_inv_def)
  define s1 where "s1 = call_timed (uc_callback p_info) (uc_userParam p_info) ?s"
  define s2 where "s2 = (if s_last_wake_timeout_info s1 \<noteq> 0 \<and> s_last_wake_timeout_info s1 = x
      then s1\<lparr>s_last_wake_timeout_info := 0\<rparr> else s1)"
  define s3 where "s3 = s2\<lparr>user_cbs := unlink x (user_cbs s2)\<rparr>"
  have run: "userTimerCallback x ?s = Inr s3"
    using b by (simp add: userTimerCallback_def c Let_def s3_def s2_def s1_def)
  have s3: "ev_heap s3 = ev_heap ?s" "watch_table s3 = watch_table s" "readFds s3 = readFds s" "nfds s3 = nfds s"
    "s_pendingRequests s3 = s_pendingRequests s" "user_cbs s3 = unlink x (user_cbs s)"
    "s_last_wake_timeout_info s3 = (if s_last_wake_timeout_info s = x then 0 else s_last_wake_timeout_info s)"
    "wake_lock s3 = (wake_lock s \<and> \<not> (uc_callback p_info = WakeTimeoutCb \<and> uc_userParam p_info = 0))"
    using \<open>x \<noteq> 0\<close> by (simp_all add: s3_def s2_def s1_def call_timed_fields f c)
  have d: "distinct (map fst (user_cbs s))" using i(3) by (simp add: live_ok_def live_def)
  have "ril_inv fds L s3 ts ps"
  proof (rule ril_inv_fired[OF assms(1) s3(1-4)])
    show "live_ok s3" by (rule unlink_live[OF i(3) s3(5,6)])
    show "wake_ok L s3 ts ps"
      using i(6) b unfolding wake_ok_def s3(6-8) map_of_unlink[OF d] by auto
    fix a assume "a \<noteq> x" "a \<in> fst ` set (user_cbs s)"
    then show "a \<in> fst ` set (user_cbs s3)" unfolding s3(6) fst_unlink[OF d] by blast
  qed
  then show ?thesis using run by blast
qed

end
