(* ===== verification/Ril_System.thy ===== *)
theory Ril_System
  imports Ril_Invariant
begin

text \<open>
  The library as a system: its callbacks under the event loop, the steps that the loop, the vendor
  library and the environment take in any order, and what holds in every reachable state.
\<close>

section \<open>Callbacks\<close>

lemma local_request_inv:
  "local_request H name dat len s = Inr s' \<Longrightarrow> ril_inv fds L s ts ps \<Longrightarrow> ril_inv fds L s' ts ps"
  unfolding local_request_def by (rule issueLocalRequest_inv)

lemma debugCallback_inv:
  assumes "debugCallback E H dbg uus s = Inr s'" "ril_inv fds L s ts ps"
  shows "\<exists>ts'. ril_inv fds L s' ts' ps"
proof -
  have loc: "\<exists>ts'. ril_inv fds L s1 ts' ps" if "local_request H m d n s = Inr s1" for m d n s1
    using local_request_inv[OF that assms(2)] by blast
  have two: "\<exists>ts'. ril_inv fds L s2 ts' ps"
    if "local_request H m1 d1 n1 s = Inr s1" "local_request H m2 d2 n2 s1 = Inr s2" for m1 d1 n1 m2 d2 n2 s1 s2
    using local_request_inv[OF that(2)] loc[OF that(1)] by blast
  note uns = unsol_response_inv[OF _ assms(2)]
  show ?thesis
  proof (cases dbg)
    case (Some args)
    then show ?thesis using assms
      by (cases args) (auto simp: debugCallback_def Let_def map_sum_Inr split: list.splits if_splits sum.splits
        intro: loc two uns)
  qed (use assms in \<open>auto simp: debugCallback_def\<close>)
qed

lemma ril_call_inv:
  assumes "ril_inv fds True s ts (x # ps)" "accept_ok fds (w_accept w)"
    and "ril_call E H w (ev_func (ev_heap s x)) (ev_fd (ev_heap s x)) (ev_param (ev_heap s x)) (removeFromList x s) = Inr s'"
  shows "\<exists>ts'. ril_inv fds True s' ts' ps"
proof (cases "x \<in> statics")
  case False
  then have "timer_block s x" using ril_invD(8)[OF assms(1)] by simp
  then have "userTimerCallback x (removeFromList x s) = Inr s'"
    using assms(3) by (simp add: ril_call_def timer_block_def)
  then show ?thesis using timer_fires[OF assms(1) False] by auto
next
  case True
  note i = ril_invD[OF assms(1)]
  have inv: "ril_inv fds True (removeFromList x s) ts ps" by (rule fired_static_inv[OF assms(1) True])
  have x: "x \<notin> set ps" "active s (x # ps) x" using i(1) by (auto simp: ev_inv_def active_def)
  then have func: "ev_func (ev_heap s x) = static_func x" using i(5) True by (simp add: statics_ok_def)
  note st = i(5)[unfolded statics_ok_def active_def]
  consider "x = s_commands_event" | "x = s_wakeupfd_event" | "x = s_listen_event" | "x = s_debug_event"
    using True by (auto simp: statics_def)
  then show ?thesis
  proof cases
    case 1
    have "s_commands_event \<in> set (watched (removeFromList x s))"
      using st 1 by (simp add: removeFromList_fields)
    moreover have "processCommandsCallback E H (w_records w) (removeFromList x s) = Inr s'"
      using assms(3) func 1 by (simp add: ril_call_def static_func_def)
    ultimately show ?thesis using processCommandsCallback_inv[OF _ inv] x(1) 1 by blast
  next
    case 2
    then show ?thesis using assms(3) func inv
      by (auto simp: ril_call_def static_func_def static_defs processWakeupCallback_def)
  next
    case 3
    have "\<not> active (removeFromList x s) ps s_listen_event" "\<not> active (removeFromList x s) ps s_commands_event"
      using st x(1) 3 unfolding active_def removeFromList_fields by auto
    moreover have "listenCallback E H (w_accept w) (w_pw_name w) (removeFromList x s) = Inr s'"
      using assms(3) func 3 by (simp add: ril_call_def static_func_def static_defs)
    ultimately show ?thesis using listenCallback_inv[OF _ inv assms(2)] by blast
  next
    case 4
    then have "debugCallback E H (w_debug w) (w_stack w) (removeFromList x s) = Inr s'"
      using assms(3) func by (simp add: ril_call_def static_func_def static_defs)
    then show ?thesis using debugCallback_inv[OF _ inv] by blast
  qed
qed

text \<open>The callbacks of ril.cpp keep the contract of the event loop.\<close>

definition world_inv :: "(addr \<Rightarrow> int) \<Rightarrow> world \<Rightarrow> ril_state \<Rightarrow> addr list \<Rightarrow> addr list \<Rightarrow> bool" where
  "world_inv fds w s ts ps \<longleftrightarrow> ril_inv fds True s ts ps \<and> accept_ok fds (w_accept w)"

interpretation ril_events: event_callbacks "ril_call E H w" "world_inv fds w" for E :: "'p ext" and H w fds
  by unfold_locales (auto simp: world_inv_def dest: ril_invD(1) intro: ril_call_inv)

section \<open>The first half of a round\<close>

lemma statics_fresh:
  assumes "ril_inv fds L s ts []" "a \<in> statics"
  shows "fresh_event ts [] a"
  using assms ril_invD(7)[OF assms(1)] timer_not_static[OF ril_invD(3)[OF assms(1)]]
  by (auto simp: fresh_event_def static_defs timer_list_def pending_list_def)

lemma polled_inv:
  assumes "ril_inv fds L s ts []"
    and s': "same_events s s'" "tab_inv s'" "ev_state.more s' = ev_state.more s"
      "set (watched s') = set (watched s) - {a \<in> set (ready_events n rfds s). \<not> ev_persist (ev_heap s a)}"
      "ev_inv s' (filter (\<lambda>x. \<not> due t s x) ts) (filter (due t s) ts @ ready_events n rfds s)"
  shows "ril_inv fds L s' (filter (\<lambda>x. \<not> due t s x) ts) (filter (due t s) ts @ ready_events n rfds s)"
proof -
  note i = ril_invD[OF assms(1)] and c = core_cong[OF s'(3)]
  let ?ps = "filter (due t s) ts @ ready_events n rfds s"
  have r: "set (ready_events n rfds s) \<subseteq> set (watched s)" by (auto dest: in_set_takeD)
  have wst: "set (watched s) \<subseteq> statics" using i(5) by (simp add: statics_ok_def)
  have nt: "a \<notin> set ts" if "a \<in> statics" for a using statics_fresh[OF assms(1) that] by (simp add: fresh_event_def)
  have ev: "ev_fd (ev_heap s' x) = ev_fd (ev_heap s x)" "ev_persist (ev_heap s' x) = ev_persist (ev_heap s x)"
    "ev_func (ev_heap s' x) = ev_func (ev_heap s x)" "ev_param (ev_heap s' x) = ev_param (ev_heap s x)" for x
    using s'(1) by (simp_all add: same_events_def)
  have ps: "a \<in> set ?ps \<longleftrightarrow> a \<in> set (ready_events n rfds s)" if "a \<in> statics" for a using nt[OF that] by auto
  have act: "active s [] a" if "a \<in> statics" "active s' ?ps a" for a
    using that r ps[OF that(1)] unfolding active_def s'(4) by blast
  have st: "s_commands_event \<in> statics" "s_listen_event \<in> statics" by (simp_all add: statics_def)
  note ok = i(5)[unfolded statics_ok_def]
  have "statics_ok s' ?ps" unfolding statics_ok_def ev
  proof (intro conjI)
    show "set (watched s') \<subseteq> statics" using wst s'(4) by blast
    show "\<forall>a \<in> statics. active s' ?ps a \<longrightarrow> ev_func (ev_heap s a) = static_func a" using ok act by blast
    show "\<not> (active s' ?ps s_listen_event \<and> active s' ?ps s_commands_event)"
      using ok act[OF st(1)] act[OF st(2)] by blast
    show "s_listen_event \<in> set ?ps \<longrightarrow> s_listen_event \<notin> set (watched s')"
      unfolding ps[OF st(2)] s'(4) using ok by blast
    show "s_commands_event \<in> set ?ps \<longrightarrow> s_commands_event \<in> set (watched s')"
      unfolding ps[OF st(1)] s'(4) using ok r by blast
    show "s_commands_event \<in> set (watched s') \<longrightarrow> ev_persist (ev_heap s s_commands_event)"
      unfolding s'(4) using ok by blast
  qed (use ok in simp_all)
  moreover have "fds_ok fds s'" using i(4) unfolding fds_ok_def ev s'(4) by blast
  moreover have "live_ok s'" using i(3) live_cong[OF s'(3)] by (simp add: live_ok_def)
  moreover have "wake_ok L s' (filter (\<lambda>x. \<not> due t s x) ts) ?ps" using i(6) by (auto simp: wake_ok_def c)
  moreover have "timer_block s' a = timer_block s a" for a by (simp add: timer_block_def ev c)
  ultimately show ?thesis using s'(2,5) i(7) r wst by (auto simp: ril_inv_def)
qed

lemma poll_ril_inv:
  assumes "ril_inv fds L s ts []"
  shows "\<exists>s'. poll n rfds t s = Some s' \<and>
    ril_inv fds L s' (filter (\<lambda>x. \<not> due t s x) ts) (filter (due t s) ts @ ready_events n rfds s)"
proof -
  note i = ril_invD[OF assms]
  have "\<forall>a \<in> set (watched s). fresh_event ts [] a"
    using i(5) statics_fresh[OF assms] by (auto simp: statics_ok_def)
  from poll_inv[OF i(1,2) this, of n rfds t] show ?thesis using polled_inv[OF assms] by blast
qed

section \<open>Registration\<close>

text \<open>The process before registration: nothing is pending, no timer is set, no lock is held.\<close>

definition boot :: "ril_state \<Rightarrow> bool" where
  "boot s \<longleftrightarrow> \<not> s_registerCalled s \<and> \<not> s_started s \<and> s_pendingRequests s = [] \<and> user_cbs s = [] \<and>
     s_last_wake_timeout_info s = 0 \<and> \<not> wake_lock s"

text \<open>The descriptors of the wake-up pipe, the listening socket and the debug socket.\<close>

definition boot_fds :: "int \<Rightarrow> int \<Rightarrow> int \<Rightarrow> addr \<Rightarrow> int" where
  "boot_fds pipe_fd sock dbg a = (if a = s_wakeupfd_event then pipe_fd else if a = s_listen_event then sock else dbg)"

lemma table_has_slot:
  assumes "tab_inv s" "Finite_Set.card (set (watched s)) < MAX_FD_EVENTS"
  shows "0 \<in> set (watch_table s)"
proof (rule ccontr)
  assume "0 \<notin> set (watch_table s)"
  then have "watched s = watch_table s" by (simp add: filter_id_conv) (metis neq0_conv)
  then have "Finite_Set.card (set (watched s)) = MAX_FD_EVENTS"
    using distinct_card[OF watched_distinct[OF assms(1)]] assms(1) by (simp add: tab_inv_def)
  then show False using assms(2) by simp
qed

text \<open>Setting up a watch on one of the static events while the lists are empty.\<close>

lemma watch_static:
  fixes s :: ril_state and p f q
  assumes "ev_inv s [] []" "tab_inv s" "a \<in> statics" "a \<notin> set (watched s)" "set (watched s) \<subseteq> statics"
    "fd \<notin> readFds s" "0 \<le> fd"
  defines "s' \<equiv> rilEventAddWakeup a (ril_event_set a fd p f q s)"
  shows "ev_inv s' [] []" "tab_inv s'" "set (watched s') = insert a (set (watched s))"
    "readFds s' = insert fd (readFds s)"
    "ev_fd (ev_heap s' x) = (if x = a then fd else ev_fd (ev_heap s x))"
    "ev_func (ev_heap s' x) = (if x = a then f else ev_func (ev_heap s x))"
    "ev_persist (ev_heap s' x) = (if x = a then p else ev_persist (ev_heap s x))"
    "live s' = live s" "user_cbs s' = user_cbs s" "s_last_wake_timeout_info s' = s_last_wake_timeout_info s"
    "wake_lock s' = wake_lock s"
proof -
  let ?s1 = "ril_event_set a fd p f q s" and ?s2 = "ril_event_add a (ril_event_set a fd p f q s)"
  have s': "s' = ?s2 \<or> (\<exists>n. s' = ?s2\<lparr>wakeup_pipe := n\<rparr>)"
    by (auto simp: s'_def rilEventAddWakeup_def triggerEvLoop_def)
  have a: "a \<noteq> 0" "fresh_event [] [] a"
    using assms(3) by (auto simp: static_defs fresh_event_def timer_list_def pending_list_def)
  have h: "ev_heap ?s1 x = (if x = a then zero_event\<lparr>ev_fd := fd, ev_index := - 1, ev_persist := p,
      ev_func := f, ev_param := q\<rparr> else ev_heap s x)" for x by (simp add: ril_event_set_def)
  have t1: "watch_table ?s1 = watch_table s" "readFds ?s1 = readFds s" "nfds ?s1 = nfds s"
    "ev_state.more ?s1 = ev_state.more s" by (simp_all add: ril_event_set_def)
  have tab1: "tab_inv ?s1"
    by (rule tab_inv_local[OF t1(1-3) _ assms(2)]) (use assms(4) h in auto)
  have tab2: "tab_inv ?s2" using event_add_inv[OF tab1 a(1)] assms(4,6,7) a(1) t1 h by simp
  have "Finite_Set.card (set (watched s)) \<le> Finite_Set.card statics" using assms(5) by (intro card_mono) (simp_all add: statics_def)
  also have "Finite_Set.card statics = 4" by (simp add: static_defs)
  finally have "0 \<in> set (watch_table s)" using table_has_slot[OF assms(2)] by (simp add: MAX_FD_EVENTS_def)
  then obtain j where j: "free_slot (watch_table s) = Some j" using free_slot_None by blast
  have w2: "set (watched ?s2) = insert a (set (watched s))" "readFds ?s2 = insert fd (readFds s)"
    using set_update_free[OF _ _ a(1), of j "watch_table s"] free_slot_Some[OF j] j t1 h
    by (auto simp: ril_event_add_def Let_def)
  have e2: "ev_inv ?s2 [] []"
    using ev_inv_links[of ?s2 ?s1] ev_inv_local[OF a(2), of s] assms(1) by (simp add: add_fields ril_event_set_def)
  have more: "ev_state.more ?s2 = ev_state.more s" by (simp add: add_fields t1)
  note c = core_cong[OF more] live_cong[OF more]
  have pipe: "watch_table s' = watch_table ?s2" "readFds s' = readFds ?s2" "nfds s' = nfds ?s2"
    "ev_heap s' = ev_heap ?s2" using s' by auto
  show "ev_inv s' [] []" by (rule ev_inv_links[of s' ?s2, THEN iffD2, OF _ _ _ e2]) (simp_all add: pipe)
  show "tab_inv s'" by (rule tab_inv_local[OF pipe(1-3) _ tab2]) (simp add: pipe)
  show "set (watched s') = insert a (set (watched s))" "readFds s' = insert fd (readFds s)"
    unfolding pipe by (rule w2)+
  show "ev_fd (ev_heap s' x) = (if x = a then fd else ev_fd (ev_heap s x))"
    "ev_func (ev_heap s' x) = (if x = a then f else ev_func (ev_heap s x))"
    "ev_persist (ev_heap s' x) = (if x = a then p else ev_persist (ev_heap s x))"
    using s' by (auto simp: add_fields ril_event_set_def)
  show "live s' = live s" "user_cbs s' = user_cbs s" "s_last_wake_timeout_info s' = s_last_wake_timeout_info s"
    "wake_lock s' = wake_lock s" using s' c by (auto simp: live_def)
qed

lemma event_init_inv:
  "ev_inv (ril_event_init s) [] []" "tab_inv (ril_event_init s)" "watched (ril_event_init s) = []"
  "readFds (ril_event_init s) = {}" "ev_state.more (ril_event_init s) = ev_state.more s"
  by (simp_all add: ril_event_init_def init_list_def ev_inv_def timers_sorted_def tab_inv_def MAX_FD_EVENTS_def
    timer_list_def pending_list_def dll_def)

text \<open>What is true after a successful registration.\<close>

lemma register_inv:
  assumes "boot s" "0 \<le> pfd" "distinct [pfd, fst sock, fst dbg]"
    and "RIL_register (Some cb) (Some pfd) sock dbg s = Inr s'" "rf_version cb = RIL_VERSION_V3"
  shows "ril_inv (boot_fds pfd (fst sock) (fst dbg)) True s' [] []"
    "set (watched s') = {s_wakeupfd_event, s_listen_event, s_debug_event}"
proof -
  note b = assms(1)[unfolded boot_def]
  define s0 where "s0 = s\<lparr>cb_version := rf_version cb, cb_getVersion := rf_getVersion cb,
      fdListen := - 1, fdCommand := - 1, s_registerCalled := True\<rparr>"
  define s1 where "s1 = (ril_event_init s0)\<lparr>s_started := True\<rparr>"
  define s2 where "s2 = rilEventAddWakeup s_wakeupfd_event
      (ril_event_set s_wakeupfd_event pfd True F_processWakeup 0 s1)"
  define s2' where "s2' = s2\<lparr>fdListen := fst sock\<rparr>"
  define s3 where "s3 = rilEventAddWakeup s_listen_event (ril_event_set s_listen_event (fst sock) False F_listen 0 s2')"
  have ok: "0 \<le> fst sock" "0 \<le> fst dbg"
    and s': "s' = rilEventAddWakeup s_debug_event (ril_event_set s_debug_event (fst dbg) True F_debug 0 s3)"
    using assms(4,5) b by (auto simp: RIL_register_def startListen_def eventLoop_start_def Let_def s0_def s1_def s2_def
      s2'_def s3_def split: if_splits sum.splits)
  have st: "s_wakeupfd_event \<in> statics" "s_listen_event \<in> statics" "s_debug_event \<in> statics"
    by (simp_all add: statics_def)
  have e1: "ev_inv s1 [] []" "tab_inv s1" "watched s1 = []" "readFds s1 = {}" "live s1 = []" "user_cbs s1 = []"
    "s_last_wake_timeout_info s1 = 0" "\<not> wake_lock s1"
    using event_init_inv[of s0] core_cong[OF event_init_inv(5)[of s0]] b
    by (simp_all add: s1_def s0_def ev_inv_def timers_sorted_def tab_inv_def live_def)
  have "s_wakeupfd_event \<notin> set (watched s1)" "set (watched s1) \<subseteq> statics" "pfd \<notin> readFds s1"
    by (simp_all only: e1(3,4) list.set empty_iff empty_subsetI not_False_eq_True)
  note w2 = watch_static[OF e1(1,2) st(1) this assms(2), where p = True and f = F_processWakeup and q = 0,
      folded s2_def, unfolded e1]
  have e2: "ev_inv s2' [] []" "tab_inv s2'" "watched s2' = watched s2" "readFds s2' = readFds s2" "live s2' = live s2"
    "user_cbs s2' = user_cbs s2" "s_last_wake_timeout_info s2' = s_last_wake_timeout_info s2"
    "wake_lock s2' = wake_lock s2" "ev_heap s2' = ev_heap s2"
    using w2(1,2) by (simp_all add: s2'_def ev_inv_def timers_sorted_def tab_inv_def live_def)
  have "s_listen_event \<notin> set (watched s2')" "set (watched s2') \<subseteq> statics" "fst sock \<notin> readFds s2'"
    unfolding e2(3,4) w2(3,4) using assms(3) by (auto simp: static_defs)
  note w3 = watch_static[OF e2(1,2) st(2) this ok(1), where p = False and f = F_listen and q = 0,
      folded s3_def, unfolded e2(3-9) w2(3-)]
  have "s_debug_event \<notin> set (watched s3)" "set (watched s3) \<subseteq> statics" "fst dbg \<notin> readFds s3"
    unfolding w3(3,4) using assms(3) by (auto simp: static_defs)
  note w4 = watch_static[OF w3(1,2) st(3) this ok(2), where p = True and f = F_debug and q = 0,
      folded s', unfolded w3(3-)]
  have "fds_ok (boot_fds pfd (fst sock) (fst dbg)) s'"
    using assms(2,3) ok unfolding fds_ok_def boot_fds_def w4(3,5) by (auto simp: static_defs)
  moreover have "statics_ok s' []"
    unfolding statics_ok_def active_def w4(3,6,7) by (auto simp: static_defs static_func_def)
  moreover have "live_ok s'" "wake_ok True s' [] []" using e1(8) by (simp_all add: live_ok_def wake_ok_def w4(8-))
  ultimately show "ril_inv (boot_fds pfd (fst sock) (fst dbg)) True s' [] []" using w4(1,2) by (simp add: ril_inv_def)
  show "set (watched s') = {s_wakeupfd_event, s_listen_event, s_debug_event}" unfolding w4(3) by auto
qed

end
