(* ===== verification/Ril_Reach.thy ===== *)
theory Ril_Reach
  imports Ril_System
begin

text \<open>
  The runs of the library: registration, and then, in any order, what the vendor library calls, what
  the environment does and what the event loop does, one callback at a time. The states that can be
  reached satisfy the invariant; the properties at the end say what this means for timers, the wake
  lock, the descriptors and the loop.
\<close>

section \<open>Steps\<close>

text \<open>
  The loop is either waiting in \<open>select\<close> or in \<open>firePending\<close>, about to look at the given event.
\<close>

datatype phase = Waiting | Firing addr

text \<open>
  \<open>world_step\<close> is what changes around the library: the state of the radio, the clocks, the results of
  the coming calls of \<open>write\<close>, and which thread runs.
\<close>

definition world_step :: "i32 \<Rightarrow> i64 \<Rightarrow> timeval \<Rightarrow> write_result list \<Rightarrow> bool \<Rightarrow> ril_state \<Rightarrow> ril_state" where
  "world_step radio el t ws thread s =
     s\<lparr>now := t, radioState := radio, elapsed := el, wr_script := ws, in_dispatch_thread := thread\<rparr>"

inductive ril_step ::
  "'p ext \<Rightarrow> ril_h \<Rightarrow> (addr \<Rightarrow> int) \<Rightarrow> phase \<times> ril_state \<Rightarrow> phase \<times> ril_state \<Rightarrow> bool" for E H fds where
  step_complete: "RIL_onRequestComplete E H a e r n s = Inr s' \<Longrightarrow> ril_step E H fds (ph, s) (ph, s')"
| step_unsol: "RIL_UNSOL_RESPONSE E H code dat n s = Inr s' \<Longrightarrow> ril_step E H fds (ph, s) (ph, s')"
| step_timed: "RIL_requestTimedCallback cb param t s = Inr s' \<Longrightarrow> ril_step E H fds (ph, s) (ph, s')"
| step_world: "ril_step E H fds (ph, s) (ph, world_step radio el t ws thread s)"
| step_poll: "poll n rfds t s = Some s' \<Longrightarrow>
    ril_step E H fds (Waiting, s) (Firing (ev_next (ev_heap s' pending_list)), s')"
| step_fire: "ev \<noteq> pending_list \<Longrightarrow> accept_ok fds (w_accept w) \<Longrightarrow>
    ril_call E H w (ev_func (ev_heap s ev)) (ev_fd (ev_heap s ev)) (ev_param (ev_heap s ev))
      (removeFromList ev s) = Inr s' \<Longrightarrow>
    ril_step E H fds (Firing ev, s) (Firing (ev_next (ev_heap s ev)), s')"
| step_done: "ril_step E H fds (Firing pending_list, s) (Waiting, s)"

inductive ril_run ::
  "'p ext \<Rightarrow> ril_h \<Rightarrow> (addr \<Rightarrow> int) \<Rightarrow> phase \<Rightarrow> ril_state \<Rightarrow> bool" for E H fds where
  run_start: "boot s \<Longrightarrow> 0 \<le> pfd \<Longrightarrow> distinct [pfd, fst sock, fst dbg] \<Longrightarrow> rf_version cb = RIL_VERSION_V3 \<Longrightarrow>
    RIL_register (Some cb) (Some pfd) sock dbg s = Inr s' \<Longrightarrow> fds = boot_fds pfd (fst sock) (fst dbg) \<Longrightarrow>
    ril_run E H fds Waiting s'"
| run_step: "ril_run E H fds ph s \<Longrightarrow> ril_step E H fds (ph, s) (ph', s') \<Longrightarrow> ril_run E H fds ph' s'"

section \<open>Reachable states\<close>

text \<open>The pending events that are still to be fired start at the event the loop looks at.\<close>

definition phase_ok :: "phase \<Rightarrow> addr list \<Rightarrow> bool" where
  "phase_ok ph ps \<longleftrightarrow> (case ph of Waiting \<Rightarrow> ps = [] | Firing x \<Rightarrow> x = hd (ps @ [pending_list]))"

definition run_inv :: "(addr \<Rightarrow> int) \<Rightarrow> phase \<Rightarrow> ril_state \<Rightarrow> bool" where
  "run_inv fds ph s \<longleftrightarrow> (\<exists>ts ps. ril_inv fds True s ts ps \<and> phase_ok ph ps)"

lemma run_invE:
  assumes "run_inv fds ph s"
  obtains ts ps where "ril_inv fds True s ts ps" "phase_ok ph ps"
  using assms by (auto simp: run_inv_def)

lemma ril_inv_now [simp]: "ril_inv fds L (s\<lparr>now := t\<rparr>) ts ps = ril_inv fds L s ts ps"
  by (simp add: ril_inv_defs)

lemma world_step_inv: "ril_inv fds L (world_step radio el t ws thread s) ts ps = ril_inv fds L s ts ps"
  by (simp add: world_step_def)

lemma timedCallback_inv:
  assumes "RIL_requestTimedCallback cb param t s = Inr s'" "ril_inv fds L s ts ps"
  shows "\<exists>ts'. ril_inv fds L s' ts' ps"
  using timed_inv[OF assms(2), of "UserCb cb" param t] assms(1) by (auto simp: RIL_requestTimedCallback_def)

text \<open>The event at the head of the pending list, when there is one.\<close>

lemma firing_head:
  assumes "ril_inv fds True s ts ps" "phase_ok (Firing x) ps" "x \<noteq> pending_list"
  obtains ps' where "ps = x # ps'" "ev_next (ev_heap s x) = hd (ps' @ [pending_list])"
proof (cases ps)
  case Nil
  then show ?thesis using assms(2,3) by (simp add: phase_ok_def)
next
  case (Cons y ps')
  then have "ps = x # ps'" using assms(2) by (simp add: phase_ok_def)
  moreover have "ev_next (ev_heap s x) = hd (ps' @ [pending_list])"
    using dll_split_next[of "ev_heap s" pending_list "[]" x ps'] ev_invD(2)[OF ril_invD(1)[OF assms(1)]]
      \<open>ps = x # ps'\<close> by simp
  ultimately show ?thesis by (rule that)
qed

lemma step_inv:
  assumes "ril_step E H fds (ph, s) (ph', s')" "run_inv fds ph s"
  shows "run_inv fds ph' s'"
proof -
  obtain ts ps where i: "ril_inv fds True s ts ps" "phase_ok ph ps" using assms(2) by (rule run_invE)
  from assms(1) show ?thesis
  proof cases
    case (step_complete a e r n)
    then show ?thesis using complete_inv[OF _ i(1)] i(2) unfolding run_inv_def by blast
  next
    case (step_unsol code dat n)
    then show ?thesis using unsol_response_inv[OF _ i(1)] i(2) unfolding run_inv_def by blast
  next
    case (step_timed cb param t)
    then show ?thesis using timedCallback_inv[OF _ i(1)] i(2) unfolding run_inv_def by blast
  next
    case (step_world radio el t ws thread)
    then show ?thesis using world_step_inv i by (auto simp: run_inv_def)
  next
    case (step_poll n rfds t)
    then have inv: "ril_inv fds True s ts []" using i by (simp add: phase_ok_def)
    from poll_ril_inv[OF this, of n rfds t] obtain s1 ps' where
      "poll n rfds t s = Some s1" "ril_inv fds True s1 (filter (\<lambda>x. \<not> due t s x) ts) ps'" by blast
    moreover from this(2) have "ev_next (ev_heap s1 pending_list) = hd (ps' @ [pending_list])"
      by (intro dll_next ev_invD(2)[OF ril_invD(1)])
    ultimately show ?thesis using step_poll by (auto simp: run_inv_def phase_ok_def)
  next
    case (step_fire ev w)
    then obtain ps' where ps: "ps = ev # ps'" "ev_next (ev_heap s ev) = hd (ps' @ [pending_list])"
      using firing_head i by metis
    then show ?thesis using step_fire ril_call_inv[of fds s ts ev ps' w E H s'] i(1)
      by (auto simp: run_inv_def phase_ok_def)
  next
    case step_done
    have "pending_list \<notin> set ps" using ev_invD(3)[OF ril_invD(1)[OF i(1)]] by auto
    then have "ps = []" using i(2) step_done by (cases ps) (auto simp: phase_ok_def)
    then show ?thesis using step_done i(1) by (auto simp: run_inv_def phase_ok_def)
  qed
qed

lemma run_inv: "ril_run E H fds ph s \<Longrightarrow> run_inv fds ph s"
proof (induction rule: ril_run.induct)
  case (run_start s pfd sock dbg cb s')
  then have "ril_inv fds True s' [] []" using register_inv(1)[of s pfd sock dbg cb s'] by simp
  then show ?case by (auto simp: run_inv_def phase_ok_def)
next
  case (run_step ph s ph' s')
  then show ?case using step_inv by blast
qed

section \<open>What the callbacks find\<close>

text \<open>The links determine the members of a list.\<close>

lemma seg_unique: "seg h p xs q \<Longrightarrow> seg h p ys q \<Longrightarrow> q \<notin> set xs \<Longrightarrow> q \<notin> set ys \<Longrightarrow> xs = ys"
proof (induction xs arbitrary: p ys)
  case Nil
  then show ?case by (cases ys) auto
next
  case (Cons x xs)
  then show ?case by (cases ys) auto
qed

lemma dll_unique: "dll h l xs \<Longrightarrow> dll h l ys \<Longrightarrow> xs = ys"
  using seg_unique[of h l xs l ys] by (simp add: dll_def)

lemma fired_event:
  assumes "ril_inv fds L s ts (x # ps)"
  shows "(x \<in> statics \<and> ev_func (ev_heap s x) = static_func x) \<or> (x \<notin> statics \<and> timer_block s x)"
  using ril_invD(5,8)[OF assms] by (auto simp: statics_ok_def active_def)

lemma static_func_kind: "static_func a \<notin> {F_none, F_userTimer}"
  by (simp add: static_func_def)

lemma timer_effect:
  assumes "userTimerCallback x s = Inr s'" "distinct (map fst (user_cbs s))"
  shows "\<exists>u. map_of (user_cbs s) x = Some u \<and> x \<notin> fst ` set (user_cbs s') \<and>
    timed_calls s' = timed_calls s @
      (case uc_callback u of UserCb k \<Rightarrow> [(k, uc_userParam u)] | WakeTimeoutCb \<Rightarrow> [])"
proof -
  obtain u where u: "map_of (user_cbs s) x = Some u" using assms(1) by (auto simp: userTimerCallback_def split: option.splits)
  have "x \<notin> fst ` set (unlink x (user_cbs s))" by (simp add: fst_unlink[OF assms(2)])
  then show ?thesis using assms(1) u
    by (cases "uc_callback u") (auto simp: userTimerCallback_def Let_def wakeTimeoutCallback_def releaseWakeLock_def split: if_splits)
qed

text \<open>Firing timers only.\<close>

lemma timers_fire:
  "ril_inv fds L s ts ps \<Longrightarrow> set ps \<inter> statics = {} \<Longrightarrow>
    \<exists>s'. fire_list (ril_call E H w) ps s = Inr s' \<and> ril_inv fds L s' ts []"
proof (induction ps arbitrary: s)
  case (Cons x ps)
  then have x: "x \<notin> statics" "set ps \<inter> statics = {}" by auto
  obtain s1 where s1: "userTimerCallback x (removeFromList x s) = Inr s1" "ril_inv fds L s1 ts ps"
    using timer_fires[OF Cons.prems(1) x(1)] by blast
  have "timer_block s x" using fired_event[OF Cons.prems(1)] x(1) by blast
  then have "fire_list (ril_call E H w) (x # ps) s = fire_list (ril_call E H w) ps s1"
    using s1(1) by (simp add: timer_block_def ril_call_def)
  then show ?case using Cons.IH[OF s1(2) x(2)] by simp
qed auto

lemma waiting_inv: "ril_run E H fds Waiting s \<Longrightarrow> \<exists>ts. ril_inv fds True s ts []"
  using run_inv run_invE by (fastforce simp: phase_ok_def)

text \<open>A round of the loop, for a state in which nothing is pending.\<close>

lemma round_runs:
  fixes E :: "'p ext"
  assumes "ril_inv fds True s ts []" "accept_ok fds (w_accept w)"
  obtains s1 where "poll n rfds t s = Some s1"
    "ril_inv fds True s1 (filter (\<lambda>x. \<not> due t s x) ts) (filter (due t s) ts @ ready_events n rfds s)"
    "loop_round (ril_call E H w) (SelReady n rfds t) s
       = Some (True, fire_list (ril_call E H w) (filter (due t s) ts @ ready_events n rfds s) s1)"
proof -
  let ?ps = "filter (due t s) ts @ ready_events n rfds s"
  obtain s1 where s1: "poll n rfds t s = Some s1" "ril_inv fds True s1 (filter (\<lambda>x. \<not> due t s x) ts) ?ps"
    using poll_ril_inv[OF assms(1)] by blast
  then have "world_inv fds w s1 (filter (\<lambda>x. \<not> due t s x) ts) ?ps" using assms(2) by (simp add: world_inv_def)
  from ril_events.firePending_runs[OF this, of E H] s1(1)
  have "loop_round (ril_call E H w) (SelReady n rfds t) s = Some (True, fire_list (ril_call E H w) ?ps s1)"
    by (auto simp: loop_round_def poll_def split: option.splits)
  with s1 show ?thesis by (rule that)
qed

lemma fire_list_run:
  assumes "accept_ok fds (w_accept w)"
  shows "ril_run E H fds (Firing (hd (ps @ [pending_list]))) s \<Longrightarrow> ril_inv fds True s ts ps \<Longrightarrow>
    fire_list (ril_call E H w) ps s = Inr s' \<Longrightarrow> ril_run E H fds (Firing pending_list) s'"
proof (induction ps arbitrary: s ts)
  case (Cons x ps)
  obtain s1 where s1: "ril_call E H w (ev_func (ev_heap s x)) (ev_fd (ev_heap s x)) (ev_param (ev_heap s x))
      (removeFromList x s) = Inr s1" "fire_list (ril_call E H w) ps s1 = Inr s'"
    using Cons.prems(3) by (auto split: sum.splits)
  have "x \<noteq> pending_list" using ev_invD(3)[OF ril_invD(1)[OF Cons.prems(2)]] by auto
  moreover have "ev_next (ev_heap s x) = hd (ps @ [pending_list])"
    using dll_split_next[of "ev_heap s" pending_list "[]" x ps] ev_invD(2)[OF ril_invD(1)[OF Cons.prems(2)]] by simp
  ultimately have "ril_run E H fds (Firing (hd (ps @ [pending_list]))) s1"
    using run_step[OF Cons.prems(1)] step_fire[OF _ assms s1(1)] by auto
  moreover obtain ts' where "ril_inv fds True s1 ts' ps" using ril_call_inv[OF Cons.prems(2) assms s1(1)] by blast
  ultimately show ?case using Cons.IH s1(2) by blast
qed auto

section \<open>A run to evaluate on\<close>

text \<open>Registration with the wake-up pipe on descriptor 7, the sockets on 8 and 9.\<close>

definition boot0 :: ril_state where
  "boot0 = ril0\<lparr>s_registerCalled := False, s_started := False\<rparr>"

definition fds0 :: "addr \<Rightarrow> int" where
  "fds0 = boot_fds 7 8 9"

definition world0 :: world where
  "world0 = \<lparr>w_accept = - 1, w_pw_name = None, w_records = [REAGAIN], w_debug = None, w_stack = None\<rparr>"

lemma world0_accept: "accept_ok fds0 (w_accept world0)"
  by (auto simp: accept_ok_def world0_def fds0_def boot_fds_def)

lemma registered:
  obtains s where "ril_run E H fds0 Waiting s" "s_registerCalled s" "fdCommand s = - 1"
    "ril_inv fds0 True s [] []" "s_listen_event \<in> set (watched s)" "s_lastNITZTimeData s = None"
proof -
  let ?cb = "\<lparr>rf_version = RIL_VERSION_V3, rf_getVersion = None\<rparr>"
  have b: "boot boot0" by (simp add: boot_def boot0_def)
  define s0 where "s0 = boot0\<lparr>cb_version := RIL_VERSION_V3, cb_getVersion := None,
      fdListen := - 1, fdCommand := - 1, s_registerCalled := True\<rparr>"
  obtain s where s: "RIL_register (Some ?cb) (Some 7) (8, 0) (9, 0) boot0 = Inr s"
    using b by (auto simp: RIL_register_def startListen_def Let_def boot_def split: sum.splits)
  let ?k = "\<lambda>x :: ril_state. (s_registerCalled x, fdCommand x, s_lastNITZTimeData x)"
  have k: "?k (rilEventAddWakeup a x) = ?k x" "?k (ril_event_set a fd p f q x) = ?k x" "?k (ril_event_init x) = ?k x"
    for a fd p f q x
    by (simp_all add: rilEventAddWakeup_def triggerEvLoop_def ril_event_add_def ril_event_set_def ril_event_init_def
      init_list_def Let_def split: option.splits)
  have "s_registerCalled s \<and> fdCommand s = - 1 \<and> s_lastNITZTimeData s = None"
    using s b k by (auto simp: RIL_register_def startListen_def eventLoop_start_def Let_def boot_def boot0_def split: if_splits)
  moreover have "ril_run E H fds0 Waiting s"
    by (rule run_start[OF b _ _ _ s]) (simp_all add: fds0_def)
  moreover have "ril_inv fds0 True s [] []" "s_listen_event \<in> set (watched s)"
    using register_inv[OF b _ _ s] by (simp_all add: fds0_def)
  ultimately show ?thesis using that by blast
qed

lemma late_time: "\<exists>t. \<forall>x \<in> set ts. due t s x"
proof -
  let ?m = "Max (insert 0 (tv_sec ` timeout_of s ` set ts)) + 1"
  have "timer_less (timeout_of s x) \<lparr>tv_sec = ?m, tv_usec = 0\<rparr>" if "x \<in> set ts" for x
  proof -
    have "tv_sec (timeout_of s x) \<le> Max (insert 0 (tv_sec ` timeout_of s ` set ts))" using that by simp
    then show ?thesis by (simp add: timer_less_def)
  qed
  then show ?thesis by blast
qed

text \<open>A timed callback asked for after registration, and the moment the loop fires it.\<close>

lemma timer_asked:
  obtains s ts where "ril_run E H fds0 Waiting s" "ril_inv fds0 True s ts []" "ts \<noteq> []"
proof -
  obtain s where s: "ril_run E H fds0 Waiting s" by (rule registered)
  obtain ts where i: "ril_inv fds0 True s ts []" using waiting_inv[OF s] by blast
  obtain s1 ts1 where s1: "RIL_requestTimedCallback 5 77 None s = Inr s1" "ril_inv fds0 True s1 ts1 []"
    "malloc s \<in> set ts1"
    using timed_inv[OF i, of "UserCb 5" 77 None] by (auto simp: RIL_requestTimedCallback_def)
  have "ril_run E H fds0 Waiting s1" by (rule run_step[OF s step_timed[OF s1(1)]])
  then show ?thesis using that s1(2,3) by (metis empty_iff empty_set)
qed

lemma timer_run:
  obtains x s where "ril_run E H fds0 (Firing x) s" "x \<noteq> pending_list" "ev_func (ev_heap s x) = F_userTimer"
proof -
  obtain s1 ts1 where r1: "ril_run E H fds0 Waiting s1" and s1: "ril_inv fds0 True s1 ts1 []" "ts1 \<noteq> []" by (rule timer_asked)
  obtain t where t: "\<forall>x \<in> set ts1. due t s1 x" using late_time by blast
  then have f: "filter (due t s1) ts1 = ts1" by (simp add: filter_id_conv)
  obtain s2 where s2: "poll 0 {} t s1 = Some s2" "ril_inv fds0 True s2 (filter (\<lambda>x. \<not> due t s1 x) ts1) ts1"
    using poll_ril_inv[OF s1(1), of 0 "{}" t] f by auto
  obtain x ps where x: "ts1 = x # ps" using s1(2) by (cases ts1) auto
  have "ev_next (ev_heap s2 pending_list) = x" using dll_next[OF ev_invD(2)[OF ril_invD(1)[OF s2(2)]]] x by simp
  then have "ril_run E H fds0 (Firing x) s2" using run_step[OF r1 step_poll[OF s2(1)]] by simp
  moreover have "x \<noteq> pending_list" using ev_invD(3)[OF ril_invD(1)[OF s2(2)]] x by auto
  moreover have "x \<notin> statics" using ril_invD(7)[OF s1(1)] timer_not_static[OF ril_invD(3)[OF s1(1)]] x by auto
  then have "ev_func (ev_heap s2 x) = F_userTimer" using fired_event[of fds0 True s2 _ x ps] s2(2) x
    by (auto simp: timer_block_def)
  ultimately show ?thesis by (rule that)
qed

lemma timed_lock:
  assumes "internalRequestTimedCallback cb param t s = Inr (a, s')"
  shows "wake_lock s' = wake_lock s"
proof -
  obtain d s2 s3 where s3: "ril_timer_add a (Some d) s2 = Some s3" "s' = triggerEvLoop s3" "wake_lock s2 = wake_lock s"
    using assms by (auto simp: internalRequestTimedCallback_def Let_def ril_event_set_def split: option.splits)
  then show ?thesis using core_cong(4)[OF timer_add_fields(1)[OF s3(1)]] by (simp add: triggerEvLoop_def)
qed

text \<open>A message that takes the wake lock, after registration and before a client connects.\<close>

lemma lock_run:
  obtains s where "ril_run flat_parcel ref_h fds0 Waiting s" "wake_lock s"
proof -
  obtain s where s: "ril_run flat_parcel ref_h fds0 Waiting s" "s_registerCalled s" "fdCommand s = - 1" by (rule registered)
  obtain ts where i: "ril_inv fds0 True s ts []" using waiting_inv[OF s(1)] by blast
  let ?s = "grabPartialWakeLock s"
  have "ril_inv fds0 False ?s ts []" using ril_inv_lock(1)[OF i] by (simp add: grabPartialWakeLock_def)
  then obtain s' where s': "schedule_release ?s = Inr s'" using schedule_release_inv by blast
  have "wake_lock s'" using s' timed_lock
    by (fastforce simp: schedule_release_def Let_def grabPartialWakeLock_def split: sum.splits if_splits)
  have c: "unsol_conv ref_h 1002 = Some 1002" "unsol_known ref_h 1002" "unsol_wake ref_h 1002"
    "unsolFunction (unsol_info ref_h 1002) = R_Void" "wakeType (unsol_info ref_h 1002) = WAKE_PARTIAL"
    by (simp_all add: unsol_conv_def unsolResponse_conv_def v3_codes unsol_known_def unsol_wake_def unsol_info_def
      s_unsolResponses_def)
  have "fst (run_state (unsol_payload flat_parcel ref_h (cb_version ?s) 1002 None 0) (p_new flat_parcel)) = Inr 0"
    by (simp add: unsol_payload_def c call_response_def responseVoid_def split: prod.splits)
  then obtain p where p: "run_state (unsol_payload flat_parcel ref_h (cb_version ?s) 1002 None 0) (p_new flat_parcel) = (Inr 0, p)"
    by (metis prod.collapse)
  have send: "send_unsol flat_parcel ref_h 1002 True p ?s = schedule_release ?s"
    using s(3) by (simp add: send_unsol_def sendResponse_def sendResponseRaw_def grabPartialWakeLock_def)
  have "RIL_UNSOL_RESPONSE flat_parcel ref_h 1002 None 0 s = Inr s'"
    using unsol_body[OF c(1) s(2) c(2) _ p, of 1] s' send
    by (simp only: c RIL_UNSOL_RESPONSE_def UNSOL_DEPTH_def numeral_2_eq_2 One_nat_def) simp
  then have "ril_run flat_parcel ref_h fds0 Waiting s'" by (rule run_step[OF s(1) step_unsol])
  then show ?thesis using \<open>wake_lock s'\<close> that by blast
qed

section \<open>Properties\<close>

lemma timers_never_dangle_parts:
  assumes "ril_run E H fds (Firing x) s" "x \<noteq> pending_list"
  shows "ev_func (ev_heap s x) \<noteq> F_none"
    and "ev_func (ev_heap s x) = F_userTimer \<Longrightarrow>
      \<exists>u s'. map_of (user_cbs s) (ev_param (ev_heap s x)) = Some u \<and>
        ril_call E H w F_userTimer (ev_fd (ev_heap s x)) (ev_param (ev_heap s x)) (removeFromList x s) = Inr s' \<and>
        ev_param (ev_heap s x) \<notin> fst ` set (user_cbs s') \<and>
        timed_calls s' = timed_calls s @
          (case uc_callback u of UserCb k \<Rightarrow> [(k, uc_userParam u)] | WakeTimeoutCb \<Rightarrow> [])"
proof -
  obtain ts ps where i: "ril_inv fds True s ts ps" "phase_ok (Firing x) ps" using run_inv[OF assms(1)] by (rule run_invE)
  then obtain ps' where ps: "ps = x # ps'" using firing_head assms(2) by metis
  note inv = i(1)[unfolded ps]
  show "ev_func (ev_heap s x) \<noteq> F_none"
    using fired_event[OF inv] static_func_kind[of x] by (auto simp: timer_block_def)
  assume "ev_func (ev_heap s x) = F_userTimer"
  then have x: "x \<notin> statics" "ev_param (ev_heap s x) = x"
    using fired_event[OF inv] static_func_kind[of x] by (auto simp: timer_block_def)
  obtain s' where s': "userTimerCallback x (removeFromList x s) = Inr s'" using timer_fires[OF inv x(1)] by blast
  have c: "user_cbs (removeFromList x s) = user_cbs s" "timed_calls (removeFromList x s) = timed_calls s"
    using core_cong(1)[OF removeFromList_fields(4)] by (simp_all add: removeFromList_def Let_def)
  have "distinct (map fst (user_cbs s))" using ril_invD(3)[OF inv] by (simp add: live_ok_def live_def)
  from timer_effect[OF s'] this s' show "\<exists>u s'. map_of (user_cbs s) (ev_param (ev_heap s x)) = Some u \<and>
        ril_call E H w F_userTimer (ev_fd (ev_heap s x)) (ev_param (ev_heap s x)) (removeFromList x s) = Inr s' \<and>
        ev_param (ev_heap s x) \<notin> fst ` set (user_cbs s') \<and>
        timed_calls s' = timed_calls s @
          (case uc_callback u of UserCb k \<Rightarrow> [(k, uc_userParam u)] | WakeTimeoutCb \<Rightarrow> [])"
    unfolding c x(2) by (auto simp: ril_call_def)
qed

text \<open>
  C2 The event that the loop fires next always has a function to call. When it is a timer, its block
  has not been freed, the callback runs, is the one that was asked for, is called once, and the block
  is freed with it: no timer dangles and none is freed twice.
\<close>

theorem timers_never_dangle:
  assumes "ril_run E H fds (Firing x) s" "x \<noteq> pending_list"
  shows "ev_func (ev_heap s x) \<noteq> F_none \<and> (ev_func (ev_heap s x) = F_userTimer \<longrightarrow>
      (\<exists>u s'. map_of (user_cbs s) (ev_param (ev_heap s x)) = Some u \<and>
        ril_call E H w F_userTimer (ev_fd (ev_heap s x)) (ev_param (ev_heap s x)) (removeFromList x s) = Inr s' \<and>
        ev_param (ev_heap s x) \<notin> fst ` set (user_cbs s') \<and>
        timed_calls s' = timed_calls s @
          (case uc_callback u of UserCb k \<Rightarrow> [(k, uc_userParam u)] | WakeTimeoutCb \<Rightarrow> [])))"
  using timers_never_dangle_parts[OF assms] by blast


theorem timers_never_dangle_witness:
  "\<exists>(s :: ril_state) x u s'. ril_run flat_parcel ref_h fds0 (Firing x) s \<and> ev_func (ev_heap s x) = F_userTimer \<and>
     map_of (user_cbs s) (ev_param (ev_heap s x)) = Some u \<and>
     ril_call flat_parcel ref_h world0 F_userTimer (ev_fd (ev_heap s x)) (ev_param (ev_heap s x))
       (removeFromList x s) = Inr s' \<and> ev_param (ev_heap s x) \<notin> fst ` set (user_cbs s')"
proof -
  obtain x s where x: "ril_run flat_parcel ref_h fds0 (Firing x) s" "x \<noteq> pending_list" "ev_func (ev_heap s x) = F_userTimer"
    by (rule timer_run)
  then show ?thesis using timers_never_dangle[OF x(1,2), of world0] by blast
qed

text \<open>
  The wake lock at the level of whole calls: whenever nothing is being fired, the first round of the loop
  after all timers have expired leaves the lock free, if no descriptor is ready in between. \<open>Ril_Wake\<close> has the
  steps of the threads.
\<close>

theorem wake_lock_released:
  assumes "ril_run E H fds Waiting s" "accept_ok fds (w_accept w)" "dll (ev_heap s) timer_list ts"
    "\<forall>x \<in> set ts. due t s x"
  shows "\<exists>s'. loop_round (ril_call E H w) (SelReady 0 {} t) s = Some (True, Inr s') \<and> \<not> wake_lock s'"
proof -
  obtain ts' where "ril_inv fds True s ts' []" using waiting_inv[OF assms(1)] by blast
  moreover from this have "ts' = ts" using dll_unique[OF assms(3)] ev_invD(1)[OF ril_invD(1)] by blast
  ultimately have inv: "ril_inv fds True s ts []" by simp
  have f: "filter (due t s) ts = ts" "filter (\<lambda>x. \<not> due t s x) ts = []"
    using assms(4) by (auto simp: filter_id_conv filter_empty_conv)
  obtain s1 where s1: "ril_inv fds True s1 [] ts"
    "loop_round (ril_call E H w) (SelReady 0 {} t) s = Some (True, fire_list (ril_call E H w) ts s1)"
    using round_runs[OF inv assms(2), of 0 "{}" t E H] f by auto
  have "set ts \<inter> statics = {}" using ril_invD(7)[OF inv] timer_not_static[OF ril_invD(3)[OF inv]] by blast
  then obtain s' where s': "fire_list (ril_call E H w) ts s1 = Inr s'" "ril_inv fds True s' [] []"
    using timers_fire[OF s1(1)] by blast
  then have "\<not> wake_lock s'" using ril_invD(6)[OF s'(2)] by (auto simp: wake_ok_def)
  then show ?thesis using s1(2) s'(1) by simp
qed

theorem wake_lock_released_witness:
  "\<exists>s t s'. ril_run flat_parcel ref_h fds0 Waiting s \<and> wake_lock s \<and>
     loop_round (ril_call flat_parcel ref_h world0) (SelReady 0 {} t) s = Some (True, Inr s') \<and> \<not> wake_lock s'"
proof -
  obtain s where s: "ril_run flat_parcel ref_h fds0 Waiting s" "wake_lock s" by (rule lock_run)
  then obtain ts where ts: "dll (ev_heap s) timer_list ts" using waiting_inv ev_invD(1)[OF ril_invD(1)] by blast
  obtain t where "\<forall>x \<in> set ts. due t s x" using late_time by blast
  from wake_lock_released[OF s(1) world0_accept ts this] s show ?thesis by blast
qed

lemma table_never_full_parts:
  assumes "ril_run E H fds ph s"
  shows "length (watched s) \<le> 3" "0 \<in> set (watch_table s)"
    "\<not> (s_listen_event \<in> set (watched s) \<and> s_commands_event \<in> set (watched s))"
proof -
  obtain ts ps where inv: "ril_inv fds True s ts ps" using run_inv[OF assms] by (auto simp: run_inv_def)
  note st = ril_invD(5)[OF inv, unfolded statics_ok_def active_def]
  show one: "\<not> (s_listen_event \<in> set (watched s) \<and> s_commands_event \<in> set (watched s))" using st by blast
  have sub: "set (watched s) \<subseteq> statics" using st by (rule conjunct1)
  have "s_listen_event \<in> statics" "s_commands_event \<in> statics" by (simp_all add: statics_def)
  with sub one have "\<exists>a \<in> statics. set (watched s) \<subseteq> statics - {a}" by blast
  then obtain a where a: "a \<in> statics" "set (watched s) \<subseteq> statics - {a}" by blast
  have "Finite_Set.card (set (watched s)) \<le> Finite_Set.card (statics - {a})"
    by (rule card_mono[OF _ a(2)]) (simp add: statics_def)
  also have "\<dots> = 3" unfolding card_Diff_singleton[OF a(1)] by (simp add: static_defs)
  finally have c: "Finite_Set.card (set (watched s)) \<le> 3" .
  then show "length (watched s) \<le> 3" using distinct_card[OF watched_distinct[OF ril_invD(2)[OF inv]]] by simp
  show "0 \<in> set (watch_table s)"
    by (rule table_has_slot[OF ril_invD(2)[OF inv]]) (use c in \<open>simp add: MAX_FD_EVENTS_def\<close>)
qed

text \<open>As many further events find a slot as there are.\<close>

lemma add_events:
  assumes "length (watch_table s) = MAX_FD_EVENTS" "0 \<notin> set es" "length (watched s) + length es \<le> MAX_FD_EVENTS"
  shows "set (watched (fold ril_event_add es s)) = set (watched s) \<union> set es"
  using assms
proof (induction es arbitrary: s)
  case (Cons e es)
  have "0 \<in> set (watch_table s)"
  proof (rule ccontr)
    assume "0 \<notin> set (watch_table s)"
    then have "watched s = watch_table s" by (simp add: filter_id_conv) (metis neq0_conv)
    then show False using Cons.prems(1,3) by simp
  qed
  then obtain i where i: "free_slot (watch_table s) = Some i" using free_slot_None by blast
  note f = free_slot_Some[OF i]
  let ?s = "ril_event_add e s"
  have tab: "watch_table ?s = (watch_table s)[i := e]" using i by (auto simp: ril_event_add_def Let_def)
  have "e \<noteq> 0" using Cons.prems(2) by auto
  have "set (watched ?s) = insert e (set (watched s))" using set_update_free[of i "watch_table s" e] f \<open>e \<noteq> 0\<close> by (simp add: tab)
  moreover have "length (watched ?s) = Suc (length (watched s))"
    using filter_split[of i "watch_table s" "\<lambda>a. a \<noteq> 0"] f \<open>e \<noteq> 0\<close> by (simp add: tab upd_conv_take_nth_drop)
  ultimately show ?case using Cons.IH[of ?s] Cons.prems tab by auto
qed simp

text \<open>
  C13 The table of watched descriptors never fills up, so that no event is dropped when it is added: of the events
  of ril.cpp at most three are watched, and never the listening socket together with a connection, and up to
  five others, as the two of the SIM access profile socket, which are not among the steps here, all find a slot.
\<close>

theorem table_never_full:
  assumes "ril_run E H fds ph s"
  shows "length (watched s) \<le> 3 \<and> 0 \<in> set (watch_table s) \<and>
    \<not> (s_listen_event \<in> set (watched s) \<and> s_commands_event \<in> set (watched s)) \<and>
    (\<forall>es. length es \<le> 5 \<and> 0 \<notin> set es \<longrightarrow> set (watched (fold ril_event_add es s)) = set (watched s) \<union> set es)"
proof -
  have "length (watch_table s) = MAX_FD_EVENTS" using run_inv[OF assms] by (auto simp: run_inv_def tab_inv_def dest: ril_invD(2))
  then show ?thesis using table_never_full_parts[OF assms] add_events[of s] by (auto simp: MAX_FD_EVENTS_def)
qed

theorem table_never_full_witness:
  "\<exists>s. ril_run flat_parcel ref_h fds0 Waiting s \<and> length (watched s) \<le> 3 \<and>
     set (watched (fold ril_event_add [901, 902] s)) = set (watched s) \<union> {901, 902}"
proof -
  obtain s where s: "ril_run flat_parcel ref_h fds0 Waiting s" by (rule registered)
  have "length [901, 902 :: addr] \<le> 5 \<and> 0 \<notin> set [901, 902 :: addr]" by simp
  then show ?thesis using table_never_full[OF s] s by fastforce
qed

lemma fire_list_fault:
  assumes "accept_ok fds (w_accept w)"
  shows "ril_run E H fds (Firing (hd (ps @ [pending_list]))) s \<Longrightarrow> ril_inv fds True s ts ps \<Longrightarrow>
    fire_list (ril_call E H w) ps s = Inl f \<Longrightarrow>
    \<exists>x s2. x \<in> set ps \<and> ril_run E H fds (Firing x) s2 \<and>
      ril_call E H w (ev_func (ev_heap s2 x)) (ev_fd (ev_heap s2 x)) (ev_param (ev_heap s2 x)) (removeFromList x s2) = Inl f"
proof (induction ps arbitrary: s ts)
  case (Cons x ps)
  let ?c = "ril_call E H w (ev_func (ev_heap s x)) (ev_fd (ev_heap s x)) (ev_param (ev_heap s x)) (removeFromList x s)"
  show ?case
  proof (cases ?c)
    case (Inl g)
    then show ?thesis using Cons.prems by auto
  next
    case (Inr s1)
    then have one: "fire_list (ril_call E H w) [x] s = Inr s1" "fire_list (ril_call E H w) ps s1 = Inl f" using Cons.prems(3) by simp_all
    have "x \<noteq> pending_list" using ev_invD(3)[OF ril_invD(1)[OF Cons.prems(2)]] by auto
    moreover have "ev_next (ev_heap s x) = hd (ps @ [pending_list])"
      using dll_split_next[of "ev_heap s" pending_list "[]" x ps] ev_invD(2)[OF ril_invD(1)[OF Cons.prems(2)]] by simp
    ultimately have "ril_run E H fds (Firing (hd (ps @ [pending_list]))) s1"
      using run_step[OF Cons.prems(1)] step_fire[OF _ assms Inr] by auto
    moreover obtain ts' where "ril_inv fds True s1 ts' ps" using ril_call_inv[OF Cons.prems(2) assms Inr] by blast
    ultimately show ?thesis using Cons.IH one(2) by fastforce
  qed
qed auto

text \<open>A round up to the first callback: the polled state is one of the states in which the loop fires.\<close>

lemma round_polled:
  assumes "ril_run E H fds Waiting s" "accept_ok fds (w_accept w)"
  obtains ts s1 ps where "poll n rfds t s = Some s1" "dll (ev_heap s1) pending_list ps" "ril_inv fds True s1 ts ps"
    "ril_run E H fds (Firing (hd (ps @ [pending_list]))) s1"
    "loop_round (ril_call E H w) (SelReady n rfds t) s = Some (True, fire_list (ril_call E H w) ps s1)"
proof -
  obtain ts where inv: "ril_inv fds True s ts []" using waiting_inv[OF assms(1)] by blast
  let ?ps = "filter (due t s) ts @ ready_events n rfds s"
  obtain s1 where s1: "poll n rfds t s = Some s1" "ril_inv fds True s1 (filter (\<lambda>x. \<not> due t s x) ts) ?ps"
    "loop_round (ril_call E H w) (SelReady n rfds t) s = Some (True, fire_list (ril_call E H w) ?ps s1)"
    by (rule round_runs[OF inv assms(2), where n = n and rfds = rfds and t = t and E = E and H = H])
  note d = ev_invD(2)[OF ril_invD(1)[OF s1(2)]]
  have "ril_run E H fds (Firing (hd (?ps @ [pending_list]))) s1"
    using run_step[OF assms(1) step_poll[OF s1(1)]] dll_next[OF d] by simp
  with s1 d show ?thesis using that by blast
qed

text \<open>
  C4 A round of the loop over the real callbacks: polling makes a list of events pending, and the round passes
  them to the callbacks of ril.cpp in this order. When every callback returns, the round is a run of the steps of the
  system, back to waiting; when it does not, its fault (or its waiting forever) is that of the callback of a
  pending event in a reachable state.
\<close>

theorem loop_round_is_run:
  assumes "ril_run E H fds Waiting s" "accept_ok fds (w_accept w)"
  shows "\<exists>s1 ps. poll n rfds t s = Some s1 \<and> dll (ev_heap s1) pending_list ps \<and>
      loop_round (ril_call E H w) (SelReady n rfds t) s = Some (True, fire_list (ril_call E H w) ps s1) \<and>
      (\<forall>s'. fire_list (ril_call E H w) ps s1 = Inr s' \<longrightarrow> ril_run E H fds Waiting s') \<and>
      (\<forall>f. fire_list (ril_call E H w) ps s1 = Inl f \<longrightarrow> (\<exists>x s2. x \<in> set ps \<and> ril_run E H fds (Firing x) s2 \<and>
        ril_call E H w (ev_func (ev_heap s2 x)) (ev_fd (ev_heap s2 x)) (ev_param (ev_heap s2 x)) (removeFromList x s2) = Inl f))"
proof -
  obtain ts s1 ps where r: "poll n rfds t s = Some s1" "dll (ev_heap s1) pending_list ps" "ril_inv fds True s1 ts ps"
    "ril_run E H fds (Firing (hd (ps @ [pending_list]))) s1"
    "loop_round (ril_call E H w) (SelReady n rfds t) s = Some (True, fire_list (ril_call E H w) ps s1)"
    by (rule round_polled[OF assms, where n = n and rfds = rfds and t = t])
  have "ril_run E H fds Waiting s'" if "fire_list (ril_call E H w) ps s1 = Inr s'" for s'
    using run_step[OF fire_list_run[OF assms(2) r(4,3) that] step_done] .
  moreover note fire_list_fault[OF assms(2) r(4,3)]
  ultimately show ?thesis using r(1,2,5) by blast
qed

text \<open>A round that fires the timer that was asked for after registration.\<close>

theorem loop_round_is_run_witness:
  "\<exists>s s1 ps s' t. ril_run flat_parcel ref_h fds0 Waiting s \<and> poll 0 {} t s = Some s1 \<and>
     dll (ev_heap s1) pending_list ps \<and> ps \<noteq> [] \<and>
     loop_round (ril_call flat_parcel ref_h world0) (SelReady 0 {} t) s = Some (True, Inr s') \<and>
     ril_run flat_parcel ref_h fds0 Waiting s'"
proof -
  obtain s ts where s: "ril_run flat_parcel ref_h fds0 Waiting s" "ril_inv fds0 True s ts []" "ts \<noteq> []" by (rule timer_asked)
  obtain t where t: "\<forall>x \<in> set ts. due t s x" using late_time by blast
  then have f: "filter (due t s) ts = ts" by (simp add: filter_id_conv)
  obtain s1 where s1: "poll 0 {} t s = Some s1" "ril_inv fds0 True s1 (filter (\<lambda>x. \<not> due t s x) ts) ts"
    using poll_ril_inv[OF s(2), of 0 "{}" t] f by auto
  have "set ts \<inter> statics = {}" using ril_invD(7)[OF s(2)] timer_not_static[OF ril_invD(3)[OF s(2)]] by blast
  then obtain s' where s': "fire_list (ril_call flat_parcel ref_h world0) ts s1 = Inr s'" using timers_fire[OF s1(2)] by blast
  note d = ev_invD(2)[OF ril_invD(1)[OF s1(2)]]
  obtain s1' ps where r: "poll 0 {} t s = Some s1'" "dll (ev_heap s1') pending_list ps"
    "loop_round (ril_call flat_parcel ref_h world0) (SelReady 0 {} t) s
       = Some (True, fire_list (ril_call flat_parcel ref_h world0) ps s1')"
    "\<And>s'. fire_list (ril_call flat_parcel ref_h world0) ps s1' = Inr s' \<Longrightarrow> ril_run flat_parcel ref_h fds0 Waiting s'"
    using loop_round_is_run[OF s(1) world0_accept, of 0 "{}" t] by blast
  then have eq: "s1' = s1" "ps = ts" using s1(1) dll_unique[OF d] by auto
  have "loop_round (ril_call flat_parcel ref_h world0) (SelReady 0 {} t) s = Some (True, Inr s')" using r(3) s' eq by simp
  moreover have "ril_run flat_parcel ref_h fds0 Waiting s'" using r(4) s' eq by simp
  ultimately show ?thesis using s(1,3) s1(1) d by blast
qed

end
