(* ===== verification/Guarded_System.thy ===== *)
theory Guarded_System
  imports Prelude
begin

text \<open>
  Systems whose steps are actions: an action is not possible, or it gives a new state or a fault. The
  reachable states, runs of given actions, and the contract under which no fault is ever met.
\<close>

inductive act_reach :: "('s \<Rightarrow> bool) \<Rightarrow> ('a \<Rightarrow> 's \<Rightarrow> 's result option) \<Rightarrow> ('a \<Rightarrow> bool) \<Rightarrow> 's \<Rightarrow> bool"
  for initial act allowed where
  act_start: "initial s \<Longrightarrow> act_reach initial act allowed s"
| act_step: "act_reach initial act allowed s \<Longrightarrow> allowed a \<Longrightarrow> act a s = Some (Inr s') \<Longrightarrow> act_reach initial act allowed s'"

fun act_run :: "('a \<Rightarrow> 's \<Rightarrow> 's result option) \<Rightarrow> 'a list \<Rightarrow> 's \<Rightarrow> 's option" where
  "act_run act [] s = Some s"
| "act_run act (a # as) s = (case act a s of Some (Inr s') \<Rightarrow> act_run act as s' | _ \<Rightarrow> None)"

lemma act_run_reach:
  "act_reach initial act allowed s \<Longrightarrow> \<forall>a\<in>set as. allowed a \<Longrightarrow> act_run act as s = Some s' \<Longrightarrow> act_reach initial act allowed s'"
  by (induction as arbitrary: s) (auto split: option.splits sum.splits intro: act_step)

text \<open>With fewer actions fewer states are reached.\<close>

lemma act_reach_mono:
  assumes "act_reach initial act allowed s" "\<And>a. allowed a \<Longrightarrow> more a"
  shows "act_reach initial act more s"
  using assms(1) by (induction rule: act_reach.induct) (auto intro: act_start act_step assms(2))

text \<open>An invariant that every action keeps, and under which none faults.\<close>

locale guarded_system =
  fixes initial :: "'s \<Rightarrow> bool" and act :: "'a \<Rightarrow> 's \<Rightarrow> 's result option" and allowed :: "'a \<Rightarrow> bool" and inv :: "'s \<Rightarrow> bool"
  assumes inv_initial: "initial s \<Longrightarrow> inv s"
    and inv_act: "inv s \<Longrightarrow> allowed a \<Longrightarrow> act a s = Some res \<Longrightarrow> \<exists>s'. res = Inr s' \<and> inv s'"
begin

lemma inv_reachable: "act_reach initial act allowed s \<Longrightarrow> inv s"
  by (induction rule: act_reach.induct) (use inv_initial inv_act in blast)+

lemma no_fault: "act_reach initial act allowed s \<Longrightarrow> allowed a \<Longrightarrow> act a s = Some res \<Longrightarrow> \<exists>s'. res = Inr s'"
  using inv_act inv_reachable by blast

lemma inv_run: "initial s \<Longrightarrow> \<forall>a\<in>set as. allowed a \<Longrightarrow> act_run act as s = Some s' \<Longrightarrow> inv s'"
  by (rule inv_reachable[OF act_run_reach[OF act_start]])

end

end
