(* ===== verification/Ril_Wake.thy ===== *)
theory Ril_Wake
  imports Guarded_System
begin

text \<open>
  The wake lock of ril.cpp step by step. No mutex guards \<open>RIL_onUnsolicitedResponse\<close>: several threads of the vendor
  library may be in it at once, each holding the lock while it writes to the socket, and the event loop runs the timers
  that release the lock meanwhile. A step is one access to what they share: the lock, the pointer
  \<open>s_last_wake_timeout_info\<close>, the blocks it may point at and the list of timers. In \<open>Ril_Unsol\<close> a message is one step; here
  the threads interleave. Messages that ask for no lock touch nothing of this. The messages that \<open>processRadioState\<close> sends while another
  is marshalled run like those of one more thread. The allocator never fails.
\<close>

section \<open>Threads and steps\<close>

text \<open>
  The places in \<open>RIL_onUnsolicitedResponse\<close> for a message that asks for the lock: outside, marshalling after the lock was
  grabbed, sending (which may block), the test of \<open>s_last_wake_timeout_info\<close>, the second load of it, the write
  through the loaded pointer, starting the timer, storing its block, and the release of \<open>error_exit\<close>.
\<close>

datatype msg_place = Outside | Marshal | Send | Test | Load | Mark addr | Start | Store addr | Error_Exit

text \<open>
  The places of the event loop: waiting, about to load \<open>userParam\<close> of a block in \<open>userTimerCallback\<close>, in
  \<open>wakeTimeoutCallback\<close> with the parameter, at the comparison, at the assignment under it, and at \<open>free\<close>.
\<close>

datatype timer_place = Idle | Fired addr | Timeout addr addr | Compare addr | Forget addr | Free addr

text \<open>\<open>infos\<close> are the live blocks of wake timers with their \<open>userParam\<close>, \<open>timers\<close> those in the timer list.\<close>

record wake_sys =
  held :: bool
  last_info :: addr
  infos :: "addr \<rightharpoonup> addr"
  timers :: "addr list"
  senders :: "nat \<Rightarrow> msg_place"
  timer_at :: timer_place

text \<open>\<open>ok\<close>: the response function returned 0. \<open>a\<close>: the block that the allocator returns.\<close>

fun msg_step :: "bool \<Rightarrow> addr \<Rightarrow> msg_place \<Rightarrow> wake_sys \<Rightarrow> (msg_place \<times> wake_sys) result" where
  "msg_step ok a Outside s = Inr (Marshal, s\<lparr>held := True\<rparr>)"
| "msg_step ok a Marshal s = Inr (if ok then Send else Error_Exit, s)"
| "msg_step ok a Send s = Inr (Test, s)"
| "msg_step ok a Test s = Inr (if last_info s \<noteq> 0 then Load else Start, s)"
| "msg_step ok a Load s = (if last_info s = 0 then Inl NullDeref else Inr (Mark (last_info s), s))"
| "msg_step ok a (Mark p) s = (if infos s p = None then Inl UseAfterFree else Inr (Start, s\<lparr>infos := (infos s)(p \<mapsto> 1)\<rparr>))"
| "msg_step ok a Start s = Inr (Store a, s\<lparr>infos := (infos s)(a \<mapsto> 0), timers := timers s @ [a]\<rparr>)"
| "msg_step ok a (Store p) s = Inr (Outside, s\<lparr>last_info := p\<rparr>)"
| "msg_step ok a Error_Exit s = Inr (Outside, s\<lparr>held := False\<rparr>)"

text \<open>\<open>p\<close>: the timer that has expired, for a loop that waits.\<close>

fun timer_step :: "addr \<Rightarrow> timer_place \<Rightarrow> wake_sys \<Rightarrow> (timer_place \<times> wake_sys) result" where
  "timer_step p Idle s = Inr (Fired p, s\<lparr>timers := remove1 p (timers s)\<rparr>)"
| "timer_step p (Fired q) s = (case infos s q of None \<Rightarrow> Inl UseAfterFree | Some u \<Rightarrow> Inr (Timeout q u, s))"
| "timer_step p (Timeout q u) s = Inr (Compare q, if u = 0 then s\<lparr>held := False\<rparr> else s)"
| "timer_step p (Compare q) s = Inr (if last_info s \<noteq> 0 \<and> last_info s = q then Forget q else Free q, s)"
| "timer_step p (Forget q) s = Inr (Free q, s\<lparr>last_info := 0\<rparr>)"
| "timer_step p (Free q) s = (if infos s q = None then Inl UseAfterFree else Inr (Idle, s\<lparr>infos := (infos s)(q := None)\<rparr>))"

text \<open>The next step is one of thread \<open>t\<close> of the vendor library, or one of the event loop.\<close>

datatype wake_act = Sender nat bool addr | Timer addr

definition wake_sender :: "nat \<Rightarrow> bool \<Rightarrow> addr \<Rightarrow> wake_sys \<Rightarrow> wake_sys result option" where
  "wake_sender t ok a s =
     (if senders s t = Start \<and> (a = 0 \<or> infos s a \<noteq> None) then None
      else Some (map_sum id (\<lambda>(m, s'). s'\<lparr>senders := (senders s')(t := m)\<rparr>) (msg_step ok a (senders s t) s)))"

definition wake_timer :: "addr \<Rightarrow> wake_sys \<Rightarrow> wake_sys result option" where
  "wake_timer p s =
     (if timer_at s = Idle \<and> p \<notin> set (timers s) then None
      else Some (map_sum id (\<lambda>(m, s'). s'\<lparr>timer_at := m\<rparr>) (timer_step p (timer_at s) s)))"

fun wake_step :: "wake_act \<Rightarrow> wake_sys \<Rightarrow> wake_sys result option" where
  "wake_step (Sender t ok a) s = wake_sender t ok a s"
| "wake_step (Timer p) s = wake_timer p s"

definition wake_init :: wake_sys where
  "wake_init = \<lparr>held = False, last_info = 0, infos = Map.empty, timers = [], senders = (\<lambda>_. Outside), timer_at = Idle\<rparr>"

abbreviation wake_reach :: "wake_sys \<Rightarrow> bool" where
  "wake_reach \<equiv> act_reach (\<lambda>s. s = wake_init) wake_step (\<lambda>_. True)"

section \<open>Who will release the lock\<close>

text \<open>A thread that has not started its timer yet, and a timer whose callback is going to release the lock.\<close>

fun will_start :: "msg_place \<Rightarrow> bool" where
  "will_start Outside = False"
| "will_start (Store p) = False"
| "will_start m = True"

fun fired_block :: "timer_place \<Rightarrow> addr option" where
  "fired_block Idle = None"
| "fired_block (Fired p) = Some p"
| "fired_block (Timeout p u) = Some p"
| "fired_block (Compare p) = Some p"
| "fired_block (Forget p) = Some p"
| "fired_block (Free p) = Some p"

definition will_release :: "wake_sys \<Rightarrow> bool" where
  "will_release s \<longleftrightarrow> (\<exists>p \<in> set (timers s). infos s p = Some 0) \<or>
     (case timer_at s of Fired p \<Rightarrow> infos s p = Some 0 | Timeout p u \<Rightarrow> u = 0 | _ \<Rightarrow> False)"

definition wake_inv :: "wake_sys \<Rightarrow> bool" where
  "wake_inv s \<longleftrightarrow> distinct (timers s) \<and> set (timers s) \<subseteq> dom (infos s) \<and>
     (\<forall>p. fired_block (timer_at s) = Some p \<longrightarrow> p \<in> dom (infos s) \<and> p \<notin> set (timers s)) \<and>
     (held s \<longrightarrow> (\<exists>t. will_start (senders s t)) \<or> will_release s)"

lemma wake_inv_init: "wake_inv wake_init"
  by (simp add: wake_inv_def wake_init_def)

lemma other_sender: "will_start (f t) \<Longrightarrow> t \<noteq> t' \<Longrightarrow> \<exists>t. will_start ((f(t' := m)) t)"
  by (intro exI[of _ t]) simp

lemma sender_inv:
  assumes "wake_inv s" "wake_sender t ok a s = Some (Inr s')"
  shows "wake_inv s'"
proof -
  note i = assms(1)[unfolded wake_inv_def]
  show ?thesis
  proof (cases "senders s t = Start")
    case True
    then have a: "infos s a = None" and s': "s' = s\<lparr>infos := (infos s)(a \<mapsto> 0), timers := timers s @ [a], senders := (senders s)(t := Store a)\<rparr>"
      using assms(2) by (auto simp: wake_sender_def split: if_splits)
    then show ?thesis using i unfolding wake_inv_def by (auto simp: will_release_def domIff)
  next
    case False
    have st: "(\<exists>t. will_start (senders s' t)) \<or> will_release s'" if "held s'"
    proof (cases "will_start (senders s' t)")
      case stays: False
      then have "senders s t \<noteq> Error_Exit" "\<not> will_start (senders s t)"
        using assms(2) False that by (cases "senders s t"; auto simp: wake_sender_def split: if_splits)+
      then have "held s" "senders s t \<noteq> Outside"
        using assms(2) that stays by (cases "senders s t"; auto simp: wake_sender_def split: if_splits)+
      then obtain "(\<exists>t'. t' \<noteq> t \<and> will_start (senders s t')) \<or> will_release s"
        using i \<open>\<not> will_start (senders s t)\<close> by metis
      moreover have "infos s' = infos s" "timers s' = timers s" "timer_at s' = timer_at s"
        "\<And>t'. t' \<noteq> t \<Longrightarrow> senders s' t' = senders s t'"
        using assms(2) \<open>\<not> will_start (senders s t)\<close> by (cases "senders s t"; auto simp: wake_sender_def split: if_splits)+
      ultimately show ?thesis by (metis (no_types) will_release_def)
    qed blast
    moreover have "timers s' = timers s" "timer_at s' = timer_at s" "dom (infos s') = dom (infos s)"
      using assms(2) False by (cases "senders s t"; auto simp: wake_sender_def domIff split: if_splits)+
    ultimately show ?thesis using i unfolding wake_inv_def by simp
  qed
qed

lemma timer_inv:
  assumes "wake_inv s" "wake_timer p s = Some r"
  shows "\<exists>s'. r = Inr s' \<and> wake_inv s' \<and> senders s' = senders s"
proof -
  note i = assms(1)[unfolded wake_inv_def]
  show ?thesis
  proof (cases "timer_at s")
    case Idle
    then show ?thesis using assms(2) i unfolding wake_inv_def
      by (auto simp: wake_timer_def will_release_def split: if_splits)
  next
    case (Free q)
    then show ?thesis using assms(2) i unfolding wake_inv_def
      by (auto simp: wake_timer_def will_release_def domIff split: if_splits)
  qed (use assms(2) i in \<open>auto simp: wake_inv_def wake_timer_def will_release_def domIff split: option.splits if_splits\<close>)
qed

lemma wake_reach_inv: "wake_reach s \<Longrightarrow> wake_inv s"
proof (induction rule: act_reach.induct)
  case (act_step s a s')
  then show ?case using sender_inv timer_inv by (cases a) fastforce+
qed (simp add: wake_inv_init)

section \<open>The loop by itself\<close>

inductive timer_runs :: "nat \<Rightarrow> wake_sys \<Rightarrow> wake_sys \<Rightarrow> bool" where
  runs_none: "timer_runs 0 s s"
| runs_step: "timer_runs n s s' \<Longrightarrow> wake_timer p s' = Some (Inr s'') \<Longrightarrow> timer_runs (Suc n) s s''"

fun place_rank :: "timer_place \<Rightarrow> nat" where
  "place_rank Idle = 0"
| "place_rank (Fired p) = 5"
| "place_rank (Timeout p u) = 4"
| "place_rank (Compare p) = 3"
| "place_rank (Forget p) = 2"
| "place_rank (Free p) = 1"

text \<open>The steps that the loop has left when no timer is started any more.\<close>

definition wake_rank :: "wake_sys \<Rightarrow> nat" where
  "wake_rank s = 6 * length (timers s) + place_rank (timer_at s)"

lemma timer_rank:
  assumes "wake_timer p s = Some (Inr s')"
  shows "wake_rank s' < wake_rank s"
proof -
  have "timer_at s = Idle \<Longrightarrow> length (timers s) = Suc (length (remove1 p (timers s)))"
    using assms length_pos_if_in_set[of p "timers s"] by (simp add: wake_timer_def length_remove1 split: if_splits)
  then show ?thesis using assms
    by (cases "timer_at s") (auto simp: wake_timer_def wake_rank_def split: option.splits if_splits)
qed

lemma timer_runs_bound: "timer_runs n s s' \<Longrightarrow> n + wake_rank s' \<le> wake_rank s"
  by (induction rule: timer_runs.induct) (use timer_rank in fastforce)+

lemma timer_runs_reach: "timer_runs n s s' \<Longrightarrow> wake_reach s \<Longrightarrow> wake_reach s' \<and> senders s' = senders s"
proof (induction rule: timer_runs.induct)
  case (runs_step n s s' p s'')
  then have "senders s'' = senders s'" using timer_inv[OF wake_reach_inv] by blast
  moreover have "wake_reach s''" using runs_step act_step[of "\<lambda>s. s = wake_init" wake_step "\<lambda>_. True" s' "Timer p" s''] by simp
  ultimately show ?case using runs_step by simp
qed simp

lemma timers_over:
  assumes "\<forall>p. wake_timer p s = None"
  shows "timer_at s = Idle" "timers s = []"
proof -
  have i: "timer_at s = Idle \<and> p \<notin> set (timers s)" for p using assms by (auto simp: wake_timer_def split: if_splits)
  then show "timer_at s = Idle" by simp
  show "timers s = []" using i[of "hd (timers s)"] by (cases "timers s") simp_all
qed

section \<open>Properties\<close>

text \<open>
  C3 The wake lock is released, however the threads of the vendor library and the event loop interleave, blocking
  writes included: from every state that is reached without a fault, once no thread is in a message that has still to start its
  timer, the event loop by itself meets no fault and comes to rest after at most
  \<open>wake_rank\<close> steps, in whatever order the timers expire, and the lock is free then.
\<close>

theorem lock_released:
  assumes "wake_reach s" "\<forall>t. \<not> will_start (senders s t)" "timer_runs n s s'"
  shows "n \<le> wake_rank s \<and> (\<forall>p f. wake_timer p s' \<noteq> Some (Inl f)) \<and> ((\<forall>p. wake_timer p s' = None) \<longrightarrow> \<not> held s')"
proof (intro conjI allI impI)
  have r: "wake_reach s'" "senders s' = senders s" using timer_runs_reach[OF assms(3,1)] by simp_all
  note i = wake_reach_inv[OF r(1)]
  show "n \<le> wake_rank s" using timer_runs_bound[OF assms(3)] by simp
  show "wake_timer p s' \<noteq> Some (Inl f)" for p f using timer_inv[OF i, of p "Inl f"] by blast
  assume "\<forall>p. wake_timer p s' = None"
  then have "\<not> will_release s'" using timers_over by (simp add: will_release_def)
  then show "\<not> held s'" using i assms(2) r(2) by (auto simp: wake_inv_def)
qed

text \<open>A whole message of thread \<open>t\<close> whose timer is block \<open>a\<close>, when no earlier timer is to be cancelled.\<close>

abbreviation whole_message :: "nat \<Rightarrow> addr \<Rightarrow> wake_act list" where
  "whole_message t a \<equiv> replicate 6 (Sender t True a)"

lemma wake_run_reach: "act_run wake_step as wake_init = Some s \<Longrightarrow> wake_reach s"
  by (rule act_run_reach[OF act_start]) auto

lemma timer_runs_run: "act_run wake_step (replicate n (Timer p)) s = Some s' \<Longrightarrow> timer_runs n s s'"
proof (induction n arbitrary: s')
  case (Suc n)
  have snoc: "act_run wake_step (as @ [b]) u = Option.bind (act_run wake_step as u)
      (\<lambda>v. case wake_step b v of Some (Inr w) \<Rightarrow> Some w | _ \<Rightarrow> None)" for as b u
    by (induction as arbitrary: u) (auto split: option.splits sum.splits)
  obtain v where "act_run wake_step (replicate n (Timer p)) s = Some v" "wake_timer p v = Some (Inr s')"
    using Suc.prems by (auto simp: replicate_append_same[symmetric] snoc split: bind_splits option.splits sum.splits)
  then show ?case using Suc.IH runs_step by blast
qed (simp add: runs_none)

theorem lock_released_witness:
  "\<exists>s s'. act_run wake_step (whole_message 0 10) wake_init = Some s \<and> held s \<and> timer_runs 6 s s' \<and> \<not> held s'"
proof -
  have "\<exists>s. act_run wake_step (whole_message 0 10) wake_init = Some s \<and> held s \<and> timers s = [10] \<and>
      timer_at s = Idle \<and> senders s = (\<lambda>_. Outside) \<and> infos s = [10 \<mapsto> 0] \<and> last_info s = 10"
    by (simp add: eval_nat_numeral wake_sender_def wake_init_def fun_upd_idem_iff)
  then obtain s where s: "act_run wake_step (whole_message 0 10) wake_init = Some s" "held s" "timers s = [10]"
      "timer_at s = Idle" "senders s = (\<lambda>_. Outside)" "infos s = [10 \<mapsto> 0]" "last_info s = 10" by blast
  have "\<exists>s'. act_run wake_step (replicate 6 (Timer 10)) s = Some s' \<and> timers s' = [] \<and> timer_at s' = Idle"
    using s(3-) by (simp add: eval_nat_numeral wake_timer_def)
  then obtain s' where s': "act_run wake_step (replicate 6 (Timer 10)) s = Some s'" "timers s' = []" "timer_at s' = Idle" by blast
  have "timer_runs 6 s s'" by (rule timer_runs_run[OF s'(1)])
  moreover have "\<forall>p. wake_timer p s' = None" using s'(2,3) by (simp add: wake_timer_def)
  ultimately have "\<not> held s'" using lock_released[OF wake_run_reach[OF s(1)], of 6 s'] s(5) by simp
  then show ?thesis using s \<open>timer_runs 6 s s'\<close> by blast
qed

text \<open>
  C39 The cancellation of the previous wake timer races with the event loop. A thread may have found
  \<open>s_last_wake_timeout_info\<close> set and then dereference \<open>NULL\<close>; it may write to the block after \<open>userTimerCallback\<close> has freed it; a timer
  that expires before its block is stored leaves the pointer dangling after all threads are done; and the timer of an
  earlier message may release the lock while a thread is still sending.
\<close>

theorem wake_timer_races:
  "(\<exists>s. wake_reach s \<and> senders s 1 = Load \<and> wake_sender 1 True 11 s = Some (Inl NullDeref)) \<and>
   (\<exists>s p. wake_reach s \<and> senders s 1 = Mark p \<and> wake_sender 1 True 11 s = Some (Inl UseAfterFree)) \<and>
   (\<exists>s. wake_reach s \<and> (\<forall>t. senders s t = Outside) \<and> timer_at s = Idle \<and> last_info s \<noteq> 0 \<and> infos s (last_info s) = None) \<and>
   (\<exists>s. wake_reach s \<and> senders s 1 = Send \<and> \<not> held s)"
proof (intro conjI)
  let ?m = "whole_message 0 10" and ?s = "Sender 1 True 11" and ?t = "Timer 10"
  have "\<exists>s. act_run wake_step (?m @ replicate 4 ?s @ replicate 5 ?t) wake_init = Some s \<and> senders s 1 = Load \<and> last_info s = 0"
    by (simp add: eval_nat_numeral wake_sender_def wake_timer_def wake_init_def)
  then show "\<exists>s. wake_reach s \<and> senders s 1 = Load \<and> wake_sender 1 True 11 s = Some (Inl NullDeref)"
    using wake_run_reach by (fastforce simp: wake_sender_def)
  have "\<exists>s. act_run wake_step (?m @ replicate 5 ?s @ replicate 6 ?t) wake_init = Some s \<and> senders s 1 = Mark 10 \<and> infos s 10 = None"
    by (simp add: eval_nat_numeral wake_sender_def wake_timer_def wake_init_def)
  then show "\<exists>s p. wake_reach s \<and> senders s 1 = Mark p \<and> wake_sender 1 True 11 s = Some (Inl UseAfterFree)"
    using wake_run_reach by (fastforce simp: wake_sender_def)
  have "\<exists>s. act_run wake_step (replicate 5 (Sender 0 True 10) @ replicate 5 ?t @ [Sender 0 True 10]) wake_init = Some s \<and>
      (\<forall>t. senders s t = Outside) \<and> timer_at s = Idle \<and> last_info s = 10 \<and> infos s 10 = None"
    by (simp add: eval_nat_numeral wake_sender_def wake_timer_def wake_init_def)
  then show "\<exists>s. wake_reach s \<and> (\<forall>t. senders s t = Outside) \<and> timer_at s = Idle \<and> last_info s \<noteq> 0 \<and> infos s (last_info s) = None"
    using wake_run_reach by (metis zero_neq_numeral)
  have "\<exists>s. act_run wake_step (?m @ replicate 2 ?s @ replicate 3 ?t) wake_init = Some s \<and> senders s 1 = Send \<and> \<not> held s"
    by (simp add: eval_nat_numeral wake_sender_def wake_timer_def wake_init_def)
  then show "\<exists>s. wake_reach s \<and> senders s 1 = Send \<and> \<not> held s" using wake_run_reach by blast
qed

end
