(* ===== verification/Ril_Unsol_Props.thy ===== *)
theory Ril_Unsol_Props
  imports Ril_Reach Ril_Wake
begin

text \<open>
  Unsolicited messages: the bytes of a message and what becomes of it, the recursion through
  \<open>processRadioState\<close>, the message with the network time that waits for a connection, and what the
  translation of old message codes does to the library's own notifications.
\<close>

section \<open>The bytes of a message\<close>

text \<open>\<open>send_unsol\<close> depends on the bytes of the parcel only.\<close>

definition deliver :: "ril_h \<Rightarrow> i32 \<Rightarrow> u8 list \<Rightarrow> ril_state \<Rightarrow> ril_state result" where
  "deliver H c dat s = (case sendResponseRaw dat s of
       Inl f \<Rightarrow> Inl f
     | Inr (r, s1) \<Rightarrow>
         let s2 = (if r \<noteq> 0 \<and> c = hword H ''RIL_UNSOL_NITZ_TIME_RECEIVED''
                   then s1\<lparr>s_lastNITZTimeData := Some dat\<rparr> else s1)
         in if unsol_wake H c then schedule_release s2 else Inr s2)"

lemma send_unsol_deliver: "send_unsol E H c (unsol_wake H c) p s = deliver H c (p_data E p) s"
  by (simp add: send_unsol_def deliver_def sendResponse_def)

text \<open>The state in which the message goes out: the lock is held when the message asks for it.\<close>

definition locked :: "ril_h \<Rightarrow> i32 \<Rightarrow> ril_state \<Rightarrow> ril_state" where
  "locked H c s = (if unsol_wake H c then grabPartialWakeLock s else s)"

lemma locked_sel [simp]:
  "cb_version (locked H c s) = cb_version s" "elapsed (locked H c s) = elapsed s"
  "fdCommand (locked H c s) = fdCommand s" "wr_script (locked H c s) = wr_script s"
  "s_lastNITZTimeData (locked H c s) = s_lastNITZTimeData s" "radioState (locked H c s) = radioState s"
  "sock_out (locked H c s) = sock_out s"
  by (simp_all add: locked_def grabPartialWakeLock_def)

context ril_env
begin

lemma payload_bytes:
  assumes "writes (call_response E H version (unsolFunction (unsol_info H c)) dat n) (Inr rc) its"
  obtains p where "run_state (unsol_payload E H version c dat n) (p_new E) = (Inr rc, p)"
    "R p ([I32 RESPONSE_UNSOLICITED, I32 c] @ its) []"
proof -
  have "writes (unsol_payload E H version c dat n) (Inr rc) (I32 RESPONSE_UNSOLICITED # I32 c # its)"
    unfolding unsol_payload_def by (intro writes_Int32 assms)
  from writes_run[OF this new_R] show thesis using that by auto
qed

lemma unsol_delivered:
  assumes "unsol_conv H code = Some c" "s_registerCalled s" "unsol_known H c"
    and c: "c \<noteq> hword H ''RIL_UNSOL_RESPONSE_RADIO_STATE_CHANGED''"
    and w: "writes (call_response E H (cb_version s) (unsolFunction (unsol_info H c)) dat n) (Inr 0) its"
  shows "RIL_onUnsolicitedResponse E H (Suc depth) code dat n s =
    deliver H c (enc ([I32 RESPONSE_UNSOLICITED, I32 c] @ its @
      (if c = hword H ''RIL_UNSOL_NITZ_TIME_RECEIVED'' then [I64 (elapsed s)] else []))) (locked H c s)"
proof -
  obtain p where p: "run_state (unsol_payload E H (cb_version s) c dat n) (p_new E) = (Inr 0, p)"
    "R p ([I32 RESPONSE_UNSOLICITED, I32 c] @ its) []" by (rule payload_bytes[OF w])
  obtain p2 where p2: "run_state (p_writeInt64 E (elapsed s)) p = ((), p2)"
    "R p2 (([I32 RESPONSE_UNSOLICITED, I32 c] @ its) @ [I64 (elapsed s)]) []" using writeInt64_R[OF p(2)] by blast
  have "cb_version (locked H c s) = cb_version s" by simp
  note body = unsol_body[OF assms(1-3) locked_def, unfolded this, OF p(1)]
  show ?thesis unfolding body using c p2(1) data_enc[OF p(2)] data_enc[OF p2(2)]
    by (simp add: send_unsol_deliver)
qed

end

section \<open>What a message leaves alone\<close>

text \<open>A connection stays as it is, results of \<open>write\<close> are only used up, and a kept time message stays.\<close>

definition unsol_keeps :: "ril_state \<Rightarrow> ril_state \<Rightarrow> bool" where
  "unsol_keeps s s' \<longleftrightarrow> fdCommand s' = fdCommand s \<and> set (wr_script s') \<subseteq> set (wr_script s) \<and>
     s_lastNITZTimeData s' = s_lastNITZTimeData s"

lemma unsol_keeps_refl [simp]: "unsol_keeps s s"
  by (simp add: unsol_keeps_def)

lemma unsol_keeps_trans [trans]: "unsol_keeps s t \<Longrightarrow> unsol_keeps t u \<Longrightarrow> unsol_keeps s u"
  by (auto simp: unsol_keeps_def)

lemma write_loop_suffix: "write_loop ws bs = Some (r, out, ws') \<Longrightarrow> set ws' \<subseteq> set ws"
  by (induction ws bs arbitrary: r out ws' rule: write_loop.induct) (auto simp del: take.simps drop.simps)

lemma write_loop_error: "write_loop ws bs = Some (r, out, ws') \<Longrightarrow> WError \<notin> set ws \<Longrightarrow> r = 0"
  by (induction ws bs arbitrary: r out ws' rule: write_loop.induct) (auto simp del: take.simps drop.simps)

lemma blockingWrite_keeps:
  assumes "blockingWrite b s = Inr (r, s')"
  shows "unsol_keeps s s' \<and> (WError \<notin> set (wr_script s) \<longrightarrow> r = 0)"
proof -
  obtain out ws where w: "write_loop (wr_script s) b = Some (r, out, ws)" "s' = s\<lparr>sock_out := sock_out s @ out, wr_script := ws\<rparr>"
    using assms by (auto simp: blockingWrite_def split: option.splits)
  then show ?thesis using write_loop_suffix[OF w(1)] write_loop_error[OF w(1)] by (simp add: unsol_keeps_def)
qed

lemma sendResponseRaw_keeps:
  assumes "sendResponseRaw dat s = Inr (r, s')"
  shows "unsol_keeps s s'"
    and "WError \<notin> set (wr_script s) \<Longrightarrow> 0 \<le> fdCommand s \<Longrightarrow> length dat \<le> MAX_COMMAND_BYTES \<Longrightarrow> r = 0"
proof -
  have "unsol_keeps s s' \<and>
    (WError \<notin> set (wr_script s) \<longrightarrow> 0 \<le> fdCommand s \<longrightarrow> length dat \<le> MAX_COMMAND_BYTES \<longrightarrow> r = 0)"
  proof (cases "fdCommand s < 0 \<or> length dat > MAX_COMMAND_BYTES")
    case True
    then have "sendResponseRaw dat s = Inr (- 1, s)" by (auto simp: sendResponseRaw_def)
    then show ?thesis using assms True by auto
  next
    case False
    then obtain r1 s1 where 1: "blockingWrite (htonl (length dat)) s = Inr (r1, s1)"
      using assms by (auto simp: sendResponseRaw_def split: sum.splits)
    note k1 = blockingWrite_keeps[OF 1]
    show ?thesis
    proof (cases "r1 < 0")
      case True
      then have "s' = s1" "WError \<in> set (wr_script s)" using assms False 1 k1 by (auto simp: sendResponseRaw_def)
      then show ?thesis using k1 by blast
    next
      case pos: False
      then obtain r2 where 2: "blockingWrite dat s1 = Inr (r2, s')" "r = (if r2 < 0 then r2 else 0)"
        using assms False 1 by (auto simp: sendResponseRaw_def split: sum.splits if_splits)
      then show ?thesis using k1 blockingWrite_keeps[OF 2(1)] unsol_keeps_trans
        by (auto simp: unsol_keeps_def)
    qed
  qed
  then show "unsol_keeps s s'"
    "WError \<notin> set (wr_script s) \<Longrightarrow> 0 \<le> fdCommand s \<Longrightarrow> length dat \<le> MAX_COMMAND_BYTES \<Longrightarrow> r = 0"
    by blast+
qed

text \<open>The timers leave alone everything but themselves.\<close>

definition conn_same :: "ril_state \<Rightarrow> ril_state \<Rightarrow> bool" where
  "conn_same s s' \<longleftrightarrow> fdCommand s' = fdCommand s \<and>
     s_lastNITZTimeData s' = s_lastNITZTimeData s \<and> radioState s' = radioState s \<and>
     s_registerCalled s' = s_registerCalled s \<and> cb_version s' = cb_version s \<and> elapsed s' = elapsed s \<and>
     voiceRadioTech s' = voiceRadioTech s \<and> cdmaSubscriptionSource s' = cdmaSubscriptionSource s \<and>
     simRuimStatus s' = simRuimStatus s"

definition core_same :: "ril_state \<Rightarrow> ril_state \<Rightarrow> bool" where
  "core_same s s' \<longleftrightarrow> conn_same s s' \<and> wr_script s' = wr_script s \<and> sock_out s' = sock_out s"

lemma conn_same_trans [trans]: "conn_same s t \<Longrightarrow> conn_same t u \<Longrightarrow> conn_same s u"
  by (simp add: conn_same_def)

lemmas core_same_defs = core_same_def conn_same_def

lemma core_same_keeps: "core_same s s' \<Longrightarrow> unsol_keeps s s'"
  by (simp add: core_same_defs unsol_keeps_def)

lemma more_same: "ev_state.more s' = ev_state.more (s :: ril_state) \<Longrightarrow> core_same s s'"
  by (cases s; cases s'; simp add: core_same_defs)

lemma timed_same:
  assumes "internalRequestTimedCallback cb param t s = Inr (a, s')"
  shows "core_same s s'"
proof -
  obtain d s2 s3 where s3: "ril_timer_add a (Some d) s2 = Some s3" "s' = triggerEvLoop s3" "core_same s s2"
    using assms by (auto simp: internalRequestTimedCallback_def Let_def ril_event_set_def core_same_defs split: option.splits)
  have "core_same s2 s3" by (rule more_same[OF timer_add_fields(1)[OF s3(1)]])
  then show ?thesis using s3 by (simp add: triggerEvLoop_def core_same_defs)
qed

lemma schedule_same:
  assumes "schedule_release s = Inr s'"
  shows "core_same s s'"
proof -
  obtain s1 a s2 where "internalRequestTimedCallback WakeTimeoutCb 0 (Some TIMEVAL_WAKE_TIMEOUT) s1 = Inr (a, s2)"
    "s' = s2\<lparr>s_last_wake_timeout_info := a\<rparr>" "core_same s s1"
    using assms by (auto simp: schedule_release_def Let_def core_same_defs split: sum.splits if_splits)
  then show ?thesis using timed_same[of WakeTimeoutCb 0 _ s1 a s2] by (simp add: core_same_defs)
qed

lemmas schedule_keeps = core_same_keeps[OF schedule_same]

lemma send_unsol_keeps:
  assumes "send_unsol E H c w p s = Inr s'" "c \<noteq> hword H ''RIL_UNSOL_NITZ_TIME_RECEIVED''"
  shows "unsol_keeps s s'"
proof -
  obtain r s1 where 1: "sendResponseRaw (p_data E p) s = Inr (r, s1)"
    using assms(1) by (auto simp: send_unsol_def sendResponse_def split: sum.splits)
  then have "s' = s1 \<or> schedule_release s1 = Inr s'"
    using assms by (auto simp: send_unsol_def sendResponse_def split: if_splits)
  then show ?thesis using sendResponseRaw_keeps(1)[OF 1] schedule_keeps unsol_keeps_trans by blast
qed

lemma notify_if_keeps:
  assumes "notify_if b upd send s = Inr s'" "\<And>s s'. send s = Inr s' \<Longrightarrow> unsol_keeps s s'" "unsol_keeps s (upd s)"
  shows "unsol_keeps s s'"
  using assms unsol_keeps_trans by (cases b) (auto simp: notify_if_def)

text \<open>The codes of the notifications that \<open>processRadioState\<close> sends.\<close>

definition radio_notifications :: "string set" where
  "radio_notifications = {''RIL_UNSOL_VOICE_RADIO_TECH_CHANGED'',
     ''RIL_UNSOL_CDMA_SUBSCRIPTION_SOURCE_CHANGED'', ''RIL_UNSOL_RESPONSE_SIM_STATUS_CHANGED''}"

lemma processRadioState_keeps:
  assumes "processRadioState unsol H st s = Inr (new, s')"
    and u: "\<And>k d n s s'. k \<in> radio_notifications \<Longrightarrow> unsol (hword H k) d n s = Inr s' \<Longrightarrow> unsol_keeps s s'"
  shows "unsol_keeps s s'"
proof -
  have upd: "unsol_keeps s (s\<lparr>voiceRadioTech := x\<rparr>)" "unsol_keeps s (s\<lparr>cdmaSubscriptionSource := x\<rparr>)"
    "unsol_keeps s (s\<lparr>simRuimStatus := x\<rparr>)" for s x by (simp_all add: unsol_keeps_def)
  have k: "''RIL_UNSOL_VOICE_RADIO_TECH_CHANGED'' \<in> radio_notifications"
    "''RIL_UNSOL_CDMA_SUBSCRIPTION_SOURCE_CHANGED'' \<in> radio_notifications"
    "''RIL_UNSOL_RESPONSE_SIM_STATUS_CHANGED'' \<in> radio_notifications" by (simp_all add: radio_notifications_def)
  show ?thesis using assms(1) unfolding processRadioState_def Let_def
    by (auto split: if_splits sum.splits dest!: notify_if_keeps[OF _ u[OF k(1)] upd(1)]
      notify_if_keeps[OF _ u[OF k(2)] upd(2)] notify_if_keeps[OF _ u[OF k(3)] upd(3)] intro: unsol_keeps_trans)
qed

lemma unsol_keeps_unsol:
  assumes "\<forall>k \<in> radio_notifications. unsol_conv H (hword H k) \<noteq> Some (hword H ''RIL_UNSOL_NITZ_TIME_RECEIVED'')"
  shows "RIL_onUnsolicitedResponse E H depth code dat n s = Inr s' \<Longrightarrow>
    unsol_conv H code \<noteq> Some (hword H ''RIL_UNSOL_NITZ_TIME_RECEIVED'') \<Longrightarrow> unsol_keeps s s'"
proof (induction depth arbitrary: code dat n s s')
  case (Suc depth)
  show ?case
  proof (cases "\<exists>c. unsol_conv H code = Some c \<and> s_registerCalled s \<and> unsol_known H c")
    case False
    then have "RIL_onUnsolicitedResponse E H (Suc depth) code dat n s = Inr s"
      by (intro unsol_ignored[where c = "the (unsol_conv H code)"]) auto
    then show ?thesis using Suc.prems by auto
  next
    case True
    then obtain c where c: "unsol_conv H code = Some c" "s_registerCalled s" "unsol_known H c" by blast
    then have nitz: "c \<noteq> hword H ''RIL_UNSOL_NITZ_TIME_RECEIVED''" using Suc.prems(2) by simp
    obtain r p where run: "run_state (unsol_payload E H (cb_version (locked H c s)) c dat n) (p_new E) = (r, p)"
      by fastforce
    note body = unsol_body[OF c locked_def run]
    have s1: "unsol_keeps s (locked H c s)" "unsol_keeps s (releaseWakeLock (locked H c s))"
      by (simp_all add: unsol_keeps_def releaseWakeLock_def)
    note send = send_unsol_keeps[OF _ nitz, THEN unsol_keeps_trans[OF s1(1)]]
    have rad: "unsol_keeps s s'"
      if "processRadioState (RIL_onUnsolicitedResponse E H depth) H st (locked H c s) = Inr (new, s2)"
        "send_unsol E H c w q s2 = Inr s'" for st new s2 w q
    proof -
      have "unsol_keeps (locked H c s) s2"
        by (rule processRadioState_keeps[OF that(1)]) (use assms Suc.IH in blast)
      then show ?thesis using s1(1) send_unsol_keeps[OF that(2) nitz] unsol_keeps_trans by blast
    qed
    show ?thesis using Suc.prems(1) s1 send rad unfolding body
      by (auto split: sum.splits if_splits prod.splits)
  qed
qed simp

section \<open>The depth of the recursion\<close>

lemma unsol_depth2: "RIL_UNSOL_RESPONSE E H = RIL_onUnsolicitedResponse E H (Suc (Suc 0))"
  by (simp add: RIL_UNSOL_RESPONSE_def UNSOL_DEPTH_def numeral_2_eq_2)

lemma processRadioState_cong:
  assumes "\<And>k d n s. k \<in> radio_notifications \<Longrightarrow> u (hword H k) d n s = u' (hword H k) d n s"
  shows "processRadioState u H st s = processRadioState u' H st s"
proof -
  have u: "u (hword H k) = u' (hword H k)" if "k \<in> radio_notifications" for k
    using assms[OF that] by blast
  have "u (hword H ''RIL_UNSOL_VOICE_RADIO_TECH_CHANGED'') = u' (hword H ''RIL_UNSOL_VOICE_RADIO_TECH_CHANGED'')"
    "u (hword H ''RIL_UNSOL_CDMA_SUBSCRIPTION_SOURCE_CHANGED'') = u' (hword H ''RIL_UNSOL_CDMA_SUBSCRIPTION_SOURCE_CHANGED'')"
    "u (hword H ''RIL_UNSOL_RESPONSE_SIM_STATUS_CHANGED'') = u' (hword H ''RIL_UNSOL_RESPONSE_SIM_STATUS_CHANGED'')"
    by (rule u, simp add: radio_notifications_def)+
  then show ?thesis by (simp only: processRadioState_def)
qed

text \<open>A message other than the radio state does not recurse.\<close>

lemma unsol_flat:
  assumes "unsol_conv H code \<noteq> Some (hword H ''RIL_UNSOL_RESPONSE_RADIO_STATE_CHANGED'')"
  shows "RIL_onUnsolicitedResponse E H (Suc d) code dat n s = RIL_onUnsolicitedResponse E H (Suc d') code dat n s"
proof (cases "\<exists>c. unsol_conv H code = Some c \<and> s_registerCalled s \<and> unsol_known H c")
  case False
  then have "RIL_onUnsolicitedResponse E H (Suc k) code dat n s = Inr s" for k
    by (intro unsol_ignored[where c = "the (unsol_conv H code)"]) auto
  then show ?thesis by metis
next
  case True
  then obtain c where c: "unsol_conv H code = Some c" "s_registerCalled s" "unsol_known H c" by blast
  obtain r p where run: "run_state (unsol_payload E H (cb_version (locked H c s)) c dat n) (p_new E) = (r, p)"
    by fastforce
  note body = unsol_body[OF c locked_def run]
  show ?thesis unfolding body using assms c(1) by (simp split: sum.splits)
qed

section \<open>A new connection\<close>

context ril_env
begin

lemma radio_delivered:
  assumes "unsol_conv H code = Some c" "s_registerCalled s" "unsol_known H c"
    and c: "c = hword H ''RIL_UNSOL_RESPONSE_RADIO_STATE_CHANGED''"
    and w: "writes (call_response E H (cb_version s) (unsolFunction (unsol_info H c)) dat n) (Inr 0) its"
    and new: "processRadioState (RIL_onUnsolicitedResponse E H depth) H (radioState s) (locked H c s) = Inr (new, s2)"
  shows "RIL_onUnsolicitedResponse E H (Suc depth) code dat n s
    = deliver H c (enc ([I32 RESPONSE_UNSOLICITED, I32 c] @ its @ [I32 new])) s2"
proof -
  obtain p where p: "run_state (unsol_payload E H (cb_version s) c dat n) (p_new E) = (Inr 0, p)"
    "R p ([I32 RESPONSE_UNSOLICITED, I32 c] @ its) []" by (rule payload_bytes[OF w])
  obtain p2 where p2: "run_state (p_writeInt32 E new) p = ((), p2)"
    "R p2 (([I32 RESPONSE_UNSOLICITED, I32 c] @ its) @ [I32 new]) []" using writeInt32_R[OF p(2)] by blast
  have "cb_version (locked H c s) = cb_version s" by simp
  note body = unsol_body[OF assms(1-3) locked_def, unfolded this, OF p(1)]
  show ?thesis unfolding body using c p2(1) data_enc[OF p2(2)] new
    by (simp add: send_unsol_deliver)
qed

end

text \<open>The kernel takes whatever it is given, for the next \<open>m\<close> calls of \<open>write\<close>.\<close>

definition writes_all :: "nat \<Rightarrow> write_result list \<Rightarrow> bool" where
  "writes_all m ws \<longleftrightarrow> (\<exists>ks ws'. ws = map Wrote ks @ ws' \<and> length ks = m \<and> (\<forall>k \<in> set ks. MAX_COMMAND_BYTES \<le> k))"

lemma send_all:
  assumes "0 \<le> fdCommand s" "length dat \<le> MAX_COMMAND_BYTES" "dat \<noteq> []" "writes_all (Suc (Suc m)) (wr_script s)"
  obtains ws where "sendResponseRaw dat s = Inr (0, s\<lparr>sock_out := sock_out s @ frame dat, wr_script := ws\<rparr>)"
    "writes_all m ws"
proof -
  obtain ks ws' where k: "wr_script s = map Wrote ks @ ws'" "length ks = Suc (Suc m)" "\<forall>k \<in> set ks. MAX_COMMAND_BYTES \<le> k"
    using assms(4) by (auto simp: writes_all_def)
  obtain a b ks' where ks: "ks = a # b # ks'" "length ks' = m" using k(2) by (auto simp: length_Suc_conv)
  have "wr_script s = Wrote a # Wrote b # map Wrote ks' @ ws'" "4 \<le> a" "length dat \<le> b"
    using k ks assms(2) by (auto simp: MAX_COMMAND_BYTES_def)
  from sendResponseRaw_complete[OF assms(1,2) this assms(3)]
  have "sendResponseRaw dat s = Inr (0, s\<lparr>sock_out := sock_out s @ frame dat, wr_script := map Wrote ks' @ ws'\<rparr>)" .
  moreover have "\<forall>k \<in> set ks'. MAX_COMMAND_BYTES \<le> k" using k(3) ks(1) by simp
  then have "writes_all m (map Wrote ks' @ ws')" unfolding writes_all_def using ks(2) by blast
  ultimately show ?thesis by (rule that)
qed

text \<open>Delivery over an open connection: one frame, and the timer when the message wants it.\<close>

lemma deliver_all:
  assumes "ril_inv fds False s ts ps" "0 \<le> fdCommand s" "length dat \<le> MAX_COMMAND_BYTES" "dat \<noteq> []"
    "writes_all (Suc (Suc m)) (wr_script s)"
  obtains s' ts' where "deliver H c dat s = Inr s'" "sock_out s' = sock_out s @ frame dat" "writes_all m (wr_script s')"
    "conn_same s s'" "ril_inv fds False s' ts' ps"
proof -
  obtain ws where w: "sendResponseRaw dat s = Inr (0, s\<lparr>sock_out := sock_out s @ frame dat, wr_script := ws\<rparr>)"
    "writes_all m ws" by (rule send_all[OF assms(2-5)])
  let ?s = "s\<lparr>sock_out := sock_out s @ frame dat, wr_script := ws\<rparr>"
  have i: "ril_inv fds False ?s ts ps" using assms(1) by simp
  have same: "conn_same s ?s" by (simp add: conn_same_def)
  show ?thesis
  proof (cases "unsol_wake H c")
    case True
    obtain s' ts' where s': "schedule_release ?s = Inr s'" "ril_inv fds True s' ts' ps"
      using schedule_release_inv[OF i] by blast
    have "deliver H c dat s = Inr s'" using w(1) s'(1) True by (simp add: deliver_def)
    then show ?thesis using that schedule_same[OF s'(1)] w(2) ril_inv_weaken[OF s'(2), of False] conn_same_trans[OF same]
      by (simp add: core_same_def)
  next
    case False
    then have "deliver H c dat s = Inr ?s" using w(1) by (simp add: deliver_def)
    then show ?thesis using that[of ?s ts] w(2) i same by simp
  qed
qed

lemma locked_inv: "ril_inv fds L s ts ps \<Longrightarrow> ril_inv fds False (locked H c s) ts ps"
  using ril_inv_lock(1)[of fds L s ts ps] ril_inv_weaken[of fds L s ts ps False]
  by (simp add: locked_def grabPartialWakeLock_def)

lemma locked_registered [simp]: "s_registerCalled (locked H c s) = s_registerCalled s"
  by (simp add: locked_def grabPartialWakeLock_def)

lemma locked_same: "conn_same s (locked H c s)"
  by (simp add: conn_same_def locked_def grabPartialWakeLock_def)

lemma writes_all_less: "writes_all (Suc (Suc m)) ws \<Longrightarrow> writes_all m ws"
proof -
  assume "writes_all (Suc (Suc m)) ws"
  then obtain ks ws' where k: "ws = map Wrote ks @ ws'" "length ks = Suc (Suc m)" "\<forall>k \<in> set ks. MAX_COMMAND_BYTES \<le> k"
    by (auto simp: writes_all_def)
  then have "ws = map Wrote (take m ks) @ (map Wrote (drop m ks) @ ws')" by (simp flip: map_append)
  moreover have "length (take m ks) = m" "\<forall>k \<in> set (take m ks). MAX_COMMAND_BYTES \<le> k" using k by (auto dest: in_set_takeD)
  ultimately show "writes_all m ws" unfolding writes_all_def by blast
qed

text \<open>A connection over which messages go out: registered, open, with \<open>m\<close> calls of \<open>write\<close> that take everything.\<close>

definition connected :: "(addr \<Rightarrow> int) \<Rightarrow> nat \<Rightarrow> ril_state \<Rightarrow> addr list \<Rightarrow> bool" where
  "connected fds m s ps \<longleftrightarrow> (\<exists>ts. ril_inv fds False s ts ps) \<and> s_registerCalled s \<and> 0 \<le> fdCommand s \<and> writes_all m (wr_script s)"

lemma connected_less: "connected fds (Suc (Suc m)) s ps \<Longrightarrow> connected fds m s ps"
  by (auto simp: connected_def intro: writes_all_less)

lemma connected_locked: "connected fds m s ps \<Longrightarrow> connected fds m (locked H c s) ps"
  using locked_inv[of fds False s _ ps H c] locked_same[of s H c] by (auto simp: connected_def conn_same_def)

lemma connected_deliver:
  assumes "connected fds (Suc (Suc m)) s ps" "length dat \<le> MAX_COMMAND_BYTES" "dat \<noteq> []"
  obtains s' where "deliver H c dat s = Inr s'" "sock_out s' = sock_out s @ frame dat" "conn_same s s'" "connected fds m s' ps"
proof -
  obtain ts where i: "ril_inv fds False s ts ps" "0 \<le> fdCommand s" "writes_all (Suc (Suc m)) (wr_script s)" "s_registerCalled s"
    using assms(1) by (auto simp: connected_def)
  obtain s' ts' where s': "deliver H c dat s = Inr s'" "sock_out s' = sock_out s @ frame dat" "writes_all m (wr_script s')"
    "conn_same s s'" "ril_inv fds False s' ts' ps" by (rule deliver_all[OF i(1,2) assms(2,3) i(3), where H = H and c = c])
  have "connected fds m s' ps" using s'(3-5) i(2,4) by (auto simp: connected_def conn_same_def)
  then show ?thesis using that s' by blast
qed

text \<open>The frames that numbers fill fit into a message.\<close>

definition frames_fit :: "(item list \<Rightarrow> u8 list) \<Rightarrow> bool" where
  "frames_fit enc \<longleftrightarrow> (\<forall>ns. ns \<noteq> [] \<longrightarrow> length ns \<le> 4 \<longrightarrow>
     enc (map I32 ns) \<noteq> [] \<and> length (enc (map I32 ns)) \<le> MAX_COMMAND_BYTES)"

lemma frames_fitD:
  assumes "frames_fit enc"
  shows "enc [I32 a, I32 b] \<noteq> []" "length (enc [I32 a, I32 b]) \<le> MAX_COMMAND_BYTES"
    "enc [I32 a, I32 b, I32 c] \<noteq> []" "length (enc [I32 a, I32 b, I32 c]) \<le> MAX_COMMAND_BYTES"
    "enc [I32 a, I32 b, I32 c, I32 d] \<noteq> []" "length (enc [I32 a, I32 b, I32 c, I32 d]) \<le> MAX_COMMAND_BYTES"
  using assms[unfolded frames_fit_def, rule_format, of "[a, b]"] assms[unfolded frames_fit_def, rule_format, of "[a, b, c]"]
    assms[unfolded frames_fit_def, rule_format, of "[a, b, c, d]"] by simp_all

text \<open>
  The numbers of telephony/ril.h for the messages of a new connection. The translation of old codes maps three of them
  to others (\<open>notifications_renumbered\<close>).
\<close>

definition unsol_codes :: "ril_h \<Rightarrow> bool" where
  "unsol_codes H \<longleftrightarrow> hval H ''RIL_UNSOL_RESPONSE_BASE'' = 1000 \<and> hval H ''RIL_UNSOL_RESPONSE_RADIO_STATE_CHANGED'' = 1000 \<and>
     hval H ''RIL_UNSOL_NITZ_TIME_RECEIVED'' = 1008 \<and> hval H ''RIL_UNSOL_RESPONSE_SIM_STATUS_CHANGED'' = 1019 \<and>
     hval H ''RIL_UNSOL_CDMA_SUBSCRIPTION_SOURCE_CHANGED'' = 1031 \<and> hval H ''RIL_UNSOL_CDMA_PRL_CHANGED'' = 1032 \<and>
     hval H ''RIL_UNSOL_RIL_CONNECTED'' = 1034 \<and> hval H ''RIL_UNSOL_VOICE_RADIO_TECH_CHANGED'' = 1035"

lemma unsol_codesD:
  assumes "unsol_codes H"
  shows "unsol_conv H 1035 = Some 1032" "unsol_conv H 1031 = Some 1035" "unsol_conv H 1019 = Some 1019"
    "unsol_conv H 1000 = Some 1000" "unsol_conv H RIL_UNSOL_RIL_CONNECTED_V3 = Some 1034"
    "unsol_known H 1032" "unsol_known H 1035" "unsol_known H 1019" "unsol_known H 1000" "unsol_known H 1034"
    "unsolFunction (unsol_info H 1032) = R_Ints" "unsolFunction (unsol_info H 1035) = R_Ints"
    "unsolFunction (unsol_info H 1019) = R_Void" "unsolFunction (unsol_info H 1000) = R_Void"
    "unsolFunction (unsol_info H 1034) = R_Ints"
    "hword H ''RIL_UNSOL_RESPONSE_RADIO_STATE_CHANGED'' = 1000" "hword H ''RIL_UNSOL_NITZ_TIME_RECEIVED'' = 1008"
    "hword H ''RIL_UNSOL_RESPONSE_SIM_STATUS_CHANGED'' = 1019" "hword H ''RIL_UNSOL_CDMA_SUBSCRIPTION_SOURCE_CHANGED'' = 1031"
    "hword H ''RIL_UNSOL_VOICE_RADIO_TECH_CHANGED'' = 1035"
  using assms by (simp_all add: unsol_codes_def unsol_conv_def unsolResponse_conv_def v3_codes unsol_known_def unsol_info_def
    s_unsolResponses_def)

section \<open>What a framework that connects is told\<close>

context ril_env
begin

lemma writes_one_int:
  "unsolFunction (unsol_info H c) = R_Ints \<Longrightarrow>
    writes (call_response E H v (unsolFunction (unsol_info H c)) (Some (Ints [x])) sizeof_int) (Inr 0) [I32 1, I32 x]"
  using writes_responseInts[of "[x]"] by (simp add: call_response_def with_cast_def cast_def)

lemma writes_void:
  "unsolFunction (unsol_info H c) = R_Void \<Longrightarrow> writes (call_response E H v (unsolFunction (unsol_info H c)) None n) (Inr 0) []"
  by (simp add: call_response_def responseVoid_def writes_ret)

text \<open>One message over a connection.\<close>

lemma message_sent:
  assumes "connected fds (Suc (Suc m)) s ps" "unsol_conv H code = Some c" "unsol_known H c"
    "c \<noteq> hword H ''RIL_UNSOL_RESPONSE_RADIO_STATE_CHANGED''" "c \<noteq> hword H ''RIL_UNSOL_NITZ_TIME_RECEIVED''"
    "writes (call_response E H (cb_version s) (unsolFunction (unsol_info H c)) dat n) (Inr 0) its"
    "enc ([I32 RESPONSE_UNSOLICITED, I32 c] @ its) \<noteq> []"
    "length (enc ([I32 RESPONSE_UNSOLICITED, I32 c] @ its)) \<le> MAX_COMMAND_BYTES"
  obtains s' where "RIL_onUnsolicitedResponse E H (Suc d) code dat n s = Inr s'"
    "sock_out s' = sock_out s @ frame (enc ([I32 RESPONSE_UNSOLICITED, I32 c] @ its))" "conn_same s s'" "connected fds m s' ps"
proof -
  have reg: "s_registerCalled s" using assms(1) by (simp add: connected_def)
  obtain s' where s': "deliver H c (enc ([I32 RESPONSE_UNSOLICITED, I32 c] @ its)) (locked H c s) = Inr s'"
    "sock_out s' = sock_out s @ frame (enc ([I32 RESPONSE_UNSOLICITED, I32 c] @ its))"
    "conn_same (locked H c s) s'" "connected fds m s' ps"
    using connected_deliver[OF connected_locked[OF assms(1)] assms(8,7), where H1 = H and c1 = c and H = H and c = c] by auto
  have "RIL_onUnsolicitedResponse E H (Suc d) code dat n s = Inr s'"
    using unsol_delivered[OF assms(2) reg assms(3,4,6), of d] assms(5) s'(1) by simp
  then show ?thesis using that s'(2,4) conn_same_trans[OF locked_same s'(3)] by blast
qed

text \<open>A notification that is sent only when something has changed.\<close>

lemma notify_sent:
  assumes "connected fds (Suc (Suc m)) s ps" "connected fds (Suc (Suc m)) (upd s) ps" "sock_out (upd s) = sock_out s"
    "unsol_conv H code = Some c" "unsol_known H c"
    "c \<noteq> hword H ''RIL_UNSOL_RESPONSE_RADIO_STATE_CHANGED''" "c \<noteq> hword H ''RIL_UNSOL_NITZ_TIME_RECEIVED''"
    "writes (call_response E H (cb_version (upd s)) (unsolFunction (unsol_info H c)) dat n) (Inr 0) its"
    "enc ([I32 RESPONSE_UNSOLICITED, I32 c] @ its) \<noteq> []"
    "length (enc ([I32 RESPONSE_UNSOLICITED, I32 c] @ its)) \<le> MAX_COMMAND_BYTES"
  obtains s' where "notify_if b upd (RIL_onUnsolicitedResponse E H (Suc d) code dat n) s = Inr s'"
    "sock_out s' = sock_out s @ (if b then frame (enc ([I32 RESPONSE_UNSOLICITED, I32 c] @ its)) else [])"
    "conn_same (if b then upd s else s) s'" "connected fds m s' ps"
proof (cases b)
  case True
  show ?thesis
    using message_sent[OF assms(2,4-10), where d = d] that True assms(3) unfolding notify_if_def by simp blast
next
  case False
  have "conn_same s s" by (simp add: conn_same_def)
  then show ?thesis using that[of s] False connected_less[OF assms(1)] by (simp add: notify_if_def)
qed

end

text \<open>
  The messages about the radio: for a state of the old interface, one for each of the three things that are read from it and
  have changed, and then the state itself, which is \<open>RADIO_STATE_ON\<close> for those states.
\<close>

definition old_radio :: "ril_h \<Rightarrow> i32 \<Rightarrow> bool" where
  "old_radio H st \<longleftrightarrow> hval H ''RADIO_STATE_UNAVAILABLE'' < sint st \<and> sint st < hval H ''RADIO_STATE_ON''"

definition radio_notes :: "ril_h \<Rightarrow> i32 \<Rightarrow> ril_state \<Rightarrow> item list list" where
  "radio_notes H st s =
     (let tech = decodeVoiceRadioTechnology H st; src = decodeCdmaSubscriptionSource H st; sim = decodeSimStatus H st in
      if old_radio H st then
        (if tech \<noteq> voiceRadioTech s then [[I32 RESPONSE_UNSOLICITED, I32 1032, I32 1, I32 tech]] else []) @
        (if is3gpp2 H tech \<and> src \<noteq> cdmaSubscriptionSource s then [[I32 RESPONSE_UNSOLICITED, I32 1035, I32 1, I32 src]] else []) @
        (if sim \<noteq> simRuimStatus s then [[I32 RESPONSE_UNSOLICITED, I32 1019]] else [])
      else [])"

lemma notes_cong:
  assumes "voiceRadioTech s' = voiceRadioTech s" "cdmaSubscriptionSource s' = cdmaSubscriptionSource s" "simRuimStatus s' = simRuimStatus s"
  shows "radio_notes H st s' = radio_notes H st s"
  unfolding radio_notes_def Let_def using assms by simp

lemma notes_same: "conn_same s s' \<Longrightarrow> radio_notes H st s' = radio_notes H st s"
  by (rule notes_cong) (simp_all add: conn_same_def)

definition radio_told :: "ril_h \<Rightarrow> i32 \<Rightarrow> i32" where
  "radio_told H st = (if old_radio H st then hword H ''RADIO_STATE_ON'' else st)"

definition frames_of :: "(item list \<Rightarrow> u8 list) \<Rightarrow> item list list \<Rightarrow> u8 list" where
  "frames_of enc ms = concat (map (\<lambda>m. frame (enc m)) ms)"

lemma frames_of_simps [simp]:
  "frames_of enc [] = []" "frames_of enc (m # ms) = frame (enc m) @ frames_of enc ms"
  "frames_of enc (ms @ ms') = frames_of enc ms @ frames_of enc ms'"
  by (simp_all add: frames_of_def)

lemma connected_upd [simp]:
  "connected fds m (s\<lparr>voiceRadioTech := x\<rparr>) ps = connected fds m s ps"
  "connected fds m (s\<lparr>cdmaSubscriptionSource := x\<rparr>) ps = connected fds m s ps"
  "connected fds m (s\<lparr>simRuimStatus := x\<rparr>) ps = connected fds m s ps"
  by (simp_all add: connected_def)

context ril_env
begin

lemma radio_sent:
  assumes "connected fds (m + 6) s ps" "unsol_codes H" "frames_fit enc"
  obtains s' where "processRadioState (RIL_onUnsolicitedResponse E H (Suc 0)) H st s = Inr (radio_told H st, s')"
    "sock_out s' = sock_out s @ frames_of enc (radio_notes H st s)" "s_lastNITZTimeData s' = s_lastNITZTimeData s"
    "connected fds m s' ps"
proof (cases "old_radio H st")
  case False
  then have "processRadioState (RIL_onUnsolicitedResponse E H (Suc 0)) H st s = Inr (radio_told H st, s)"
    by (auto simp: processRadioState_def radio_told_def old_radio_def)
  moreover have "connected fds m s ps" using assms(1) by (simp add: eval_nat_numeral connected_less)
  ultimately show ?thesis using that[of s] False by (simp add: radio_notes_def)
next
  case True
  note codes = unsol_codesD[OF assms(2)] and fit = frames_fitD[OF assms(3)]
  define tech src sim where v: "tech = decodeVoiceRadioTechnology H st" "src = decodeCdmaSubscriptionSource H st" "sim = decodeSimStatus H st"
  let ?u1 = "\<lambda>s. s\<lparr>voiceRadioTech := tech\<rparr>" and ?u2 = "\<lambda>s. s\<lparr>cdmaSubscriptionSource := src\<rparr>" and ?u3 = "\<lambda>s. s\<lparr>simRuimStatus := sim\<rparr>"
  let ?b1 = "tech \<noteq> voiceRadioTech s" and ?send = "RIL_onUnsolicitedResponse E H (Suc 0)"
  have c1: "connected fds (Suc (Suc (m + 4))) s ps" using assms(1) by (simp add: eval_nat_numeral)
  obtain s1 where s1: "notify_if ?b1 ?u1 (?send 1035 (Some (Ints [tech])) sizeof_int) s = Inr s1"
    "sock_out s1 = sock_out s @ (if ?b1 then frame (enc [I32 RESPONSE_UNSOLICITED, I32 1032, I32 1, I32 tech]) else [])"
    "conn_same (if ?b1 then ?u1 s else s) s1" "connected fds (m + 4) s1 ps"
    by (rule notify_sent[where upd = ?u1 and b = ?b1 and d = 0 and H = H, OF c1 iffD2[OF connected_upd(1) c1] _ codes(1,6) _ _ writes_one_int[OF codes(11)], unfolded append.simps])
      (simp_all add: codes fit)
  let ?b2 = "is3gpp2 H tech \<and> src \<noteq> cdmaSubscriptionSource s1"
  have c2: "connected fds (Suc (Suc (m + 2))) s1 ps" using s1(4) by (simp add: eval_nat_numeral)
  obtain s2 where s2: "notify_if ?b2 ?u2 (?send 1031 (Some (Ints [src])) sizeof_int) s1 = Inr s2"
    "sock_out s2 = sock_out s1 @ (if ?b2 then frame (enc [I32 RESPONSE_UNSOLICITED, I32 1035, I32 1, I32 src]) else [])"
    "conn_same (if ?b2 then ?u2 s1 else s1) s2" "connected fds (m + 2) s2 ps"
    by (rule notify_sent[where upd = ?u2 and b = ?b2 and d = 0 and H = H, OF c2 iffD2[OF connected_upd(2) c2] _ codes(2,7) _ _ writes_one_int[OF codes(12)], unfolded append.simps])
      (simp_all add: codes fit)
  let ?b3 = "sim \<noteq> simRuimStatus s2"
  have c3: "connected fds (Suc (Suc m)) s2 ps" using s2(4) by (simp add: eval_nat_numeral)
  obtain s3 where s3: "notify_if ?b3 ?u3 (?send 1019 None 0) s2 = Inr s3"
    "sock_out s3 = sock_out s2 @ (if ?b3 then frame (enc [I32 RESPONSE_UNSOLICITED, I32 1019]) else [])"
    "conn_same (if ?b3 then ?u3 s2 else s2) s3" "connected fds m s3 ps"
    by (rule notify_sent[where upd = ?u3 and b = ?b3 and d = 0 and H = H, OF c3 iffD2[OF connected_upd(3) c3] _ codes(3,8) _ _ writes_void[OF codes(13)], unfolded append.simps])
      (simp_all add: codes fit)
  have run: "processRadioState ?send H st s = Inr (radio_told H st, s3)"
    using True s1(1) s2(1) s3(1) unfolding processRadioState_def old_radio_def radio_told_def v[symmetric] Let_def codes(18-20)
    by simp
  have f1: "cdmaSubscriptionSource s1 = cdmaSubscriptionSource s" "simRuimStatus s1 = simRuimStatus s"
    "s_lastNITZTimeData s1 = s_lastNITZTimeData s" using s1(3) by (simp_all add: conn_same_def split: if_splits)
  have f2: "simRuimStatus s2 = simRuimStatus s" "s_lastNITZTimeData s2 = s_lastNITZTimeData s"
    using s2(3) f1 by (simp_all add: conn_same_def split: if_splits)
  have f3: "s_lastNITZTimeData s3 = s_lastNITZTimeData s" using s3(3) f2 by (simp add: conn_same_def split: if_splits)
  have "sock_out s3 = sock_out s @ frames_of enc (radio_notes H st s)"
    using s1(2) s2(2) s3(2) f1(1) f2(1) True by (simp add: radio_notes_def v[symmetric])
  then show ?thesis using that run f3 s3(4) by blast
qed

lemma connect_effect:
  assumes "connected fds 12 s ps" "unsol_codes H" "frames_fit enc"
    "\<forall>d. s_lastNITZTimeData s = Some d \<longrightarrow> length d \<le> MAX_COMMAND_BYTES \<and> d \<noteq> []"
  shows "\<exists>s'. onNewCommandConnect E H s = Inr s' \<and> s_lastNITZTimeData s' = None \<and>
    sock_out s' = sock_out s @ frames_of enc ([[I32 RESPONSE_UNSOLICITED, I32 1034, I32 1, I32 (cb_version s)]] @
      radio_notes H (radioState s) s @ [[I32 RESPONSE_UNSOLICITED, I32 1000, I32 (radio_told H (radioState s))]]) @
      (case s_lastNITZTimeData s of None \<Rightarrow> [] | Some d \<Rightarrow> frame d)"
proof -
  note codes = unsol_codesD[OF assms(2)] and fit = frames_fitD[OF assms(3)]
  have c: "connected fds (Suc (Suc 10)) s ps" using assms(1) by (simp add: eval_nat_numeral)
  obtain s1 where s1: "RIL_onUnsolicitedResponse E H (Suc (Suc 0)) RIL_UNSOL_RIL_CONNECTED_V3 (Some (Ints [cb_version s])) sizeof_int s = Inr s1"
    "sock_out s1 = sock_out s @ frame (enc [I32 RESPONSE_UNSOLICITED, I32 1034, I32 1, I32 (cb_version s)])"
    "conn_same s s1" "connected fds 10 s1 ps"
    by (rule message_sent[where d = "Suc 0" and H = H, OF c codes(5,10) _ _ writes_one_int[OF codes(15)], unfolded append.simps])
      (simp_all add: codes fit)
  let ?s = "locked H 1000 s1"
  have c1: "connected fds (4 + 6) ?s ps" using connected_locked[OF s1(4)] by simp
  obtain s2 where s2: "processRadioState (RIL_onUnsolicitedResponse E H (Suc 0)) H (radioState s1) ?s = Inr (radio_told H (radioState s1), s2)"
    "sock_out s2 = sock_out ?s @ frames_of enc (radio_notes H (radioState s1) ?s)" "s_lastNITZTimeData s2 = s_lastNITZTimeData ?s"
    "connected fds 4 s2 ps" by (rule radio_sent[OF c1 assms(2,3)])
  have c2: "connected fds (Suc (Suc 2)) s2 ps" using s2(4) by (simp add: eval_nat_numeral)
  obtain s3 where s3: "deliver H 1000 (enc [I32 RESPONSE_UNSOLICITED, I32 1000, I32 (radio_told H (radioState s1))]) s2 = Inr s3"
    "sock_out s3 = sock_out s2 @ frame (enc [I32 RESPONSE_UNSOLICITED, I32 1000, I32 (radio_told H (radioState s1))])"
    "conn_same s2 s3" "connected fds 2 s3 ps" by (rule connected_deliver[OF c2 fit(4,3)])
  have reg: "s_registerCalled s1" using s1(4) by (simp add: connected_def)
  have r2: "RIL_onUnsolicitedResponse E H (Suc (Suc 0)) 1000 None 0 s1 = Inr s3"
    using radio_delivered[OF codes(4) reg codes(9) codes(16)[symmetric] writes_void[OF codes(14)] s2(1)] s3(1) by simp
  have same: "s_lastNITZTimeData s3 = s_lastNITZTimeData s" "radioState s1 = radioState s"
    using s1(3) s2(3) s3(3) by (simp_all add: conn_same_def)
  have out: "sock_out s3 = sock_out s @ frames_of enc ([[I32 RESPONSE_UNSOLICITED, I32 1034, I32 1, I32 (cb_version s)]] @
      radio_notes H (radioState s) s @ [[I32 RESPONSE_UNSOLICITED, I32 1000, I32 (radio_told H (radioState s))]])"
    using s1(2) s2(2) s3(2) same(2) notes_same[OF conn_same_trans[OF s1(3) locked_same]] by simp
  have conn: "onNewCommandConnect E H s = (case (case s_lastNITZTimeData s3 of None \<Rightarrow> Inr s3
      | Some dat \<Rightarrow> map_sum id (\<lambda>(r, s'). s'\<lparr>s_lastNITZTimeData := None\<rparr>) (sendResponseRaw dat s3)) of
        Inl f \<Rightarrow> Inl f | Inr s4 \<Rightarrow> Inr (s4\<lparr>ril_impl := (case cb_getVersion s4 of Some v \<Rightarrow> v | None \<Rightarrow> Some ''unavailable'')\<rparr>))"
    using s1(1) r2 unfolding onNewCommandConnect_def unsol_depth2 codes(16) by simp
  show ?thesis
  proof (cases "s_lastNITZTimeData s")
    case None
    then show ?thesis using conn out same by (auto simp: None)
  next
    case (Some d)
    have "writes_all (Suc (Suc 0)) (wr_script s3)" "0 \<le> fdCommand s3" using s3(4) by (simp_all add: connected_def numeral_2_eq_2)
    then obtain ws where "sendResponseRaw d s3 = Inr (0, s3\<lparr>sock_out := sock_out s3 @ frame d, wr_script := ws\<rparr>)"
      using send_all[of s3 d 0] assms(4) Some by auto
    then show ?thesis using conn out same Some by auto
  qed
qed

end

text \<open>The moment the loop fires the listening socket.\<close>

lemma listen_fires:
  assumes "ril_inv fds True s ts (s_listen_event # ps)" "0 \<le> fd" "accept_ok fds fd"
  defines "s1 \<equiv> (removeFromList s_listen_event s)\<lparr>fdCommand := fd, sock_out := []\<rparr>"
  shows "ril_inv fds True (rilEventAddWakeup s_commands_event
    (ril_event_set s_commands_event fd True F_processCommands 0 s1)) ts ps"
proof -
  note i = ril_invD[OF assms(1)]
  have st: "s_listen_event \<in> statics" by (simp add: statics_def)
  have x: "s_listen_event \<notin> set ps" using i(1) by (auto simp: ev_inv_def)
  note ok = i(5)[unfolded statics_ok_def active_def]
  have "ril_inv fds True s1 ts ps" using fired_static_inv[OF assms(1) st] by (simp add: s1_def)
  moreover have "\<not> active s1 ps s_listen_event" "\<not> active s1 ps s_commands_event"
    using ok x by (auto simp: s1_def active_def removeFromList_fields)
  ultimately show ?thesis using connect_inv assms(2,3) by blast
qed

lemma connected_sel: "core_same s (rilEventAddWakeup a (ril_event_set a fd p f q s))"
  by (simp add: core_same_defs rilEventAddWakeup_def triggerEvLoop_def ril_event_add_def ril_event_set_def Let_def
    split: option.splits)

lemma fired_same: "core_same s (removeFromList x s)"
  by (rule more_same[OF removeFromList_fields(4)])

section \<open>Properties\<close>

text \<open>
  The recursion of unsolicited messages ends after one level: the message with the radio state
  sends at most the three notifications, and these do not recurse, so that a greater depth than the
  one used gives the same result.
\<close>

theorem unsol_recursion_ends:
  assumes "\<forall>k \<in> radio_notifications.
    unsol_conv H (hword H k) \<noteq> Some (hword H ''RIL_UNSOL_RESPONSE_RADIO_STATE_CHANGED'')"
  shows "RIL_onUnsolicitedResponse E H (Suc (Suc d)) code dat n s = RIL_UNSOL_RESPONSE E H code dat n s"
proof -
  have flat: "RIL_onUnsolicitedResponse E H (Suc d) (hword H k) d' n' s'
      = RIL_onUnsolicitedResponse E H (Suc 0) (hword H k) d' n' s'" if "k \<in> radio_notifications" for k d' n' s'
    using unsol_flat assms that by blast
  have pr: "processRadioState (RIL_onUnsolicitedResponse E H (Suc d)) H st t
      = processRadioState (RIL_onUnsolicitedResponse E H (Suc 0)) H st t" for st t
    by (rule processRadioState_cong) (rule flat)
  show ?thesis
  proof (cases "\<exists>c. unsol_conv H code = Some c \<and> s_registerCalled s \<and> unsol_known H c")
    case False
    then have "RIL_onUnsolicitedResponse E H (Suc k) code dat n s = Inr s" for k
      by (intro unsol_ignored[where c = "the (unsol_conv H code)"]) auto
    then show ?thesis by (simp only: unsol_depth2)
  next
    case True
    then obtain c where c: "unsol_conv H code = Some c" "s_registerCalled s" "unsol_known H c" by blast
    obtain r p where run: "run_state (unsol_payload E H (cb_version (locked H c s)) c dat n) (p_new E) = (r, p)"
      by fastforce
    note body = unsol_body[OF c locked_def run]
    show ?thesis unfolding unsol_depth2 body pr ..
  qed
qed

lemma ref_notifications:
  "unsol_conv ref_h 1035 = Some 1032" "unsol_conv ref_h 1031 = Some 1035" "unsol_conv ref_h 1019 = Some 1019"
  "unsol_conv ref_h 1008 = Some 1008"
  by (simp_all add: unsol_conv_def unsolResponse_conv_def v3_codes)

theorem unsol_recursion_ends_witness:
  "RIL_onUnsolicitedResponse flat_parcel ref_h 7 1000 None 0 ril0 = RIL_UNSOL_RESPONSE flat_parcel ref_h 1000 None 0 ril0"
proof -
  have "\<forall>k \<in> radio_notifications.
      unsol_conv ref_h (hword ref_h k) \<noteq> Some (hword ref_h ''RIL_UNSOL_RESPONSE_RADIO_STATE_CHANGED'')"
    by (simp add: radio_notifications_def ref_notifications)
  from unsol_recursion_ends[OF this, of flat_parcel 5 1000 None 0 ril0] show ?thesis
    by (simp only: add_2_eq_Suc[symmetric] numeral_plus_numeral semiring_norm)
qed

text \<open>The wake timer as it is started: a new block, in the timer list, to expire after \<open>TIMEVAL_WAKE_TIMEOUT\<close>.\<close>

lemma timed_timeout:
  assumes "internalRequestTimedCallback cb param (Some d) s = Inr (a, s')"
  shows "a = malloc s" "timeout_of s' a = timeradd (now s) d" "wake_lock s' = wake_lock s"
    "user_cbs s' = (a, \<lparr>uc_callback = cb, uc_userParam = param\<rparr>) # user_cbs s"
proof -
  obtain s2 s3 where s3: "a = malloc s" "ril_timer_add a (Some d) s2 = Some s3" "s' = triggerEvLoop s3"
    "s2 = ril_event_set a (- 1) False F_userTimer a (s\<lparr>user_cbs := (a, \<lparr>uc_callback = cb, uc_userParam = param\<rparr>) # user_cbs s\<rparr>)"
    using assms by (auto simp: internalRequestTimedCallback_def Let_def split: option.splits)
  show "a = malloc s" by (rule s3(1))
  have "timeout_of s3 a = timeradd (now s2) d" using s3(2) by (auto simp: ril_timer_add_def Let_def addToList_def)
  then show "timeout_of s' a = timeradd (now s) d" using s3(3,4) by (simp add: triggerEvLoop_def ril_event_set_def)
  show "wake_lock s' = wake_lock s" by (rule timed_lock[OF assms])
  show "user_cbs s' = (a, \<lparr>uc_callback = cb, uc_userParam = param\<rparr>) # user_cbs s"
    using core_cong(1)[OF timer_add_fields(1)[OF s3(2)]] s3(3,4) by (simp add: triggerEvLoop_def ril_event_set_def)
qed

definition wake_timer_started :: "ril_state \<Rightarrow> ril_state \<Rightarrow> bool" where
  "wake_timer_started s s' \<longleftrightarrow> (let a = s_last_wake_timeout_info s' in
     a \<notin> fst ` set (user_cbs s) \<and> map_of (user_cbs s') a = Some \<lparr>uc_callback = WakeTimeoutCb, uc_userParam = 0\<rparr> \<and>
     timeout_of s' a = timeradd (now s) TIMEVAL_WAKE_TIMEOUT \<and> (\<exists>ts. dll (ev_heap s') timer_list ts \<and> a \<in> set ts)) \<and>
     (s_last_wake_timeout_info s \<noteq> 0 \<longrightarrow>
        map_option uc_userParam (map_of (user_cbs s') (s_last_wake_timeout_info s)) = Some 1)"

lemma map_of_set_userParam: "map_of xs l = Some i \<Longrightarrow> map_of (set_userParam l v xs) l = Some (i\<lparr>uc_userParam := v\<rparr>)"
  by (induction l v xs rule: set_userParam.induct) (auto split: if_splits)

lemma map_of_set_other: "x \<noteq> l \<Longrightarrow> map_of (set_userParam l v xs) x = map_of xs x"
  by (induction l v xs rule: set_userParam.induct) auto

lemma schedule_effect:
  assumes "ril_inv fds L s ts ps"
  obtains s' where "schedule_release s = Inr s'" "wake_lock s' = wake_lock s" "core_same s s'" "wake_timer_started s s'"
proof -
  let ?l = "s_last_wake_timeout_info s"
  obtain s' ts' where s': "schedule_release s = Inr s'" "ril_inv fds True s' ts' ps" using schedule_release_inv[OF assms] by blast
  define s1 where "s1 = (if ?l \<noteq> 0 then s\<lparr>user_cbs := set_userParam ?l 1 (user_cbs s)\<rparr> else s)"
  obtain a s2 where s2: "internalRequestTimedCallback WakeTimeoutCb 0 (Some TIMEVAL_WAKE_TIMEOUT) s1 = Inr (a, s2)"
    "s' = s2\<lparr>s_last_wake_timeout_info := a\<rparr>"
    using s'(1) unfolding schedule_release_def Let_def s1_def[symmetric] by (auto split: sum.splits)
  note t = timed_timeout[OF s2(1)]
  have keys: "map fst (user_cbs s1) = map fst (user_cbs s)" by (simp add: s1_def)
  have a: "a \<notin> set (map fst (user_cbs s))" unfolding keys[symmetric] t(1) using malloc_fresh(1)[of s1] by (simp add: live_def)
  have "wake_lock s1 = wake_lock s" "now s1 = now s" by (simp_all add: s1_def)
  moreover have "a \<noteq> 0" using malloc_fresh(2)[of s1] t(1) by simp
  then have "a \<in> set ts'"
  proof -
    have "a \<in> set ts' \<union> set ps" using ril_invD(6)[OF s'(2)] \<open>a \<noteq> 0\<close> s2(2) by (auto simp: wake_ok_def)
    moreover have "a \<notin> set ps"
      using ril_invD(8)[OF assms] a malloc_not_event(2)[OF assms] t(1) malloc_fresh(2)[of s1] by (auto simp: timer_block_def static_defs)
    ultimately show ?thesis by blast
  qed
  moreover have "dll (ev_heap s') timer_list ts'" by (rule ev_invD(1)[OF ril_invD(1)[OF s'(2)]])
  moreover have "map_option uc_userParam (map_of (user_cbs s') ?l) = Some 1" if "?l \<noteq> 0"
  proof -
    have l: "map_of (user_cbs s) ?l = Some \<lparr>uc_callback = WakeTimeoutCb, uc_userParam = 0\<rparr>"
      using ril_invD(6)[OF assms] that by (simp add: wake_ok_def)
    then have "?l \<noteq> a" using a by (force dest: map_of_SomeD)
    then show ?thesis using t(4) s2(2) map_of_set_userParam[OF l, of 1] that by (simp add: s1_def)
  qed
  ultimately have "wake_timer_started s s'" using a t s2(2) unfolding wake_timer_started_def Let_def by auto
  then show ?thesis using that s'(1) schedule_same[OF s'(1)] s2(2) t(3) \<open>wake_lock s1 = wake_lock s\<close> by simp
qed

text \<open>
  The steps of \<open>Ril_Wake\<close> and the function of \<open>Ril_Unsol\<close> agree: a thread that is not disturbed from the test of
  \<open>s_last_wake_timeout_info\<close> to the end of the message does to the lock, the pointer and the blocks what \<open>schedule_release\<close> does.
\<close>

definition wake_infos :: "ril_state \<Rightarrow> addr \<rightharpoonup> addr" where
  "wake_infos s a = (case map_of (user_cbs s) a of
       Some i \<Rightarrow> if uc_callback i = WakeTimeoutCb then Some (uc_userParam i) else None | None \<Rightarrow> None)"

definition wake_view :: "ril_state \<Rightarrow> msg_place \<Rightarrow> wake_sys" where
  "wake_view s m = \<lparr>held = wake_lock s, last_info = s_last_wake_timeout_info s, infos = wake_infos s, timers = [],
     senders = (\<lambda>_. m), timer_at = Idle\<rparr>"

lemma malloc_keys: "map fst (user_cbs s) = map fst (user_cbs s') \<Longrightarrow> s_pendingRequests s = s_pendingRequests s' \<Longrightarrow> malloc s = malloc s'"
  by (simp add: malloc_def live_def)

lemma message_alone:
  assumes "ril_inv fds L s ts ps" "schedule_release s = Inr s'"
  shows "\<exists>n w. act_run wake_step (replicate n (Sender 0 True (malloc s))) (wake_view s Test) = Some w \<and> senders w 0 = Outside \<and>
    held w = wake_lock s' \<and> last_info w = s_last_wake_timeout_info s' \<and> infos w = wake_infos s'"
proof -
  let ?l = "s_last_wake_timeout_info s"
  define s1 where "s1 = (if ?l \<noteq> 0 then s\<lparr>user_cbs := set_userParam ?l 1 (user_cbs s)\<rparr> else s)"
  obtain a s2 where s2: "internalRequestTimedCallback WakeTimeoutCb 0 (Some TIMEVAL_WAKE_TIMEOUT) s1 = Inr (a, s2)"
    "s' = s2\<lparr>s_last_wake_timeout_info := a\<rparr>"
    using assms(2) unfolding schedule_release_def Let_def s1_def[symmetric] by (auto split: sum.splits)
  note t = timed_timeout[OF s2(1)]
  have m: "malloc s = a" unfolding t(1) by (rule malloc_keys) (simp_all add: s1_def)
  have fresh: "a \<noteq> 0" "wake_infos s a = None" using malloc_fresh[of s] m
    by (auto simp: wake_infos_def live_def split: option.splits dest!: map_of_SomeD) force
  have lock: "wake_lock s' = wake_lock s" using t(3) s2(2) by (simp add: s1_def)
  show ?thesis
  proof (cases "?l = 0")
    case True
    then have "wake_infos s' = (wake_infos s)(a \<mapsto> 0)" using t(4) s2(2) by (auto simp: wake_infos_def s1_def)
    then show ?thesis using True fresh m lock s2(2)
      by (intro exI[of _ 3]) (simp add: eval_nat_numeral wake_sender_def wake_view_def)
  next
    case False
    then have l: "map_of (user_cbs s) ?l = Some \<lparr>uc_callback = WakeTimeoutCb, uc_userParam = 0\<rparr>"
      using ril_invD(6)[OF assms(1)] by (simp add: wake_ok_def)
    then have old: "wake_infos s ?l = Some 0" "?l \<noteq> a" using fresh(2) by (auto simp: wake_infos_def)
    have "wake_infos s' = (wake_infos s)(?l \<mapsto> 1, a \<mapsto> 0)"
      using t(4) s2(2) False map_of_set_userParam[OF l, of 1] map_of_set_other[of _ ?l 1 "user_cbs s"]
      by (auto simp: wake_infos_def s1_def fun_eq_iff)
    then show ?thesis using False fresh m lock s2(2) old
      by (intro exI[of _ 5]) (simp add: eval_nat_numeral wake_sender_def wake_view_def)
  qed
qed

text \<open>
  C11 What happens to a message other than the radio state whose payload can be marshalled, in every reachable state and when \<open>write\<close>
  returns: if the frame could be sent, it holds the kind of message, the code after the translation of old codes, the
  payload and, for the network time, the time of receipt; a time message that could not be sent is kept as it would
  have been sent. When the table asks for the wake lock, the lock is held at the end, a new timer is in the timer list that
  releases it after \<open>TIMEVAL_WAKE_TIMEOUT\<close>, and the timer before it is marked so that it does not; otherwise lock
  and timers are as before.
\<close>

theorem unsol_message:
  assumes "ril_env E R enc" "ril_run E H fds ph s" "unsol_conv H code = Some c" "s_registerCalled s" "unsol_known H c"
    and "c \<noteq> hword H ''RIL_UNSOL_RESPONSE_RADIO_STATE_CHANGED''"
    and "parcel_api.writes R (call_response E H (cb_version s) (unsolFunction (unsol_info H c)) dat n) (Inr 0) its"
  defines "bytes \<equiv> enc ([I32 RESPONSE_UNSOLICITED, I32 c] @ its @
      (if c = hword H ''RIL_UNSOL_NITZ_TIME_RECEIVED'' then [I64 (elapsed s)] else []))"
    and "wake \<equiv> wakeType (s_unsolResponses H ! nat (sint c - hval H ''RIL_UNSOL_RESPONSE_BASE'')) = WAKE_PARTIAL"
  assumes "sendResponseRaw bytes (s\<lparr>wake_lock := wake \<or> wake_lock s\<rparr>) = Inr (r, s1)"
  shows "\<exists>s'. RIL_UNSOL_RESPONSE E H code dat n s = Inr s' \<and>
    (r = 0 \<longrightarrow> sock_out s' = sock_out s @ frame bytes) \<and>
    s_lastNITZTimeData s' = (if r \<noteq> 0 \<and> c = hword H ''RIL_UNSOL_NITZ_TIME_RECEIVED'' then Some bytes else s_lastNITZTimeData s) \<and>
    (if wake then wake_lock s' \<and> wake_timer_started s s'
     else wake_lock s' = wake_lock s \<and> user_cbs s' = user_cbs s \<and> s_last_wake_timeout_info s' = s_last_wake_timeout_info s)"
proof -
  have wake: "unsol_wake H c = wake" by (simp add: wake_def unsol_wake_def unsol_info_def)
  have lock: "locked H c s = s\<lparr>wake_lock := wake \<or> wake_lock s\<rparr>" by (simp add: locked_def grabPartialWakeLock_def wake)
  define s2 where "s2 = (if r \<noteq> 0 \<and> c = hword H ''RIL_UNSOL_NITZ_TIME_RECEIVED'' then s1\<lparr>s_lastNITZTimeData := Some bytes\<rparr> else s1)"
  have run: "RIL_UNSOL_RESPONSE E H code dat n s = (if wake then schedule_release s2 else Inr s2)"
    using ril_env.unsol_delivered[OF assms(1,3-7), of "Suc 0", folded bytes_def] assms(10)
    unfolding unsol_depth2 deliver_def lock wake s2_def by simp
  obtain out ws where s1: "s1 = s\<lparr>wake_lock := wake \<or> wake_lock s, sock_out := sock_out s @ out, wr_script := ws\<rparr>"
    using sendResponseRaw_frame[OF assms(10)] by auto
  have out: "r = 0 \<Longrightarrow> sock_out s1 = sock_out s @ frame bytes" using sendResponseRaw_sound[OF assms(10)] by auto
  obtain ts ps where i: "ril_inv fds True s ts ps" using run_inv[OF assms(2)] by (auto simp: run_inv_def)
  have inv: "ril_inv fds False s2 ts ps" using ril_inv_lock(1)[OF i] by (simp add: s2_def s1)
  obtain s3 where s3: "schedule_release s2 = Inr s3" "wake_lock s3 = wake_lock s2" "core_same s2 s3" "wake_timer_started s2 s3"
    by (rule schedule_effect[OF inv])
  have same: "user_cbs s2 = user_cbs s" "now s2 = now s" "s_last_wake_timeout_info s2 = s_last_wake_timeout_info s"
    "wake_lock s2 = (wake \<or> wake_lock s)" "sock_out s2 = sock_out s1"
    "s_lastNITZTimeData s2 = (if r \<noteq> 0 \<and> c = hword H ''RIL_UNSOL_NITZ_TIME_RECEIVED'' then Some bytes else s_lastNITZTimeData s)"
    by (simp_all add: s2_def s1)
  have "wake_timer_started s s3" using s3(4) unfolding wake_timer_started_def same .
  then show ?thesis using run s3(1-3) out same by (auto simp: core_same_defs)
qed

text \<open>A message of integers whose frame cannot be sent, and the network time.\<close>

lemma ref_messages:
  "unsol_conv ref_h 1029 = Some 1029" "unsol_known ref_h 1029"
  "unsolFunction (unsol_info ref_h 1029) = R_Ints" "unsol_known ref_h 1008" "unsolFunction (unsol_info ref_h 1008) = R_String"
  "unsol_known ref_h 1032" "unsolFunction (unsol_info ref_h 1032) = R_Ints" "unsol_wake ref_h 1032"
  "wakeType (s_unsolResponses ref_h ! 29) = WAKE_PARTIAL"
  by (simp_all add: unsol_conv_def unsolResponse_conv_def v3_codes unsol_known_def unsol_wake_def unsol_info_def
    s_unsolResponses_def)

theorem unsol_message_witness:
  "\<exists>s s'. ril_run flat_parcel ref_h fds0 Waiting s \<and> \<not> wake_lock s \<and>
     RIL_UNSOL_RESPONSE flat_parcel ref_h 1029 (Some (Ints [1])) 4 s = Inr s' \<and> wake_lock s' \<and> wake_timer_started s s'"
proof -
  obtain s where s: "ril_run flat_parcel ref_h fds0 Waiting s" "s_registerCalled s" "fdCommand s = - 1" "ril_inv fds0 True s [] []"
    by (rule registered)
  have w: "flat.writes (call_response flat_parcel ref_h (cb_version s) (unsolFunction (unsol_info ref_h 1029))
      (Some (Ints [1])) 4) (Inr 0) [I32 1, I32 1]"
    using flat.writes_responseInts[of "[1]"]
    by (simp add: ref_messages call_response_def with_cast_def cast_def sizeof_int_def)
  have "\<not> wake_lock s" using ril_invD(6)[OF s(4)] by (auto simp: wake_ok_def)
  moreover have "(1029 :: i32) \<noteq> hword ref_h ''RIL_UNSOL_RESPONSE_RADIO_STATE_CHANGED''" by simp
  from unsol_message[OF flat.ril_env_axioms s(1) ref_messages(1) s(2) ref_messages(2) this w, of "- 1" "s\<lparr>wake_lock := True\<rparr>"] s(3)
  have "\<exists>s'. RIL_UNSOL_RESPONSE flat_parcel ref_h 1029 (Some (Ints [1])) 4 s = Inr s' \<and> wake_lock s' \<and> wake_timer_started s s'"
    by (auto simp: ref_messages sendResponseRaw_def)
  ultimately show ?thesis using s(1) by blast
qed

text \<open>
  The time of the network is not lost while the framework is not connected: the message is kept as it
  would have been sent, with the time of its receipt.
\<close>

theorem nitz_kept:
  fixes H :: ril_h
  defines "nitz \<equiv> hword H ''RIL_UNSOL_NITZ_TIME_RECEIVED''"
  assumes "ril_env E R enc" "ril_run E H fds ph s" "s_registerCalled s" "fdCommand s < 0"
    and "unsol_conv H nitz = Some nitz" "unsol_known H nitz"
      "nitz \<noteq> hword H ''RIL_UNSOL_RESPONSE_RADIO_STATE_CHANGED''"
    and "parcel_api.writes R (call_response E H (cb_version s) (unsolFunction (unsol_info H nitz)) dat n) (Inr 0) its"
  shows "\<exists>s'. RIL_UNSOL_RESPONSE E H nitz dat n s = Inr s' \<and> sock_out s' = sock_out s \<and> s_registerCalled s' \<and>
    s_lastNITZTimeData s' = Some (enc ([I32 RESPONSE_UNSOLICITED, I32 nitz] @ its @ [I64 (elapsed s)]))"
proof -
  let ?bytes = "enc ([I32 RESPONSE_UNSOLICITED, I32 nitz] @ its @ [I64 (elapsed s)])"
  let ?s = "(locked H nitz s)\<lparr>s_lastNITZTimeData := Some ?bytes\<rparr>"
  have r: "RIL_UNSOL_RESPONSE E H nitz dat n s = (if unsol_wake H nitz then schedule_release ?s else Inr ?s)"
    using ril_env.unsol_delivered[OF assms(2) assms(6) assms(4,7,8,9), of "Suc 0"] assms(5)
    by (simp add: unsol_depth2 deliver_def sendResponseRaw_def nitz_def[symmetric]
      del: RIL_onUnsolicitedResponse.simps)
  obtain ts ps where "ril_inv fds True s ts ps" using run_inv[OF assms(3)] by (auto simp: run_inv_def)
  then have "ril_inv fds False ?s ts ps"
    using ril_inv_lock(1)[of fds True s] ril_inv_weaken[of fds True s ts ps False]
    by (simp add: locked_def grabPartialWakeLock_def)
  then obtain s' where s': "schedule_release ?s = Inr s'" using schedule_release_inv by blast
  show ?thesis using r s' schedule_same[OF s'] assms(4) by (auto simp: core_same_defs)
qed

text \<open>
  A kept time message is delivered with the next connection: the last frame that is sent on connecting
  is that message, and it is then dropped, so that it is not delivered twice.
\<close>

theorem nitz_delivered:
  fixes H :: ril_h
  defines "nitz \<equiv> hword H ''RIL_UNSOL_NITZ_TIME_RECEIVED''"
  assumes "\<forall>k \<in> radio_notifications. unsol_conv H (hword H k) \<noteq> Some nitz"
    and "unsol_conv H RIL_UNSOL_RIL_CONNECTED_V3 \<noteq> Some nitz"
      "unsol_conv H (hword H ''RIL_UNSOL_RESPONSE_RADIO_STATE_CHANGED'') \<noteq> Some nitz"
    and "onNewCommandConnect E H s = Inr s'" "s_lastNITZTimeData s = Some dat"
    and "0 \<le> fdCommand s" "WError \<notin> set (wr_script s)" "length dat \<le> MAX_COMMAND_BYTES"
  shows "s_lastNITZTimeData s' = None \<and> (\<exists>out. sock_out s' = out @ frame dat)"
proof -
  obtain s1 s2 where 1: "RIL_UNSOL_RESPONSE E H RIL_UNSOL_RIL_CONNECTED_V3 (Some (Ints [cb_version s])) sizeof_int s = Inr s1"
    and 2: "RIL_UNSOL_RESPONSE E H (hword H ''RIL_UNSOL_RESPONSE_RADIO_STATE_CHANGED'') None 0 s1 = Inr s2"
    using assms(5) by (auto simp: onNewCommandConnect_def split: sum.splits)
  note keeps = unsol_keeps_unsol[OF assms(2)[unfolded nitz_def], folded nitz_def]
  have "unsol_keeps s s2" using keeps[OF 1[unfolded RIL_UNSOL_RESPONSE_def] assms(3)]
      keeps[OF 2[unfolded RIL_UNSOL_RESPONSE_def] assms(4)] unsol_keeps_trans by blast
  then have k: "s_lastNITZTimeData s2 = Some dat" "0 \<le> fdCommand s2" "WError \<notin> set (wr_script s2)"
    using assms(6-8) by (auto simp: unsol_keeps_def)
  obtain r s3 where 3: "sendResponseRaw dat s2 = Inr (r, s3)"
    using assms(5) 1 2 k(1) by (auto simp: onNewCommandConnect_def map_sum_Inr split: sum.splits)
  then have s': "sock_out s' = sock_out s3" "s_lastNITZTimeData s' = None"
    using assms(5) 1 2 k(1) by (auto simp: onNewCommandConnect_def)
  have "r = 0" using sendResponseRaw_keeps(2)[OF 3 k(3,2) assms(9)] .
  then have "\<exists>out. sock_out s3 = out @ frame dat" using sendResponseRaw_sound[OF 3] by auto
  then show ?thesis using s' by simp
qed

text \<open>
  C12 Connecting: when the user of the telephony process connects to the listening socket and the kernel takes what is
  written, the stream of the new connection is: the version of the vendor library; for a radio state of
  the old interface, a notification for the technology, the subscription source and the SIM status that have changed
  (with the codes that the translation gives them); the state of the radio, decoded; and the
  time message that was kept, if there was one. Each is a frame of its own, and the kept message is then gone.
\<close>

theorem connection_announced:
  assumes "ril_env E R enc" "unsol_codes H" "frames_fit enc" "ril_run E H fds (Firing s_listen_event) s"
    and "0 \<le> fd" "accept_ok fds fd" "s_registerCalled s" "writes_all 12 (wr_script s)"
    and "\<forall>d. s_lastNITZTimeData s = Some d \<longrightarrow> length d \<le> MAX_COMMAND_BYTES \<and> d \<noteq> []"
  shows "\<exists>s'. listenCallback E H fd (Some PHONE_PROCESS) (removeFromList s_listen_event s) = Inr s' \<and>
    s_lastNITZTimeData s' = None \<and>
    sock_out s' = frames_of enc ([[I32 RESPONSE_UNSOLICITED, I32 1034, I32 1, I32 (cb_version s)]] @
      radio_notes H (radioState s) s @ [[I32 RESPONSE_UNSOLICITED, I32 1000, I32 (radio_told H (radioState s))]]) @
      (case s_lastNITZTimeData s of None \<Rightarrow> [] | Some d \<Rightarrow> frame d)"
proof -
  obtain ts ps where i: "ril_inv fds True s ts ps" "phase_ok (Firing s_listen_event) ps"
    using run_inv[OF assms(4)] by (rule run_invE)
  have "s_listen_event \<noteq> pending_list" by (simp add: s_listen_event_def pending_list_def)
  then obtain ps' where ps: "ps = s_listen_event # ps'" using firing_head[OF i] by blast
  let ?s0 = "removeFromList s_listen_event s"
  let ?t = "?s0\<lparr>fdCommand := fd, sock_out := []\<rparr>"
  let ?s1 = "rilEventAddWakeup s_commands_event (ril_event_set s_commands_event fd True F_processCommands 0 ?t)"
  have inv: "ril_inv fds True ?s1 ts ps'" by (rule listen_fires[OF i(1)[unfolded ps] assms(5,6)])
  have same: "core_same ?t ?s1" "core_same s ?s0" by (rule connected_sel, rule fired_same)
  then have f: "radioState ?s1 = radioState s" "s_lastNITZTimeData ?s1 = s_lastNITZTimeData s" "cb_version ?s1 = cb_version s"
    "sock_out ?s1 = []" by (simp_all add: core_same_defs)
  have told: "radio_notes H st ?s1 = radio_notes H st s" for st
    using same by (intro notes_cong) (simp_all add: core_same_defs)
  have "connected fds 12 ?s1 ps'"
    using ril_inv_weaken[OF inv, of False] same assms(5,7,8) by (auto simp: connected_def core_same_defs)
  from ril_env.connect_effect[OF assms(1) this assms(2,3), unfolded f told, OF assms(9)]
  show ?thesis using assms(5) by (simp add: listenCallback_def Let_def)
qed

text \<open>A run in which the listening socket, descriptor 8, becomes ready.\<close>

lemma singleton_list: "distinct xs \<Longrightarrow> set xs = {a} \<Longrightarrow> xs = [a]"
  by (cases xs; cases "tl xs") auto

lemma listen_run:
  obtains s where "ril_run flat_parcel ref_h fds0 (Firing s_listen_event) s" "s_registerCalled s"
    "fdCommand s = - 1"
proof -
  obtain s1 where r1: "ril_run flat_parcel ref_h fds0 Waiting s1" and s: "s_registerCalled s1" "fdCommand s1 = - 1"
    and i: "ril_inv fds0 True s1 [] []" and l: "s_listen_event \<in> set (watched s1)" by (rule registered)
  note d = ril_invD[OF i]
  have w: "s_listen_event \<in> set (watched s1)" "set (watched s1) \<subseteq> statics"
    using l d(5) by (simp_all add: statics_ok_def)
  have c: "s_commands_event \<notin> set (watched s1)" using d(5) w(1) by (auto simp: statics_ok_def active_def)
  have fd: "ev_fd (ev_heap s1 a) = fds0 a" if "a \<in> set (watched s1)" for a
  proof -
    have "a \<in> statics - {s_commands_event}" using that w(2) c by blast
    then show ?thesis using d(4) by (simp add: fds_ok_def)
  qed
  have "filter (ready {8} s1) (watch_table s1) = filter (\<lambda>a. fds0 a = 8) (watched s1)"
    unfolding filter_filter using fd by (intro filter_cong) auto
  moreover have "filter (\<lambda>a. fds0 a = 8) (watched s1) = [s_listen_event]"
  proof (rule singleton_list)
    show "distinct (filter (\<lambda>a. fds0 a = 8) (watched s1))" by (intro distinct_filter watched_distinct d(2))
    have "fds0 a = 8 \<longleftrightarrow> a = s_listen_event" if "a \<in> statics" for a
      using that by (auto simp: fds0_def boot_fds_def static_defs)
    then show "set (filter (\<lambda>a. fds0 a = 8) (watched s1)) = {s_listen_event}"
      using w unfolding set_filter[of "\<lambda>a. fds0 a = 8"] by blast
  qed
  ultimately have ready: "ready_events 1 {8} s1 = [s_listen_event]" by simp
  have "\<forall>a \<in> set (watched s1). fresh_event [] [] a" using w(2) statics_fresh[OF i] by blast
  from poll_inv[OF d(1,2) this, of 1 "{8}" "now s1", unfolded ready filter.simps append_Nil] obtain s2 where
    s2: "poll 1 {8} (now s1) s1 = Some s2" "ev_inv s2 [] [s_listen_event]" "ev_state.more s2 = ev_state.more s1"
    by blast
  have "ev_next (ev_heap s2 pending_list) = s_listen_event" using dll_next[OF ev_invD(2)[OF s2(2)]] by simp
  then have "ril_run flat_parcel ref_h fds0 (Firing s_listen_event) s2" using run_step[OF r1 step_poll[OF s2(1)]] by simp
  moreover have "core_same s1 s2" by (rule more_same[OF s2(3)])
  ultimately show ?thesis using that s by (simp add: core_same_defs)
qed

lemma ref_codes: "unsol_codes ref_h" "frames_fit enc_items"
  by (simp add: unsol_codes_def) (auto simp: frames_fit_def enc_items_def enc32_def MAX_COMMAND_BYTES_def comp_def sum_list_triv
    neq_Nil_conv length_concat)

lemma max_writes: "writes_all m (replicate m (Wrote MAX_COMMAND_BYTES))"
  unfolding writes_all_def by (intro exI[of _ "replicate m MAX_COMMAND_BYTES"] exI[of _ "[]"]) simp

text \<open>A time message to a library that nobody is connected to.\<close>

theorem nitz_kept_witness:
  "\<exists>s s'. ril_run flat_parcel ref_h fds0 Waiting s \<and>
     RIL_UNSOL_RESPONSE flat_parcel ref_h 1008 (Some (Str ''15/11/16'')) 8 s = Inr s' \<and>
     s_lastNITZTimeData s' = Some (enc_items [I32 1, I32 1008, S16 (strdup8to16 flat_parcel (Some ''15/11/16'')), I64 (elapsed s)])"
proof -
  obtain s where s: "ril_run flat_parcel ref_h fds0 Waiting s" "s_registerCalled s" "fdCommand s = - 1" by (rule registered)
  have w: "flat.writes (call_response flat_parcel ref_h (cb_version s) (unsolFunction (unsol_info ref_h 1008))
      (Some (Str ''15/11/16'')) 8) (Inr 0) [S16 (strdup8to16 flat_parcel (Some ''15/11/16''))]"
    unfolding ref_messages call_response_def with_cast_def cast_def responseString_def
    by simp (rule ril_env.writes_Str[OF flat.ril_env_axioms ril_env.writes_Nil[OF flat.ril_env_axioms refl]])
  have c: "hword ref_h ''RIL_UNSOL_NITZ_TIME_RECEIVED'' = 1008" by simp
  from nitz_kept[OF flat.ril_env_axioms s(1,2), unfolded c, OF _ ref_notifications(4) ref_messages(4) _ w] s
  show ?thesis by (auto simp: RESPONSE_UNSOLICITED_def)
qed

text \<open>A connection to a library that has kept a time message and whose radio is in a state of the old interface.\<close>

lemma kept_run:
  obtains s d where "ril_run flat_parcel ref_h fds0 (Firing s_listen_event) s" "s_registerCalled s"
    "s_lastNITZTimeData s = Some d" "length d \<le> MAX_COMMAND_BYTES" "d \<noteq> []" "radioState s = 4"
    "wr_script s = replicate 12 (Wrote MAX_COMMAND_BYTES)"
proof -
  obtain s where s: "ril_run flat_parcel ref_h fds0 (Firing s_listen_event) s" "s_registerCalled s" "fdCommand s = - 1"
    by (rule listen_run)
  let ?its = "[S16 (strdup8to16 flat_parcel None)]"
  have w: "flat.writes (call_response flat_parcel ref_h (cb_version s) (unsolFunction (unsol_info ref_h 1008)) None 0) (Inr 0) ?its"
    unfolding ref_messages call_response_def with_cast_def cast_def responseString_def
    by simp (rule ril_env.writes_Str[OF flat.ril_env_axioms ril_env.writes_Nil[OF flat.ril_env_axioms refl]])
  let ?d = "enc_items ([I32 RESPONSE_UNSOLICITED, I32 1008] @ ?its @ [I64 (elapsed s)])"
  have c: "hword ref_h ''RIL_UNSOL_NITZ_TIME_RECEIVED'' = 1008" by simp
  obtain s1 where s1: "RIL_UNSOL_RESPONSE flat_parcel ref_h 1008 None 0 s = Inr s1" "s_registerCalled s1" "s_lastNITZTimeData s1 = Some ?d"
    using nitz_kept[OF flat.ril_env_axioms s(1,2), unfolded c, OF _ ref_notifications(4) ref_messages(4) _ w] s(3) by auto
  define s2 where "s2 = world_step 4 0 (now s1) (replicate 12 (Wrote MAX_COMMAND_BYTES)) True s1"
  have "ril_run flat_parcel ref_h fds0 (Firing s_listen_event) s2"
    unfolding s2_def by (rule run_step[OF run_step[OF s(1) step_unsol[OF s1(1)]] step_world])
  moreover have "strdup8to16 flat_parcel None = None" by (simp add: flat_parcel_def)
  then have "length ?d \<le> MAX_COMMAND_BYTES" "?d \<noteq> []" by (simp_all add: enc_items_def enc32_def MAX_COMMAND_BYTES_def)
  ultimately show ?thesis using that[of s2 ?d] s1(2,3) by (simp add: s2_def world_step_def)
qed

theorem connection_announced_witness:
  "\<exists>s s' d. ril_run flat_parcel ref_h fds0 (Firing s_listen_event) s \<and> old_radio ref_h (radioState s) \<and> s_lastNITZTimeData s = Some d \<and>
     listenCallback flat_parcel ref_h 10 (Some PHONE_PROCESS) (removeFromList s_listen_event s) = Inr s' \<and>
     s_lastNITZTimeData s' = None \<and>
     sock_out s' = frames_of enc_items ([[I32 RESPONSE_UNSOLICITED, I32 1034, I32 1, I32 (cb_version s)]] @
       radio_notes ref_h (radioState s) s @ [[I32 RESPONSE_UNSOLICITED, I32 1000, I32 10]]) @ frame d"
proof -
  obtain s d where s: "ril_run flat_parcel ref_h fds0 (Firing s_listen_event) s" "s_registerCalled s"
    "s_lastNITZTimeData s = Some d" "length d \<le> MAX_COMMAND_BYTES" "d \<noteq> []" "radioState s = 4"
    "wr_script s = replicate 12 (Wrote MAX_COMMAND_BYTES)" by (rule kept_run)
  have a: "accept_ok fds0 10" by (auto simp: accept_ok_def fds0_def boot_fds_def)
  have w: "writes_all 12 (wr_script s)" unfolding s(7) by (rule max_writes)
  have o: "old_radio ref_h 4" by (simp add: old_radio_def)
  then have t: "radio_told ref_h (radioState s) = 10" "old_radio ref_h (radioState s)" by (simp_all add: radio_told_def s(6))
  obtain s' where "listenCallback flat_parcel ref_h 10 (Some PHONE_PROCESS) (removeFromList s_listen_event s) = Inr s'"
    "s_lastNITZTimeData s' = None"
    "sock_out s' = frames_of enc_items ([[I32 RESPONSE_UNSOLICITED, I32 1034, I32 1, I32 (cb_version s)]] @
       radio_notes ref_h (radioState s) s @ [[I32 RESPONSE_UNSOLICITED, I32 1000, I32 10]]) @ frame d"
    using connection_announced[OF flat.ril_env_axioms ref_codes s(1) _ a s(2) w] s(3-5) unfolding t(1) by auto
  then show ?thesis using s(1,3) t(2) by blast
qed

theorem nitz_delivered_witness:
  "\<exists>s s'. onNewCommandConnect flat_parcel ref_h s = Inr s' \<and> s_lastNITZTimeData s = Some [1, 2, 3] \<and>
     s_lastNITZTimeData s' = None \<and> (\<exists>out. sock_out s' = out @ frame [1, 2, 3])"
proof -
  obtain s0 where s0: "s_registerCalled s0" "ril_inv fds0 True s0 [] []" by (rule registered)
  define s where "s = s0\<lparr>fdCommand := 6, wr_script := replicate 12 (Wrote MAX_COMMAND_BYTES), radioState := 10,
      s_lastNITZTimeData := Some [1, 2, 3]\<rparr>"
  have s: "s_lastNITZTimeData s = Some [1, 2, 3]" "0 \<le> fdCommand s" "WError \<notin> set (wr_script s)" by (simp_all add: s_def)
  have c: "connected fds0 12 s []"
    using s0 max_writes[of 12] ril_inv_weaken[of fds0 True s0 "[]" "[]" False] by (auto simp: connected_def s_def)
  obtain s' where s': "onNewCommandConnect flat_parcel ref_h s = Inr s'"
    using flat.connect_effect[OF c ref_codes] s(1) by (auto simp: MAX_COMMAND_BYTES_def)
  have "\<forall>k \<in> radio_notifications. unsol_conv ref_h (hword ref_h k) \<noteq> Some (hword ref_h ''RIL_UNSOL_NITZ_TIME_RECEIVED'')"
    by (simp add: radio_notifications_def ref_notifications)
  from nitz_delivered[OF this _ _ s' s] s' s(1) show ?thesis
    by (simp add: unsol_codesD[OF ref_codes(1)] MAX_COMMAND_BYTES_def) blast
qed

lemma notifications_renumbered_parts:
  assumes "ril_env E R enc" "s_registerCalled s"
    and "hval H ''RIL_UNSOL_RESPONSE_BASE'' = 1000" "hval H ''RIL_UNSOL_CDMA_SUBSCRIPTION_SOURCE_CHANGED'' = 1031"
      "hval H ''RIL_UNSOL_CDMA_PRL_CHANGED'' = 1032" "hval H ''RIL_UNSOL_VOICE_RADIO_TECH_CHANGED'' = 1035"
      "hval H ''RIL_UNSOL_NITZ_TIME_RECEIVED'' = 1008" "hval H ''RIL_UNSOL_RESPONSE_RADIO_STATE_CHANGED'' = 1000"
  shows "RIL_UNSOL_RESPONSE E H (hword H ''RIL_UNSOL_VOICE_RADIO_TECH_CHANGED'') (Some (Ints [t])) sizeof_int s
      = deliver H 1032 (enc [I32 RESPONSE_UNSOLICITED, I32 1032, I32 1, I32 t]) (locked H 1032 s)"
    and "RIL_UNSOL_RESPONSE E H (hword H ''RIL_UNSOL_CDMA_SUBSCRIPTION_SOURCE_CHANGED'') (Some (Ints [t])) sizeof_int s
      = deliver H 1035 (enc [I32 RESPONSE_UNSOLICITED, I32 1035, I32 1, I32 t]) (locked H 1035 s)"
proof -
  have c: "unsol_conv H 1035 = Some 1032" "unsol_conv H 1031 = Some 1035" "unsol_known H 1032" "unsol_known H 1035"
    "unsolFunction (unsol_info H 1032) = R_Ints" "unsolFunction (unsol_info H 1035) = R_Ints"
    using assms(3-) by (simp_all add: unsol_conv_def unsolResponse_conv_def v3_codes unsol_known_def unsol_info_def
      s_unsolResponses_def)
  have w: "parcel_api.writes R (call_response E H (cb_version s) R_Ints (Some (Ints [t])) sizeof_int) (Inr 0) [I32 1, I32 t]"
    using ril_env.writes_responseInts[OF assms(1), of "[t]"] by (simp add: call_response_def with_cast_def cast_def)
  note d = ril_env.unsol_delivered[OF assms(1) _ assms(2)]
  have r: "(1032 :: i32) \<noteq> hword H ''RIL_UNSOL_RESPONSE_RADIO_STATE_CHANGED''"
    "(1035 :: i32) \<noteq> hword H ''RIL_UNSOL_RESPONSE_RADIO_STATE_CHANGED''" using assms(8) by simp_all
  show "RIL_UNSOL_RESPONSE E H (hword H ''RIL_UNSOL_VOICE_RADIO_TECH_CHANGED'') (Some (Ints [t])) sizeof_int s
      = deliver H 1032 (enc [I32 RESPONSE_UNSOLICITED, I32 1032, I32 1, I32 t]) (locked H 1032 s)"
    using d[OF c(1,3) r(1), unfolded c(5), OF w, of "Suc 0"] assms(6,7)
    by (simp add: unsol_depth2 del: RIL_onUnsolicitedResponse.simps)
  show "RIL_UNSOL_RESPONSE E H (hword H ''RIL_UNSOL_CDMA_SUBSCRIPTION_SOURCE_CHANGED'') (Some (Ints [t])) sizeof_int s
      = deliver H 1035 (enc [I32 RESPONSE_UNSOLICITED, I32 1035, I32 1, I32 t]) (locked H 1035 s)"
    using d[OF c(2,4) r(2), unfolded c(6), OF w, of "Suc 0"] assms(4,7)
    by (simp add: unsol_depth2 del: RIL_onUnsolicitedResponse.simps)
qed

text \<open>
  C40 The library's own notifications leave with the wrong code. The codes of the table that translates
  old messages are those of other messages today: a change of the voice radio technology, which
  \<open>processRadioState\<close> sends with the code of today, goes out as a change of the preferred roaming
  list, and a change of the CDMA subscription source as a change of the voice radio technology.
\<close>

theorem notifications_renumbered:
  assumes "ril_env E R enc" "s_registerCalled s"
    and "hval H ''RIL_UNSOL_RESPONSE_BASE'' = 1000" "hval H ''RIL_UNSOL_CDMA_SUBSCRIPTION_SOURCE_CHANGED'' = 1031"
      "hval H ''RIL_UNSOL_CDMA_PRL_CHANGED'' = 1032" "hval H ''RIL_UNSOL_VOICE_RADIO_TECH_CHANGED'' = 1035"
      "hval H ''RIL_UNSOL_NITZ_TIME_RECEIVED'' = 1008" "hval H ''RIL_UNSOL_RESPONSE_RADIO_STATE_CHANGED'' = 1000"
  shows "RIL_UNSOL_RESPONSE E H (hword H ''RIL_UNSOL_VOICE_RADIO_TECH_CHANGED'') (Some (Ints [t])) sizeof_int s
      = deliver H 1032 (enc [I32 RESPONSE_UNSOLICITED, I32 1032, I32 1, I32 t]) (locked H 1032 s) \<and>
    RIL_UNSOL_RESPONSE E H (hword H ''RIL_UNSOL_CDMA_SUBSCRIPTION_SOURCE_CHANGED'') (Some (Ints [t])) sizeof_int s
      = deliver H 1035 (enc [I32 RESPONSE_UNSOLICITED, I32 1035, I32 1, I32 t]) (locked H 1035 s)"
  using notifications_renumbered_parts[OF assms] by blast


theorem notifications_renumbered_witness:
  "RIL_UNSOL_RESPONSE flat_parcel ref_h 1035 (Some (Ints [3])) sizeof_int ril0
   = deliver ref_h 1032 (enc_items [I32 1, I32 1032, I32 1, I32 3]) (locked ref_h 1032 ril0)"
  using notifications_renumbered[OF flat.ril_env_axioms, of ril0 ref_h 3] by (simp add: RESPONSE_UNSOLICITED_def)

end
