(* ===== verification/Shim_Vector.thy ===== *)
theory Shim_Vector
  imports Prelude
begin

unbundle bit_operations_syntax

text \<open>
  The vectors of libshims: SharedBuffer.cpp and VectorImpl.cpp. A vector object points into a shared
  buffer that counts its owners; a vector that is about to be changed makes a copy first when it is
  not the only owner. The buffers live in an explicit store, so that sharing, freeing and
  reallocation are those of the code. What the code calls in the class of the items (utils/Vector.h)
  is a parameter. Of utils/SharedBuffer.h the code uses the counter and the size of a buffer, its data area and
  the test for a single owner; \<open>safe_add\<close> and \<open>safe_mul\<close> fail when the result does not fit in \<open>size_t\<close>.
\<close>

section \<open>Items\<close>

text \<open>The slots of a data area; \<open>None\<close> is memory in which no item has been constructed.\<close>

type_synonym 'a cells = "'a option list"

text \<open>
  The virtual functions of the class of the items, as they act on data areas: positions and numbers
  count items. \<open>t_copy dst i src j n\<close> copies from \<open>src\<close> at \<open>j\<close> to \<open>dst\<close> at \<open>i\<close>; the two moves work within
  one area, from their third to their second argument.
\<close>

record 'a type_ops =
  t_construct :: "'a cells \<Rightarrow> nat \<Rightarrow> nat \<Rightarrow> 'a cells"
  t_destroy :: "'a cells \<Rightarrow> nat \<Rightarrow> nat \<Rightarrow> 'a cells"
  t_copy :: "'a cells \<Rightarrow> nat \<Rightarrow> 'a cells \<Rightarrow> nat \<Rightarrow> nat \<Rightarrow> 'a cells"
  t_splat :: "'a cells \<Rightarrow> nat \<Rightarrow> 'a \<Rightarrow> nat \<Rightarrow> 'a cells"
  t_move_forward :: "'a cells \<Rightarrow> nat \<Rightarrow> nat \<Rightarrow> nat \<Rightarrow> 'a cells"
  t_move_backward :: "'a cells \<Rightarrow> nat \<Rightarrow> nat \<Rightarrow> nat \<Rightarrow> 'a cells"
  t_compare :: "'a \<Rightarrow> 'a \<Rightarrow> int"
  sizeof_SharedBuffer :: nat

text \<open>Overwriting a stretch of an area.\<close>

definition put :: "'a list \<Rightarrow> nat \<Rightarrow> 'a list \<Rightarrow> 'a list" where
  "put d i xs = take i d @ xs @ drop (i + length xs) d"

definition memcpy_items :: "'a cells \<Rightarrow> nat \<Rightarrow> 'a cells \<Rightarrow> nat \<Rightarrow> nat \<Rightarrow> 'a cells" where
  "memcpy_items dst i src j n = put dst i (take n (drop j src))"

section \<open>Shared buffers\<close>

record 'a SharedBuffer =
  mRefs :: nat
  mSize :: nat
  sb_data :: "'a cells"

text \<open>
  The store: the buffers that have been allocated and not freed, the next address of the allocator and
  the results of the next calls of \<open>malloc\<close> and \<open>realloc\<close>, \<open>True\<close> for failure; later calls succeed.
\<close>

record 'a store =
  bufs :: "addr \<Rightarrow> 'a SharedBuffer option"
  next_buf :: addr
  malloc_fails :: "bool list"

definition SIZE_MAX :: nat where "SIZE_MAX = 2 ^ 32 - 1"

definition deref :: "addr \<Rightarrow> 'a store \<Rightarrow> 'a SharedBuffer result" where
  "deref a st = (if a = 0 then Inl NullDeref
     else case bufs st a of None \<Rightarrow> Inl UseAfterFree | Some b \<Rightarrow> Inr b)"

definition set_buf :: "addr \<Rightarrow> 'a SharedBuffer option \<Rightarrow> 'a store \<Rightarrow> 'a store" where
  "set_buf a b st = st\<lparr>bufs := (bufs st)(a := b)\<rparr>"

text \<open>\<open>malloc\<close> and \<open>realloc\<close> of a block with the given contents: its address, or \<open>0\<close>.\<close>

definition new_block :: "'a SharedBuffer \<Rightarrow> 'a store \<Rightarrow> addr \<times> 'a store" where
  "new_block b st =
     (let st' = st\<lparr>malloc_fails := tl (malloc_fails st)\<rparr> in
      if malloc_fails st \<noteq> [] \<and> hd (malloc_fails st) then (0, st')
      else (next_buf st', (set_buf (next_buf st') (Some b) st')\<lparr>next_buf := Suc (next_buf st')\<rparr>))"

text \<open>\<open>isz\<close> is the size of an item, which says how many slots the data area has.\<close>

definition alloc :: "'a type_ops \<Rightarrow> nat \<Rightarrow> nat \<Rightarrow> 'a store \<Rightarrow> (addr \<times> 'a store) result" where
  "alloc T isz sz st =
     (if sz \<ge> SIZE_MAX - sizeof_SharedBuffer T then Inl Fatal
      else Inr (new_block \<lparr>mRefs = 1, mSize = sz, sb_data = replicate (sz div isz) None\<rparr> st))"

definition dealloc :: "addr \<Rightarrow> 'a store \<Rightarrow> (int \<times> 'a store) result" where
  "dealloc a st = (case deref a st of
       Inl f \<Rightarrow> Inl f
     | Inr b \<Rightarrow> if mRefs b \<noteq> 0 then Inr (- 1, st) else Inr (0, set_buf a None st))"

definition onlyOwner :: "'a SharedBuffer \<Rightarrow> bool" where
  "onlyOwner b \<longleftrightarrow> mRefs b = 1"

definition acquire :: "addr \<Rightarrow> 'a store \<Rightarrow> 'a store result" where
  "acquire a st = (case deref a st of
       Inl f \<Rightarrow> Inl f
     | Inr b \<Rightarrow> Inr (set_buf a (Some (b\<lparr>mRefs := Suc (mRefs b)\<rparr>)) st))"

text \<open>The result is the number of owners before; \<open>keep\<close> is the flag \<open>eKeepStorage\<close>.\<close>

definition release :: "bool \<Rightarrow> addr \<Rightarrow> 'a store \<Rightarrow> (nat \<times> 'a store) result" where
  "release keep a st = (case deref a st of
       Inl f \<Rightarrow> Inl f
     | Inr b \<Rightarrow>
         (let prev = (if onlyOwner b then 1 else mRefs b) in
          if prev = 1 then Inr (prev, set_buf a (if keep then Some (b\<lparr>mRefs := 0\<rparr>) else None) st)
          else Inr (prev, set_buf a (Some (b\<lparr>mRefs := mRefs b - 1\<rparr>)) st)))"

definition attemptEdit :: "addr \<Rightarrow> 'a store \<Rightarrow> addr result" where
  "attemptEdit a st = (case deref a st of Inl f \<Rightarrow> Inl f | Inr b \<Rightarrow> Inr (if onlyOwner b then a else 0))"

text \<open>The data area of a block whose size changes: what fits is kept.\<close>

definition resized :: "nat \<Rightarrow> nat \<Rightarrow> 'a cells \<Rightarrow> 'a cells" where
  "resized isz sz d = take (sz div isz) d @ replicate (sz div isz - length d) None"

text \<open>Allocating a block, copying the data over and giving up the old one.\<close>

definition copy_out :: "'a type_ops \<Rightarrow> nat \<Rightarrow> nat \<Rightarrow> addr \<Rightarrow> 'a SharedBuffer \<Rightarrow> 'a store \<Rightarrow> (addr \<times> 'a store) result" where
  "copy_out T isz newSize a b st = (case alloc T isz newSize st of
       Inl f \<Rightarrow> Inl f
     | Inr (n, st1) \<Rightarrow>
         if n = 0 then Inr (0, st1)
         else
           let st2 = set_buf n (Some \<lparr>mRefs = 1, mSize = newSize, sb_data = resized isz newSize (sb_data b)\<rparr>) st1
           in (case release False a st2 of Inl f \<Rightarrow> Inl f | Inr (_, st3) \<Rightarrow> Inr (n, st3)))"

definition edit :: "'a type_ops \<Rightarrow> nat \<Rightarrow> addr \<Rightarrow> 'a store \<Rightarrow> (addr \<times> 'a store) result" where
  "edit T isz a st = (case deref a st of
       Inl f \<Rightarrow> Inl f
     | Inr b \<Rightarrow> if onlyOwner b then Inr (a, st) else copy_out T isz (mSize b) a b st)"

definition editResize :: "'a type_ops \<Rightarrow> nat \<Rightarrow> nat \<Rightarrow> addr \<Rightarrow> 'a store \<Rightarrow> (addr \<times> 'a store) result" where
  "editResize T isz newSize a st = (case deref a st of
       Inl f \<Rightarrow> Inl f
     | Inr b \<Rightarrow>
         if onlyOwner b then
           if mSize b = newSize then Inr (a, st)
           else if newSize \<ge> SIZE_MAX - sizeof_SharedBuffer T then Inl Fatal
           else
             (case new_block (b\<lparr>mSize := newSize, sb_data := resized isz newSize (sb_data b)\<rparr>) st of
                (n, st1) \<Rightarrow> if n \<noteq> 0 then Inr (n, set_buf a None st1) else copy_out T isz newSize a b st1)
         else copy_out T isz newSize a b st)"

definition reset :: "'a type_ops \<Rightarrow> nat \<Rightarrow> nat \<Rightarrow> addr \<Rightarrow> 'a store \<Rightarrow> (addr \<times> 'a store) result" where
  "reset T isz newSize a st = (case alloc T isz newSize st of
       Inl f \<Rightarrow> Inl f
     | Inr (n, st1) \<Rightarrow>
         if n = 0 then Inr (0, st1)
         else (case release False a st1 of Inl f \<Rightarrow> Inl f | Inr (_, st2) \<Rightarrow> Inr (n, st2)))"

section \<open>Vectors\<close>

definition HAS_TRIVIAL_CTOR :: "32 word" where "HAS_TRIVIAL_CTOR = 1"
definition HAS_TRIVIAL_DTOR :: "32 word" where "HAS_TRIVIAL_DTOR = 2"
definition HAS_TRIVIAL_COPY :: "32 word" where "HAS_TRIVIAL_COPY = 4"
definition kMinVectorCapacity :: nat where "kMinVectorCapacity = 4"

record VectorImpl =
  mStorage :: addr
  mCount :: nat
  mFlags :: "32 word"
  mItemSize :: nat

text \<open>The negative results of the code, and an index or count.\<close>

datatype status = BAD_INDEX | BAD_VALUE | NO_MEMORY | NAME_NOT_FOUND

type_synonym ssize = "status + nat"

definition flag :: "VectorImpl \<Rightarrow> 32 word \<Rightarrow> bool" where
  "flag v f \<longleftrightarrow> mFlags v AND f \<noteq> 0"

definition do_construct :: "'a type_ops \<Rightarrow> VectorImpl \<Rightarrow> 'a cells \<Rightarrow> nat \<Rightarrow> nat \<Rightarrow> 'a cells" where
  "do_construct T v d i n = (if \<not> flag v HAS_TRIVIAL_CTOR then t_construct T d i n else d)"

definition do_destroy :: "'a type_ops \<Rightarrow> VectorImpl \<Rightarrow> 'a cells \<Rightarrow> nat \<Rightarrow> nat \<Rightarrow> 'a cells" where
  "do_destroy T v d i n = (if \<not> flag v HAS_TRIVIAL_DTOR then t_destroy T d i n else d)"

definition do_copy :: "'a type_ops \<Rightarrow> VectorImpl \<Rightarrow> 'a cells \<Rightarrow> nat \<Rightarrow> 'a cells \<Rightarrow> nat \<Rightarrow> nat \<Rightarrow> 'a cells" where
  "do_copy T v dst i src j n =
     (if \<not> flag v HAS_TRIVIAL_COPY then t_copy T dst i src j n else memcpy_items dst i src j n)"

text \<open>The data area of a vector; a vector without storage has none.\<close>

definition arrayImpl :: "VectorImpl \<Rightarrow> 'a store \<Rightarrow> 'a cells result" where
  "arrayImpl v st = (if mStorage v = 0 then Inr [] else map_sum id sb_data (deref (mStorage v) st))"

definition set_array :: "VectorImpl \<Rightarrow> 'a cells \<Rightarrow> 'a store \<Rightarrow> 'a store" where
  "set_array v d st = st\<lparr>bufs := (bufs st)(mStorage v := map_option (\<lambda>b. b\<lparr>sb_data := d\<rparr>) (bufs st (mStorage v)))\<rparr>"

definition new_vector :: "nat \<Rightarrow> 32 word \<Rightarrow> VectorImpl" where
  "new_vector itemSize flags = \<lparr>mStorage = 0, mCount = 0, mFlags = flags, mItemSize = itemSize\<rparr>"

definition copy_vector :: "VectorImpl \<Rightarrow> 'a store \<Rightarrow> (VectorImpl \<times> 'a store) result" where
  "copy_vector rhs st =
     (if mStorage rhs \<noteq> 0 then map_sum id (Pair rhs) (acquire (mStorage rhs) st) else Inr (rhs, st))"

definition release_storage :: "'a type_ops \<Rightarrow> VectorImpl \<Rightarrow> 'a store \<Rightarrow> 'a store result" where
  "release_storage T v st =
     (if mStorage v = 0 then Inr st
      else case release True (mStorage v) st of
          Inl f \<Rightarrow> Inl f
        | Inr (prev, st1) \<Rightarrow>
            if prev = 1 then
              (case arrayImpl v st1 of
                 Inl f \<Rightarrow> Inl f
               | Inr d \<Rightarrow> map_sum id snd (dealloc (mStorage v) (set_array v (do_destroy T v d 0 (mCount v)) st1)))
            else Inr st1)"

text \<open>\<open>this\<close> and \<open>rhs\<close> are different objects.\<close>

definition assign :: "'a type_ops \<Rightarrow> VectorImpl \<Rightarrow> VectorImpl \<Rightarrow> 'a store \<Rightarrow> (VectorImpl \<times> 'a store) result" where
  "assign T v rhs st =
     (if mItemSize v \<noteq> mItemSize rhs then Inl Fatal
      else case release_storage T v st of
          Inl f \<Rightarrow> Inl f
        | Inr st1 \<Rightarrow>
            if mCount rhs \<noteq> 0 then
              map_sum id (Pair (v\<lparr>mStorage := mStorage rhs, mCount := mCount rhs\<rparr>)) (acquire (mStorage rhs) st1)
            else Inr (v\<lparr>mStorage := 0, mCount := 0\<rparr>, st1))"

text \<open>Filling a block that has just been allocated, and making it the storage of the vector.\<close>

definition adopt :: "'a type_ops \<Rightarrow> VectorImpl \<Rightarrow> addr \<Rightarrow> ('a cells \<Rightarrow> 'a cells) \<Rightarrow> 'a store
    \<Rightarrow> (VectorImpl \<times> 'a store) result" where
  "adopt T v n fill st = (case arrayImpl (v\<lparr>mStorage := n\<rparr>) st of
       Inl f \<Rightarrow> Inl f
     | Inr d \<Rightarrow>
         (case release_storage T v (set_array (v\<lparr>mStorage := n\<rparr>) (fill d) st) of
            Inl f \<Rightarrow> Inl f
          | Inr st1 \<Rightarrow> Inr (v\<lparr>mStorage := n\<rparr>, st1)))"

definition editArrayImpl :: "'a type_ops \<Rightarrow> VectorImpl \<Rightarrow> 'a store \<Rightarrow> (VectorImpl \<times> 'a store) result" where
  "editArrayImpl T v st =
     (if mStorage v = 0 then Inr (v, st)
      else case deref (mStorage v) st of
          Inl f \<Rightarrow> Inl f
        | Inr sb \<Rightarrow>
            (case attemptEdit (mStorage v) st of
               Inl f \<Rightarrow> Inl f
             | Inr editable \<Rightarrow>
                 if editable \<noteq> 0 then Inr (v, st)
                 else (case alloc T (mItemSize v) (mSize sb) st of
                     Inl f \<Rightarrow> Inl f
                   | Inr (n, st1) \<Rightarrow>
                       if n = 0 then Inl Fatal
                       else adopt T v n (\<lambda>d. do_copy T v d 0 (sb_data sb) 0 (mCount v)) st1)))"

definition capacity :: "VectorImpl \<Rightarrow> 'a store \<Rightarrow> nat result" where
  "capacity v st =
     (if mStorage v \<noteq> 0 then map_sum id (\<lambda>b. mSize b div mItemSize v) (deref (mStorage v) st) else Inr 0)"

text \<open>The position of an item, \<open>None\<close> for a null pointer.\<close>

definition itemLocation :: "VectorImpl \<Rightarrow> 'a store \<Rightarrow> nat \<Rightarrow> nat option result" where
  "itemLocation v st index =
     map_sum id (\<lambda>c. if index < c \<and> mStorage v \<noteq> 0 then Some index else None) (capacity v st)"

definition editItemLocation ::
  "'a type_ops \<Rightarrow> VectorImpl \<Rightarrow> nat \<Rightarrow> 'a store \<Rightarrow> (nat option \<times> VectorImpl \<times> 'a store) result" where
  "editItemLocation T v index st = (case capacity v st of
       Inl f \<Rightarrow> Inl f
     | Inr c \<Rightarrow>
         if index < c then
           (case editArrayImpl T v st of
              Inl f \<Rightarrow> Inl f
            | Inr (v1, st1) \<Rightarrow> Inr (if mStorage v1 \<noteq> 0 then Some index else None, v1, st1))
         else Inr (None, v, st))"

text \<open>\<open>safe_add\<close> and \<open>safe_mul\<close> on \<open>size_t\<close>; the code aborts when they fail.\<close>

definition safe :: "nat \<Rightarrow> nat result" where
  "safe n = (if n \<le> SIZE_MAX then Inr n else Inl Fatal)"

text \<open>The size of the new block when a vector grows to \<open>new_size\<close> items.\<close>

definition grown_size :: "nat \<Rightarrow> nat \<Rightarrow> nat result" where
  "grown_size isz new_size = (case safe (new_size + new_size div 2) of
       Inl f \<Rightarrow> Inl f
     | Inr c \<Rightarrow> (case safe (c + 1) of
         Inl f \<Rightarrow> Inl f
       | Inr c1 \<Rightarrow> safe (max kMinVectorCapacity c1 * isz)))"

definition grow :: "'a type_ops \<Rightarrow> VectorImpl \<Rightarrow> nat \<Rightarrow> nat \<Rightarrow> 'a store
    \<Rightarrow> (nat option \<times> VectorImpl \<times> 'a store) result" where
  "grow T v whr amount st =
     (case safe (mCount v + amount) of
        Inl f \<Rightarrow> Inl f
      | Inr new_size \<Rightarrow>
     (case capacity v st of
        Inl f \<Rightarrow> Inl f
      | Inr c \<Rightarrow>
     (case
       (if c < new_size then
          (case grown_size (mItemSize v) new_size of
             Inl f \<Rightarrow> Inl f
           | Inr new_alloc_size \<Rightarrow>
               if mStorage v \<noteq> 0 \<and> mCount v = whr \<and> flag v HAS_TRIVIAL_COPY \<and> flag v HAS_TRIVIAL_DTOR then
                 (case editResize T (mItemSize v) new_alloc_size (mStorage v) st of
                    Inl f \<Rightarrow> Inl f
                  | Inr (sb, st1) \<Rightarrow> Inr (if sb \<noteq> 0 then Some (v\<lparr>mStorage := sb\<rparr>) else None, st1))
               else
                 (case alloc T (mItemSize v) new_alloc_size st of
                    Inl f \<Rightarrow> Inl f
                  | Inr (n, st1) \<Rightarrow>
                      if n = 0 then Inr (None, st1)
                      else (case arrayImpl v st1 of
                          Inl f \<Rightarrow> Inl f
                        | Inr old \<Rightarrow>
                            map_sum id (\<lambda>(v1, st2). (Some v1, st2))
                              (adopt T v n
                                 (\<lambda>d. let d1 = (if whr \<noteq> 0 then do_copy T v d 0 old 0 whr else d)
                                      in if whr \<noteq> mCount v
                                         then do_copy T v d1 (whr + amount) old whr (mCount v - whr) else d1) st1))))
        else
          (case editArrayImpl T v st of
             Inl f \<Rightarrow> Inl f
           | Inr (v1, st1) \<Rightarrow>
               if whr \<noteq> mCount v then
                 (case arrayImpl v1 st1 of
                    Inl f \<Rightarrow> Inl f
                  | Inr d \<Rightarrow> Inr (Some v1, set_array v1 (t_move_forward T d (whr + amount) whr (mCount v - whr)) st1))
               else Inr (Some v1, st1)))
      of
        Inl f \<Rightarrow> Inl f
      | Inr (None, st1) \<Rightarrow> Inr (None, v, st1)
      | Inr (Some v1, st1) \<Rightarrow>
          let v2 = v1\<lparr>mCount := new_size\<rparr>
          in map_sum id (\<lambda>p. (p, v2, st1)) (itemLocation v2 st1 whr))))"

definition shrink :: "'a type_ops \<Rightarrow> VectorImpl \<Rightarrow> nat \<Rightarrow> nat \<Rightarrow> 'a store \<Rightarrow> (VectorImpl \<times> 'a store) result" where
  "shrink T v whr amount st =
     (if mStorage v = 0 then Inr (v, st)
      else if mCount v < amount then Inl Fatal
      else case capacity v st of
          Inl f \<Rightarrow> Inl f
        | Inr c \<Rightarrow>
            let new_size = mCount v - amount in
            if new_size < c div 2 then
              let new_capacity = max kMinVectorCapacity (new_size * 2) in
              if whr = new_size \<and> flag v HAS_TRIVIAL_COPY \<and> flag v HAS_TRIVIAL_DTOR then
                (case editResize T (mItemSize v) (new_capacity * mItemSize v mod 2 ^ 32) (mStorage v) st of
                   Inl f \<Rightarrow> Inl f
                 | Inr (sb, st1) \<Rightarrow>
                     if sb \<noteq> 0 then Inr (v\<lparr>mStorage := sb, mCount := new_size\<rparr>, st1) else Inr (v, st1))
              else
                (case alloc T (mItemSize v) (new_capacity * mItemSize v mod 2 ^ 32) st of
                   Inl f \<Rightarrow> Inl f
                 | Inr (n, st1) \<Rightarrow>
                     if n = 0 then Inr (v, st1)
                     else (case arrayImpl v st1 of
                         Inl f \<Rightarrow> Inl f
                       | Inr old \<Rightarrow>
                           map_sum id (\<lambda>(v1, st2). (v1\<lparr>mCount := new_size\<rparr>, st2))
                             (adopt T v n
                                (\<lambda>d. let d1 = (if whr \<noteq> 0 then do_copy T v d 0 old 0 whr else d)
                                     in if whr \<noteq> new_size
                                        then do_copy T v d1 whr old (whr + amount) (new_size - whr) else d1) st1)))
            else
              (case editArrayImpl T v st of
                 Inl f \<Rightarrow> Inl f
               | Inr (v1, st1) \<Rightarrow>
                   (case arrayImpl v1 st1 of
                      Inl f \<Rightarrow> Inl f
                    | Inr d \<Rightarrow>
                        let d1 = do_destroy T v d whr amount;
                            d2 = (if whr \<noteq> new_size
                                  then t_move_backward T d1 whr (whr + amount) (new_size - whr) else d1)
                        in Inr (v1\<lparr>mCount := new_size\<rparr>, set_array v1 d2 st1))))"

section \<open>Operations on vectors\<close>

text \<open>
  Items are given by value: the callers' items are not in the storage of the vector that is changed.
  The common end of the insertions: \<open>fill\<close> writes the new items into the gap.
\<close>

definition insert_with :: "'a type_ops \<Rightarrow> VectorImpl \<Rightarrow> nat \<Rightarrow> nat \<Rightarrow> ('a cells \<Rightarrow> 'a cells) \<Rightarrow> 'a store
    \<Rightarrow> (ssize \<times> VectorImpl \<times> 'a store) result" where
  "insert_with T v index n fill st =
     (if index > mCount v then Inr (Inl BAD_INDEX, v, st)
      else case grow T v index n st of
          Inl f \<Rightarrow> Inl f
        | Inr (None, v1, st1) \<Rightarrow> Inr (Inl NO_MEMORY, v1, st1)
        | Inr (Some _, v1, st1) \<Rightarrow>
            (case arrayImpl v1 st1 of
               Inl f \<Rightarrow> Inl f
             | Inr d \<Rightarrow> Inr (Inr index, v1, set_array v1 (fill d) st1)))"

definition insertArrayAt :: "'a type_ops \<Rightarrow> VectorImpl \<Rightarrow> 'a cells \<Rightarrow> nat \<Rightarrow> nat \<Rightarrow> 'a store
    \<Rightarrow> (ssize \<times> VectorImpl \<times> 'a store) result" where
  "insertArrayAt T v array index n st = insert_with T v index n (\<lambda>d. do_copy T v d index array 0 n) st"

text \<open>\<open>vector\<close> is another object than the one that is changed, here and in \<open>merge\<close>.\<close>

definition insertVectorAt :: "'a type_ops \<Rightarrow> VectorImpl \<Rightarrow> VectorImpl \<Rightarrow> nat \<Rightarrow> 'a store
    \<Rightarrow> (ssize \<times> VectorImpl \<times> 'a store) result" where
  "insertVectorAt T v vector index st = (case arrayImpl vector st of
       Inl f \<Rightarrow> Inl f
     | Inr array \<Rightarrow> insertArrayAt T v array index (mCount vector) st)"

definition appendVector :: "'a type_ops \<Rightarrow> VectorImpl \<Rightarrow> VectorImpl \<Rightarrow> 'a store
    \<Rightarrow> (ssize \<times> VectorImpl \<times> 'a store) result" where
  "appendVector T v vector st = insertVectorAt T v vector (mCount v) st"

definition appendArray :: "'a type_ops \<Rightarrow> VectorImpl \<Rightarrow> 'a cells \<Rightarrow> nat \<Rightarrow> 'a store
    \<Rightarrow> (ssize \<times> VectorImpl \<times> 'a store) result" where
  "appendArray T v array n st = insertArrayAt T v array (mCount v) n st"

definition insertAt :: "'a type_ops \<Rightarrow> VectorImpl \<Rightarrow> 'a option \<Rightarrow> nat \<Rightarrow> nat \<Rightarrow> 'a store
    \<Rightarrow> (ssize \<times> VectorImpl \<times> 'a store) result" where
  "insertAt T v item index numItems st =
     insert_with T v index numItems
       (\<lambda>d. case item of Some x \<Rightarrow> t_splat T d index x numItems | None \<Rightarrow> do_construct T v d index numItems) st"

definition push :: "'a type_ops \<Rightarrow> VectorImpl \<Rightarrow> 'a option \<Rightarrow> 'a store \<Rightarrow> (ssize \<times> VectorImpl \<times> 'a store) result" where
  "push T v item st = insertAt T v item (mCount v) 1 st"

definition removeItemsAt :: "'a type_ops \<Rightarrow> VectorImpl \<Rightarrow> nat \<Rightarrow> nat \<Rightarrow> 'a store
    \<Rightarrow> (ssize \<times> VectorImpl \<times> 'a store) result" where
  "removeItemsAt T v index count st =
     (if (index + count) mod 2 ^ 32 > mCount v then Inr (Inl BAD_VALUE, v, st)
      else map_sum id (Pair (Inr index)) (shrink T v index count st))"

definition pop :: "'a type_ops \<Rightarrow> VectorImpl \<Rightarrow> 'a store \<Rightarrow> (VectorImpl \<times> 'a store) result" where
  "pop T v st = (if mCount v \<noteq> 0 then map_sum id snd (removeItemsAt T v (mCount v - 1) 1 st) else Inr (v, st))"

definition clear :: "'a type_ops \<Rightarrow> VectorImpl \<Rightarrow> 'a store \<Rightarrow> (VectorImpl \<times> 'a store) result" where
  "clear T v st = shrink T v 0 (mCount v) st"

definition finish_vector :: "'a type_ops \<Rightarrow> VectorImpl \<Rightarrow> 'a store \<Rightarrow> (VectorImpl \<times> 'a store) result" where
  "finish_vector T v st = map_sum id (Pair (v\<lparr>mStorage := 0, mCount := 0\<rparr>)) (release_storage T v st)"

definition replaceAt :: "'a type_ops \<Rightarrow> VectorImpl \<Rightarrow> 'a option \<Rightarrow> nat \<Rightarrow> 'a store
    \<Rightarrow> (ssize \<times> VectorImpl \<times> 'a store) result" where
  "replaceAt T v prototype index st =
     (if index \<ge> mCount v then Inr (Inl BAD_INDEX, v, st)
      else case editItemLocation T v index st of
          Inl f \<Rightarrow> Inl f
        | Inr (None, v1, st1) \<Rightarrow> Inr (Inl NO_MEMORY, v1, st1)
        | Inr (Some i, v1, st1) \<Rightarrow>
            (case arrayImpl v1 st1 of
               Inl f \<Rightarrow> Inl f
             | Inr d \<Rightarrow>
                 let d1 = do_destroy T v d i 1;
                     d2 = (case prototype of None \<Rightarrow> do_construct T v d1 i 1 | Some x \<Rightarrow> do_copy T v d1 i [Some x] 0 1)
                 in Inr (Inr index, v1, set_array v1 d2 st1)))"

definition setCapacity :: "'a type_ops \<Rightarrow> VectorImpl \<Rightarrow> nat \<Rightarrow> 'a store \<Rightarrow> (ssize \<times> VectorImpl \<times> 'a store) result" where
  "setCapacity T v new_capacity st =
     (if new_capacity \<le> mCount v then map_sum id (\<lambda>c. (Inr c, v, st)) (capacity v st)
      else case safe (new_capacity * mItemSize v) of
          Inl f \<Rightarrow> Inl f
        | Inr sz \<Rightarrow>
            (case alloc T (mItemSize v) sz st of
               Inl f \<Rightarrow> Inl f
             | Inr (n, st1) \<Rightarrow>
                 if n = 0 then Inr (Inl NO_MEMORY, v, st1)
                 else (case arrayImpl v st1 of
                     Inl f \<Rightarrow> Inl f
                   | Inr old \<Rightarrow>
                       map_sum id (Pair (Inr new_capacity)) (adopt T v n (\<lambda>d. do_copy T v d 0 old 0 (mCount v)) st1))))"

definition resize :: "'a type_ops \<Rightarrow> VectorImpl \<Rightarrow> nat \<Rightarrow> 'a store \<Rightarrow> (ssize \<times> VectorImpl \<times> 'a store) result" where
  "resize T v sz st =
     map_sum id (\<lambda>(r, v1, st1). (case r of Inl e \<Rightarrow> Inl e | Inr _ \<Rightarrow> Inr sz, v1, st1))
       (if sz > mCount v then insertAt T v None (mCount v) (sz - mCount v) st
        else if sz < mCount v then removeItemsAt T v sz (mCount v - sz) st
        else Inr (Inr 0, v, st))"

section \<open>Sorting\<close>

text \<open>An item of an area.\<close>

definition item_at :: "'a cells \<Rightarrow> nat \<Rightarrow> 'a result" where
  "item_at d i = (if i < length d then (case d ! i of Some x \<Rightarrow> Inr x | None \<Rightarrow> Inl BadCast) else Inl OutOfBounds)"

text \<open>Overwriting the item at \<open>i\<close> by that of another area.\<close>

definition replace_item :: "'a type_ops \<Rightarrow> VectorImpl \<Rightarrow> 'a cells \<Rightarrow> nat \<Rightarrow> 'a cells \<Rightarrow> nat \<Rightarrow> 'a cells" where
  "replace_item T v d i src j = do_copy T v (do_destroy T v d i 1) i src j 1"

text \<open>The inner loop: items move up from \<open>j\<close> until the place of \<open>temp\<close> is found.\<close>

fun sort_shift :: "'a type_ops \<Rightarrow> VectorImpl \<Rightarrow> ('a \<Rightarrow> 'a \<Rightarrow> int) \<Rightarrow> 'a cells \<Rightarrow> nat \<Rightarrow> 'a cells \<Rightarrow> 'a cells result" where
  "sort_shift T v cmp temp 0 d =
     (let d1 = replace_item T v d 1 d 0 in Inr (replace_item T v d1 0 temp 0))"
| "sort_shift T v cmp temp (Suc j) d =
     (let d1 = replace_item T v d (Suc (Suc j)) d (Suc j) in
      case (item_at d1 j, item_at temp 0) of
        (Inr x, Inr y) \<Rightarrow>
          if cmp x y > 0 then sort_shift T v cmp temp j d1
          else Inr (replace_item T v d1 (Suc j) temp 0)
      | (Inl f, _) \<Rightarrow> Inl f
      | (_, Inl f) \<Rightarrow> Inl f)"

text \<open>
  The outer loop over the \<open>n\<close> positions from \<open>i\<close> on. \<open>temp\<close> is the item that is saved, \<open>None\<close> as long as
  the array has not had to be changed.
\<close>

fun sort_loop :: "'a type_ops \<Rightarrow> ('a \<Rightarrow> 'a \<Rightarrow> int) \<Rightarrow> nat \<Rightarrow> nat \<Rightarrow> 'a cells option \<Rightarrow> VectorImpl \<Rightarrow> 'a store
    \<Rightarrow> (status option \<times> VectorImpl \<times> 'a store) result" where
  "sort_loop T cmp 0 i temp v st = Inr (None, v, st)"
| "sort_loop T cmp (Suc n) i temp v st =
     (case arrayImpl v st of
        Inl f \<Rightarrow> Inl f
      | Inr d \<Rightarrow>
        (case (item_at d (i - 1), item_at d i) of
           (Inr cur, Inr item) \<Rightarrow>
             if cmp cur item > 0 then
               (case (case temp of
                        None \<Rightarrow>
                          (case editArrayImpl T v st of
                             Inl f \<Rightarrow> Inl f
                           | Inr (v1, st1) \<Rightarrow>
                               if malloc_fails st1 \<noteq> [] \<and> hd (malloc_fails st1)
                               then Inr (None, v1, st1\<lparr>malloc_fails := tl (malloc_fails st1)\<rparr>)
                               else Inr (Some [None], v1, st1\<lparr>malloc_fails := tl (malloc_fails st1)\<rparr>))
                      | Some t \<Rightarrow> Inr (Some (do_destroy T v t 0 1), v, st)) of
                  Inl f \<Rightarrow> Inl f
                | Inr (None, v1, st1) \<Rightarrow> Inr (Some NO_MEMORY, v1, st1)
                | Inr (Some t, v1, st1) \<Rightarrow>
                    (case arrayImpl v1 st1 of
                       Inl f \<Rightarrow> Inl f
                     | Inr d1 \<Rightarrow>
                         (let t1 = do_copy T v1 t 0 d1 i 1 in
                          case sort_shift T v1 cmp t1 (i - 1) d1 of
                            Inl f \<Rightarrow> Inl f
                          | Inr d2 \<Rightarrow> sort_loop T cmp n (Suc i) (Some t1) v1 (set_array v1 d2 st1))))
             else sort_loop T cmp n (Suc i) temp v st
         | (Inl f, _) \<Rightarrow> Inl f
         | (_, Inl f) \<Rightarrow> Inl f))"

definition sort_vector :: "'a type_ops \<Rightarrow> ('a \<Rightarrow> 'a \<Rightarrow> int) \<Rightarrow> VectorImpl \<Rightarrow> 'a store
    \<Rightarrow> (status option \<times> VectorImpl \<times> 'a store) result" where
  "sort_vector T cmp v st = (if mCount v > 1 then sort_loop T cmp (mCount v - 1) 1 None v st else Inr (None, v, st))"

section \<open>Sorted vectors\<close>

text \<open>The binary search: the index of an equal item, if there is one, and the place in the order.\<close>

function index_search :: "('a \<Rightarrow> 'a \<Rightarrow> int) \<Rightarrow> 'a cells \<Rightarrow> 'a \<Rightarrow> int \<Rightarrow> int \<Rightarrow> (ssize \<times> nat) result" where
  "index_search cmp d item l h =
     (if l \<le> h then
        let mid = l + (h - l) div 2 in
        case item_at d (nat mid) of
          Inl f \<Rightarrow> Inl f
        | Inr cur \<Rightarrow>
            let c = cmp cur item in
            if c = 0 then Inr (Inr (nat mid), nat mid)
            else if c < 0 then index_search cmp d item (mid + 1) h
            else index_search cmp d item l (mid - 1)
      else Inr (Inl NAME_NOT_FOUND, nat l))"
  by pat_completeness auto
termination by (relation "measure (\<lambda>(cmp, d, item, l, h). nat (h - l + 1))") auto

declare index_search.simps [simp del]

definition indexOrderOf :: "'a type_ops \<Rightarrow> VectorImpl \<Rightarrow> 'a \<Rightarrow> 'a store \<Rightarrow> (ssize \<times> nat) result" where
  "indexOrderOf T v item st = (case arrayImpl v st of
       Inl f \<Rightarrow> Inl f
     | Inr d \<Rightarrow> index_search (t_compare T) d item 0 (int (mCount v) - 1))"

definition indexOf :: "'a type_ops \<Rightarrow> VectorImpl \<Rightarrow> 'a \<Rightarrow> 'a store \<Rightarrow> ssize result" where
  "indexOf T v item st = map_sum id fst (indexOrderOf T v item st)"

definition orderOf :: "'a type_ops \<Rightarrow> VectorImpl \<Rightarrow> 'a \<Rightarrow> 'a store \<Rightarrow> nat result" where
  "orderOf T v item st = map_sum id snd (indexOrderOf T v item st)"

definition sorted_add :: "'a type_ops \<Rightarrow> VectorImpl \<Rightarrow> 'a \<Rightarrow> 'a store \<Rightarrow> (ssize \<times> VectorImpl \<times> 'a store) result" where
  "sorted_add T v item st = (case indexOrderOf T v item st of
       Inl f \<Rightarrow> Inl f
     | Inr (Inl _, order) \<Rightarrow> insertAt T v (Some item) order 1 st
     | Inr (Inr index, _) \<Rightarrow> replaceAt T v (Some item) index st)"

definition sorted_remove :: "'a type_ops \<Rightarrow> VectorImpl \<Rightarrow> 'a \<Rightarrow> 'a store \<Rightarrow> (ssize \<times> VectorImpl \<times> 'a store) result" where
  "sorted_remove T v item st = (case indexOf T v item st of
       Inl f \<Rightarrow> Inl f
     | Inr (Inl e) \<Rightarrow> Inr (Inl e, v, st)
     | Inr (Inr i) \<Rightarrow> map_sum id (\<lambda>(_, v1, st1). (Inr i, v1, st1)) (removeItemsAt T v i 1 st))"

text \<open>Adding the items of an array one by one; the result is \<open>NO_ERROR\<close> or the first error.\<close>

fun merge_items :: "'a type_ops \<Rightarrow> 'a cells \<Rightarrow> VectorImpl \<Rightarrow> 'a store \<Rightarrow> (ssize \<times> VectorImpl \<times> 'a store) result" where
  "merge_items T [] v st = Inr (Inr 0, v, st)"
| "merge_items T (x # xs) v st = (case x of
       None \<Rightarrow> Inl BadCast
     | Some item \<Rightarrow>
         (case sorted_add T v item st of
            Inl f \<Rightarrow> Inl f
          | Inr (Inl e, v1, st1) \<Rightarrow> Inr (Inl e, v1, st1)
          | Inr (Inr _, v1, st1) \<Rightarrow> merge_items T xs v1 st1))"

definition merge_vector :: "'a type_ops \<Rightarrow> VectorImpl \<Rightarrow> VectorImpl \<Rightarrow> 'a store
    \<Rightarrow> (ssize \<times> VectorImpl \<times> 'a store) result" where
  "merge_vector T v vector st = (case arrayImpl vector st of
       Inl f \<Rightarrow> Inl f
     | Inr buffer \<Rightarrow> merge_items T (take (mCount vector) buffer) v st)"

text \<open>The item at a position that may be a null pointer.\<close>

definition pointed :: "'a cells \<Rightarrow> nat option \<Rightarrow> 'a result" where
  "pointed d p = (case p of None \<Rightarrow> Inl NullDeref | Some i \<Rightarrow> item_at d i)"

definition first_item :: "VectorImpl \<Rightarrow> 'a store \<Rightarrow> 'a result" where
  "first_item v st = (case arrayImpl v st of
       Inl f \<Rightarrow> Inl f
     | Inr d \<Rightarrow> pointed d (if mStorage v = 0 then None else Some 0))"

definition last_item :: "VectorImpl \<Rightarrow> 'a store \<Rightarrow> 'a result" where
  "last_item v st = (case (arrayImpl v st, itemLocation v st (if mCount v = 0 then SIZE_MAX else mCount v - 1)) of
       (Inr d, Inr p) \<Rightarrow> pointed d p
     | (Inl f, _) \<Rightarrow> Inl f
     | (_, Inl f) \<Rightarrow> Inl f)"

definition merge_sorted :: "'a type_ops \<Rightarrow> VectorImpl \<Rightarrow> VectorImpl \<Rightarrow> 'a store
    \<Rightarrow> (ssize \<times> VectorImpl \<times> 'a store) result" where
  "merge_sorted T v vector st =
     (if mCount vector = 0 then Inr (Inr 0, v, st)
      else case (last_item vector st, first_item v st) of
          (Inr a, Inr b) \<Rightarrow>
            if t_compare T a b \<le> 0 then insertVectorAt T v vector 0 st
            else
              (case (first_item vector st, last_item v st) of
                 (Inr a, Inr b) \<Rightarrow>
                   if t_compare T a b \<ge> 0 then appendVector T v vector st
                   else merge_vector T v vector st
               | (Inl f, _) \<Rightarrow> Inl f
               | (_, Inl f) \<Rightarrow> Inl f)
        | (Inl f, _) \<Rightarrow> Inl f
        | (_, Inl f) \<Rightarrow> Inl f)"

end
