(* ===== verification/Shim_Vector_Props.thy ===== *)
theory Shim_Vector_Props
  imports Shim_Vector
begin

text \<open>
  Correctness of the vectors: under the documented behaviour of the class of the items, the operations
  on a vector are those on lists, and vectors that share a buffer do not see each other's
  changes. The binary search of sorted vectors finds what a linear search finds, and \<open>sort\<close> is a
  stable sort.
\<close>

section \<open>The class of the items\<close>

lemma length_put [simp]: "i + length xs \<le> length d \<Longrightarrow> length (put d i xs) = length d"
  by (simp add: put_def)

lemma take_put [simp]: "i \<le> length d \<Longrightarrow> take i (put d i xs) = take i d"
  by (simp add: put_def)

lemma drop_put: "i \<le> length d \<Longrightarrow> drop (i + length xs) (put d i xs) = drop (i + length xs) d"
  by (simp add: put_def)

lemma put_Nil [simp]: "put d i [] = d"
  by (simp add: put_def)

lemma put_all: "length xs \<le> length d \<Longrightarrow> take (length xs) (put d 0 xs) = xs"
  by (simp add: put_def)

lemma take_drop_put: "i \<le> length d \<Longrightarrow> take (length xs) (drop i (put d i xs)) = xs"
  by (simp add: put_def)

text \<open>The new items of an array, after the first \<open>i\<close>.\<close>

lemma take_put_more:
  "i \<le> length d \<Longrightarrow> i + length xs \<le> k \<Longrightarrow> take k (put d i xs) = take i d @ xs @ take (k - i - length xs) (drop (i + length xs) d)"
  by (simp add: put_def take_append)

text \<open>
  What the code relies on in the class of the items: copies are equal to their originals, and each function
  works on the stretch it is given. Where a stretch was moved away from, nothing is said.
\<close>

locale item_ops =
  fixes T :: "'a type_ops"
    and dflt :: 'a
  assumes construct: "i + n \<le> length d \<Longrightarrow> t_construct T d i n = put d i (replicate n (Some dflt))"
    and destroy: "i + n \<le> length d \<Longrightarrow> t_destroy T d i n = put d i (replicate n None)"
    and copy: "i + n \<le> length dst \<Longrightarrow> j + n \<le> length src \<Longrightarrow> None \<notin> set (take n (drop j src)) \<Longrightarrow>
      t_copy T dst i src j n = put dst i (take n (drop j src))"
    and splat: "i + n \<le> length d \<Longrightarrow> t_splat T d i x n = put d i (replicate n (Some x))"
    and move_forward: "from \<le> to \<Longrightarrow> to + n \<le> length d \<Longrightarrow> None \<notin> set (take n (drop from d)) \<Longrightarrow>
      \<exists>gap. length gap = to - from \<and>
        t_move_forward T d to from n = take from d @ gap @ take n (drop from d) @ drop (to + n) d"
    and move_backward: "to \<le> from \<Longrightarrow> from + n \<le> length d \<Longrightarrow> None \<notin> set (take n (drop from d)) \<Longrightarrow>
      \<exists>rest. length rest = length d - to - n \<and>
        t_move_backward T d to from n = take to d @ take n (drop from d) @ rest"
begin

lemma do_copy_put:
  "i + n \<le> length dst \<Longrightarrow> j + n \<le> length src \<Longrightarrow> None \<notin> set (take n (drop j src)) \<Longrightarrow>
    do_copy T v dst i src j n = put dst i (take n (drop j src))"
  by (simp add: do_copy_def copy memcpy_items_def)

lemma do_destroy_length: "i + n \<le> length d \<Longrightarrow> length (do_destroy T v d i n) = length d"
  by (simp add: do_destroy_def destroy)

lemma do_destroy_take: "i + n \<le> length d \<Longrightarrow> take i (do_destroy T v d i n) = take i d"
  by (simp add: do_destroy_def destroy)

lemma do_destroy_drop: "i + n \<le> length d \<Longrightarrow> drop (i + n) (do_destroy T v d i n) = drop (i + n) d"
  using drop_put[of i d "replicate n None"] by (simp add: do_destroy_def destroy)

end

text \<open>Room for \<open>n\<close> more items can be asked for without an overflow; so can the smallest block.\<close>

definition grow_fits :: "'a type_ops \<Rightarrow> VectorImpl \<Rightarrow> nat \<Rightarrow> bool" where
  "grow_fits T v n \<longleftrightarrow> max kMinVectorCapacity (mCount v + n + (mCount v + n) div 2 + 1) * mItemSize v
     < SIZE_MAX - sizeof_SharedBuffer T"

definition shrink_fits :: "'a type_ops \<Rightarrow> VectorImpl \<Rightarrow> bool" where
  "shrink_fits T v \<longleftrightarrow> kMinVectorCapacity * mItemSize v < SIZE_MAX - sizeof_SharedBuffer T"

section \<open>Ownership\<close>

definition buf_ok :: "'a type_ops \<Rightarrow> nat \<Rightarrow> 'a SharedBuffer \<Rightarrow> bool" where
  "buf_ok T isz b \<longleftrightarrow> length (sb_data b) = mSize b div isz \<and> mSize b < SIZE_MAX - sizeof_SharedBuffer T"

text \<open>The data area a vector points at.\<close>

definition area :: "VectorImpl \<Rightarrow> 'a store \<Rightarrow> 'a cells" where
  "area v st = (case bufs st (mStorage v) of None \<Rightarrow> [] | Some b \<Rightarrow> sb_data b)"

text \<open>A vector with its storage, apart from what the slots hold.\<close>

definition placed :: "VectorImpl \<Rightarrow> 'a store \<Rightarrow> bool" where
  "placed v st \<longleftrightarrow> (if mStorage v = 0 then mCount v = 0
     else \<exists>b. bufs st (mStorage v) = Some b \<and> mCount v \<le> length (sb_data b))"

text \<open>
  \<open>own T v us st\<close>: the vectors \<open>v\<close> and \<open>us\<close>, of one type, are all the vectors that use the store, and every
  buffer counts those that point at it.
\<close>

definition own :: "'a type_ops \<Rightarrow> VectorImpl \<Rightarrow> VectorImpl list \<Rightarrow> 'a store \<Rightarrow> bool" where
  "own T v us st \<longleftrightarrow> 0 < mItemSize v \<and> 0 < next_buf st \<and> bufs st 0 = None \<and>
     (\<forall>a b. bufs st a = Some b \<longrightarrow> a < next_buf st \<and> 0 < mRefs b \<and>
        mRefs b = count_list (map mStorage (v # us)) a \<and> buf_ok T (mItemSize v) b) \<and>
     placed v st \<and> (\<forall>u \<in> set us. placed u st)"

definition filled :: "VectorImpl \<Rightarrow> 'a store \<Rightarrow> bool" where
  "filled v st \<longleftrightarrow> None \<notin> set (take (mCount v) (area v st))"

text \<open>The list a vector stands for.\<close>

definition items :: "VectorImpl \<Rightarrow> 'a store \<Rightarrow> 'a list" where
  "items v st = map the (take (mCount v) (area v st))"

definition same_areas :: "VectorImpl list \<Rightarrow> 'a store \<Rightarrow> 'a store \<Rightarrow> bool" where
  "same_areas us st st' \<longleftrightarrow> (\<forall>u \<in> set us. area u st' = area u st)"

lemma ownD:
  assumes "own T v us st"
  shows "0 < mItemSize v" "0 < next_buf st" "bufs st 0 = None" "placed v st" "\<forall>u \<in> set us. placed u st"
    "bufs st a = Some b \<Longrightarrow> a < next_buf st" "bufs st a = Some b \<Longrightarrow> 0 < mRefs b"
    "bufs st a = Some b \<Longrightarrow> mRefs b = count_list (map mStorage (v # us)) a"
    "bufs st a = Some b \<Longrightarrow> buf_ok T (mItemSize v) b"
  using assms unfolding own_def by blast+

lemma ownI:
  assumes "0 < mItemSize v" "0 < next_buf st" "bufs st 0 = None" "placed v st" "\<And>u. u \<in> set us \<Longrightarrow> placed u st"
    "\<And>a b. bufs st a = Some b \<Longrightarrow> a < next_buf st \<and> 0 < mRefs b \<and>
        mRefs b = count_list (map mStorage (v # us)) a \<and> buf_ok T (mItemSize v) b"
  shows "own T v us st"
  unfolding own_def using assms by blast

lemma own_array: "own T v us st \<Longrightarrow> arrayImpl v st = Inr (area v st)"
  unfolding own_def placed_def arrayImpl_def deref_def area_def by (auto split: if_splits)

lemma own_area_length: "own T v us st \<Longrightarrow> mCount v \<le> length (area v st)"
  unfolding own_def placed_def area_def by (auto split: if_splits)

lemma own_capacity: "own T v us st \<Longrightarrow> capacity v st = Inr (length (area v st))"
  unfolding own_def placed_def capacity_def deref_def area_def buf_ok_def by (auto split: if_splits)

lemma length_items: "own T v us st \<Longrightarrow> length (items v st) = mCount v"
  using own_area_length[of T v us st] by (simp add: items_def)

lemma filled_items: "filled v st \<Longrightarrow> take (mCount v) (area v st) = map Some (items v st)"
proof -
  assume "filled v st"
  then have "\<forall>x \<in> set (take (mCount v) (area v st)). x \<noteq> None" unfolding filled_def by metis
  then have "map (Some \<circ> the) (take (mCount v) (area v st)) = take (mCount v) (area v st)"
    by (intro map_idI) auto
  then show ?thesis by (simp add: items_def)
qed

lemma itemsI: "take (mCount v) (area v st) = map Some xs \<Longrightarrow> items v st = xs \<and> filled v st"
  by (auto simp: items_def filled_def comp_def)

text \<open>Giving up a reference.\<close>

definition drop_ref :: "'a SharedBuffer option \<Rightarrow> 'a SharedBuffer option" where
  "drop_ref b = (case b of None \<Rightarrow> None | Some b \<Rightarrow> if mRefs b = 1 then None else Some (b\<lparr>mRefs := mRefs b - 1\<rparr>))"

lemma release_storage_eq:
  assumes "mStorage v = 0 \<Longrightarrow> bufs st 0 = None" "mStorage v \<noteq> 0 \<Longrightarrow> bufs st (mStorage v) \<noteq> None"
    "\<And>b. bufs st (mStorage v) = Some b \<Longrightarrow> 0 < mRefs b"
  shows "release_storage T v st = Inr (st\<lparr>bufs := (bufs st)(mStorage v := drop_ref (bufs st (mStorage v)))\<rparr>)"
proof (cases "mStorage v = 0")
  case True
  then show ?thesis using assms(1) by (simp add: release_storage_def drop_ref_def fun_upd_idem)
next
  case False
  then obtain b where b: "bufs st (mStorage v) = Some b" "0 < mRefs b" using assms(2,3) by blast
  show ?thesis
  proof (cases "mRefs b = 1")
    case True
    then show ?thesis using b False
      by (simp add: release_storage_def release_def deref_def onlyOwner_def set_buf_def arrayImpl_def set_array_def
        dealloc_def drop_ref_def)
  next
    case no: False
    then show ?thesis using b False
      by (simp add: release_storage_def release_def deref_def onlyOwner_def set_buf_def drop_ref_def Let_def)
  qed
qed

text \<open>The storage of a vector is given up for a new buffer.\<close>

lemma own_replace:
  assumes "own T v us st" "mRefs nb = 1" "buf_ok T (mItemSize v) nb" "c \<le> length (sb_data nb)"
    and st': "bufs st' = (bufs st)(next_buf st \<mapsto> nb, mStorage v := drop_ref (bufs st (mStorage v)))"
      "next_buf st' = Suc (next_buf st)"
  defines "v' \<equiv> v\<lparr>mStorage := next_buf st, mCount := c\<rparr>"
  shows "own T v' us st'" "same_areas us st st'" "area v' st' = sb_data nb" "bufs st' (mStorage v') = Some nb"
proof -
  note o = ownD[OF assms(1)]
  let ?n = "next_buf st" and ?a = "mStorage v"
  have fresh: "bufs st ?n = None" using o(6) by (metis less_irrefl not_Some_eq)
  have us: "mStorage u \<noteq> ?n" if "u \<in> set us" for u
    using o(5) that fresh o(2) by (fastforce simp: placed_def split: if_splits)
  have v: "?a \<noteq> ?n" using o(4) fresh o(2) by (auto simp: placed_def split: if_splits)
  have cn: "count_list (map mStorage us) ?n = 0" using us by (simp add: count_list_0_iff image_iff) metis
  have b: "bufs st' x = (if x = ?n then Some nb else if x = ?a then drop_ref (bufs st ?a) else bufs st x)" for x
    using v by (simp add: st'(1))
  show bn: "bufs st' (mStorage v') = Some nb" by (simp add: v'_def b)
  have kept: "\<exists>b'. bufs st' (mStorage u) = Some b' \<and> sb_data b' = sb_data b"
    if "u \<in> set us" "bufs st (mStorage u) = Some b" for u b
  proof (cases "mStorage u = ?a")
    case True
    have "1 \<le> count_list (map mStorage us) ?a" using that(1) True
      by (metis count_list_0_iff image_eqI less_one linorder_not_less list.set_map)
    then have "mRefs b \<noteq> 1" using o(8)[OF that(2)] True by simp
    then show ?thesis using that(2) True us[OF that(1)] by (simp add: b drop_ref_def)
  qed (use that us in \<open>simp add: b\<close>)
  have places: "placed u st'" "area u st' = area u st" if "u \<in> set us" for u
  proof -
    have p: "placed u st" using o(5) that by blast
    show "placed u st'" using p kept[OF that] by (fastforce simp: placed_def split: if_splits)
    show "area u st' = area u st"
    proof (cases "mStorage u = 0")
      case True
      have "bufs st' 0 = None" using o(2,3) by (auto simp: b drop_ref_def)
      then show ?thesis using True o(3) by (simp add: area_def)
    next
      case False
      then obtain b where "bufs st (mStorage u) = Some b" using p by (auto simp: placed_def)
      then show ?thesis using kept[OF that] by (fastforce simp: area_def)
    qed
  qed
  show "same_areas us st st'" using places(2) by (simp add: same_areas_def)
  show "area v' st' = sb_data nb" using bn by (simp add: area_def)
  have refs: "x < next_buf st' \<and> 0 < mRefs y \<and> mRefs y = count_list (map mStorage (v' # us)) x \<and> buf_ok T (mItemSize v') y"
    if "bufs st' x = Some y" for x y
  proof (cases "x = ?n")
    case True
    then show ?thesis using that assms(2,3) cn b[of x] by (simp add: v'_def st'(2))
  next
    case x: False
    show ?thesis
    proof (cases "x = ?a")
      case True
      then have "drop_ref (bufs st ?a) = Some y" using \<open>bufs st' x = Some y\<close> x by (simp add: b)
      then obtain b0 where b0: "bufs st ?a = Some b0" "mRefs b0 \<noteq> 1" "y = b0\<lparr>mRefs := mRefs b0 - 1\<rparr>"
        unfolding drop_ref_def by (auto split: option.splits if_splits)
      then show ?thesis using o(6,7,8,9)[OF b0(1)] True x by (simp add: v'_def st'(2) buf_ok_def)
    next
      case False
      then have "bufs st x = Some y" using that x b[of x] by simp
      from o(6,7,8,9)[OF this] show ?thesis using False x by (simp add: v'_def st'(2))
    qed
  qed
  show "own T v' us st'"
  proof (rule ownI)
    show "bufs st' 0 = None" using o(2,3) by (auto simp: b drop_ref_def)
    show "placed v' st'" using bn assms(4) o(2) by (simp add: placed_def v'_def)
    show "0 < mItemSize v'" "0 < next_buf st'" using o(1) st'(2) by (simp_all add: v'_def)
  qed (fact places(1) refs)+
qed

text \<open>The only owner changes the items in place.\<close>

lemma own_write:
  assumes "own T v us st" "bufs st (mStorage v) = Some b" "mRefs b = 1" "length d = length (sb_data b)" "c \<le> length d"
  defines "v' \<equiv> v\<lparr>mCount := c\<rparr>" and "st' \<equiv> set_array v d st"
  shows "own T v' us st'" "same_areas us st st'" "area v' st' = d" "bufs st' (mStorage v') = Some (b\<lparr>sb_data := d\<rparr>)"
proof -
  note o = ownD[OF assms(1)]
  let ?a = "mStorage v"
  have bufs: "bufs st' x = (if x = ?a then Some (b\<lparr>sb_data := d\<rparr>) else bufs st x)" "next_buf st' = next_buf st" for x
    using assms(2) by (simp_all add: st'_def set_array_def)
  have a: "?a \<noteq> 0" using assms(2) o(3) by (metis option.distinct(1))
  have "count_list (map mStorage us) ?a = 0" using o(8)[OF assms(2)] assms(3) by simp
  then have us: "mStorage u \<noteq> ?a" if "u \<in> set us" for u
    using that by (simp add: count_list_0_iff) (metis image_eqI)
  show "area v' st' = d" "bufs st' (mStorage v') = Some (b\<lparr>sb_data := d\<rparr>)" by (simp_all add: area_def v'_def bufs)
  show "same_areas us st st'" using us by (simp add: same_areas_def area_def bufs)
  have others: "placed u st'" if "u \<in> set us" for u using o(5) that us[OF that] by (simp add: placed_def bufs)
  have refs: "x < next_buf st' \<and> 0 < mRefs y \<and> mRefs y = count_list (map mStorage (v' # us)) x \<and> buf_ok T (mItemSize v') y"
    if "bufs st' x = Some y" for x y
  proof (cases "x = ?a")
    case True
    then show ?thesis using that o(6,7,8,9)[OF assms(2)] assms(4) by (auto simp: bufs v'_def buf_ok_def)
  next
    case False
    then have "bufs st x = Some y" using that by (simp add: bufs)
    from o(6,7,8,9)[OF this] show ?thesis by (simp add: bufs v'_def)
  qed
  show "own T v' us st'"
  proof (rule ownI)
    show "bufs st' 0 = None" using a o(3) by (simp add: bufs)
    show "placed v' st'" using a assms(5) by (simp add: placed_def v'_def bufs)
    show "0 < mItemSize v'" "0 < next_buf st'" using o(1,2) by (simp_all add: v'_def bufs)
  qed (fact others refs)+
qed

section \<open>Allocation\<close>

lemma new_block_cases:
  obtains (fails) "new_block b st = (0, st\<lparr>malloc_fails := tl (malloc_fails st)\<rparr>)" "malloc_fails st \<noteq> []"
  | (works) "new_block b st = (next_buf st, (set_buf (next_buf st) (Some b)
      (st\<lparr>malloc_fails := tl (malloc_fails st)\<rparr>))\<lparr>next_buf := Suc (next_buf st)\<rparr>)"
  by (cases "malloc_fails st \<noteq> [] \<and> hd (malloc_fails st)") (auto simp: new_block_def Let_def)

text \<open>The effect of allocating a block on the state of the vectors is none.\<close>

lemma own_cong: "bufs st' = bufs st \<Longrightarrow> next_buf st' = next_buf st \<Longrightarrow> own T v us st' = own T v us st"
  unfolding own_def placed_def by (simp only:)

lemma own_fails: "own T v us st \<Longrightarrow> own T v us (st\<lparr>malloc_fails := x\<rparr>)"
  using own_cong[of "st\<lparr>malloc_fails := x\<rparr>" st] by simp

lemma area_fails [simp]: "area v (st\<lparr>malloc_fails := x\<rparr>) = area v st"
  by (simp add: area_def)

text \<open>Where a step of an operation ends: it aborts, there is no memory, or the vector has its new area.\<close>

definition moved :: "'a type_ops \<Rightarrow> VectorImpl \<Rightarrow> VectorImpl list \<Rightarrow> 'a store \<Rightarrow> VectorImpl \<Rightarrow> 'a store \<Rightarrow> bool" where
  "moved T v us st v' st' \<longleftrightarrow> own T v' us st' \<and> same_areas us st st' \<and> mItemSize v' = mItemSize v \<and>
     mFlags v' = mFlags v \<and> (malloc_fails st = [] \<longrightarrow> malloc_fails st' = [])"

text \<open>The vector is the only owner of its buffer.\<close>

definition sole :: "VectorImpl \<Rightarrow> 'a store \<Rightarrow> bool" where
  "sole v st \<longleftrightarrow> (\<exists>b. bufs st (mStorage v) = Some b \<and> mRefs b = 1)"

lemma same_areas_refl [simp]: "same_areas us st st"
  by (simp add: same_areas_def)

lemma same_areas_trans: "same_areas us a b \<Longrightarrow> same_areas us b c \<Longrightarrow> same_areas us a c"
  by (simp add: same_areas_def)

lemma moved_refl: "own T v us st \<Longrightarrow> moved T v us st v st"
  by (simp add: moved_def)

lemma moved_trans: "moved T v us st v1 st1 \<Longrightarrow> moved T v1 us st1 v2 st2 \<Longrightarrow> moved T v us st v2 st2"
  using same_areas_trans by (auto simp: moved_def)

lemma moved_fails: "own T v us st \<Longrightarrow> moved T v us st v (st\<lparr>malloc_fails := tl (malloc_fails st)\<rparr>)"
  by (auto simp: moved_def same_areas_def own_fails)

lemma write_moved:
  assumes "own T v us st" "sole v st" "length d = length (area v st)" "c \<le> length d"
  shows "moved T v us st (v\<lparr>mCount := c\<rparr>) (set_array v d st)" "area (v\<lparr>mCount := c\<rparr>) (set_array v d st) = d"
    "sole (v\<lparr>mCount := c\<rparr>) (set_array v d st)"
proof -
  obtain b where b: "bufs st (mStorage v) = Some b" "mRefs b = 1" using assms(2) by (auto simp: sole_def)
  then have "length d = length (sb_data b)" using assms(3) by (simp add: area_def)
  note w = own_write[OF assms(1) b this assms(4)]
  show "moved T v us st (v\<lparr>mCount := c\<rparr>) (set_array v d st)" using w(1,2) by (simp add: moved_def set_array_def)
  show "area (v\<lparr>mCount := c\<rparr>) (set_array v d st) = d" by (rule w(3))
  show "sole (v\<lparr>mCount := c\<rparr>) (set_array v d st)" unfolding sole_def using w(4) b(2) by simp
qed

text \<open>A new block of the right size takes the place of the storage, filled from the old one.\<close>

lemma adopt_new:
  assumes "own T v us st" "sz < SIZE_MAX - sizeof_SharedBuffer T" "k = sz div mItemSize v"
    and len: "length (fill (replicate k None)) = k" "c \<le> k"
    and new: "new_block \<lparr>mRefs = 1, mSize = sz, sb_data = replicate k None\<rparr> st = (n, st1)" "n \<noteq> 0"
  obtains st2 where "adopt T v n fill st1 = Inr (v\<lparr>mStorage := n\<rparr>, st2)"
    "moved T v us st (v\<lparr>mStorage := n, mCount := c\<rparr>) st2" "sole (v\<lparr>mStorage := n, mCount := c\<rparr>) st2"
    "area (v\<lparr>mStorage := n, mCount := c\<rparr>) st2 = fill (replicate k None)"
proof -
  note o = ownD[OF assms(1)]
  let ?b = "\<lparr>mRefs = 1, mSize = sz, sb_data = replicate k None\<rparr>"
  have n: "n = next_buf st" and st1: "st1 = (set_buf n (Some ?b) (st\<lparr>malloc_fails := tl (malloc_fails st)\<rparr>))\<lparr>next_buf := Suc n\<rparr>"
    using new by (cases rule: new_block_cases[of ?b st]; auto)+
  let ?nb = "?b\<lparr>sb_data := fill (replicate k None)\<rparr>"
  let ?v = "v\<lparr>mStorage := n\<rparr>"
  have fresh: "bufs st n = None" using o(6) n by (metis less_irrefl not_Some_eq)
  have v: "mStorage v \<noteq> n" using o(4) fresh o(2) n by (auto simp: placed_def split: if_splits)
  have arr: "arrayImpl ?v st1 = Inr (replicate k None)"
    using o(2) n by (simp add: arrayImpl_def deref_def st1 set_buf_def)
  define s where "s = set_array ?v (fill (replicate k None)) st1"
  have sb: "bufs s = (bufs st)(n \<mapsto> ?nb)" "next_buf s = Suc n" "malloc_fails s = tl (malloc_fails st)"
    by (simp_all add: s_def set_array_def st1 set_buf_def)
  have rel: "release_storage T v s = Inr (s\<lparr>bufs := (bufs s)(mStorage v := drop_ref (bufs s (mStorage v)))\<rparr>)"
    by (rule release_storage_eq) (use o(2,3,4,7) v n in \<open>auto simp: sb placed_def split: if_splits\<close>)
  define st2 where "st2 = s\<lparr>bufs := (bufs s)(mStorage v := drop_ref (bufs s (mStorage v)))\<rparr>"
  have "bufs st2 = (bufs st)(next_buf st \<mapsto> ?nb, mStorage v := drop_ref (bufs st (mStorage v)))" "next_buf st2 = Suc (next_buf st)"
    using v n by (simp_all add: st2_def sb)
  note r = own_replace[OF assms(1) _ _ _ this, of c]
  have ok: "mRefs ?nb = 1" "buf_ok T (mItemSize v) ?nb" "c \<le> length (sb_data ?nb)"
    using assms(2,3) len by (simp_all add: buf_ok_def)
  show thesis
  proof (rule that)
    show "adopt T v n fill st1 = Inr (?v, st2)" using arr rel by (simp add: adopt_def s_def st2_def)
    show "moved T v us st (v\<lparr>mStorage := n, mCount := c\<rparr>) st2"
      using r(1,2)[OF ok] sb(3) n by (auto simp: moved_def st2_def)
    show "sole (v\<lparr>mStorage := n, mCount := c\<rparr>) st2" using r(4)[OF ok] n by (simp add: sole_def)
    show "area (v\<lparr>mStorage := n, mCount := c\<rparr>) st2 = fill (replicate k None)" using r(3)[OF ok] n by simp
  qed
qed

lemma alloc_eq:
  "sz < SIZE_MAX - sizeof_SharedBuffer T \<Longrightarrow>
    alloc T isz sz st = Inr (new_block \<lparr>mRefs = 1, mSize = sz, sb_data = replicate (sz div isz) None\<rparr> st)"
  by (simp add: alloc_def)

text \<open>Resizing: without memory nothing changes; otherwise the vector has what fits of its area to itself.\<close>

definition resized_to :: "'a type_ops \<Rightarrow> VectorImpl \<Rightarrow> VectorImpl list \<Rightarrow> 'a store \<Rightarrow> nat \<Rightarrow> nat \<Rightarrow> addr \<Rightarrow> 'a store \<Rightarrow> bool" where
  "resized_to T v us st sz c n st' \<longleftrightarrow>
     (if n = 0 then malloc_fails st \<noteq> [] \<and> moved T v us st v st' \<and> area v st' = area v st
      else moved T v us st (v\<lparr>mStorage := n, mCount := c\<rparr>) st' \<and> sole (v\<lparr>mStorage := n, mCount := c\<rparr>) st' \<and>
        area (v\<lparr>mStorage := n, mCount := c\<rparr>) st' = resized (mItemSize v) sz (area v st))"

lemma length_resized: "length (resized isz sz d) = sz div isz"
  by (simp add: resized_def)

lemma resized_fails: "malloc_fails st \<noteq> [] \<Longrightarrow> resized_to T v us (st\<lparr>malloc_fails := x\<rparr>) sz c n st' \<Longrightarrow>
  resized_to T v us st sz c n st'"
  by (auto simp: resized_to_def moved_def same_areas_def)

lemma resized_new:
  assumes "own T v us st" "bufs st (mStorage v) = Some b" "sz < SIZE_MAX - sizeof_SharedBuffer T"
    "c \<le> sz div mItemSize v" "mRefs nb = 1" "mSize nb = sz" "sb_data nb = resized (mItemSize v) sz (sb_data b)"
    "bufs st' = (bufs st)(next_buf st \<mapsto> nb, mStorage v := drop_ref (bufs st (mStorage v)))"
    "next_buf st' = Suc (next_buf st)" "malloc_fails st' = tl (malloc_fails st)"
  shows "resized_to T v us st sz c (next_buf st) st'"
proof -
  note o = ownD[OF assms(1)]
  have "buf_ok T (mItemSize v) nb" "c \<le> length (sb_data nb)"
    using assms(3,4,6,7) by (simp_all add: buf_ok_def length_resized)
  note r = own_replace[OF assms(1,5) this assms(8,9)]
  show ?thesis using r o(2) assms(2,5,7,10) by (auto simp: resized_to_def moved_def sole_def area_def)
qed

lemma copy_out_resized:
  assumes "own T v us st" "bufs st (mStorage v) = Some b" "sz < SIZE_MAX - sizeof_SharedBuffer T" "c \<le> sz div mItemSize v"
  obtains n st' where "copy_out T (mItemSize v) sz (mStorage v) b st = Inr (n, st')" "resized_to T v us st sz c n st'"
proof -
  note o = ownD[OF assms(1)]
  let ?a = "mStorage v" and ?b = "\<lparr>mRefs = 1, mSize = sz, sb_data = replicate (sz div mItemSize v) None\<rparr>"
  have a: "?a \<noteq> 0" using assms(2) o(3) by (metis option.distinct(1))
  show thesis
  proof (cases rule: new_block_cases[of ?b st])
    case fails
    then have "copy_out T (mItemSize v) sz ?a b st = Inr (0, st\<lparr>malloc_fails := tl (malloc_fails st)\<rparr>)"
      using assms(3) by (simp add: copy_out_def alloc_eq)
    moreover have "resized_to T v us st sz c 0 (st\<lparr>malloc_fails := tl (malloc_fails st)\<rparr>)"
      using fails(2) moved_fails[OF assms(1)] by (simp add: resized_to_def)
    ultimately show thesis by (rule that)
  next
    case works
    let ?n = "next_buf st" and ?nb = "\<lparr>mRefs = 1, mSize = sz, sb_data = resized (mItemSize v) sz (sb_data b)\<rparr>"
    have an: "?a \<noteq> ?n" using o(6)[OF assms(2)] by simp
    define st' where "st' = st\<lparr>bufs := (bufs st)(?n \<mapsto> ?nb, ?a := drop_ref (bufs st ?a)), next_buf := Suc ?n,
      malloc_fails := tl (malloc_fails st)\<rparr>"
    have "copy_out T (mItemSize v) sz ?a b st = Inr (?n, st')"
      using works assms(2,3) o(2) o(7)[OF assms(2)] a an
      by (simp add: copy_out_def alloc_eq release_def deref_def set_buf_def onlyOwner_def drop_ref_def Let_def st'_def)
    moreover have "resized_to T v us st sz c ?n st'"
      by (rule resized_new[OF assms, of ?nb]) (simp_all add: st'_def)
    ultimately show thesis by (rule that)
  qed
qed

lemma editResize_resized:
  assumes "own T v us st" "bufs st (mStorage v) = Some b" "sz < SIZE_MAX - sizeof_SharedBuffer T" "c \<le> sz div mItemSize v"
  obtains n st' where "editResize T (mItemSize v) sz (mStorage v) st = Inr (n, st')" "resized_to T v us st sz c n st'"
proof -
  note o = ownD[OF assms(1)]
  let ?a = "mStorage v" and ?r = "resized (mItemSize v) sz (sb_data b)"
  have a: "?a \<noteq> 0" using assms(2) o(3) by (metis option.distinct(1))
  consider "mRefs b \<noteq> 1" | "mRefs b = 1" "mSize b = sz" | "mRefs b = 1" "mSize b \<noteq> sz" by blast
  then show thesis
  proof cases
    case 1
    obtain n st' where "copy_out T (mItemSize v) sz ?a b st = Inr (n, st')" "resized_to T v us st sz c n st'"
      by (rule copy_out_resized[OF assms])
    then show thesis using that 1 a assms(2) by (simp add: editResize_def deref_def onlyOwner_def)
  next
    case 2
    have len: "length (sb_data b) = sz div mItemSize v" using o(9)[OF assms(2)] 2 by (simp add: buf_ok_def)
    then have r: "?r = sb_data b" by (simp add: resized_def)
    have "own T (v\<lparr>mCount := c\<rparr>) us st" "same_areas us st st"
      using own_write[OF assms(1,2) 2(1), of "sb_data b" c] len assms(2,4) by (simp_all add: set_array_def fun_upd_idem)
    then have "resized_to T v us st sz c ?a st" using a assms(2) 2 r
      by (simp add: resized_to_def moved_def sole_def area_def)
    moreover have "editResize T (mItemSize v) sz ?a st = Inr (?a, st)"
      using a assms(2) 2 by (simp add: editResize_def deref_def onlyOwner_def)
    ultimately show thesis using that by blast
  next
    case 3
    let ?nb = "b\<lparr>mSize := sz, sb_data := ?r\<rparr>"
    show thesis
    proof (cases rule: new_block_cases[of ?nb st])
      case fails
      let ?s = "st\<lparr>malloc_fails := tl (malloc_fails st)\<rparr>"
      have "bufs ?s ?a = Some b" using assms(2) by simp
      then obtain n st' where "copy_out T (mItemSize v) sz ?a b ?s = Inr (n, st')" "resized_to T v us ?s sz c n st'"
        by (rule copy_out_resized[OF own_fails[OF assms(1)] _ assms(3,4)])
      moreover from this(2) have "resized_to T v us st sz c n st'" by (rule resized_fails[OF fails(2)])
      ultimately show thesis using that fails 3 a assms(2,3) by (simp add: editResize_def deref_def onlyOwner_def)
    next
      case works
      define st' where "st' = st\<lparr>bufs := (bufs st)(next_buf st \<mapsto> ?nb, ?a := drop_ref (bufs st ?a)),
        next_buf := Suc (next_buf st), malloc_fails := tl (malloc_fails st)\<rparr>"
      have "editResize T (mItemSize v) sz ?a st = Inr (next_buf st, st')"
        using works 3 a assms(2,3) o(2)
        by (simp add: editResize_def deref_def onlyOwner_def set_buf_def drop_ref_def st'_def)
      moreover have "resized_to T v us st sz c (next_buf st) st'"
        by (rule resized_new[OF assms, of ?nb]) (use 3 in \<open>simp_all add: st'_def\<close>)
      ultimately show thesis by (rule that)
    qed
  qed
qed

section \<open>Growing\<close>

context item_ops
begin

lemma editArray_moved:
  assumes "own T v us st" "filled v st"
  obtains (aborts) "editArrayImpl T v st = Inl Fatal" "malloc_fails st \<noteq> []"
  | (edits) v1 st1 where "editArrayImpl T v st = Inr (v1, st1)" "moved T v us st v1 st1" "mCount v1 = mCount v"
      "length (area v1 st1) = length (area v st)" "take (mCount v) (area v1 st1) = take (mCount v) (area v st)"
      "mStorage v \<noteq> 0 \<Longrightarrow> sole v1 st1 \<and> mStorage v1 \<noteq> 0" "mStorage v = 0 \<Longrightarrow> mStorage v1 = 0"
proof -
  note o = ownD[OF assms(1)]
  let ?a = "mStorage v"
  consider "?a = 0" | b where "?a \<noteq> 0" "bufs st ?a = Some b" "mRefs b = 1" | b where "?a \<noteq> 0" "bufs st ?a = Some b" "mRefs b \<noteq> 1"
    using o(4) by (auto simp: placed_def split: if_splits)
  then show thesis
  proof cases
    case 1
    then show thesis using edits[of v st] moved_refl[OF assms(1)] by (simp add: editArrayImpl_def)
  next
    case 2
    then show thesis using edits[of v st] moved_refl[OF assms(1)]
      by (simp add: editArrayImpl_def deref_def attemptEdit_def onlyOwner_def sole_def)
  next
    case 3
    let ?k = "mSize b div mItemSize v" and ?d = "sb_data b" and ?c = "mCount v"
    let ?fill = "\<lambda>d. do_copy T v d 0 ?d 0 ?c"
    have k: "length ?d = ?k" "mSize b < SIZE_MAX - sizeof_SharedBuffer T" using o(9)[OF 3(2)] by (simp_all add: buf_ok_def)
    have area: "area v st = ?d" using 3(2) by (simp add: area_def)
    have c: "?c \<le> ?k" using own_area_length[OF assms(1)] area k by simp
    have fill: "?fill (replicate ?k None) = put (replicate ?k None) 0 (take ?c ?d)"
      using do_copy_put[of 0 ?c "replicate ?k None" 0 ?d v] c k assms(2) by (simp add: filled_def area)
    have len: "length (?fill (replicate ?k None)) = ?k" using c k by (simp add: fill)
    have edit: "editArrayImpl T v st = (case new_block \<lparr>mRefs = 1, mSize = mSize b, sb_data = replicate ?k None\<rparr> st of
        (n, st1) \<Rightarrow> if n = 0 then Inl Fatal else adopt T v n ?fill st1)"
      using 3 k(2) by (simp add: editArrayImpl_def deref_def attemptEdit_def onlyOwner_def alloc_eq)
    obtain n st1 where new: "new_block \<lparr>mRefs = 1, mSize = mSize b, sb_data = replicate ?k None\<rparr> st = (n, st1)" by fastforce
    show thesis
    proof (cases "n = 0")
      case True
      then have "malloc_fails st \<noteq> []" using new o(2)
        by (cases rule: new_block_cases[of "\<lparr>mRefs = 1, mSize = mSize b, sb_data = replicate ?k None\<rparr>" st]) auto
      then show thesis using aborts edit new True by simp
    next
      case False
      obtain st2 where st2: "adopt T v n ?fill st1 = Inr (v\<lparr>mStorage := n\<rparr>, st2)"
        "moved T v us st (v\<lparr>mStorage := n, mCount := ?c\<rparr>) st2" "sole (v\<lparr>mStorage := n, mCount := ?c\<rparr>) st2"
        "area (v\<lparr>mStorage := n, mCount := ?c\<rparr>) st2 = ?fill (replicate ?k None)"
        by (rule adopt_new[where fill = ?fill, OF assms(1) k(2) refl len c new False])
      have v: "v\<lparr>mStorage := n, mCount := ?c\<rparr> = v\<lparr>mStorage := n\<rparr>" by simp
      have "take ?c (put (replicate ?k None) 0 (take ?c ?d)) = take ?c ?d"
        using put_all[of "take ?c ?d" "replicate ?k None"] c k by simp
      moreover have "length (put (replicate ?k None) 0 (take ?c ?d)) = ?k" using c k by simp
      ultimately show thesis
        using edits[of "v\<lparr>mStorage := n\<rparr>" st2] edit new False st2 3(1) unfolding v fill area k by simp
    qed
  qed
qed

lemma grown_size_fits:
  assumes "grow_fits T v n" "0 < mItemSize v"
  defines "k \<equiv> max kMinVectorCapacity (mCount v + n + (mCount v + n) div 2 + 1)"
  shows "safe (mCount v + n) = Inr (mCount v + n)" "grown_size (mItemSize v) (mCount v + n) = Inr (k * mItemSize v)"
    "k * mItemSize v < SIZE_MAX - sizeof_SharedBuffer T" "(k * mItemSize v) div mItemSize v = k" "mCount v + n < k"
proof -
  show f: "k * mItemSize v < SIZE_MAX - sizeof_SharedBuffer T" using assms(1) by (simp add: grow_fits_def k_def)
  have "k \<le> k * mItemSize v" using assms(2) by simp
  then have le: "k \<le> SIZE_MAX" "k * mItemSize v \<le> SIZE_MAX" using f by linarith+
  show lt: "mCount v + n < k" by (simp add: k_def)
  then show "safe (mCount v + n) = Inr (mCount v + n)" using le by (simp add: safe_def)
  have "mCount v + n + (mCount v + n) div 2 + 1 \<le> k" by (simp add: k_def)
  then have "safe (mCount v + n + (mCount v + n) div 2) = Inr (mCount v + n + (mCount v + n) div 2)"
    "safe (mCount v + n + (mCount v + n) div 2 + 1) = Inr (mCount v + n + (mCount v + n) div 2 + 1)"
    using le(1) by (simp_all add: safe_def)
  then show "grown_size (mItemSize v) (mCount v + n) = Inr (k * mItemSize v)"
    using le(2) unfolding grown_size_def by (simp add: k_def safe_def)
  show "(k * mItemSize v) div mItemSize v = k" using assms(2) by simp
qed

text \<open>What a gap of \<open>n\<close> slots at \<open>i\<close> looks like.\<close>

definition gap_at :: "nat \<Rightarrow> nat \<Rightarrow> 'a list \<Rightarrow> 'a cells \<Rightarrow> bool" where
  "gap_at i n xs d \<longleftrightarrow> length xs + n \<le> length d \<and> i \<le> length xs \<and> take i d = map Some (take i xs) \<and>
     take (length xs - i) (drop (i + n) d) = map Some (drop i xs)"

lemma gap_filled:
  assumes "gap_at i (length ys) xs d"
  shows "take (length xs + length ys) (put d i (map Some ys)) = map Some (take i xs @ ys @ drop i xs)"
proof -
  note g = assms[unfolded gap_at_def]
  have "take (length xs + length ys) (put d i (map Some ys))
      = take i d @ map Some ys @ take (length xs + length ys - i - length ys) (drop (i + length ys) d)"
    using g by (subst take_put_more) auto
  also have "length xs + length ys - i - length ys = length xs - i" by simp
  finally show ?thesis using g by simp
qed

lemma gap_copied:
  assumes "take (length xs) old = map Some xs" "i \<le> length xs" "length xs + n \<le> k"
  shows "gap_at i n xs (put (put (replicate k None) 0 (take i old)) (i + n) (take (length xs - i) (drop i old)))"
    "length (put (put (replicate k None) 0 (take i old)) (i + n) (take (length xs - i) (drop i old))) = k"
proof -
  have len: "length xs \<le> length old" using arg_cong[OF assms(1), of length] by simp
  have "take i old = take i (take (length xs) old)" using assms(2) by (simp add: min_absorb1)
  then have t: "take i old = map Some (take i xs)" using assms(1) by (simp add: take_map)
  have "take (length xs - i) (drop i old) = drop i (take (length xs) old)" by (simp add: drop_take)
  then have d: "take (length xs - i) (drop i old) = map Some (drop i xs)" using assms(1) by (simp add: drop_map)
  let ?d1 = "put (replicate k None) 0 (take i old)"
  have l1: "length ?d1 = k" using assms(2,3) len by simp
  show l2: "length (put ?d1 (i + n) (take (length xs - i) (drop i old))) = k"
    using l1 assms(2,3) len by (subst length_put) simp_all
  have "take i (put ?d1 (i + n) (take (length xs - i) (drop i old))) = take i ?d1"
    using l1 assms(2,3) by (simp add: put_def[of ?d1])
  also have "\<dots> = take i old" using assms(2,3) len by (simp add: put_def)
  finally have "take i (put ?d1 (i + n) (take (length xs - i) (drop i old))) = map Some (take i xs)" using t by simp
  moreover have "take (length xs - i) (drop (i + n) (put ?d1 (i + n) (take (length xs - i) (drop i old)))) = map Some (drop i xs)"
    using take_drop_put[of "i + n" ?d1 "take (length xs - i) (drop i old)"] l1 assms(2,3) len d by simp
  ultimately show "gap_at i n xs (put ?d1 (i + n) (take (length xs - i) (drop i old)))"
    using l2 assms(2,3) by (simp add: gap_at_def)
qed

lemma new_block_array:
  assumes "own T v us st" "new_block b st = (n, st1)"
  shows "arrayImpl v st1 = Inr (area v st)"
proof -
  note o = ownD[OF assms(1)]
  have "bufs st (next_buf st) = None" using o(6) by (metis less_irrefl not_Some_eq)
  then have "mStorage v \<noteq> next_buf st" using o(2,4) by (auto simp: placed_def split: if_splits)
  then have "bufs st1 (mStorage v) = bufs st (mStorage v)" using assms(2)
    by (cases rule: new_block_cases[of b st]) (auto simp: set_buf_def)
  then have "arrayImpl v st1 = arrayImpl v st" by (simp add: arrayImpl_def deref_def)
  then show ?thesis using own_array[OF assms(1)] by simp
qed

lemma count_moved:
  assumes "own T v us st" "mStorage v \<noteq> 0" "c \<le> length (area v st)"
  shows "moved T v us st (v\<lparr>mCount := c\<rparr>) st" "area (v\<lparr>mCount := c\<rparr>) st = area v st"
proof -
  note o = ownD[OF assms(1)]
  have "own T (v\<lparr>mCount := c\<rparr>) us st"
  proof (rule ownI)
    show "placed (v\<lparr>mCount := c\<rparr>) st" using o(4) assms(2,3) by (auto simp: placed_def area_def split: if_splits)
    fix a b assume "bufs st a = Some b"
    from o(6-9)[OF this] show "a < next_buf st \<and> 0 < mRefs b \<and>
        mRefs b = count_list (map mStorage (v\<lparr>mCount := c\<rparr> # us)) a \<and> buf_ok T (mItemSize (v\<lparr>mCount := c\<rparr>)) b" by simp
  qed (use o in auto)
  then show "moved T v us st (v\<lparr>mCount := c\<rparr>) st" by (simp add: moved_def)
  show "area (v\<lparr>mCount := c\<rparr>) st = area v st" by (simp add: area_def)
qed

lemma new_block_zero: "new_block b st = (0, st1) \<Longrightarrow> own T v us st \<Longrightarrow>
    malloc_fails st \<noteq> [] \<and> st1 = st\<lparr>malloc_fails := tl (malloc_fails st)\<rparr>"
  using ownD(2)[of T v us st] by (cases rule: new_block_cases[of b st]) auto

text \<open>The two halves of \<open>grow\<close> that make a new block, when the storage is too small.\<close>

lemma grow_realloc:
  assumes "own T v us st" "filled v st" "grow_fits T v n" "length (area v st) < mCount v + n" "mStorage v \<noteq> 0"
    "flag v HAS_TRIVIAL_COPY" "flag v HAS_TRIVIAL_DTOR"
  obtains (none) st' where "grow T v (mCount v) n st = Inr (None, v, st')" "moved T v us st v st'" "area v st' = area v st"
      "malloc_fails st \<noteq> []"
  | (some) v' st' where "grow T v (mCount v) n st = Inr (Some (mCount v), v', st')" "moved T v us st v' st'" "sole v' st'"
      "mCount v' = mCount v + n" "gap_at (mCount v) n (items v st) (area v' st')"
proof -
  let ?m = "mCount v + n" and ?k = "max kMinVectorCapacity (mCount v + n + (mCount v + n) div 2 + 1)"
  note o = ownD[OF assms(1)] and f = grown_size_fits[OF assms(3) ownD(1)[OF assms(1)]]
  obtain b where b: "bufs st (mStorage v) = Some b" using o(4) assms(5) by (auto simp: placed_def)
  have "?m \<le> (?k * mItemSize v) div mItemSize v" using f(4,5) by simp
  then obtain a st' where r: "editResize T (mItemSize v) (?k * mItemSize v) (mStorage v) st = Inr (a, st')"
    "resized_to T v us st (?k * mItemSize v) ?m a st'" by (rule editResize_resized[OF assms(1) b f(3)])
  have g: "grow T v (mCount v) n st = (if a = 0 then Inr (None, v, st')
      else map_sum id (\<lambda>p. (p, v\<lparr>mStorage := a, mCount := ?m\<rparr>, st')) (itemLocation (v\<lparr>mStorage := a, mCount := ?m\<rparr>) st' (mCount v)))"
    using assms(4-7) f(1,2) own_capacity[OF assms(1)] r(1) by (simp add: grow_def Let_def)
  show thesis
  proof (cases "a = 0")
    case True
    then show thesis using none g r(2) by (simp add: resized_to_def)
  next
    case False
    let ?v = "v\<lparr>mStorage := a, mCount := ?m\<rparr>"
    have v: "moved T v us st ?v st'" "sole ?v st'" "area ?v st' = resized (mItemSize v) (?k * mItemSize v) (area v st)"
      using False r(2) by (simp_all add: resized_to_def)
    have len: "length (area ?v st') = ?k" unfolding v(3) length_resized using f(4) by simp
    have "own T ?v us st'" using v(1) by (simp add: moved_def)
    then have "itemLocation ?v st' (mCount v) = Inr (Some (mCount v))"
      using own_capacity[of T ?v us st'] len f(5) False by (simp add: itemLocation_def)
    moreover have "length (area v st) < ?k" using assms(4) f(5) by simp
    then have "take (mCount v) (area ?v st') = map Some (items v st)"
      using v(3) f(4) own_area_length[OF assms(1)] filled_items[OF assms(2)] by (simp add: resized_def)
    then have "gap_at (mCount v) n (items v st) (area ?v st')"
      using len f(5) length_items[OF assms(1)] by (simp add: gap_at_def)
    ultimately show thesis using some[of ?v st'] g False v(1,2) by simp
  qed
qed

lemma grow_copy:
  assumes "own T v us st" "filled v st" "grow_fits T v n" "length (area v st) < mCount v + n" "i \<le> mCount v"
    "\<not> (mStorage v \<noteq> 0 \<and> mCount v = i \<and> flag v HAS_TRIVIAL_COPY \<and> flag v HAS_TRIVIAL_DTOR)"
  obtains (none) st' where "grow T v i n st = Inr (None, v, st')" "moved T v us st v st'" "area v st' = area v st"
      "malloc_fails st \<noteq> []"
  | (some) v' st' where "grow T v i n st = Inr (Some i, v', st')" "moved T v us st v' st'" "sole v' st'"
      "mCount v' = mCount v + n" "gap_at i n (items v st) (area v' st')"
proof -
  let ?m = "mCount v + n" and ?k = "max kMinVectorCapacity (mCount v + n + (mCount v + n) div 2 + 1)"
  let ?old = "area v st" and ?xs = "items v st"
  note o = ownD[OF assms(1)] and f = grown_size_fits[OF assms(3) ownD(1)[OF assms(1)]]
  let ?fill = "\<lambda>d. let d1 = (if i \<noteq> 0 then do_copy T v d 0 ?old 0 i else d)
      in if i \<noteq> mCount v then do_copy T v d1 (i + n) ?old i (mCount v - i) else d1"
  let ?b = "\<lparr>mRefs = 1, mSize = ?k * mItemSize v, sb_data = replicate ?k None\<rparr>"
  have xs: "take (length ?xs) ?old = map Some ?xs" "length ?xs = mCount v"
    using filled_items[OF assms(2)] length_items[OF assms(1)] by simp_all
  have cl: "mCount v \<le> length ?old" by (rule own_area_length[OF assms(1)])
  have nn: "None \<notin> set (take i ?old)" "None \<notin> set (take (mCount v - i) (drop i ?old))"
    using assms(2,5) by (auto simp: filled_def dest: in_set_dropD in_set_takeD) 
      (metis in_set_takeD min.absorb1 take_take, metis add_diff_inverse_nat drop_take in_set_dropD linorder_not_less)
  let ?d = "put (put (replicate ?k None) 0 (take i ?old)) (i + n) (take (mCount v - i) (drop i ?old))"
  have fill: "?fill (replicate ?k None) = ?d"
  proof -
    have "(if i \<noteq> 0 then do_copy T v (replicate ?k None) 0 ?old 0 i else replicate ?k None) = put (replicate ?k None) 0 (take i ?old)"
      using do_copy_put[of 0 i "replicate ?k None" 0 ?old v] nn(1) assms(5) cl f(5) by simp
    moreover have "(if i \<noteq> mCount v then do_copy T v d1 (i + n) ?old i (mCount v - i) else d1)
        = put d1 (i + n) (take (mCount v - i) (drop i ?old))" if "length d1 = ?k" for d1
      using do_copy_put[of "i + n" "mCount v - i" d1 i ?old v] that nn(2) assms(5) cl f(5) by simp
    moreover have "length (put (replicate ?k None) 0 (take i ?old)) = ?k" using assms(5) cl f(5) by simp
    ultimately show ?thesis by (simp only: Let_def)
  qed
  note gap = gap_copied[OF xs(1), of i n ?k, unfolded xs(2), OF assms(5) less_imp_le[OF f(5)]]
  obtain a st1 where new: "new_block ?b st = (a, st1)" by fastforce
  have al: "alloc T (mItemSize v) (?k * mItemSize v) st = Inr (a, st1)" using alloc_eq[OF f(3)] f(4) new by simp
  have cond: "(mStorage v \<noteq> 0 \<and> mCount v = i \<and> flag v HAS_TRIVIAL_COPY \<and> flag v HAS_TRIVIAL_DTOR) = False"
    using assms(6) by blast
  note grow = assms(4) f(1,2) own_capacity[OF assms(1)] al new_block_array[OF assms(1) new]
  show thesis
  proof (cases "a = 0")
    case True
    then have "grow T v i n st = Inr (None, v, st1)" using grow unfolding grow_def cond by simp
    then show thesis using none[of st1] new_block_zero[of ?b st st1 v us] new assms(1) moved_fails[OF assms(1)] True by simp
  next
    case False
    have len: "length (?fill (replicate ?k None)) = ?k" unfolding fill by (rule gap(2))
    obtain st2 where st2: "adopt T v a ?fill st1 = Inr (v\<lparr>mStorage := a\<rparr>, st2)"
      "moved T v us st (v\<lparr>mStorage := a, mCount := ?m\<rparr>) st2" "sole (v\<lparr>mStorage := a, mCount := ?m\<rparr>) st2"
      "area (v\<lparr>mStorage := a, mCount := ?m\<rparr>) st2 = ?fill (replicate ?k None)"
      by (rule adopt_new[where fill = ?fill, OF assms(1) f(3) f(4)[symmetric] len less_imp_le[OF f(5)] new False])
    let ?v = "v\<lparr>mStorage := a, mCount := ?m\<rparr>"
    have "own T ?v us st2" using st2(2) by (simp add: moved_def)
    then have "itemLocation ?v st2 i = Inr (Some i)"
      using own_capacity[of T ?v us st2] st2(4) len f(5) False assms(5) by (simp add: itemLocation_def)
    moreover have "gap_at i n ?xs (area ?v st2)" unfolding st2(4) fill by (rule gap(1))
    moreover have "grow T v i n st = map_sum id (\<lambda>p. (p, ?v, st2)) (itemLocation ?v st2 i)"
      using grow False st2(1) unfolding grow_def cond by (simp add: Let_def)
    ultimately show thesis using some[of ?v st2] st2(2,3) by simp
  qed
qed

text \<open>The items at the end, as a stretch of the area.\<close>

lemma items_tail:
  assumes "take (length xs) d = map Some xs" "i \<le> length xs"
  shows "take i d = map Some (take i xs)" "take (length xs - i) (drop i d) = map Some (drop i xs)"
proof -
  have "take i d = take i (take (length xs) d)" using assms(2) by (simp add: min_absorb1)
  then show "take i d = map Some (take i xs)" using assms(1) by (simp add: take_map)
  have "take (length xs - i) (drop i d) = drop i (take (length xs) d)" by (simp add: drop_take)
  then show "take (length xs - i) (drop i d) = map Some (drop i xs)" using assms(1) by (simp add: drop_map)
qed

lemma grow_place:
  assumes "own T v us st" "filled v st" "grow_fits T v n" "mCount v + n \<le> length (area v st)" "i \<le> mCount v"
  obtains (aborts) "grow T v i n st = Inl Fatal" "malloc_fails st \<noteq> []"
  | (none) v' st' where "grow T v i n st = Inr (None, v', st')" "moved T v us st v' st'" "mCount v' = mCount v" "n = 0"
      "take (mCount v) (area v' st') = map Some (items v st)"
  | (some) v' st' where "grow T v i n st = Inr (Some i, v', st')" "moved T v us st v' st'" "sole v' st'"
      "mCount v' = mCount v + n" "gap_at i n (items v st) (area v' st')"
proof -
  note f = grown_size_fits[OF assms(3) ownD(1)[OF assms(1)]]
  have xs: "take (mCount v) (area v st) = map Some (items v st)" "length (items v st) = mCount v"
    using filled_items[OF assms(2)] length_items[OF assms(1)] by simp_all
  note grow = f(1) own_capacity[OF assms(1)] assms(4)
  show thesis
  proof (cases rule: editArray_moved[OF assms(1,2)])
    case 1
    then have "grow T v i n st = Inl Fatal" using grow by (simp add: grow_def)
    then show thesis using 1(2) that(1) by blast
  next
    case edits: (2 v1 st1)
    have o1: "own T v1 us st1" and arr: "arrayImpl v1 st1 = Inr (area v1 st1)"
      using edits(2) own_array[of T v1 us st1] by (simp_all add: moved_def)
    have len: "mCount v + n \<le> length (area v1 st1)" using assms(4) edits(4) by simp
    have x1: "take (mCount v) (area v1 st1) = map Some (items v st)" using edits(5) xs(1) by simp
    note tl = items_tail[of "items v st" "area v1 st1" i, unfolded xs(2), OF x1 assms(5)]
    define d where "d = (if i \<noteq> mCount v then t_move_forward T (area v1 st1) (i + n) i (mCount v - i) else area v1 st1)"
    define st2 where "st2 = (if i \<noteq> mCount v then set_array v1 d st1 else st1)"
    let ?v = "v1\<lparr>mCount := mCount v + n\<rparr>"
    have g: "grow T v i n st = map_sum id (\<lambda>p. (p, ?v, st2)) (itemLocation ?v st2 i)"
      using grow edits(1) arr by (simp add: grow_def d_def st2_def Let_def)
    show thesis
    proof (cases "mStorage v = 0")
      case True
      then have s1: "mStorage v1 = 0" using edits(7) by blast
      have "mCount v = 0" using True ownD(4)[OF assms(1)] by (simp add: placed_def)
      moreover have "area v st = []" using True ownD(3)[OF assms(1)] by (simp add: area_def)
      ultimately have z: "n = 0" "i = 0" "mCount v = 0" using assms(4,5) by auto
      have "?v = v1" using z edits(3) by (cases v1) simp
      then have "grow T v i n st = Inr (None, v1, st1)"
        using g z(2,3) s1 by (simp add: st2_def itemLocation_def capacity_def)
      then show thesis using that(2)[of v1 st1] z edits(2,3) x1 by simp
    next
      case False
      then have s: "sole v1 st1" "mStorage v1 \<noteq> 0" using edits(6) by blast+
      obtain gap where gap: "length gap = n" "d = (if i \<noteq> mCount v then take i (area v1 st1) @ gap @
          take (mCount v - i) (drop i (area v1 st1)) @ drop (i + n + (mCount v - i)) (area v1 st1) else area v1 st1)"
      proof -
        have "None \<notin> set (take (mCount v - i) (drop i (area v1 st1)))" using tl(2) by auto
        then show thesis using move_forward[of i "i + n" "mCount v - i" "area v1 st1"] len assms(5) that
          by (cases "i = mCount v") (auto simp: d_def intro: that[of "replicate n None"])
      qed
      have ld: "length d = length (area v1 st1)" using gap len assms(5) by simp
      have m2: "moved T v1 us st1 ?v st2 \<and> area ?v st2 = d \<and> sole ?v st2"
      proof (cases "i = mCount v")
        case True
        then have "st2 = st1" "d = area v1 st1" by (simp_all add: st2_def d_def)
        then show ?thesis using count_moved[OF o1 s(2) len] s(1) by (simp add: sole_def)
      next
        case False
        then show ?thesis using write_moved[OF o1 s(1) ld, of "mCount v + n"] len ld by (simp add: st2_def)
      qed
      have mv: "moved T v us st ?v st2" using moved_trans[OF edits(2)] m2 by blast
      then have cap: "capacity ?v st2 = Inr (length d)" using own_capacity[of T ?v us st2] m2 by (simp add: moved_def)
      have gd: "gap_at i n (items v st) d"
      proof (cases "i = mCount v")
        case True
        then have "d = area v1 st1" by (simp add: d_def)
        then show ?thesis using True x1 xs(2) len by (simp add: gap_at_def)
      next
        case False
        have "take i d = take i (area v1 st1)" using gap False len assms(5) by simp
        moreover have "take (mCount v - i) (drop (i + n) d) = take (mCount v - i) (drop i (area v1 st1))"
          using gap False len assms(5) by simp
        ultimately show ?thesis using tl xs(2) ld len assms(5) by (simp add: gap_at_def)
      qed
      show thesis
      proof (cases "i < length d")
        case True
        then have "grow T v i n st = Inr (Some i, ?v, st2)" using g cap s(2) by (simp add: itemLocation_def)
        then show thesis using that(3)[of ?v st2] mv m2 gd by simp
      next
        case no: False
        then have z: "n = 0" "i = mCount v" using len ld assms(5) by linarith+
        have "grow T v i n st = Inr (None, ?v, st2)" using g cap no by (simp add: itemLocation_def)
        moreover have "area ?v st2 = area v1 st1" using m2 z by (simp add: d_def)
        ultimately show thesis using that(2)[of ?v st2] mv x1 z by simp
      qed
    qed
  qed
qed

text \<open>
  The three outcomes of \<open>grow\<close> together: without memory the process aborts (when a shared buffer
  would have to be copied) or the vector keeps its items.
\<close>

lemma grow_effect:
  assumes "own T v us st" "filled v st" "grow_fits T v n" "i \<le> mCount v"
  obtains (1) "grow T v i n st = Inl Fatal" "malloc_fails st \<noteq> []"
  | (2) v' st' where "grow T v i n st = Inr (None, v', st')" "moved T v us st v' st'" "items v' st' = items v st"
      "filled v' st'" "malloc_fails st \<noteq> [] \<or> n = 0"
  | (3) v' st' where "grow T v i n st = Inr (Some i, v', st')" "moved T v us st v' st'" "sole v' st'"
      "mCount v' = mCount v + n" "gap_at i n (items v st) (area v' st')"
proof -
  have same: "items v st' = items v st \<and> filled v st'" if "area v st' = area v st" for st'
    using that assms(2) by (simp add: items_def filled_def)
  consider "mCount v + n \<le> length (area v st)"
    | "length (area v st) < mCount v + n" "mStorage v \<noteq> 0 \<and> mCount v = i \<and> flag v HAS_TRIVIAL_COPY \<and> flag v HAS_TRIVIAL_DTOR"
    | "length (area v st) < mCount v + n" "\<not> (mStorage v \<noteq> 0 \<and> mCount v = i \<and> flag v HAS_TRIVIAL_COPY \<and> flag v HAS_TRIVIAL_DTOR)"
    by linarith
  then show thesis
  proof cases
    case c: 1
    show thesis
    proof (cases rule: grow_place[OF assms(1-3) c assms(4)])
      case c: (2 v' st')
      then have "items v' st' = items v st \<and> filled v' st'" using itemsI[of v' st' "items v st"] by simp
      then show thesis using 2 c by blast
    qed (use 1 3 in blast)+
  next
    case c: 2
    then show thesis using grow_realloc[OF assms(1-3), of thesis] 2 3 same by (metis (no_types, lifting))
  next
    case c: 3
    then show thesis using grow_copy[OF assms(1-3) _ assms(4), of thesis] 2 3 same by (metis (no_types, lifting))
  qed
qed

section \<open>Inserting\<close>

lemma insert_with_effect:
  assumes "own T v us st" "filled v st" "grow_fits T v n"
    and fill: "\<And>d. i + n \<le> length d \<Longrightarrow> fill d = put d i (map Some ys)" "length ys = n"
  obtains (1) "insert_with T v i n fill st = Inl Fatal" "malloc_fails st \<noteq> []"
  | (2) e v' st' where "insert_with T v i n fill st = Inr (Inl e, v', st')" "moved T v us st v' st'"
      "items v' st' = items v st" "filled v' st'"
      "e = BAD_INDEX \<and> i > mCount v \<or> e = NO_MEMORY \<and> i \<le> mCount v \<and> (malloc_fails st \<noteq> [] \<or> n = 0)"
  | (3) v' st' where "insert_with T v i n fill st = Inr (Inr i, v', st')" "moved T v us st v' st'" "i \<le> mCount v"
      "items v' st' = take i (items v st) @ ys @ drop i (items v st)" "filled v' st'"
proof (cases "i \<le> mCount v")
  case False
  then show thesis using 2[of BAD_INDEX v st] moved_refl[OF assms(1)] assms(2) by (simp add: insert_with_def)
next
  case i: True
  show thesis
  proof (cases rule: grow_effect[OF assms(1-3) i])
    case g: 1
    then show thesis using 1 i by (simp add: insert_with_def)
  next
    case g: (2 v' st')
    then show thesis using 2[of NO_MEMORY v' st'] i by (simp add: insert_with_def)
  next
    case g: (3 v1 st1)
    let ?d = "put (area v1 st1) i (map Some ys)"
    have o1: "own T v1 us st1" using g(2) by (simp add: moved_def)
    have len: "i + n \<le> length (area v1 st1)" using g(5) i length_items[OF assms(1)] by (simp add: gap_at_def)
    have ld: "length ?d = length (area v1 st1)" using len fill(2) by simp
    have c: "mCount v1 \<le> length ?d" using own_area_length[OF o1] ld by simp
    note w = write_moved[OF o1 g(3) ld c]
    have v: "v1\<lparr>mCount := mCount v1\<rparr> = v1" by simp
    have "take (mCount v1) ?d = map Some (take i (items v st) @ ys @ drop i (items v st))"
      using gap_filled[of i ys "items v st" "area v1 st1"] g(4,5) fill(2) length_items[OF assms(1)] by simp
    then have "take (mCount v1) (area v1 (set_array v1 ?d st1)) = map Some (take i (items v st) @ ys @ drop i (items v st))"
      unfolding w(2)[unfolded v] .
    from itemsI[OF this] have it: "items v1 (set_array v1 ?d st1) = take i (items v st) @ ys @ drop i (items v st)"
      "filled v1 (set_array v1 ?d st1)" by simp_all
    have "insert_with T v i n fill st = Inr (Inr i, v1, set_array v1 ?d st1)"
      using i g(1) own_array[OF o1] fill(1)[OF len] by (simp add: insert_with_def)
    then show thesis using 3[of v1 "set_array v1 ?d st1"] moved_trans[OF g(2) w(1)[unfolded v]] it i by blast
  qed
qed

end

end
