(* ===== verification/Shim_Vector_Remove.thy ===== *)
theory Shim_Vector_Remove
  imports Shim_Vector_Props
begin

text \<open>
  Removing items from a vector: the three ways of \<open>_shrink\<close> (a smaller block by \<open>editResize\<close>, a smaller
  block filled by copies, the same block) all leave the items without the stretch that was removed.
\<close>

context item_ops
begin

lemma without_copied:
  assumes "take (length xs) old = map Some xs" "i + n \<le> length xs" "length xs - n \<le> k"
  defines "d \<equiv> put (put (replicate k None) 0 (take i old)) i (take (length xs - n - i) (drop (i + n) old))"
  shows "length d = k" "take (length xs - n) d = map Some (take i xs @ drop (i + n) xs)"
proof -
  have len: "length xs \<le> length old" using arg_cong[OF assms(1), of length] by simp
  note l = items_tail[OF assms(1), of i] items_tail[OF assms(1), of "i + n"]
  let ?d1 = "put (replicate k None) 0 (take i old)"
  have tl: "take (length xs - n - i) (drop (i + n) old) = map Some (drop (i + n) xs)"
    using l(4) assms(2) by (simp add: add.commute)
  have d1: "length ?d1 = k" "take i ?d1 = map Some (take i xs)" using l(1) len assms(2,3) by (simp_all add: put_def)
  have d: "d = put ?d1 i (map Some (drop (i + n) xs))" unfolding d_def tl ..
  show "length d = k" using d1(1) assms(2,3) unfolding d by (subst length_put) simp_all
  show "take (length xs - n) d = map Some (take i xs @ drop (i + n) xs)"
    unfolding d using d1 assms(2,3) by (subst take_put_more) simp_all
qed

lemma shrunk_size_fits:
  assumes "own T v us st" "shrink_fits T v" "mStorage v \<noteq> 0" "m < length (area v st) div 2"
  defines "k \<equiv> max kMinVectorCapacity (m * 2)"
  shows "k * mItemSize v < SIZE_MAX - sizeof_SharedBuffer T" "k * mItemSize v mod 2 ^ 32 = k * mItemSize v"
    "k * mItemSize v div mItemSize v = k" "m \<le> k"
proof -
  note o = ownD[OF assms(1)]
  obtain b where b: "bufs st (mStorage v) = Some b" using o(4) assms(3) by (auto simp: placed_def)
  have ok: "length (sb_data b) = mSize b div mItemSize v" "mSize b < SIZE_MAX - sizeof_SharedBuffer T"
    using o(9)[OF b] by (simp_all add: buf_ok_def)
  have "m * 2 \<le> mSize b div mItemSize v" using assms(4) b ok(1) by (simp add: area_def)
  then have "m * 2 * mItemSize v \<le> mSize b" by (metis div_times_less_eq_dividend le_trans mult_le_mono1)
  then show f: "k * mItemSize v < SIZE_MAX - sizeof_SharedBuffer T"
    using ok(2) assms(2) by (simp add: k_def max_def shrink_fits_def)
  show "k * mItemSize v mod 2 ^ 32 = k * mItemSize v" using f by (intro mod_less) (simp add: SIZE_MAX_def)
  show "k * mItemSize v div mItemSize v = k" using o(1) by simp
  show "m \<le> k" by (simp add: k_def)
qed

text \<open>
  What a removal leaves: without the stretch, or, when memory was needed and there was none, everything as it was.
\<close>

definition removed :: "VectorImpl \<Rightarrow> VectorImpl list \<Rightarrow> 'a store \<Rightarrow> nat \<Rightarrow> nat \<Rightarrow> VectorImpl \<Rightarrow> 'a store \<Rightarrow> bool" where
  "removed v us st i n v' st' \<longleftrightarrow> moved T v us st v' st' \<and> filled v' st' \<and>
     (items v' st' = take i (items v st) @ drop (i + n) (items v st) \<or> malloc_fails st \<noteq> [] \<and> items v' st' = items v st)"

lemma removed_kept: "moved T v us st v st' \<Longrightarrow> filled v st \<Longrightarrow> area v st' = area v st \<Longrightarrow> malloc_fails st \<noteq> [] \<Longrightarrow>
    removed v us st i n v st'"
  by (simp add: removed_def filled_def items_def)

lemma removedI: "moved T v us st v' st' \<Longrightarrow> take (mCount v') (area v' st') = map Some (take i (items v st) @ drop (i + n) (items v st)) \<Longrightarrow>
    removed v us st i n v' st'"
  using itemsI[of v' st'] by (fastforce simp: removed_def)

lemma shrink_realloc:
  assumes "own T v us st" "filled v st" "shrink_fits T v" "mStorage v \<noteq> 0" "i + n = mCount v"
    "i < length (area v st) div 2" "flag v HAS_TRIVIAL_COPY" "flag v HAS_TRIVIAL_DTOR"
  obtains v' st' where "shrink T v i n st = Inr (v', st')" "removed v us st i n v' st'"
proof -
  let ?k = "max kMinVectorCapacity (i * 2)"
  note o = ownD[OF assms(1)] and f = shrunk_size_fits[OF assms(1,3,4,6)]
  obtain b where b: "bufs st (mStorage v) = Some b" using o(4) assms(4) by (auto simp: placed_def)
  have "i \<le> (?k * mItemSize v) div mItemSize v" using f(3,4) by simp
  then obtain a st' where r: "editResize T (mItemSize v) (?k * mItemSize v) (mStorage v) st = Inr (a, st')"
    "resized_to T v us st (?k * mItemSize v) i a st'" by (rule editResize_resized[OF assms(1) b f(1)])
  have i: "mCount v - n = i" using assms(5) by simp
  have s: "shrink T v i n st = Inr (if a \<noteq> 0 then v\<lparr>mStorage := a, mCount := i\<rparr> else v, st')"
    using assms(4-8) own_capacity[OF assms(1)] r(1) f(2) by (simp add: shrink_def i Let_def)
  show thesis
  proof (cases "a = 0")
    case True
    then show thesis using that s r(2) removed_kept assms(2) by (simp add: resized_to_def)
  next
    case False
    let ?v = "v\<lparr>mStorage := a, mCount := i\<rparr>"
    have v: "moved T v us st ?v st'" "area ?v st' = resized (mItemSize v) (?k * mItemSize v) (area v st)"
      using False r(2) by (simp_all add: resized_to_def)
    have "take i (area ?v st') = take i (area v st)"
      using v(2) f(3,4) assms(5) own_area_length[OF assms(1)] by (simp add: resized_def)
    then have "take i (area ?v st') = map Some (take i (items v st))"
      using items_tail(1)[of "items v st" "area v st" i] filled_items[OF assms(2)] length_items[OF assms(1)] assms(5) by simp
    then have "removed v us st i n ?v st'"
      using length_items[OF assms(1)] assms(5) by (intro removedI[OF v(1)]) simp
    then show thesis using that[of ?v st'] s False by simp
  qed
qed

lemma shrink_copy:
  assumes "own T v us st" "filled v st" "shrink_fits T v" "mStorage v \<noteq> 0" "i + n \<le> mCount v"
    "mCount v - n < length (area v st) div 2"
    "\<not> (i = mCount v - n \<and> flag v HAS_TRIVIAL_COPY \<and> flag v HAS_TRIVIAL_DTOR)"
  obtains v' st' where "shrink T v i n st = Inr (v', st')" "removed v us st i n v' st'"
proof -
  let ?m = "mCount v - n" and ?k = "max kMinVectorCapacity ((mCount v - n) * 2)"
  let ?old = "area v st" and ?xs = "items v st"
  note o = ownD[OF assms(1)] and f = shrunk_size_fits[OF assms(1,3,4,6)]
  let ?fill = "\<lambda>d. let d1 = (if i \<noteq> 0 then do_copy T v d 0 ?old 0 i else d)
      in if i \<noteq> ?m then do_copy T v d1 i ?old (i + n) (?m - i) else d1"
  let ?b = "\<lparr>mRefs = 1, mSize = ?k * mItemSize v, sb_data = replicate ?k None\<rparr>"
  have xs: "take (length ?xs) ?old = map Some ?xs" "length ?xs = mCount v"
    using filled_items[OF assms(2)] length_items[OF assms(1)] by simp_all
  have cl: "mCount v \<le> length ?old" by (rule own_area_length[OF assms(1)])
  have t: "take i ?old = map Some (take i ?xs)" "take (?m - i) (drop (i + n) ?old) = map Some (drop (i + n) ?xs)"
    using items_tail(1)[OF xs(1), of i] items_tail(2)[OF xs(1), of "i + n"] xs(2) assms(5) by (simp_all add: add.commute)
  have nn: "None \<notin> set (take i ?old)" "None \<notin> set (take (?m - i) (drop (i + n) ?old))" unfolding t by auto
  let ?d = "put (put (replicate ?k None) 0 (take i ?old)) i (take (?m - i) (drop (i + n) ?old))"
  have fill: "?fill (replicate ?k None) = ?d"
  proof -
    have "(if i \<noteq> 0 then do_copy T v (replicate ?k None) 0 ?old 0 i else replicate ?k None) = put (replicate ?k None) 0 (take i ?old)"
      using do_copy_put[of 0 i "replicate ?k None" 0 ?old v] nn(1) assms(5) cl f(4) by simp
    moreover have "(if i \<noteq> ?m then do_copy T v d1 i ?old (i + n) (?m - i) else d1)
        = put d1 i (take (?m - i) (drop (i + n) ?old))" if "length d1 = ?k" for d1
      using do_copy_put[of i "?m - i" d1 "i + n" ?old v] that nn(2) assms(5) cl f(4) by simp
    moreover have "length (put (replicate ?k None) 0 (take i ?old)) = ?k" using assms(5) cl f(4) by simp
    ultimately show ?thesis by (simp only: Let_def)
  qed
  note w = without_copied[OF xs(1), of i n ?k, unfolded xs(2), OF assms(5) f(4)]
  obtain a st1 where new: "new_block ?b st = (a, st1)" by fastforce
  have al: "alloc T (mItemSize v) (?k * mItemSize v mod 2 ^ 32) st = Inr (a, st1)" using alloc_eq[OF f(1)] f(2,3) new by simp
  have cond: "(i = ?m \<and> flag v HAS_TRIVIAL_COPY \<and> flag v HAS_TRIVIAL_DTOR) = False" using assms(7) by blast
  have small: "(mCount v < n) = False" using assms(5) by simp
  note shr = assms(4,6) small own_capacity[OF assms(1)] al new_block_array[OF assms(1) new]
  show thesis
  proof (cases "a = 0")
    case True
    then have "shrink T v i n st = Inr (v, st1)" using shr unfolding shrink_def Let_def cond by (simp add: Let_def)
    then show thesis using that[of v st1] new_block_zero[of ?b st st1 v us] new assms(1,2) moved_fails[OF assms(1)] True
      removed_kept[of v us st st1] by simp
  next
    case False
    have len: "length (?fill (replicate ?k None)) = ?k" unfolding fill by (rule w(1))
    obtain st2 where st2: "adopt T v a ?fill st1 = Inr (v\<lparr>mStorage := a\<rparr>, st2)"
      "moved T v us st (v\<lparr>mStorage := a, mCount := ?m\<rparr>) st2"
      "area (v\<lparr>mStorage := a, mCount := ?m\<rparr>) st2 = ?fill (replicate ?k None)"
      by (rule adopt_new[where fill = ?fill, OF assms(1) f(1) f(3)[symmetric] len f(4) new False])
    have "take ?m (area (v\<lparr>mStorage := a, mCount := ?m\<rparr>) st2) = map Some (take i ?xs @ drop (i + n) ?xs)"
      unfolding st2(3) fill by (rule w(2))
    then have "removed v us st i n (v\<lparr>mStorage := a, mCount := ?m\<rparr>) st2" by (intro removedI[OF st2(2)]) simp
    moreover have "shrink T v i n st = Inr (v\<lparr>mStorage := a, mCount := ?m\<rparr>, st2)"
      using shr False st2(1) unfolding shrink_def Let_def cond by (simp add: Let_def)
    ultimately show thesis using that by blast
  qed
qed

lemma shrink_place:
  assumes "own T v us st" "filled v st" "mStorage v \<noteq> 0" "i + n \<le> mCount v" "\<not> mCount v - n < length (area v st) div 2"
  obtains (1) "shrink T v i n st = Inl Fatal" "malloc_fails st \<noteq> []"
  | (2) v' st' where "shrink T v i n st = Inr (v', st')" "removed v us st i n v' st'"
proof (cases rule: editArray_moved[OF assms(1,2)])
  case c: 1
  then have "shrink T v i n st = Inl Fatal"
    using assms(3-5) own_capacity[OF assms(1)] by (simp add: shrink_def)
  then show thesis using c 1 by blast
next
  case edits: (2 v1 st1)
  let ?m = "mCount v - n" and ?xs = "items v st" and ?d = "area v1 st1"
  have o1: "own T v1 us st1" and arr: "arrayImpl v1 st1 = Inr ?d"
    using edits(2) own_array[of T v1 us st1] by (simp_all add: moved_def)
  have xs: "take (length ?xs) ?d = map Some ?xs" "length ?xs = mCount v"
    using filled_items[OF assms(2)] length_items[OF assms(1)] edits(5) by simp_all
  have len: "mCount v \<le> length ?d" using own_area_length[OF o1] edits(3) by simp
  then have within: "i + n \<le> length ?d" using assms(4) by simp
  define d1 where "d1 = do_destroy T v ?d i n"
  note destroyed = do_destroy_length[OF within, of v] do_destroy_take[OF within, of v] do_destroy_drop[OF within, of v]
  have t: "take i d1 = map Some (take i ?xs)" "take (?m - i) (drop (i + n) d1) = map Some (drop (i + n) ?xs)"
    using items_tail(1)[OF xs(1), of i] items_tail(2)[OF xs(1), of "i + n"] xs(2) assms(4) destroyed
    by (simp_all add: d1_def add.commute)
  define d2 where "d2 = (if i \<noteq> ?m then t_move_backward T d1 i (i + n) (?m - i) else d1)"
  have d2: "length d2 = length ?d \<and> take ?m d2 = map Some (take i ?xs @ drop (i + n) ?xs)"
  proof (cases "i = ?m")
    case True
    then show ?thesis using t destroyed(1) xs(2) assms(4) by (simp add: d2_def d1_def)
  next
    case False
    have "None \<notin> set (take (?m - i) (drop (i + n) d1))" unfolding t by auto
    then obtain rest where r: "length rest = length d1 - i - (?m - i)"
      "t_move_backward T d1 i (i + n) (?m - i) = take i d1 @ take (?m - i) (drop (i + n) d1) @ rest"
      using move_backward[of i "i + n" "?m - i" d1] destroyed(1) len assms(4) by (auto simp: d1_def)
    then have "d2 = map Some (take i ?xs @ drop (i + n) ?xs) @ rest" using False t by (simp add: d2_def)
    then show ?thesis using r(1) destroyed(1) len assms(4) xs(2) by (simp add: d1_def)
  qed
  have s: "sole v1 st1" using edits(6) assms(3) by blast
  have m: "?m \<le> length d2" using d2 len by simp
  note w = write_moved[OF o1 s conjunct1[OF d2] m]
  have "take ?m (area (v1\<lparr>mCount := ?m\<rparr>) (set_array v1 d2 st1)) = map Some (take i ?xs @ drop (i + n) ?xs)"
    unfolding w(2) using d2 by blast
  then have "removed v us st i n (v1\<lparr>mCount := ?m\<rparr>) (set_array v1 d2 st1)"
    by (intro removedI[OF moved_trans[OF edits(2) w(1)]]) simp
  moreover have "shrink T v i n st = Inr (v1\<lparr>mCount := ?m\<rparr>, set_array v1 d2 st1)"
    using assms(3-5) own_capacity[OF assms(1)] edits(1) arr by (simp add: shrink_def d1_def d2_def Let_def)
  ultimately show thesis using 2 by blast
qed

theorem shrink_effect:
  assumes "own T v us st" "filled v st" "shrink_fits T v" "i + n \<le> mCount v"
  obtains (1) "shrink T v i n st = Inl Fatal" "malloc_fails st \<noteq> []"
  | (2) v' st' where "shrink T v i n st = Inr (v', st')" "removed v us st i n v' st'"
proof -
  consider "mStorage v = 0" | "mStorage v \<noteq> 0" "\<not> mCount v - n < length (area v st) div 2"
    | "mStorage v \<noteq> 0" "mCount v - n < length (area v st) div 2" "i = mCount v - n \<and> flag v HAS_TRIVIAL_COPY \<and> flag v HAS_TRIVIAL_DTOR"
    | "mStorage v \<noteq> 0" "mCount v - n < length (area v st) div 2" "\<not> (i = mCount v - n \<and> flag v HAS_TRIVIAL_COPY \<and> flag v HAS_TRIVIAL_DTOR)"
    by blast
  then show thesis
  proof cases
    case c: 1
    then have "mCount v = 0" using ownD(4)[OF assms(1)] by (simp add: placed_def)
    then have "removed v us st i n v st" using moved_refl[OF assms(1)] assms(2) by (simp add: removed_def items_def)
    then show thesis using 2[of v st] c by (simp add: shrink_def)
  next
    case c: 2
    then show thesis using shrink_place[OF assms(1,2) c(1) assms(4) c(2)] 1 2 by blast
  next
    case c: 3
    then have i: "i + n = mCount v" "i < length (area v st) div 2" using assms(4) by simp_all
    then show thesis using shrink_realloc[OF assms(1-3) c(1) i] c(3) 2 by blast
  next
    case c: 4
    then show thesis using shrink_copy[OF assms(1-3) c(1) assms(4) c(2,3)] 2 by blast
  qed
qed

end

end
