(* ===== verification/Shim_Vector_Values.thy ===== *)
theory Shim_Vector_Values
  imports Shim_Vector_Remove "HOL-Library.Multiset"
begin

text \<open>
  Vectors as values. A program that creates, copies, assigns, changes and deletes vectors, whatever buffers they
  share, does to them what it would do to lists; no operation faults, and when no vector is left no
  buffer is.
\<close>

section \<open>The operations on one vector\<close>

lemma put_put: "length xs = length ys \<Longrightarrow> i + length xs \<le> length d \<Longrightarrow> put (put d i xs) i ys = put d i ys"
  by (simp add: put_def)

lemma put_single: "i < length d \<Longrightarrow> put d i [y] = d[i := y]"
  by (simp add: put_def upd_conv_take_nth_drop)

context item_ops
begin

text \<open>The value an item that is given by a pointer stands for: a null pointer asks for a fresh one.\<close>

definition val :: "'a option \<Rightarrow> 'a" where
  "val item = (case item of Some x \<Rightarrow> x | None \<Rightarrow> dflt)"

definition item_ok :: "VectorImpl \<Rightarrow> 'a option \<Rightarrow> bool" where
  "item_ok v item \<longleftrightarrow> item = None \<longrightarrow> \<not> flag v HAS_TRIVIAL_CTOR"

lemma fill_put:
  assumes "item_ok v item" "i + n \<le> length d"
  shows "(case item of Some x \<Rightarrow> t_splat T d i x n | None \<Rightarrow> do_construct T v d i n) = put d i (map Some (replicate n (val item)))"
  using assms by (cases item) (simp_all add: item_ok_def val_def splat construct do_construct_def)

lemma insertAt_effect:
  assumes "own T v us st" "filled v st" "grow_fits T v n" "item_ok v item"
  obtains (1) "insertAt T v item i n st = Inl Fatal" "malloc_fails st \<noteq> []"
  | (2) e v' st' where "insertAt T v item i n st = Inr (Inl e, v', st')" "moved T v us st v' st'"
      "items v' st' = items v st" "filled v' st'"
      "e = BAD_INDEX \<and> i > mCount v \<or> e = NO_MEMORY \<and> i \<le> mCount v \<and> (malloc_fails st \<noteq> [] \<or> n = 0)"
  | (3) v' st' where "insertAt T v item i n st = Inr (Inr i, v', st')" "moved T v us st v' st'" "i \<le> mCount v"
      "items v' st' = take i (items v st) @ replicate n (val item) @ drop i (items v st)" "filled v' st'"
  using insert_with_effect[OF assms(1-3) fill_put[OF assms(4)] length_replicate, of i thesis, folded insertAt_def] 1 2 3
  by blast

lemma replace_put:
  assumes "item_ok v item" "i < length d"
  shows "(let d1 = do_destroy T v d i 1
    in case item of None \<Rightarrow> do_construct T v d1 i 1 | Some x \<Rightarrow> do_copy T v d1 i [Some x] 0 1) = d[i := Some (val item)]"
proof -
  let ?d1 = "do_destroy T v d i 1"
  have l: "length ?d1 = length d" using do_destroy_length[of i 1 d v] assms(2) by simp
  have "(case item of None \<Rightarrow> do_construct T v ?d1 i 1 | Some x \<Rightarrow> do_copy T v ?d1 i [Some x] 0 1) = put ?d1 i [Some (val item)]"
    using assms l by (cases item) (simp_all add: item_ok_def val_def construct do_construct_def do_copy_put)
  also have "\<dots> = put d i [Some (val item)]"
    using assms(2) destroy[of i 1 d] by (simp add: do_destroy_def put_put)
  finally show ?thesis unfolding Let_def using put_single[OF assms(2)] by simp
qed

lemma replaceAt_effect:
  assumes "own T v us st" "filled v st" "item_ok v item"
  obtains (1) "replaceAt T v item i st = Inl Fatal" "malloc_fails st \<noteq> []"
  | (2) "replaceAt T v item i st = Inr (Inl BAD_INDEX, v, st)" "i \<ge> mCount v"
  | (3) v' st' where "replaceAt T v item i st = Inr (Inr i, v', st')" "moved T v us st v' st'" "i < mCount v"
      "items v' st' = (items v st)[i := val item]" "filled v' st'"
proof (cases "i < mCount v")
  case False
  then show thesis using 2 by (simp add: replaceAt_def)
next
  case i: True
  then have cap: "capacity v st = Inr (length (area v st))" "i < length (area v st)" "mStorage v \<noteq> 0"
    using own_capacity[OF assms(1)] own_area_length[OF assms(1)] ownD(4)[OF assms(1)] by (auto simp: placed_def split: if_splits)
  show thesis
  proof (cases rule: editArray_moved[OF assms(1,2)])
    case c: 1
    then show thesis using 1 i cap by (simp add: replaceAt_def editItemLocation_def)
  next
    case edits: (2 v1 st1)
    let ?d = "(area v1 st1)[i := Some (val item)]"
    have o1: "own T v1 us st1" and arr: "arrayImpl v1 st1 = Inr (area v1 st1)"
      using edits(2) own_array[of T v1 us st1] by (simp_all add: moved_def)
    have s1: "sole v1 st1" "mStorage v1 \<noteq> 0" using edits(6) cap(3) by blast+
    have "replaceAt T v item i st = Inr (Inr i, v1, set_array v1 ?d st1)"
      using i cap edits(1,4) arr s1(2) replace_put[OF assms(3), of i "area v1 st1"]
      by (simp add: replaceAt_def editItemLocation_def Let_def)
    moreover have "mCount v1 \<le> length ?d" using own_area_length[OF o1] by simp
    note w = write_moved[OF o1 s1(1) _ this, simplified]
    have "take (mCount v1) (area v1 (set_array v1 ?d st1)) = map Some ((items v st)[i := val item])"
      unfolding w(2) using edits(3,5) filled_items[OF assms(2)] by (simp add: take_update_swap map_update)
    from itemsI[OF this] have "items v1 (set_array v1 ?d st1) = (items v st)[i := val item]" "filled v1 (set_array v1 ?d st1)"
      by simp_all
    ultimately show thesis using 3[of v1 "set_array v1 ?d st1"] moved_trans[OF edits(2) w(1)] i by blast
  qed
qed

end

section \<open>Collections of vectors\<close>

text \<open>\<open>vs\<close> are all the vectors that use the store, of one item size.\<close>

definition owns :: "'a type_ops \<Rightarrow> nat \<Rightarrow> VectorImpl list \<Rightarrow> 'a store \<Rightarrow> bool" where
  "owns T isz vs st \<longleftrightarrow> 0 < isz \<and> 0 < next_buf st \<and> bufs st 0 = None \<and>
     (\<forall>a b. bufs st a = Some b \<longrightarrow> a < next_buf st \<and> 0 < mRefs b \<and> mRefs b = count_list (map mStorage vs) a \<and> buf_ok T isz b) \<and>
     (\<forall>v \<in> set vs. placed v st \<and> mItemSize v = isz \<and> filled v st)"

lemma ownsD:
  assumes "owns T isz vs st"
  shows "0 < isz" "0 < next_buf st" "bufs st 0 = None" "v \<in> set vs \<Longrightarrow> placed v st" "v \<in> set vs \<Longrightarrow> mItemSize v = isz"
    "v \<in> set vs \<Longrightarrow> filled v st" "bufs st a = Some b \<Longrightarrow> a < next_buf st" "bufs st a = Some b \<Longrightarrow> 0 < mRefs b"
    "bufs st a = Some b \<Longrightarrow> mRefs b = count_list (map mStorage vs) a" "bufs st a = Some b \<Longrightarrow> buf_ok T isz b"
  using assms unfolding owns_def by blast+

lemma owns_nonzero: "owns T isz vs st \<Longrightarrow> bufs st a = Some b \<Longrightarrow> a \<noteq> 0"
  using ownsD(3)[of T isz vs st] by (metis option.distinct(1))

lemma ownsI:
  assumes "0 < isz" "0 < next_buf st" "bufs st 0 = None" "\<And>v. v \<in> set vs \<Longrightarrow> placed v st \<and> mItemSize v = isz \<and> filled v st"
    "\<And>a b. bufs st a = Some b \<Longrightarrow> a < next_buf st \<and> 0 < mRefs b \<and> mRefs b = count_list (map mStorage vs) a \<and> buf_ok T isz b"
  shows "owns T isz vs st"
  unfolding owns_def using assms by blast

definition vals :: "VectorImpl list \<Rightarrow> 'a store \<Rightarrow> 'a list list" where
  "vals vs st = map (\<lambda>v. items v st) vs"

definition others :: "nat \<Rightarrow> 'b list \<Rightarrow> 'b list" where
  "others k vs = take k vs @ drop (Suc k) vs"

lemma owns_mset: "mset vs = mset ws \<Longrightarrow> owns T isz vs st = owns T isz ws st"
proof -
  assume m: "mset vs = mset ws"
  then have "mset (map mStorage vs) = mset (map mStorage ws)" by simp
  then have "count_list (map mStorage vs) a = count_list (map mStorage ws) a" for a by (metis count_mset)
  moreover have "set vs = set ws" using m by (rule mset_eq_setD)
  ultimately show ?thesis by (simp add: owns_def)
qed

lemma mset_others: "k < length vs \<Longrightarrow> mset vs = mset (vs ! k # others k vs)"
  by (subst id_take_nth_drop[of k vs]) (simp_all add: others_def)

lemma mset_update_others: "k < length vs \<Longrightarrow> mset (vs[k := v]) = mset (v # others k vs)"
  by (simp add: upd_conv_take_nth_drop others_def)

lemma nth_others: "j < length vs \<Longrightarrow> j \<noteq> k \<Longrightarrow> vs ! j \<in> set (others k vs)"
  by (cases "j < k") (auto simp: others_def in_set_conv_nth intro: exI[of _ j] exI[of _ "j - Suc k"])

lemma owns_own: "owns T isz (v # us) st \<longleftrightarrow> own T v us st \<and> filled v st \<and> mItemSize v = isz \<and>
    (\<forall>u \<in> set us. mItemSize u = isz \<and> filled u st)"
  unfolding owns_def own_def by auto

lemma same_areas_filled: "same_areas us st st' \<Longrightarrow> u \<in> set us \<Longrightarrow> filled u st' = filled u st"
  by (simp add: same_areas_def filled_def)

text \<open>One vector changes, the others keep their items.\<close>

lemma owns_put:
  assumes "k < length vs" "owns T isz (v' # others k vs) st'" "same_areas (others k vs) st st'"
  shows "owns T isz (vs[k := v']) st'" "vals (vs[k := v']) st' = (vals vs st)[k := items v' st']"
proof -
  show "owns T isz (vs[k := v']) st'" using assms(2) owns_mset[OF mset_update_others[OF assms(1)]] by blast
  have keep: "items (vs ! j) st' = items (vs ! j) st" if "j < length vs" "j \<noteq> k" for j
    using nth_others[OF that] assms(3) by (simp add: same_areas_def items_def)
  show "vals (vs[k := v']) st' = (vals vs st)[k := items v' st']"
  proof (rule nth_equalityI)
    fix j assume "j < length (vals (vs[k := v']) st')"
    then show "vals (vs[k := v']) st' ! j = (vals vs st)[k := items v' st'] ! j"
      using keep[of j] by (cases "j = k") (simp_all add: vals_def)
  qed (simp add: vals_def)
qed

lemma owns_snoc: "owns T isz (vs @ [w]) st = owns T isz (w # vs) st"
  by (rule owns_mset) simp

lemma owns_focus: "owns T isz vs st \<Longrightarrow> k < length vs \<Longrightarrow> owns T isz (vs ! k # others k vs) st"
  using owns_mset[OF mset_others] by blast

lemma owns_update:
  assumes "owns T isz vs st" "k < length vs" "moved T (vs ! k) (others k vs) st v' st'" "filled v' st'"
  shows "owns T isz (vs[k := v']) st'" "vals (vs[k := v']) st' = (vals vs st)[k := items v' st']"
    "malloc_fails st = [] \<Longrightarrow> malloc_fails st' = []"
proof -
  let ?us = "others k vs"
  have "owns T isz (v' # ?us) st'"
    using owns_focus[OF assms(1,2)] assms(3,4) same_areas_filled[of ?us st st'] unfolding owns_own moved_def by auto
  moreover have "same_areas ?us st st'" using assms(3) by (simp add: moved_def)
  ultimately show "owns T isz (vs[k := v']) st'" "vals (vs[k := v']) st' = (vals vs st)[k := items v' st']"
    by (rule owns_put[OF assms(2)])+
  show "malloc_fails st = [] \<Longrightarrow> malloc_fails st' = []" using assms(3) by (simp add: moved_def)
qed

text \<open>Copying a vector: one more reference.\<close>

lemma owns_acquire:
  assumes "owns T isz vs st" "v \<in> set vs" "mStorage v \<noteq> 0"
  obtains st' where "acquire (mStorage v) st = Inr st'" "malloc_fails st' = malloc_fails st"
    "\<And>w. mStorage w = mStorage v \<Longrightarrow> mCount w = mCount v \<Longrightarrow> mItemSize w = isz \<Longrightarrow> owns T isz (w # vs) st'"
    "\<And>u. area u st' = area u st"
proof -
  note o = ownsD[OF assms(1)]
  obtain b where b: "bufs st (mStorage v) = Some b" using o(4)[OF assms(2)] assms(3) by (auto simp: placed_def)
  let ?st = "set_buf (mStorage v) (Some (b\<lparr>mRefs := Suc (mRefs b)\<rparr>)) st"
  have area: "area u ?st = area u st" for u using b by (simp add: area_def set_buf_def)
  have pl: "placed u ?st" if "placed u st" for u using that b by (auto simp: placed_def set_buf_def split: if_splits)
  have bd: "a < next_buf ?st \<and> 0 < mRefs y \<and> mRefs y = count_list (map mStorage (w # vs)) a \<and> buf_ok T isz y"
    if "mStorage w = mStorage v" "bufs ?st a = Some y" for w a y
  proof (cases "a = mStorage v")
    case True
    then have "y = b\<lparr>mRefs := Suc (mRefs b)\<rparr>" using that(2) by (simp add: set_buf_def)
    then show ?thesis using o(7-10)[OF b] True that(1) by (simp add: set_buf_def buf_ok_def)
  next
    case False
    then have "bufs st a = Some y" using that(2) by (simp add: set_buf_def)
    from o(7-10)[OF this] show ?thesis using False that(1) by (simp add: set_buf_def)
  qed
  have "owns T isz (w # vs) ?st" if w: "mStorage w = mStorage v" "mCount w = mCount v" "mItemSize w = isz" for w
  proof (rule ownsI[OF o(1)])
    have "placed w st \<and> filled w st" using o(4,6)[OF assms(2)] w by (simp add: placed_def filled_def area_def)
    then show "placed u ?st \<and> mItemSize u = isz \<and> filled u ?st" if "u \<in> set (w # vs)" for u
      using that o(4-6)[of u] pl w(3) area by (auto simp: filled_def)
    show "a < next_buf ?st \<and> 0 < mRefs y \<and> mRefs y = count_list (map mStorage (w # vs)) a \<and> buf_ok T isz y"
      if "bufs ?st a = Some y" for a y by (rule bd[OF w(1) that])
  qed (use o(2,3) assms(3) in \<open>simp_all add: set_buf_def\<close>)
  moreover have "acquire (mStorage v) st = Inr ?st" using b assms(3) by (simp add: acquire_def deref_def)
  ultimately show thesis using that[of ?st] area by (simp add: set_buf_def)
qed

text \<open>Giving up the storage of a vector.\<close>

lemma owns_release:
  assumes "owns T isz (v # us) st"
  obtains st' where "release_storage T v st = Inr st'" "malloc_fails st' = malloc_fails st" "owns T isz us st'"
    "same_areas us st st'"
proof -
  note o = ownsD[OF assms]
  let ?a = "mStorage v"
  let ?st = "st\<lparr>bufs := (bufs st)(?a := drop_ref (bufs st ?a))\<rparr>"
  have rel: "release_storage T v st = Inr ?st"
    by (rule release_storage_eq) (use o(3) o(4)[of v] o(8) in \<open>auto simp: placed_def split: if_splits\<close>)
  have kept: "\<exists>b'. bufs ?st (mStorage u) = Some b' \<and> sb_data b' = sb_data b"
    if "u \<in> set us" "bufs st (mStorage u) = Some b" for u b
  proof (cases "mStorage u = ?a")
    case True
    have "1 \<le> count_list (map mStorage us) ?a" using that(1) True
      by (metis count_list_0_iff image_eqI less_one linorder_not_less list.set_map)
    then have "mRefs b \<noteq> 1" using o(9)[OF that(2)] True by simp
    then show ?thesis using that(2) True by (simp add: drop_ref_def)
  qed (use that in simp)
  have z: "bufs ?st 0 = None" using o(3) by (simp add: drop_ref_def)
  have area: "area u ?st = area u st" if "u \<in> set us" for u
  proof (cases "bufs st (mStorage u)")
    case None
    then show ?thesis by (cases "mStorage u = ?a") (simp_all add: area_def drop_ref_def)
  next
    case (Some b)
    then show ?thesis using kept[OF that] by (fastforce simp: area_def)
  qed
  have "owns T isz us ?st"
  proof (rule ownsI[OF o(1) _ z])
    show "placed u ?st \<and> mItemSize u = isz \<and> filled u ?st" if u: "u \<in> set us" for u
    proof -
      have "placed u ?st"
      proof (cases "mStorage u = 0")
        case False
        then obtain b where "bufs st (mStorage u) = Some b" "mCount u \<le> length (sb_data b)"
          using o(4)[of u] u by (auto simp: placed_def)
        then show ?thesis using kept[OF u] False by (fastforce simp: placed_def)
      qed (use o(4)[of u] u in \<open>simp add: placed_def\<close>)
      then show ?thesis using o(5,6)[of u] u area[OF u] by (simp add: filled_def)
    qed
    show "a < next_buf ?st \<and> 0 < mRefs y \<and> mRefs y = count_list (map mStorage us) a \<and> buf_ok T isz y"
      if y: "bufs ?st a = Some y" for a y
    proof (cases "a = ?a")
      case True
      then obtain b where b: "bufs st ?a = Some b" "mRefs b \<noteq> 1" "y = b\<lparr>mRefs := mRefs b - 1\<rparr>"
        using y by (auto simp: drop_ref_def split: option.splits if_splits)
      show ?thesis using o(7-10)[OF b(1)] b True by (simp add: buf_ok_def)
    next
      case False
      then have "bufs st a = Some y" using y by simp
      from o(7-10)[OF this] show ?thesis using False by simp
    qed
  qed (use o(2) in simp)
  then show thesis using that[OF rel] area by (simp add: same_areas_def)
qed

text \<open>A vector without storage is free of charge.\<close>

lemma owns_empty:
  assumes "owns T isz vs st" "mStorage v = 0" "mCount v = 0" "mItemSize v = isz"
  shows "owns T isz (v # vs) st"
proof -
  note o = ownsD[OF assms(1)]
  show ?thesis
  proof (rule ownsI[OF o(1-3)])
    show "placed u st \<and> mItemSize u = isz \<and> filled u st" if "u \<in> set (v # vs)" for u
      using that o(4-6)[of u] assms(2-4) by (auto simp: placed_def filled_def)
    show "a < next_buf st \<and> 0 < mRefs b \<and> mRefs b = count_list (map mStorage (v # vs)) a \<and> buf_ok T isz b"
      if "bufs st a = Some b" for a b
      using o(7-10)[OF that] owns_nonzero[OF assms(1) that] assms(2) by simp
  qed
qed

section \<open>Programs\<close>

text \<open>
  What a program does with its vectors, which are numbered: create, copy, assign, insert \<open>n\<close> copies of an item at \<open>i\<close>, append another
  vector, replace, remove \<open>n\<close> items at \<open>i\<close>, clear, delete the last one created.
\<close>

datatype 'a vop =
    New "32 word"
  | Copy nat
  | Assign nat nat
  | Insert nat 'a nat nat
  | Append nat nat
  | Replace nat 'a nat
  | Remove nat nat nat
  | Clear nat
  | Delete nat

type_synonym 'a vectors = "VectorImpl list \<times> 'a store"

text \<open>One operation, performed by the code.\<close>

fun vop_step :: "'a type_ops \<Rightarrow> nat \<Rightarrow> 'a vop \<Rightarrow> 'a vectors \<Rightarrow> (ssize \<times> 'a vectors) result" where
  "vop_step T isz (New fl) (vs, st) = Inr (Inr 0, vs @ [new_vector isz fl], st)"
| "vop_step T isz (Copy k) (vs, st) = map_sum id (\<lambda>(w, st'). (Inr 0, vs @ [w], st')) (copy_vector (vs ! k) st)"
| "vop_step T isz (Assign k j) (vs, st) = map_sum id (\<lambda>(w, st'). (Inr 0, vs[k := w], st')) (assign T (vs ! k) (vs ! j) st)"
| "vop_step T isz (Insert k x i n) (vs, st) = map_sum id (\<lambda>(r, w, st'). (r, vs[k := w], st')) (insertAt T (vs ! k) (Some x) i n st)"
| "vop_step T isz (Append k j) (vs, st) = map_sum id (\<lambda>(r, w, st'). (r, vs[k := w], st')) (appendVector T (vs ! k) (vs ! j) st)"
| "vop_step T isz (Replace k x i) (vs, st) = map_sum id (\<lambda>(r, w, st'). (r, vs[k := w], st')) (replaceAt T (vs ! k) (Some x) i st)"
| "vop_step T isz (Remove k i n) (vs, st) = map_sum id (\<lambda>(r, w, st'). (r, vs[k := w], st')) (removeItemsAt T (vs ! k) i n st)"
| "vop_step T isz (Clear k) (vs, st) = map_sum id (\<lambda>(w, st'). (Inr 0, vs[k := w], st')) (clear T (vs ! k) st)"
| "vop_step T isz (Delete k) (vs, st) = map_sum id (\<lambda>(w, st'). (Inr 0, others k vs, st')) (finish_vector T (vs ! k) st)"

fun vop_run :: "'a type_ops \<Rightarrow> nat \<Rightarrow> 'a vop list \<Rightarrow> 'a vectors \<Rightarrow> (ssize list \<times> 'a vectors) result" where
  "vop_run T isz [] s = Inr ([], s)"
| "vop_run T isz (p # ps) s = (case vop_step T isz p s of
       Inl f \<Rightarrow> Inl f
     | Inr (r, s1) \<Rightarrow> map_sum id (\<lambda>(rs, s2). (r # rs, s2)) (vop_run T isz ps s1))"

text \<open>The same on lists.\<close>

definition edit_at :: "nat \<Rightarrow> ('b \<Rightarrow> 'b) \<Rightarrow> 'b list \<Rightarrow> 'b list" where
  "edit_at k f ls = ls[k := f (ls ! k)]"

fun vop_spec :: "'a vop \<Rightarrow> 'a list list \<Rightarrow> ssize \<times> 'a list list" where
  "vop_spec (New fl) ls = (Inr 0, ls @ [[]])"
| "vop_spec (Copy k) ls = (Inr 0, ls @ [ls ! k])"
| "vop_spec (Assign k j) ls = (Inr 0, ls[k := ls ! j])"
| "vop_spec (Insert k x i n) ls =
     (if i > length (ls ! k) then (Inl BAD_INDEX, ls)
      else (Inr i, edit_at k (\<lambda>l. take i l @ replicate n x @ drop i l) ls))"
| "vop_spec (Append k j) ls = (Inr (length (ls ! k)), edit_at k (\<lambda>l. l @ ls ! j) ls)"
| "vop_spec (Replace k x i) ls =
     (if i \<ge> length (ls ! k) then (Inl BAD_INDEX, ls)
      else (Inr i, edit_at k (\<lambda>l. l[i := x]) ls))"
| "vop_spec (Remove k i n) ls =
     (if i + n > length (ls ! k) then (Inl BAD_VALUE, ls) else (Inr i, edit_at k (\<lambda>l. take i l @ drop (i + n) l) ls))"
| "vop_spec (Clear k) ls = (Inr 0, edit_at k (\<lambda>l. []) ls)"
| "vop_spec (Delete k) ls = (Inr 0, others k ls)"

fun vop_spec_run :: "'a vop list \<Rightarrow> 'a list list \<Rightarrow> ssize list \<times> 'a list list" where
  "vop_spec_run [] ls = ([], ls)"
| "vop_spec_run (p # ps) ls =
     (let (r, ls1) = vop_spec p ls; (rs, ls2) = vop_spec_run ps ls1 in (r # rs, ls2))"

text \<open>
  What a program keeps to: it uses vectors that exist, assigns and appends from another one, does not insert nothing, names a
  range without overflow, and no vector gets longer than \<open>N\<close> items.
\<close>

fun vop_ok :: "nat \<Rightarrow> 'a vop \<Rightarrow> 'a list list \<Rightarrow> bool" where
  "vop_ok N (New fl) ls \<longleftrightarrow> True"
| "vop_ok N (Copy k) ls \<longleftrightarrow> k < length ls"
| "vop_ok N (Assign k j) ls \<longleftrightarrow> k < length ls \<and> j < length ls \<and> k \<noteq> j"
| "vop_ok N (Insert k x i n) ls \<longleftrightarrow> k < length ls \<and> 0 < n \<and> length (ls ! k) + n \<le> N"
| "vop_ok N (Append k j) ls \<longleftrightarrow> k < length ls \<and> j < length ls \<and> k \<noteq> j \<and> ls ! j \<noteq> [] \<and> length (ls ! k) + length (ls ! j) \<le> N"
| "vop_ok N (Replace k x i) ls \<longleftrightarrow> k < length ls"
| "vop_ok N (Remove k i n) ls \<longleftrightarrow> k < length ls \<and> i + n \<le> SIZE_MAX"
| "vop_ok N (Clear k) ls \<longleftrightarrow> k < length ls"
| "vop_ok N (Delete k) ls \<longleftrightarrow> k < length ls"

fun vop_run_ok :: "nat \<Rightarrow> 'a vop list \<Rightarrow> 'a list list \<Rightarrow> bool" where
  "vop_run_ok N [] ls \<longleftrightarrow> True"
| "vop_run_ok N (p # ps) ls \<longleftrightarrow> vop_ok N p ls \<and> vop_run_ok N ps (snd (vop_spec p ls))"

text \<open>Blocks for \<open>N\<close> items can be asked for.\<close>

definition room :: "'a type_ops \<Rightarrow> nat \<Rightarrow> nat \<Rightarrow> bool" where
  "room T isz N \<longleftrightarrow> max kMinVectorCapacity (N + N div 2 + 1) * isz < SIZE_MAX - sizeof_SharedBuffer T"

lemma room_fits:
  assumes "room T isz N" "mItemSize v = isz"
  shows "shrink_fits T v" "mCount v + n \<le> N \<Longrightarrow> grow_fits T v n"
proof -
  have "kMinVectorCapacity * isz \<le> max kMinVectorCapacity (N + N div 2 + 1) * isz" by (simp add: mult_le_mono1)
  then show "shrink_fits T v" using assms(1) unfolding room_def shrink_fits_def assms(2) by (rule le_less_trans)
  assume "mCount v + n \<le> N"
  then have "mCount v + n + (mCount v + n) div 2 + 1 \<le> N + N div 2 + 1" using div_le_mono[of "mCount v + n" N 2] by linarith
  then have "max kMinVectorCapacity (mCount v + n + (mCount v + n) div 2 + 1) * isz \<le> max kMinVectorCapacity (N + N div 2 + 1) * isz"
    by (intro mult_le_mono1) simp
  then show "grow_fits T v n" using assms(1) unfolding room_def grow_fits_def assms(2) by (rule le_less_trans)
qed

lemma length_vals [simp]: "length (vals vs st) = length vs"
  by (simp add: vals_def)

lemma nth_vals [simp]: "k < length vs \<Longrightarrow> vals vs st ! k = items (vs ! k) st"
  by (simp add: vals_def)

text \<open>What one vector of a collection satisfies.\<close>

lemma owns_nth:
  assumes "owns T isz vs st" "k < length vs"
  shows "own T (vs ! k) (others k vs) st" "filled (vs ! k) st" "mItemSize (vs ! k) = isz"
    "length (items (vs ! k) st) = mCount (vs ! k)"
proof -
  have "owns T isz (vs ! k # others k vs) st" by (rule owns_focus[OF assms])
  then show "own T (vs ! k) (others k vs) st" "filled (vs ! k) st" "mItemSize (vs ! k) = isz" unfolding owns_own by blast+
  then show "length (items (vs ! k) st) = mCount (vs ! k)" using length_items by blast
qed

text \<open>The state of the collection after an operation, against the lists.\<close>

definition agrees :: "'a type_ops \<Rightarrow> nat \<Rightarrow> (ssize \<times> 'a vectors) result \<Rightarrow> ssize \<times> 'a list list \<Rightarrow> bool" where
  "agrees T isz res spec \<longleftrightarrow> (\<exists>r vs st. res = Inr (r, vs, st) \<and> owns T isz vs st \<and> malloc_fails st = [] \<and> spec = (r, vals vs st))"

lemma agreesI: "res = Inr (r, vs, st) \<Longrightarrow> owns T isz vs st \<Longrightarrow> malloc_fails st = [] \<Longrightarrow> spec = (r, vals vs st) \<Longrightarrow> agrees T isz res spec"
  by (auto simp: agrees_def)

text \<open>One vector has changed.\<close>

lemma agrees_edit:
  assumes "owns T isz vs st" "malloc_fails st = []" "k < length vs" "moved T (vs ! k) (others k vs) st v' st'" "filled v' st'"
    "items v' st' = f (items (vs ! k) st)"
  shows "agrees T isz (Inr (r, vs[k := v'], st')) (r, edit_at k f (vals vs st))"
  using owns_update[OF assms(1,3-5)] assms by (intro agreesI[OF refl]) (simp_all add: edit_at_def)

lemma agrees_same:
  assumes "owns T isz vs st" "malloc_fails st = []" "k < length vs" "moved T (vs ! k) (others k vs) st v' st'" "filled v' st'"
    "items v' st' = items (vs ! k) st"
  shows "agrees T isz (Inr (r, vs[k := v'], st')) (r, vals vs st)"
proof -
  have "edit_at k (\<lambda>l. l) (vals vs st) = vals vs st" by (simp add: edit_at_def)
  then show ?thesis using agrees_edit[where f = "\<lambda>l. l" and r = r, OF assms] by simp
qed

context item_ops
begin

lemma val_Some [simp]: "val (Some x) = x" "item_ok v (Some x)"
  by (simp_all add: val_def item_ok_def)

lemma append_effect:
  assumes "own T v us st" "filled v st" "grow_fits T v (mCount u)" "u \<in> set us" "filled u st" "0 < mCount u" "malloc_fails st = []"
  obtains v' st' where "appendVector T v u st = Inr (Inr (mCount v), v', st')" "moved T v us st v' st'"
      "items v' st' = items v st @ items u st" "filled v' st'"
proof -
  have "placed u st" using ownD(5)[OF assms(1)] assms(4) by blast
  then have u: "arrayImpl u st = Inr (area u st)" "mCount u \<le> length (area u st)"
    using ownD(3)[OF assms(1)] by (auto simp: placed_def arrayImpl_def deref_def area_def split: if_splits)
  let ?fill = "\<lambda>d. do_copy T v d (mCount v) (area u st) 0 (mCount u)"
  have len: "length (items u st) = mCount u" using u(2) by (simp add: items_def)
  have fill: "?fill d = put d (mCount v) (map Some (items u st))" if "mCount v + mCount u \<le> length d" for d
    using do_copy_put[of "mCount v" "mCount u" d 0 "area u st" v] that u(2) assms(5) filled_items[OF assms(5)]
    by (simp add: filled_def)
  have app: "appendVector T v u st = insert_with T v (mCount v) (mCount u) ?fill st"
    by (simp add: appendVector_def insertVectorAt_def insertArrayAt_def u(1))
  show thesis
    by (rule insert_with_effect[where fill = ?fill and ys = "items u st", OF assms(1-3) fill len])
      (use that assms(6,7) app length_items[OF assms(1)] in fastforce)+
qed

text \<open>Each operation of the code does what the specification says.\<close>

lemma step_insert:
  assumes "owns T isz vs st" "malloc_fails st = []" "room T isz N" "vop_ok N (Insert k x i n) (vals vs st)"
  shows "agrees T isz (vop_step T isz (Insert k x i n) (vs, st)) (vop_spec (Insert k x i n) (vals vs st))"
proof -
  have k: "k < length vs" using assms(4) by simp
  note v = owns_nth[OF assms(1) k]
  have f: "grow_fits T (vs ! k) n" using room_fits(2)[OF assms(3) v(3)] assms(4) v(4) k by simp
  show ?thesis
  proof (cases rule: insertAt_effect[where i = i and item = "Some x", OF v(1,2) f val_Some(2)])
    case (2 e v' st')
    then show ?thesis using agrees_same[OF assms(1,2) k 2(2,4,3)] v(4) k assms(2,4) by simp
  next
    case (3 v' st')
    then show ?thesis using agrees_edit[where f = "\<lambda>l. take i l @ replicate n x @ drop i l", OF assms(1,2) k 3(2,5)] v(4) k by simp
  qed (use assms(2) in simp)
qed

lemma step_append:
  assumes "owns T isz vs st" "malloc_fails st = []" "room T isz N" "vop_ok N (Append k j) (vals vs st)"
  shows "agrees T isz (vop_step T isz (Append k j) (vs, st)) (vop_spec (Append k j) (vals vs st))"
proof -
  have k: "k < length vs" "j < length vs" "k \<noteq> j" using assms(4) by simp_all
  note v = owns_nth[OF assms(1) k(1)] and u = owns_nth[OF assms(1) k(2)]
  have f: "grow_fits T (vs ! k) (mCount (vs ! j))" using room_fits(2)[OF assms(3) v(3)] assms(4) v(4) u(4) k by simp
  have pos: "0 < mCount (vs ! j)" using assms(4) k u(4) by (metis length_greater_0_conv nth_vals vop_ok.simps(5))
  obtain v' st' where a: "appendVector T (vs ! k) (vs ! j) st = Inr (Inr (mCount (vs ! k)), v', st')"
    "moved T (vs ! k) (others k vs) st v' st'" "items v' st' = items (vs ! k) st @ items (vs ! j) st" "filled v' st'"
    by (rule append_effect[OF v(1,2) f nth_others[OF k(2) k(3)[symmetric]] u(2) pos assms(2)])
  show ?thesis
    using a agrees_edit[where f = "\<lambda>l. l @ items (vs ! j) st", OF assms(1,2) k(1) a(2,4,3)] v(4) k by simp
qed

lemma step_replace:
  assumes "owns T isz vs st" "malloc_fails st = []" "k < length vs"
  shows "agrees T isz (vop_step T isz (Replace k x i) (vs, st)) (vop_spec (Replace k x i) (vals vs st))"
proof -
  note v = owns_nth[OF assms(1,3)]
  show ?thesis
  proof (cases rule: replaceAt_effect[where i = i and item = "Some x", OF v(1,2) val_Some(2)])
    case 2
    then show ?thesis using agrees_same[OF assms moved_refl[OF v(1)] v(2) refl] v(4) assms(3) by simp
  next
    case (3 v' st')
    then show ?thesis using agrees_edit[where f = "\<lambda>l. l[i := x]", OF assms 3(2,5)] v(4) assms(3) by simp
  qed (use assms(2) in simp)
qed

lemma shrink_agrees:
  assumes "owns T isz vs st" "malloc_fails st = []" "room T isz N" "k < length vs" "i + n \<le> mCount (vs ! k)"
  obtains v' st' where "shrink T (vs ! k) i n st = Inr (v', st')"
    "\<forall>r. agrees T isz (Inr (r, vs[k := v'], st')) (r, edit_at k (\<lambda>l. take i l @ drop (i + n) l) (vals vs st))"
proof -
  note v = owns_nth[OF assms(1,4)]
  show thesis
  proof (cases rule: shrink_effect[OF v(1,2) room_fits(1)[OF assms(3) v(3)] assms(5)])
    case (2 v' st')
    then have r: "moved T (vs ! k) (others k vs) st v' st'" "filled v' st'"
      "items v' st' = take i (items (vs ! k) st) @ drop (i + n) (items (vs ! k) st)"
      using assms(2) by (simp_all add: removed_def)
    show thesis using that[OF 2(1)] agrees_edit[where f = "\<lambda>l. take i l @ drop (i + n) l", OF assms(1,2,4) r] by simp
  qed (use assms(2) in simp)
qed

lemma step_remove:
  assumes "owns T isz vs st" "malloc_fails st = []" "room T isz N" "k < length vs" "i + n \<le> SIZE_MAX"
  shows "agrees T isz (vop_step T isz (Remove k i n) (vs, st)) (vop_spec (Remove k i n) (vals vs st))"
proof -
  note v = owns_nth[OF assms(1,4)]
  have m: "(i + n) mod 2 ^ 32 = i + n" using assms(5) by (simp add: SIZE_MAX_def)
  show ?thesis
  proof (cases "i + n \<le> mCount (vs ! k)")
    case True
    obtain v' st' where "shrink T (vs ! k) i n st = Inr (v', st')"
      "\<forall>r. agrees T isz (Inr (r, vs[k := v'], st')) (r, edit_at k (\<lambda>l. take i l @ drop (i + n) l) (vals vs st))"
      by (rule shrink_agrees[OF assms(1-4) True])
    then show ?thesis using True v(4) assms(4) unfolding vop_step.simps removeItemsAt_def m by simp
  next
    case False
    then show ?thesis using agrees_same[OF assms(1,2,4) moved_refl[OF v(1)] v(2) refl] v(4) assms(4)
      unfolding vop_step.simps removeItemsAt_def m by simp
  qed
qed

lemma step_clear:
  assumes "owns T isz vs st" "malloc_fails st = []" "room T isz N" "k < length vs"
  shows "agrees T isz (vop_step T isz (Clear k) (vs, st)) (vop_spec (Clear k) (vals vs st))"
proof -
  note v = owns_nth[OF assms(1,4)]
  obtain v' st' where "shrink T (vs ! k) 0 (mCount (vs ! k)) st = Inr (v', st')"
    "\<forall>r. agrees T isz (Inr (r, vs[k := v'], st')) (r, edit_at k (\<lambda>l. take 0 l @ drop (0 + mCount (vs ! k)) l) (vals vs st))"
    by (rule shrink_agrees[OF assms(1-4), of 0 "mCount (vs ! k)"]) auto
  then show ?thesis using v(4) assms(4) by (simp add: clear_def edit_at_def)
qed

lemma step_new:
  assumes "owns T isz vs st" "malloc_fails st = []"
  shows "agrees T isz (vop_step T isz (New fl) (vs, st)) (vop_spec (New fl) (vals vs st))"
proof -
  let ?w = "new_vector isz fl"
  have "owns T isz (?w # vs) st" by (rule owns_empty[OF assms(1)]) (simp_all add: new_vector_def)
  then show ?thesis using assms(2) by (simp add: agrees_def owns_snoc vals_def items_def new_vector_def)
qed

lemma step_copy:
  assumes "owns T isz vs st" "malloc_fails st = []" "k < length vs"
  shows "agrees T isz (vop_step T isz (Copy k) (vs, st)) (vop_spec (Copy k) (vals vs st))"
proof -
  let ?w = "vs ! k"
  note v = owns_nth[OF assms(1,3)]
  show ?thesis
  proof (cases "mStorage ?w = 0")
    case True
    then have "owns T isz (?w # vs) st" using owns_empty[OF assms(1) True] ownD(4)[OF v(1)] v(3) by (simp add: placed_def)
    then show ?thesis using assms(2,3) True by (simp add: agrees_def owns_snoc vals_def copy_vector_def)
  next
    case False
    obtain st' where st': "acquire (mStorage ?w) st = Inr st'" "malloc_fails st' = malloc_fails st"
      "\<And>w. mStorage w = mStorage ?w \<Longrightarrow> mCount w = mCount ?w \<Longrightarrow> mItemSize w = isz \<Longrightarrow> owns T isz (w # vs) st'"
      "\<And>u. area u st' = area u st" by (rule owns_acquire[OF assms(1) nth_mem[OF assms(3)] False]) blast
    show ?thesis using assms(2,3) False st'(1,2,4) st'(3)[OF refl refl v(3)]
      by (simp add: agrees_def owns_snoc vals_def copy_vector_def items_def)
  qed
qed

lemma step_assign:
  assumes "owns T isz vs st" "malloc_fails st = []" "k < length vs" "j < length vs" "k \<noteq> j"
  shows "agrees T isz (vop_step T isz (Assign k j) (vs, st)) (vop_spec (Assign k j) (vals vs st))"
proof -
  let ?v = "vs ! k" and ?rhs = "vs ! j" and ?us = "others k vs"
  note v = owns_nth[OF assms(1,3)] and u = owns_nth[OF assms(1,4)]
  obtain st1 where r: "release_storage T ?v st = Inr st1" "malloc_fails st1 = malloc_fails st" "owns T isz ?us st1" "same_areas ?us st st1"
    by (rule owns_release[OF owns_focus[OF assms(1,3)]])
  have j: "?rhs \<in> set ?us" by (rule nth_others[OF assms(4) assms(5)[symmetric]])
  then have a1: "area ?rhs st1 = area ?rhs st" using r(4) by (simp add: same_areas_def)
  obtain w st2 where w: "assign T ?v ?rhs st = Inr (w, st2)" "owns T isz (w # ?us) st2" "malloc_fails st2 = []"
    "same_areas ?us st1 st2" "items w st2 = items ?rhs st"
  proof (cases "mCount ?rhs = 0")
    case True
    let ?w = "?v\<lparr>mStorage := 0, mCount := 0\<rparr>"
    have "owns T isz (?w # ?us) st1" using v(3) by (intro owns_empty[OF r(3)]) simp_all
    then show thesis using that[of ?w st1] True v(3) u(3) r(1,2) assms(2) by (simp add: assign_def items_def)
  next
    case False
    let ?w = "?v\<lparr>mStorage := mStorage ?rhs, mCount := mCount ?rhs\<rparr>"
    have s: "mStorage ?rhs \<noteq> 0" using False ownD(4)[OF u(1)] by (auto simp: placed_def split: if_splits)
    obtain st2 where st2: "acquire (mStorage ?rhs) st1 = Inr st2" "malloc_fails st2 = malloc_fails st1"
      "\<And>w. mStorage w = mStorage ?rhs \<Longrightarrow> mCount w = mCount ?rhs \<Longrightarrow> mItemSize w = isz \<Longrightarrow> owns T isz (w # ?us) st2"
      "\<And>u. area u st2 = area u st1" by (rule owns_acquire[OF r(3) j s]) blast
    have "owns T isz (?w # ?us) st2" using v(3) by (intro st2(3)) simp_all
    moreover have "items ?w st2 = items ?rhs st" using st2(4)[of ?rhs] a1 by (simp add: items_def area_def)
    ultimately show thesis using that[of ?w st2] False v(3) u(3) r(1,2) st2(1,2,4) assms(2) by (simp add: assign_def same_areas_def)
  qed
  note p = owns_put[OF assms(3) w(2) same_areas_trans[OF r(4) w(4)]]
  then show ?thesis using w(1,3,5) assms(4) by (simp add: agrees_def)
qed

lemma step_delete:
  assumes "owns T isz vs st" "malloc_fails st = []" "k < length vs"
  shows "agrees T isz (vop_step T isz (Delete k) (vs, st)) (vop_spec (Delete k) (vals vs st))"
proof -
  let ?us = "others k vs"
  obtain st1 where r: "release_storage T (vs ! k) st = Inr st1" "malloc_fails st1 = malloc_fails st" "owns T isz ?us st1" "same_areas ?us st st1"
    by (rule owns_release[OF owns_focus[OF assms(1,3)]])
  have "vals ?us st1 = vals ?us st" using r(4) by (simp add: vals_def same_areas_def items_def)
  also have "\<dots> = others k (vals vs st)" by (simp add: vals_def others_def take_map drop_map)
  finally show ?thesis using r(1,2,3) assms(2) by (simp add: agrees_def finish_vector_def)
qed

theorem step_agrees:
  assumes "owns T isz vs st" "malloc_fails st = []" "room T isz N" "vop_ok N p (vals vs st)"
  shows "agrees T isz (vop_step T isz p (vs, st)) (vop_spec p (vals vs st))"
proof (cases p)
  case (Insert k x i n)
  then show ?thesis using step_insert assms by blast
next
  case (Append k j)
  then show ?thesis using step_append assms by blast
qed (use assms step_new step_copy step_assign step_replace step_remove step_clear step_delete in auto)

theorem run_agrees:
  assumes "owns T isz vs st" "malloc_fails st = []" "room T isz N" "vop_run_ok N ps (vals vs st)"
  shows "\<exists>rs vs' st'. vop_run T isz ps (vs, st) = Inr (rs, vs', st') \<and> owns T isz vs' st' \<and>
    vop_spec_run ps (vals vs st) = (rs, vals vs' st')"
  using assms
proof (induction ps arbitrary: vs st)
  case (Cons p ps)
  obtain r vs1 st1 where s: "vop_step T isz p (vs, st) = Inr (r, vs1, st1)" "owns T isz vs1 st1" "malloc_fails st1 = []"
    "vop_spec p (vals vs st) = (r, vals vs1 st1)"
    using step_agrees[OF Cons.prems(1-3), of p] Cons.prems(4) unfolding agrees_def by auto
  then show ?case using Cons.IH[OF s(2,3) Cons.prems(3)] Cons.prems(4) by fastforce
qed simp

end

text \<open>
  Items whose class copies with the memory functions, with a fresh item \<open>x\<close> and an order. The moves work through
  overlapping stretches as \<open>memmove\<close> does.
\<close>

definition plain_ops :: "'a \<Rightarrow> ('a \<Rightarrow> 'a \<Rightarrow> int) \<Rightarrow> 'a type_ops" where
  "plain_ops x cmp = \<lparr>
     t_construct = (\<lambda>d i n. put d i (replicate n (Some x))),
     t_destroy = (\<lambda>d i n. put d i (replicate n None)),
     t_copy = memcpy_items,
     t_splat = (\<lambda>d i y n. put d i (replicate n (Some y))),
     t_move_forward = (\<lambda>d to from n. memcpy_items d to d from n),
     t_move_backward = (\<lambda>d to from n. memcpy_items d to d from n),
     t_compare = cmp,
     sizeof_SharedBuffer = 16\<rparr>"

interpretation plain: item_ops "plain_ops x cmp" x for x :: 'a and cmp :: "'a \<Rightarrow> 'a \<Rightarrow> int"
proof
  fix fr to n and d :: "'a cells"
  show "fr \<le> to \<Longrightarrow> to + n \<le> length d \<Longrightarrow> \<exists>gap. length gap = to - fr \<and>
      t_move_forward (plain_ops x cmp) d to fr n = take fr d @ gap @ take n (drop fr d) @ drop (to + n) d"
    by (rule exI[of _ "take (to - fr) (drop fr d)"])
      (simp add: plain_ops_def memcpy_items_def put_def take_add[symmetric] flip: append_assoc)
  show "to \<le> fr \<Longrightarrow> fr + n \<le> length d \<Longrightarrow> \<exists>rest. length rest = length d - to - n \<and>
      t_move_backward (plain_ops x cmp) d to fr n = take to d @ take n (drop fr d) @ rest"
    by (simp add: plain_ops_def memcpy_items_def put_def)
qed (simp_all add: plain_ops_def memcpy_items_def)

definition no_bufs :: "'a store" where
  "no_bufs = \<lparr>bufs = (\<lambda>_. None), next_buf = 1, malloc_fails = []\<rparr>"

lemma owns_no_bufs: "0 < isz \<Longrightarrow> owns T isz [] no_bufs"
  by (simp add: owns_def no_bufs_def)

lemma no_vectors_no_bufs: "owns T isz [] st \<Longrightarrow> bufs st = (\<lambda>_. None)"
  using ownsD(8,9)[of T isz "[]" st] by (metis count_list.simps(1) list.map(1) less_irrefl not_Some_eq ext)

text \<open>
  C24: vectors have the semantics of values. A program creates vectors, copies and assigns them (sharing the
  buffers), inserts, appends, replaces and removes items, clears and deletes vectors, in any order. As long as
  memory is there, every operation returns what the specification on lists says, every
  vector holds the list it should, whatever the others that share its buffer went through, nothing is read
  outside a buffer or after it was freed, and when the last vector is deleted no buffer is left.
\<close>

theorem vectors_are_values:
  assumes "item_ops T dflt" "0 < isz" "room T isz N" "vop_run_ok N ps []"
  shows "\<exists>rs vs st. vop_run T isz ps ([], no_bufs) = Inr (rs, vs, st) \<and> vop_spec_run ps [] = (rs, vals vs st) \<and>
    (vs = [] \<longrightarrow> bufs st = (\<lambda>_. None))"
proof -
  have e: "malloc_fails no_bufs = []" "vals [] no_bufs = []" by (simp_all add: no_bufs_def vals_def)
  obtain rs vs st where r: "vop_run T isz ps ([], no_bufs) = Inr (rs, vs, st)" "owns T isz vs st" "vop_spec_run ps [] = (rs, vals vs st)"
    using item_ops.run_agrees[OF assms(1) owns_no_bufs[OF assms(2)] e(1) assms(3), of ps, unfolded e(2), OF assms(4)] by blast
  then have "vs = [] \<longrightarrow> bufs st = (\<lambda>_. None)" using no_vectors_no_bufs by blast
  then show ?thesis using r by blast
qed

text \<open>Two vectors share a buffer, one is changed, both are deleted.\<close>

theorem vectors_are_values_witness:
  "\<exists>rs vs st. vop_run (plain_ops 0 (-)) 4 [New 7, Insert 0 (5::int) 0 2, Copy 0, Insert 1 6 1 3, Remove 0 0 1, Delete 0]
     ([], no_bufs) = Inr (rs, vs, st) \<and> ([Inr 0, Inr 0, Inr 0, Inr 1, Inr 0, Inr 0], [[5, 6, 6, 6, 5]]) = (rs, vals vs st)"
proof -
  let ?ps = "[New 7, Insert 0 (5::int) 0 2, Copy 0, Insert 1 6 1 3, Remove 0 0 1, Delete 0]"
  have "1 \<le> SIZE_MAX" by (simp add: SIZE_MAX_def)
  have "room (plain_ops (0::int) (-)) 4 8" by (simp add: room_def plain_ops_def kMinVectorCapacity_def SIZE_MAX_def)
  moreover have "vop_run_ok 8 ?ps []"
    using \<open>1 \<le> SIZE_MAX\<close> by (simp add: edit_at_def numeral_eq_Suc)
  moreover have "vop_spec_run ?ps [] = ([Inr 0, Inr 0, Inr 0, Inr 1, Inr 0, Inr 0], [[5, 6, 6, 6, 5]])"
    by code_simp
  ultimately show ?thesis using vectors_are_values[OF plain.item_ops_axioms, of 4 0 "(-)" 8 ?ps] by auto
qed

end
