(* ===== verification/Shim_Vector_Sorted.thy ===== *)
theory Shim_Vector_Sorted
  imports Shim_Vector_Values
begin

text \<open>
  Sorting and sorted vectors: \<open>VectorImpl::sort\<close> is a stable sort, the binary search of
  \<open>SortedVectorImpl\<close> agrees with a linear search, and its \<open>add\<close> and \<open>remove\<close> are those of an ordered set.
\<close>

section \<open>Orders given by a comparison\<close>

locale comparison =
  fixes cmp :: "'a \<Rightarrow> 'a \<Rightarrow> int"
  assumes swap: "cmp x y < 0 \<longleftrightarrow> 0 < cmp y x"
    and trans: "cmp x y \<le> 0 \<Longrightarrow> cmp y z \<le> 0 \<Longrightarrow> cmp x z \<le> 0"
begin

lemma swap_le: "cmp x y \<le> 0 \<longleftrightarrow> 0 \<le> cmp y x"
  using swap[of y x] by linarith

lemma eq_sym: "cmp x y = 0 \<longleftrightarrow> cmp y x = 0"
  using swap[of x y] swap[of y x] by linarith

lemma le_less_trans: "cmp x y \<le> 0 \<Longrightarrow> cmp y z < 0 \<Longrightarrow> cmp x z < 0"
  using trans[of z x y] swap_le[of z x] swap_le[of z y] swap_le[of y z] by linarith

lemma less_le_trans: "cmp x y < 0 \<Longrightarrow> cmp y z \<le> 0 \<Longrightarrow> cmp x z < 0"
  using trans[of y z x] swap_le[of z x] swap_le[of y x] by linarith

lemma eq_class: "cmp x y = 0 \<Longrightarrow> cmp x z = 0 \<longleftrightarrow> cmp y z = 0"
  using trans[of y x z] trans[of x y z] trans[of z x y] trans[of z y x] eq_sym swap_le by (smt (verit))

end

definition sorted_by :: "('a \<Rightarrow> 'a \<Rightarrow> int) \<Rightarrow> 'a list \<Rightarrow> bool" where
  "sorted_by cmp xs \<longleftrightarrow> sorted_wrt (\<lambda>x y. cmp x y \<le> 0) xs"

definition strict_by :: "('a \<Rightarrow> 'a \<Rightarrow> int) \<Rightarrow> 'a list \<Rightarrow> bool" where
  "strict_by cmp xs \<longleftrightarrow> sorted_wrt (\<lambda>x y. cmp x y < 0) xs"

text \<open>Inserting behind the last item that is not greater, and sorting by insertion.\<close>

definition insort_back :: "('a \<Rightarrow> 'a \<Rightarrow> int) \<Rightarrow> 'a \<Rightarrow> 'a list \<Rightarrow> 'a list" where
  "insort_back cmp x ys = rev (dropWhile (\<lambda>y. 0 < cmp y x) (rev ys)) @ x # rev (takeWhile (\<lambda>y. 0 < cmp y x) (rev ys))"

definition isort :: "('a \<Rightarrow> 'a \<Rightarrow> int) \<Rightarrow> 'a list \<Rightarrow> 'a list \<Rightarrow> 'a list" where
  "isort cmp ys zs = foldl (\<lambda>ys x. insort_back cmp x ys) ys zs"

lemma split_back:
  obtains front behind where "ys = front @ behind" "insort_back cmp x ys = front @ x # behind" "\<forall>y \<in> set behind. 0 < cmp y x"
    "front = [] \<or> cmp (last front) x \<le> 0"
proof
  let ?b = "takeWhile (\<lambda>y. 0 < cmp y x) (rev ys)" and ?f = "dropWhile (\<lambda>y. 0 < cmp y x) (rev ys)"
  show "ys = rev ?f @ rev ?b" by (simp flip: rev_append)
  show "insort_back cmp x ys = rev ?f @ x # rev ?b" by (simp add: insort_back_def)
  show "\<forall>y \<in> set (rev ?b). 0 < cmp y x" by (auto dest: set_takeWhileD)
  show "rev ?f = [] \<or> cmp (last (rev ?f)) x \<le> 0"
    using hd_dropWhile[of "\<lambda>y. 0 < cmp y x" "rev ys"] by (cases "?f = []") (simp_all only: last_rev linorder_not_less rev.simps simp_thms rev_is_Nil_conv)
qed

lemma length_insort_back: "length (insort_back cmp x ys) = Suc (length ys)"
  by (rule split_back[of ys cmp x]) simp

context comparison
begin

lemma insort_back_sorted:
  assumes "sorted_by cmp ys"
  shows "sorted_by cmp (insort_back cmp x ys)" "mset (insort_back cmp x ys) = add_mset x (mset ys)"
    "filter (\<lambda>y. cmp z y = 0) (insort_back cmp x ys) = filter (\<lambda>y. cmp z y = 0) (ys @ [x])"
proof -
  obtain front behind where s: "ys = front @ behind" "insort_back cmp x ys = front @ x # behind" "\<forall>y \<in> set behind. 0 < cmp y x"
    "front = [] \<or> cmp (last front) x \<le> 0" by (rule split_back)
  have behind: "\<forall>y \<in> set behind. cmp x y < 0" using s(3) swap by blast
  have front: "\<forall>y \<in> set front. cmp y x \<le> 0"
  proof (cases front rule: rev_cases)
    case (snoc f l)
    then have "\<forall>y \<in> set f. cmp y l \<le> 0" "cmp l x \<le> 0" using assms s(1,4) by (auto simp: sorted_by_def sorted_wrt_append)
    then show ?thesis using trans snoc by auto
  qed simp
  show "sorted_by cmp (insort_back cmp x ys)"
    using assms front behind unfolding s(2) by (auto simp: sorted_by_def s(1) sorted_wrt_append less_imp_le)
  show "mset (insort_back cmp x ys) = add_mset x (mset ys)" unfolding s(2) by (simp add: s(1))
  have "\<forall>y \<in> set behind. cmp z y \<noteq> 0" if "cmp z x = 0"
    using eq_class[of z x] eq_sym that behind by fastforce
  then show "filter (\<lambda>y. cmp z y = 0) (insort_back cmp x ys) = filter (\<lambda>y. cmp z y = 0) (ys @ [x])"
    unfolding s(2) by (auto simp: s(1) filter_empty_conv)
qed

lemma isort_sorted:
  "sorted_by cmp ys \<Longrightarrow> sorted_by cmp (isort cmp ys zs) \<and> mset (isort cmp ys zs) = mset (ys @ zs) \<and>
    filter (\<lambda>y. cmp z y = 0) (isort cmp ys zs) = filter (\<lambda>y. cmp z y = 0) (ys @ zs)"
proof (induction zs arbitrary: ys)
  case (Cons x zs)
  note i = insort_back_sorted[OF Cons.prems, of x]
  show ?case using Cons.IH[OF i(1)] i(2) insort_back_sorted(3)[OF Cons.prems, of z x] by (simp add: isort_def)
qed (simp add: isort_def)

end

section \<open>Sorting\<close>

context item_ops
begin

lemma take_one: "j < length src \<Longrightarrow> src ! j = y \<Longrightarrow> take 1 (drop j src) = [y]"
  by (simp add: take_Suc_conv_app_nth flip: Cons_nth_drop_Suc)

lemma replace_item_eq:
  assumes "i < length d" "j < length src" "src ! j = Some y"
  shows "replace_item T v d i src j = d[i := Some y]"
proof -
  let ?d1 = "do_destroy T v d i 1"
  have l: "length ?d1 = length d" using do_destroy_length[of i 1 d v] assms(1) by simp
  note t = take_one[OF assms(2,3)]
  have "do_copy T v ?d1 i src j 1 = put ?d1 i [Some y]"
    using do_copy_put[of i 1 ?d1 j src v] assms(1,2) l t by simp
  also have "\<dots> = put d i [Some y]" using assms(1) destroy[of i 1 d] by (simp add: do_destroy_def put_put)
  finally show ?thesis using assms(1) by (simp add: replace_item_def put_single)
qed

lemma insort_back_snoc: "0 < cmp y x \<Longrightarrow> insort_back cmp x (ys @ [y]) = insort_back cmp x ys @ [y]"
  by (simp add: insort_back_def)

lemma insort_back_end: "cmp y x \<le> 0 \<Longrightarrow> insort_back cmp x (ys @ [y]) = ys @ [y, x]"
  by (simp add: insort_back_def)

lemma sort_shift_eq:
  "length ys = Suc j \<Longrightarrow> 0 < cmp (last ys) x \<Longrightarrow>
    sort_shift T v cmp [Some x] j (map Some ys @ w # rest) = Inr (map Some (insort_back cmp x ys) @ rest)"
proof (induction j arbitrary: ys w rest)
  case 0
  then obtain y where "ys = [y]" by (metis length_0_conv length_Suc_conv)
  then show ?case using 0 by (simp add: replace_item_eq insort_back_def Let_def)
next
  case (Suc j)
  then obtain ys' y where ys: "ys = ys' @ [y]" "length ys' = Suc j" "0 < cmp y x"
    by (metis length_append_singleton append_butlast_last_id diff_Suc_1 length_butlast list.size(3) nat.distinct(1))
  let ?d = "map Some ys @ w # rest" and ?d1 = "map Some ys' @ Some y # Some y # rest"
  have d1: "replace_item T v ?d (Suc (Suc j)) ?d (Suc j) = ?d1"
    using ys by (subst replace_item_eq[where y = y]) (simp_all add: nth_append list_update_append)
  have at: "item_at ?d1 j = Inr (last ys')"
    using ys(2) by (cases ys' rule: rev_cases) (simp_all add: item_at_def nth_append)
  show ?case
  proof (cases "0 < cmp (last ys') x")
    case True
    then show ?thesis using Suc.IH[OF ys(2) True, of "Some y" "Some y # rest"] ys d1 at
      by (simp add: insort_back_snoc Let_def item_at_def)
  next
    case False
    obtain ys'' y' where y': "ys' = ys'' @ [y']" using ys(2) by (metis length_Suc_conv_rev)
    have "replace_item T v ?d1 (Suc j) [Some x] 0 = map Some ys' @ Some x # Some y # rest"
      using ys(2) by (subst replace_item_eq[where y = x]) (simp_all add: list_update_append)
    moreover have "insort_back cmp x ys = ys' @ [x, y]"
      using insort_back_snoc[where cmp = cmp, OF ys(3), of ys'] insort_back_end[of cmp y' x ys''] False ys(1) y' by simp
    ultimately show ?thesis using False ys(1) d1 at by (simp add: Let_def item_at_def)
  qed
qed

text \<open>
  The outer loop: \<open>ys\<close> has been sorted, \<open>zs\<close> is to come. The first change gives the vector a buffer of its own.
\<close>

lemma shift_once:
  assumes "own T v us st" "sole v st" "items v st = ys @ x # zs" "filled v st" "length ys = Suc j" "0 < cmp (last ys) x" "length t = 1"
  obtains st' where "arrayImpl v st = Inr (area v st)" "do_copy T v t 0 (area v st) (Suc j) 1 = [Some x]"
    "sort_shift T v cmp [Some x] j (area v st) = Inr (area v st')" "set_array v (area v st') st = st'"
    "moved T v us st v st'" "items v st' = insort_back cmp x ys @ zs" "filled v st'" "sole v st'"
proof -
  let ?d = "area v st" and ?rest = "map Some zs @ drop (mCount v) (area v st)"
  have d: "?d = map Some ys @ Some x # ?rest"
    using filled_items[OF assms(4)] assms(3) append_take_drop_id[of "mCount v" ?d] by simp
  have at: "Suc j < length ?d" "?d ! Suc j = Some x" using assms(5) by (subst d, simp add: nth_append)+
  let ?d2 = "map Some (insort_back cmp x ys) @ ?rest"
  note len = length_insort_back[of cmp x ys]
  then have l: "length ?d2 = length ?d" by (subst (2) d) simp
  have c: "mCount v = length ys + Suc (length zs)" using length_items[OF assms(1)] assms(3) by simp
  have cl: "mCount v \<le> length ?d2" using own_area_length[OF assms(1)] l by simp
  note w = write_moved[OF assms(1,2) l cl, simplified]
  have it: "items v (set_array v ?d2 st) = insort_back cmp x ys @ zs \<and> filled v (set_array v ?d2 st)"
    by (rule itemsI) (unfold w(2), simp add: c len)
  show thesis
  proof (rule that[of "set_array v ?d2 st"])
    show "do_copy T v t 0 ?d (Suc j) 1 = [Some x]"
      using do_copy_put[of 0 1 t "Suc j" ?d v] take_one[OF at] at(1) assms(7) by (simp add: put_def)
    show "sort_shift T v cmp [Some x] j ?d = Inr (area v (set_array v ?d2 st))"
      unfolding w(2) using sort_shift_eq[where cmp = cmp, OF assms(5,6)] by (subst d) simp
  qed (use own_array[OF assms(1)] w it in simp_all)
qed

definition sort_result :: "('a \<Rightarrow> 'a \<Rightarrow> int) \<Rightarrow> 'a cells option \<Rightarrow> VectorImpl \<Rightarrow> VectorImpl list \<Rightarrow> 'a store \<Rightarrow> 'a list \<Rightarrow> 'a list
    \<Rightarrow> (status option \<times> VectorImpl \<times> 'a store) result \<Rightarrow> bool" where
  "sort_result cmp temp v us st ys zs res \<longleftrightarrow> res = Inl Fatal \<and> temp = None \<and> malloc_fails st \<noteq> [] \<or>
     (\<exists>v' st'. moved T v us st v' st' \<and> filled v' st' \<and>
        (res = Inr (None, v', st') \<and> items v' st' = isort cmp ys zs \<or>
         res = Inr (Some NO_MEMORY, v', st') \<and> temp = None \<and> malloc_fails st \<noteq> [] \<and> items v' st' = ys @ zs))"

definition temp_ok :: "'a cells option \<Rightarrow> VectorImpl \<Rightarrow> 'a store \<Rightarrow> bool" where
  "temp_ok temp v st \<longleftrightarrow> (case temp of None \<Rightarrow> True | Some t \<Rightarrow> length t = 1 \<and> sole v st)"

lemma sort_result_moved:
  assumes "moved T v us st v1 st1" "sort_result cmp (Some t) v1 us st1 (insort_back cmp x ys) zs res"
  shows "sort_result cmp temp v us st ys (x # zs) res"
  using assms moved_trans[OF assms(1)] unfolding sort_result_def by (auto simp: isort_def)

lemma sort_step:
  assumes "own T v us st" "sole v st" "filled v st" "items v st = ys @ x # zs" "ys \<noteq> []" "0 < cmp (last ys) x" "length t = 1"
  obtains st' where "(case arrayImpl v st of Inl f \<Rightarrow> Inl f | Inr d1 \<Rightarrow>
      (let t1 = do_copy T v t 0 d1 (length ys) 1 in case sort_shift T v cmp t1 (length ys - 1) d1 of
         Inl f \<Rightarrow> Inl f
       | Inr d2 \<Rightarrow> sort_loop T cmp n (Suc (length ys)) (Some t1) v (set_array v d2 st)))
      = sort_loop T cmp n (Suc (length ys)) (Some [Some x]) v st'"
    "moved T v us st v st'" "items v st' = insort_back cmp x ys @ zs" "filled v st'" "sole v st'"
proof -
  obtain j where j: "length ys = Suc j" using assms(5) by (metis length_greater_0_conv gr0_conv_Suc)
  obtain st' where s: "arrayImpl v st = Inr (area v st)" "do_copy T v t 0 (area v st) (Suc j) 1 = [Some x]"
    "sort_shift T v cmp [Some x] j (area v st) = Inr (area v st')" "set_array v (area v st') st = st'"
    "moved T v us st v st'" "items v st' = insort_back cmp x ys @ zs" "filled v st'" "sole v st'"
    by (rule shift_once[where cmp = cmp, OF assms(1,2,4,3) j assms(6,7)])
  show thesis by (rule that[OF _ s(5-8)]) (simp only: j s(1-4) Let_def sum.case diff_Suc_1)
qed

lemma sort_loop_effect:
  assumes "own T v us st" "filled v st" "items v st = ys @ zs" "ys \<noteq> []" "temp_ok temp v st"
  shows "sort_result cmp temp v us st ys zs (sort_loop T cmp (length zs) (length ys) temp v st)"
  using assms
proof (induction zs arbitrary: ys temp v st)
  case Nil
  then show ?case using moved_refl[OF Nil(1)] by (auto simp: sort_result_def isort_def)
next
  case (Cons x zs)
  have d: "take (mCount v) (area v st) = map Some (ys @ x # zs)" using filled_items[OF Cons.prems(2)] Cons.prems(3) by simp
  have l: "length (area v st) \<ge> Suc (length ys)" using arg_cong[OF d, of length] by simp
  have nth: "area v st ! k = Some ((ys @ x # zs) ! k)" if "k < Suc (length ys)" for k
    using arg_cong[OF d, of "\<lambda>l. l ! k"] arg_cong[OF d, of length] that nth_map[of k "ys @ x # zs" Some] by simp
  have at: "item_at (area v st) (length ys - 1) = Inr (last ys)" "item_at (area v st) (length ys) = Inr x"
    using nth[of "length ys - 1"] nth[of "length ys"] l Cons.prems(4) by (simp_all add: item_at_def nth_append last_conv_nth)
  note loop = own_array[OF Cons.prems(1)] at
  show ?case
  proof (cases "0 < cmp (last ys) x")
    case False
    obtain ys' y where ys: "ys = ys' @ [y]" using Cons.prems(4) by (metis rev_exhaust)
    have i: "insort_back cmp x ys = ys @ [x]" using False by (simp add: ys insort_back_end)
    have "sort_result cmp temp v us st (ys @ [x]) zs (sort_loop T cmp (length zs) (length (ys @ [x])) temp v st)"
      using Cons.prems by (intro Cons.IH) simp_all
    then show ?thesis using loop False i by (simp add: sort_result_def isort_def)
  next
    case swap: True
    let ?next = "\<lambda>t v1 st1. (case arrayImpl v1 st1 of Inl f \<Rightarrow> Inl f | Inr d1 \<Rightarrow>
        (let t1 = do_copy T v1 t 0 d1 (length ys) 1 in case sort_shift T v1 cmp t1 (length ys - 1) d1 of
           Inl f \<Rightarrow> Inl f
         | Inr d2 \<Rightarrow> sort_loop T cmp (length zs) (Suc (length ys)) (Some t1) v1 (set_array v1 d2 st1)))"
    have swapped: "sort_result cmp temp v us st ys (x # zs) (?next t v1 st1)"
      if m: "moved T v us st v1 st1" "sole v1 st1" "filled v1 st1" "items v1 st1 = ys @ x # zs" "length t = 1" for t v1 st1
    proof -
      have o1: "own T v1 us st1" using m(1) by (simp add: moved_def)
      obtain st' where s: "?next t v1 st1 = sort_loop T cmp (length zs) (Suc (length ys)) (Some [Some x]) v1 st'"
        "moved T v1 us st1 v1 st'" "items v1 st' = insort_back cmp x ys @ zs" "filled v1 st'" "sole v1 st'"
        by (rule sort_step[where cmp = cmp, OF o1 m(2-4) Cons.prems(4) swap m(5)])
      have "sort_result cmp (Some [Some x]) v1 us st' (insort_back cmp x ys) zs
          (sort_loop T cmp (length zs) (length (insort_back cmp x ys)) (Some [Some x]) v1 st')"
        using s by (intro Cons.IH) (simp_all add: moved_def temp_ok_def insort_back_def)
      then show ?thesis unfolding s(1) length_insort_back by (rule sort_result_moved[OF moved_trans[OF m(1) s(2)]])
    qed
    show ?thesis
    proof (cases temp)
      case (Some t)
      then have "sole v st" "length (do_destroy T v t 0 1) = 1" using Cons.prems(5) do_destroy_length[of 0 1 t v] by (simp_all add: temp_ok_def)
      from swapped[OF moved_refl[OF Cons.prems(1)] this(1) Cons.prems(2,3) this(2)]
      show ?thesis using loop swap Some by simp
    next
      case None
      have c: "mStorage v \<noteq> 0" using l ownD(3)[OF Cons.prems(1)] by (cases "mStorage v = 0") (simp_all add: area_def)
      show ?thesis
      proof (cases rule: editArray_moved[OF Cons.prems(1,2)])
        case 1
        then show ?thesis using loop swap None by (simp add: sort_result_def)
      next
        case edits: (2 v1 st1)
        let ?st2 = "st1\<lparr>malloc_fails := tl (malloc_fails st1)\<rparr>"
        have o1: "own T v1 us st1" using edits(2) by (simp add: moved_def)
        have m: "moved T v us st v1 ?st2" by (rule moved_trans[OF edits(2) moved_fails[OF o1]])
        have "take (mCount v1) (area v1 ?st2) = map Some (ys @ x # zs)" using d edits(3,5) by simp
        note it = itemsI[OF this]
        have s: "sole v1 ?st2" using edits(6) c by (simp add: sole_def)
        show ?thesis
        proof (cases "malloc_fails st1 \<noteq> [] \<and> hd (malloc_fails st1)")
          case True
          then have "malloc_fails st \<noteq> []" using edits(2) by (auto simp: moved_def)
          then show ?thesis using loop swap None edits(1) True m it by (auto simp: sort_result_def)
        next
          case False
          from swapped[OF m s _ _, of "[None]"] it
          show ?thesis using loop swap None edits(1) False by auto
        qed
      qed
    qed
  qed
qed

lemma sort_effect:
  assumes "own T v us st" "filled v st" "malloc_fails st = []"
  obtains v' st' where "sort_vector T cmp v st = Inr (None, v', st')" "moved T v us st v' st'" "filled v' st'"
    "items v' st' = isort cmp [] (items v st)"
proof (cases "items v st")
  case Nil
  then show thesis using that[of v st] assms(2) moved_refl[OF assms(1)] length_items[OF assms(1)] by (simp add: sort_vector_def isort_def)
next
  case (Cons x zs)
  have "sort_result cmp None v us st [x] zs (sort_loop T cmp (length zs) (length [x]) None v st)"
    by (rule sort_loop_effect[OF assms(1,2)]) (simp_all add: Cons temp_ok_def)
  then obtain v' st' where s: "sort_loop T cmp (length zs) (length [x]) None v st = Inr (None, v', st')" "moved T v us st v' st'"
    "filled v' st'" "items v' st' = isort cmp [x] zs" using assms(3) by (auto simp: sort_result_def)
  have "sort_vector T cmp v st = Inr (None, v', st')"
  proof (cases "zs = []")
    case True
    then show ?thesis using s(1) length_items[OF assms(1)] Cons by (simp add: sort_vector_def)
  next
    case False
    have "mCount v = Suc (length zs)" using length_items[OF assms(1)] Cons by simp
    then show ?thesis using s(1) False by (simp add: sort_vector_def)
  qed
  moreover have "isort cmp [x] zs = isort cmp [] (items v st)" by (simp add: isort_def Cons insort_back_def)
  ultimately show thesis using that s by simp
qed

end

text \<open>
  C30: \<open>VectorImpl::sort\<close> sorts, and keeps the order of equal items. The vectors that share the buffer keep their items.
\<close>

theorem sort_stable:
  assumes "item_ops T dflt" "comparison cmp" "owns T isz vs st" "malloc_fails st = []" "k < length vs"
  shows "\<exists>v' st'. sort_vector T cmp (vs ! k) st = Inr (None, v', st') \<and> owns T isz (vs[k := v']) st' \<and>
    (\<forall>j < length vs. j \<noteq> k \<longrightarrow> items (vs ! j) st' = items (vs ! j) st) \<and>
    sorted_by cmp (items v' st') \<and> mset (items v' st') = mset (items (vs ! k) st) \<and>
    (\<forall>z. filter (\<lambda>y. cmp z y = 0) (items v' st') = filter (\<lambda>y. cmp z y = 0) (items (vs ! k) st))"
proof -
  note v = owns_nth[OF assms(3,5)]
  obtain v' st' where s: "sort_vector T cmp (vs ! k) st = Inr (None, v', st')" "moved T (vs ! k) (others k vs) st v' st'" "filled v' st'"
    "items v' st' = isort cmp [] (items (vs ! k) st)" by (rule item_ops.sort_effect[OF assms(1) v(1,2) assms(4)])
  note u = owns_update[OF assms(3,5) s(2,3)]
  have "items (vs ! j) st' = items (vs ! j) st" if "j < length vs" "j \<noteq> k" for j
    using arg_cong[OF u(2), of "\<lambda>l. l ! j"] that by simp
  moreover have "sorted_by cmp []" by (simp add: sorted_by_def)
  note i = comparison.isort_sorted[OF assms(2) this, of "items (vs ! k) st"]
  ultimately show ?thesis using s(1,4) u(1) i by auto
qed

text \<open>Two vectors share a buffer.\<close>

definition shared3 :: "int store" where
  "shared3 = \<lparr>bufs = [1 \<mapsto> \<lparr>mRefs = 2, mSize = 16, sb_data = [Some 3, Some 1, Some 2, None]\<rparr>], next_buf = 2, malloc_fails = []\<rparr>"

definition vec3 :: VectorImpl where
  "vec3 = \<lparr>mStorage = 1, mCount = 3, mFlags = 7, mItemSize = 4\<rparr>"

lemma owns_shared3: "owns (plain_ops x cmp) 4 [vec3, vec3] shared3" "malloc_fails shared3 = []" "items vec3 shared3 = [3, 1, 2]"
  by (simp_all add: owns_def placed_def filled_def area_def items_def buf_ok_def shared3_def vec3_def plain_ops_def SIZE_MAX_def)

interpretation ints: comparison "(-) :: int \<Rightarrow> int \<Rightarrow> int"
  by unfold_locales auto

theorem sort_stable_witness:
  "\<exists>v' st'. sort_vector (plain_ops 0 (-)) (-) vec3 shared3 = Inr (None, v', st') \<and> items vec3 st' = [3, 1, 2] \<and>
    sorted_by (-) (items v' st') \<and> mset (items v' st') = {#3, 1, 2#}"
  using sort_stable[OF plain.item_ops_axioms ints.comparison_axioms owns_shared3(1,2), of 0 0 "(-)"] owns_shared3(3)
  by (auto simp: less_Suc_eq)

section \<open>The binary search\<close>

lemma search_step:
  assumes "take (length xs) d = map Some xs" "i < length xs"
  shows "item_at d i = Inr (xs ! i)"
proof -
  have "length xs \<le> length d" using arg_cong[OF assms(1), of length] by simp
  moreover have "d ! i = Some (xs ! i)" using arg_cong[OF assms(1), of "\<lambda>l. l ! i"] assms(2) by simp
  ultimately show ?thesis using assms(2) by (simp add: item_at_def)
qed

context comparison
begin

text \<open>What is below \<open>l\<close> is smaller than the item that is searched, what is above \<open>h\<close> is greater.\<close>

definition bracketed :: "'a list \<Rightarrow> 'a \<Rightarrow> int \<Rightarrow> int \<Rightarrow> bool" where
  "bracketed xs item l h \<longleftrightarrow> 0 \<le> l \<and> l \<le> h + 1 \<and> h < int (length xs) \<and> (\<forall>j. int j < l \<longrightarrow> cmp (xs ! j) item < 0) \<and>
     (\<forall>j. h < int j \<and> j < length xs \<longrightarrow> 0 < cmp (xs ! j) item)"

definition found :: "'a list \<Rightarrow> 'a \<Rightarrow> (ssize \<times> nat) result \<Rightarrow> bool" where
  "found xs item res \<longleftrightarrow> (\<exists>i. res = Inr (Inr i, i) \<and> i < length xs \<and> cmp (xs ! i) item = 0) \<or>
     (\<exists>k. res = Inr (Inl NAME_NOT_FOUND, k) \<and> k \<le> length xs \<and> (\<forall>j < k. cmp (xs ! j) item < 0) \<and>
        (\<forall>j. k \<le> j \<and> j < length xs \<longrightarrow> 0 < cmp (xs ! j) item))"

lemma sorted_nth: "sorted_by cmp xs \<Longrightarrow> i \<le> j \<Longrightarrow> j < length xs \<Longrightarrow> cmp (xs ! i) (xs ! j) \<le> 0"
  using sorted_wrt_nth_less[of "\<lambda>x y. cmp x y \<le> 0" xs i j] swap[of "xs ! i" "xs ! i"]
  by (cases "i = j") (auto simp: sorted_by_def)

lemma index_search_found:
  assumes "take (length xs) d = map Some xs" "sorted_by cmp xs" "bracketed xs item l h"
  shows "found xs item (index_search cmp d item l h)"
  using assms(3)
proof (induction "nat (h - l + 1)" arbitrary: l h rule: less_induct)
  case less
  note b = less.prems[unfolded bracketed_def]
  show ?case
  proof (cases "l \<le> h")
    case False
    then have "index_search cmp d item l h = Inr (Inl NAME_NOT_FOUND, nat l)" by (simp add: index_search.simps)
    then show ?thesis using b False by (auto simp: found_def)
  next
    case True
    define mid where "mid = l + (h - l) div 2"
    define m where "m = nat mid"
    have mid: "l \<le> mid" "mid \<le> h" using True by (simp_all add: mid_def)
    then have m: "m < length xs" "mid = int m" using b by (auto simp: m_def)
    have step: "index_search cmp d item l h = (let c = cmp (xs ! m) item in
        if c = 0 then Inr (Inr m, m) else if c < 0 then index_search cmp d item (mid + 1) h else index_search cmp d item l (mid - 1))"
      using True search_step[OF assms(1) m(1)] by (subst index_search.simps) (simp add: mid_def[symmetric] m_def Let_def)
    consider "cmp (xs ! m) item = 0" | "cmp (xs ! m) item < 0" | "0 < cmp (xs ! m) item" by linarith
    then show ?thesis
    proof cases
      case 1
      then show ?thesis using step m by (auto simp: found_def)
    next
      case 2
      have "cmp (xs ! j) item < 0" if "int j < mid + 1" for j
        using le_less_trans[OF sorted_nth[OF assms(2), of j m] 2] that m by simp
      then have "bracketed xs item (mid + 1) h" using b mid by (simp add: bracketed_def)
      moreover have "nat (h - (mid + 1) + 1) < nat (h - l + 1)" using mid by simp
      ultimately show ?thesis using less.hyps step 2 by simp
    next
      case 3
      have "0 < cmp (xs ! j) item" if "mid - 1 < int j" "j < length xs" for j
        using less_le_trans[of item "xs ! m" "xs ! j"] sorted_nth[OF assms(2), of m j] 3 that m swap by simp
      then have "bracketed xs item l (mid - 1)" using b mid by (simp add: bracketed_def)
      moreover have "nat (mid - 1 - l + 1) < nat (h - l + 1)" using mid by simp
      ultimately show ?thesis using less.hyps step 3 by simp
    qed
  qed
qed

end

end
