(* ===== verification/Shim_Sorted_Set.thy ===== *)
theory Shim_Sorted_Set
  imports Shim_Vector_Sorted
begin

text \<open>
  \<open>SortedVectorImpl\<close> as an ordered set: items that compare equal take each other's place, and the search tells
  what a search through all items tells.
\<close>

section \<open>Searching\<close>

definition linear_search :: "('a \<Rightarrow> 'a \<Rightarrow> int) \<Rightarrow> 'a \<Rightarrow> 'a list \<Rightarrow> ssize" where
  "linear_search cmp item xs =
     (if \<exists>x \<in> set xs. cmp x item = 0 then Inr (length (takeWhile (\<lambda>x. cmp x item \<noteq> 0) xs)) else Inl NAME_NOT_FOUND)"

definition smaller :: "('a \<Rightarrow> 'a \<Rightarrow> int) \<Rightarrow> 'a \<Rightarrow> 'a list \<Rightarrow> 'a list" where
  "smaller cmp item xs = filter (\<lambda>x. cmp x item < 0) xs"

definition equal_to :: "('a \<Rightarrow> 'a \<Rightarrow> int) \<Rightarrow> 'a \<Rightarrow> 'a list \<Rightarrow> 'a list" where
  "equal_to cmp item xs = filter (\<lambda>x. cmp x item = 0) xs"

definition greater :: "('a \<Rightarrow> 'a \<Rightarrow> int) \<Rightarrow> 'a \<Rightarrow> 'a list \<Rightarrow> 'a list" where
  "greater cmp item xs = filter (\<lambda>x. 0 < cmp x item) xs"

lemmas parts_defs = smaller_def equal_to_def greater_def

lemma nth_parts:
  assumes "xs = l @ e @ g" "i < length xs"
  obtains "i < length l" "xs ! i \<in> set l" | "length l \<le> i" "i < length l + length e" "xs ! i \<in> set e"
    | "length l + length e \<le> i" "xs ! i \<in> set g"
proof -
  consider "i < length l" | "length l \<le> i" "i < length l + length e" | "length l + length e \<le> i" by linarith
  then show thesis
  proof cases
    case 1
    then show thesis using that(1) assms(1) by (simp add: nth_append)
  next
    case 2
    then have "xs ! i = e ! (i - length l)" "i - length l < length e" using assms(1) by (auto simp: nth_append)
    then show thesis using that(2) 2 by simp
  next
    case 3
    then have "xs ! i = g ! (i - length l - length e)" "i - length l - length e < length g" using assms by (auto simp: nth_append)
    then show thesis using that(3) 3 by simp
  qed
qed

context comparison
begin

lemma strict_sorted: "strict_by cmp xs \<Longrightarrow> sorted_by cmp xs"
  unfolding strict_by_def sorted_by_def by (rule sorted_wrt_mono_rel) auto

text \<open>A strictly sorted list falls into three parts.\<close>

lemma strict_parts:
  "strict_by cmp xs \<Longrightarrow> xs = smaller cmp item xs @ equal_to cmp item xs @ greater cmp item xs \<and> length (equal_to cmp item xs) \<le> 1"
proof (induction xs)
  case (Cons x xs)
  then have IH: "xs = smaller cmp item xs @ equal_to cmp item xs @ greater cmp item xs \<and> length (equal_to cmp item xs) \<le> 1"
    and lt: "\<forall>y \<in> set xs. cmp x y < 0" by (simp_all add: strict_by_def)
  have big: "0 < cmp y item" if "y \<in> set xs" "0 \<le> cmp x item" for y
    using le_less_trans[of item x y] lt that swap[of item y] swap_le[of item x] by simp
  show ?case
  proof (cases "cmp x item < 0")
    case True
    then show ?thesis using IH by (simp add: parts_defs)
  next
    case False
    then have "filter (\<lambda>y. cmp y item < 0) xs = []" "filter (\<lambda>y. cmp y item = 0) xs = []" "filter (\<lambda>y. 0 < cmp y item) xs = xs"
      using big by (force simp: filter_empty_conv filter_id_conv)+
    then show ?thesis using False by (auto simp: parts_defs)
  qed
qed (simp add: parts_defs)

lemma linear_search_parts:
  assumes "strict_by cmp xs"
  shows "linear_search cmp item xs = (if equal_to cmp item xs = [] then Inl NAME_NOT_FOUND else Inr (length (smaller cmp item xs)))"
proof (cases "equal_to cmp item xs")
  case Nil
  then show ?thesis by (auto simp: linear_search_def equal_to_def filter_empty_conv)
next
  case (Cons e es)
  have ex: "\<exists>x \<in> set xs. cmp x item = 0" "cmp e item = 0" using Cons by (auto simp: equal_to_def filter_eq_Cons_iff)
  have "\<forall>x \<in> set (smaller cmp item xs). cmp x item \<noteq> 0" by (simp add: smaller_def)
  then have "takeWhile (\<lambda>x. cmp x item \<noteq> 0) (smaller cmp item xs @ e # es @ greater cmp item xs) = smaller cmp item xs"
    using ex(2) by (simp add: takeWhile_append2)
  then have "takeWhile (\<lambda>x. cmp x item \<noteq> 0) xs = smaller cmp item xs"
    using conjunct1[OF strict_parts[OF assms, of item]] Cons by (metis append_Cons)
  then show ?thesis using Cons ex(1) by (simp add: linear_search_def)
qed

lemma found_strict:
  assumes "strict_by cmp xs" "found xs item res"
  shows "res = Inr (linear_search cmp item xs, length (smaller cmp item xs))"
proof -
  let ?l = "smaller cmp item xs" and ?e = "equal_to cmp item xs" and ?g = "greater cmp item xs"
  note p = strict_parts[OF assms(1), of item]
  have s: "cmp y item < 0" if "y \<in> set ?l" for y using that by (simp add: smaller_def)
  have e: "cmp y item = 0" if "y \<in> set ?e" for y using that by (simp add: equal_to_def)
  have g: "0 < cmp y item" if "y \<in> set ?g" for y using that by (simp add: greater_def)
  show ?thesis using assms(2) unfolding found_def
  proof (elim disjE exE conjE)
    fix i assume i: "res = Inr (Inr i, i)" "i < length xs" "cmp (xs ! i) item = 0"
    have "i = length ?l \<and> ?e \<noteq> []"
      by (rule nth_parts[OF conjunct1[OF p] i(2)]) (use s g i(3) p in \<open>fastforce+\<close>)
    then show ?thesis using i(1) linear_search_parts[OF assms(1), of item] by simp
  next
    fix k assume k: "res = Inr (Inl NAME_NOT_FOUND, k)" "k \<le> length xs" "\<forall>j<k. cmp (xs ! j) item < 0"
      "\<forall>j. k \<le> j \<and> j < length xs \<longrightarrow> 0 < cmp (xs ! j) item"
    have nz: "cmp (xs ! j) item \<noteq> 0" if "j < length xs" for j
      using k(3) k(4)[rule_format, of j] that by (cases "j < k") (simp_all, force)
    then have "?e = []" by (auto simp: equal_to_def filter_empty_conv in_set_conv_nth)
    have "?l = take k xs"
    proof -
      have "cmp y item < 0" if "y \<in> set (take k xs)" for y using that k(3) by (auto simp: in_set_conv_nth)
      moreover have "0 < cmp y item" if y: "y \<in> set (drop k xs)" for y
      proof -
        obtain j where "j < length (drop k xs)" "y = drop k xs ! j" using y unfolding in_set_conv_nth by blast
        then show ?thesis using k(2) k(4)[rule_format, of "k + j"] by simp
      qed
      ultimately have "filter (\<lambda>x. cmp x item < 0) (take k xs) = take k xs" "filter (\<lambda>x. cmp x item < 0) (drop k xs) = []"
        by (force simp: filter_id_conv filter_empty_conv)+
      then show ?thesis unfolding smaller_def by (metis append_Nil2 append_take_drop_id filter_append)
    qed
    then show ?thesis using k(1,2) linear_search_parts[OF assms(1), of item] \<open>?e = []\<close> by simp
  qed
qed

end

section \<open>The operations\<close>

lemma indexOrderOf_eq:
  assumes "comparison (t_compare T)" "own T v us st" "filled v st" "strict_by (t_compare T) (items v st)"
  shows "indexOrderOf T v item st = Inr (linear_search (t_compare T) item (items v st), length (smaller (t_compare T) item (items v st)))"
proof -
  let ?xs = "items v st"
  have d: "take (length ?xs) (area v st) = map Some ?xs" "length ?xs = mCount v"
    using filled_items[OF assms(3)] length_items[OF assms(2)] by simp_all
  have "comparison.bracketed (t_compare T) ?xs item 0 (int (mCount v) - 1)"
    unfolding comparison.bracketed_def[OF assms(1)] using d(2) by auto
  note f = comparison.index_search_found[OF assms(1) d(1) comparison.strict_sorted[OF assms(1,4)] this]
  show ?thesis using comparison.found_strict[OF assms(1,4) f] own_array[OF assms(2)] by (simp add: indexOrderOf_def)
qed

text \<open>The set operations on lists.\<close>

definition set_add :: "('a \<Rightarrow> 'a \<Rightarrow> int) \<Rightarrow> 'a \<Rightarrow> 'a list \<Rightarrow> 'a list" where
  "set_add cmp item xs = smaller cmp item xs @ item # greater cmp item xs"

definition set_del :: "('a \<Rightarrow> 'a \<Rightarrow> int) \<Rightarrow> 'a \<Rightarrow> 'a list \<Rightarrow> 'a list" where
  "set_del cmp item xs = smaller cmp item xs @ greater cmp item xs"

context comparison
begin

lemma strict_filter: "strict_by cmp xs \<Longrightarrow> strict_by cmp (filter P xs)"
  unfolding strict_by_def by (rule sorted_wrt_filter)

lemma below_above: "x \<in> set (smaller cmp item xs) \<Longrightarrow> y \<in> set (greater cmp item ys) \<Longrightarrow> cmp x y < 0"
  using le_less_trans[of x item y] swap[of item y] by (simp add: smaller_def greater_def)

lemma around: "x \<in> set (smaller cmp item xs) \<Longrightarrow> cmp x item < 0" "y \<in> set (greater cmp item ys) \<Longrightarrow> cmp item y < 0"
  using swap[of item y] by (simp_all add: smaller_def greater_def)

lemma strict_smaller_greater: "strict_by cmp xs \<Longrightarrow> strict_by cmp (smaller cmp item xs) \<and> strict_by cmp (greater cmp item xs)"
  unfolding smaller_def greater_def using strict_filter by blast

lemma set_add_strict: "strict_by cmp xs \<Longrightarrow> strict_by cmp (set_add cmp item xs)"
  using strict_smaller_greater[of xs item] below_above around
  unfolding set_add_def strict_by_def by (simp add: sorted_wrt_append)

lemma set_del_strict: "strict_by cmp xs \<Longrightarrow> strict_by cmp (set_del cmp item xs)"
  using strict_smaller_greater[of xs item] below_above
  unfolding set_del_def strict_by_def by (simp add: sorted_wrt_append)

lemma length_set_add: "length (set_add cmp item xs) \<le> Suc (length xs)"
proof (induction xs)
  case (Cons x xs)
  then show ?case by (auto simp: set_add_def smaller_def greater_def)
qed (simp add: set_add_def smaller_def greater_def)

text \<open>In terms of positions.\<close>

lemma parts_positions:
  fixes xs :: "'a list" and item :: 'a
  assumes "strict_by cmp xs"
  defines "k \<equiv> length (smaller cmp item xs)"
  shows "k \<le> length xs" "take k xs = smaller cmp item xs"
    "linear_search cmp item xs = Inl NAME_NOT_FOUND \<Longrightarrow> drop k xs = greater cmp item xs"
    "linear_search cmp item xs = Inr i \<Longrightarrow> i = k \<and> k < length xs \<and> drop (Suc k) xs = greater cmp item xs"
proof -
  note p = strict_parts[OF assms(1), of item] and ls = linear_search_parts[OF assms(1), of item]
  show "take k xs = smaller cmp item xs" "k \<le> length xs"
    using p unfolding k_def by (metis append_eq_conv_conj, metis le_add1 length_append)
  show "drop k xs = greater cmp item xs" if "linear_search cmp item xs = Inl NAME_NOT_FOUND"
    using p ls that unfolding k_def by (metis append_Nil append_eq_conv_conj sum.distinct(1))
  show "i = k \<and> k < length xs \<and> drop (Suc k) xs = greater cmp item xs" if "linear_search cmp item xs = Inr i"
  proof -
    have "equal_to cmp item xs \<noteq> []" and i: "i = k" using ls that by (auto simp: k_def split: if_splits)
    then obtain e where "equal_to cmp item xs = [e]" using p by (cases "equal_to cmp item xs") auto
    then have "xs = smaller cmp item xs @ e # greater cmp item xs" using p by simp
    then show ?thesis unfolding i k_def by (metis append_eq_conv_conj drop_Suc length_append less_add_same_cancel1 length_Cons list.sel(3) tl_drop zero_less_Suc)
  qed
qed

end

text \<open>What a client does with a sorted vector; \<open>Merge\<close> adds the items of another vector.\<close>

datatype 'a sop = Find 'a | Add 'a | Del 'a | Merge nat

type_synonym 'a set_state = "VectorImpl \<times> 'a store"

fun sop_step :: "'a type_ops \<Rightarrow> VectorImpl list \<Rightarrow> 'a sop \<Rightarrow> 'a set_state \<Rightarrow> (ssize \<times> 'a set_state) result" where
  "sop_step T us (Find x) (v, st) = map_sum id (\<lambda>r. (r, v, st)) (indexOf T v x st)"
| "sop_step T us (Add x) (v, st) = sorted_add T v x st"
| "sop_step T us (Del x) (v, st) = sorted_remove T v x st"
| "sop_step T us (Merge j) (v, st) = merge_vector T v (us ! j) st"

fun sop_run :: "'a type_ops \<Rightarrow> VectorImpl list \<Rightarrow> 'a sop list \<Rightarrow> 'a set_state \<Rightarrow> (ssize list \<times> 'a set_state) result" where
  "sop_run T us [] s = Inr ([], s)"
| "sop_run T us (p # ps) s = (case sop_step T us p s of
       Inl f \<Rightarrow> Inl f
     | Inr (r, s1) \<Rightarrow> map_sum id (\<lambda>(rs, s2). (r # rs, s2)) (sop_run T us ps s1))"

fun sop_spec :: "('a \<Rightarrow> 'a \<Rightarrow> int) \<Rightarrow> 'a list list \<Rightarrow> 'a sop \<Rightarrow> 'a list \<Rightarrow> ssize \<times> 'a list" where
  "sop_spec cmp ls (Find x) xs = (linear_search cmp x xs, xs)"
| "sop_spec cmp ls (Add x) xs = (Inr (length (smaller cmp x xs)), set_add cmp x xs)"
| "sop_spec cmp ls (Del x) xs = (linear_search cmp x xs, set_del cmp x xs)"
| "sop_spec cmp ls (Merge j) xs = (Inr 0, foldl (\<lambda>xs x. set_add cmp x xs) xs (ls ! j))"

fun sop_spec_run :: "('a \<Rightarrow> 'a \<Rightarrow> int) \<Rightarrow> 'a list list \<Rightarrow> 'a sop list \<Rightarrow> 'a list \<Rightarrow> ssize list \<times> 'a list" where
  "sop_spec_run cmp ls [] xs = ([], xs)"
| "sop_spec_run cmp ls (p # ps) xs =
     (let (r, xs1) = sop_spec cmp ls p xs; (rs, xs2) = sop_spec_run cmp ls ps xs1 in (r # rs, xs2))"

text \<open>The largest number of items that an operation can add.\<close>

fun sop_adds :: "'a list list \<Rightarrow> 'a sop \<Rightarrow> nat" where
  "sop_adds ls (Add x) = 1"
| "sop_adds ls (Merge j) = length (ls ! j)"
| "sop_adds ls p = 0"

fun sop_ok :: "'a list list \<Rightarrow> 'a sop \<Rightarrow> bool" where
  "sop_ok ls (Merge j) \<longleftrightarrow> j < length ls"
| "sop_ok ls p \<longleftrightarrow> True"

text \<open>Where the vector is: it is filled, memory is there, and the items are \<open>xs\<close>, strictly sorted.\<close>

definition set_at :: "'a type_ops \<Rightarrow> VectorImpl \<Rightarrow> VectorImpl list \<Rightarrow> 'a store \<Rightarrow> VectorImpl \<Rightarrow> 'a store \<Rightarrow> 'a list \<Rightarrow> bool" where
  "set_at T v0 us st0 v st xs \<longleftrightarrow> moved T v0 us st0 v st \<and> filled v st \<and> malloc_fails st = [] \<and> items v st = xs \<and>
     strict_by (t_compare T) xs"

locale sorted_items = item_ops + comparison "t_compare T"
begin

lemma set_at_own: "set_at T v0 us st0 v st xs \<Longrightarrow> own T v us st \<and> length xs = mCount v \<and> mItemSize v = mItemSize v0"
  using length_items[of T v us st] by (auto simp: set_at_def moved_def)

lemma set_at_move: "set_at T v0 us st0 v st xs \<Longrightarrow> moved T v us st v' st' \<Longrightarrow> filled v' st' \<Longrightarrow> items v' st' = ys \<Longrightarrow>
    strict_by (t_compare T) ys \<Longrightarrow> set_at T v0 us st0 v' st' ys"
  using moved_trans[of T v0 us st0 v st v' st'] by (auto simp: set_at_def moved_def)

lemma search_at: "set_at T v0 us st0 v st xs \<Longrightarrow>
    indexOrderOf T v x st = Inr (linear_search (t_compare T) x xs, length (smaller (t_compare T) x xs))"
  using indexOrderOf_eq[OF comparison_axioms, of v us st x] set_at_own by (auto simp: set_at_def)

lemma add_at:
  assumes "set_at T v0 us st0 v st xs" "room T (mItemSize v0) N" "length xs < N"
  obtains v' st' where "sorted_add T v x st = Inr (Inr (length (smaller (t_compare T) x xs)), v', st')"
    "set_at T v0 us st0 v' st' (set_add (t_compare T) x xs)"
proof -
  let ?k = "length (smaller (t_compare T) x xs)"
  note o = set_at_own[OF assms(1)] and s = assms(1)[unfolded set_at_def]
  have strict: "strict_by (t_compare T) xs" using s by blast
  note pos = parts_positions[OF strict, of x] and strict' = set_add_strict[OF strict, of x]
  show thesis
  proof (cases "linear_search (t_compare T) x xs")
    case (Inl e)
    then have e: "linear_search (t_compare T) x xs = Inl NAME_NOT_FOUND" by (simp add: linear_search_def split: if_splits)
    have f: "grow_fits T v 1" using room_fits(2)[OF assms(2), of v 1] o assms(3) by simp
    have kl: "?k \<le> mCount v" using pos(1) o by simp
    show thesis
    proof (cases rule: insertAt_effect[where i = ?k and item = "Some x", OF conjunct1[OF o] _ f val_Some(2)])
      case (4 v' st')
      then have "items v' st' = set_add (t_compare T) x xs" using s pos(2,3) e by (simp add: set_add_def)
      then show thesis using that[of v' st'] set_at_move[OF assms(1) 4(2,5)] strict' 4(1) search_at[OF assms(1), of x] e
        by (simp add: sorted_add_def)
    qed (use s kl in auto)
  next
    case (Inr i)
    note i = pos(4)[OF Inr]
    show thesis
    proof (cases rule: replaceAt_effect[where i = i and item = "Some x", OF conjunct1[OF o] _ val_Some(2)])
      case (4 v' st')
      then have "items v' st' = xs[i := x]" using s by simp
      then have "items v' st' = set_add (t_compare T) x xs" using i pos(2) by (simp add: upd_conv_take_nth_drop set_add_def)
      then show thesis using that[of v' st'] set_at_move[OF assms(1) 4(2,5)] strict' 4(1) search_at[OF assms(1), of x] Inr i
        by (simp add: sorted_add_def)
    qed (use s o i in auto)
  qed
qed

lemma count_bound: "own T v us st \<Longrightarrow> mCount v < SIZE_MAX"
proof -
  assume o: "own T v us st"
  show ?thesis
  proof (cases "mStorage v = 0")
    case True
    then show ?thesis using ownD(4)[OF o] by (simp add: placed_def SIZE_MAX_def)
  next
    case False
    then obtain b where b: "bufs st (mStorage v) = Some b" "mCount v \<le> length (sb_data b)" using ownD(4)[OF o] by (auto simp: placed_def)
    have "length (sb_data b) = mSize b div mItemSize v" "mSize b < SIZE_MAX - sizeof_SharedBuffer T" using ownD(9)[OF o b(1)] by (simp_all add: buf_ok_def)
    moreover have "mSize b div mItemSize v \<le> mSize b" by simp
    ultimately show ?thesis using b(2) by linarith
  qed
qed

lemma del_at:
  assumes "set_at T v0 us st0 v st xs" "room T (mItemSize v0) N"
  obtains v' st' where "sorted_remove T v x st = Inr (linear_search (t_compare T) x xs, v', st')"
    "set_at T v0 us st0 v' st' (set_del (t_compare T) x xs)"
proof -
  note o = set_at_own[OF assms(1)] and s = assms(1)[unfolded set_at_def]
  have strict: "strict_by (t_compare T) xs" using s by blast
  note pos = parts_positions[OF strict, of x] and strict' = set_del_strict[OF strict, of x] and find = search_at[OF assms(1), of x]
  show thesis
  proof (cases "linear_search (t_compare T) x xs")
    case (Inl e)
    then have e: "linear_search (t_compare T) x xs = Inl NAME_NOT_FOUND" by (simp add: linear_search_def split: if_splits)
    then have "set_del (t_compare T) x xs = xs" using pos(2) pos(3) by (metis append_take_drop_id set_del_def)
    then show thesis using that[of v st] assms(1) find Inl by (simp add: sorted_remove_def indexOf_def)
  next
    case (Inr i)
    note i = pos(4)[OF Inr]
    have within: "i + 1 \<le> mCount v" using i o by simp
    then have "(i + 1) mod 2 ^ 32 = i + 1" using count_bound[OF conjunct1[OF o]] by (intro mod_less) (simp add: SIZE_MAX_def)
    then have rem: "removeItemsAt T v i 1 st = map_sum id (Pair (Inr i)) (shrink T v i 1 st)"
      unfolding removeItemsAt_def using within by simp
    have f: "shrink_fits T v" using room_fits(1)[OF assms(2)] o by simp
    show thesis
    proof (cases rule: shrink_effect[OF conjunct1[OF o] _ f within])
      case (3 v' st')
      then have m: "moved T v us st v' st'" "filled v' st'" "items v' st' = take i xs @ drop (Suc i) xs"
        using s by (simp_all add: removed_def)
      then have "items v' st' = set_del (t_compare T) x xs" using i pos(2) by (simp add: set_del_def)
      then show thesis using that[of v' st'] set_at_move[OF assms(1) m(1,2)] strict' 3(1) find Inr rem
        by (simp add: sorted_remove_def indexOf_def)
    qed (use s in auto)
  qed
qed

lemma merge_items_at:
  assumes "set_at T v0 us st0 v st xs" "room T (mItemSize v0) N" "length xs + length ys \<le> N"
  shows "\<exists>v' st'. merge_items T (map Some ys) v st = Inr (Inr 0, v', st') \<and>
    set_at T v0 us st0 v' st' (foldl (\<lambda>xs x. set_add (t_compare T) x xs) xs ys)"
  using assms(1,3)
proof (induction ys arbitrary: v st xs)
  case (Cons y ys)
  have "length xs < N" using Cons.prems(2) by simp
  then obtain v1 st1 where a: "sorted_add T v y st = Inr (Inr (length (smaller (t_compare T) y xs)), v1, st1)"
    "set_at T v0 us st0 v1 st1 (set_add (t_compare T) y xs)" by (rule add_at[OF Cons.prems(1) assms(2)])
  have "length (set_add (t_compare T) y xs) + length ys \<le> N" using length_set_add[of y xs] Cons.prems(2) by simp
  then show ?case using Cons.IH[OF a(2)] a(1) by simp
qed simp

lemma others_at:
  assumes "set_at T v0 us st0 v st xs" "u \<in> set us" "filled u st0"
  shows "arrayImpl u st = Inr (area u st)" "take (mCount u) (area u st) = map Some (items u st0)"
proof -
  note o = set_at_own[OF assms(1)]
  have "placed u st" using ownD(5)[OF conjunct1[OF o]] assms(2) by blast
  then show "arrayImpl u st = Inr (area u st)"
    using ownD(3)[OF conjunct1[OF o]] by (auto simp: placed_def arrayImpl_def deref_def area_def split: if_splits)
  have "area u st = area u st0" using assms(1,2) by (simp add: set_at_def moved_def same_areas_def)
  then show "take (mCount u) (area u st) = map Some (items u st0)" using filled_items[OF assms(3)] by simp
qed

lemma sop_step_at:
  assumes "set_at T v0 us st0 v st xs" "room T (mItemSize v0) N" "\<forall>u \<in> set us. filled u st0" "sop_ok (vals us st0) p"
    "length xs + sop_adds (vals us st0) p \<le> N"
  shows "\<exists>v' st'. sop_step T us p (v, st) = Inr (fst (sop_spec (t_compare T) (vals us st0) p xs), v', st') \<and>
    set_at T v0 us st0 v' st' (snd (sop_spec (t_compare T) (vals us st0) p xs))"
proof (cases p)
  case (Find x)
  then show ?thesis using search_at[OF assms(1), of x] assms(1) by (simp add: indexOf_def)
next
  case (Add x)
  then have "length xs < N" using assms(5) by simp
  then show ?thesis by (rule add_at[OF assms(1,2), of x]) (auto simp: Add)
next
  case (Del x)
  show ?thesis by (rule del_at[OF assms(1,2), of x]) (auto simp: Del)
next
  case (Merge j)
  then have j: "j < length us" "us ! j \<in> set us" using assms(4) by simp_all
  note u = others_at[OF assms(1) j(2)]
  have "length xs + length (items (us ! j) st0) \<le> N" using assms(5) Merge j(1) by simp
  from merge_items_at[OF assms(1,2) this] show ?thesis using u assms(3) j Merge by (simp add: merge_vector_def)
qed

lemma sop_spec_length:
  "strict_by (t_compare T) xs \<Longrightarrow> length (snd (sop_spec (t_compare T) ls p xs)) \<le> length xs + sop_adds ls p"
proof (cases p)
  case (Merge j)
  have "length (foldl (\<lambda>xs x. set_add (t_compare T) x xs) xs ys) \<le> length xs + length ys" for ys
  proof (induction ys arbitrary: xs)
    case (Cons y ys)
    have "length (foldl (\<lambda>xs x. set_add (t_compare T) x xs) xs (y # ys)) \<le> length (set_add (t_compare T) y xs) + length ys"
      using Cons.IH by simp
    also have "\<dots> \<le> length xs + length (y # ys)" using length_set_add[of y xs] by simp
    finally show ?case .
  qed simp
  then show ?thesis using Merge by simp
next
  case (Del x)
  assume "strict_by (t_compare T) xs"
  from arg_cong[OF conjunct1[OF strict_parts[OF this, of x]], of length]
  show ?thesis using Del by (simp add: set_del_def)
qed (use length_set_add in auto)

lemma sop_run_at:
  assumes "set_at T v0 us st0 v st xs" "room T (mItemSize v0) N" "\<forall>u \<in> set us. filled u st0" "\<forall>p \<in> set ps. sop_ok (vals us st0) p"
    "length xs + sum_list (map (sop_adds (vals us st0)) ps) \<le> N"
  shows "\<exists>rs v' st' ys. sop_run T us ps (v, st) = Inr (rs, v', st') \<and> set_at T v0 us st0 v' st' ys \<and>
    sop_spec_run (t_compare T) (vals us st0) ps xs = (rs, ys)"
  using assms(1,4,5)
proof (induction ps arbitrary: v st xs)
  case (Cons p ps)
  obtain r ys where sp: "sop_spec (t_compare T) (vals us st0) p xs = (r, ys)" by fastforce
  obtain v1 st1 where s: "sop_step T us p (v, st) = Inr (r, v1, st1)" "set_at T v0 us st0 v1 st1 ys"
    using sop_step_at[OF Cons.prems(1) assms(2,3), of p] Cons.prems(2,3) sp by auto
  have "length ys \<le> length xs + sop_adds (vals us st0) p"
    using sop_spec_length[of xs "vals us st0" p] Cons.prems(1) sp by (simp add: set_at_def)
  then have "length ys + sum_list (map (sop_adds (vals us st0)) ps) \<le> N" using Cons.prems(3) by simp
  then show ?case using Cons.IH[OF s(2)] Cons.prems(2) s(1) sp by fastforce
qed auto

end

text \<open>
  C31: the binary search of a sorted vector tells what a search through all its items tells: the index of
  the item that compares equal, or that there is none.
\<close>

theorem binary_search_linear:
  assumes "comparison (t_compare T)" "owns T isz vs st" "k < length vs" "strict_by (t_compare T) (items (vs ! k) st)"
  shows "indexOf T (vs ! k) item st = Inr (linear_search (t_compare T) item (items (vs ! k) st)) \<and>
    orderOf T (vs ! k) item st = Inr (length (filter (\<lambda>x. t_compare T x item < 0) (items (vs ! k) st)))"
  using indexOrderOf_eq[OF assms(1) owns_nth(1,2)[OF assms(2,3)] assms(4)] by (simp add: indexOf_def orderOf_def smaller_def)

text \<open>Two vectors that share a buffer with the items 1 and 4.\<close>

definition shared2 :: "int store" where
  "shared2 = \<lparr>bufs = [1 \<mapsto> \<lparr>mRefs = 2, mSize = 16, sb_data = [Some 1, Some 4, None, None]\<rparr>], next_buf = 2, malloc_fails = []\<rparr>"

definition vec2 :: VectorImpl where
  "vec2 = \<lparr>mStorage = 1, mCount = 2, mFlags = 7, mItemSize = 4\<rparr>"

definition int_items :: "int type_ops" where
  "int_items = plain_ops 0 (-)"

lemma owns_shared2: "owns int_items 4 [vec2, vec2] shared2" "malloc_fails shared2 = []" "items vec2 shared2 = [1, 4]"
  by (simp_all add: owns_def placed_def filled_def area_def items_def buf_ok_def shared2_def vec2_def int_items_def plain_ops_def SIZE_MAX_def)

lemma int_items_compare: "t_compare int_items = (-)"
  by (simp add: int_items_def plain_ops_def)

interpretation int_items: sorted_items int_items 0
  unfolding int_items_def by unfold_locales (simp_all add: plain_ops_def)

lemma strict_shared2: "strict_by (t_compare int_items) [1, 4]"
  by (simp add: int_items_compare strict_by_def)

theorem binary_search_linear_witness:
  "indexOf int_items vec2 4 shared2 = Inr (Inr 1) \<and> orderOf int_items vec2 3 shared2 = Inr 1"
  using binary_search_linear[OF int_items.comparison_axioms owns_shared2(1), of 0 4]
    binary_search_linear[OF int_items.comparison_axioms owns_shared2(1), of 0 3] strict_shared2
  by (simp add: owns_shared2(3) linear_search_def int_items_compare)

text \<open>
  C29: a sorted vector is an ordered set. Any sequence of searches, additions, removals and merges with other vectors
  by \<open>merge(const VectorImpl&)\<close> (not \<open>merge(const SortedVectorImpl&)\<close>, which leaves duplicates, below), with memory for the items, returns what the specification says and leaves the items it says, each once and in order; the
  other vectors, whatever buffers they share with it, keep their items.
\<close>

theorem sorted_vector_is_set:
  assumes "item_ops T dflt" "comparison (t_compare T)" "owns T isz (v # us) st" "malloc_fails st = []"
    "strict_by (t_compare T) (items v st)" "room T isz N" "\<forall>p \<in> set ps. sop_ok (vals us st) p"
    "length (items v st) + sum_list (map (sop_adds (vals us st)) ps) \<le> N"
  shows "\<exists>rs v' st'. sop_run T us ps (v, st) = Inr (rs, v', st') \<and> owns T isz (v' # us) st' \<and> vals us st' = vals us st \<and>
    sop_spec_run (t_compare T) (vals us st) ps (items v st) = (rs, items v' st') \<and> strict_by (t_compare T) (items v' st')"
proof -
  have o: "own T v us st" "filled v st" "mItemSize v = isz" "\<forall>u \<in> set us. mItemSize u = isz \<and> filled u st"
    using assms(3) unfolding owns_own by blast+
  have S: "sorted_items T dflt" by (rule sorted_items.intro[OF assms(1,2)])
  have "set_at T v us st v st (items v st)" using moved_refl[OF o(1)] o(2) assms(4,5) by (simp add: set_at_def)
  then obtain rs v' st' ys where r: "sop_run T us ps (v, st) = Inr (rs, v', st')" "set_at T v us st v' st' ys"
    "sop_spec_run (t_compare T) (vals us st) ps (items v st) = (rs, ys)"
    using sorted_items.sop_run_at[OF S, of v us st v st "items v st" N ps] assms(6-8) o(3,4) by blast
  have m: "moved T v us st v' st'" "filled v' st'" "items v' st' = ys" "strict_by (t_compare T) ys" using r(2) by (simp_all add: set_at_def)
  have same: "same_areas us st st'" using m(1) by (simp add: moved_def)
  have "owns T isz (v' # us) st'"
    using m(1,2) o(3,4) same_areas_filled[OF same] unfolding owns_own moved_def by auto
  moreover have "vals us st' = vals us st" using same by (simp add: vals_def same_areas_def items_def)
  ultimately show ?thesis using r m by blast
qed

theorem sorted_vector_is_set_witness:
  "\<exists>v' st'. sop_run int_items [vec2] [Add 3, Del 1, Find 4, Merge 0] (vec2, shared2) = Inr ([Inr 1, Inr 0, Inr 1, Inr 0], v', st') \<and>
     items v' st' = [1, 3, 4] \<and> vals [vec2] st' = [[1, 4]]"
proof -
  let ?ps = "[Add 3, Del 1, Find 4, Merge 0]"
  have v: "vals [vec2] shared2 = [[1, 4]]" by (simp add: vals_def owns_shared2(3))
  have "room int_items 4 8" by (simp add: room_def int_items_def plain_ops_def kMinVectorCapacity_def SIZE_MAX_def)
  moreover have "sop_spec_run (t_compare int_items) [[1, 4]] ?ps [1, 4] = ([Inr 1, Inr 0, Inr 1, Inr 0], [1, 3, 4])"
    unfolding int_items_compare by code_simp
  ultimately show ?thesis
    using sorted_vector_is_set[OF int_items.item_ops_axioms int_items.comparison_axioms owns_shared2(1,2), of 8 ?ps] strict_shared2
    by (auto simp: v owns_shared2(3))
qed

section \<open>Merging sorted vectors\<close>

text \<open>
  The shortcuts of \<open>SortedVectorImpl::merge(const SortedVectorImpl&)\<close> compare the ends of the vectors, and take
  equal items for items in order: merging the items 4 and 5 into a vector that holds 5 leaves 5 twice. Merging
  into an empty vector compares with the item at a null pointer.
\<close>

definition ends_meet :: "int store" where
  "ends_meet = \<lparr>bufs = [1 \<mapsto> \<lparr>mRefs = 1, mSize = 16, sb_data = [Some 5, None, None, None]\<rparr>,
     2 \<mapsto> \<lparr>mRefs = 1, mSize = 16, sb_data = [Some 4, Some 5, None, None]\<rparr>], next_buf = 3, malloc_fails = []\<rparr>"

lemma merge_sorted_duplicates:
  defines "v \<equiv> \<lparr>mStorage = 1, mCount = 1, mFlags = 7, mItemSize = 4\<rparr>" and "u \<equiv> \<lparr>mStorage = 2, mCount = 2, mFlags = 7, mItemSize = 4\<rparr>"
  shows "map_sum id (\<lambda>(r, v', st'). items v' st') (merge_sorted int_items v u ends_meet) = Inr [4, 5, 5]"
  by (simp add: v_def u_def merge_sorted_def last_item_def first_item_def pointed_def item_at_def ends_meet_def
    arrayImpl_def itemLocation_def capacity_def deref_def insertVectorAt_def insertArrayAt_def insert_with_def grow_def safe_def
    SIZE_MAX_def editArrayImpl_def attemptEdit_def onlyOwner_def set_array_def items_def area_def int_items_def plain_ops_def
    memcpy_items_def put_def do_copy_def flag_def HAS_TRIVIAL_COPY_def Let_def)

lemma merge_sorted_into_empty:
  "merge_sorted int_items (new_vector 4 7) vec2 shared2 = Inl NullDeref"
  by (simp add: merge_sorted_def last_item_def first_item_def pointed_def item_at_def shared2_def vec2_def new_vector_def
    arrayImpl_def itemLocation_def capacity_def deref_def)

end
