(* ===== verification/Shim_RefBase.thy ===== *)
theory Shim_RefBase
  imports Prelude "HOL-Library.Multiset"
begin

unbundle bit_operations_syntax

text \<open>
  The reference counts of libshims/RefBase.cpp, which threads change with atomic operations. An
  operation is a program whose labels stand before its accesses of the shared counters, its calls of the object's virtual
  functions and its deletions; a step runs one of them. \<open>DEBUG_REFS\<close> is 0, so that the tracking
  functions of \<open>weakref_impl\<close> are empty. Steps are sequentially consistent, and \<open>delete\<close>, whose destructor reads the
  counters, is one step.
\<close>

section \<open>The shared state\<close>

definition INITIAL_STRONG_VALUE :: int where "INITIAL_STRONG_VALUE = 2 ^ 28"
definition OBJECT_LIFETIME_STRONG :: i32 where "OBJECT_LIFETIME_STRONG = 0"
definition OBJECT_LIFETIME_WEAK :: i32 where "OBJECT_LIFETIME_WEAK = 1"
definition OBJECT_LIFETIME_MASK :: i32 where "OBJECT_LIFETIME_MASK = 1"

text \<open>The counters are 32-bit integers; they stay within them (see the invariant), so that they do not wrap.\<close>

record weakref_impl =
  mStrong :: int
  mWeak :: int
  mLifetime :: i32

text \<open>The virtual functions of the object, which its class may override.\<close>

datatype ref_event = onFirstRef | onLastStrongRef | onLastWeakRef | onIncStrongAttempted

text \<open>An object with its block of counters: whether the two are there, and the calls the object has received.\<close>

record ref_state =
  impl :: weakref_impl
  impl_live :: bool
  base_live :: bool
  called :: "ref_event list"

definition new_RefBase :: ref_state where
  "new_RefBase = \<lparr>impl = \<lparr>mStrong = INITIAL_STRONG_VALUE, mWeak = 0, mLifetime = 0\<rparr>, impl_live = True, base_live = True, called = []\<rparr>"

section \<open>Programs\<close>

datatype inc_label = Inc_weak | Inc_strong | Inc_add | Inc_first
datatype dec_label = Dec_strong | Dec_last | Dec_delete
datatype force_label = Force_weak | Force_strong | Force_add | Force_first
datatype weak_label = Weak_dec | Weak_flags | Weak_base | Weak_impl | Weak_last
datatype attempt_label = Att_weak | Att_read | Att_promote int | Att_hard int | Att_first int | Att_reread | Att_ask | Att_inc
  | Att_unneeded | Att_fix_read | Att_fix int
datatype attempt_weak_label = AttW_read | AttW_try int

text \<open>\<open>DecWeak\<close> remembers what the operation that has called it will return.\<close>

datatype label = IncStrong inc_label | DecStrong dec_label | ForceIncStrong force_label | IncWeak
  | DecWeak weak_label bool | AttemptIncStrong attempt_label | AttemptIncWeak attempt_weak_label

datatype ref_next = Goto label | Return bool

type_synonym ref_step = "ref_state \<Rightarrow> (ref_next \<times> ref_state) result"

text \<open>An access of the counters, a call of the object.\<close>

definition on_impl :: "(weakref_impl \<Rightarrow> ref_next \<times> weakref_impl) \<Rightarrow> ref_step" where
  "on_impl f s = (if impl_live s then (case f (impl s) of (n, i) \<Rightarrow> Inr (n, s\<lparr>impl := i\<rparr>)) else Inl UseAfterFree)"

definition call_base :: "ref_event \<Rightarrow> ref_next \<Rightarrow> ref_step" where
  "call_base e n s = (if base_live s then Inr (n, s\<lparr>called := called s @ [e]\<rparr>) else Inl UseAfterFree)"

text \<open>The destructor of the object, and \<open>delete\<close> of its counters.\<close>

definition delete_RefBase :: "ref_next \<Rightarrow> ref_step" where
  "delete_RefBase n s =
     (if \<not> base_live s \<or> \<not> impl_live s then Inl UseAfterFree
      else if mStrong (impl s) = INITIAL_STRONG_VALUE then Inr (n, s\<lparr>base_live := False, impl_live := False\<rparr>)
      else if mLifetime (impl s) AND OBJECT_LIFETIME_MASK \<noteq> OBJECT_LIFETIME_STRONG \<and> mWeak (impl s) = 0
      then Inr (n, s\<lparr>base_live := False, impl_live := False\<rparr>)
      else Inr (n, s\<lparr>base_live := False\<rparr>))"

definition delete_impl :: "ref_next \<Rightarrow> ref_step" where
  "delete_impl n s = (if impl_live s then Inr (n, s\<lparr>impl_live := False\<rparr>) else Inl UseAfterFree)"

fun incWeak :: "ref_next \<Rightarrow> ref_step" where
  "incWeak n s = on_impl (\<lambda>i. (n, i\<lparr>mWeak := mWeak i + 1\<rparr>)) s"

fun incStrong :: "inc_label \<Rightarrow> ref_step" where
  "incStrong Inc_weak s = incWeak (Goto (IncStrong Inc_strong)) s"
| "incStrong Inc_strong s = on_impl (\<lambda>i.
     (if mStrong i \<noteq> INITIAL_STRONG_VALUE then Return True else Goto (IncStrong Inc_add), i\<lparr>mStrong := mStrong i + 1\<rparr>)) s"
| "incStrong Inc_add s = on_impl (\<lambda>i. (Goto (IncStrong Inc_first), i\<lparr>mStrong := mStrong i - INITIAL_STRONG_VALUE\<rparr>)) s"
| "incStrong Inc_first s = call_base onFirstRef (Return True) s"

fun decStrong :: "dec_label \<Rightarrow> ref_step" where
  "decStrong Dec_strong s = on_impl (\<lambda>i.
     (if mStrong i = 1 then Goto (DecStrong Dec_last) else Goto (DecWeak Weak_dec True), i\<lparr>mStrong := mStrong i - 1\<rparr>)) s"
| "decStrong Dec_last s = call_base onLastStrongRef (Goto (DecStrong Dec_delete)) s"
| "decStrong Dec_delete s =
     (if \<not> impl_live s then Inl UseAfterFree
      else if mLifetime (impl s) AND OBJECT_LIFETIME_MASK = OBJECT_LIFETIME_STRONG
      then delete_RefBase (Goto (DecWeak Weak_dec True)) s
      else Inr (Goto (DecWeak Weak_dec True), s))"

fun forceIncStrong :: "force_label \<Rightarrow> ref_step" where
  "forceIncStrong Force_weak s = incWeak (Goto (ForceIncStrong Force_strong)) s"
| "forceIncStrong Force_strong s = on_impl (\<lambda>i.
     (if mStrong i = INITIAL_STRONG_VALUE then Goto (ForceIncStrong Force_add)
      else if mStrong i = 0 then Goto (ForceIncStrong Force_first) else Return True, i\<lparr>mStrong := mStrong i + 1\<rparr>)) s"
| "forceIncStrong Force_add s = on_impl (\<lambda>i. (Goto (ForceIncStrong Force_first), i\<lparr>mStrong := mStrong i - INITIAL_STRONG_VALUE\<rparr>)) s"
| "forceIncStrong Force_first s = call_base onFirstRef (Return True) s"

fun decWeak :: "weak_label \<Rightarrow> bool \<Rightarrow> ref_step" where
  "decWeak Weak_dec r s = on_impl (\<lambda>i.
     (if mWeak i \<noteq> 1 then Return r else Goto (DecWeak Weak_flags r), i\<lparr>mWeak := mWeak i - 1\<rparr>)) s"
| "decWeak Weak_flags r s = on_impl (\<lambda>i.
     (if mLifetime i AND OBJECT_LIFETIME_WEAK = OBJECT_LIFETIME_STRONG
      then if mStrong i = INITIAL_STRONG_VALUE then Goto (DecWeak Weak_base r) else Goto (DecWeak Weak_impl r)
      else Goto (DecWeak Weak_last r), i)) s"
| "decWeak Weak_base r s = delete_RefBase (Return r) s"
| "decWeak Weak_impl r s = delete_impl (Return r) s"
| "decWeak Weak_last r s =
     (if \<not> impl_live s then Inl UseAfterFree
      else call_base onLastWeakRef (if mLifetime (impl s) AND OBJECT_LIFETIME_MASK = OBJECT_LIFETIME_WEAK
        then Goto (DecWeak Weak_base r) else Return r) s)"

text \<open>\<open>android_atomic_cmpxchg\<close> of the strong count: \<open>yes\<close> when the count was \<open>cur\<close>, which is replaced, otherwise \<open>no\<close>.\<close>

definition cmpxchg_strong :: "int \<Rightarrow> int \<Rightarrow> ref_next \<Rightarrow> ref_next \<Rightarrow> ref_step" where
  "cmpxchg_strong cur new yes no = on_impl (\<lambda>i. if mStrong i = cur then (yes, i\<lparr>mStrong := new\<rparr>) else (no, i))"

text \<open>
  \<open>agrees\<close> is the answer of \<open>onIncStrongAttempted\<close>. The first loop tries to count up from an existing reference;
  the hard case has no strong reference to count up from; the last loop takes \<open>INITIAL_STRONG_VALUE\<close> off.
\<close>

fun attemptIncStrong :: "bool \<Rightarrow> attempt_label \<Rightarrow> ref_step" where
  "attemptIncStrong agrees Att_weak s = incWeak (Goto (AttemptIncStrong Att_read)) s"
| "attemptIncStrong agrees Att_read s = on_impl (\<lambda>i. (Goto (AttemptIncStrong (Att_promote (mStrong i))), i)) s"
| "attemptIncStrong agrees (Att_promote cur) s =
     (if cur > 0 \<and> cur \<noteq> INITIAL_STRONG_VALUE
      then cmpxchg_strong cur (cur + 1) (Goto (AttemptIncStrong Att_fix_read)) (Goto (AttemptIncStrong Att_read)) s
      else Inr (Goto (AttemptIncStrong (Att_hard cur)), s))"
| "attemptIncStrong agrees (Att_hard cur) s = on_impl (\<lambda>i.
     (if mLifetime i AND OBJECT_LIFETIME_WEAK = OBJECT_LIFETIME_STRONG
      then if cur \<le> 0 then Goto (DecWeak Weak_dec False) else Goto (AttemptIncStrong (Att_first cur))
      else Goto (AttemptIncStrong Att_ask), i)) s"
| "attemptIncStrong agrees (Att_first cur) s =
     (if cur > 0
      then cmpxchg_strong cur (cur + 1)
        (Goto (AttemptIncStrong (if cur < INITIAL_STRONG_VALUE then Att_unneeded else Att_fix_read)))
        (Goto (AttemptIncStrong Att_reread)) s
      else Inr (Goto (DecWeak Weak_dec False), s))"
| "attemptIncStrong agrees Att_reread s = on_impl (\<lambda>i. (Goto (AttemptIncStrong (Att_first (mStrong i))), i)) s"
| "attemptIncStrong agrees Att_ask s =
     call_base onIncStrongAttempted (if agrees then Goto (AttemptIncStrong Att_inc) else Goto (DecWeak Weak_dec False)) s"
| "attemptIncStrong agrees Att_inc s = on_impl (\<lambda>i.
     (Goto (AttemptIncStrong (if mStrong i > 0 \<and> mStrong i < INITIAL_STRONG_VALUE then Att_unneeded else Att_fix_read)),
      i\<lparr>mStrong := mStrong i + 1\<rparr>)) s"
| "attemptIncStrong agrees Att_unneeded s = call_base onLastStrongRef (Goto (AttemptIncStrong Att_fix_read)) s"
| "attemptIncStrong agrees Att_fix_read s = on_impl (\<lambda>i. (Goto (AttemptIncStrong (Att_fix (mStrong i))), i)) s"
| "attemptIncStrong agrees (Att_fix cur) s =
     (if cur \<ge> INITIAL_STRONG_VALUE
      then cmpxchg_strong cur (cur - INITIAL_STRONG_VALUE) (Return True) (Goto (AttemptIncStrong Att_fix_read)) s
      else Inr (Return True, s))"

fun attemptIncWeak :: "attempt_weak_label \<Rightarrow> ref_step" where
  "attemptIncWeak AttW_read s = on_impl (\<lambda>i. (Goto (AttemptIncWeak (AttW_try (mWeak i))), i)) s"
| "attemptIncWeak (AttW_try cur) s =
     (if cur > 0
      then on_impl (\<lambda>i. if mWeak i = cur then (Return True, i\<lparr>mWeak := cur + 1\<rparr>) else (Goto (AttemptIncWeak AttW_read), i)) s
      else Inr (Return False, s))"

fun ref_step :: "bool \<Rightarrow> label \<Rightarrow> ref_step" where
  "ref_step agrees (IncStrong l) = incStrong l"
| "ref_step agrees (DecStrong l) = decStrong l"
| "ref_step agrees (ForceIncStrong l) = forceIncStrong l"
| "ref_step agrees IncWeak = incWeak (Return True)"
| "ref_step agrees (DecWeak l r) = decWeak l r"
| "ref_step agrees (AttemptIncStrong l) = attemptIncStrong agrees l"
| "ref_step agrees (AttemptIncWeak l) = attemptIncWeak l"

definition extendObjectLifetime :: "i32 \<Rightarrow> ref_state \<Rightarrow> ref_state result" where
  "extendObjectLifetime mode s =
     (if impl_live s then Inr (s\<lparr>impl := (impl s)\<lparr>mLifetime := mLifetime (impl s) OR mode\<rparr>\<rparr>) else Inl UseAfterFree)"

section \<open>Threads\<close>

text \<open>
  What a thread does with the references it holds: \<open>sp\<close> and \<open>wp\<close> objects that are copied, dropped and promoted, and the first
  references, which the creator of the object takes with the plain pointer.
\<close>

datatype ref_op = CopyStrong | DropStrong | ForceStrong | WeakOfStrong | CopyWeak | DropWeak | Promote | PromoteWeak
  | FirstStrong | FirstWeak

fun entry :: "ref_op \<Rightarrow> label" where
  "entry CopyStrong = IncStrong Inc_weak"
| "entry DropStrong = DecStrong Dec_strong"
| "entry ForceStrong = ForceIncStrong Force_weak"
| "entry WeakOfStrong = IncWeak"
| "entry CopyWeak = IncWeak"
| "entry DropWeak = DecWeak Weak_dec True"
| "entry Promote = AttemptIncStrong Att_weak"
| "entry PromoteWeak = AttemptIncWeak AttW_read"
| "entry FirstStrong = IncStrong Inc_weak"
| "entry FirstWeak = IncWeak"

text \<open>
  The references an operation works with: those it needs when it begins, which no other operation uses meanwhile, and those that
  are there when it returns; strong ones first.
\<close>

fun takes :: "ref_op \<Rightarrow> nat \<times> nat" where
  "takes CopyStrong = (1, 0)"
| "takes DropStrong = (1, 0)"
| "takes ForceStrong = (1, 0)"
| "takes WeakOfStrong = (1, 0)"
| "takes CopyWeak = (0, 1)"
| "takes DropWeak = (0, 1)"
| "takes Promote = (0, 1)"
| "takes PromoteWeak = (0, 1)"
| "takes FirstStrong = (0, 0)"
| "takes FirstWeak = (0, 0)"

fun gives :: "ref_op \<Rightarrow> bool \<Rightarrow> nat \<times> nat" where
  "gives CopyStrong r = (2, 0)"
| "gives DropStrong r = (0, 0)"
| "gives ForceStrong r = (2, 0)"
| "gives WeakOfStrong r = (1, 1)"
| "gives CopyWeak r = (0, 2)"
| "gives DropWeak r = (0, 0)"
| "gives Promote r = (if r then 1 else 0, 1)"
| "gives PromoteWeak r = (0, if r then 2 else 1)"
| "gives FirstStrong r = (1, 0)"
| "gives FirstWeak r = (0, 1)"

fun creator :: "ref_op \<Rightarrow> bool" where
  "creator FirstStrong = True"
| "creator FirstWeak = True"
| "creator _ = False"

text \<open>
  The object, the references no operation is working with, whether the creator still has the plain pointer, and the
  operations that are running.
\<close>

record ref_sys =
  shared :: ref_state
  strongs :: nat
  weaks :: nat
  birth :: bool
  procs :: "(ref_op \<times> label) multiset"

text \<open>
  When an operation may begin. The references are below \<open>INITIAL_STRONG_VALUE\<close>. With \<open>careful\<close>, the creator takes its first
  references alone: the others begin when it has finished.
\<close>

definition may_begin :: "bool \<Rightarrow> ref_op \<Rightarrow> ref_sys \<Rightarrow> bool" where
  "may_begin careful o1 s \<longleftrightarrow> fst (takes o1) \<le> strongs s \<and> snd (takes o1) \<le> weaks s \<and>
     int (strongs s + weaks s + 2 * Suc (size (procs s))) < INITIAL_STRONG_VALUE \<and>
     (if creator o1 then birth s \<and> (careful \<longrightarrow> procs s = {#})
      else careful \<longrightarrow> \<not> birth s \<and> (\<forall>p \<in># procs s. \<not> creator (fst p)))"

inductive ref_sys_step :: "bool \<Rightarrow> bool \<Rightarrow> ref_sys \<Rightarrow> ref_sys \<Rightarrow> bool" for careful agrees where
  begins: "may_begin careful o1 s \<Longrightarrow>
    ref_sys_step careful agrees s (s\<lparr>strongs := strongs s - fst (takes o1), weaks := weaks s - snd (takes o1),
      birth := (birth s \<and> o1 \<noteq> FirstStrong), procs := add_mset (o1, entry o1) (procs s)\<rparr>)"
| gives_up: "birth s \<Longrightarrow> procs s = {#} \<Longrightarrow> 0 < weaks s \<Longrightarrow> ref_sys_step careful agrees s (s\<lparr>birth := False\<rparr>)"
| goes_on: "procs s = add_mset (o1, l) M \<Longrightarrow> ref_step agrees l (shared s) = Inr (Goto l', sh) \<Longrightarrow>
    ref_sys_step careful agrees s (s\<lparr>shared := sh, procs := add_mset (o1, l') M\<rparr>)"
| returns: "procs s = add_mset (o1, l) M \<Longrightarrow> ref_step agrees l (shared s) = Inr (Return r, sh) \<Longrightarrow>
    ref_sys_step careful agrees s (s\<lparr>shared := sh, strongs := strongs s + fst (gives o1 r), weaks := weaks s + snd (gives o1 r),
      procs := M\<rparr>)"

definition ref_init :: ref_sys where
  "ref_init = \<lparr>shared = new_RefBase, strongs = 0, weaks = 0, birth = True, procs = {#}\<rparr>"

definition ref_reach :: "bool \<Rightarrow> bool \<Rightarrow> ref_sys \<Rightarrow> bool" where
  "ref_reach careful agrees s \<longleftrightarrow> (ref_sys_step careful agrees)\<^sup>*\<^sup>* ref_init s"

end
