(* ===== verification/Shim_RefBase_Props.thy ===== *)
theory Shim_RefBase_Props
  imports Shim_RefBase
begin

text \<open>
  Reference counting is safe in every interleaving: an invariant ties the counters to the references that are held and to the
  operations under way. The object lives as long as a strong reference is held, its counters as long as any, and
  nothing is used after it was freed or freed twice. The invariant is for objects of the normal lifetime.
\<close>

section \<open>The references inside operations\<close>

text \<open>What the operations under way add to the two counters.\<close>

fun st :: "ref_op \<times> label \<Rightarrow> nat" where
  "st (CopyStrong, l) = 1"
| "st (ForceStrong, l) = 1"
| "st (WeakOfStrong, l) = 1"
| "st (DropStrong, l) = (if l = DecStrong Dec_strong then 1 else 0)"
| "st (FirstStrong, l) = (if l = IncStrong Inc_add \<or> l = IncStrong Inc_first then 1 else 0)"
| "st (Promote, l) = (case l of AttemptIncStrong Att_unneeded \<Rightarrow> 1 | AttemptIncStrong Att_fix_read \<Rightarrow> 1
     | AttemptIncStrong (Att_fix cur) \<Rightarrow> 1 | _ \<Rightarrow> 0)"
| "st (o1, l) = 0"

text \<open>The last reference is gone and the counters are about to be freed.\<close>

fun freeing :: "label \<Rightarrow> bool" where
  "freeing (DecWeak Weak_dec r) = False"
| "freeing (DecWeak l r) = True"
| "freeing l = False"

fun wt :: "ref_op \<times> label \<Rightarrow> nat" where
  "wt (CopyStrong, l) = (if l = IncStrong Inc_weak then 1 else 2)"
| "wt (ForceStrong, l) = (if l = ForceIncStrong Force_weak then 1 else 2)"
| "wt (FirstStrong, l) = (if l = IncStrong Inc_weak then 0 else 1)"
| "wt (FirstWeak, l) = 0"
| "wt (Promote, l) = (if l = AttemptIncStrong Att_weak then 1 else 2)"
| "wt (DropStrong, l) = (if freeing l then 0 else 1)"
| "wt (DropWeak, l) = (if freeing l then 0 else 1)"
| "wt (o1, l) = 1"

text \<open>The operation has taken the last strong reference and is about to delete the object; it is about to free the counters.\<close>

fun dl :: "ref_op \<times> label \<Rightarrow> nat" where
  "dl (o1, l) = (if l = DecStrong Dec_last \<or> l = DecStrong Dec_delete then 1 else 0)"

fun fl :: "ref_op \<times> label \<Rightarrow> nat" where
  "fl (o1, l) = (if freeing l then 1 else 0)"

text \<open>
  The labels an operation can be at. \<open>u\<close>: \<open>INITIAL_STRONG_VALUE\<close> has not been taken off; \<open>d\<close>: it has, and there is no strong reference.
  A count that was read is old by the time it is used; what it still tells is written here.
\<close>

fun proc_ok :: "bool \<Rightarrow> bool \<Rightarrow> ref_op \<times> label \<Rightarrow> bool" where
  "proc_ok u d (CopyStrong, l) \<longleftrightarrow> \<not> u \<and> l \<in> {IncStrong Inc_weak, IncStrong Inc_strong}"
| "proc_ok u d (ForceStrong, l) \<longleftrightarrow> \<not> u \<and> l \<in> {ForceIncStrong Force_weak, ForceIncStrong Force_strong}"
| "proc_ok u d (WeakOfStrong, l) \<longleftrightarrow> \<not> u \<and> l = IncWeak"
| "proc_ok u d (DropStrong, l) \<longleftrightarrow> \<not> u \<and> (case l of DecStrong k \<Rightarrow> True | DecWeak k r \<Rightarrow> k \<in> {Weak_dec, Weak_flags, Weak_impl} | _ \<Rightarrow> False)"
| "proc_ok u d (CopyWeak, l) \<longleftrightarrow> l = IncWeak"
| "proc_ok u d (DropWeak, l) \<longleftrightarrow> (case l of DecWeak k r \<Rightarrow> k \<in> {Weak_dec, Weak_flags} \<or> k = Weak_base \<and> u \<or> k = Weak_impl \<and> \<not> u | _ \<Rightarrow> False)"
| "proc_ok u d (Promote, l) \<longleftrightarrow> (case l of
     AttemptIncStrong (Att_promote cur) \<Rightarrow> cur \<le> 0 \<longrightarrow> d
   | AttemptIncStrong (Att_hard cur) \<Rightarrow> (cur \<le> 0 \<and> d) \<or> cur = INITIAL_STRONG_VALUE
   | AttemptIncStrong (Att_first cur) \<Rightarrow> cur \<le> 0 \<longrightarrow> d
   | AttemptIncStrong (Att_fix cur) \<Rightarrow> cur < INITIAL_STRONG_VALUE \<longrightarrow> \<not> u
   | AttemptIncStrong k \<Rightarrow> k \<noteq> Att_ask \<and> k \<noteq> Att_inc
   | DecWeak k r \<Rightarrow> k = Weak_dec \<and> \<not> r \<and> d
   | _ \<Rightarrow> False)"
| "proc_ok u d (PromoteWeak, l) \<longleftrightarrow> (case l of AttemptIncWeak (AttW_try cur) \<Rightarrow> 0 < cur | AttemptIncWeak AttW_read \<Rightarrow> True | _ \<Rightarrow> False)"
| "proc_ok u d (FirstStrong, l) \<longleftrightarrow> (u \<and> l \<in> {IncStrong Inc_weak, IncStrong Inc_strong, IncStrong Inc_add}) \<or> (\<not> u \<and> l = IncStrong Inc_first)"
| "proc_ok u d (FirstWeak, l) \<longleftrightarrow> u \<and> l = IncWeak"

definition tot :: "(ref_op \<times> label \<Rightarrow> nat) \<Rightarrow> (ref_op \<times> label) multiset \<Rightarrow> nat" where
  "tot f M = sum_mset (image_mset f M)"

lemma tot_simps [simp]: "tot f {#} = 0" "tot f (add_mset p M) = f p + tot f M"
  by (simp_all add: tot_def)

lemma tot_zero: "tot f M = 0 \<Longrightarrow> p \<in># M \<Longrightarrow> f p = 0"
  by (auto simp: tot_def)

section \<open>The invariant\<close>

text \<open>
  \<open>A\<close> and \<open>W\<close> are the references that are held; \<open>need\<close> says that someone will still use the counters.
\<close>

definition lives :: "ref_state \<Rightarrow> bool \<Rightarrow> nat \<Rightarrow> nat \<Rightarrow> nat \<Rightarrow> bool \<Rightarrow> bool" where
  "lives sh u A D F need \<longleftrightarrow>
     (if u then D = 0 \<and> base_live sh = impl_live sh
      else if 0 < A then D = 0 \<and> base_live sh else D \<le> 1 \<and> (base_live sh \<longleftrightarrow> D = 1)) \<and>
     (if need then F = 0 \<and> impl_live sh else F \<le> 1 \<and> (impl_live sh \<longleftrightarrow> F = 1))"

definition counts :: "ref_state \<Rightarrow> nat \<Rightarrow> nat \<Rightarrow> bool \<Rightarrow> (ref_op \<times> label) multiset \<Rightarrow> bool" where
  "counts sh ns nw b M \<longleftrightarrow>
     (let i = impl sh; A = ns + tot st M; W = ns + nw + tot wt M; u = (INITIAL_STRONG_VALUE \<le> mStrong i); d = (\<not> u \<and> A = 0)
      in mLifetime i AND 1 = 0 \<and> int (ns + nw + 2 * size M) < INITIAL_STRONG_VALUE \<and>
         mWeak i = int W \<and> mStrong i = int A + (if u then INITIAL_STRONG_VALUE else 0) \<and> (u \<longrightarrow> ns = 0) \<and>
         lives sh u A (tot dl M) (tot fl M) (0 < W \<or> b \<or> (FirstStrong, IncStrong Inc_weak) \<in># M) \<and>
         (\<forall>p \<in># M. proc_ok u d p) \<and>
         (b \<longrightarrow> u \<and> (\<forall>p \<in># M. fst p = FirstWeak)) \<and> ((\<exists>p \<in># M. creator (fst p)) \<longrightarrow> size M = 1) \<and>
         ((\<exists>p \<in># M. fst p = FirstWeak) \<longrightarrow> b))"

definition ref_inv :: "ref_sys \<Rightarrow> bool" where
  "ref_inv s \<longleftrightarrow> counts (shared s) (strongs s) (weaks s) (birth s) (procs s)"

lemma st_le: "st p \<le> 1"
  by (cases p; cases "fst p") (auto split: label.splits attempt_label.splits)

lemma tot_st_size: "tot st M \<le> size M"
proof (induction M)
  case (add p M)
  then show ?case using st_le[of p] by simp
qed simp

lemma ref_inv_init: "ref_inv ref_init"
  by (simp add: ref_inv_def counts_def ref_init_def new_RefBase_def lives_def INITIAL_STRONG_VALUE_def)

lemma st_wt: "proc_ok u d p \<Longrightarrow> st p \<le> wt p"
  by (cases p; cases "fst p") (auto split: label.splits attempt_label.splits)

lemma tot_st_wt: "\<forall>p \<in># M. proc_ok u d p \<Longrightarrow> tot st M \<le> tot wt M"
proof (induction M)
  case (add p M)
  then show ?case using st_wt[of u d p] by (auto intro: add_mono)
qed simp

text \<open>What an operation knows when another one moves on.\<close>

lemma proc_ok_mono: "proc_ok u d p \<Longrightarrow> (d \<Longrightarrow> d') \<Longrightarrow> proc_ok u d' p"
  by (cases p; cases "fst p") (auto split: label.splits attempt_label.splits)

lemma proc_ok_fixed: "proc_ok True d p \<Longrightarrow> fl p = 0 \<Longrightarrow> \<not> creator (fst p) \<Longrightarrow> (d \<Longrightarrow> d') \<Longrightarrow> proc_ok False d' p"
  by (cases p; cases "fst p") (auto split: label.splits attempt_label.splits weak_label.splits)

text \<open>Where an operation ends up after a step.\<close>

definition moves_to :: "ref_op \<Rightarrow> nat \<Rightarrow> nat \<Rightarrow> bool \<Rightarrow> (ref_op \<times> label) multiset \<Rightarrow> (ref_next \<times> ref_state) result \<Rightarrow> bool" where
  "moves_to o1 ns nw b M res \<longleftrightarrow> (case res of
       Inl f \<Rightarrow> False
     | Inr (Goto l, sh) \<Rightarrow> counts sh ns nw b (add_mset (o1, l) M)
     | Inr (Return r, sh) \<Rightarrow> counts sh (ns + fst (gives o1 r)) (nw + snd (gives o1 r)) b M)"

lemmas access_defs = on_impl_def call_base_def delete_RefBase_def delete_impl_def cmpxchg_strong_def
  OBJECT_LIFETIME_MASK_def OBJECT_LIFETIME_STRONG_def OBJECT_LIFETIME_WEAK_def

lemma creator_alone: "counts sh ns nw b (add_mset p M) \<Longrightarrow> q \<in># M \<Longrightarrow> \<not> creator (fst q)"
proof
  assume c: "counts sh ns nw b (add_mset p M)" and q: "q \<in># M" "creator (fst q)"
  have "(\<exists>p' \<in># add_mset p M. creator (fst p')) \<longrightarrow> size (add_mset p M) = 1" using c unfolding counts_def Let_def by blast
  moreover have "q \<in># add_mset p M" using q(1) by simp
  ultimately have "size (add_mset p M) = 1" using q(2) by blast
  then show False using q(1) by simp
qed

text \<open>When \<open>INITIAL_STRONG_VALUE\<close> is taken off, the other operations are where they can be afterwards.\<close>

lemma others_fixed:
  assumes "counts sh ns nw b (add_mset p M)" "INITIAL_STRONG_VALUE \<le> mStrong (impl sh)" "tot fl M = 0"
  shows "\<forall>q \<in># M. proc_ok False False q"
proof
  fix q assume q: "q \<in># M"
  have "\<forall>q \<in># add_mset p M. proc_ok (INITIAL_STRONG_VALUE \<le> mStrong (impl sh))
      (\<not> INITIAL_STRONG_VALUE \<le> mStrong (impl sh) \<and> ns + tot st (add_mset p M) = 0) q"
    using assms(1) unfolding counts_def Let_def by (elim conjE)
  from bspec[OF this, of q] have "proc_ok True False q" using assms(2) q by simp
  then show "proc_ok False False q" by (rule proc_ok_fixed[OF _ tot_zero[OF assms(3) q] creator_alone[OF assms(1) q]]) simp
qed

lemma no_first: "counts sh ns nw b (add_mset p M) \<Longrightarrow> (FirstStrong, k) \<notin># M"
  using creator_alone by fastforce

lemma drop_strong_moves:
  assumes "counts sh ns nw b (add_mset (DropStrong, l) M)"
  shows "moves_to DropStrong ns nw b M (ref_step agrees l sh)"
proof -
  let ?u = "INITIAL_STRONG_VALUE \<le> mStrong (impl sh)"
  note c = assms[unfolded counts_def Let_def]
  have l: "\<not> ?u" "(\<exists>k. l = DecStrong k) \<or> (\<exists>r. l = DecWeak Weak_dec r) \<or> (\<exists>r. l = DecWeak Weak_flags r) \<or> (\<exists>r. l = DecWeak Weak_impl r)"
    using c by (auto split: label.splits)
  have M: "\<forall>p \<in># M. proc_ok False d p" if "ns + tot st (add_mset (DropStrong, l) M) = 0 \<Longrightarrow> d" for d
    using c l(1) that by (auto intro: proc_ok_mono)
  from l(2) show ?thesis
  proof (elim disjE exE)
    fix k assume k: "l = DecStrong k"
    show ?thesis
    proof (cases k)
      case Dec_strong
      then show ?thesis using c l(1) M[of "ns + tot st M = 0"] unfolding k
        by (auto simp: moves_to_def counts_def access_defs lives_def Let_def)
    next
      case Dec_last
      then show ?thesis using c l(1) M unfolding k
        by (auto simp: moves_to_def counts_def access_defs lives_def Let_def)
    next
      case Dec_delete
      then show ?thesis using c l(1) M unfolding k
        by (auto simp: moves_to_def counts_def access_defs lives_def Let_def)
    qed
  next
    fix r assume l: "l = DecWeak Weak_dec r"
    then show ?thesis using c l M
      by (auto simp: moves_to_def counts_def access_defs lives_def Let_def)
  next
    fix r assume l: "l = DecWeak Weak_flags r"
    then show ?thesis using c l M
      by (auto simp: moves_to_def counts_def access_defs lives_def Let_def)
  next
    fix r assume l: "l = DecWeak Weak_impl r"
    then show ?thesis using c l M
      by (auto simp: moves_to_def counts_def access_defs lives_def Let_def)
  qed
qed

lemma copy_strong_moves:
  assumes "counts sh ns nw b (add_mset (CopyStrong, l) M)"
  shows "moves_to CopyStrong ns nw b M (ref_step agrees l sh)"
proof -
  note c = assms[unfolded counts_def Let_def]
  then have "l = IncStrong Inc_weak \<or> l = IncStrong Inc_strong" by auto
  then show ?thesis using c tot_st_size[of M] by (auto simp: moves_to_def counts_def access_defs lives_def Let_def)
qed

lemma force_strong_moves:
  assumes "counts sh ns nw b (add_mset (ForceStrong, l) M)"
  shows "moves_to ForceStrong ns nw b M (ref_step agrees l sh)"
proof -
  note c = assms[unfolded counts_def Let_def]
  then have "l = ForceIncStrong Force_weak \<or> l = ForceIncStrong Force_strong" by auto
  then show ?thesis using c tot_st_size[of M] by (auto simp: moves_to_def counts_def access_defs lives_def Let_def)
qed

lemma weak_of_strong_moves:
  assumes "counts sh ns nw b (add_mset (WeakOfStrong, l) M)"
  shows "moves_to WeakOfStrong ns nw b M (ref_step agrees l sh)"
  using assms by (cases "INITIAL_STRONG_VALUE \<le> mStrong (impl sh)") (auto simp: moves_to_def counts_def access_defs lives_def Let_def)

lemma copy_weak_moves:
  assumes "counts sh ns nw b (add_mset (CopyWeak, l) M)"
  shows "moves_to CopyWeak ns nw b M (ref_step agrees l sh)"
  using assms by (cases "INITIAL_STRONG_VALUE \<le> mStrong (impl sh)") (auto simp: moves_to_def counts_def access_defs lives_def Let_def)

lemma first_weak_moves:
  assumes "counts sh ns nw b (add_mset (FirstWeak, l) M)"
  shows "moves_to FirstWeak ns nw b M (ref_step agrees l sh)"
  using assms by (cases "INITIAL_STRONG_VALUE \<le> mStrong (impl sh)") (auto simp: moves_to_def counts_def access_defs lives_def Let_def)

lemma first_strong_moves:
  assumes "counts sh ns nw b (add_mset (FirstStrong, l) M)"
  shows "moves_to FirstStrong ns nw b M (ref_step agrees l sh)"
proof -
  note c = assms[unfolded counts_def Let_def]
  then have M: "M = {#}" "\<not> b" by auto
  have "l = IncStrong Inc_weak \<or> l = IncStrong Inc_strong \<or> l = IncStrong Inc_add \<or> l = IncStrong Inc_first" using c by auto
  then show ?thesis using c unfolding M(1) using M(2)
    by (auto simp: moves_to_def counts_def access_defs lives_def Let_def INITIAL_STRONG_VALUE_def)
qed

lemma drop_weak_moves:
  assumes "counts sh ns nw b (add_mset (DropWeak, l) M)"
  shows "moves_to DropWeak ns nw b M (ref_step agrees l sh)"
proof -
  note c = assms[unfolded counts_def Let_def] and f = no_first[OF assms]
  have le: "tot st M \<le> tot wt M" by (rule tot_st_wt[where u = "INITIAL_STRONG_VALUE \<le> mStrong (impl sh)"]) (use c in auto)
  have "(\<exists>r. l = DecWeak Weak_dec r) \<or> (\<exists>r. l = DecWeak Weak_flags r) \<or> (\<exists>r. l = DecWeak Weak_base r) \<or> (\<exists>r. l = DecWeak Weak_impl r)"
    using c by (auto split: label.splits)
  then show ?thesis
  proof (elim disjE exE)
    fix r assume l: "l = DecWeak Weak_dec r"
    then show ?thesis using c f le by (cases "INITIAL_STRONG_VALUE \<le> mStrong (impl sh)") (auto simp: moves_to_def counts_def access_defs lives_def Let_def)
  next
    fix r assume l: "l = DecWeak Weak_flags r"
    then show ?thesis using c f le by (cases "INITIAL_STRONG_VALUE \<le> mStrong (impl sh)") (auto simp: moves_to_def counts_def access_defs lives_def Let_def)
  next
    fix r assume l: "l = DecWeak Weak_base r"
    then show ?thesis using c f le by (cases "INITIAL_STRONG_VALUE \<le> mStrong (impl sh)") (auto simp: moves_to_def counts_def access_defs lives_def Let_def)
  next
    fix r assume l: "l = DecWeak Weak_impl r"
    then show ?thesis using c f le by (cases "INITIAL_STRONG_VALUE \<le> mStrong (impl sh)") (auto simp: moves_to_def counts_def access_defs lives_def Let_def)
  qed
qed

lemma promote_weak_moves:
  assumes "counts sh ns nw b (add_mset (PromoteWeak, l) M)"
  shows "moves_to PromoteWeak ns nw b M (ref_step agrees l sh)"
proof -
  note c = assms[unfolded counts_def Let_def]
  then have "l = AttemptIncWeak AttW_read \<or> (\<exists>cur. l = AttemptIncWeak (AttW_try cur) \<and> 0 < cur)"
    by (auto split: label.splits attempt_weak_label.splits)
  then show ?thesis
  proof (elim disjE exE conjE)
    assume "l = AttemptIncWeak AttW_read"
    then show ?thesis using c by (cases "INITIAL_STRONG_VALUE \<le> mStrong (impl sh)") (auto simp: moves_to_def counts_def access_defs lives_def Let_def)
  next
    fix cur assume "l = AttemptIncWeak (AttW_try cur)" "0 < cur"
    then show ?thesis using c by (cases "INITIAL_STRONG_VALUE \<le> mStrong (impl sh)") (auto simp: moves_to_def counts_def access_defs lives_def Let_def)
  qed
qed

text \<open>
  Promotion. In the first group of labels the operation has its weak references only; then it has its strong one, and
  perhaps \<open>INITIAL_STRONG_VALUE\<close> is still to be taken off, which is the one step that changes what holds for all.
\<close>

lemma attempt_labels:
  assumes "proc_ok u d (Promote, l)"
  obtains "l = AttemptIncStrong Att_weak" | "l = AttemptIncStrong Att_read" | cur where "l = AttemptIncStrong (Att_promote cur)" "cur \<le> 0 \<longrightarrow> d"
    | cur where "l = AttemptIncStrong (Att_hard cur)" "cur \<le> 0 \<and> d \<or> cur = INITIAL_STRONG_VALUE"
    | cur where "l = AttemptIncStrong (Att_first cur)" "cur \<le> 0 \<longrightarrow> d"
    | "l = AttemptIncStrong Att_reread" | "l = AttemptIncStrong Att_unneeded" | "l = AttemptIncStrong Att_fix_read"
    | cur where "l = AttemptIncStrong (Att_fix cur)" "cur < INITIAL_STRONG_VALUE \<longrightarrow> \<not> u"
    | "l = DecWeak Weak_dec False" d
  using assms by (auto split: label.splits attempt_label.splits)

lemma promote_moves:
  assumes "counts sh ns nw b (add_mset (Promote, l) M)"
  shows "moves_to Promote ns nw b M (ref_step agrees l sh)"
proof -
  let ?u = "INITIAL_STRONG_VALUE \<le> mStrong (impl sh)"
  note c = assms[unfolded counts_def Let_def] and f = no_first[OF assms] and n = tot_st_size[of M]
  have pos: "0 < INITIAL_STRONG_VALUE" by (simp add: INITIAL_STRONG_VALUE_def)
  have p: "proc_ok ?u (\<not> ?u \<and> ns + tot st (add_mset (Promote, l) M) = 0) (Promote, l)" using c by auto
  have low: "mStrong (impl sh) < 2 * INITIAL_STRONG_VALUE" using c n st_le[of "(Promote, l)"] by (auto split: if_splits)
  show ?thesis
  proof (cases rule: attempt_labels[OF p])
    case 1
    then show ?thesis using c f n by (cases ?u) (auto simp: moves_to_def counts_def access_defs lives_def Let_def)
  next
    case 2
    then show ?thesis using c f pos n by (cases ?u) (auto simp: moves_to_def counts_def access_defs lives_def Let_def)
  next
    case (3 cur)
    then show ?thesis using c f pos n by (cases ?u) (auto simp: moves_to_def counts_def access_defs lives_def Let_def)
  next
    case (4 cur)
    then show ?thesis using c f pos n by (cases ?u) (auto simp: moves_to_def counts_def access_defs lives_def Let_def)
  next
    case (5 cur)
    then show ?thesis using c f pos n by (cases ?u) (auto simp: moves_to_def counts_def access_defs lives_def Let_def)
  next
    case 6
    then show ?thesis using c f pos n by (cases ?u) (auto simp: moves_to_def counts_def access_defs lives_def Let_def)
  next
    case 7
    then show ?thesis using c f pos n by (cases ?u) (auto simp: moves_to_def counts_def access_defs lives_def Let_def)
  next
    case 8
    then show ?thesis using c f pos n by (cases ?u) (auto simp: moves_to_def counts_def access_defs lives_def Let_def)
  next
    case (9 cur)
    then show ?thesis using c f pos n others_fixed[OF assms] by (cases ?u) (auto simp: moves_to_def counts_def access_defs lives_def Let_def)
  next
    case 10
    then show ?thesis using c f pos n by (cases ?u) (auto simp: moves_to_def counts_def access_defs lives_def Let_def)
  qed
qed

theorem op_moves: "counts sh ns nw b (add_mset (o1, l) M) \<Longrightarrow> moves_to o1 ns nw b M (ref_step agrees l sh)"
  by (cases o1) (simp_all add: copy_strong_moves drop_strong_moves force_strong_moves weak_of_strong_moves copy_weak_moves
    drop_weak_moves promote_moves promote_weak_moves first_strong_moves first_weak_moves)

text \<open>An operation begins.\<close>

lemma begins_inv:
  assumes "ref_inv s" "may_begin True o1 s"
  shows "ref_inv (s\<lparr>strongs := strongs s - fst (takes o1), weaks := weaks s - snd (takes o1),
      birth := (birth s \<and> o1 \<noteq> FirstStrong), procs := add_mset (o1, entry o1) (procs s)\<rparr>)"
proof -
  have u: "\<not> INITIAL_STRONG_VALUE \<le> mStrong (impl (shared s))" if "0 < strongs s" using assms(1) that by (auto simp: ref_inv_def counts_def Let_def)
  show ?thesis
    using assms u by (cases o1; cases "INITIAL_STRONG_VALUE \<le> mStrong (impl (shared s))")
      (auto simp: ref_inv_def counts_def may_begin_def lives_def Let_def)
qed

end
