(* ===== verification/Shim_RefBase_Reach.thy ===== *)
theory Shim_RefBase_Reach
  imports Shim_RefBase_Props
begin

text \<open>
  Reference counting in every reachable state: safety in every interleaving, promotion, and the race that the code leaves open
  when the first strong reference is taken while others already promote weak ones.
\<close>

section \<open>Every reachable state\<close>

lemma inv_moves:
  assumes "ref_inv s" "procs s = add_mset (o1, l) M"
  shows "moves_to o1 (strongs s) (weaks s) (birth s) M (ref_step agrees l (shared s))"
  by (rule op_moves) (use assms in \<open>simp add: ref_inv_def\<close>)

lemma ref_step_inv:
  assumes "ref_sys_step True agrees s t" "ref_inv s"
  shows "ref_inv t"
  using assms
proof (cases rule: ref_sys_step.cases)
  case (begins o1)
  then show ?thesis using begins_inv[OF assms(2)] by blast
next
  case gives_up
  then show ?thesis using assms(2) by (auto simp: ref_inv_def counts_def lives_def Let_def)
next
  case (goes_on o1 l M l' sh)
  then show ?thesis using inv_moves[OF assms(2) goes_on(2), of agrees] by (simp add: moves_to_def ref_inv_def)
next
  case (returns o1 l M r sh)
  then show ?thesis using inv_moves[OF assms(2) returns(2), of agrees] by (simp add: moves_to_def ref_inv_def)
qed

lemma reach_inv: "ref_reach True agrees s \<Longrightarrow> ref_inv s"
  unfolding ref_reach_def by (induction rule: rtranclp_induct) (use ref_inv_init ref_step_inv in blast)+

text \<open>What the invariant says about the references that are held.\<close>

lemma inv_live:
  assumes "ref_inv s"
  shows "0 < strongs s \<Longrightarrow> base_live (shared s)" "0 < strongs s + weaks s \<Longrightarrow> impl_live (shared s)"
    "procs s = {#} \<Longrightarrow> strongs s = 0 \<Longrightarrow> weaks s = 0 \<Longrightarrow> \<not> birth s \<Longrightarrow> \<not> base_live (shared s) \<and> \<not> impl_live (shared s)"
proof -
  let ?M = "procs s" and ?sh = "shared s"
  let ?u = "INITIAL_STRONG_VALUE \<le> mStrong (impl ?sh)" and ?W = "strongs s + weaks s + tot wt (procs s)"
  have l: "lives ?sh ?u (strongs s + tot st ?M) (tot dl ?M) (tot fl ?M) (0 < ?W \<or> birth s \<or> (FirstStrong, IncStrong Inc_weak) \<in># ?M)"
    using assms unfolding ref_inv_def counts_def Let_def by (elim conjE)
  have u: "?u \<longrightarrow> strongs s = 0" using assms unfolding ref_inv_def counts_def Let_def by (elim conjE)
  show "0 < strongs s \<Longrightarrow> base_live ?sh" using l u by (simp add: lives_def split: if_splits)
  show "0 < strongs s + weaks s \<Longrightarrow> impl_live ?sh" using l by (simp add: lives_def)
  show "?M = {#} \<Longrightarrow> strongs s = 0 \<Longrightarrow> weaks s = 0 \<Longrightarrow> \<not> birth s \<Longrightarrow> \<not> base_live ?sh \<and> \<not> impl_live ?sh"
    using l by (simp add: lives_def split: if_splits)
qed

lemma tot_wt_size: "tot wt M \<le> 2 * size M"
proof (induction M)
  case (add p M)
  have "wt p \<le> 2" by (cases p; cases "fst p") auto
  then show ?case using add by simp
qed simp

lemma inv_counts:
  assumes "ref_inv s"
  shows "0 \<le> mStrong (impl (shared s)) \<and> mStrong (impl (shared s)) < 2 ^ 31 \<and> 0 \<le> mWeak (impl (shared s)) \<and> mWeak (impl (shared s)) < 2 ^ 31"
proof -
  let ?M = "procs s" and ?i = "impl (shared s)"
  have w: "mWeak ?i = int (strongs s + weaks s + tot wt ?M)" using assms unfolding ref_inv_def counts_def Let_def by (elim conjE)
  have b: "int (strongs s + weaks s + 2 * size ?M) < INITIAL_STRONG_VALUE" using assms unfolding ref_inv_def counts_def Let_def by (elim conjE)
  have c: "mStrong ?i = int (strongs s + tot st ?M) + (if INITIAL_STRONG_VALUE \<le> mStrong ?i then INITIAL_STRONG_VALUE else 0)"
    using assms unfolding ref_inv_def counts_def Let_def by (elim conjE)
  show ?thesis using w b c tot_st_size[of ?M] tot_wt_size[of ?M] by (auto simp: INITIAL_STRONG_VALUE_def split: if_splits)
qed

lemma inv_no_fault: "ref_inv s \<Longrightarrow> p \<in># procs s \<Longrightarrow> \<not> is_fault (ref_step agrees (snd p) (shared s))"
proof -
  assume i: "ref_inv s" and p: "p \<in># procs s"
  obtain o1 l M where M: "p = (o1, l)" "procs s = add_mset (o1, l) M" using p by (metis multi_member_split surj_pair)
  then show ?thesis using inv_moves[OF i M(2), of agrees] M(1) by (cases "ref_step agrees l (shared s)") (simp_all add: moves_to_def)
qed

section \<open>Schedules\<close>

text \<open>A schedule names what happens next: an operation begins, the creator gives its pointer up, an operation makes a step.\<close>

datatype ref_act = Begins ref_op | GivesUp | Steps ref_op label

fun ref_exec1 :: "bool \<Rightarrow> bool \<Rightarrow> ref_act \<Rightarrow> ref_sys \<Rightarrow> ref_sys option" where
  "ref_exec1 careful agrees (Begins o1) s =
     (if may_begin careful o1 s
      then Some (s\<lparr>strongs := strongs s - fst (takes o1), weaks := weaks s - snd (takes o1),
        birth := (birth s \<and> o1 \<noteq> FirstStrong), procs := add_mset (o1, entry o1) (procs s)\<rparr>)
      else None)"
| "ref_exec1 careful agrees GivesUp s = (if birth s \<and> procs s = {#} \<and> 0 < weaks s then Some (s\<lparr>birth := False\<rparr>) else None)"
| "ref_exec1 careful agrees (Steps o1 l) s =
     (if (o1, l) \<in># procs s then
        (case ref_step agrees l (shared s) of
           Inl f \<Rightarrow> None
         | Inr (Goto l', sh) \<Rightarrow> Some (s\<lparr>shared := sh, procs := add_mset (o1, l') (procs s - {#(o1, l)#})\<rparr>)
         | Inr (Return r, sh) \<Rightarrow> Some (s\<lparr>shared := sh, strongs := strongs s + fst (gives o1 r),
             weaks := weaks s + snd (gives o1 r), procs := procs s - {#(o1, l)#}\<rparr>))
      else None)"

fun ref_exec :: "bool \<Rightarrow> bool \<Rightarrow> ref_act list \<Rightarrow> ref_sys \<Rightarrow> ref_sys option" where
  "ref_exec careful agrees [] s = Some s"
| "ref_exec careful agrees (a # as) s = Option.bind (ref_exec1 careful agrees a s) (ref_exec careful agrees as)"

lemma ref_exec1_step: "ref_exec1 careful agrees a s = Some t \<Longrightarrow> ref_sys_step careful agrees s t"
proof (induction careful agrees a s rule: ref_exec1.induct)
  case (1 careful agrees o1 s)
  then show ?case using ref_sys_step.begins[of careful o1 s agrees] by (auto split: if_splits)
next
  case (2 careful agrees s)
  then show ?case using ref_sys_step.gives_up[of s careful agrees] by (auto split: if_splits)
next
  case (3 careful agrees o1 l s)
  then have p: "procs s = add_mset (o1, l) (procs s - {#(o1, l)#})" by (auto split: if_splits)
  show ?case using 3 ref_sys_step.goes_on[OF p, of agrees _ _ careful] ref_sys_step.returns[OF p, of agrees _ _ careful]
    by (auto split: if_splits sum.splits prod.splits ref_next.splits)
qed

lemma ref_exec_reach: "ref_exec careful agrees as ref_init = Some t \<Longrightarrow> ref_reach careful agrees t"
proof -
  have "(ref_sys_step careful agrees)\<^sup>*\<^sup>* s t" if "ref_exec careful agrees as s = Some t" for s
    using that
  proof (induction as arbitrary: s)
    case (Cons a as)
    then obtain s1 where "ref_exec1 careful agrees a s = Some s1" "ref_exec careful agrees as s1 = Some t" by (auto split: Option.bind_splits)
    then show ?case using Cons.IH ref_exec1_step by (metis converse_rtranclp_into_rtranclp)
  qed simp
  then show "ref_exec careful agrees as ref_init = Some t \<Longrightarrow> ref_reach careful agrees t" by (simp add: ref_reach_def)
qed

lemmas exec_defs = ref_init_def new_RefBase_def may_begin_def on_impl_def call_base_def cmpxchg_strong_def
  delete_RefBase_def delete_impl_def OBJECT_LIFETIME_MASK_def OBJECT_LIFETIME_STRONG_def OBJECT_LIFETIME_WEAK_def INITIAL_STRONG_VALUE_def

text \<open>
  The creator takes a weak and a strong reference; another thread begins to promote the weak one while the strong one is being dropped.
\<close>

definition promotion_schedule :: "ref_act list" where
  "promotion_schedule = [Begins FirstWeak, Steps FirstWeak IncWeak, Begins FirstStrong,
     Steps FirstStrong (IncStrong Inc_weak), Steps FirstStrong (IncStrong Inc_strong), Steps FirstStrong (IncStrong Inc_add),
     Steps FirstStrong (IncStrong Inc_first), Begins Promote, Begins DropStrong, Steps Promote (AttemptIncStrong Att_weak),
     Steps Promote (AttemptIncStrong Att_read), Steps DropStrong (DecStrong Dec_strong)]"

definition promotion_state :: ref_sys where
  "promotion_state = the (ref_exec True True promotion_schedule ref_init)"

lemma promotion_state_eq: "promotion_state =
  \<lparr>shared = \<lparr>impl = \<lparr>mStrong = 0, mWeak = 3, mLifetime = 0\<rparr>, impl_live = True, base_live = True, called = [onFirstRef]\<rparr>,
   strongs = 0, weaks = 0, birth = False, procs = {#(DropStrong, DecStrong Dec_last), (Promote, AttemptIncStrong (Att_promote 1))#}\<rparr>"
  "ref_exec True True promotion_schedule ref_init = Some promotion_state"
  by (simp_all add: promotion_state_def promotion_schedule_def exec_defs)

section \<open>Properties\<close>

text \<open>
  C25: reference counting of an object of normal lifetime (\<open>OBJECT_LIFETIME_STRONG\<close>) is safe however threads interleave, when the creator
  takes its first references before others may promote a weak one (\<open>ref_reach True\<close>; without this \<open>first_reference_race\<close> shows
  that it is not) and \<open>forceIncStrong\<close> is called by holders of a strong reference. In every reachable state no operation under way faults in its next
  step (nothing is used after it was freed, nothing is freed twice), an object with a strong reference is alive, the counters
  of an object with any reference are there, and when no reference is left both have been freed; the counts stay far
  from the limits of 32 bits.
\<close>

theorem references_safe:
  assumes "ref_reach True agrees s"
  shows "(\<forall>p \<in># procs s. \<not> is_fault (ref_step agrees (snd p) (shared s))) \<and>
    (0 < strongs s \<longrightarrow> base_live (shared s)) \<and> (0 < strongs s + weaks s \<longrightarrow> impl_live (shared s)) \<and>
    (procs s = {#} \<and> strongs s = 0 \<and> weaks s = 0 \<and> \<not> birth s \<longrightarrow> \<not> base_live (shared s) \<and> \<not> impl_live (shared s)) \<and>
    0 \<le> mStrong (impl (shared s)) \<and> mStrong (impl (shared s)) < 2 ^ 31 \<and> 0 \<le> mWeak (impl (shared s)) \<and> mWeak (impl (shared s)) < 2 ^ 31"
proof -
  note i = reach_inv[OF assms]
  show ?thesis using inv_no_fault[OF i] inv_live[OF i] inv_counts[OF i] by blast
qed

theorem references_safe_witness:
  "\<not> is_fault (ref_step True (DecStrong Dec_last) (shared promotion_state)) \<and>
   \<not> is_fault (ref_step True (AttemptIncStrong (Att_promote 1)) (shared promotion_state)) \<and> mWeak (impl (shared promotion_state)) < 2 ^ 31"
  using references_safe[OF ref_exec_reach[OF promotion_state_eq(2)]] by (simp add: promotion_state_eq(1))

text \<open>
  C26: under the same conditions (an object of normal lifetime, whose creator takes the first references alone), a promotion
  that succeeds hands out a strong reference to an object that is alive; one that fails does so because the last
  strong reference is gone.
\<close>

theorem promotion_correct:
  assumes "ref_reach True agrees s" "procs s = add_mset (Promote, l) M" "ref_step agrees l (shared s) = Inr (Return r, sh)"
  shows "if r then base_live sh \<and> impl_live sh \<and> 0 < mStrong (impl sh) else mStrong (impl sh) = 0 \<and> strongs s = 0"
proof -
  have c: "counts (shared s) (strongs s) (weaks s) (birth s) (add_mset (Promote, l) M)"
    using reach_inv[OF assms(1)] assms(2) by (simp add: ref_inv_def)
  from op_moves[OF this, of agrees] assms(3)
  have after: "counts sh (strongs s + (if r then 1 else 0)) (weaks s + 1) (birth s) M" by (simp add: moves_to_def)
  show ?thesis
  proof (cases r)
    case True
    then show ?thesis using after by (auto simp: counts_def lives_def Let_def split: if_splits)
  next
    case False
    let ?d = "\<not> INITIAL_STRONG_VALUE \<le> mStrong (impl (shared s)) \<and> strongs s + tot st (add_mset (Promote, l) M) = 0"
    have "proc_ok (INITIAL_STRONG_VALUE \<le> mStrong (impl (shared s))) ?d (Promote, l)"
      "mStrong (impl (shared s)) = int (strongs s + tot st (add_mset (Promote, l) M)) +
        (if INITIAL_STRONG_VALUE \<le> mStrong (impl (shared s)) then INITIAL_STRONG_VALUE else 0)"
      using c unfolding counts_def Let_def by simp_all
    then show ?thesis using assms(3) False
      by (cases rule: attempt_labels) (auto simp: access_defs split: if_splits)
  qed
qed

text \<open>The promotion has found the count changed, has read it again and gives up.\<close>

definition failed_schedule :: "ref_act list" where
  "failed_schedule = promotion_schedule @ [Steps Promote (AttemptIncStrong (Att_promote 1)), Steps Promote (AttemptIncStrong Att_read),
     Steps Promote (AttemptIncStrong (Att_promote 0)), Steps Promote (AttemptIncStrong (Att_hard 0))]"

definition failed_state :: ref_sys where
  "failed_state = promotion_state\<lparr>procs := {#(Promote, DecWeak Weak_dec False), (DropStrong, DecStrong Dec_last)#}\<rparr>"

lemma failed_state_eq: "ref_exec True True failed_schedule ref_init = Some failed_state"
  by (simp add: failed_schedule_def failed_state_def promotion_state_eq(1) promotion_schedule_def exec_defs)

theorem promotion_correct_witness:
  "\<exists>sh. ref_step True (DecWeak Weak_dec False) (shared failed_state) = Inr (Return False, sh) \<and> mStrong (impl sh) = 0 \<and> strongs failed_state = 0"
proof -
  let ?sh = "(shared failed_state)\<lparr>impl := (impl (shared failed_state))\<lparr>mWeak := 2\<rparr>\<rparr>"
  have r: "ref_step True (DecWeak Weak_dec False) (shared failed_state) = Inr (Return False, ?sh)"
    by (simp add: failed_state_def promotion_state_eq(1) on_impl_def)
  have p: "procs failed_state = add_mset (Promote, DecWeak Weak_dec False) {#(DropStrong, DecStrong Dec_last)#}" by (simp add: failed_state_def)
  show ?thesis using promotion_correct[OF ref_exec_reach[OF failed_state_eq] p r] r by auto
qed

text \<open>
  C27: the discipline is needed. When the first strong reference is taken from the plain pointer while another thread promotes a
  weak one, both take \<open>INITIAL_STRONG_VALUE\<close> off, and the strong count becomes negative although two references are held.
\<close>

theorem first_reference_race:
  "\<exists>s. ref_reach False agrees s \<and> mStrong (impl (shared s)) < 0 \<and> base_live (shared s) \<and> strongs s = 1 \<and>
     procs s = {#(FirstStrong, IncStrong Inc_first)#}"
proof -
  let ?as = "[Begins FirstWeak, Steps FirstWeak IncWeak, Begins FirstStrong,
     Steps FirstStrong (IncStrong Inc_weak), Steps FirstStrong (IncStrong Inc_strong), Begins Promote,
     Steps Promote (AttemptIncStrong Att_weak), Steps Promote (AttemptIncStrong Att_read),
     Steps Promote (AttemptIncStrong (Att_promote (INITIAL_STRONG_VALUE + 1))), Steps Promote (AttemptIncStrong Att_fix_read),
     Steps Promote (AttemptIncStrong (Att_fix (INITIAL_STRONG_VALUE + 2))), Steps FirstStrong (IncStrong Inc_add)]"
  obtain s where s: "ref_exec False agrees ?as ref_init = Some s" "mStrong (impl (shared s)) < 0" "base_live (shared s)" "strongs s = 1"
    "procs s = {#(FirstStrong, IncStrong Inc_first)#}"
    by (simp add: exec_defs)
  then show ?thesis using ref_exec_reach by blast
qed

end
