(* ===== verification/Sap_Queue.thy ===== *)
theory Sap_Queue
  imports Prelude
begin

text \<open>
  The queue of libril/rilSocketQueue.h, \<open>Ril_queue<SapSocketRequest>\<close>: a list linked through \<open>p_next\<close>, in
  the memory that holds the requests and the messages they point to. The mutex of the queue makes each
  operation one step. An access to memory that is not allocated is a fault.
\<close>

section \<open>Data\<close>

text \<open>
  The message of sap-api.pb.h, as far as the code uses it; its payload is an address in memory, or the bytes
  themselves in a message on the wire.
\<close>

record 'p MsgHeader =
  mh_token :: i32
  mh_type :: i32
  mh_id :: i32
  mh_error :: i32
  mh_payload :: 'p

record SapSocketRequest =
  rq_token :: i32
  rq_curr :: addr
  rq_next :: addr
  rq_socketId :: i32

type_synonym req_heap = "addr \<rightharpoonup> SapSocketRequest"
type_synonym msg_heap = "addr \<rightharpoonup> addr MsgHeader"

section \<open>Operations\<close>

text \<open>The queue is its \<open>front\<close>, \<open>0\<close> when it is empty. \<open>dequeue\<close> waits while it is.\<close>

definition queue_empty :: "addr \<Rightarrow> bool" where
  "queue_empty front \<longleftrightarrow> front = 0"

definition sap_dequeue :: "addr \<Rightarrow> req_heap \<Rightarrow> (addr \<times> addr) result" where
  "sap_dequeue front reqs =
     (if queue_empty front then Inl Blocked
      else case reqs front of
          None \<Rightarrow> Inl UseAfterFree
        | Some r \<Rightarrow> Inr (front, if rq_next r \<noteq> 0 then rq_next r else 0))"

definition sap_enqueue :: "addr \<Rightarrow> addr \<Rightarrow> req_heap \<Rightarrow> (addr \<times> req_heap) result" where
  "sap_enqueue request front reqs = (case reqs request of
       None \<Rightarrow> Inl UseAfterFree
     | Some r \<Rightarrow> Inr (request, reqs(request \<mapsto> r\<lparr>rq_next := if front = 0 then 0 else front\<rparr>)))"

text \<open>
  The loop of \<open>checkAndDequeue\<close>: \<open>pp\<close> is the address of the pointer that \<open>ppCur\<close> points to, that of the
  front (\<open>None\<close>) or of the member \<open>p_next\<close> of a request. A loop that needs more than \<open>n\<close> rounds does not
  return.
\<close>

fun set_pointer :: "addr option \<Rightarrow> addr \<Rightarrow> addr \<Rightarrow> req_heap \<Rightarrow> addr \<times> req_heap" where
  "set_pointer None a front reqs = (a, reqs)"
| "set_pointer (Some p) a front reqs = (front, reqs(p := map_option (\<lambda>r. r\<lparr>rq_next := a\<rparr>) (reqs p)))"

fun check_loop ::
  "nat \<Rightarrow> i32 \<Rightarrow> i32 \<Rightarrow> addr option \<Rightarrow> addr \<Rightarrow> addr \<Rightarrow> req_heap \<Rightarrow> msg_heap \<Rightarrow> (bool \<times> addr \<times> req_heap) result" where
  "check_loop 0 mid token pp cur front reqs msgs = Inl Blocked"
| "check_loop (Suc n) mid token pp cur front reqs msgs =
     (if cur = 0 then Inr (False, front, reqs)
      else case reqs cur of
          None \<Rightarrow> Inl UseAfterFree
        | Some r \<Rightarrow>
            if token = rq_token r then
              (case msgs (rq_curr r) of
                 None \<Rightarrow> Inl UseAfterFree
               | Some m \<Rightarrow>
                   if mid = mh_id m then
                     (case set_pointer pp (rq_next r) front reqs of
                        (front', reqs') \<Rightarrow> Inr (True, front', reqs'(cur := None)))
                   else check_loop n mid token (Some cur) (rq_next r) front reqs msgs)
            else check_loop n mid token (Some cur) (rq_next r) front reqs msgs)"

definition checkAndDequeue ::
  "nat \<Rightarrow> i32 \<Rightarrow> i32 \<Rightarrow> addr \<Rightarrow> req_heap \<Rightarrow> msg_heap \<Rightarrow> (bool \<times> addr \<times> req_heap) result" where
  "checkAndDequeue n mid token front reqs msgs = check_loop n mid token None front front reqs msgs"

section \<open>The interface\<close>

text \<open>
  What a client relies on: \<open>holds h q xs\<close> says that the queue \<open>q\<close> in memory \<open>h\<close> holds the requests \<open>xs\<close>, the
  first to be removed at the front. A request is added at the front.
\<close>

locale request_queue =
  fixes holds :: "'h \<Rightarrow> 'q \<Rightarrow> addr list \<Rightarrow> bool"
    and valid :: "'h \<Rightarrow> addr \<Rightarrow> bool"
    and enq :: "addr \<Rightarrow> 'q \<Rightarrow> 'h \<Rightarrow> ('q \<times> 'h) result"
    and deq :: "'q \<Rightarrow> 'h \<Rightarrow> (addr \<times> 'q) result"
  assumes deq_empty: "holds h q [] \<Longrightarrow> deq q h = Inl Blocked"
    and deq_front: "holds h q (x # xs) \<Longrightarrow> \<exists>q'. deq q h = Inr (x, q') \<and> holds h q' xs"
    and enq_front: "holds h q xs \<Longrightarrow> valid h a \<Longrightarrow> a \<notin> set xs \<Longrightarrow>
      \<exists>q' h'. enq a q h = Inr (q', h') \<and> holds h' q' (a # xs) \<and> (\<forall>b. valid h' b = valid h b)"
begin

primrec enq_all :: "addr list \<Rightarrow> 'q \<Rightarrow> 'h \<Rightarrow> ('q \<times> 'h) result" where
  "enq_all [] q h = Inr (q, h)"
| "enq_all (a # as) q h = (case enq a q h of Inl f \<Rightarrow> Inl f | Inr (q', h') \<Rightarrow> enq_all as q' h')"

primrec deq_all :: "nat \<Rightarrow> 'q \<Rightarrow> 'h \<Rightarrow> (addr list) result" where
  "deq_all 0 q h = Inr []"
| "deq_all (Suc n) q h = (case deq q h of
     Inl f \<Rightarrow> Inl f | Inr (x, q') \<Rightarrow> map_sum id (Cons x) (deq_all n q' h))"

lemma enq_all_holds:
  "holds h q xs \<Longrightarrow> \<forall>a \<in> set as. valid h a \<Longrightarrow> distinct as \<Longrightarrow> set as \<inter> set xs = {} \<Longrightarrow>
    \<exists>q' h'. enq_all as q h = Inr (q', h') \<and> holds h' q' (rev as @ xs)"
proof (induction as arbitrary: q h xs)
  case (Cons a as)
  obtain q1 h1 where 1: "enq a q h = Inr (q1, h1)" "holds h1 q1 (a # xs)" "\<forall>b. valid h1 b = valid h b"
    using enq_front[of h q xs a] Cons(2-5) by auto
  then show ?case using Cons(1)[of h1 q1 "a # xs"] Cons(3-5) by auto
qed simp

lemma deq_all_holds: "holds h q xs \<Longrightarrow> n \<le> length xs \<Longrightarrow> deq_all n q h = Inr (take n xs)"
proof (induction n arbitrary: q xs)
  case (Suc n)
  then obtain x ys where xs: "xs = x # ys" by (cases xs) auto
  then show ?case using deq_front[of h q x ys] Suc by auto
qed simp

text \<open>Requests leave in the reverse of the order in which they came.\<close>

lemma last_in_first_out:
  assumes "holds h q []" "\<forall>a \<in> set as. valid h a" "distinct as"
  shows "\<exists>q' h'. enq_all as q h = Inr (q', h') \<and> deq_all (length as) q' h' = Inr (rev as)"
  using enq_all_holds[OF assms(1-3)] deq_all_holds[of _ _ "rev as" "length as"] by fastforce

end

section \<open>The linked list\<close>

primrec chain :: "req_heap \<Rightarrow> addr \<Rightarrow> addr list \<Rightarrow> bool" where
  "chain reqs a [] \<longleftrightarrow> a = 0"
| "chain reqs a (x # xs) \<longleftrightarrow> a = x \<and> x \<noteq> 0 \<and> x \<notin> set xs \<and>
     (case reqs x of None \<Rightarrow> False | Some r \<Rightarrow> chain reqs (rq_next r) xs)"

lemma chain_distinct: "chain reqs a xs \<Longrightarrow> distinct xs"
  by (induction xs arbitrary: a) (auto split: option.splits)

lemma chain_alloc: "chain reqs a xs \<Longrightarrow> x \<in> set xs \<Longrightarrow> x \<noteq> 0 \<and> reqs x \<noteq> None"
  by (induction xs arbitrary: a) (auto split: option.splits)

lemma chain_frame: "(\<And>x. x \<in> set xs \<Longrightarrow> reqs' x = reqs x) \<Longrightarrow> chain reqs' a xs = chain reqs a xs"
  by (induction xs arbitrary: a) (auto split: option.splits)

text \<open>Removing a request from the middle of the list.\<close>

lemma chain_remove:
  "chain reqs a (ys @ p # c # zs) \<Longrightarrow> reqs c = Some rc \<Longrightarrow>
    chain (reqs(p := map_option (\<lambda>r. r\<lparr>rq_next := rq_next rc\<rparr>) (reqs p), c := None)) a (ys @ p # zs)"
proof (induction ys arbitrary: a)
  case Nil
  then obtain rp where rp: "reqs p = Some rp" "rq_next rp = c" "chain reqs (rq_next rc) zs" "a = p" "p \<noteq> 0"
      "p \<noteq> c" "p \<notin> set zs" "c \<notin> set zs"
    by (auto split: option.splits)
  have "chain (reqs(p := map_option (\<lambda>r. r\<lparr>rq_next := rq_next rc\<rparr>) (reqs p), c := None)) (rq_next rc) zs"
    using rp(3,7,8) by (subst chain_frame) auto
  then show ?case using rp by (simp add: fun_upd_def)
next
  case (Cons y ys)
  then show ?case by (auto split: option.splits)
qed

definition matches :: "i32 \<Rightarrow> i32 \<Rightarrow> req_heap \<Rightarrow> msg_heap \<Rightarrow> addr \<Rightarrow> bool" where
  "matches mid token reqs msgs a = (case reqs a of
     None \<Rightarrow> False
   | Some r \<Rightarrow> rq_token r = token \<and> (case msgs (rq_curr r) of None \<Rightarrow> False | Some m \<Rightarrow> mh_id m = mid))"

text \<open>
  The search stops at the first request with the token and the message id, unlinks and frees it; the
  other requests keep everything but perhaps their link. \<open>n\<close> rounds are enough for fewer than \<open>n\<close> requests.
\<close>

definition same_request :: "SapSocketRequest option \<Rightarrow> SapSocketRequest option \<Rightarrow> bool" where
  "same_request = rel_option (\<lambda>p q. rq_token p = rq_token q \<and> rq_curr p = rq_curr q \<and> rq_socketId p = rq_socketId q)"

lemma same_request_refl [simp]: "same_request r r"
  by (simp add: same_request_def option.rel_refl)

lemma check_loop_miss:
  "chain reqs cur xs \<Longrightarrow> \<forall>x \<in> set xs. \<not> matches mid token reqs msgs x \<Longrightarrow>
    \<forall>x \<in> set xs. \<forall>r. reqs x = Some r \<longrightarrow> msgs (rq_curr r) \<noteq> None \<Longrightarrow> length xs < n \<Longrightarrow>
    check_loop n mid token pp cur front reqs msgs = Inr (False, front, reqs)"
proof (induction xs arbitrary: cur pp n)
  case Nil
  then show ?case by (cases n) auto
next
  case (Cons x xs)
  then obtain k where n: "n = Suc k" by (cases n) auto
  obtain r where r: "reqs x = Some r" "chain reqs (rq_next r) xs" using Cons(2) by (auto split: option.splits)
  obtain m where m: "msgs (rq_curr r) = Some m" using Cons(4) r by auto
  have "\<not> (token = rq_token r \<and> mid = mh_id m)" using Cons(3) r m by (auto simp: matches_def)
  then show ?case using Cons(1)[OF r(2), of k "Some x"] Cons(2-5) r m by (auto simp: n)
qed

lemma check_loop_hit:
  "chain reqs cur (ys @ c # zs) \<Longrightarrow> matches mid token reqs msgs c \<Longrightarrow>
    \<forall>y \<in> set ys. \<not> matches mid token reqs msgs y \<Longrightarrow>
    \<forall>x \<in> set ys. \<forall>r. reqs x = Some r \<longrightarrow> msgs (rq_curr r) \<noteq> None \<Longrightarrow> length ys < n \<Longrightarrow>
    check_loop n mid token pp cur front reqs msgs =
      (case set_pointer (if ys = [] then pp else Some (last ys)) (rq_next (the (reqs c))) front reqs of
         (front', reqs') \<Rightarrow> Inr (True, front', reqs'(c := None)))"
proof (induction ys arbitrary: cur pp n)
  case Nil
  then obtain k where n: "n = Suc k" by (cases n) auto
  obtain r where r: "reqs c = Some r" "cur = c" "c \<noteq> 0" using Nil(1) by (auto split: option.splits)
  then obtain m where "msgs (rq_curr r) = Some m" "mid = mh_id m" "token = rq_token r"
    using Nil(2) by (auto simp: matches_def split: option.splits)
  then show ?case using r by (simp add: n fun_upd_def)
next
  case (Cons y ys)
  then obtain k where n: "n = Suc k" by (cases n) auto
  obtain r where r: "reqs y = Some r" "chain reqs (rq_next r) (ys @ c # zs)"
    using Cons(2) by (auto split: option.splits)
  obtain m where m: "msgs (rq_curr r) = Some m" using Cons(5) r by auto
  have "\<not> (token = rq_token r \<and> mid = mh_id m)" using Cons(4) r m by (auto simp: matches_def)
  then have "check_loop n mid token pp cur front reqs msgs =
      check_loop k mid token (Some y) (rq_next r) front reqs msgs"
    using Cons(2) r m by (auto simp: n)
  moreover note Cons(1)[OF r(2) Cons(3), of k "Some y"]
  ultimately show ?case using Cons(4-6) by (simp add: n)
qed

lemma checkAndDequeue_miss:
  assumes "chain reqs front xs" "\<forall>x \<in> set xs. \<not> matches mid token reqs msgs x"
    and "\<forall>x \<in> set xs. \<forall>r. reqs x = Some r \<longrightarrow> msgs (rq_curr r) \<noteq> None" "length xs < n"
  shows "checkAndDequeue n mid token front reqs msgs = Inr (False, front, reqs)"
  unfolding checkAndDequeue_def by (rule check_loop_miss[OF assms])

lemma checkAndDequeue_hit:
  assumes "chain reqs front (ys @ c # zs)" "matches mid token reqs msgs c"
    and "\<forall>y \<in> set ys. \<not> matches mid token reqs msgs y"
    and "\<forall>x \<in> set ys. \<forall>r. reqs x = Some r \<longrightarrow> msgs (rq_curr r) \<noteq> None" "length ys < n"
  shows "\<exists>front' reqs'. checkAndDequeue n mid token front reqs msgs = Inr (True, front', reqs') \<and>
    chain reqs' front' (ys @ zs) \<and> reqs' c = None \<and> (\<forall>x. x \<noteq> c \<longrightarrow> same_request (reqs' x) (reqs x)) \<and>
    (\<forall>x. x \<notin> set (ys @ c # zs) \<longrightarrow> reqs' x = reqs x)"
proof (cases ys rule: rev_cases)
  case Nil
  obtain rc where rc: "reqs c = Some rc" "chain reqs (rq_next rc) zs" "c \<notin> set zs"
    using assms(1) Nil by (auto split: option.splits)
  have "chain (reqs(c := None)) (rq_next rc) zs" using rc by (subst chain_frame) auto
  then show ?thesis unfolding checkAndDequeue_def check_loop_hit[OF assms] using Nil rc by auto
next
  case (snoc ps p)
  obtain rc where rc: "reqs c = Some rc" using chain_alloc[OF assms(1), of c] by auto
  have "chain reqs front (ps @ p # c # zs)" using assms(1) snoc by simp
  note chain = chain_remove[OF this rc]
  show ?thesis unfolding checkAndDequeue_def check_loop_hit[OF assms] using snoc rc chain
    by (auto simp: same_request_def option.rel_map option.rel_refl)
qed

text \<open>The linked list keeps the contract.\<close>

interpretation lq: request_queue chain "\<lambda>reqs a. a \<noteq> 0 \<and> reqs a \<noteq> None" sap_enqueue
  "\<lambda>front reqs. sap_dequeue front reqs"
proof
  show "sap_dequeue q h = Inl Blocked" if "chain h q []" for h q
    using that by (simp add: sap_dequeue_def queue_empty_def)
  show "\<exists>q'. sap_dequeue q h = Inr (x, q') \<and> chain h q' xs" if "chain h q (x # xs)" for h q x xs
    using that by (auto simp: sap_dequeue_def queue_empty_def split: option.splits)
  show "\<exists>q' h'. sap_enqueue a q h = Inr (q', h') \<and> chain h' q' (a # xs) \<and>
      (\<forall>b. (b \<noteq> 0 \<and> h' b \<noteq> None) = (b \<noteq> 0 \<and> h b \<noteq> None))"
    if "chain h q xs" "a \<noteq> 0 \<and> h a \<noteq> None" "a \<notin> set xs" for h q xs a
  proof -
    note t = that
    obtain r where r: "h a = Some r" using t(2) by auto
    have "chain (h(a \<mapsto> r\<lparr>rq_next := q\<rparr>)) q xs" using t by (subst chain_frame) auto
    then show ?thesis using t r by (auto simp: sap_enqueue_def)
  qed
qed

end
