(* ===== verification/Sap_Log.thy ===== *)
theory Sap_Log
  imports C_Text
begin

text \<open>
  The hexadecimal dump of libril/RilSapSocket.cpp, \<open>log_hex\<close>, which composes each line in a buffer of 80
  characters. Every write to the buffer is checked against its size. The result is the dump one expects:
  sixteen bytes to a line, each line with the name and the offset of its first byte.
\<close>

unbundle bit_operations_syntax

section \<open>The code\<close>

definition BYTES_PER_LINE :: nat where "BYTES_PER_LINE = 16"

text \<open>The size of \<open>out\<close>.\<close>

definition dest_len :: nat where "dest_len = 80"

definition NIBBLE_TO_HEX :: "u8 \<Rightarrow> char" where
  "NIBBLE_TO_HEX nibble =
     (let n = nibble AND 0x0f in if nibble \<ge> 10 then char_of (65 + unat n - 10) else char_of (48 + unat n))"

definition HEX_HIGH :: "u8 \<Rightarrow> char" where
  "HEX_HIGH b = NIBBLE_TO_HEX (drop_bit 4 b AND 0x0f)"

definition HEX_LOW :: "u8 \<Rightarrow> char" where
  "HEX_LOW b = NIBBLE_TO_HEX (b AND 0x0f)"

text \<open>\<open>out[dest++] = c\<close>\<close>

fun put_char :: "char \<Rightarrow> string \<times> nat \<Rightarrow> (string \<times> nat) result" where
  "put_char c (out, dest) = (if dest < dest_len then Inr (out[dest := c], dest + 1) else Inl OutOfBounds)"

primrec put_chars :: "string \<Rightarrow> string \<times> nat \<Rightarrow> (string \<times> nat) result" where
  "put_chars [] od = Inr od"
| "put_chars (c # cs) od = (case put_char c od of Inl f \<Rightarrow> Inl f | Inr od' \<Rightarrow> put_chars cs od')"

text \<open>
  \<open>sprintf(out, "%8.8s [%8.8x] ", who, source)\<close> writes from the start of the buffer, with a NUL after
  the text; its value is the length of the text.
\<close>

definition header_text :: "string \<Rightarrow> nat \<Rightarrow> string" where
  "header_text who src = str8 who @ '' ['' @ hex8 src @ ''] ''"

definition sprintf_header :: "string \<Rightarrow> nat \<Rightarrow> string \<Rightarrow> string result" where
  "sprintf_header who src out =
     (let txt = header_text who src @ [CHR 0x00]
      in if length txt \<le> dest_len then Inr (txt @ drop (length txt) out) else Inl OutOfBounds)"

text \<open>
  The inner loop, over the bytes from \<open>source\<close> on: the buffer, the bytes that are left, and the values of
  \<open>source\<close> and \<open>per_line\<close>.
\<close>

fun hex_line :: "u8 list \<Rightarrow> nat \<Rightarrow> nat \<Rightarrow> string \<times> nat \<Rightarrow> (u8 list \<times> nat \<times> nat \<times> string \<times> nat) result" where
  "hex_line [] src per_line (out, dest) = Inr ([], src, per_line, out, dest)"
| "hex_line (b # bs) src per_line (out, dest) =
     (if int dest_len - int dest > 3 \<and> per_line < BYTES_PER_LINE
      then case put_chars [HEX_HIGH b, HEX_LOW b, CHR '' ''] (out, dest) of
          Inl f \<Rightarrow> Inl f
        | Inr od \<Rightarrow> hex_line bs (src + 1) (per_line + 1) od
      else Inr (b # bs, src, per_line, out, dest))"

text \<open>
  The outer loop. The result is the lines that are logged, up to the NUL. \<open>n\<close> bounds the number of
  rounds; a dump that needs more does not return.
\<close>

fun hex_loop :: "nat \<Rightarrow> string \<Rightarrow> u8 list \<Rightarrow> nat \<Rightarrow> nat \<Rightarrow> string \<times> nat \<Rightarrow> string list \<Rightarrow> string list result" where
  "hex_loop 0 who bs src per_line od lines = Inl Blocked"
| "hex_loop (Suc n) who bs src per_line (out, dest) lines =
     (case sprintf_header who src out of
        Inl f \<Rightarrow> Inl f
      | Inr out1 \<Rightarrow>
          (case hex_line bs src per_line (out1, dest + length (header_text who src)) of
             Inl f \<Rightarrow> Inl f
           | Inr (bs', src', per_line', out2, dest2) \<Rightarrow>
               if dest2 < dest_len \<and> (per_line' = BYTES_PER_LINE \<or> bs' = [])
               then (let lines' = lines @ [takeWhile (\<lambda>c. c \<noteq> CHR 0x00) (out2[dest2 := CHR 0x00])]
                     in if bs' \<noteq> [] then hex_loop n who bs' src' 0 (out2[dest2 := CHR 0x00], 0) lines' else Inr lines')
               else if bs' \<noteq> [] \<and> dest2 < dest_len then hex_loop n who bs' src' per_line' (out2, dest2) lines
               else Inr lines))"

text \<open>\<open>junk\<close> is what the stack held where \<open>out\<close> lies.\<close>

definition log_hex :: "string \<Rightarrow> u8 list \<Rightarrow> string \<Rightarrow> string list result" where
  "log_hex who buffer junk = hex_loop (Suc (length buffer)) who buffer 0 0 (junk, 0) []"

section \<open>The dump it makes\<close>

definition hex_byte :: "u8 \<Rightarrow> string" where
  "hex_byte b = [HEX_HIGH b, HEX_LOW b, CHR '' '']"

function hex_dump :: "string \<Rightarrow> u8 list \<Rightarrow> nat \<Rightarrow> string list" where
  "hex_dump who bs src = (header_text who src @ concat (map hex_byte (take 16 bs))) #
     (if length bs \<le> 16 then [] else hex_dump who (drop 16 bs) (src + 16))"
  by pat_completeness auto
termination by (relation "measure (\<lambda>(who, bs, src). length bs)") auto

declare hex_dump.simps [simp del]

lemma length_header [simp]: "length (header_text who src) = 20"
  by (simp add: header_text_def)

lemma length_hex_bytes: "length (concat (map hex_byte bs)) = 3 * length bs"
  by (induction bs) (simp_all add: hex_byte_def)

lemma put_chars_ok:
  "length out = dest_len \<Longrightarrow> dest + length cs \<le> dest_len \<Longrightarrow>
    \<exists>out'. put_chars cs (out, dest) = Inr (out', dest + length cs) \<and> length out' = dest_len \<and>
      take (dest + length cs) out' = take dest out @ cs"
proof (induction cs arbitrary: out dest)
  case (Cons c cs)
  obtain out' where "put_chars cs (out[dest := c], dest + 1) = Inr (out', dest + 1 + length cs)"
      "length out' = dest_len" "take (dest + 1 + length cs) out' = take (dest + 1) (out[dest := c]) @ cs"
    using Cons(1)[of "out[dest := c]" "dest + 1"] Cons(2,3) by auto
  moreover have "take (dest + 1) (out[dest := c]) = take dest out @ [c]"
    using Cons(2,3) by (simp add: take_Suc_conv_app_nth)
  ultimately show ?case using Cons(3) by simp
qed simp

lemma hex_line_ok:
  "length out = dest_len \<Longrightarrow> k \<le> 16 \<Longrightarrow> dest = 20 + 3 * k \<Longrightarrow>
    \<exists>out'. hex_line bs src k (out, dest) = Inr (drop (16 - k) bs, src + min (16 - k) (length bs),
        k + min (16 - k) (length bs), out', dest + 3 * min (16 - k) (length bs)) \<and> length out' = dest_len \<and>
      take (dest + 3 * min (16 - k) (length bs)) out' = take dest out @ concat (map hex_byte (take (16 - k) bs))"
proof (induction bs arbitrary: out dest k src)
  case (Cons b bs)
  show ?case
  proof (cases "k < 16")
    case True
    obtain out1 where p: "put_chars [HEX_HIGH b, HEX_LOW b, CHR '' ''] (out, dest) = Inr (out1, dest + 3)"
        "length out1 = dest_len" "take (dest + 3) out1 = take dest out @ hex_byte b"
      using put_chars_ok[of out dest "[HEX_HIGH b, HEX_LOW b, CHR '' '']"] Cons(2-4) True
      by (auto simp: dest_len_def hex_byte_def eval_nat_numeral simp del: put_chars.simps)
    have k: "16 - k = Suc (16 - Suc k)" using True by simp
    show ?thesis using Cons(1)[of out1 "Suc k" "dest + 3" "src + 1"] p Cons(2-4) True
      by (auto simp: dest_len_def BYTES_PER_LINE_def k add.assoc simp del: put_chars.simps)
  qed (use Cons(2-4) in \<open>auto simp: dest_len_def BYTES_PER_LINE_def\<close>)
qed auto

text \<open>No character of a line is NUL, so that each line is logged in full.\<close>

lemma char_of_nonzero: "0 < n \<Longrightarrow> n < 256 \<Longrightarrow> char_of (n :: nat) \<noteq> CHR 0x00"
proof
  assume "0 < n" "n < 256" "char_of n = CHR 0x00"
  then have "of_char (char_of n) = (0 :: nat)" by simp
  then show False using \<open>0 < n\<close> \<open>n < 256\<close> by (simp add: of_char_of)
qed

lemma nibble_nonzero: "NIBBLE_TO_HEX (n AND 0x0f) \<noteq> CHR 0x00"
proof -
  have "n AND 15 = take_bit 4 n" by (simp add: take_bit_eq_mask mask_eq_exp_minus_1 and.commute)
  then have u: "unat (n AND 15) < 16"
    using take_bit_nat_less_exp[of 4 "unat n"] by (simp only: unsigned_take_bit_eq) simp
  show ?thesis
    using u char_of_nonzero[of "65 + unat (n AND 15) - 10"] char_of_nonzero[of "48 + unat (n AND 15)"]
    by (simp add: NIBBLE_TO_HEX_def Let_def and.assoc)
qed

lemma hex_nonzero: "CHR 0x00 \<notin> set (hex_byte b)"
  using nibble_nonzero[of b] nibble_nonzero[of "drop_bit 4 b"]
  by (auto simp: hex_byte_def HEX_HIGH_def HEX_LOW_def)

lemma digit_nonzero: "d < 16 \<Longrightarrow> digit d \<noteq> CHR 0x00"
  using char_of_nonzero[of "48 + d"] char_of_nonzero[of "87 + d"] by (auto simp: digit_def)

lemma header_nonzero: "CHR 0x00 \<notin> set who \<Longrightarrow> CHR 0x00 \<notin> set (header_text who src)"
  using digit_nonzero by (auto simp: header_text_def str8_def hex8_def dest: in_set_takeD) (metis mod_less_divisor zero_less_numeral)+

text \<open>One round of the outer loop logs one line.\<close>

lemma hex_round:
  assumes "length out = dest_len" "CHR 0x00 \<notin> set who"
  shows "\<exists>out'. length out' = dest_len \<and> hex_loop (Suc n) who bs src 0 (out, 0) lines =
    (let lines' = lines @ [header_text who src @ concat (map hex_byte (take 16 bs))]
     in if length bs \<le> 16 then Inr lines' else hex_loop n who (drop 16 bs) (src + 16) 0 (out', 0) lines')"
proof -
  let ?m = "min 16 (length bs)"
  let ?line = "header_text who src @ concat (map hex_byte (take 16 bs))"
  let ?o1 = "header_text who src @ CHR 0x00 # drop 21 out"
  have h: "sprintf_header who src out = Inr ?o1"
    by (simp add: sprintf_header_def Let_def dest_len_def)
  have "length ?o1 = dest_len" using assms(1) by (simp add: dest_len_def)
  then obtain o2 where o2: "hex_line bs src 0 (?o1, 20) = Inr (drop 16 bs, src + ?m, ?m, o2, 20 + 3 * ?m)"
      "length o2 = dest_len" "take (20 + 3 * ?m) o2 = ?line"
    using hex_line_ok[of ?o1 0 20 bs src] by auto
  have l: "20 + 3 * ?m < dest_len" by (simp add: dest_len_def min_def)
  have z: "CHR 0x00 \<notin> set ?line" using header_nonzero[OF assms(2)] hex_nonzero by auto
  have e: "o2[20 + 3 * ?m := CHR 0x00] = ?line @ CHR 0x00 # drop (Suc (20 + 3 * ?m)) o2"
    using l o2(2,3) by (simp add: upd_conv_take_nth_drop)
  have t: "takeWhile (\<lambda>c. c \<noteq> CHR 0x00) (o2[20 + 3 * ?m := CHR 0x00]) = ?line"
    unfolding e using z by (subst takeWhile_append2) auto
  have f: "?m = BYTES_PER_LINE \<or> drop 16 bs = []" "drop 16 bs = [] \<longleftrightarrow> length bs \<le> 16"
    by (auto simp: BYTES_PER_LINE_def)
  show ?thesis
  proof (intro exI[of _ "o2[20 + 3 * ?m := CHR 0x00]"] conjI)
    show "length (o2[20 + 3 * ?m := CHR 0x00]) = dest_len" using o2(2) by simp
    have "20 + 3 * ?m < dest_len \<and> (?m = BYTES_PER_LINE \<or> drop 16 bs = [])" using l f by blast
    then show "hex_loop (Suc n) who bs src 0 (out, 0) lines = (let lines' = lines @ [?line]
        in if length bs \<le> 16 then Inr lines'
           else hex_loop n who (drop 16 bs) (src + 16) 0 (o2[20 + 3 * ?m := CHR 0x00], 0) lines')"
      using h o2(1) t f(2) by (simp add: Let_def)
  qed
qed

lemma hex_loop_ok:
  "length out = dest_len \<Longrightarrow> CHR 0x00 \<notin> set who \<Longrightarrow> length bs \<le> n \<Longrightarrow>
    hex_loop (Suc n) who bs src 0 (out, 0) lines = Inr (lines @ hex_dump who bs src)"
proof (induction n arbitrary: bs src out lines)
  case 0
  then show ?case using hex_round[of out who 0 bs src lines] by (simp add: Let_def hex_dump.simps)
next
  case (Suc n)
  obtain out' where o: "length out' = dest_len" "hex_loop (Suc (Suc n)) who bs src 0 (out, 0) lines =
    (let lines' = lines @ [header_text who src @ concat (map hex_byte (take 16 bs))]
     in if length bs \<le> 16 then Inr lines' else hex_loop (Suc n) who (drop 16 bs) (src + 16) 0 (out', 0) lines')"
    using hex_round[OF Suc(2,3)] by blast
  then show ?case using Suc(1)[OF o(1) Suc(3), of "drop 16 bs" "src + 16"] Suc(4)
    by (subst hex_dump.simps) (simp add: Let_def del: hex_loop.simps)
qed

text \<open>
  C35 The dump of a message to the log never leaves its buffer of 80 characters, ends, and logs the
  lines it should: sixteen bytes each, with the offset of the first.
\<close>

theorem log_hex_correct:
  assumes "length junk = 80" "CHR 0x00 \<notin> set who"
  shows "log_hex who buffer junk = Inr (hex_dump who buffer 0)"
  using hex_loop_ok[of junk who buffer "length buffer" 0 "[]"] assms by (simp add: log_hex_def dest_len_def)

theorem log_hex_correct_witness:
  "log_hex ''BtSapTest-Payload'' [0x08, 0xAF, 2, 3, 4, 5, 6, 7, 8, 9, 10, 11, 12, 13, 14, 15, 0x20, 0xF2] (replicate 80 CHR ''x'') =
     Inr [''BtSapTes [00000000] 08 AF 02 03 04 05 06 07 08 09 0A 0B 0C 0D 0E 0F '', ''BtSapTes [00000010] 20 F2 '']"
proof -
  have d: "hex_dump ''BtSapTest-Payload'' [0x08, 0xAF, 2, 3, 4, 5, 6, 7, 8, 9, 10, 11, 12, 13, 14, 15, 0x20, 0xF2] 0 =
     [''BtSapTes [00000000] 08 AF 02 03 04 05 06 07 08 09 0A 0B 0C 0D 0E 0F '', ''BtSapTes [00000010] 20 F2 '']"
    by (simp add: hex_dump.simps header_text_def str8_def hex8_def digit_def upt_rec hex_byte_def
      HEX_HIGH_def HEX_LOW_def NIBBLE_TO_HEX_def char_of_def bit_0)
  show ?thesis unfolding d[symmetric] by (rule log_hex_correct) simp_all
qed

end
