(* ===== verification/Sap_Socket.thy ===== *)
theory Sap_Socket
  imports Ril_Unsol Sap_Queue Sap_Log
begin

text \<open>
  The socket of the SIM access profile: libril/RilSocket.cpp and libril/RilSapSocket.cpp, and what
  libril/ril.cpp does for it in \<open>listenCallback\<close> and \<open>RIL_register_socket\<close>. The model follows the memory of the
  requests, messages and payloads, so that an access to freed memory is a fault. The build has one SIM
  and with it at most one such socket, whose state is part of the state below. Encoding and decoding of
  messages (nanopb and the code it generates) are parameters.
\<close>

section \<open>State\<close>

text \<open>
  \<open>pb_encode\<close> is what the encoder writes for a message, \<open>None\<close> when it fails; \<open>pb_get_encoded_size\<close> is the
  length of that. \<open>pb_disconnect_size\<close> and \<open>pb_disconnect\<close> are the size and the encoding of
  \<open>RIL_SIM_SAP_DISCONNECT_REQ\<close> that \<open>sendDisconnect\<close> gets. \<open>malloc_ok n\<close> tells whether the \<open>n\<close>-th allocation
  succeeds, \<open>stack_ok\<close> whether an array of that size fits the stack, \<open>uim_table\<close> which addresses are those of
  the function table of the vendor; \<open>stack_out\<close> and \<open>junk_token\<close> are what uninitialised memory holds.
\<close>

record sap_env =
  pb_encode :: "u8 list option MsgHeader \<Rightarrow> u8 list option"
  pb_decode :: "u8 list \<Rightarrow> u8 list option MsgHeader option"
  pb_disconnect_size :: "nat option"
  pb_disconnect :: "u8 list option"
  malloc_ok :: "nat \<Rightarrow> bool"
  stack_ok :: "nat \<Rightarrow> bool"
  uim_table :: "addr \<Rightarrow> bool"
  stack_out :: string
  junk_token :: i32
  MsgType_REQUEST :: i32
  MsgType_RESPONSE :: i32
  MsgType_UNSOL_RESPONSE :: i32
  MsgId_RIL_SIM_SAP_DISCONNECT :: i32
  Error_RIL_E_SUCCESS :: i32
  RIL_SOCKET_1 :: i32

text \<open>
  \<open>socket_list\<close> is the list at \<open>head\<close>, by name and id. The members of the socket follow; of its two events
  only whether the event loop has them is kept. \<open>request_loops\<close> counts the threads that run
  \<open>processRequestsLoop\<close>, \<open>sp_out\<close> is what the socket has taken, \<open>uim_calls\<close> the calls of the vendor's \<open>onRequest\<close>
  with the message id, the data and the token.
\<close>

record sap =
  reqs :: req_heap
  msgs :: msg_heap
  pays :: "addr \<rightharpoonup> u8 list"
  allocs :: nat
  socket_list :: "(string \<times> i32) list"
  uimFuncs :: addr
  listenFd :: int
  commandFd :: int
  dispatchQueue :: addr
  pendingResponseQueue :: addr
  listen_event :: bool
  callback_event :: bool
  request_loops :: nat
  sp_out :: "u8 list"
  sp_writes :: "write_result list"
  sp_log :: "string list"
  uim_calls :: "(i32 \<times> u8 list \<times> addr) list"

section \<open>Memory\<close>

definition sap_malloc :: "sap_env \<Rightarrow> sap \<Rightarrow> addr \<times> sap" where
  "sap_malloc E s = (if malloc_ok E (allocs s) then Suc (allocs s) else 0, s\<lparr>allocs := Suc (allocs s)\<rparr>)"

definition free_req :: "addr \<Rightarrow> sap \<Rightarrow> sap result" where
  "free_req a s = (if reqs s a = None then Inl UseAfterFree else Inr (s\<lparr>reqs := (reqs s)(a := None)\<rparr>))"

definition free_msg :: "addr \<Rightarrow> sap \<Rightarrow> sap result" where
  "free_msg a s = (if msgs s a = None then Inl UseAfterFree else Inr (s\<lparr>msgs := (msgs s)(a := None)\<rparr>))"

definition free_pay :: "addr \<Rightarrow> sap \<Rightarrow> sap result" where
  "free_pay a s =
     (if a = 0 then Inr s else if pays s a = None then Inl UseAfterFree
      else Inr (s\<lparr>pays := (pays s)(a := None)\<rparr>))"

section \<open>The list of sockets\<close>

definition getSocketById :: "i32 \<Rightarrow> sap \<Rightarrow> bool" where
  "getSocketById i s \<longleftrightarrow> i \<in> snd ` set (socket_list s)"

definition SocketExists :: "string \<Rightarrow> sap \<Rightarrow> bool" where
  "SocketExists name s \<longleftrightarrow> name \<in> fst ` set (socket_list s)"

text \<open>
  \<open>RilSocket::socketInit\<close>: \<open>fd\<close> is what \<open>android_get_control_socket\<close> returns, \<open>rc\<close> what \<open>listen\<close> does.
\<close>

definition socketInit :: "int \<Rightarrow> int \<Rightarrow> sap \<Rightarrow> int \<times> sap" where
  "socketInit fd rc s =
     (let s = s\<lparr>listenFd := fd\<rparr> in if rc < 0 then (rc, s) else (rc, s\<lparr>listen_event := True\<rparr>))"

text \<open>
  The constructor leaves \<open>uimFuncs\<close> alone when it is given \<open>NULL\<close>; \<open>junk\<close> is what the new object then holds
  there.
\<close>

definition new_RilSapSocket :: "addr \<Rightarrow> addr \<Rightarrow> sap \<Rightarrow> sap" where
  "new_RilSapSocket inputUimFuncs junk s =
     s\<lparr>uimFuncs := (if inputUimFuncs \<noteq> 0 then inputUimFuncs else junk), listenFd := - 1, commandFd := - 1,
       dispatchQueue := 0, pendingResponseQueue := 0\<rparr>"

definition addSocketToList ::
  "sap_env \<Rightarrow> int \<Rightarrow> int \<Rightarrow> addr \<Rightarrow> string \<Rightarrow> i32 \<Rightarrow> addr \<Rightarrow> sap \<Rightarrow> sap" where
  "addSocketToList E fd rc junk socketName socketid uim s =
     (if \<not> SocketExists socketName s then
        (let (listItem, s) = sap_malloc E (new_RilSapSocket uim junk s)
         in if listItem = 0 then s
            else snd (socketInit fd rc (s\<lparr>socket_list := socket_list s @ [(socketName, socketid)]\<rparr>)))
      else s)"

definition initSapSocket :: "sap_env \<Rightarrow> int \<Rightarrow> int \<Rightarrow> addr \<Rightarrow> string \<Rightarrow> addr \<Rightarrow> sap \<Rightarrow> sap" where
  "initSapSocket E fd rc junk socketName uim s =
     (if socketName = ''sap_uim_socket1'' then
        (if \<not> SocketExists socketName s then addSocketToList E fd rc junk socketName (RIL_SOCKET_1 E) uim s else s)
      else s)"

text \<open>\<open>init\<close> is the function the vendor library passes, with the table it returns; \<open>sap\<close> the socket type.\<close>

definition RIL_register_socket :: "sap_env \<Rightarrow> int \<Rightarrow> int \<Rightarrow> addr \<Rightarrow> addr option \<Rightarrow> bool \<Rightarrow> sap \<Rightarrow> sap" where
  "RIL_register_socket E fd rc junk init is_sap s = (case init of
       None \<Rightarrow> s
     | Some uim \<Rightarrow> if is_sap then initSapSocket E fd rc junk ''sap_uim_socket1'' uim s else s)"

section \<open>Requests\<close>

definition call_onRequest :: "sap_env \<Rightarrow> addr \<Rightarrow> addr \<Rightarrow> sap \<Rightarrow> sap result" where
  "call_onRequest E hdr token s =
     (if uimFuncs s = 0 then Inl NullDeref
      else if \<not> uim_table E (uimFuncs s) then Inl BadCast
      else case msgs s hdr of
          None \<Rightarrow> Inl UseAfterFree
        | Some m \<Rightarrow>
            if mh_payload m = 0 then Inl NullDeref
            else case pays s (mh_payload m) of
                None \<Rightarrow> Inl UseAfterFree
              | Some dat \<Rightarrow> Inr (s\<lparr>uim_calls := uim_calls s @ [(mh_id m, dat, token)]\<rparr>))"

definition dispatchRequest :: "sap_env \<Rightarrow> addr \<Rightarrow> sap \<Rightarrow> sap result" where
  "dispatchRequest E req s =
     (case sap_malloc E s of (currRequest, s) \<Rightarrow>
        if currRequest = 0 then free_msg req s
        else case msgs s req of
            None \<Rightarrow> Inl UseAfterFree
          | Some m \<Rightarrow>
              (let r = \<lparr>rq_token = mh_token m, rq_curr = req, rq_next = 0, rq_socketId = RIL_SOCKET_1 E\<rparr>
               in case sap_enqueue currRequest (pendingResponseQueue s) ((reqs s)(currRequest \<mapsto> r)) of
                    Inl f \<Rightarrow> Inl f
                  | Inr (front, rs) \<Rightarrow>
                      (let s = s\<lparr>reqs := rs, pendingResponseQueue := front\<rparr>
                       in if uimFuncs s \<noteq> 0 then call_onRequest E req currRequest s else Inr s)))"

text \<open>One round of \<open>processRequestsLoop\<close>.\<close>

definition processRequest :: "sap_env \<Rightarrow> sap \<Rightarrow> sap result" where
  "processRequest E s = (case sap_dequeue (dispatchQueue s) (reqs s) of
       Inl f \<Rightarrow> Inl f
     | Inr (req, front) \<Rightarrow>
         (case reqs s req of
            None \<Rightarrow> Inl UseAfterFree
          | Some r \<Rightarrow>
              (case dispatchRequest E (rq_curr r) (s\<lparr>dispatchQueue := front\<rparr>) of
                 Inl f \<Rightarrow> Inl f
               | Inr s \<Rightarrow> free_req req s)))"

definition pushRecord :: "sap_env \<Rightarrow> u8 list \<Rightarrow> sap \<Rightarrow> sap result" where
  "pushRecord E p_record s =
     (case sap_malloc E s of (reqHeader, s) \<Rightarrow>
        if reqHeader = 0 then Inr s
        else case log_hex ''BtSapTest-Payload'' p_record (stack_out E) of
            Inl f \<Rightarrow> Inl f
          | Inr lines \<Rightarrow>
              (let s = s\<lparr>sp_log := sp_log s @ lines\<rparr>
               in case pb_decode E p_record of
                    None \<Rightarrow> Inr s
                  | Some m \<Rightarrow>
                      (let p = (if mh_payload m = None then 0 else Suc (allocs s));
                           h = \<lparr>mh_token = mh_token m, mh_type = mh_type m, mh_id = mh_id m, mh_error = mh_error m,
                             mh_payload = p\<rparr>;
                           s = s\<lparr>msgs := (msgs s)(reqHeader \<mapsto> h), allocs := Suc (allocs s),
                             pays := (if mh_payload m = None then pays s else (pays s)(p := mh_payload m))\<rparr>
                       in case sap_malloc E s of (recv, s) \<Rightarrow>
                          if recv = 0 then free_msg reqHeader s
                          else
                            (let r = \<lparr>rq_token = mh_token m, rq_curr = reqHeader, rq_next = 0, rq_socketId = RIL_SOCKET_1 E\<rparr>
                             in case sap_enqueue recv (dispatchQueue s) ((reqs s)(recv \<mapsto> r)) of
                                  Inl f \<Rightarrow> Inl f
                                | Inr (front, rs) \<Rightarrow> Inr (s\<lparr>reqs := rs, dispatchQueue := front\<rparr>)))))"

section \<open>Responses\<close>

definition INT32_MAX :: nat where "INT32_MAX = 2 ^ 31 - 1"

definition sap_sendResponse :: "sap_env \<Rightarrow> u8 list option MsgHeader \<Rightarrow> sap \<Rightarrow> sap result" where
  "sap_sendResponse E hdr s = (case pb_encode E hdr of
       None \<Rightarrow> Inr s
     | Some enc \<Rightarrow>
         if length enc \<le> INT32_MAX \<and> commandFd s \<noteq> - 1 then
           (if \<not> stack_ok E (length enc + 4) then Inl StackOverflow
            else case log_hex ''onRequestComplete'' enc (stack_out E) of
                Inl f \<Rightarrow> Inl f
              | Inr lines \<Rightarrow>
                  (case write_loop (sp_writes s) (htonl (length enc) @ enc) of
                     None \<Rightarrow> Inl Blocked
                   | Some (r, out, ws) \<Rightarrow>
                       Inr (s\<lparr>sp_log := sp_log s @ lines, sp_out := sp_out s @ out, sp_writes := ws\<rparr>)))
         else Inr s)"

definition sap_onRequestComplete :: "sap_env \<Rightarrow> addr \<Rightarrow> i32 \<Rightarrow> u8 list option \<Rightarrow> sap \<Rightarrow> sap result" where
  "sap_onRequestComplete E t e response s = (case reqs s t of
       None \<Rightarrow> Inl UseAfterFree
     | Some request \<Rightarrow>
         (case msgs s (rq_curr request) of
            None \<Rightarrow> Inl UseAfterFree
          | Some hdr \<Rightarrow>
              (case (if response \<noteq> None \<and> response \<noteq> Some [] then
                       (case sap_malloc E s of (payload, s) \<Rightarrow>
                          if payload = 0 then Inr s
                          else sap_sendResponse E \<lparr>mh_token = mh_token hdr, mh_type = MsgType_RESPONSE E,
                            mh_id = mh_id hdr, mh_error = e, mh_payload = response\<rparr> s)
                     else Inr s) of
                 Inl f \<Rightarrow> Inl f
               | Inr s \<Rightarrow>
                   (case checkAndDequeue (Suc (allocs s)) (mh_id hdr) (mh_token hdr) (pendingResponseQueue s) (reqs s) (msgs s) of
                      Inl f \<Rightarrow> Inl f
                    | Inr (found, front, rs) \<Rightarrow>
                        free_msg (rq_curr request) (s\<lparr>reqs := rs, pendingResponseQueue := front\<rparr>)))))"

text \<open>The entry point for the vendor library.\<close>

definition sOnRequestComplete :: "sap_env \<Rightarrow> addr \<Rightarrow> i32 \<Rightarrow> u8 list option \<Rightarrow> sap \<Rightarrow> sap result" where
  "sOnRequestComplete E t e response s = (case reqs s t of
       None \<Rightarrow> Inl UseAfterFree
     | Some request \<Rightarrow>
         if getSocketById (rq_socketId request) s then sap_onRequestComplete E t e response s
         else (case msgs s (rq_curr request) of
             None \<Rightarrow> Inl UseAfterFree
           | Some m \<Rightarrow>
               (case free_pay (mh_payload m) s of
                  Inl f \<Rightarrow> Inl f
                | Inr s \<Rightarrow>
                    (case free_msg (rq_curr request) s of
                       Inl f \<Rightarrow> Inl f
                     | Inr s \<Rightarrow> free_req t s))))"

definition sap_onUnsolicitedResponse :: "sap_env \<Rightarrow> i32 \<Rightarrow> u8 list option \<Rightarrow> sap \<Rightarrow> sap result" where
  "sap_onUnsolicitedResponse E unsolResponse dat s =
     (if dat \<noteq> None \<and> dat \<noteq> Some [] then
        (case sap_malloc E s of (payload, s) \<Rightarrow>
           if payload = 0 then Inr s
           else sap_sendResponse E \<lparr>mh_token = junk_token E, mh_type = MsgType_UNSOL_RESPONSE E,
             mh_id = unsolResponse, mh_error = Error_RIL_E_SUCCESS E, mh_payload = dat\<rparr> s)
      else Inr s)"

definition sOnUnsolicitedResponse :: "sap_env \<Rightarrow> i32 \<Rightarrow> u8 list option \<Rightarrow> sap \<Rightarrow> sap result" where
  "sOnUnsolicitedResponse E unsolResponse dat s =
     (if getSocketById (RIL_SOCKET_1 E) s then sap_onUnsolicitedResponse E unsolResponse dat s else Inl NullDeref)"

section \<open>Connections\<close>

definition dispatchDisconnect :: "sap_env \<Rightarrow> addr \<Rightarrow> sap \<Rightarrow> sap result" where
  "dispatchDisconnect E req s =
     (case sap_malloc E s of (currRequest, s) \<Rightarrow>
        if currRequest = 0 then
          (case msgs s req of
             None \<Rightarrow> Inl UseAfterFree
           | Some m \<Rightarrow> (case free_pay (mh_payload m) s of Inl f \<Rightarrow> Inl f | Inr s \<Rightarrow> free_msg req s))
        else call_onRequest E req currRequest
          (s\<lparr>reqs := (reqs s)(currRequest \<mapsto>
             \<lparr>rq_token = - 1, rq_curr = req, rq_next = 0, rq_socketId = 99\<rparr>)\<rparr>))"

text \<open>
  \<open>written_size\<close> is the number whose bytes in memory, least significant first, are those of \<open>htonl\<close>; the
  code uses it as the length of the payload.
\<close>

definition written_size :: "nat \<Rightarrow> nat" where
  "written_size n = (case htonl n of [a, b, c, d] \<Rightarrow> unat a + 2 ^ 8 * unat b + 2 ^ 16 * unat c + 2 ^ 24 * unat d)"

definition sendDisconnect :: "sap_env \<Rightarrow> sap \<Rightarrow> sap result" where
  "sendDisconnect E s = (case pb_disconnect_size E of
       None \<Rightarrow> Inr s
     | Some encoded_size \<Rightarrow>
         if encoded_size \<le> INT32_MAX then
           (if \<not> stack_ok E (encoded_size + 4) then Inl StackOverflow
            else case pb_disconnect E of
                None \<Rightarrow> Inr s
              | Some enc \<Rightarrow>
                  (let buffer = htonl encoded_size @ enc
                   in case sap_malloc E s of (payload, s) \<Rightarrow>
                        if payload = 0 then Inr s
                        else if written_size encoded_size > encoded_size + 4 then Inl OutOfBounds
                        else
                          (let s = s\<lparr>pays := (pays s)(payload \<mapsto> take (written_size encoded_size) buffer)\<rparr>
                           in case sap_malloc E s of (hdr, s) \<Rightarrow>
                                if hdr = 0 then free_pay payload s
                                else dispatchDisconnect E hdr (s\<lparr>msgs := (msgs s)(hdr \<mapsto>
                                  \<lparr>mh_token = junk_token E, mh_type = MsgType_REQUEST E,
                                   mh_id = MsgId_RIL_SIM_SAP_DISCONNECT E, mh_error = Error_RIL_E_SUCCESS E,
                                   mh_payload = payload\<rparr>)\<rparr>))))
         else Inr s)"

definition sap_onCommandsSocketClosed :: "sap_env \<Rightarrow> sap \<Rightarrow> sap result" where
  "sap_onCommandsSocketClosed E s = sendDisconnect E s"

text \<open>\<open>created\<close> tells whether \<open>pthread_create\<close> starts the thread; the code goes on if not.\<close>

definition sap_onNewCommandConnect :: "bool \<Rightarrow> sap \<Rightarrow> sap" where
  "sap_onNewCommandConnect created s = (if created then s\<lparr>request_loops := Suc (request_loops s)\<rparr> else s)"

text \<open>
  \<open>socketRequestsHandler\<close>, with the results of \<open>record_stream_get_next\<close> in order. At the end of the stream
  or after an error the connection is closed and the socket listens again.
\<close>

definition close_connection :: "sap_env \<Rightarrow> sap \<Rightarrow> sap result" where
  "close_connection E s =
     sap_onCommandsSocketClosed E (s\<lparr>commandFd := - 1, callback_event := False, listen_event := True\<rparr>)"

fun socketRequestsHandler :: "sap_env \<Rightarrow> record_result list \<Rightarrow> sap \<Rightarrow> sap result" where
  "socketRequestsHandler E [] s = Inl Blocked"
| "socketRequestsHandler E (Record r # rs) s =
     (case pushRecord E r s of Inl f \<Rightarrow> Inl f | Inr s \<Rightarrow> socketRequestsHandler E rs s)"
| "socketRequestsHandler E (REAGAIN # rs) s = Inr s"
| "socketRequestsHandler E (EndOfStream # rs) s = close_connection E s"
| "socketRequestsHandler E (RError # rs) s = close_connection E s"

definition BLUETOOTH_PROCESS :: string where "BLUETOOTH_PROCESS = ''bluetooth''"

text \<open>
  \<open>listenCallback\<close> for this socket: \<open>accepted\<close> is what \<open>accept\<close> returns, \<open>pw_name\<close> the name of the user at the
  other end, when that can be found out. The event loop has removed the listen event, which is not
  persistent, before the call.
\<close>

definition sap_listenCallback :: "sap_env \<Rightarrow> int \<Rightarrow> string option \<Rightarrow> bool \<Rightarrow> sap \<Rightarrow> sap result" where
  "sap_listenCallback E accepted pw_name created s =
     (if accepted < 0 then Inr (s\<lparr>listen_event := True\<rparr>)
      else if pw_name \<noteq> Some BLUETOOTH_PROCESS
      then map_sum id (\<lambda>s. s\<lparr>listen_event := True\<rparr>) (sap_onCommandsSocketClosed E s)
      else Inr (sap_onNewCommandConnect created (s\<lparr>commandFd := accepted, callback_event := True\<rparr>)))"

end
