(* ===== verification/Sap_Invariant.thy ===== *)
theory Sap_Invariant
  imports Sap_Socket
begin

text \<open>
  The socket of the SIM access profile in use: the steps of the client, the request loop and the vendor
  library in any order, and the invariant of the memory they share. It says which requests the two
  queues hold, that each has its own message and payload, and that the tokens the vendor library has not
  yet completed are allocated.
\<close>

section \<open>The system\<close>

text \<open>What the code relies on of its surroundings, beside what the client and the vendor do.\<close>

definition sap_env_ok :: "sap_env \<Rightarrow> bool" where
  "sap_env_ok E \<longleftrightarrow> (\<forall>b m. pb_decode E b = Some m \<longrightarrow> mh_payload m \<noteq> None) \<and>
     pb_disconnect_size E = Some 0 \<and> pb_disconnect E = Some [] \<and> length (stack_out E) = 80 \<and> RIL_SOCKET_1 E \<noteq> 99"

datatype sap_op =
    PushRecord "u8 list"
  | ProcessRequest
  | Complete addr i32 "u8 list option"
  | Unsolicited i32 "u8 list option"
  | Close
  | Listen int "string option" bool

fun sap_run :: "sap_env \<Rightarrow> sap_op \<Rightarrow> sap \<Rightarrow> sap result" where
  "sap_run E (PushRecord b) s = pushRecord E b s"
| "sap_run E ProcessRequest s = processRequest E s"
| "sap_run E (Complete t e response) s = sOnRequestComplete E t e response s"
| "sap_run E (Unsolicited n dat) s = sOnUnsolicitedResponse E n dat s"
| "sap_run E Close s = close_connection E s"
| "sap_run E (Listen accepted pw_name created) s = sap_listenCallback E accepted pw_name created s"

text \<open>The message id and token of the requests of the client that are in memory.\<close>

definition req_key :: "sap \<Rightarrow> addr \<Rightarrow> (i32 \<times> i32) option" where
  "req_key s a = (case reqs s a of
     None \<Rightarrow> None
   | Some r \<Rightarrow> (case msgs s (rq_curr r) of None \<Rightarrow> None | Some m \<Rightarrow> Some (mh_id m, rq_token r)))"

definition client_req :: "sap_env \<Rightarrow> sap \<Rightarrow> addr \<Rightarrow> bool" where
  "client_req E s a = (case reqs s a of None \<Rightarrow> False | Some r \<Rightarrow> rq_socketId r = RIL_SOCKET_1 E)"

definition open_keys :: "sap_env \<Rightarrow> sap \<Rightarrow> (i32 \<times> i32) set" where
  "open_keys E s = {k. \<exists>a. client_req E s a \<and> req_key s a = Some k}"

definition issued :: "sap \<Rightarrow> addr set" where
  "issued s = (\<lambda>(i, dat, t). t) ` set (uim_calls s)"

text \<open>
  The client does not use a token again for the same message while a request with it is open, and the
  vendor library completes each token it was given once; \<open>D\<close> are the tokens it has completed.
\<close>

fun sap_may :: "sap_env \<Rightarrow> addr set \<Rightarrow> sap_op \<Rightarrow> sap \<Rightarrow> bool" where
  "sap_may E D (PushRecord b) s \<longleftrightarrow>
     (case pb_decode E b of None \<Rightarrow> True | Some m \<Rightarrow> (mh_id m, mh_token m) \<notin> open_keys E s)"
| "sap_may E D (Complete t e response) s \<longleftrightarrow> t \<in> issued s - D"
| "sap_may E D _ s \<longleftrightarrow> True"

fun completes :: "sap_op \<Rightarrow> addr set" where
  "completes (Complete t e response) = {t}"
| "completes _ = {}"

inductive sap_step :: "sap_env \<Rightarrow> sap \<times> addr set \<Rightarrow> sap \<times> addr set \<Rightarrow> bool" for E where
  "sap_may E D opn s \<Longrightarrow> sap_run E opn s = Inr s' \<Longrightarrow> sap_step E (s, D) (s', D \<union> completes opn)"

text \<open>The state before the vendor library registers: nothing is allocated and no socket is known.\<close>

definition sap_init :: "write_result list \<Rightarrow> sap" where
  "sap_init ws = \<lparr>reqs = Map.empty, msgs = Map.empty, pays = Map.empty, allocs = 0, socket_list = [],
     uimFuncs = 0, listenFd = - 1, commandFd = - 1, dispatchQueue = 0, pendingResponseQueue = 0,
     listen_event = False, callback_event = False, request_loops = 0, sp_out = [], sp_writes = ws,
     sp_log = [], uim_calls = []\<rparr>"

text \<open>Reachable states, from the registration of a vendor library with the function table at \<open>uim\<close>.\<close>

definition sap_reach :: "sap_env \<Rightarrow> addr \<Rightarrow> sap \<times> addr set \<Rightarrow> bool" where
  "sap_reach E uim sD \<longleftrightarrow> (\<exists>ws fd rc junk. let s0 = RIL_register_socket E fd rc junk (Some uim) True (sap_init ws)
     in socket_list s0 \<noteq> [] \<and> (sap_step E)\<^sup>*\<^sup>* (s0, {}) sD)"

section \<open>The invariant\<close>

definition cur :: "sap \<Rightarrow> addr \<Rightarrow> addr" where
  "cur s a = rq_curr (the (reqs s a))"

definition pay :: "sap \<Rightarrow> addr \<Rightarrow> addr" where
  "pay s a = mh_payload (the (msgs s (cur s a)))"

text \<open>A request with its message and payload, all of it allocated.\<close>

definition whole :: "sap \<Rightarrow> addr \<Rightarrow> bool" where
  "whole s a \<longleftrightarrow> reqs s a \<noteq> None \<and> msgs s (cur s a) \<noteq> None \<and> pay s a \<noteq> 0 \<and> pays s (pay s a) \<noteq> None \<and>
     a \<le> allocs s \<and> cur s a \<le> allocs s \<and> pay s a \<le> allocs s"

definition own_message :: "sap_env \<Rightarrow> sap \<Rightarrow> addr \<Rightarrow> bool" where
  "own_message E s a \<longleftrightarrow> client_req E s a \<and> rq_token (the (reqs s a)) = mh_token (the (msgs s (cur s a)))"

text \<open>\<open>dq\<close> and \<open>pq\<close> are the requests in the two queues and \<open>dc\<close> the disconnect requests in no queue.\<close>

definition sap_inv :: "sap_env \<Rightarrow> sap \<Rightarrow> addr set \<Rightarrow> addr list \<Rightarrow> addr list \<Rightarrow> addr list \<Rightarrow> bool" where
  "sap_inv E s D dq pq dc \<longleftrightarrow>
     chain (reqs s) (dispatchQueue s) dq \<and> chain (reqs s) (pendingResponseQueue s) pq \<and>
     distinct (dq @ pq @ dc) \<and> (\<forall>a \<in> set (dq @ pq @ dc). whole s a) \<and>
     inj_on (cur s) (set (dq @ pq @ dc)) \<and> inj_on (pay s) (set (dq @ pq @ dc)) \<and>
     (\<forall>a \<in> set (dq @ pq). own_message E s a) \<and> inj_on (req_key s) (set (dq @ pq)) \<and>
     (\<forall>a \<in> set dc. rq_socketId (the (reqs s a)) = 99) \<and>
     issued s - D \<subseteq> set (pq @ dc) \<and>
     uimFuncs s \<noteq> 0 \<and> uim_table E (uimFuncs s) \<and> snd ` set (socket_list s) = {RIL_SOCKET_1 E}"

text \<open>What a step that leaves a request alone keeps of it.\<close>

definition keeps :: "sap \<Rightarrow> sap \<Rightarrow> addr \<Rightarrow> bool" where
  "keeps s s' a \<longleftrightarrow> same_request (reqs s' a) (reqs s a) \<and> msgs s' (cur s a) = msgs s (cur s a) \<and>
     pays s' (pay s a) = pays s (pay s a)"

lemma keeps_view:
  assumes "keeps s s' a" "whole s a" "allocs s \<le> allocs s'"
  shows "whole s' a" "cur s' a = cur s a" "pay s' a = pay s a" "req_key s' a = req_key s a"
    "client_req E s' a = client_req E s a" "own_message E s' a = own_message E s a"
    "rq_socketId (the (reqs s' a)) = rq_socketId (the (reqs s a))"
proof -
  obtain r r' where r: "reqs s a = Some r" "reqs s' a = Some r'" "rq_token r' = rq_token r"
      "rq_curr r' = rq_curr r" "rq_socketId r' = rq_socketId r"
    using assms(1,2) by (auto simp: keeps_def whole_def same_request_def rel_option_iff split: option.splits)
  show c: "cur s' a = cur s a" using r by (simp add: cur_def)
  show p: "pay s' a = pay s a" using assms(1) by (simp add: pay_def c keeps_def)
  show "whole s' a" using assms r c p by (auto simp: whole_def keeps_def)
  have c': "cur s a = rq_curr r" using r by (simp add: cur_def)
  have m: "msgs s' (rq_curr r) = msgs s (rq_curr r)" using assms(1) by (simp add: keeps_def c')
  show "req_key s' a = req_key s a" "client_req E s' a = client_req E s a"
    "rq_socketId (the (reqs s' a)) = rq_socketId (the (reqs s a))"
    using r m by (simp_all add: req_key_def client_req_def split: option.split)
  then show "own_message E s' a = own_message E s a" using r m c c' by (simp add: own_message_def)
qed

text \<open>
  A step keeps some of the requests where they are and adds at most one, \<open>N\<close>, whose message and payload
  no other has.
\<close>

lemma inj_on_add:
  assumes "N \<subseteq> {n}" "inj_on g (A - N)" "\<And>a. a \<in> A - N \<Longrightarrow> f a = g a" "\<forall>x \<in> N \<inter> A. f x \<notin> g ` (A - N)"
  shows "inj_on f A"
proof -
  have "inj_on f (A - N)" using assms(2,3) by (subst inj_on_cong) auto
  moreover have "f ` (A - N) = g ` (A - N)" by (rule image_cong[OF refl assms(3)])
  ultimately show ?thesis using assms(1,4) unfolding inj_on_def by (metis Diff_iff IntI image_eqI singletonD subsetD)
qed

lemma inv_update:
  fixes s s' :: sap and N :: "addr set"
  assumes inv: "sap_inv E s D dq pq dc"
    and chains: "chain (reqs s') (dispatchQueue s') dq'" "chain (reqs s') (pendingResponseQueue s') pq'"
      "distinct (dq' @ pq' @ dc')"
    and N: "N \<subseteq> {n}" "set dq' - N \<subseteq> set dq" "set pq' - N \<subseteq> set pq" "set dc' - N \<subseteq> set dc"
    and old: "\<forall>a \<in> set (dq' @ pq' @ dc') - N. keeps s s' a" "allocs s \<le> allocs s'"
    and new: "\<forall>a \<in> N. whole s' a" "\<forall>a \<in> N. cur s' a \<notin> cur s ` (set (dq' @ pq' @ dc') - N)"
      "\<forall>a \<in> N. pay s' a \<notin> pay s ` (set (dq' @ pq' @ dc') - N)"
    and newq: "\<forall>a \<in> N \<inter> set (dq' @ pq'). own_message E s' a \<and> req_key s' a \<notin> req_key s ` (set (dq' @ pq') - N)"
    and newc: "\<forall>a \<in> N \<inter> set dc'. rq_socketId (the (reqs s' a)) = 99"
    and rest: "issued s' - D' \<subseteq> set (pq' @ dc')" "uimFuncs s' = uimFuncs s" "socket_list s' = socket_list s"
  shows "sap_inv E s' D' dq' pq' dc'"
proof -
  let ?A = "set (dq @ pq @ dc)" and ?A' = "set (dq' @ pq' @ dc')" and ?Q' = "set (dq' @ pq')"
  have w: "\<forall>a \<in> ?A. whole s a" and cu: "inj_on (cur s) ?A" and pa: "inj_on (pay s) ?A"
    and ow: "\<forall>a \<in> set (dq @ pq). own_message E s a" and ke: "inj_on (req_key s) (set (dq @ pq))"
    and so: "\<forall>a \<in> set dc. rq_socketId (the (reqs s a)) = 99"
    and ui: "uimFuncs s \<noteq> 0 \<and> uim_table E (uimFuncs s) \<and> snd ` set (socket_list s) = {RIL_SOCKET_1 E}"
    using inv unfolding sap_inv_def by blast+
  have sub: "?A' - N \<subseteq> ?A" "?Q' - N \<subseteq> set (dq @ pq)" "?Q' \<subseteq> ?A'" using N by auto
  note v = keeps_view[OF bspec[OF old(1)] bspec[OF w] old(2)]
  have same: "cur s' a = cur s a" "pay s' a = pay s a" "req_key s' a = req_key s a" "whole s' a"
    if "a \<in> ?A' - N" for a using v(1-4)[OF that] sub(1) that by auto
  have "inj_on (cur s') ?A'"
    by (rule inj_on_add[OF N(1) inj_on_subset[OF cu sub(1)] same(1)]) (use new(2) in simp_all)
  moreover have "inj_on (pay s') ?A'"
    by (rule inj_on_add[OF N(1) inj_on_subset[OF pa sub(1)] same(2)]) (use new(3) in simp_all)
  moreover have "inj_on (req_key s') ?Q'"
    by (rule inj_on_add[OF N(1) inj_on_subset[OF ke sub(2)]]) (use same(3) sub(3) newq in blast)+
  moreover have "\<forall>a \<in> ?A'. whole s' a" using same(4) new(1) by blast
  moreover have "own_message E s' a" if "a \<in> ?Q'" for a
  proof (cases "a \<in> N")
    case False
    then have "a \<in> ?A' - N" "a \<in> ?A" "a \<in> set (dq @ pq)" using that sub by blast+
    then show ?thesis using v(6) ow by blast
  qed (use newq that in blast)
  moreover have "rq_socketId (the (reqs s' a)) = 99" if "a \<in> set dc'" for a
  proof (cases "a \<in> N")
    case False
    then have "a \<in> ?A' - N" "a \<in> ?A" "a \<in> set dc" using that N(4) by auto
    then show ?thesis using v(7) so by metis
  qed (use newc that in blast)
  ultimately show ?thesis unfolding sap_inv_def using chains rest ui by simp
qed

end
