(* ===== verification/Sap_Steps.thy ===== *)
theory Sap_Steps
  imports Sap_Invariant
begin

text \<open>
  Every operation of the SIM access profile socket keeps the invariant and has no fault of its own:
  it may wait for the socket or the queue, and the stack may be too small for a response.
\<close>

definition sap_safe :: "('a \<Rightarrow> bool) \<Rightarrow> 'a result \<Rightarrow> bool" where
  "sap_safe P r = (case r of Inl f \<Rightarrow> f = Blocked \<or> f = StackOverflow | Inr s \<Rightarrow> P s)"

definition sap_good :: "sap_env \<Rightarrow> addr set \<Rightarrow> sap \<Rightarrow> bool" where
  "sap_good E D s \<longleftrightarrow> (\<exists>dq pq dc. sap_inv E s D dq pq dc)"

lemma sap_safe_Inr [simp]: "sap_safe P (Inr s) = P s"
  by (simp add: sap_safe_def)

lemma sap_safe_mono: "sap_safe P r \<Longrightarrow> (\<And>s. P s \<Longrightarrow> Q s) \<Longrightarrow> sap_safe Q r"
  by (auto simp: sap_safe_def split: sum.splits)

section \<open>Steps that leave the requests alone\<close>

definition same_mem :: "sap \<Rightarrow> sap \<Rightarrow> bool" where
  "same_mem s s' \<longleftrightarrow> reqs s' = reqs s \<and> msgs s' = msgs s \<and> pays s' = pays s \<and> allocs s \<le> allocs s' \<and>
     dispatchQueue s' = dispatchQueue s \<and> pendingResponseQueue s' = pendingResponseQueue s \<and>
     uim_calls s' = uim_calls s \<and> uimFuncs s' = uimFuncs s \<and> socket_list s' = socket_list s"

lemma same_mem_refl [simp]: "same_mem s s"
  by (simp add: same_mem_def)

lemma same_mem_trans: "same_mem s1 s2 \<Longrightarrow> same_mem s2 s3 \<Longrightarrow> same_mem s1 s3"
  by (simp add: same_mem_def)

lemma same_mem_inv:
  assumes "same_mem s s'" "sap_inv E s D dq pq dc"
  shows "sap_inv E s' D dq pq dc"
  by (rule inv_update[OF assms(2), where N = "{}"])
    (use assms in \<open>simp_all add: same_mem_def sap_inv_def keeps_def issued_def\<close>)

lemma same_mem_good: "same_mem s s' \<Longrightarrow> sap_good E D s \<Longrightarrow> sap_good E D s'"
  unfolding sap_good_def using same_mem_inv by blast

lemma malloc_same: "sap_malloc E s = (a, s') \<Longrightarrow> same_mem s s' \<and> allocs s' = Suc (allocs s) \<and> (a = 0 \<or> a = Suc (allocs s))"
  by (auto simp: sap_malloc_def same_mem_def split: if_splits)

lemma log_hex_ok:
  "sap_env_ok E \<Longrightarrow> CHR 0x00 \<notin> set who \<Longrightarrow> log_hex who b (stack_out E) = Inr (hex_dump who b 0)"
  by (simp add: log_hex_def hex_loop_ok sap_env_ok_def dest_len_def del: hex_loop.simps)

lemma sendResponse_same: "sap_env_ok E \<Longrightarrow> sap_safe (same_mem s) (sap_sendResponse E hdr s)"
  by (auto simp: sap_sendResponse_def log_hex_ok sap_safe_def same_mem_def split: option.splits sum.splits)

lemma unsolicited_same:
  assumes "sap_env_ok E" "getSocketById (RIL_SOCKET_1 E) s"
  shows "sap_safe (same_mem s) (sOnUnsolicitedResponse E n dat s)"
proof (cases "sap_malloc E s")
  case (Pair payload s1)
  note m = malloc_same[OF Pair]
  show ?thesis
    using assms m sap_safe_mono[OF sendResponse_same[OF assms(1), of s1] same_mem_trans[of s s1]]
    by (auto simp: sOnUnsolicitedResponse_def sap_onUnsolicitedResponse_def Pair)
qed

section \<open>Requests come in\<close>

lemma sap_enqueue_ok:
  assumes "chain h front xs" "n \<noteq> 0" "n \<notin> set xs"
  shows "sap_enqueue n front (h(n \<mapsto> r)) = Inr (n, h(n \<mapsto> r\<lparr>rq_next := front\<rparr>))"
    "chain (h(n \<mapsto> r\<lparr>rq_next := front\<rparr>)) n (n # xs)"
proof -
  show "sap_enqueue n front (h(n \<mapsto> r)) = Inr (n, h(n \<mapsto> r\<lparr>rq_next := front\<rparr>))"
    by (simp add: sap_enqueue_def)
  have "chain (h(n \<mapsto> r\<lparr>rq_next := front\<rparr>)) front xs" using assms by (subst chain_frame) auto
  then show "chain (h(n \<mapsto> r\<lparr>rq_next := front\<rparr>)) n (n # xs)" using assms(2,3) by simp
qed

text \<open>Fresh addresses are above all that are in use.\<close>

lemma inv_fresh:
  assumes "sap_inv E s D dq pq dc" "allocs s < n"
  shows "n \<notin> set (dq @ pq @ dc)" "n \<notin> cur s ` set (dq @ pq @ dc)" "n \<notin> pay s ` set (dq @ pq @ dc)"
  using assms unfolding sap_inv_def whole_def by fastforce+

lemma inv_keys:
  assumes "sap_inv E s D dq pq dc" "k \<notin> open_keys E s"
  shows "Some k \<notin> req_key s ` set (dq @ pq)"
proof
  assume "Some k \<in> req_key s ` set (dq @ pq)"
  then obtain a where "a \<in> set (dq @ pq)" "req_key s a = Some k" by (metis imageE)
  moreover have "\<forall>a \<in> set (dq @ pq). client_req E s a" using assms(1) by (auto simp: sap_inv_def own_message_def)
  ultimately show False using assms(2) by (auto simp: open_keys_def)
qed

text \<open>Changes of memory above what is in use keep every request.\<close>

lemma keeps_above:
  assumes "whole s a" "\<And>b. b \<le> allocs s \<Longrightarrow> reqs s' b = reqs s b" "\<And>b. b \<le> allocs s \<Longrightarrow> msgs s' b = msgs s b"
    "\<And>b. b \<le> allocs s \<Longrightarrow> pays s' b = pays s b"
  shows "keeps s s' a"
  using assms by (simp add: keeps_def whole_def)

lemma push_inv:
  fixes s :: sap and b :: "u8 list"
  defines "h \<equiv> Suc (allocs s)"
  defines "p \<equiv> Suc h"
  defines "n \<equiv> Suc p"
  assumes inv: "sap_inv E s D dq pq dc" and fresh: "(mh_id m, mh_token m) \<notin> open_keys E s"
    and s': "reqs s' = (reqs s)(n \<mapsto> \<lparr>rq_token = mh_token m, rq_curr = h, rq_next = dispatchQueue s, rq_socketId = RIL_SOCKET_1 E\<rparr>)"
      "msgs s' = (msgs s)(h \<mapsto> \<lparr>mh_token = mh_token m, mh_type = mh_type m, mh_id = mh_id m, mh_error = mh_error m, mh_payload = p\<rparr>)"
      "pays s' = (pays s)(p \<mapsto> dat)" "allocs s' = n" "dispatchQueue s' = n" "pendingResponseQueue s' = pendingResponseQueue s"
      "uim_calls s' = uim_calls s" "uimFuncs s' = uimFuncs s" "socket_list s' = socket_list s"
  shows "sap_inv E s' D (n # dq) pq dc"
proof -
  have hpn: "allocs s < h" "allocs s < p" "allocs s < n" by (simp_all add: h_def p_def n_def)
  note f = inv_fresh[OF inv hpn(3)] and fh = inv_fresh[OF inv hpn(1)] and fp = inv_fresh[OF inv hpn(2)]
  have w: "\<forall>a \<in> set (dq @ pq @ dc). whole s a" and c: "chain (reqs s) (dispatchQueue s) dq"
      "chain (reqs s) (pendingResponseQueue s) pq" "distinct (dq @ pq @ dc)" and i: "issued s - D \<subseteq> set (pq @ dc)"
    using inv unfolding sap_inv_def by blast+
  have N: "cur s' n = h" "pay s' n = p" "req_key s' n = Some (mh_id m, mh_token m)" "own_message E s' n" "whole s' n"
    by (simp_all add: cur_def pay_def req_key_def own_message_def client_req_def whole_def s' h_def p_def n_def)
  have k: "keeps s s' a" if "a \<in> set (dq @ pq @ dc)" for a
    using that w hpn by (intro keeps_above) (auto simp: s')
  show ?thesis
  proof (rule inv_update[OF inv, where N = "{n}" and n = n])
    show "chain (reqs s') (dispatchQueue s') (n # dq)"
      using sap_enqueue_ok(2)[OF c(1), of n "\<lparr>rq_token = mh_token m, rq_curr = h, rq_next = 0, rq_socketId = RIL_SOCKET_1 E\<rparr>"]
        f(1) by (simp add: s' n_def)
    show "chain (reqs s') (pendingResponseQueue s') pq" using c(2) f(1) by (subst chain_frame) (auto simp: s')
    show "distinct ((n # dq) @ pq @ dc)" using c(3) f(1) by auto
    show "allocs s \<le> allocs s'" using hpn(3) by (simp add: s')
    show "\<forall>a \<in> set ((n # dq) @ pq @ dc) - {n}. keeps s s' a" using k by auto
    show "\<forall>a \<in> {n}. cur s' a \<notin> cur s ` (set ((n # dq) @ pq @ dc) - {n})" using fh(2) by (auto simp: N)
    show "\<forall>a \<in> {n}. pay s' a \<notin> pay s ` (set ((n # dq) @ pq @ dc) - {n})" using fp(3) by (auto simp: N)
    show "\<forall>a \<in> {n} \<inter> set ((n # dq) @ pq). own_message E s' a \<and> req_key s' a \<notin> req_key s ` (set ((n # dq) @ pq) - {n})"
      using inv_keys[OF inv fresh] N by auto
    show "issued s' - D \<subseteq> set (pq @ dc)" using i by (simp add: issued_def s')
  qed (use f(1) N s' in auto)
qed

lemma pushRecord_safe:
  assumes env: "sap_env_ok E" and good: "sap_good E D s" and may: "sap_may E D (PushRecord b) s"
  shows "sap_safe (sap_good E D) (pushRecord E b s)"
proof -
  obtain dq pq dc where inv: "sap_inv E s D dq pq dc" using good by (auto simp: sap_good_def)
  obtain hdr s1 where m1: "sap_malloc E s = (hdr, s1)" by fastforce
  let ?s2 = "s1\<lparr>sp_log := sp_log s1 @ hex_dump ''BtSapTest-Payload'' b 0\<rparr>"
  have same: "same_mem s ?s2" "same_mem s s1" using malloc_same[OF m1] by (simp_all add: same_mem_def)
  show ?thesis
  proof (cases "hdr = 0 \<or> pb_decode E b = None")
    case True
    then show ?thesis using same same_mem_good good by (auto simp: pushRecord_def m1 log_hex_ok[OF env])
  next
    case False
    then obtain m where m': "pb_decode E b = Some m" by blast
    have "mh_payload m \<noteq> None" using env m' unfolding sap_env_ok_def by blast
    then obtain dat where m: "pb_decode E b = Some m" "mh_payload m = Some dat" "hdr = Suc (allocs s)"
      using m' False malloc_same[OF m1] by auto
    let ?h = "Suc (allocs s)" and ?p = "Suc (Suc (allocs s))"
    let ?s3 = "?s2\<lparr>msgs := (msgs s)(?h \<mapsto> \<lparr>mh_token = mh_token m, mh_type = mh_type m, mh_id = mh_id m,
      mh_error = mh_error m, mh_payload = ?p\<rparr>), allocs := ?p, pays := (pays s)(?p \<mapsto> dat)\<rparr>"
    obtain recv s4 where m2: "sap_malloc E ?s3 = (recv, s4)" by fastforce
    note m4 = malloc_same[OF m2]
    have push: "pushRecord E b s = (if recv = 0 then free_msg ?h s4 else
        case sap_enqueue recv (dispatchQueue s4) ((reqs s4)(recv \<mapsto>
          \<lparr>rq_token = mh_token m, rq_curr = ?h, rq_next = 0, rq_socketId = RIL_SOCKET_1 E\<rparr>)) of
          Inl f \<Rightarrow> Inl f | Inr (front, rs) \<Rightarrow> Inr (s4\<lparr>reqs := rs, dispatchQueue := front\<rparr>))"
      using m same malloc_same[OF m1] m2 by (simp add: pushRecord_def m1 log_hex_ok[OF env] Let_def same_mem_def)
    show ?thesis
    proof (cases "recv = 0")
      case True
      have "sap_inv E (s4\<lparr>msgs := (msgs s4)(?h := None)\<rparr>) D dq pq dc"
      proof (rule inv_update[OF inv, where N = "{}"])
        show "\<forall>a \<in> set (dq @ pq @ dc) - {}. keeps s (s4\<lparr>msgs := (msgs s4)(?h := None)\<rparr>) a"
          using inv m4 same by (intro ballI keeps_above) (auto simp: sap_inv_def same_mem_def)
      qed (use inv m4 same in \<open>simp_all add: sap_inv_def same_mem_def issued_def\<close>)
      then show ?thesis using True m4 by (auto simp: push free_msg_def same_mem_def sap_good_def)
    next
      case False
      have c: "chain (reqs s4) (dispatchQueue s4) dq" "recv \<notin> set dq" "recv = Suc ?p"
        using False inv m4 same inv_fresh(1)[OF inv, of "Suc ?p"] by (auto simp: sap_inv_def same_mem_def)
      note e = sap_enqueue_ok(1)[OF c(1) False c(2)]
      have "sap_inv E (s4\<lparr>reqs := (reqs s4)(recv \<mapsto> \<lparr>rq_token = mh_token m, rq_curr = ?h, rq_next = dispatchQueue s4,
          rq_socketId = RIL_SOCKET_1 E\<rparr>), dispatchQueue := recv\<rparr>) D (Suc ?p # dq) pq dc"
        using m4 same c(3) may m by (intro push_inv[OF inv, of m _ dat]) (simp_all add: same_mem_def)
      then show ?thesis using False e by (auto simp: push sap_good_def)
    qed
  qed
qed

section \<open>Requests are dispatched\<close>

text \<open>Freeing a message, payload or request keeps the requests that have others.\<close>

lemma keeps_others:
  assumes "same_request (reqs s' a) (reqs s a)" "cur s a \<noteq> c" "pay s a \<noteq> p"
    "\<And>b. b \<noteq> c \<Longrightarrow> msgs s' b = msgs s b" "\<And>b. b \<noteq> p \<Longrightarrow> pays s' b = pays s b"
  shows "keeps s s' a"
  using assms by (simp add: keeps_def)

lemma inv_parts:
  assumes "sap_inv E s D dq pq dc"
  shows "chain (reqs s) (dispatchQueue s) dq" "chain (reqs s) (pendingResponseQueue s) pq" "distinct (dq @ pq @ dc)"
    "a \<in> set (dq @ pq @ dc) \<Longrightarrow> whole s a" "inj_on (cur s) (set (dq @ pq @ dc))" "inj_on (pay s) (set (dq @ pq @ dc))"
    "a \<in> set (dq @ pq) \<Longrightarrow> own_message E s a" "inj_on (req_key s) (set (dq @ pq))"
    "a \<in> set dc \<Longrightarrow> rq_socketId (the (reqs s a)) = 99" "issued s - D \<subseteq> set (pq @ dc)"
    "uimFuncs s \<noteq> 0" "uim_table E (uimFuncs s)" "snd ` set (socket_list s) = {RIL_SOCKET_1 E}"
  using assms unfolding sap_inv_def by blast+

lemma inv_others:
  assumes "sap_inv E s D dq pq dc" "x \<in> set (dq @ pq @ dc)" "a \<in> set (dq @ pq @ dc)" "a \<noteq> x"
  shows "cur s a \<noteq> cur s x" "pay s a \<noteq> pay s x"
  using assms inv_parts(5,6)[OF assms(1)] by (auto dest: inj_onD)

lemma drop_inv:
  assumes inv: "sap_inv E s D (x # xs) pq dc"
    and s': "reqs s' = (reqs s)(x := None)" "msgs s' = (msgs s)(cur s x := None)" "pays s' = pays s" "allocs s \<le> allocs s'"
      "dispatchQueue s' = rq_next (the (reqs s x))" "pendingResponseQueue s' = pendingResponseQueue s"
      "uim_calls s' = uim_calls s" "uimFuncs s' = uimFuncs s" "socket_list s' = socket_list s"
  shows "sap_inv E s' D xs pq dc"
proof -
  note p = inv_parts[OF inv]
  have c: "chain (reqs s) (rq_next (the (reqs s x))) xs" using p(1) by (auto split: option.splits)
  have d: "x \<notin> set xs" "x \<notin> set pq" "x \<notin> set dc" using p(3) by auto
  show ?thesis
  proof (rule inv_update[OF inv, where N = "{}"])
    show "chain (reqs s') (dispatchQueue s') xs" using c d(1) by (subst chain_frame) (auto simp: s')
    show "chain (reqs s') (pendingResponseQueue s') pq" using p(2) d(2) by (subst chain_frame) (auto simp: s')
    show "\<forall>a \<in> set (xs @ pq @ dc) - {}. keeps s s' a"
    proof
      fix a assume "a \<in> set (xs @ pq @ dc) - {}"
      then have a: "a \<in> set ((x # xs) @ pq @ dc)" "a \<noteq> x" using d by auto
      then show "keeps s s' a" using inv_others(1)[OF inv _ a] by (simp add: keeps_def s')
    qed
  qed (use p s' in \<open>auto simp: issued_def\<close>)
qed

lemma move_inv:
  fixes s :: sap
  defines "n \<equiv> Suc (allocs s)"
  assumes inv: "sap_inv E s D (x # xs) pq dc"
    and s': "reqs s' = (reqs s)(n \<mapsto> \<lparr>rq_token = mh_token (the (msgs s (cur s x))), rq_curr = cur s x,
        rq_next = pendingResponseQueue s, rq_socketId = RIL_SOCKET_1 E\<rparr>, x := None)"
      "msgs s' = msgs s" "pays s' = pays s" "allocs s' = n" "dispatchQueue s' = rq_next (the (reqs s x))"
      "pendingResponseQueue s' = n" "issued s' = insert n (issued s)" "uimFuncs s' = uimFuncs s"
      "socket_list s' = socket_list s"
  shows "sap_inv E s' D xs (n # pq) dc"
proof -
  note p = inv_parts[OF inv]
  have w: "whole s x" and o: "own_message E s x" using p(4,7) by simp_all
  have d: "x \<notin> set xs" "x \<notin> set pq" "x \<notin> set dc" using p(3) by auto
  have n: "allocs s < n" by (simp add: n_def)
  note f = inv_fresh(1)[OF inv n]
  have N: "cur s' n = cur s x" "pay s' n = pay s x" "req_key s' n = req_key s x" "own_message E s' n" "whole s' n"
    using w o f by (auto simp: cur_def pay_def req_key_def own_message_def client_req_def whole_def s' n_def
      split: option.splits)
  have k: "keeps s s' a" "cur s a \<noteq> cur s x" "pay s a \<noteq> pay s x" if "a \<in> set xs \<union> set pq \<union> set dc" for a
    using that f d inv_others[OF inv, of x a] by (auto simp: keeps_def s')
  have q: "req_key s a \<noteq> req_key s x" if "a \<in> set xs \<union> set pq" for a
    using that d inj_onD[OF p(8), of a x] by auto
  show ?thesis
  proof (rule inv_update[OF inv, where N = "{n}" and n = n])
    have "chain (reqs s) (rq_next (the (reqs s x))) xs" using p(1) by (auto split: option.splits)
    then show "chain (reqs s') (dispatchQueue s') xs" using f d(1) by (subst chain_frame) (auto simp: s')
    have "chain (reqs s') (pendingResponseQueue s) pq" using p(2) f d(2) by (subst chain_frame) (auto simp: s')
    then show "chain (reqs s') (pendingResponseQueue s') (n # pq)" using f by (simp add: s' n_def)
    show "distinct (xs @ (n # pq) @ dc)" using p(3) f by auto
    show "\<forall>a \<in> set (xs @ (n # pq) @ dc) - {n}. keeps s s' a" using k(1) by auto
    show "\<forall>a \<in> {n}. cur s' a \<notin> cur s ` (set (xs @ (n # pq) @ dc) - {n})" using k(2) by (force simp: N)
    show "\<forall>a \<in> {n}. pay s' a \<notin> pay s ` (set (xs @ (n # pq) @ dc) - {n})" using k(3) by (force simp: N)
    show "\<forall>a \<in> {n} \<inter> set (xs @ n # pq). own_message E s' a \<and> req_key s' a \<notin> req_key s ` (set (xs @ n # pq) - {n})"
      using q N by force
    show "issued s' - D \<subseteq> set ((n # pq) @ dc)" using p(10) by (auto simp: s')
  qed (use f N s' n in auto)
qed

lemma processRequest_safe:
  assumes good: "sap_good E D s"
  shows "sap_safe (sap_good E D) (processRequest E s)"
proof -
  obtain dq pq dc where inv: "sap_inv E s D dq pq dc" using good by (auto simp: sap_good_def)
  show ?thesis
  proof (cases dq)
    case Nil
    then show ?thesis using lq.deq_empty inv_parts(1)[OF inv] by (simp add: processRequest_def sap_safe_def)
  next
    case (Cons x xs)
    note inv = inv[unfolded Cons] and p = inv_parts[OF inv[unfolded Cons]]
    have w: "whole s x" using p(4) by simp
    then obtain r m dat where r: "reqs s x = Some r" "msgs s (cur s x) = Some m" "pays s (mh_payload m) = Some dat"
        "mh_payload m \<noteq> 0" "cur s x = rq_curr r"
      by (auto simp: whole_def pay_def cur_def)
    have dq: "sap_dequeue (dispatchQueue s) (reqs s) = Inr (x, rq_next r)"
      using p(1) r(1) by (auto simp: sap_dequeue_def queue_empty_def)
    let ?n = "Suc (allocs s)"
    have n: "?n \<noteq> x" "?n \<notin> set pq" using inv_fresh(1)[OF inv, of ?n] by auto
    show ?thesis
    proof (cases "malloc_ok E (allocs s)")
      case False
      have "sap_inv E (s\<lparr>dispatchQueue := rq_next r, allocs := ?n, msgs := (msgs s)(rq_curr r := None), reqs := (reqs s)(x := None)\<rparr>) D xs pq dc"
        by (rule drop_inv[OF inv]) (simp_all add: r)
      then show ?thesis using False r
        by (auto simp: processRequest_def dq dispatchRequest_def sap_malloc_def free_msg_def free_req_def sap_good_def)
    next
      case True
      have c: "msgs s (rq_curr r) = Some m" using r(2,5) by simp
      let ?q = "\<lparr>rq_token = mh_token m, rq_curr = rq_curr r, rq_next = pendingResponseQueue s, rq_socketId = RIL_SOCKET_1 E\<rparr>"
      let ?s = "s\<lparr>dispatchQueue := rq_next r, allocs := ?n, reqs := (reqs s)(?n \<mapsto> ?q, x := None),
        pendingResponseQueue := ?n, uim_calls := uim_calls s @ [(mh_id m, dat, ?n)]\<rparr>"
      have "sap_inv E ?s D xs (?n # pq) dc"
        by (rule move_inv[OF inv]) (simp_all add: c r(1,5) issued_def)
      moreover have "processRequest E s = Inr ?s"
        using True r p(11,12) n sap_enqueue_ok(1)[OF p(2), of ?n]
        by (simp add: processRequest_def dq dispatchRequest_def sap_malloc_def call_onRequest_def free_req_def Let_def)
      ultimately show ?thesis by (auto simp: sap_good_def)
    qed
  qed
qed

section \<open>Requests are completed\<close>

lemma complete_client_inv:
  assumes inv: "sap_inv E s D dq (ys @ t # zs) dc"
    and s': "chain (reqs s') (pendingResponseQueue s') (ys @ zs)" "reqs s' t = None"
      "\<forall>a. a \<noteq> t \<longrightarrow> same_request (reqs s' a) (reqs s a)" "\<forall>a. a \<notin> set (ys @ t # zs) \<longrightarrow> reqs s' a = reqs s a"
      "msgs s' = (msgs s)(cur s t := None)" "pays s' = pays s" "allocs s \<le> allocs s'"
      "dispatchQueue s' = dispatchQueue s" "uim_calls s' = uim_calls s" "uimFuncs s' = uimFuncs s"
      "socket_list s' = socket_list s"
  shows "sap_inv E s' (insert t D) dq (ys @ zs) dc"
proof -
  note p = inv_parts[OF inv]
  have d: "t \<notin> set dq" "t \<notin> set (ys @ zs)" "t \<notin> set dc" "set dq \<inter> set (ys @ t # zs) = {}" using p(3) by auto
  show ?thesis
  proof (rule inv_update[OF inv, where N = "{}"])
    show "chain (reqs s') (dispatchQueue s') dq" using p(1) d(4) s'(4) by (subst chain_frame) (auto simp: s'(8))
    show "\<forall>a \<in> set (dq @ (ys @ zs) @ dc) - {}. keeps s s' a"
    proof
      fix a assume "a \<in> set (dq @ (ys @ zs) @ dc) - {}"
      then have a: "a \<in> set (dq @ (ys @ t # zs) @ dc)" "a \<noteq> t" using d by auto
      then show "keeps s s' a" using inv_others(1)[OF inv _ a] s'(3) by (simp add: keeps_def s'(5,6))
    qed
    show "issued s' - insert t D \<subseteq> set ((ys @ zs) @ dc)" using p(10) by (auto simp: issued_def s'(9))
  qed (use p s' in auto)
qed

text \<open>The search for a request finds it and not another, within the bound on its rounds.\<close>

lemma key_matches:
  "msgs s (cur s a) \<noteq> None \<Longrightarrow> matches mid token (reqs s) (msgs s) a \<longleftrightarrow> req_key s a = Some (mid, token)"
  by (auto simp: matches_def req_key_def cur_def split: option.splits)

lemma queue_length: "sap_inv E s D dq pq dc \<Longrightarrow> length pq \<le> allocs s"
proof -
  assume inv: "sap_inv E s D dq pq dc"
  have "set pq \<subseteq> {1..allocs s}"
  proof
    fix a assume "a \<in> set pq"
    then have "a \<noteq> 0" "a \<le> allocs s"
      using chain_alloc[OF inv_parts(2)[OF inv], of a] inv_parts(4)[OF inv, of a] by (auto simp: whole_def)
    then show "a \<in> {1..allocs s}" by simp
  qed
  then have "Finite_Set.card (set pq) \<le> allocs s" using card_mono[of "{1..allocs s}"] by fastforce
  then show ?thesis using inv_parts(3)[OF inv] by (simp add: distinct_card)
qed

lemma complete_found:
  assumes inv: "sap_inv E s D dq (ys @ t # zs) dc"
    and hdr: "msgs s (cur s t) = Some hdr"
  shows "\<exists>front rs. checkAndDequeue (Suc (allocs s)) (mh_id hdr) (mh_token hdr) (pendingResponseQueue s) (reqs s) (msgs s)
      = Inr (True, front, rs) \<and>
    sap_inv E (s\<lparr>reqs := rs, pendingResponseQueue := front, msgs := (msgs s)(cur s t := None)\<rparr>) (insert t D) dq (ys @ zs) dc"
proof -
  note p = inv_parts[OF inv]
  have k: "req_key s t = Some (mh_id hdr, mh_token hdr)"
    using p(7)[of t] hdr by (auto simp: own_message_def client_req_def req_key_def cur_def split: option.splits)
  have m: "msgs s (cur s a) \<noteq> None" if "a \<in> set (ys @ t # zs)" for a using p(4)[of a] that by (auto simp: whole_def)
  have ys: "\<not> matches (mh_id hdr) (mh_token hdr) (reqs s) (msgs s) y" if "y \<in> set ys" for y
  proof
    assume "matches (mh_id hdr) (mh_token hdr) (reqs s) (msgs s) y"
    then have "req_key s y = req_key s t" using key_matches[OF m[of y]] k that by simp
    then show False using inj_onD[OF p(8), of y t] p(3) that by auto
  qed
  have a: "\<forall>x \<in> set ys. \<forall>r. reqs s x = Some r \<longrightarrow> msgs s (rq_curr r) \<noteq> None"
    using m by (force simp: cur_def)
  have l: "length ys < Suc (allocs s)" using queue_length[OF inv] by simp
  have t: "matches (mh_id hdr) (mh_token hdr) (reqs s) (msgs s) t" using key_matches[OF m[of t]] k by simp
  obtain front rs where r: "checkAndDequeue (Suc (allocs s)) (mh_id hdr) (mh_token hdr) (pendingResponseQueue s) (reqs s) (msgs s)
      = Inr (True, front, rs)" "chain rs front (ys @ zs)" "rs t = None"
      "\<forall>x. x \<noteq> t \<longrightarrow> same_request (rs x) (reqs s x)" "\<forall>x. x \<notin> set (ys @ t # zs) \<longrightarrow> rs x = reqs s x"
    using checkAndDequeue_hit[OF p(2) t _ a l] ys by blast
  have "sap_inv E (s\<lparr>reqs := rs, pendingResponseQueue := front, msgs := (msgs s)(cur s t := None)\<rparr>) (insert t D) dq (ys @ zs) dc"
    by (rule complete_client_inv[OF inv]) (simp_all add: r)
  then show ?thesis using r(1) by blast
qed

lemma complete_client_safe:
  assumes env: "sap_env_ok E" and inv: "sap_inv E s D dq (ys @ t # zs) dc"
  shows "sap_safe (sap_good E (insert t D)) (sap_onRequestComplete E t e response s)"
proof -
  have w: "whole s t" using inv_parts(4)[OF inv, of t] by simp
  then obtain r hdr where r: "reqs s t = Some r" "msgs s (rq_curr r) = Some hdr" "cur s t = rq_curr r"
    by (auto simp: whole_def cur_def)
  let ?send = "if response \<noteq> None \<and> response \<noteq> Some [] then
      (case sap_malloc E s of (payload, s) \<Rightarrow> if payload = 0 then Inr s
         else sap_sendResponse E \<lparr>mh_token = mh_token hdr, mh_type = MsgType_RESPONSE E,
           mh_id = mh_id hdr, mh_error = e, mh_payload = response\<rparr> s)
    else Inr s"
  obtain a s1 where m: "sap_malloc E s = (a, s1)" by fastforce
  have sent: "sap_safe (same_mem s) ?send"
    using malloc_same[OF m] sap_safe_mono[OF sendResponse_same[OF env, of s1] same_mem_trans[of s s1]] by (simp add: m)
  show ?thesis
  proof (cases ?send)
    case (Inl f)
    then show ?thesis using sent r(1,2) by (simp add: sap_onRequestComplete_def sap_safe_def)
  next
    case (Inr s2)
    have same: "same_mem s s2" using sent Inr by simp
    have inv2: "sap_inv E s2 D dq (ys @ t # zs) dc" by (rule same_mem_inv[OF same inv])
    have c2: "msgs s2 (rq_curr r) = Some hdr" "cur s2 t = rq_curr r" using same r by (simp_all add: same_mem_def cur_def)
    then obtain front rs where f: "checkAndDequeue (Suc (allocs s2)) (mh_id hdr) (mh_token hdr) (pendingResponseQueue s2)
        (reqs s2) (msgs s2) = Inr (True, front, rs)"
      "sap_inv E (s2\<lparr>reqs := rs, pendingResponseQueue := front, msgs := (msgs s2)(rq_curr r := None)\<rparr>) (insert t D) dq (ys @ zs) dc"
      using complete_found[OF inv2, of hdr] by auto
    then show ?thesis using r(1,2) Inr c2(1)
      by (auto simp: sap_onRequestComplete_def free_msg_def sap_good_def)
  qed
qed

lemma complete_disconnect_safe:
  assumes inv: "sap_inv E s D dq pq dc" and t: "t \<in> set dc" and sock: "RIL_SOCKET_1 E \<noteq> 99"
  shows "sap_safe (sap_good E (insert t D)) (sOnRequestComplete E t e response s)"
proof -
  note p = inv_parts[OF inv]
  have w: "whole s t" using p(4)[of t] t by simp
  then obtain r m where r: "reqs s t = Some r" "msgs s (rq_curr r) = Some m" "cur s t = rq_curr r"
      "pay s t = mh_payload m" "mh_payload m \<noteq> 0" "pays s (mh_payload m) \<noteq> None"
    by (auto simp: whole_def pay_def cur_def)
  have "\<not> getSocketById (rq_socketId r) s" using p(9)[OF t] p(13) r(1) sock by (simp add: getSocketById_def)
  then have run: "sOnRequestComplete E t e response s = Inr (s\<lparr>pays := (pays s)(mh_payload m := None),
      msgs := (msgs s)(rq_curr r := None), reqs := (reqs s)(t := None)\<rparr>)"
    using r by (simp add: sOnRequestComplete_def free_pay_def free_msg_def free_req_def)
  let ?s = "s\<lparr>pays := (pays s)(mh_payload m := None), msgs := (msgs s)(rq_curr r := None), reqs := (reqs s)(t := None)\<rparr>"
  have d: "t \<notin> set dq" "t \<notin> set pq" "distinct dc" using p(3) t by auto
  have "sap_inv E ?s (insert t D) dq pq (remove1 t dc)"
  proof (rule inv_update[OF inv, where N = "{}"])
    show "chain (reqs ?s) (dispatchQueue ?s) dq" using p(1) d by (subst chain_frame) auto
    show "chain (reqs ?s) (pendingResponseQueue ?s) pq" using p(2) d by (subst chain_frame) auto
    show "\<forall>a \<in> set (dq @ pq @ remove1 t dc) - {}. keeps s ?s a"
    proof
      fix a assume "a \<in> set (dq @ pq @ remove1 t dc) - {}"
      then have a: "a \<in> set (dq @ pq @ dc)" "a \<noteq> t" using d by auto
      then show "keeps s ?s a" using inv_others[OF inv _ a] t r(3,4) by (simp add: keeps_def)
    qed
  qed (use p d in \<open>auto simp: issued_def set_remove1_eq\<close>)
  then show ?thesis by (auto simp: run sap_good_def)
qed

lemma complete_safe:
  assumes env: "sap_env_ok E" and good: "sap_good E D s" and t: "t \<in> issued s - D"
  shows "sap_safe (sap_good E (insert t D)) (sOnRequestComplete E t e response s)"
proof -
  obtain dq pq dc where inv: "sap_inv E s D dq pq dc" using good by (auto simp: sap_good_def)
  show ?thesis
  proof (cases "t \<in> set dc")
    case True
    then show ?thesis using complete_disconnect_safe[OF inv] env by (simp add: sap_env_ok_def)
  next
    case False
    then have "t \<in> set pq" using inv_parts(10)[OF inv] t by auto
    then obtain ys zs where pq: "pq = ys @ t # zs" using split_list by fast
    obtain r where r: "reqs s t = Some r" "rq_socketId r = RIL_SOCKET_1 E"
      using inv_parts(7)[OF inv, of t] pq by (auto simp: own_message_def client_req_def split: option.splits)
    then have "getSocketById (rq_socketId r) s" using inv_parts(13)[OF inv] by (auto simp: getSocketById_def)
    then show ?thesis using complete_client_safe[OF env inv[unfolded pq]] r(1) by (simp add: sOnRequestComplete_def)
  qed
qed

section \<open>The connection is closed\<close>

lemma sap_disconnect_inv:
  fixes s :: sap
  defines "p \<equiv> Suc (allocs s)"
  defines "h \<equiv> Suc p"
  defines "n \<equiv> Suc h"
  assumes inv: "sap_inv E s D dq pq dc"
    and s': "reqs s' = (reqs s)(n \<mapsto> \<lparr>rq_token = - 1, rq_curr = h, rq_next = 0, rq_socketId = 99\<rparr>)"
      "msgs s' = (msgs s)(h \<mapsto> m)" "mh_payload m = p" "pays s' = (pays s)(p \<mapsto> dat)" "allocs s' = n"
      "dispatchQueue s' = dispatchQueue s" "pendingResponseQueue s' = pendingResponseQueue s"
      "issued s' = insert n (issued s)" "uimFuncs s' = uimFuncs s" "socket_list s' = socket_list s"
  shows "sap_inv E s' D dq pq (n # dc)"
proof -
  note q = inv_parts[OF inv]
  have hpn: "allocs s < h" "allocs s < p" "allocs s < n" by (simp_all add: h_def p_def n_def)
  note f = inv_fresh(1)[OF inv hpn(3)] and fh = inv_fresh[OF inv hpn(1)] and fp = inv_fresh[OF inv hpn(2)]
  have N: "cur s' n = h" "pay s' n = p" "whole s' n"
    by (simp_all add: cur_def pay_def whole_def s' h_def p_def n_def)
  have k: "keeps s s' a" if "a \<in> set (dq @ pq @ dc)" for a
    using that q(4) hpn by (intro keeps_above) (auto simp: s')
  show ?thesis
  proof (rule inv_update[OF inv, where N = "{n}" and n = n])
    show "chain (reqs s') (dispatchQueue s') dq" using q(1) f by (subst chain_frame) (auto simp: s')
    show "chain (reqs s') (pendingResponseQueue s') pq" using q(2) f by (subst chain_frame) (auto simp: s')
    show "distinct (dq @ pq @ n # dc)" using q(3) f by auto
    show "\<forall>a \<in> set (dq @ pq @ n # dc) - {n}. keeps s s' a" using k by auto
    show "\<forall>a \<in> {n}. cur s' a \<notin> cur s ` (set (dq @ pq @ n # dc) - {n})" using fh(2) by (auto simp: N)
    show "\<forall>a \<in> {n}. pay s' a \<notin> pay s ` (set (dq @ pq @ n # dc) - {n})" using fp(3) by (auto simp: N)
    show "issued s' - D \<subseteq> set (pq @ n # dc)" using q(10) by (auto simp: s')
  qed (use f N s' hpn in auto)
qed

lemma written_size_zero [simp]: "written_size 0 = 0"
  by (simp add: written_size_def htonl_def)

lemma sendDisconnect_safe:
  assumes env: "sap_env_ok E" and good: "sap_good E D s"
  shows "sap_safe (sap_good E D) (sendDisconnect E s)"
proof -
  obtain dq pq dc where inv: "sap_inv E s D dq pq dc" using good by (auto simp: sap_good_def)
  let ?p = "Suc (allocs s)" and ?h = "Suc (Suc (allocs s))" and ?n = "Suc (Suc (Suc (allocs s)))"
  let ?m = "\<lparr>mh_token = junk_token E, mh_type = MsgType_REQUEST E, mh_id = MsgId_RIL_SIM_SAP_DISCONNECT E,
    mh_error = Error_RIL_E_SUCCESS E, mh_payload = ?p\<rparr>"
  have free: "sap_good E D (s\<lparr>allocs := k, pays := (pays s)(?p := y), msgs := (msgs s)(?h := x)\<rparr>)" if "allocs s \<le> k" for k x y
  proof -
    have "sap_inv E (s\<lparr>allocs := k, pays := (pays s)(?p := y), msgs := (msgs s)(?h := x)\<rparr>) D dq pq dc" (is "sap_inv E ?s D dq pq dc")
    proof (rule inv_update[OF inv, where N = "{}"])
      show "\<forall>a \<in> set (dq @ pq @ dc) - {}. keeps s ?s a"
        using inv_parts(4)[OF inv] by (intro ballI keeps_above) auto
    qed (use inv_parts[OF inv] that in \<open>auto simp: issued_def\<close>)
    then show ?thesis by (auto simp: sap_good_def)
  qed
  have full: "sap_good E D (s\<lparr>pays := (pays s)(?p \<mapsto> []), msgs := (msgs s)(?h \<mapsto> ?m), allocs := ?n,
      reqs := (reqs s)(?n \<mapsto> \<lparr>rq_token = - 1, rq_curr = ?h, rq_next = 0, rq_socketId = 99\<rparr>),
      uim_calls := uim_calls s @ [(mh_id ?m, [], ?n)]\<rparr>)"
    unfolding sap_good_def
    by (intro exI, rule sap_disconnect_inv[OF inv, where m = ?m and dat = "[]"]) (simp_all add: issued_def)
  consider (stack) "\<not> stack_ok E 4" | (pay) "stack_ok E 4" "\<not> malloc_ok E (allocs s)"
    | (hdr) "stack_ok E 4" "malloc_ok E (allocs s)" "\<not> malloc_ok E ?p"
    | (req) "stack_ok E 4" "malloc_ok E (allocs s)" "malloc_ok E ?p" "\<not> malloc_ok E ?h"
    | (all) "stack_ok E 4" "malloc_ok E (allocs s)" "malloc_ok E ?p" "malloc_ok E ?h" by blast
  then show ?thesis
  proof cases
    case stack
    then show ?thesis using env by (simp add: sendDisconnect_def sap_env_ok_def sap_safe_def)
  next
    case pay
    then show ?thesis using env same_mem_good[OF _ good, of "s\<lparr>allocs := ?p\<rparr>"]
      by (simp add: sendDisconnect_def sap_env_ok_def sap_malloc_def same_mem_def Let_def)
  next
    case hdr
    then show ?thesis using env free[of ?h "msgs s ?h" None]
      by (simp add: sendDisconnect_def sap_env_ok_def sap_malloc_def Let_def free_pay_def)
  next
    case req
    then show ?thesis using env free[of ?n None None]
      by (simp add: sendDisconnect_def sap_env_ok_def sap_malloc_def Let_def free_pay_def free_msg_def dispatchDisconnect_def)
  next
    case all
    then show ?thesis using env full inv_parts(11,12)[OF inv]
      by (simp add: sendDisconnect_def sap_env_ok_def sap_malloc_def Let_def dispatchDisconnect_def call_onRequest_def)
  qed
qed

lemma close_safe: "sap_env_ok E \<Longrightarrow> sap_good E D s \<Longrightarrow> sap_safe (sap_good E D) (close_connection E s)"
  using sendDisconnect_safe[of E D "s\<lparr>commandFd := - 1, callback_event := False, listen_event := True\<rparr>"]
    same_mem_good[of s "s\<lparr>commandFd := - 1, callback_event := False, listen_event := True\<rparr>"]
  by (simp add: close_connection_def sap_onCommandsSocketClosed_def same_mem_def)

lemma listen_safe:
  assumes "sap_env_ok E" "sap_good E D s"
  shows "sap_safe (sap_good E D) (sap_listenCallback E accepted pw_name created s)"
proof -
  have l: "sap_good E D s' \<Longrightarrow> sap_good E D (s'\<lparr>listen_event := True\<rparr>)" for s'
    by (rule same_mem_good) (simp_all add: same_mem_def)
  have c: "sap_good E D (s\<lparr>commandFd := accepted, callback_event := True\<rparr>)"
    "sap_good E D (s\<lparr>commandFd := accepted, callback_event := True, request_loops := k\<rparr>)" for k
    by (rule same_mem_good[OF _ assms(2)]; simp add: same_mem_def)+
  have "sap_safe (sap_good E D) (map_sum id (\<lambda>s. s\<lparr>listen_event := True\<rparr>) (sap_onCommandsSocketClosed E s))"
    using sendDisconnect_safe[OF assms] l
    by (auto simp: sap_safe_def sap_onCommandsSocketClosed_def split: sum.splits)
  then show ?thesis using l[OF assms(2)] c by (simp add: sap_listenCallback_def sap_onNewCommandConnect_def)
qed

section \<open>Every step\<close>

lemma run_safe:
  assumes "sap_env_ok E" "sap_good E D s" "sap_may E D opn s"
  shows "sap_safe (sap_good E (D \<union> completes opn)) (sap_run E opn s)"
proof (cases opn)
  case (PushRecord b)
  then show ?thesis using pushRecord_safe[OF assms(1,2)] assms(3) by simp
next
  case ProcessRequest
  then show ?thesis using processRequest_safe[OF assms(2)] by simp
next
  case (Complete t e response)
  then show ?thesis using complete_safe[OF assms(1,2)] assms(3) by simp
next
  case (Unsolicited n dat)
  obtain dq pq dc where "sap_inv E s D dq pq dc" using assms(2) by (auto simp: sap_good_def)
  then have "getSocketById (RIL_SOCKET_1 E) s" using inv_parts(13) by (force simp: getSocketById_def)
  then show ?thesis using sap_safe_mono[OF unsolicited_same[OF assms(1)]] same_mem_good[OF _ assms(2)] Unsolicited by simp
next
  case Close
  then show ?thesis using close_safe[OF assms(1,2)] by simp
next
  case (Listen accepted pw_name created)
  then show ?thesis using listen_safe[OF assms(1,2)] by simp
qed

lemma register_good:
  assumes "uim \<noteq> 0" "uim_table E uim" "socket_list (RIL_register_socket E fd rc junk (Some uim) True (sap_init ws)) \<noteq> []"
  shows "sap_good E {} (RIL_register_socket E fd rc junk (Some uim) True (sap_init ws))"
proof -
  let ?s = "RIL_register_socket E fd rc junk (Some uim) True (sap_init ws)"
  have "sap_inv E ?s {} [] [] []"
    using assms by (auto simp: RIL_register_socket_def initSapSocket_def addSocketToList_def SocketExists_def sap_init_def
      sap_malloc_def new_RilSapSocket_def socketInit_def sap_inv_def issued_def Let_def split: if_splits)
  then show ?thesis by (auto simp: sap_good_def)
qed

lemma reach_good:
  assumes "sap_env_ok E" "uim \<noteq> 0" "uim_table E uim" "sap_reach E uim (s, D)"
  shows "sap_good E D s"
proof -
  obtain ws fd rc junk where 0: "socket_list (RIL_register_socket E fd rc junk (Some uim) True (sap_init ws)) \<noteq> []"
      "(sap_step E)\<^sup>*\<^sup>* (RIL_register_socket E fd rc junk (Some uim) True (sap_init ws), {}) (s, D)"
    using assms(4) by (auto simp: sap_reach_def Let_def)
  from 0(2) have "sap_good E (snd (s, D)) (fst (s, D))"
  proof (induction rule: rtranclp_induct)
    case base
    then show ?case using register_good[OF assms(2,3) 0(1)] by simp
  next
    case (step x y)
    from step(2) show ?case
    proof cases
      case (1 D0 opn s0 s1)
      then show ?thesis using run_safe[OF assms(1) _ 1(3)] step(3) by (force simp: sap_safe_def)
    qed
  qed
  then show ?thesis by simp
qed

end
