(* ===== verification/Sap_Props.thy ===== *)
theory Sap_Props
  imports Sap_Steps
begin

text \<open>
  Properties of the SIM access profile socket: memory safety of every reachable step, the life of a
  request from its record to the frame with its response, the order in which requests are dispatched,
  and what goes wrong when a client has two requests with one token, or the disconnect message has an
  encoding that is not empty.
\<close>

section \<open>Memory safety\<close>

text \<open>
  C14 Memory safety of the SIM access profile socket, for a client that does not use a token again for the same
  message while a request with both is open, and a vendor library that completes each token it was given once (\<open>sap_may\<close>):
  in whatever order records arrive, the request loop runs, tokens are completed and connections come and go,
  no step reads, writes or frees memory that is not allocated, dereferences NULL or leaves a buffer. A
  step can only wait, or need more stack than there is. Without the first condition this is false (\<open>sap_duplicate_token\<close>).
\<close>

theorem sap_memory_safe:
  assumes "sap_env_ok E" "uim \<noteq> 0" "uim_table E uim" "sap_reach E uim (s, D)" "sap_may E D opn s"
  shows "case sap_run E opn s of Inl f \<Rightarrow> f = Blocked \<or> f = StackOverflow | Inr s' \<Rightarrow> True"
  using run_safe[OF assms(1) reach_good[OF assms(1-4)] assms(5)] by (simp add: sap_safe_def split: sum.splits)

section \<open>The life of a request\<close>

text \<open>The states a request passes through when memory is not exhausted.\<close>

lemma push_run:
  assumes "sap_env_ok E" "\<forall>n. malloc_ok E n" "pb_decode E b = Some m" "mh_payload m = Some dat"
  shows "pushRecord E b s = (let h = Suc (allocs s); p = Suc h; n = Suc p in
    Inr (s\<lparr>sp_log := sp_log s @ hex_dump ''BtSapTest-Payload'' b 0,
      msgs := (msgs s)(h \<mapsto> \<lparr>mh_token = mh_token m, mh_type = mh_type m, mh_id = mh_id m, mh_error = mh_error m, mh_payload = p\<rparr>),
      allocs := n, pays := (pays s)(p \<mapsto> dat),
      reqs := (reqs s)(n \<mapsto> \<lparr>rq_token = mh_token m, rq_curr = h, rq_next = dispatchQueue s, rq_socketId = RIL_SOCKET_1 E\<rparr>),
      dispatchQueue := n\<rparr>))"
  using assms(2-4) log_hex_ok[OF assms(1)] by (simp add: pushRecord_def sap_malloc_def sap_enqueue_def Let_def)

lemma process_run:
  assumes "\<forall>n. malloc_ok E n" "uimFuncs s \<noteq> 0" "uim_table E (uimFuncs s)" "dispatchQueue s = x" "x \<noteq> 0" "x \<le> allocs s"
    and "reqs s x = Some r" "msgs s (rq_curr r) = Some m" "mh_payload m \<noteq> 0" "pays s (mh_payload m) = Some dat"
  shows "processRequest E s = (let n = Suc (allocs s) in
    Inr (s\<lparr>dispatchQueue := rq_next r, allocs := n,
      reqs := (reqs s)(n \<mapsto> \<lparr>rq_token = mh_token m, rq_curr = rq_curr r, rq_next = pendingResponseQueue s, rq_socketId = RIL_SOCKET_1 E\<rparr>, x := None),
      pendingResponseQueue := n, uim_calls := uim_calls s @ [(mh_id m, dat, n)]\<rparr>))"
  using assms by (simp add: processRequest_def sap_dequeue_def queue_empty_def dispatchRequest_def sap_malloc_def sap_enqueue_def
    call_onRequest_def free_req_def Let_def)

text \<open>The message that answers a request.\<close>

definition response_msg :: "sap_env \<Rightarrow> 'p MsgHeader \<Rightarrow> i32 \<Rightarrow> u8 list \<Rightarrow> u8 list option MsgHeader" where
  "response_msg E m e response = \<lparr>mh_token = mh_token m, mh_type = MsgType_RESPONSE E, mh_id = mh_id m,
     mh_error = e, mh_payload = Some response\<rparr>"

lemma send_run:
  assumes "sap_env_ok E" "pb_encode E hdr = Some enc" "length enc \<le> INT32_MAX" "stack_ok E (length enc + 4)"
    "commandFd s \<noteq> - 1" "write_loop (sp_writes s) (htonl (length enc) @ enc) = Some (r, out, ws)"
  shows "sap_sendResponse E hdr s =
    Inr (s\<lparr>sp_log := sp_log s @ hex_dump ''onRequestComplete'' enc 0, sp_out := sp_out s @ out, sp_writes := ws\<rparr>)"
  using assms(2-6) log_hex_ok[OF assms(1)] by (simp add: sap_sendResponse_def)

lemma complete_run:
  assumes "sap_env_ok E" "\<forall>n. malloc_ok E n" "getSocketById (rq_socketId r) s" "t \<noteq> 0" "pendingResponseQueue s = t"
    and "reqs s t = Some r" "msgs s (rq_curr r) = Some m" "rq_token r = mh_token m" "response \<noteq> []"
    and "pb_encode E (response_msg E m e response) = Some enc" "length enc \<le> INT32_MAX" "stack_ok E (length enc + 4)"
    and "commandFd s \<noteq> - 1" "write_loop (sp_writes s) (htonl (length enc) @ enc) = Some (rc, out, ws)"
  shows "\<exists>s'. sOnRequestComplete E t e (Some response) s = Inr s' \<and> sp_out s' = sp_out s @ out \<and>
    reqs s' t = None \<and> msgs s' (rq_curr r) = None"
proof -
  let ?s1 = "s\<lparr>allocs := Suc (allocs s)\<rparr>"
  let ?s2 = "?s1\<lparr>sp_log := sp_log s @ hex_dump ''onRequestComplete'' enc 0, sp_out := sp_out s @ out, sp_writes := ws\<rparr>"
  have "sap_sendResponse E (response_msg E m e response) ?s1 = Inr ?s2"
    using send_run[OF assms(1,10-12), of ?s1] assms(13,14) by simp
  then show ?thesis using assms(2-9)
    by (simp add: sOnRequestComplete_def sap_onRequestComplete_def sap_malloc_def response_msg_def
      checkAndDequeue_def free_msg_def)
qed

text \<open>
  C15 A request of the client is answered: its record reaches the vendor library with the message id and
  the payload that were sent, and the response of the vendor library leaves the socket as one frame
  with the id and the token of the request.
\<close>

theorem sap_request_answered:
  assumes "sap_env_ok E" "uim \<noteq> 0" "uim_table E uim" "sap_reach E uim (s, D)" "\<forall>n. malloc_ok E n"
    and "pb_decode E b = Some m" "mh_payload m = Some dat" "response \<noteq> []"
    and "pb_encode E (response_msg E m e response) = Some enc" "length enc \<le> INT32_MAX" "stack_ok E (length enc + 4)"
    and "commandFd s \<noteq> - 1" "write_loop (sp_writes s) (htonl (length enc) @ enc) = Some (0, htonl (length enc) @ enc, ws)"
  shows "\<exists>s1 s2 s3 t. pushRecord E b s = Inr s1 \<and> processRequest E s1 = Inr s2 \<and>
    uim_calls s2 = uim_calls s @ [(mh_id m, dat, t)] \<and> sOnRequestComplete E t e (Some response) s2 = Inr s3 \<and>
    sp_out s3 = sp_out s @ htonl (length enc) @ enc"
proof -
  obtain dq pq dc where "sap_inv E s D dq pq dc" using reach_good[OF assms(1-4)] by (auto simp: sap_good_def)
  note p = inv_parts(11-13)[OF this]
  obtain s1 where s1: "pushRecord E b s = Inr s1" and f1: "dispatchQueue s1 = Suc (Suc (Suc (allocs s)))"
      "allocs s1 = Suc (Suc (Suc (allocs s)))" "pays s1 (Suc (Suc (allocs s))) = Some dat"
      "msgs s1 (Suc (allocs s)) = Some \<lparr>mh_token = mh_token m, mh_type = mh_type m, mh_id = mh_id m,
        mh_error = mh_error m, mh_payload = Suc (Suc (allocs s))\<rparr>"
      "reqs s1 (Suc (Suc (Suc (allocs s)))) = Some \<lparr>rq_token = mh_token m, rq_curr = Suc (allocs s),
        rq_next = dispatchQueue s, rq_socketId = RIL_SOCKET_1 E\<rparr>"
      "uimFuncs s1 = uimFuncs s" "socket_list s1 = socket_list s" "commandFd s1 = commandFd s"
      "sp_writes s1 = sp_writes s" "sp_out s1 = sp_out s" "uim_calls s1 = uim_calls s"
    using push_run[OF assms(1,5-7), of s] by (simp add: Let_def)
  let ?t = "Suc (Suc (Suc (Suc (allocs s))))"
  obtain s2 where s2: "processRequest E s1 = Inr s2" and f2: "pendingResponseQueue s2 = ?t"
      "reqs s2 ?t = Some \<lparr>rq_token = mh_token m, rq_curr = Suc (allocs s), rq_next = pendingResponseQueue s1,
        rq_socketId = RIL_SOCKET_1 E\<rparr>" "msgs s2 = msgs s1" "socket_list s2 = socket_list s1"
      "commandFd s2 = commandFd s1" "sp_writes s2 = sp_writes s1" "sp_out s2 = sp_out s1"
      "uim_calls s2 = uim_calls s @ [(mh_id m, dat, ?t)]"
    using process_run[OF assms(5) _ _ f1(1) _ _ f1(5), of _ dat] f1 p by (simp add: Let_def)
  have g: "getSocketById (RIL_SOCKET_1 E) s2" using p(3) f1(7) f2(4) by (force simp: getSocketById_def)
  let ?m = "\<lparr>mh_token = mh_token m, mh_type = mh_type m, mh_id = mh_id m, mh_error = mh_error m, mh_payload = Suc (Suc (allocs s))\<rparr>"
  have "response_msg E ?m e response = response_msg E m e response" by (simp add: response_msg_def)
  then obtain s3 where "sOnRequestComplete E ?t e (Some response) s2 = Inr s3" "sp_out s3 = sp_out s @ htonl (length enc) @ enc"
    using complete_run[OF assms(1,5) _ _ f2(1,2), of ?m response e enc 0 "htonl (length enc) @ enc" ws] assms(8-13) g f1 f2 by auto
  then show ?thesis using s1 s2 f2(8) by blast
qed

text \<open>
  The order of requests: of two records that arrive before the request loop runs, the one that
  arrived last is dispatched first.
\<close>

theorem sap_newest_first:
  assumes "sap_env_ok E" "uim \<noteq> 0" "uim_table E uim" "sap_reach E uim (s, D)" "\<forall>n. malloc_ok E n"
    and "pb_decode E b = Some m" "mh_payload m = Some dat" "pb_decode E b' = Some m'" "mh_payload m' = Some dat'"
  shows "\<exists>s1 s2 s3 s4 t t'. pushRecord E b s = Inr s1 \<and> pushRecord E b' s1 = Inr s2 \<and>
    processRequest E s2 = Inr s3 \<and> processRequest E s3 = Inr s4 \<and>
    uim_calls s4 = uim_calls s @ [(mh_id m', dat', t'), (mh_id m, dat, t)]"
proof -
  obtain dq pq dc where "sap_inv E s D dq pq dc" using reach_good[OF assms(1-4)] by (auto simp: sap_good_def)
  note p = inv_parts(11,12)[OF this]
  let ?m = "\<lambda>m p. \<lparr>mh_token = mh_token m, mh_type = mh_type m, mh_id = mh_id m, mh_error = mh_error m, mh_payload = p\<rparr>"
  let ?r = "\<lambda>m h q. \<lparr>rq_token = mh_token m, rq_curr = h, rq_next = q, rq_socketId = RIL_SOCKET_1 E\<rparr>"
  let ?a = "allocs s"
  obtain s1 where s1: "pushRecord E b s = Inr s1" and f1: "dispatchQueue s1 = ?a + 3" "allocs s1 = ?a + 3"
      "pays s1 (?a + 2) = Some dat" "msgs s1 (?a + 1) = Some (?m m (?a + 2))"
      "reqs s1 (?a + 3) = Some (?r m (?a + 1) (dispatchQueue s))" "uimFuncs s1 = uimFuncs s" "uim_calls s1 = uim_calls s"
    using push_run[OF assms(1,5-7), of s] by (simp add: Let_def eval_nat_numeral)
  obtain s2 where s2: "pushRecord E b' s1 = Inr s2" and f2: "dispatchQueue s2 = ?a + 6" "allocs s2 = ?a + 6"
      "pays s2 = (pays s1)(?a + 5 \<mapsto> dat')" "msgs s2 = (msgs s1)(?a + 4 \<mapsto> ?m m' (?a + 5))"
      "reqs s2 = (reqs s1)(?a + 6 \<mapsto> ?r m' (?a + 4) (?a + 3))" "uimFuncs s2 = uimFuncs s" "uim_calls s2 = uim_calls s"
    using push_run[OF assms(1,5,8,9), of s1] f1 by (simp add: Let_def eval_nat_numeral)
  obtain s3 where s3: "processRequest E s2 = Inr s3" and f3: "dispatchQueue s3 = ?a + 3" "allocs s3 = ?a + 7"
      "pays s3 = pays s2" "msgs s3 = msgs s2"
      "reqs s3 = (reqs s2)(?a + 7 \<mapsto> ?r m' (?a + 4) (pendingResponseQueue s2), ?a + 6 := None)" "uimFuncs s3 = uimFuncs s"
      "uim_calls s3 = uim_calls s @ [(mh_id m', dat', ?a + 7)]"
    using process_run[OF assms(5), of s2 "?a + 6" "?r m' (?a + 4) (?a + 3)" "?m m' (?a + 5)" dat'] f2 p
    by (simp add: Let_def eval_nat_numeral)
  obtain s4 where "processRequest E s3 = Inr s4" "uim_calls s4 = uim_calls s3 @ [(mh_id m, dat, ?a + 8)]"
    using process_run[OF assms(5), of s3 "?a + 3" "?r m (?a + 1) (dispatchQueue s)" "?m m (?a + 2)" dat] f1 f2 f3 p
    by (simp add: Let_def eval_nat_numeral)
  then show ?thesis using s1 s2 s3 f3(7) by auto
qed

text \<open>Sending a response touches neither the requests nor the messages nor the queues.\<close>

lemma send_keeps:
  assumes "sap_sendResponse E hdr s = Inr s'"
  shows "reqs s' = reqs s" "msgs s' = msgs s" "pendingResponseQueue s' = pendingResponseQueue s"
  using assms by (auto simp: sap_sendResponse_def split: option.splits if_splits sum.splits)

text \<open>
  A completion when the request at the front of the queue has the message id and the token of the completed one: the front
  is taken off and freed, whichever request was completed.
\<close>

lemma complete_takes_front:
  assumes "sOnRequestComplete E t e response s = Inr s'" "reqs s t = Some r" "getSocketById (rq_socketId r) s" "msgs s (rq_curr r) = Some m"
    and "pendingResponseQueue s = f" "f \<noteq> 0" "reqs s f = Some q" "msgs s (rq_curr q) = Some m'"
    and "rq_token q = mh_token m" "mh_id m' = mh_id m"
  shows "reqs s' = (reqs s)(f := None)" "msgs s' = (msgs s)(rq_curr r := None)" "pendingResponseQueue s' = rq_next q"
proof -
  let ?send = "if response \<noteq> None \<and> response \<noteq> Some [] then
      (case sap_malloc E s of (payload, s) \<Rightarrow> if payload = 0 then Inr s
         else sap_sendResponse E \<lparr>mh_token = mh_token m, mh_type = MsgType_RESPONSE E, mh_id = mh_id m, mh_error = e, mh_payload = response\<rparr> s)
      else Inr s"
  obtain s1 where s1: "?send = Inr s1" using assms(1-4)
    by (auto simp: sOnRequestComplete_def sap_onRequestComplete_def split: sum.splits)
  have k: "reqs s1 = reqs s" "msgs s1 = msgs s" "pendingResponseQueue s1 = pendingResponseQueue s"
    using s1 send_keeps[of E _ "s\<lparr>allocs := Suc (allocs s)\<rparr>" s1] by (auto simp: sap_malloc_def split: if_splits)
  have "checkAndDequeue (Suc (allocs s1)) (mh_id m) (mh_token m) (pendingResponseQueue s1) (reqs s1) (msgs s1)
      = Inr (True, rq_next q, (reqs s)(f := None))"
    using assms(5-10) k by (simp add: checkAndDequeue_def)
  then have "s' = s1\<lparr>reqs := (reqs s)(f := None), pendingResponseQueue := rq_next q, msgs := (msgs s)(rq_curr r := None)\<rparr>"
    using assms(1-4) s1 k unfolding sOnRequestComplete_def sap_onRequestComplete_def
    by (auto simp: free_msg_def split: if_splits)
  then show "reqs s' = (reqs s)(f := None)" "msgs s' = (msgs s)(rq_curr r := None)" "pendingResponseQueue s' = rq_next q" by simp_all
qed

text \<open>
  C36 Two open requests with one message id and token, from any reachable state: both are handed to the vendor library, with
  tokens \<open>t\<close> and \<open>t'\<close>. However the vendor library completes the older one \<open>t\<close>, if the completion returns it has freed the
  newer request \<open>t'\<close> in its place and kept the older one; a completion without a response does return; and
  every completion of the newer one then reads freed memory.
\<close>

theorem sap_duplicate_token:
  assumes "sap_env_ok E" "uim \<noteq> 0" "uim_table E uim" "sap_reach E uim (s, D)" "\<forall>n. malloc_ok E n"
    and "pb_decode E b = Some m" "mh_payload m = Some dat" "pb_decode E b' = Some m'" "mh_payload m' = Some dat'"
    and "mh_id m' = mh_id m" "mh_token m' = mh_token m"
  shows "\<exists>s1 s2 s3 s4 t t'. pushRecord E b s = Inr s1 \<and> processRequest E s1 = Inr s2 \<and>
    pushRecord E b' s2 = Inr s3 \<and> processRequest E s3 = Inr s4 \<and>
    uim_calls s4 = uim_calls s @ [(mh_id m, dat, t), (mh_id m', dat', t')] \<and>
    (\<exists>s5. sOnRequestComplete E t e None s4 = Inr s5) \<and>
    (\<forall>e response s5. sOnRequestComplete E t e response s4 = Inr s5 \<longrightarrow> reqs s5 t' = None \<and> reqs s5 t = reqs s4 t \<and> reqs s4 t \<noteq> None \<and>
      (\<forall>e' response'. sOnRequestComplete E t' e' response' s5 = Inl UseAfterFree))"
proof -
  obtain dq pq dc where "sap_inv E s D dq pq dc" using reach_good[OF assms(1-4)] by (auto simp: sap_good_def)
  note p = inv_parts(11-13)[OF this]
  let ?m = "\<lambda>m p. \<lparr>mh_token = mh_token m, mh_type = mh_type m, mh_id = mh_id m, mh_error = mh_error m, mh_payload = p\<rparr>"
  let ?r = "\<lambda>m h q. \<lparr>rq_token = mh_token m, rq_curr = h, rq_next = q, rq_socketId = RIL_SOCKET_1 E\<rparr>"
  let ?a = "allocs s"
  obtain s1 where s1: "pushRecord E b s = Inr s1" and f1: "dispatchQueue s1 = ?a + 3" "allocs s1 = ?a + 3"
      "pays s1 (?a + 2) = Some dat" "msgs s1 (?a + 1) = Some (?m m (?a + 2))"
      "reqs s1 (?a + 3) = Some (?r m (?a + 1) (dispatchQueue s))" "uimFuncs s1 = uimFuncs s" "uim_calls s1 = uim_calls s"
      "socket_list s1 = socket_list s"
    using push_run[OF assms(1,5-7), of s] by (simp add: Let_def eval_nat_numeral)
  obtain s2 where s2: "processRequest E s1 = Inr s2" and f2: "allocs s2 = ?a + 4" "msgs s2 = msgs s1"
      "reqs s2 = (reqs s1)(?a + 4 \<mapsto> ?r m (?a + 1) (pendingResponseQueue s1), ?a + 3 := None)" "uimFuncs s2 = uimFuncs s"
      "uim_calls s2 = uim_calls s @ [(mh_id m, dat, ?a + 4)]" "socket_list s2 = socket_list s" "pendingResponseQueue s2 = ?a + 4"
    using process_run[OF assms(5), of s1 "?a + 3" "?r m (?a + 1) (dispatchQueue s)" "?m m (?a + 2)" dat] f1 p
    by (simp add: Let_def eval_nat_numeral)
  obtain s3 where s3: "pushRecord E b' s2 = Inr s3" and f3: "dispatchQueue s3 = ?a + 7" "allocs s3 = ?a + 7"
      "pays s3 (?a + 6) = Some dat'" "msgs s3 = (msgs s2)(?a + 5 \<mapsto> ?m m' (?a + 6))"
      "reqs s3 = (reqs s2)(?a + 7 \<mapsto> ?r m' (?a + 5) (dispatchQueue s2))" "uimFuncs s3 = uimFuncs s" "uim_calls s3 = uim_calls s2"
      "socket_list s3 = socket_list s" "pendingResponseQueue s3 = ?a + 4"
    using push_run[OF assms(1,5,8,9), of s2] f2 by (simp add: Let_def eval_nat_numeral)
  obtain s4 where s4: "processRequest E s3 = Inr s4" and f4: "msgs s4 = msgs s3"
      "reqs s4 = (reqs s3)(?a + 8 \<mapsto> ?r m' (?a + 5) (?a + 4), ?a + 7 := None)"
      "uim_calls s4 = uim_calls s2 @ [(mh_id m', dat', ?a + 8)]" "socket_list s4 = socket_list s" "pendingResponseQueue s4 = ?a + 8"
    using process_run[OF assms(5), of s3 "?a + 7" "?r m' (?a + 5) (dispatchQueue s2)" "?m m' (?a + 6)" dat'] f3 p
    by (simp add: Let_def eval_nat_numeral)
  let ?old = "?r m (?a + 1) (pendingResponseQueue s1)" and ?new = "?r m' (?a + 5) (?a + 4)"
  have g: "getSocketById (RIL_SOCKET_1 E) s4" using p(3) f4(4) by (force simp: getSocketById_def)
  have h: "reqs s4 (?a + 4) = Some ?old" "reqs s4 (?a + 8) = Some ?new" "msgs s4 (?a + 1) = Some (?m m (?a + 2))"
    "msgs s4 (?a + 5) = Some (?m m' (?a + 6))" using f1(4) f2(2,3) f3(4,5) f4(1,2) by simp_all
  have ret: "\<exists>s5. sOnRequestComplete E (?a + 4) e None s4 = Inr s5"
    using g h f4(5) assms(10,11)
    by (simp add: sOnRequestComplete_def sap_onRequestComplete_def checkAndDequeue_def free_msg_def)
  have eff: "reqs s5 (?a + 8) = None \<and> reqs s5 (?a + 4) = reqs s4 (?a + 4) \<and>
      (\<forall>e' response'. sOnRequestComplete E (?a + 8) e' response' s5 = Inl UseAfterFree)"
    if "sOnRequestComplete E (?a + 4) e response s4 = Inr s5" for e response s5
  proof -
    have "reqs s5 = (reqs s4)(?a + 8 := None)"
      by (rule complete_takes_front(1)[where m = "?m m (?a + 2)" and m' = "?m m' (?a + 6)", OF that h(1) _ _ f4(5) _ h(2)]) (use g h assms(10,11) in simp_all)
    then show ?thesis by (simp add: sOnRequestComplete_def)
  qed
  show ?thesis
    by (rule exI[of _ s1], rule exI[of _ s2], rule exI[of _ s3], rule exI[of _ s4], rule exI[of _ "?a + 4"], rule exI[of _ "?a + 8"])
      (use s1 s2 s3 s4 f2(5) f4(3) ret eff h(1) in simp)
qed

section \<open>Sample surroundings\<close>

text \<open>An encoding with the four numbers as four bytes each and then the payload.\<close>

fun be32 :: "u8 list \<Rightarrow> i32" where
  "be32 (a # b # c # d # bs) = word_of_nat (unat a * 2 ^ 24 + unat b * 2 ^ 16 + unat c * 2 ^ 8 + unat d)"
| "be32 bs = 0"

definition sample_encode :: "u8 list option MsgHeader \<Rightarrow> u8 list option" where
  "sample_encode m = map_option (\<lambda>dat. htonl (unat (mh_token m)) @ htonl (unat (mh_type m)) @ htonl (unat (mh_id m)) @
     htonl (unat (mh_error m)) @ dat) (mh_payload m)"

definition sample_decode :: "u8 list \<Rightarrow> u8 list option MsgHeader option" where
  "sample_decode b = (if length b < 16 then None else Some \<lparr>mh_token = be32 b, mh_type = be32 (drop 4 b),
     mh_id = be32 (drop 8 b), mh_error = be32 (drop 12 b), mh_payload = Some (drop 16 b)\<rparr>)"

definition sample_env :: sap_env where
  "sample_env = \<lparr>pb_encode = sample_encode, pb_decode = sample_decode, pb_disconnect_size = Some 0,
     pb_disconnect = Some [], malloc_ok = (\<lambda>n. True), stack_ok = (\<lambda>n. n \<le> 65536), uim_table = (\<lambda>a. a = 4096),
     stack_out = replicate 80 CHR ''x'', junk_token = 7, MsgType_REQUEST = 1, MsgType_RESPONSE = 2,
     MsgType_UNSOL_RESPONSE = 3, MsgId_RIL_SIM_SAP_DISCONNECT = 2, Error_RIL_E_SUCCESS = 0, RIL_SOCKET_1 = 0\<rparr>"

lemma sample_env_ok: "sap_env_ok sample_env"
  by (auto simp: sap_env_ok_def sample_env_def sample_decode_def split: if_splits)

text \<open>The vendor library has registered, and a client connects.\<close>

definition sample_start :: sap where
  "sample_start = RIL_register_socket sample_env 5 0 0 (Some 4096) True (sap_init (replicate 4 (Wrote 100)))"

definition sample_connect :: sap_op where
  "sample_connect = Listen 9 (Some ''bluetooth'') True"

definition sample_record :: "u8 list" where
  "sample_record = [0, 0, 0, 11, 0, 0, 0, 1, 0, 0, 0, 4, 0, 0, 0, 0, 0xA0]"

lemma sample_fields:
  "pb_encode sample_env = sample_encode" "pb_decode sample_env = sample_decode" "malloc_ok sample_env n"
  "pb_disconnect_size sample_env = Some 0" "pb_disconnect sample_env = Some []" "stack_ok sample_env k \<longleftrightarrow> k \<le> 65536"
  "uim_table sample_env a \<longleftrightarrow> a = 4096" "RIL_SOCKET_1 sample_env = 0"
  by (simp_all add: sample_env_def)

lemma sample_decoded: "sample_decode sample_record =
    Some \<lparr>mh_token = 11, mh_type = 1, mh_id = 4, mh_error = 0, mh_payload = Some [0xA0]\<rparr>"
  by (simp add: sample_decode_def sample_record_def)

lemmas sample_run = sample_fields sample_decoded log_hex_ok[OF sample_env_ok] RIL_register_socket_def initSapSocket_def
  addSocketToList_def SocketExists_def sap_init_def sap_malloc_def new_RilSapSocket_def socketInit_def
  sap_listenCallback_def BLUETOOTH_PROCESS_def sap_onNewCommandConnect_def pushRecord_def sap_enqueue_def processRequest_def
  sap_dequeue_def queue_empty_def dispatchRequest_def call_onRequest_def free_req_def free_msg_def Let_def
  sOnRequestComplete_def sap_onRequestComplete_def getSocketById_def checkAndDequeue_def

section \<open>The disconnect message\<close>

text \<open>
  The length of the disconnect message: \<open>sendDisconnect\<close> takes the size in network byte order for the
  size, so that it copies from beyond its buffer for every encoding that is not empty and
  shorter than 64 KiB.
\<close>

theorem sap_disconnect_overread:
  assumes "pb_disconnect_size E = Some n" "0 < n" "n < 2 ^ 16" "pb_disconnect E \<noteq> None"
    and "stack_ok E (n + 4)" "malloc_ok E (allocs s)"
  shows "sendDisconnect E s = Inl OutOfBounds"
proof -
  have "unat (word_of_nat (n div 2 ^ 8) :: u8) = n div 2 ^ 8" "unat (word_of_nat n :: u8) = n mod 2 ^ 8"
    using assms(3) by (simp_all add: unat_of_nat)
  then have w: "written_size n \<ge> 2 ^ 16 * (n div 2 ^ 8) + 2 ^ 24 * (n mod 2 ^ 8)"
    by (simp add: written_size_def htonl_def)
  have "n + 4 < 2 ^ 16 * (n div 2 ^ 8) + 2 ^ 24 * (n mod 2 ^ 8)"
  proof (cases "n mod 2 ^ 8 = 0")
    case True
    then have n: "n = 256 * (n div 256)" by auto
    then have "1 \<le> n div 256" using assms(2) by (cases "n div 256") auto
    then have "n + 4 < 65536 * (n div 256)" using n by linarith
    then show ?thesis by simp
  next
    case False
    then have m: "1 \<le> n mod 256" by simp
    have "n < 65536" using assms(3) by simp
    then have "n + 4 < 16777216 * (n mod 256)" using m by linarith
    then show ?thesis by simp
  qed
  then have "n + 4 < written_size n" using w by linarith
  then show ?thesis using assms by (auto simp: sendDisconnect_def sap_malloc_def INT32_MAX_def Let_def)
qed

theorem sap_disconnect_overread_witness:
  "sendDisconnect (sample_env\<lparr>pb_disconnect_size := Some 2, pb_disconnect := Some [8, 1]\<rparr>) sample_start = Inl OutOfBounds"
  by (rule sap_disconnect_overread[where n = 2]) (simp_all add: sample_env_def)

section \<open>Sample runs\<close>

definition sample_connected :: sap where
  "sample_connected = sample_start\<lparr>commandFd := 9, callback_event := True, request_loops := 1\<rparr>"

lemma sample_reach: "sap_reach sample_env 4096 (sample_connected, {})"
proof -
  have l: "socket_list sample_start \<noteq> []" by (simp add: sample_start_def sample_run)
  have "sap_run sample_env sample_connect sample_start = Inr sample_connected"
    by (simp add: sample_connected_def sample_connect_def sample_start_def sample_run)
  then have "sap_step sample_env (sample_start, {}) (sample_connected, {} \<union> completes sample_connect)"
    by (intro sap_step.intros) (simp_all add: sample_connect_def)
  then have "(sap_step sample_env)\<^sup>*\<^sup>* (sample_start, {}) (sample_connected, {})"
    by (simp add: sample_connect_def r_into_rtranclp)
  then show ?thesis using l unfolding sap_reach_def sample_start_def Let_def by blast
qed

lemma sample_table: "(4096 :: addr) \<noteq> 0" "uim_table sample_env 4096" "\<forall>n. malloc_ok sample_env n"
  by (simp_all add: sample_fields)

theorem sap_memory_safe_witness:
  "case sap_run sample_env (PushRecord sample_record) sample_connected of
     Inl f \<Rightarrow> f = Blocked \<or> f = StackOverflow | Inr s' \<Rightarrow> True"
proof (rule sap_memory_safe[OF sample_env_ok sample_table(1,2) sample_reach])
  have "client_req sample_env sample_connected a = False" for a
    by (simp add: client_req_def sample_connected_def sample_start_def sample_run)
  then show "sap_may sample_env {} (PushRecord sample_record) sample_connected"
    by (simp add: sample_fields sample_decoded open_keys_def)
qed

theorem sap_request_answered_witness:
  "\<exists>s1 s2 s3 t. pushRecord sample_env sample_record sample_connected = Inr s1 \<and> processRequest sample_env s1 = Inr s2 \<and>
    uim_calls s2 = [(4, [0xA0], t)] \<and> sOnRequestComplete sample_env t 0 (Some [0x90, 0x00]) s2 = Inr s3 \<and>
    sp_out s3 = [0, 0, 0, 18, 0, 0, 0, 11, 0, 0, 0, 2, 0, 0, 0, 4, 0, 0, 0, 0, 0x90, 0x00]"
proof -
  let ?m = "\<lparr>mh_token = 11, mh_type = 1, mh_id = 4, mh_error = 0, mh_payload = Some [0xA0]\<rparr> :: u8 list option MsgHeader"
  let ?enc = "[0, 0, 0, 11, 0, 0, 0, 2, 0, 0, 0, 4, 0, 0, 0, 0, 0x90, 0x00] :: u8 list"
  have d: "pb_decode sample_env sample_record = Some ?m" by (simp add: sample_fields sample_decoded)
  have e: "pb_encode sample_env (response_msg sample_env ?m 0 [0x90, 0x00]) = Some ?enc"
    by (simp add: sample_fields sample_encode_def response_msg_def htonl_def sample_env_def)
  have h: "htonl (length ?enc) = [0, 0, 0, 18]" by (simp add: htonl_def)
  have c: "commandFd sample_connected \<noteq> - 1" "sp_out sample_connected = []" "uim_calls sample_connected = []"
    by (simp_all add: sample_connected_def sample_start_def sample_run)
  have w: "write_loop (sp_writes sample_connected) (htonl (length ?enc) @ ?enc) =
      Some (0, htonl (length ?enc) @ ?enc, replicate 3 (Wrote 100))"
    unfolding h by (simp add: sample_connected_def sample_start_def sample_run eval_nat_numeral)
  show ?thesis
    using sap_request_answered[OF sample_env_ok sample_table(1,2) sample_reach sample_table(3) d _ _ e _ _ c(1) w, of "[0xA0]"]
    unfolding c h by (simp add: INT32_MAX_def sample_fields)
qed

theorem sap_newest_first_witness:
  "\<exists>s1 s2 s3 s4 t t'. pushRecord sample_env sample_record sample_connected = Inr s1 \<and>
    pushRecord sample_env (sample_record @ [0xB0]) s1 = Inr s2 \<and>
    processRequest sample_env s2 = Inr s3 \<and> processRequest sample_env s3 = Inr s4 \<and>
    uim_calls s4 = [(4, [0xA0, 0xB0], t'), (4, [0xA0], t)]"
proof -
  have d: "sample_decode (sample_record @ [0xB0]) =
      Some \<lparr>mh_token = 11, mh_type = 1, mh_id = 4, mh_error = 0, mh_payload = Some [0xA0, 0xB0]\<rparr>"
    by (simp add: sample_decode_def sample_record_def)
  have c: "uim_calls sample_connected = []" by (simp add: sample_connected_def sample_start_def sample_run)
  show ?thesis
    using sap_newest_first[OF sample_env_ok sample_table(1,2) sample_reach sample_table(3), unfolded sample_fields,
      OF sample_decoded _ d, of "[0xA0]" "[0xA0, 0xB0]"] c by simp
qed

theorem sap_duplicate_token_witness:
  "\<exists>s4 s5 t t'. uim_calls s4 = [(4, [0xA0], t), (4, [0xA0, 0xB0], t')] \<and> sOnRequestComplete sample_env t 0 None s4 = Inr s5 \<and>
     sOnRequestComplete sample_env t' 0 None s5 = Inl UseAfterFree"
proof -
  have d: "sample_decode (sample_record @ [0xB0]) =
      Some \<lparr>mh_token = 11, mh_type = 1, mh_id = 4, mh_error = 0, mh_payload = Some [0xA0, 0xB0]\<rparr>"
    by (simp add: sample_decode_def sample_record_def)
  have c: "uim_calls sample_connected = []" by (simp add: sample_connected_def sample_start_def sample_run)
  from sap_duplicate_token[OF sample_env_ok sample_table(1,2) sample_reach sample_table(3), unfolded sample_fields,
      OF sample_decoded _ d, of "[0xA0]" "[0xA0, 0xB0]" 0]
  obtain s4 t t' s5 where "uim_calls s4 = [(4, [0xA0], t), (4, [0xA0, 0xB0], t')]" "sOnRequestComplete sample_env t 0 None s4 = Inr s5"
    "sOnRequestComplete sample_env t' 0 None s5 = Inl UseAfterFree" using c by auto
  then show ?thesis by blast
qed

end
