(* ===== verification/Lights.thy ===== *)
theory Lights
  imports C_Text Complex_Main
begin

text \<open>
  The lights module, liblights/lights.c: the conversion of colours to brightness with its gamma
  correction, the writes to the LED files of the kernel, and the notification LED that battery and
  notifications share. The kernel answers each write, and the constants of hardware/lights.h, the
  rounding of the processor and \<open>pow\<close> are parameters. The mutex of the code is held over the whole body of
  each operation that touches shared state, so that an operation is one step.
\<close>

unbundle bit_operations_syntax

section \<open>Data\<close>

text \<open>The members of \<open>light_state_t\<close> that the code uses, and the constants of hardware/lights.h.\<close>

record light_state_t =
  color :: i32
  flashMode :: i32
  flashOnMS :: i32
  flashOffMS :: i32

record lights_h =
  LIGHT_FLASH_NONE :: i32
  LIGHT_FLASH_TIMED :: i32
  LIGHT_FLASH_HARDWARE :: i32
  LIGHT_ID_BACKLIGHT :: string
  LIGHT_ID_KEYBOARD :: string
  LIGHT_ID_BUTTONS :: string
  LIGHT_ID_BATTERY :: string
  LIGHT_ID_NOTIFICATIONS :: string

text \<open>The options of the build that liblights/Android.mk sets by device.\<close>

record lights_build =
  HAVE_BUTTON_BACKLIGHT :: bool
  HAVE_KEYBOARD_BACKLIGHT :: bool

definition LCD_BACKLIGHT_FILE :: string where
  "LCD_BACKLIGHT_FILE = ''/sys/class/leds/lcd-backlight/brightness''"

definition BUTTON_BACKLIGHT_FILE :: string where
  "BUTTON_BACKLIGHT_FILE = ''/sys/class/leds/button-backlight/brightness''"

definition KEYBOARD_BACKLIGHT_FILE :: string where
  "KEYBOARD_BACKLIGHT_FILE = ''/sys/class/leds/keyboard-backlight/brightness''"

definition RED_LED_FILE :: string where "RED_LED_FILE = ''/sys/class/leds/red/brightness''"
definition GREEN_LED_FILE :: string where "GREEN_LED_FILE = ''/sys/class/leds/green/brightness''"
definition BLUE_LED_FILE :: string where "BLUE_LED_FILE = ''/sys/class/leds/blue/brightness''"

definition LED_FILE_TRIGGER :: "string list" where
  "LED_FILE_TRIGGER = [''/sys/class/leds/red/trigger'', ''/sys/class/leds/green/trigger'',
     ''/sys/class/leds/blue/trigger'']"

definition LED_FILE_DELAYON :: "string list" where
  "LED_FILE_DELAYON = [''/sys/class/leds/red/delay_on'', ''/sys/class/leds/green/delay_on'',
     ''/sys/class/leds/blue/delay_on'']"

definition LED_FILE_DELAYOFF :: "string list" where
  "LED_FILE_DELAYOFF = [''/sys/class/leds/red/delay_off'', ''/sys/class/leds/green/delay_off'',
     ''/sys/class/leds/blue/delay_off'']"

definition LCD_BRIGHTNESS_MIN :: i32 where "LCD_BRIGHTNESS_MIN = 5"

text \<open>
  What the kernel answers to an attempt to write a text to a file: the file does not open, the write
  fails, or it takes so many characters. The answer may depend on all earlier attempts, so that every
  sequence of answers is possible.
\<close>

datatype io_result = OpenFails i32 | WriteFails i32 | Takes nat

type_synonym io_log = "(string \<times> string \<times> io_result) list"
type_synonym kernel = "io_log \<Rightarrow> string \<Rightarrow> string \<Rightarrow> io_result"

datatype set_light = Backlight | Keyboard | Buttons | Battery | Notifications

text \<open>
  The global variables, the devices that are open with the function of each, and the writes attempted so
  far, the oldest first.
\<close>

record lights_state =
  g_notification :: light_state_t
  g_battery :: light_state_t
  warned_int :: bool
  warned_string :: bool
  open_devs :: "(addr \<times> set_light) list"
  writes :: io_log

definition zero_light :: light_state_t where
  "zero_light = \<lparr>color = 0, flashMode = 0, flashOnMS = 0, flashOffMS = 0\<rparr>"

definition lights_init :: lights_state where
  "lights_init = \<lparr>g_notification = zero_light, g_battery = zero_light, warned_int = False,
     warned_string = False, open_devs = [], writes = []\<rparr>"

section \<open>Writing to files\<close>

text \<open>The size of \<open>buffer\<close>.\<close>

definition BUFFER_SIZE :: nat where "BUFFER_SIZE = 20"

definition write_file ::
  "kernel \<Rightarrow> (lights_state \<Rightarrow> lights_state) \<Rightarrow> string \<Rightarrow> string \<Rightarrow> lights_state \<Rightarrow> (i32 \<times> lights_state) result" where
  "write_file K warn path txt s = (case K (writes s) path txt of
       OpenFails errno \<Rightarrow> Inr (- errno, warn (s\<lparr>writes := writes s @ [(path, txt, OpenFails errno)]\<rparr>))
     | r \<Rightarrow> (case buffered BUFFER_SIZE txt of
           Inl f \<Rightarrow> Inl f
         | Inr buf \<Rightarrow> Inr (case r of WriteFails errno \<Rightarrow> - errno | _ \<Rightarrow> 0,
             s\<lparr>writes := writes s @ [(path, buf, r)]\<rparr>)))"

definition write_int :: "kernel \<Rightarrow> string \<Rightarrow> i32 \<Rightarrow> lights_state \<Rightarrow> (i32 \<times> lights_state) result" where
  "write_int K path v = write_file K (\<lambda>s. s\<lparr>warned_int := True\<rparr>) path (dec_text (sint v) @ [CHR 0x0A])"

definition write_string :: "kernel \<Rightarrow> string \<Rightarrow> string \<Rightarrow> lights_state \<Rightarrow> (i32 \<times> lights_state) result" where
  "write_string K path v = write_file K (\<lambda>s. s\<lparr>warned_string := True\<rparr>) path (v @ [CHR 0x0A])"

text \<open>Calls whose return value the code drops, one after the other.\<close>

primrec run_writes :: "(lights_state \<Rightarrow> (i32 \<times> lights_state) result) list \<Rightarrow> lights_state \<Rightarrow> lights_state result" where
  "run_writes [] s = Inr s"
| "run_writes (w # ws) s = (case w s of Inl f \<Rightarrow> Inl f | Inr (r, s') \<Rightarrow> run_writes ws s')"

section \<open>Colours\<close>

definition is_lit :: "light_state_t \<Rightarrow> bool" where
  "is_lit st \<longleftrightarrow> color st AND 0x00ffffff \<noteq> 0"

definition rgb_to_brightness :: "light_state_t \<Rightarrow> i32" where
  "rgb_to_brightness st =
     (let c = color st AND 0x00ffffff
      in signed_drop_bit 8 (77 * (signed_drop_bit 16 c AND 0x00ff)
           + 150 * (signed_drop_bit 8 c AND 0x00ff) + 29 * (c AND 0x00ff)))"

text \<open>
  Arithmetic on \<open>double\<close>: the exact result rounded to a representable number by \<open>fp_round\<close>; \<open>pow\<close> is that
  of the C library. Every \<open>int\<close> is representable. The conversion to \<open>int\<close> drops the fraction.
\<close>

record fp =
  fp_round :: "real \<Rightarrow> real"
  fp_pow :: "real \<Rightarrow> real \<Rightarrow> real"

definition int_of_double :: "real \<Rightarrow> i32" where
  "int_of_double x = word_of_int (if x < 0 then \<lceil>x\<rceil> else \<lfloor>x\<rfloor>)"

definition brightness_apply_gamma :: "fp \<Rightarrow> i32 \<Rightarrow> i32" where
  "brightness_apply_gamma F brightness =
     (let floatbrt = real_of_int (sint brightness);
          floatbrt = fp_round F (floatbrt / 255);
          floatbrt = fp_pow F floatbrt (fp_round F (22 / 10));
          floatbrt = fp_round F (floatbrt * 255);
          brightness = int_of_double floatbrt
      in if brightness <s LCD_BRIGHTNESS_MIN then LCD_BRIGHTNESS_MIN else brightness)"

section \<open>The lights\<close>

definition set_light_backlight ::
  "fp \<Rightarrow> kernel \<Rightarrow> light_state_t \<Rightarrow> lights_state \<Rightarrow> (i32 \<times> lights_state) result" where
  "set_light_backlight F K st s =
     (let brightness = rgb_to_brightness st;
          brightness = if 0 <s brightness then brightness_apply_gamma F brightness else brightness
      in write_int K LCD_BACKLIGHT_FILE brightness s)"

definition set_light_buttons ::
  "lights_build \<Rightarrow> kernel \<Rightarrow> light_state_t \<Rightarrow> lights_state \<Rightarrow> (i32 \<times> lights_state) result" where
  "set_light_buttons B K st s =
     (if HAVE_BUTTON_BACKLIGHT B then write_int K BUTTON_BACKLIGHT_FILE (rgb_to_brightness st) s
      else Inr (0, s))"

definition set_light_keyboard ::
  "lights_build \<Rightarrow> kernel \<Rightarrow> light_state_t \<Rightarrow> lights_state \<Rightarrow> (i32 \<times> lights_state) result" where
  "set_light_keyboard B K st s =
     (if HAVE_KEYBOARD_BACKLIGHT B then write_int K KEYBOARD_BACKLIGHT_FILE (rgb_to_brightness st) s
      else Inr (0, s))"

text \<open>
  \<open>set_shared_light_locked\<close> is called with the address of one of the two global variables, which it may
  change: a light that is to be on for one millisecond does not flash.
\<close>

datatype shared = NotificationLight | BatteryLight

fun shared_light :: "shared \<Rightarrow> lights_state \<Rightarrow> light_state_t" where
  "shared_light NotificationLight s = g_notification s"
| "shared_light BatteryLight s = g_battery s"

fun set_flash_none :: "lights_h \<Rightarrow> shared \<Rightarrow> lights_state \<Rightarrow> lights_state" where
  "set_flash_none H NotificationLight s =
     s\<lparr>g_notification := (g_notification s)\<lparr>flashMode := LIGHT_FLASH_NONE H\<rparr>\<rparr>"
| "set_flash_none H BatteryLight s = s\<lparr>g_battery := (g_battery s)\<lparr>flashMode := LIGHT_FLASH_NONE H\<rparr>\<rparr>"

definition set_shared_light_locked :: "lights_h \<Rightarrow> kernel \<Rightarrow> shared \<Rightarrow> lights_state \<Rightarrow> lights_state result" where
  "set_shared_light_locked H K p s =
     (let colorRGB = 0xFFFFFF AND color (shared_light p s);
          delayOn = flashOnMS (shared_light p s);
          delayOff = flashOffMS (shared_light p s);
          s = if delayOn = 1 then set_flash_none H p s else s;
          mode = flashMode (shared_light p s);
          triggers =
            if mode = LIGHT_FLASH_TIMED H \<or> mode = LIGHT_FLASH_HARDWARE H then
              concat (map (\<lambda>i. [write_string K (LED_FILE_TRIGGER ! i) ''timer'',
                write_int K (LED_FILE_DELAYON ! i) delayOn, write_int K (LED_FILE_DELAYOFF ! i) delayOff])
                [0..<length LED_FILE_TRIGGER])
            else if mode = LIGHT_FLASH_NONE H then
              map (\<lambda>i. write_string K (LED_FILE_TRIGGER ! i) ''none'') [0..<length LED_FILE_TRIGGER]
            else []
      in run_writes (triggers @ [write_int K RED_LED_FILE (drop_bit 16 colorRGB AND 0xFF),
           write_int K GREEN_LED_FILE (drop_bit 8 colorRGB AND 0xFF),
           write_int K BLUE_LED_FILE (colorRGB AND 0xFF)]) s)"

definition handle_shared_battery_locked :: "lights_h \<Rightarrow> kernel \<Rightarrow> lights_state \<Rightarrow> lights_state result" where
  "handle_shared_battery_locked H K s =
     (if is_lit (g_notification s) then set_shared_light_locked H K NotificationLight s
      else set_shared_light_locked H K BatteryLight s)"

definition set_light_battery ::
  "lights_h \<Rightarrow> kernel \<Rightarrow> light_state_t \<Rightarrow> lights_state \<Rightarrow> (i32 \<times> lights_state) result" where
  "set_light_battery H K st s =
     map_sum id (Pair 0) (handle_shared_battery_locked H K (s\<lparr>g_battery := st\<rparr>))"

definition set_light_notifications ::
  "lights_h \<Rightarrow> kernel \<Rightarrow> light_state_t \<Rightarrow> lights_state \<Rightarrow> (i32 \<times> lights_state) result" where
  "set_light_notifications H K st s =
     map_sum id (Pair 0) (handle_shared_battery_locked H K (s\<lparr>g_notification := st\<rparr>))"

section \<open>Devices\<close>

definition EINVAL :: i32 where "EINVAL = 22"

text \<open>\<open>block\<close> is what \<open>malloc\<close> returns, \<open>0\<close> when memory is exhausted.\<close>

definition open_lights ::
  "lights_h \<Rightarrow> string \<Rightarrow> addr \<Rightarrow> lights_state \<Rightarrow> (i32 \<times> addr option \<times> lights_state) result" where
  "open_lights H name block s =
     (let found = (\<lambda>f. if block = 0 then Inl NullDeref
                       else Inr (0, Some block, s\<lparr>open_devs := (block, f) # open_devs s\<rparr>))
      in if LIGHT_ID_BACKLIGHT H = name then found Backlight
         else if LIGHT_ID_KEYBOARD H = name then found Keyboard
         else if LIGHT_ID_BUTTONS H = name then found Buttons
         else if LIGHT_ID_BATTERY H = name then found Battery
         else if LIGHT_ID_NOTIFICATIONS H = name then found Notifications
         else Inr (- EINVAL, None, s))"

definition close_lights :: "addr \<Rightarrow> lights_state \<Rightarrow> (i32 \<times> lights_state) result" where
  "close_lights dev s =
     (if dev = 0 then Inr (0, s)
      else if map_of (open_devs s) dev = None then Inl UseAfterFree
      else Inr (0, s\<lparr>open_devs := filter (\<lambda>(a, f). a \<noteq> dev) (open_devs s)\<rparr>))"

text \<open>The call of \<open>dev->set_light\<close> by the framework.\<close>

fun call_set_light ::
  "lights_build \<Rightarrow> fp \<Rightarrow> lights_h \<Rightarrow> kernel \<Rightarrow> set_light \<Rightarrow> light_state_t \<Rightarrow> lights_state \<Rightarrow>
     (i32 \<times> lights_state) result" where
  "call_set_light B F H K Backlight st s = set_light_backlight F K st s"
| "call_set_light B F H K Keyboard st s = set_light_keyboard B K st s"
| "call_set_light B F H K Buttons st s = set_light_buttons B K st s"
| "call_set_light B F H K Battery st s = set_light_battery H K st s"
| "call_set_light B F H K Notifications st s = set_light_notifications H K st s"

section \<open>The module in use\<close>

text \<open>
  The framework opens and closes devices and sets the lights of open ones, from any of its threads;
  the kernel answers each write as it likes.
\<close>

datatype light_call = OpenDev string | CloseDev addr | SetLight set_light light_state_t

inductive lights_step ::
  "lights_build \<Rightarrow> fp \<Rightarrow> lights_h \<Rightarrow> kernel \<Rightarrow> lights_state \<Rightarrow> light_call \<Rightarrow> lights_state \<Rightarrow> bool"
  for B F H K where
  Open: "open_lights H name block s = Inr (r, dev, s') \<Longrightarrow> block \<notin> fst ` set (open_devs s) \<Longrightarrow>
    lights_step B F H K s (OpenDev name) s'"
| Close: "close_lights dev s = Inr (r, s') \<Longrightarrow> lights_step B F H K s (CloseDev dev) s'"
| Set: "map_of (open_devs s) dev = Some f \<Longrightarrow> call_set_light B F H K f st s = Inr (r, s') \<Longrightarrow>
    lights_step B F H K s (SetLight f st) s'"

text \<open>The calls of the framework so far, and the state after them.\<close>

inductive lights_run :: "lights_build \<Rightarrow> fp \<Rightarrow> lights_h \<Rightarrow> kernel \<Rightarrow> light_call list \<Rightarrow> lights_state \<Rightarrow> bool"
  for B F H K where
  Run_Nil: "lights_run B F H K [] lights_init"
| Run_Snoc: "lights_run B F H K cs s \<Longrightarrow> lights_step B F H K s c s' \<Longrightarrow> lights_run B F H K (cs @ [c]) s'"

text \<open>The last text the kernel has taken for a file.\<close>

definition file_text :: "io_log \<Rightarrow> string \<Rightarrow> string option" where
  "file_text ws path = foldl (\<lambda>c (p, t, r). if p = path then (case r of Takes n \<Rightarrow> Some (take n t) | _ \<Rightarrow> c) else c)
     None ws"

end
