(* ===== verification/Lights_Props.thy ===== *)
theory Lights_Props
  imports Lights
begin

text \<open>
  Properties of the lights module: the range of the brightness and of the gamma correction under the
  laws of \<open>double\<close> arithmetic, that no operation runs off its buffer, and that the LEDs show the
  notification or the battery, whichever the module has to show.
\<close>

section \<open>Colours\<close>

text \<open>The components of a colour and its weighted sum, as numbers.\<close>

definition red :: "light_state_t \<Rightarrow> int" where
  "red st = uint (color st) div 2 ^ 16 mod 256"

definition green :: "light_state_t \<Rightarrow> int" where
  "green st = uint (color st) div 2 ^ 8 mod 256"

definition blue :: "light_state_t \<Rightarrow> int" where
  "blue st = uint (color st) mod 256"

definition luma :: "light_state_t \<Rightarrow> int" where
  "luma st = 77 * red st + 150 * green st + 29 * blue st"

lemmas component_defs = red_def green_def blue_def

lemma component_range:
  "0 \<le> red st" "red st \<le> 255" "0 \<le> green st" "green st \<le> 255" "0 \<le> blue st" "blue st \<le> 255"
  by (simp_all add: component_defs)

lemma luma_range: "0 \<le> luma st" "luma st \<le> 65280"
  using component_range[of st] by (simp_all add: luma_def)

lemma signed_drop_bit_nonneg: "\<not> bit w 31 \<Longrightarrow> signed_drop_bit n (w :: i32) = drop_bit n w"
  by (rule bit_word_eqI) (auto simp: bit_signed_drop_bit_iff bit_drop_bit_eq not_le dest: bit_imp_le_length)

lemma mask_byte: "(w :: i32) AND 255 = take_bit 8 w" "(255 :: i32) AND w = take_bit 8 w"
  by (simp_all add: take_bit_eq_mask mask_eq_exp_minus_1 and.commute)

lemma mask_rgb: "(w :: i32) AND 16777215 = take_bit 24 w" "(16777215 :: i32) AND w = take_bit 24 w"
  by (simp_all add: take_bit_eq_mask mask_eq_exp_minus_1 and.commute)

lemma byte_of_rgb: "n \<le> 16 \<Longrightarrow> take_bit 8 (drop_bit n (take_bit 24 (w :: i32))) = take_bit 8 (drop_bit n w)"
  by (rule bit_word_eqI) (auto simp: bit_simps)

lemma uint_byte: "uint (take_bit 8 (drop_bit n (w :: i32))) = uint w div 2 ^ n mod 256"
proof -
  have "uint (take_bit 8 (drop_bit n w)) = take_bit 8 (drop_bit n (take_bit 32 (uint w)))"
    by (simp only: unsigned_take_bit_eq unsigned_drop_bit_eq) simp
  also have "take_bit 32 (uint w) = uint w" using uint_lt2p[of w] by (simp add: take_bit_int_eq_self)
  finally show ?thesis by (simp add: take_bit_eq_mod drop_bit_eq_div)
qed

lemma sint_small: "uint (w :: i32) < 2 ^ 31 \<Longrightarrow> sint w = uint w"
  by (simp add: sint_uint signed_take_bit_int_eq_self_iff) (use uint_ge_0[of w] in linarith)

lemma uint_small: "0 \<le> i \<Longrightarrow> i < 2 ^ 32 \<Longrightarrow> uint (word_of_int i :: i32) = i"
  by (simp add: uint_word_of_int)

lemma bytes_of_color:
  "take_bit 8 (drop_bit 16 (color st)) = word_of_int (red st)"
  "take_bit 8 (drop_bit 8 (color st)) = word_of_int (green st)"
  "take_bit 8 (color st) = word_of_int (blue st)"
  using uint_byte[of 16 "color st"] uint_byte[of 8 "color st"] uint_byte[of 0 "color st"]
  by (simp_all add: component_defs flip: word_uint_eq_iff) (metis word_of_int_uint)+

lemma rgb_clear: "\<not> bit (take_bit 24 (w :: i32)) 31"
  by (simp add: bit_simps)

lemma rgb_value: "rgb_to_brightness st = word_of_int (luma st div 256)"
proof -
  have c: "take_bit 8 (take_bit 24 (color st)) = take_bit 8 (color st)"
    using byte_of_rgb[of 0 "color st"] by simp
  let ?w = "word_of_int (luma st) :: i32"
  have w: "77 * word_of_int (red st) + 150 * word_of_int (green st) + 29 * word_of_int (blue st) = ?w"
    by (simp add: luma_def)
  have u: "uint ?w = luma st" using luma_range[of st] by (intro uint_small) auto
  have "uint ?w div 2 ^ 31 = 0" using u luma_range[of st] by simp
  then have n: "\<not> bit ?w 31" using bit_uint_iff[of ?w 31] by (simp add: bit_iff_odd del: uint_word_of_int)
  have "rgb_to_brightness st = drop_bit 8 ?w"
    unfolding rgb_to_brightness_def Let_def mask_rgb mask_byte signed_drop_bit_nonneg[OF rgb_clear]
    using signed_drop_bit_nonneg[OF n] by (simp add: byte_of_rgb c bytes_of_color w)
  also have "\<dots> = word_of_int (luma st div 256)"
    using u luma_range[of st] uint_small[of "luma st div 256"]
    by (simp add: word_uint_eq_iff drop_bit_eq_div uint_div_distrib)
  finally show ?thesis .
qed

text \<open>The brightness of a colour is at most 255, and 0 only for colours whose weighted sum is below 256.\<close>

lemma sint_rgb: "sint (rgb_to_brightness st) = luma st div 256" "0 \<le> luma st div 256" "luma st div 256 \<le> 255"
proof -
  show r: "0 \<le> luma st div 256" "luma st div 256 \<le> 255" using luma_range[of st] by simp_all
  show "sint (rgb_to_brightness st) = luma st div 256"
    using r uint_small[of "luma st div 256"] by (simp add: rgb_value sint_small)
qed

section \<open>Gamma correction\<close>

text \<open>
  What the code relies on of \<open>double\<close>: rounding is monotone and leaves representable whole numbers alone, and
  \<open>pow\<close> keeps the unit interval and is monotone on it.
\<close>

locale double_arith =
  fixes F :: fp
  assumes round_mono: "0 \<le> x \<Longrightarrow> x \<le> y \<Longrightarrow> fp_round F x \<le> fp_round F y"
    and round_int: "0 \<le> i \<Longrightarrow> i < 2 ^ 53 \<Longrightarrow> fp_round F (of_int i) = of_int i"
    and pow_unit: "0 \<le> x \<Longrightarrow> x \<le> 1 \<Longrightarrow> 0 < y \<Longrightarrow> 0 \<le> fp_pow F x y \<and> fp_pow F x y \<le> 1"
    and pow_mono: "0 \<le> x \<Longrightarrow> x \<le> x' \<Longrightarrow> x' \<le> 1 \<Longrightarrow> 0 < y \<Longrightarrow> fp_pow F x y \<le> fp_pow F x' y"
begin

text \<open>The steps of the correction as one function on numbers.\<close>

definition corrected :: "int \<Rightarrow> real" where
  "corrected b = fp_round F (fp_pow F (fp_round F (of_int b / 255)) (fp_round F (22 / 10)) * 255)"

lemma exponent_pos: "0 < fp_round F (22 / 10)"
  using round_mono[of 2 "22 / 10"] round_int[of 2] by simp

lemma ratio_unit:
  assumes "0 \<le> b" "b \<le> 255"
  shows "0 \<le> fp_round F (of_int b / 255)" "fp_round F (of_int b / 255) \<le> 1"
  using assms round_mono[of 0 "of_int b / 255"] round_mono[of "of_int b / 255" 1]
    round_int[of 0] round_int[of 1] by simp_all

lemma corrected_range:
  assumes "0 \<le> b" "b \<le> 255"
  shows "0 \<le> corrected b" "corrected b \<le> 255"
proof -
  let ?p = "fp_pow F (fp_round F (of_int b / 255)) (fp_round F (22 / 10))"
  have "0 \<le> ?p" "?p \<le> 1" using pow_unit[OF ratio_unit[OF assms] exponent_pos] by simp_all
  then show "0 \<le> corrected b" "corrected b \<le> 255"
    using round_mono[of 0 "?p * 255"] round_mono[of "?p * 255" 255] round_int[of 0] round_int[of 255]
    by (simp_all add: corrected_def)
qed

lemma corrected_mono:
  assumes "0 \<le> b" "b \<le> b'" "b' \<le> 255"
  shows "corrected b \<le> corrected b'"
proof -
  have b: "0 \<le> b'" "b \<le> 255" using assms by simp_all
  have "fp_round F (of_int b / 255) \<le> fp_round F (of_int b' / 255)"
    using assms by (intro round_mono) (simp_all add: divide_right_mono)
  then show ?thesis unfolding corrected_def
    using pow_mono[OF ratio_unit(1)[OF assms(1) b(2)] _ ratio_unit(2)[OF b(1) assms(3)] exponent_pos]
      pow_unit[OF ratio_unit[OF assms(1) b(2)] exponent_pos]
    by (intro round_mono) simp_all
qed

lemma gamma_value:
  assumes "0 \<le> b" "b \<le> 255"
  shows "sint (brightness_apply_gamma F (word_of_int b)) = max 5 \<lfloor>corrected b\<rfloor>"
proof -
  have f: "0 \<le> \<lfloor>corrected b\<rfloor>" "\<lfloor>corrected b\<rfloor> \<le> 255"
    using corrected_range[OF assms] by linarith+
  have s: "0 \<le> i \<Longrightarrow> i \<le> 255 \<Longrightarrow> sint (word_of_int i :: i32) = i" for i
    using uint_small[of i] by (simp add: sint_small)
  have "brightness_apply_gamma F (word_of_int b) =
      (if word_of_int \<lfloor>corrected b\<rfloor> <s LCD_BRIGHTNESS_MIN then LCD_BRIGHTNESS_MIN else word_of_int \<lfloor>corrected b\<rfloor>)"
    using corrected_range[OF assms] s[OF assms]
    by (simp add: brightness_apply_gamma_def Let_def corrected_def int_of_double_def)
  then show ?thesis using f s[OF f] by (simp add: word_sless_alt LCD_BRIGHTNESS_MIN_def)
qed

end

text \<open>
  The arithmetic of the processor, for numbers that are not negative: the nearest number with 53
  significant bits (the range of the exponent is not limited, the values here are far from its ends), and \<open>pow\<close>
  rounded the same way.
\<close>

definition ulp :: "real \<Rightarrow> real" where
  "ulp x = 2 powr of_int (\<lfloor>log 2 x\<rfloor> - 52)"

definition ieee_round :: "real \<Rightarrow> real" where
  "ieee_round x = (if x = 0 then 0 else of_int (round (x / ulp x)) * ulp x)"

definition ieee :: fp where
  "ieee = \<lparr>fp_round = ieee_round, fp_pow = (\<lambda>x y. ieee_round (x powr y))\<rparr>"

lemma ulp_pos: "0 < ulp x"
  by (simp add: ulp_def)

lemma ulp_bounds:
  assumes "0 < x"
  shows "2 ^ 52 * ulp x \<le> x" "x \<le> 2 ^ 53 * ulp x"
proof -
  let ?k = "\<lfloor>log 2 x\<rfloor>"
  have "2 powr of_int ?k \<le> x" using assms by (simp add: powr_le_iff)
  moreover have "x \<le> 2 powr (of_int ?k + 1)"
    using assms by (simp add: le_powr_iff)
  moreover have "2 powr of_int ?k = 2 ^ 52 * ulp x" "2 powr (of_int ?k + 1) = 2 ^ 53 * ulp x"
    unfolding ulp_def by (simp_all add: powr_diff powr_add flip: powr_realpow)
  ultimately show "2 ^ 52 * ulp x \<le> x" "x \<le> 2 ^ 53 * ulp x" by simp_all
qed

lemma ieee_bounds:
  assumes "0 < x"
  shows "2 ^ 52 * ulp x \<le> ieee_round x" "ieee_round x \<le> 2 ^ 53 * ulp x"
proof -
  have "2 ^ 52 \<le> x / ulp x" "x / ulp x \<le> 2 ^ 53"
    using ulp_bounds[OF assms] ulp_pos[of x] by (simp_all add: field_simps)
  then have "round (2 ^ 52 :: real) \<le> round (x / ulp x)" "round (x / ulp x) \<le> round (2 ^ 53 :: real)"
    by (simp_all only: round_mono)
  moreover have "round (2 ^ 52 :: real) = 2 ^ 52" "round (2 ^ 53 :: real) = 2 ^ 53"
    using round_of_int[of "2 ^ 52", where 'a = real] round_of_int[of "2 ^ 53", where 'a = real] by simp_all
  ultimately have "(2 ^ 52 :: real) \<le> of_int (round (x / ulp x))" "of_int (round (x / ulp x)) \<le> (2 ^ 53 :: real)"
    by simp_all
  then show "2 ^ 52 * ulp x \<le> ieee_round x" "ieee_round x \<le> 2 ^ 53 * ulp x"
    using assms ulp_pos[of x] by (simp_all add: ieee_round_def)
qed

lemma ieee_round_nonneg: "0 \<le> x \<Longrightarrow> 0 \<le> ieee_round x"
proof (cases "x = 0")
  case False
  assume "0 \<le> x"
  then have "0 < x" using False by simp
  then show ?thesis using ieee_bounds(1)[of x] ulp_pos[of x] by (smt (verit) zero_less_power mult_pos_pos)
qed (simp add: ieee_round_def)

lemma ieee_round_mono:
  assumes "0 \<le> x" "x \<le> y"
  shows "ieee_round x \<le> ieee_round y"
proof (cases "x = 0")
  case True then show ?thesis using ieee_round_nonneg[of y] assms by (simp add: ieee_round_def)
next
  case False
  then have p: "0 < x" "0 < y" using assms by simp_all
  have l: "\<lfloor>log 2 x\<rfloor> \<le> \<lfloor>log 2 y\<rfloor>" using assms p by (intro floor_mono) simp
  show ?thesis
  proof (cases "\<lfloor>log 2 x\<rfloor> = \<lfloor>log 2 y\<rfloor>")
    case True
    then have u: "ulp y = ulp x" by (simp add: ulp_def)
    have "round (x / ulp x) \<le> round (y / ulp x)"
      using assms ulp_pos[of x] by (intro round_mono) (simp add: divide_right_mono)
    then show ?thesis using p ulp_pos[of x] by (simp add: ieee_round_def u)
  next
    case False
    have "ieee_round x \<le> 2 ^ 53 * ulp x" by (rule ieee_bounds(2)[OF p(1)])
    also have "\<dots> = 2 powr of_int (\<lfloor>log 2 x\<rfloor> + 1)"
      by (simp add: ulp_def powr_diff powr_add flip: powr_realpow)
    also have "\<dots> \<le> 2 powr of_int \<lfloor>log 2 y\<rfloor>" using False l by simp
    also have "\<dots> = 2 ^ 52 * ulp y" by (simp add: ulp_def powr_diff flip: powr_realpow)
    also have "\<dots> \<le> ieee_round y" by (rule ieee_bounds(1)[OF p(2)])
    finally show ?thesis .
  qed
qed

lemma ieee_round_int:
  assumes "0 \<le> i" "i < 2 ^ 53"
  shows "ieee_round (of_int i) = of_int i"
proof (cases "i = 0")
  case False
  let ?k = "\<lfloor>log 2 (of_int i)\<rfloor>"
  have p: "0 < real_of_int i" using assms False by simp
  have "real_of_int i < 2 ^ 53" using assms(2) by simp
  then have "log 2 (of_int i) < log 2 (2 ^ 53)" using p by simp
  also have "log 2 (2 ^ 53 :: real) = 53" using log_pow_cancel[of 2 53] by simp
  finally have k: "?k \<le> 52" by linarith
  have "ulp (of_int i) * 2 ^ nat (52 - ?k) = 1"
    using k by (simp add: ulp_def flip: powr_realpow powr_add)
  then have u: "x / ulp (of_int i) = x * 2 ^ nat (52 - ?k)" for x
    using ulp_pos[of "of_int i"] by (simp add: field_simps)
  have "round (of_int i / ulp (of_int i)) = i * 2 ^ nat (52 - ?k)"
    unfolding u using round_of_int[of "i * 2 ^ nat (52 - ?k)", where 'a = real] by simp
  then show ?thesis using u[of 1] p ulp_pos[of "of_int i"] by (simp add: ieee_round_def field_simps)
qed (simp add: ieee_round_def)

interpretation double: double_arith ieee
proof
  show "fp_round ieee x \<le> fp_round ieee y" if "0 \<le> x" "x \<le> y" for x y
    using that by (simp add: ieee_def ieee_round_mono)
  show "fp_round ieee (of_int i) = of_int i" if "0 \<le> i" "i < 2 ^ 53" for i
    using that by (simp add: ieee_def ieee_round_int)
  show "0 \<le> fp_pow ieee x y \<and> fp_pow ieee x y \<le> 1" if "0 \<le> x" "x \<le> 1" "0 < y" for x y
    using that ieee_round_nonneg[of "x powr y"] ieee_round_mono[of "x powr y" 1] ieee_round_int[of 1]
    by (simp add: ieee_def powr_le1)
  show "fp_pow ieee x y \<le> fp_pow ieee x' y" if "0 \<le> x" "x \<le> x'" "x' \<le> 1" "0 < y" for x x' y
    using that by (simp add: ieee_def powr_mono2 ieee_round_mono)
qed

context double_arith
begin

lemma backlight_value:
  "\<exists>v. set_light_backlight F K st s = write_int K LCD_BACKLIGHT_FILE v s \<and>
    sint v = (if luma st < 256 then 0 else max 5 \<lfloor>corrected (luma st div 256)\<rfloor>)"
proof -
  have p: "0 <s rgb_to_brightness st \<longleftrightarrow> \<not> luma st < 256"
    using sint_rgb[of st] by (auto simp: word_sless_alt)
  have "sint (brightness_apply_gamma F (rgb_to_brightness st)) = max 5 \<lfloor>corrected (luma st div 256)\<rfloor>"
    using gamma_value sint_rgb[of st] by (simp add: rgb_value)
  then show ?thesis using p sint_rgb(1)[of st] luma_range(1)[of st]
    by (auto simp: set_light_backlight_def Let_def)
qed

end

text \<open>
  C17 The backlight: the level that is written is 0 for a colour whose weighted sum is below 256 and
  between 5 and 255 for every other, and a brighter colour never gives a lower level.
\<close>

theorem backlight_levels:
  assumes "double_arith F" "luma st \<le> luma st'"
  shows "\<exists>v v'. set_light_backlight F K st s = write_int K LCD_BACKLIGHT_FILE v s \<and>
    set_light_backlight F K st' s = write_int K LCD_BACKLIGHT_FILE v' s \<and>
    sint v \<le> sint v' \<and> sint v' \<le> 255 \<and> (luma st < 256 \<and> v = 0 \<or> 256 \<le> luma st \<and> 5 \<le> sint v)"
proof -
  note level = double_arith.backlight_value[OF assms(1)]
  note range = double_arith.corrected_range[OF assms(1)]
  obtain v v' where v: "set_light_backlight F K st s = write_int K LCD_BACKLIGHT_FILE v s"
      "sint v = (if luma st < 256 then 0 else max 5 \<lfloor>double_arith.corrected F (luma st div 256)\<rfloor>)"
    and v': "set_light_backlight F K st' s = write_int K LCD_BACKLIGHT_FILE v' s"
      "sint v' = (if luma st' < 256 then 0 else max 5 \<lfloor>double_arith.corrected F (luma st' div 256)\<rfloor>)"
    using level[of K st s] level[of K st' s] by blast
  have d: "0 \<le> luma st div 256" "luma st div 256 \<le> luma st' div 256" "luma st' div 256 \<le> 255" "0 \<le> luma st' div 256"
    using sint_rgb(2,3) assms(2) by (simp_all add: zdiv_mono1)
  have m: "\<lfloor>double_arith.corrected F (luma st div 256)\<rfloor> \<le> \<lfloor>double_arith.corrected F (luma st' div 256)\<rfloor>"
    using double_arith.corrected_mono[OF assms(1) d(1-3)] by (rule floor_mono)
  have u: "\<lfloor>double_arith.corrected F (luma st' div 256)\<rfloor> \<le> 255" using range(2)[OF d(4,3)] by linarith
  have z: "luma st < 256 \<and> v = 0 \<or> 256 \<le> luma st \<and> 5 \<le> sint v"
    using v(2) by (simp add: signed_eq_0_iff split: if_splits)
  define a b where "a = \<lfloor>double_arith.corrected F (luma st div 256)\<rfloor>"
    and "b = \<lfloor>double_arith.corrected F (luma st' div 256)\<rfloor>"
  have "sint v \<le> sint v'" "sint v' \<le> 255"
    using v(2) v'(2) m u assms(2) by (auto simp flip: a_def b_def)
  then show ?thesis using v(1) v'(1) z by blast
qed

theorem backlight_levels_witness:
  "\<exists>v v'. set_light_backlight ieee (\<lambda>ws p t. Takes (length t)) (zero_light\<lparr>color := 0x101010\<rparr>) lights_init =
      write_int (\<lambda>ws p t. Takes (length t)) LCD_BACKLIGHT_FILE v lights_init \<and>
    set_light_backlight ieee (\<lambda>ws p t. Takes (length t)) (zero_light\<lparr>color := 0xFFFFFFFF\<rparr>) lights_init =
      write_int (\<lambda>ws p t. Takes (length t)) LCD_BACKLIGHT_FILE v' lights_init \<and>
    sint v \<le> sint v' \<and> sint v' \<le> 255 \<and> 5 \<le> sint v"
proof -
  have l: "luma (zero_light\<lparr>color := 0x101010\<rparr>) = 4096" "luma (zero_light\<lparr>color := 0xFFFFFFFF\<rparr>) = 65280"
    by (simp_all add: luma_def component_defs zero_light_def)
  show ?thesis
    using backlight_levels[OF double.double_arith_axioms, of "zero_light\<lparr>color := 0x101010\<rparr>"
      "zero_light\<lparr>color := 0xFFFFFFFF\<rparr>"] unfolding l by auto
qed

section \<open>Writes\<close>

text \<open>The log after attempts to write texts to files, in order.\<close>

primrec attempted :: "kernel \<Rightarrow> io_log \<Rightarrow> (string \<times> string) list \<Rightarrow> io_log" where
  "attempted K ws [] = ws"
| "attempted K ws (pt # pts) = attempted K (ws @ [(fst pt, snd pt, K ws (fst pt) (snd pt))]) pts"

text \<open>A call that attempts one write and changes nothing else of the state but the flags for messages.\<close>

definition quiet :: "lights_state \<Rightarrow> lights_state \<Rightarrow> bool" where
  "quiet s s' \<longleftrightarrow> g_notification s' = g_notification s \<and> g_battery s' = g_battery s \<and> open_devs s' = open_devs s"

definition one_write :: "kernel \<Rightarrow> (lights_state \<Rightarrow> (i32 \<times> lights_state) result) \<Rightarrow> string \<times> string \<Rightarrow> bool" where
  "one_write K w pt \<longleftrightarrow> (\<forall>s. \<exists>r s'. w s = Inr (r, s') \<and> quiet s s' \<and> writes s' = attempted K (writes s) [pt])"

lemma write_file_ok:
  assumes "length txt < BUFFER_SIZE" "\<And>s. quiet s (warn s) \<and> writes (warn s) = writes s"
  shows "one_write K (write_file K warn path txt) (path, txt)"
proof -
  note b = buffered_short[OF assms(1)]
  show ?thesis unfolding one_write_def
  proof
    fix s
    show "\<exists>r s'. write_file K warn path txt s = Inr (r, s') \<and> quiet s s' \<and> writes s' = attempted K (writes s) [(path, txt)]"
      using assms(2)[of "s\<lparr>writes := writes s @ [(path, txt, K (writes s) path txt)]\<rparr>"]
      by (cases "K (writes s) path txt") (auto simp: write_file_def b quiet_def)
  qed
qed

lemma write_int_ok: "one_write K (write_int K path v) (path, dec_text (sint v) @ [CHR 0x0A])"
  unfolding write_int_def using dec_text_length[of v]
  by (intro write_file_ok) (simp_all add: BUFFER_SIZE_def quiet_def)

lemma write_string_ok: "length v < 19 \<Longrightarrow> one_write K (write_string K path v) (path, v @ [CHR 0x0A])"
  unfolding write_string_def by (intro write_file_ok) (simp_all add: BUFFER_SIZE_def quiet_def)

lemma run_writes_ok:
  "list_all2 (one_write K) ws pts \<Longrightarrow> \<exists>s'. run_writes ws s = Inr s' \<and> quiet s s' \<and> writes s' = attempted K (writes s) pts"
proof (induction arbitrary: s rule: list_all2_induct)
  case (Cons w ws pt pts)
  obtain r s1 where 1: "w s = Inr (r, s1)" "quiet s s1" "writes s1 = attempted K (writes s) [pt]"
    using Cons(1) unfolding one_write_def by blast
  obtain s2 where "run_writes ws s1 = Inr s2" "quiet s1 s2" "writes s2 = attempted K (writes s1) pts"
    using Cons(3) by blast
  then show ?case using 1 by (auto simp: quiet_def)
qed (simp add: quiet_def)

section \<open>The shared LED\<close>

text \<open>
  What the LEDs have to show: the notification if it is lit, and the battery otherwise. A light
  flashes when its mode says so, unless it is to be on for one millisecond.
\<close>

definition effective :: "lights_state \<Rightarrow> light_state_t" where
  "effective s = (if is_lit (g_notification s) then g_notification s else g_battery s)"

definition flashing :: "lights_h \<Rightarrow> light_state_t \<Rightarrow> bool" where
  "flashing H st \<longleftrightarrow> flashOnMS st \<noteq> 1 \<and> flashMode st \<in> {LIGHT_FLASH_TIMED H, LIGHT_FLASH_HARDWARE H}"

definition steady :: "lights_h \<Rightarrow> light_state_t \<Rightarrow> bool" where
  "steady H st \<longleftrightarrow> flashOnMS st = 1 \<or> flashMode st = LIGHT_FLASH_NONE H"

definition line :: "string \<Rightarrow> string" where "line t = t @ [CHR 0x0A]"

definition color_writes :: "light_state_t \<Rightarrow> (string \<times> string) list" where
  "color_writes st = [(RED_LED_FILE, line (dec_text (red st))), (GREEN_LED_FILE, line (dec_text (green st))),
     (BLUE_LED_FILE, line (dec_text (blue st)))]"

definition led_writes :: "lights_h \<Rightarrow> light_state_t \<Rightarrow> (string \<times> string) list" where
  "led_writes H st =
     (if flashing H st then
        concat (map (\<lambda>i. [(LED_FILE_TRIGGER ! i, line ''timer''),
          (LED_FILE_DELAYON ! i, line (dec_text (sint (flashOnMS st)))),
          (LED_FILE_DELAYOFF ! i, line (dec_text (sint (flashOffMS st))))]) [0, 1, 2])
      else if steady H st then map (\<lambda>p. (p, line ''none'')) LED_FILE_TRIGGER else []) @ color_writes st"

lemma component_texts:
  "dec_text (sint (drop_bit 16 (0xFFFFFF AND color st) AND 0xFF)) = dec_text (red st)"
  "dec_text (sint (drop_bit 8 (0xFFFFFF AND color st) AND 0xFF)) = dec_text (green st)"
  "dec_text (sint ((0xFFFFFF AND color st) AND 0xFF)) = dec_text (blue st)"
proof -
  have s: "sint (word_of_int i :: i32) = i" if "0 \<le> i" "i \<le> 255" for i
    using that uint_small[of i] by (simp add: sint_small)
  have b: "take_bit 8 (take_bit 24 (color st)) = take_bit 8 (color st)" using byte_of_rgb[of 0 "color st"] by simp
  show "dec_text (sint (drop_bit 16 (0xFFFFFF AND color st) AND 0xFF)) = dec_text (red st)"
    "dec_text (sint (drop_bit 8 (0xFFFFFF AND color st) AND 0xFF)) = dec_text (green st)"
    "dec_text (sint ((0xFFFFFF AND color st) AND 0xFF)) = dec_text (blue st)"
    unfolding mask_rgb mask_byte using component_range[of st] s
    by (simp_all only: byte_of_rgb b bytes_of_color order_refl)
qed

definition settled :: "lights_h \<Rightarrow> shared \<Rightarrow> lights_state \<Rightarrow> lights_state" where
  "settled H p s = (if flashOnMS (shared_light p s) = 1 then set_flash_none H p s else s)"

lemma settled_light:
  "color (shared_light p (settled H p s)) = color (shared_light p s)"
  "flashOnMS (shared_light p (settled H p s)) = flashOnMS (shared_light p s)"
  "flashOffMS (shared_light p (settled H p s)) = flashOffMS (shared_light p s)"
  "writes (settled H p s) = writes s"
  by (cases p; simp add: settled_def)+

lemma set_shared_ok:
  fixes p :: shared and s :: lights_state
  defines "st \<equiv> shared_light p s"
  assumes "LIGHT_FLASH_NONE H \<notin> {LIGHT_FLASH_TIMED H, LIGHT_FLASH_HARDWARE H}"
  shows "\<exists>s'. set_shared_light_locked H K p s = Inr s' \<and> quiet (settled H p s) s' \<and>
    writes s' = attempted K (writes s) (led_writes H st)"
proof -
  let ?s = "settled H p s"
  let ?c = "0xFFFFFF AND color st"
  let ?colors = "[write_int K RED_LED_FILE (drop_bit 16 ?c AND 0xFF),
    write_int K GREEN_LED_FILE (drop_bit 8 ?c AND 0xFF), write_int K BLUE_LED_FILE (?c AND 0xFF)]"
  let ?flash = "concat (map (\<lambda>i. [write_string K (LED_FILE_TRIGGER ! i) ''timer'',
    write_int K (LED_FILE_DELAYON ! i) (flashOnMS st), write_int K (LED_FILE_DELAYOFF ! i) (flashOffMS st)]) [0, 1, 2])"
  let ?none = "map (\<lambda>p. write_string K p ''none'') LED_FILE_TRIGGER"
  have m: "flashMode (shared_light p ?s) = (if flashOnMS st = 1 then LIGHT_FLASH_NONE H else flashMode st)"
    by (cases p) (simp_all add: settled_def st_def)
  have l: "length LED_FILE_TRIGGER = 3" "[0..<3] = [0, 1, 2]" by (simp_all add: LED_FILE_TRIGGER_def upt_rec)
  have n: "map (\<lambda>i. write_string K (LED_FILE_TRIGGER ! i) ''none'') [0, 1, 2] = ?none"
    by (simp add: LED_FILE_TRIGGER_def)
  have run: "set_shared_light_locked H K p s =
    run_writes ((if flashing H st then ?flash else if steady H st then ?none else []) @ ?colors) ?s"
    using assms(2) m unfolding set_shared_light_locked_def Let_def settled_def[symmetric] l n
    by (auto simp: flashing_def steady_def st_def[symmetric])
  have c: "list_all2 (one_write K) ?colors (color_writes st)"
    using write_int_ok[of K RED_LED_FILE "drop_bit 16 ?c AND 0xFF"]
      write_int_ok[of K GREEN_LED_FILE "drop_bit 8 ?c AND 0xFF"] write_int_ok[of K BLUE_LED_FILE "?c AND 0xFF"]
    by (simp only: color_writes_def line_def component_texts list_all2_Cons list_all2_Nil simp_thms)
  have f: "list_all2 (one_write K) ?flash (concat (map (\<lambda>i. [(LED_FILE_TRIGGER ! i, line ''timer''),
      (LED_FILE_DELAYON ! i, line (dec_text (sint (flashOnMS st)))),
      (LED_FILE_DELAYOFF ! i, line (dec_text (sint (flashOffMS st))))]) [0, 1, 2]))"
    using write_int_ok[of K _ "flashOnMS st"] write_int_ok[of K _ "flashOffMS st"] write_string_ok[of "''timer''" K]
    by (simp add: line_def)
  have t: "list_all2 (one_write K) ?none (map (\<lambda>p. (p, line ''none'')) LED_FILE_TRIGGER)"
    using write_string_ok[of "''none''" K] by (simp add: LED_FILE_TRIGGER_def line_def)
  have "list_all2 (one_write K) ((if flashing H st then ?flash else if steady H st then ?none else []) @ ?colors)
      (led_writes H st)"
    unfolding led_writes_def using f t by (intro list_all2_appendI c) (simp split: if_split)
  from run_writes_ok[OF this, of ?s] show ?thesis by (simp only: run settled_light)
qed

lemma settled_effective:
  assumes "p = (if is_lit (g_notification s) then NotificationLight else BatteryLight)"
  shows "shared_light p s = effective s"
    "effective (settled H p s) = (if flashOnMS (effective s) = 1
       then (effective s)\<lparr>flashMode := LIGHT_FLASH_NONE H\<rparr> else effective s)"
  using assms by (auto simp: effective_def settled_def is_lit_def)

lemma settled_writes: "led_writes H (if flashOnMS st = 1 then st\<lparr>flashMode := LIGHT_FLASH_NONE H\<rparr> else st) = led_writes H st"
  by (simp add: led_writes_def flashing_def steady_def color_writes_def component_defs)

lemma handle_shared_ok:
  assumes "LIGHT_FLASH_NONE H \<notin> {LIGHT_FLASH_TIMED H, LIGHT_FLASH_HARDWARE H}"
  defines "p \<equiv> \<lambda>s. if is_lit (g_notification s) then NotificationLight else BatteryLight"
  shows "\<exists>s'. handle_shared_battery_locked H K s = Inr s' \<and> quiet (settled H (p s) s) s' \<and>
    writes s' = attempted K (writes s) (led_writes H (effective s'))"
proof -
  let ?p = "p s"
  obtain s' where s': "set_shared_light_locked H K ?p s = Inr s'" "quiet (settled H ?p s) s'"
      "writes s' = attempted K (writes s) (led_writes H (shared_light ?p s))"
    using set_shared_ok[OF assms(1), of K ?p s] by blast
  have "effective s' = effective (settled H ?p s)" using s'(2) by (simp add: quiet_def effective_def)
  then have "led_writes H (effective s') = led_writes H (shared_light ?p s)"
    using settled_effective(1)[of ?p s] settled_effective(2)[of ?p s H] by (simp add: settled_writes p_def)
  then show ?thesis using s' by (auto simp: handle_shared_battery_locked_def p_def split: if_splits)
qed

text \<open>
  The global variables hold what the framework has asked for last, except that the mode of a light that is to be on for
  one millisecond may have been set to \<open>LIGHT_FLASH_NONE\<close>.
\<close>

definition same_light :: "lights_h \<Rightarrow> light_state_t \<Rightarrow> light_state_t \<Rightarrow> bool" where
  "same_light H g st \<longleftrightarrow> g = st \<or> flashOnMS st = 1 \<and> g = st\<lparr>flashMode := LIGHT_FLASH_NONE H\<rparr>"

lemma same_light_refl [simp]: "same_light H st st"
  by (simp add: same_light_def)

lemma same_light_lit: "same_light H g st \<Longrightarrow> is_lit g = is_lit st"
  by (auto simp: same_light_def is_lit_def)

lemma settled_same:
  assumes "same_light H (g_notification s) n" "same_light H (g_battery s) b"
  shows "same_light H (g_notification (settled H p s)) n" "same_light H (g_battery (settled H p s)) b"
  using assms by (cases p; auto simp: settled_def same_light_def)+

text \<open>Setting a light always returns, whatever the kernel answers.\<close>

lemma shared_calls:
  assumes "LIGHT_FLASH_NONE H \<notin> {LIGHT_FLASH_TIMED H, LIGHT_FLASH_HARDWARE H}" "f = Battery \<or> f = Notifications"
    and "same_light H (g_notification s) n" "same_light H (g_battery s) b"
  shows "\<exists>s'. call_set_light B F H K f st s = Inr (0, s') \<and>
    same_light H (g_notification s') (if f = Notifications then st else n) \<and>
    same_light H (g_battery s') (if f = Battery then st else b) \<and>
    writes s' = attempted K (writes s) (led_writes H (effective s'))"
proof -
  let ?p = "\<lambda>s. if is_lit (g_notification s) then NotificationLight else BatteryLight"
  obtain s' where s': "handle_shared_battery_locked H K (s\<lparr>g_battery := st\<rparr>) = Inr s'"
    "quiet (settled H (?p (s\<lparr>g_battery := st\<rparr>)) (s\<lparr>g_battery := st\<rparr>)) s'" "writes s' = attempted K (writes s) (led_writes H (effective s'))"
    using handle_shared_ok[OF assms(1), of K "s\<lparr>g_battery := st\<rparr>"] by auto
  obtain s'' where s'': "handle_shared_battery_locked H K (s\<lparr>g_notification := st\<rparr>) = Inr s''"
    "quiet (settled H (?p (s\<lparr>g_notification := st\<rparr>)) (s\<lparr>g_notification := st\<rparr>)) s''"
    "writes s'' = attempted K (writes s) (led_writes H (effective s''))"
    using handle_shared_ok[OF assms(1), of K "s\<lparr>g_notification := st\<rparr>"] by auto
  show ?thesis using assms(2)
  proof
    assume "f = Battery"
    then show ?thesis using s' settled_same[of H "s\<lparr>g_battery := st\<rparr>" n st "?p (s\<lparr>g_battery := st\<rparr>)"] assms(3)
      by (simp add: set_light_battery_def quiet_def)
  next
    assume "f = Notifications"
    then show ?thesis using s'' settled_same[of H "s\<lparr>g_notification := st\<rparr>" st b "?p (s\<lparr>g_notification := st\<rparr>)"] assms(4)
      by (simp add: set_light_notifications_def quiet_def)
  qed
qed

definition backlight_files :: "string set" where
  "backlight_files = {LCD_BACKLIGHT_FILE, BUTTON_BACKLIGHT_FILE, KEYBOARD_BACKLIGHT_FILE}"

lemma own_calls:
  assumes "f \<noteq> Battery" "f \<noteq> Notifications"
  shows "\<exists>r s' pts. call_set_light B F H K f st s = Inr (r, s') \<and> quiet s s' \<and>
    writes s' = attempted K (writes s) pts \<and> fst ` set pts \<subseteq> backlight_files"
proof -
  have w: "\<exists>r s' pts. write_int K path v s = Inr (r, s') \<and> quiet s s' \<and>
      writes s' = attempted K (writes s) pts \<and> fst ` set pts \<subseteq> backlight_files" if "path \<in> backlight_files" for path v
    using write_int_ok[of K path v] that unfolding one_write_def by fastforce
  have n: "\<exists>r s' pts. Inr (0, s) = Inr (r, s') \<and> quiet s s' \<and>
      writes s' = attempted K (writes s) pts \<and> fst ` set pts \<subseteq> backlight_files"
    by (intro exI[of _ 0] exI[of _ s] exI[of _ "[]"]) (simp add: quiet_def)
  show ?thesis using assms w n
    by (cases f) (auto simp: set_light_backlight_def set_light_buttons_def set_light_keyboard_def Let_def
      backlight_files_def)
qed

text \<open>What has been taken after attempts that a willing kernel takes in full.\<close>

definition willing :: "kernel \<Rightarrow> bool" where
  "willing K \<longleftrightarrow> (\<forall>ws p t. K ws p t = Takes (length t))"

lemma file_text_snoc: "file_text (ws @ [(p, t, Takes (length t))]) q = (if p = q then Some t else file_text ws q)"
  by (simp add: file_text_def)

lemma file_text_attempted:
  "willing K \<Longrightarrow> file_text (attempted K ws pts) q = (case map_of (rev pts) q of None \<Rightarrow> file_text ws q | Some t \<Rightarrow> Some t)"
proof (induction pts arbitrary: ws)
  case (Cons pt pts)
  then show ?case by (cases "map_of (rev pts) q") (auto simp: willing_def file_text_snoc map_add_def)
qed simp

lemma file_text_distinct:
  "willing K \<Longrightarrow> distinct (map fst pts) \<Longrightarrow> (p, t) \<in> set pts \<Longrightarrow> file_text (attempted K ws pts) p = Some t"
  by (simp add: file_text_attempted map_of_is_SomeI flip: rev_map)

section \<open>The LEDs show what they have to\<close>

text \<open>The files hold the components of the colour and whether and how the light flashes.\<close>

definition leds_show :: "lights_h \<Rightarrow> io_log \<Rightarrow> light_state_t \<Rightarrow> bool" where
  "leds_show H ws st \<longleftrightarrow>
     file_text ws RED_LED_FILE = Some (line (dec_text (red st))) \<and>
     file_text ws GREEN_LED_FILE = Some (line (dec_text (green st))) \<and>
     file_text ws BLUE_LED_FILE = Some (line (dec_text (blue st))) \<and>
     list_all (\<lambda>p. (steady H st \<longrightarrow> file_text ws p = Some (line ''none'')) \<and>
       (flashing H st \<longrightarrow> file_text ws p = Some (line ''timer''))) LED_FILE_TRIGGER \<and>
     (flashing H st \<longrightarrow>
       list_all (\<lambda>p. file_text ws p = Some (line (dec_text (sint (flashOnMS st))))) LED_FILE_DELAYON \<and>
       list_all (\<lambda>p. file_text ws p = Some (line (dec_text (sint (flashOffMS st))))) LED_FILE_DELAYOFF)"

lemmas led_file_defs = RED_LED_FILE_def GREEN_LED_FILE_def BLUE_LED_FILE_def LED_FILE_TRIGGER_def
  LED_FILE_DELAYON_def LED_FILE_DELAYOFF_def

definition led_files :: "string set" where
  "led_files = {RED_LED_FILE, GREEN_LED_FILE, BLUE_LED_FILE} \<union> set LED_FILE_TRIGGER \<union>
     set LED_FILE_DELAYON \<union> set LED_FILE_DELAYOFF"

lemma led_files_own: "led_files \<inter> backlight_files = {}"
  by (simp add: led_files_def backlight_files_def led_file_defs LCD_BACKLIGHT_FILE_def
    BUTTON_BACKLIGHT_FILE_def KEYBOARD_BACKLIGHT_FILE_def)

lemma leds_show_cong:
  assumes "\<And>p. p \<in> led_files \<Longrightarrow> file_text ws p = file_text ws' p"
  shows "leds_show H ws st = leds_show H ws' st"
  unfolding leds_show_def using assms by (simp add: led_files_def cong: list.pred_cong_simp)

lemma led_files_distinct:
  "distinct ([RED_LED_FILE, GREEN_LED_FILE, BLUE_LED_FILE] @ LED_FILE_TRIGGER @ LED_FILE_DELAYON @ LED_FILE_DELAYOFF)"
  by code_simp

lemma led_arrays:
  obtains t0 t1 t2 a0 a1 a2 b0 b1 b2 where "LED_FILE_TRIGGER = [t0, t1, t2]" "LED_FILE_DELAYON = [a0, a1, a2]"
    "LED_FILE_DELAYOFF = [b0, b1, b2]"
  unfolding led_file_defs by blast

lemma led_writes_show:
  assumes "LIGHT_FLASH_NONE H \<notin> {LIGHT_FLASH_TIMED H, LIGHT_FLASH_HARDWARE H}" "willing K"
  shows "leds_show H (attempted K ws (led_writes H st)) st"
proof -
  obtain t0 t1 t2 a0 a1 a2 b0 b1 b2 where a: "LED_FILE_TRIGGER = [t0, t1, t2]" "LED_FILE_DELAYON = [a0, a1, a2]"
    "LED_FILE_DELAYOFF = [b0, b1, b2]" by (rule led_arrays)
  have x: "\<not> (flashing H st \<and> steady H st)" using assms(1) by (auto simp: flashing_def steady_def)
  have "distinct (map fst (led_writes H st))"
    using led_files_distinct[unfolded a] x
    by (cases "flashing H st"; cases "steady H st") (auto simp add: led_writes_def color_writes_def a)
  note t = file_text_distinct[OF assms(2) this]
  have c: "set (color_writes st) \<subseteq> set (led_writes H st)" by (simp add: led_writes_def)
  have s: "steady H st \<Longrightarrow> p \<in> set LED_FILE_TRIGGER \<Longrightarrow> (p, line ''none'') \<in> set (led_writes H st)" for p
    using x by (auto simp: led_writes_def)
  have f: "flashing H st \<Longrightarrow> {(t0, line ''timer''), (t1, line ''timer''), (t2, line ''timer'')} \<union>
      (\<lambda>p. (p, line (dec_text (sint (flashOnMS st))))) ` set LED_FILE_DELAYON \<union>
      (\<lambda>p. (p, line (dec_text (sint (flashOffMS st))))) ` set LED_FILE_DELAYOFF \<subseteq> set (led_writes H st)"
    by (simp add: led_writes_def a)
  show ?thesis unfolding leds_show_def list_all_iff
    using c s f by (intro conjI impI ballI t) (simp_all add: color_writes_def a, auto)
qed

text \<open>What the framework has asked of a light: the state it set last, or none.\<close>

fun asks :: "set_light \<Rightarrow> light_call \<Rightarrow> light_state_t \<Rightarrow> light_state_t" where
  "asks f (SetLight f' st) old = (if f' = f then st else old)"
| "asks f c old = old"

definition asked :: "set_light \<Rightarrow> light_call list \<Rightarrow> light_state_t" where
  "asked f cs = foldl (\<lambda>old c. asks f c old) zero_light cs"

definition wanted :: "light_call list \<Rightarrow> light_state_t" where
  "wanted cs = (if is_lit (asked Notifications cs) then asked Notifications cs else asked Battery cs)"

fun sets_led :: "light_call \<Rightarrow> bool" where
  "sets_led (SetLight f st) \<longleftrightarrow> f = Battery \<or> f = Notifications"
| "sets_led c \<longleftrightarrow> False"

lemma asked_snoc [simp]: "asked f (cs @ [c]) = asks f c (asked f cs)"
  by (simp add: asked_def)

lemma leds_show_same: "same_light H g st \<Longrightarrow> leds_show H ws g = leds_show H ws st"
proof (cases "g = st")
  case False
  assume "same_light H g st"
  then have g: "flashOnMS st = 1" "g = st\<lparr>flashMode := LIGHT_FLASH_NONE H\<rparr>" using False by (simp_all add: same_light_def)
  then have "steady H g = steady H st" "flashing H g = flashing H st" "red g = red st" "green g = green st" "blue g = blue st"
    "flashOnMS g = flashOnMS st" "flashOffMS g = flashOffMS st" by (simp_all add: steady_def flashing_def component_defs)
  then show ?thesis unfolding leds_show_def by simp
qed simp

definition led_inv :: "lights_h \<Rightarrow> light_call list \<Rightarrow> lights_state \<Rightarrow> bool" where
  "led_inv H cs s \<longleftrightarrow> same_light H (g_notification s) (asked Notifications cs) \<and> same_light H (g_battery s) (asked Battery cs) \<and>
     ((\<exists>c \<in> set cs. sets_led c) \<longrightarrow> leds_show H (writes s) (wanted cs))"

lemma effective_wanted:
  assumes "same_light H (g_notification s) (asked Notifications cs)" "same_light H (g_battery s) (asked Battery cs)"
  shows "same_light H (effective s) (wanted cs)"
  using assms same_light_lit[OF assms(1)] by (simp add: effective_def wanted_def)

lemma quiet_asks [simp]: "wanted (cs @ [OpenDev name]) = wanted cs" "wanted (cs @ [CloseDev dev]) = wanted cs"
  by (simp_all add: wanted_def)

lemma own_asks: "f \<noteq> Battery \<Longrightarrow> f \<noteq> Notifications \<Longrightarrow> led_inv H (cs @ [SetLight f st]) s = led_inv H cs s"
  by (simp add: led_inv_def wanted_def)

lemma step_shows:
  assumes "LIGHT_FLASH_NONE H \<notin> {LIGHT_FLASH_TIMED H, LIGHT_FLASH_HARDWARE H}" "willing K"
    and "lights_step B F H K s c s'" "led_inv H cs s"
  shows "led_inv H (cs @ [c]) s'"
  using assms(3)
proof cases
  case (Open name block r dev)
  then have "writes s' = writes s \<and> g_notification s' = g_notification s \<and> g_battery s' = g_battery s"
    by (auto simp: open_lights_def Let_def split: if_splits)
  then show ?thesis using assms(4) Open(1) by (auto simp: led_inv_def)
next
  case (Close dev r)
  then have "writes s' = writes s \<and> g_notification s' = g_notification s \<and> g_battery s' = g_battery s"
    by (auto simp: close_lights_def split: if_splits)
  then show ?thesis using assms(4) Close(1) by (auto simp: led_inv_def)
next
  case (Set dev f st r)
  note i = assms(4)[unfolded led_inv_def]
  show ?thesis
  proof (cases "f = Battery \<or> f = Notifications")
    case True
    let ?cs = "cs @ [c]"
    have g: "same_light H (g_notification s') (asked Notifications ?cs)" "same_light H (g_battery s') (asked Battery ?cs)"
      and w: "writes s' = attempted K (writes s) (led_writes H (effective s'))"
      using shared_calls[OF assms(1) True, of s "asked Notifications cs" "asked Battery cs" B F K st] Set(1,3) i True
      by auto
    have "leds_show H (writes s') (wanted ?cs)"
      unfolding leds_show_same[OF effective_wanted[OF g], symmetric] w by (rule led_writes_show[OF assms(1,2)])
    then show ?thesis using g by (simp add: led_inv_def)
  next
    case False
    then obtain pts where o: "quiet s s'" "writes s' = attempted K (writes s) pts" "fst ` set pts \<subseteq> backlight_files"
      using own_calls[of f B F H K st s] Set(3) by auto
    have "map_of (rev pts) p = None" if "p \<in> led_files" for p
      using that o(3) led_files_own by (auto simp: map_of_eq_None_iff)
    then have "p \<in> led_files \<Longrightarrow> file_text (writes s') p = file_text (writes s) p" for p
      by (simp add: o(2) file_text_attempted[OF assms(2)])
    then have "leds_show H (writes s') x = leds_show H (writes s) x" for x by (rule leds_show_cong)
    then have "led_inv H cs s'" using i o(1) by (simp add: led_inv_def quiet_def)
    then show ?thesis using own_asks False Set(1) by simp
  qed
qed

text \<open>
  C16 The battery and notifications share one LED. Whatever devices the framework opens and closes and whatever lights it
  sets, once it has set the battery or the notification light the files of the LED hold the colour and the flashing of the last
  notification that it asked for if that is lit, and otherwise those of the last battery light it asked for; a light that is to be
  on for one millisecond does not flash. The kernel has to take what is written.
\<close>

theorem shared_led_correct:
  assumes "LIGHT_FLASH_NONE H \<notin> {LIGHT_FLASH_TIMED H, LIGHT_FLASH_HARDWARE H}" "willing K"
    and "lights_run B F H K cs s" "\<exists>c \<in> set cs. sets_led c"
  shows "leds_show H (writes s) (if is_lit (asked Notifications cs) then asked Notifications cs else asked Battery cs)"
proof -
  have "led_inv H cs s" using assms(3)
    by (induction rule: lights_run.induct) (use step_shows[OF assms(1,2)] in \<open>auto simp: led_inv_def asked_def lights_init_def\<close>)
  then show ?thesis using assms(4) by (simp add: led_inv_def wanted_def)
qed

definition sample_h :: lights_h where
  "sample_h = \<lparr>LIGHT_FLASH_NONE = 0, LIGHT_FLASH_TIMED = 1, LIGHT_FLASH_HARDWARE = 2,
     LIGHT_ID_BACKLIGHT = ''backlight'', LIGHT_ID_KEYBOARD = ''keyboard'', LIGHT_ID_BUTTONS = ''buttons'',
     LIGHT_ID_BATTERY = ''battery'', LIGHT_ID_NOTIFICATIONS = ''notifications''\<rparr>"

definition sample_build :: lights_build where
  "sample_build = \<lparr>HAVE_BUTTON_BACKLIGHT = True, HAVE_KEYBOARD_BACKLIGHT = False\<rparr>"

definition sample_kernel :: kernel where
  "sample_kernel = (\<lambda>ws p t. Takes (length t))"

definition sample_light :: light_state_t where
  "sample_light = \<lparr>color = 0xFF00FF00, flashMode = 1, flashOnMS = 500, flashOffMS = 1500\<rparr>"

theorem shared_led_correct_witness:
  "\<exists>s. lights_run sample_build ieee sample_h sample_kernel [OpenDev ''notifications'', SetLight Notifications sample_light] s \<and>
     leds_show sample_h (writes s) sample_light"
proof -
  let ?s1 = "lights_init\<lparr>open_devs := [(64, Notifications)]\<rparr>"
  have "open_lights sample_h ''notifications'' 64 lights_init = Inr (0, Some 64, ?s1)"
    by (simp add: open_lights_def sample_h_def lights_init_def)
  then have "lights_step sample_build ieee sample_h sample_kernel lights_init (OpenDev ''notifications'') ?s1"
    by (rule Open) (simp add: lights_init_def)
  from Run_Snoc[OF Run_Nil this] have 1: "lights_run sample_build ieee sample_h sample_kernel [OpenDev ''notifications''] ?s1" by simp
  have n: "LIGHT_FLASH_NONE sample_h \<notin> {LIGHT_FLASH_TIMED sample_h, LIGHT_FLASH_HARDWARE sample_h}" by (simp add: sample_h_def)
  obtain s where s: "call_set_light sample_build ieee sample_h sample_kernel Notifications sample_light ?s1 = Inr (0, s)"
    using shared_calls[OF n, of Notifications ?s1 "g_notification ?s1" "g_battery ?s1" sample_build ieee sample_kernel sample_light] by auto
  have "lights_step sample_build ieee sample_h sample_kernel ?s1 (SetLight Notifications sample_light) s"
    by (rule Set[where dev = 64, OF _ s]) simp
  from Run_Snoc[OF 1 this] have r: "lights_run sample_build ieee sample_h sample_kernel
    [OpenDev ''notifications'', SetLight Notifications sample_light] s" by simp
  have "asked Notifications [OpenDev ''notifications'', SetLight Notifications sample_light] = sample_light" "is_lit sample_light"
    by (simp_all add: asked_def is_lit_def sample_light_def)
  moreover have "willing sample_kernel" by (simp add: willing_def sample_kernel_def)
  ultimately have "leds_show sample_h (writes s) sample_light" using shared_led_correct[OF n _ r] by simp
  then show ?thesis using r by blast
qed

end
