(* ===== verification/Boot.thy ===== *)
theory Boot
  imports C_Text
begin

text \<open>
  The first process of the device, init/: it prepares devices and file systems, lets keycheck look for a
  key, unpacks the ramdisk of Android or of the recovery system and starts its init. What the process
  asks of the kernel is a sequence of calls; what the kernel and the other processes answer is a
  parameter.
\<close>

section \<open>Calls and answers\<close>

datatype sys =
    Unlink string
  | Rmdir string
  | Mkdir string nat
  | Mknod string char nat nat nat
  | Mount string string string
  | Umount string
  | Output string string bool
  | Run "string list"
  | Background "string list"
  | Kill int
  | Sleep nat
  | Clear_dir string
  | Inline "string list"

text \<open>
  \<open>can_open\<close> tells which files open, \<open>file_content\<close> what \<open>ReadFileToString\<close> reads (nothing when it fails),
  \<open>date_text\<close> what \<open>strftime\<close> makes, \<open>fork_result\<close> what \<open>fork\<close> returns for keycheck (\<open>0\<close> in the child), \<open>exec_ok\<close> which
  programs start. \<open>waits\<close> are the results of \<open>waitpid\<close>: its value, the status, and the time after the call.
\<close>

record boot_env =
  can_open :: "string \<Rightarrow> bool"
  file_content :: "string \<Rightarrow> string"
  date_text :: string
  fork_result :: int
  exec_ok :: "string \<Rightarrow> bool"
  time_start :: int
  waits :: "(int \<times> int \<times> int) list"
  argc :: int

type_synonym calls = "sys list result"

text \<open>Calls one after the other, up to the first fault.\<close>

primrec in_order :: "calls list \<Rightarrow> calls" where
  "in_order [] = Inr []"
| "in_order (c # cs) = (case c of
     Inl f \<Rightarrow> Inl f
   | Inr a \<Rightarrow> (case in_order cs of Inl f \<Rightarrow> Inl f | Inr b \<Rightarrow> Inr (a @ b)))"

section \<open>init\_board.h, init\_board\_common.h\<close>

definition DEV_BLOCK_PATH :: string where "DEV_BLOCK_PATH = ''/dev/block/mmcblk0''"
definition DEV_BLOCK_MAJOR :: nat where "DEV_BLOCK_MAJOR = 179"
definition DEV_BLOCK_MINOR :: nat where "DEV_BLOCK_MINOR = 0"
definition KEYCHECK_TIMEOUT :: int where "KEYCHECK_TIMEOUT = 3"

definition BOOT_TXT :: string where "BOOT_TXT = ''/boot.txt''"
definition EXEC_KEYCHECK :: string where "EXEC_KEYCHECK = ''/sbin/keycheck''"
definition EXEC_TOYBOX :: string where "EXEC_TOYBOX = ''/sbin/toybox_init''"
definition SBIN_CPIO_ANDROID :: string where "SBIN_CPIO_ANDROID = ''/sbin/ramdisk.cpio''"
definition SBIN_CPIO_RECOVERY :: string where "SBIN_CPIO_RECOVERY = ''/sbin/ramdisk-recovery.cpio''"
definition KEYCHECK_RECOVERY_BOOT :: int where "KEYCHECK_RECOVERY_BOOT = 41 * 2 ^ 8"
definition KEYCHECK_RECOVERY_FOTA :: int where "KEYCHECK_RECOVERY_FOTA = 42 * 2 ^ 8"

definition WARMBOOT_CMDLINE :: string where "WARMBOOT_CMDLINE = ''/cache/recovery/boot''"
definition WARMBOOT_RECOVERY :: string where "WARMBOOT_RECOVERY = ''recovery''"

section \<open>init\_io.cpp\<close>

definition CMD_MAX_LENGTH :: nat where "CMD_MAX_LENGTH = 80"

definition write_out :: "boot_env \<Rightarrow> string \<Rightarrow> string \<Rightarrow> bool \<Rightarrow> calls" where
  "write_out E path txt app =
     (if can_open E path then
        (case buffered CMD_MAX_LENGTH txt of Inl f \<Rightarrow> Inl f | Inr buf \<Rightarrow> Inr [Output path buf app])
      else Inr [])"

definition init_write_int :: "boot_env \<Rightarrow> string \<Rightarrow> int \<Rightarrow> calls" where
  "init_write_int E path v = write_out E path (dec_text v @ [CHR 0x0A]) False"

definition init_write_string :: "boot_env \<Rightarrow> string \<Rightarrow> string \<Rightarrow> bool \<Rightarrow> calls" where
  "init_write_string E path v app = write_out E path (v @ [CHR 0x0A]) app"

text \<open>\<open>strftime\<close> returns 0 when the text does not fit the buffer.\<close>

definition write_date :: "boot_env \<Rightarrow> string \<Rightarrow> bool \<Rightarrow> calls" where
  "write_date E path app =
     (if can_open E path
      then Inr [Output path (if length (date_text E) < CMD_MAX_LENGTH then date_text E else []) app]
      else Inr [])"

section \<open>init\_files.cpp\<close>

definition file_exists :: "boot_env \<Rightarrow> string \<Rightarrow> bool" where
  "file_exists E path \<longleftrightarrow> can_open E path"

definition file_empty :: "boot_env \<Rightarrow> string \<Rightarrow> bool" where
  "file_empty E path \<longleftrightarrow> can_open E path \<and> length (file_content E path) = 0"

text \<open>\<open>strstr\<close>, for a text and a string that ends at its NUL.\<close>

fun strstr :: "string \<Rightarrow> string \<Rightarrow> bool" where
  "strstr [] needle = (needle = [])"
| "strstr (c # cs) needle = (take (length needle) (c # cs) = needle \<or> strstr cs needle)"

definition file_contains :: "boot_env \<Rightarrow> string \<Rightarrow> string \<Rightarrow> bool" where
  "file_contains E path needle = strstr (takeWhile (\<lambda>c. c \<noteq> CHR 0x00) (file_content E path)) needle"

text \<open>
  A directory tree as \<open>dir_unlink_r\<close> sees it: a symbolic link shows what it leads to, if that exists. An
  entry whose path does not fit the buffer of 512 characters is taken for one that cannot be found.
\<close>

datatype node = File | Dir "(string \<times> node) list" | Link "node option"

fun leads_to :: "node \<Rightarrow> node option" where
  "leads_to (Link None) = None"
| "leads_to (Link (Some n)) = leads_to n"
| "leads_to n = Some n"

text \<open>
  What is left of an entry: \<open>rmdir\<close> removes a directory that has become empty, and neither a
  symbolic link nor a directory that still has entries.
\<close>

fun unlink_node :: "nat \<Rightarrow> node \<Rightarrow> node option" and unlink_entries :: "nat \<Rightarrow> (string \<times> node) list \<Rightarrow> (string \<times> node) list" where
  "unlink_node n File = None"
| "unlink_node n (Dir es) = (let es' = unlink_entries n es in if es' = [] then None else Some (Dir es'))"
| "unlink_node n (Link t) = (case t of
     None \<Rightarrow> Some (Link None)
   | Some u \<Rightarrow> (case leads_to u of
       None \<Rightarrow> Some (Link t)
     | Some File \<Rightarrow> None
     | Some (Dir es) \<Rightarrow> Some (Link (Some (case unlink_node n u of None \<Rightarrow> Dir [] | Some u' \<Rightarrow> u')))
     | Some (Link x) \<Rightarrow> Some (Link t)))"
| "unlink_entries n [] = []"
| "unlink_entries n ((name, e) # es) =
     (if name \<noteq> [] \<and> hd name = CHR ''.'' then (name, e) # unlink_entries n es
      else if n + 1 + length name > 511 then (name, e) # unlink_entries n es
      else (case unlink_node (n + 1 + length name) e of
          None \<Rightarrow> unlink_entries n es
        | Some e' \<Rightarrow> (name, e') # unlink_entries n es))"

text \<open>The entries of a directory of this path after \<open>dir_unlink_r(path, false)\<close>.\<close>

definition dir_unlink_r :: "string \<Rightarrow> (string \<times> node) list \<Rightarrow> (string \<times> node) list" where
  "dir_unlink_r path es = unlink_entries (length path) es"

section \<open>init\_exec.cpp\<close>

text \<open>\<open>fork\<close>, \<open>execv\<close> in the child and \<open>waitpid\<close>; a child that cannot start the program exits.\<close>

definition system_exec :: "string list \<Rightarrow> calls" where
  "system_exec argv = Inr [Run argv]"

text \<open>The process number, as the process sees it that goes on; the child goes on if \<open>execv\<close> fails.\<close>

definition system_exec_bg :: "boot_env \<Rightarrow> string list \<Rightarrow> int result" where
  "system_exec_bg E argv =
     (if fork_result E = 0 \<and> exec_ok E (hd argv) then Inl Exited else Inr (fork_result E))"

text \<open>The status that is returned, and whether the process was killed.\<close>

fun system_exec_kill :: "int \<Rightarrow> int \<Rightarrow> (int \<times> int \<times> int) list \<Rightarrow> (int \<times> bool) result" where
  "system_exec_kill timeout start [] = Inl Blocked"
| "system_exec_kill timeout start ((pid, status, cur) # ws) =
     (if pid > 0 then Inr (status, False)
      else if pid = - 1 then Inr (- 1, False)
      else if cur - start < timeout then system_exec_kill timeout start ws
      else Inr (0, True))"

section \<open>init\_board\_device.h\<close>

definition led_color :: "boot_env \<Rightarrow> int \<Rightarrow> int \<Rightarrow> int \<Rightarrow> calls" where
  "led_color E r g b = in_order [init_write_int E ''/sys/class/leds/red/brightness'' r,
     init_write_int E ''/sys/class/leds/green/brightness'' g, init_write_int E ''/sys/class/leds/blue/brightness'' b]"

definition vibrate :: "boot_env \<Rightarrow> int \<Rightarrow> calls" where
  "vibrate E strength = init_write_int E ''/sys/class/timed_output/vibrator/enable'' strength"

definition start_init :: calls where
  "start_init = Inr [Mkdir ''/cache'' 493, Mknod ''/dev/block/mtdblock2'' CHR ''b'' 384 31 2,
     Mount ''/dev/block/mtdblock2'' ''/cache'' ''yaffs2'']"

definition introduce_keycheck :: "boot_env \<Rightarrow> calls" where
  "introduce_keycheck E = in_order [vibrate E 30, led_color E 255 0 255]"

definition introduce_android :: "boot_env \<Rightarrow> calls" where
  "introduce_android E = in_order [led_color E 0 255 0, Inr [Sleep 250]]"

definition introduce_recovery :: "boot_env \<Rightarrow> calls" where
  "introduce_recovery E = in_order [Inr [Unlink WARMBOOT_CMDLINE], vibrate E 30, led_color E 0 0 255, Inr [Sleep 250]]"

definition finish_init :: "boot_env \<Rightarrow> calls" where
  "finish_init E = in_order [led_color E 0 0 0, vibrate E 0, Inr [Umount ''/cache'', Rmdir ''/cache'']]"

section \<open>init\_main.cpp\<close>

definition cpio_args :: "string \<Rightarrow> string list" where
  "cpio_args archive = [EXEC_TOYBOX, ''cpio'', ''-i'', ''-F'', archive]"

text \<open>Before the choice: the log, directories, device nodes and file systems.\<close>

definition prepare :: "boot_env \<Rightarrow> calls" where
  "prepare E = in_order [Inr [Unlink BOOT_TXT], init_write_string E BOOT_TXT ''SEMC INIT'' False, write_date E BOOT_TXT True,
     Inr ([Unlink ''/init'', Mkdir ''/dev/block'' 493, Mkdir ''/dev/input'' 493, Mkdir ''/proc'' 365, Mkdir ''/sys'' 493,
       Mknod DEV_BLOCK_PATH CHR ''b'' 384 DEV_BLOCK_MAJOR DEV_BLOCK_MINOR] @
       map (\<lambda>i. Mknod (''/dev/input/event'' @ dec_nat i) CHR ''c'' 384 13 (64 + i)) [0..<13] @
       [Mknod ''/dev/null'' CHR ''c'' 438 1 3, Mount ''proc'' ''/proc'' ''proc'', Mount ''sysfs'' ''/sys'' ''sysfs'']),
     start_init]"

text \<open>The key check: the calls it makes, and whether to boot the recovery system.\<close>

definition keycheck :: "boot_env \<Rightarrow> (sys list \<times> bool) result" where
  "keycheck E =
     (if file_contains E WARMBOOT_CMDLINE WARMBOOT_RECOVERY then Inr ([], True)
      else case system_exec_bg E [EXEC_KEYCHECK] of
          Inl f \<Rightarrow> Inl f
        | Inr pid \<Rightarrow>
            (case introduce_keycheck E of
               Inl f \<Rightarrow> Inl f
             | Inr intro \<Rightarrow>
                 (case system_exec_kill KEYCHECK_TIMEOUT (time_start E) (waits E) of
                    Inl f \<Rightarrow> Inl f
                  | Inr (status, killed) \<Rightarrow>
                      Inr (Background [EXEC_KEYCHECK] # intro @ (if killed then [Kill pid] else []),
                        status = KEYCHECK_RECOVERY_BOOT \<or> status = KEYCHECK_RECOVERY_FOTA))))"

definition boot_recovery :: "boot_env \<Rightarrow> calls" where
  "boot_recovery E = in_order [init_write_string E BOOT_TXT ''RECOVERY BOOT'' True, introduce_recovery E,
     system_exec (cpio_args SBIN_CPIO_RECOVERY)]"

definition boot_android :: "boot_env \<Rightarrow> calls" where
  "boot_android E = in_order [init_write_string E BOOT_TXT ''ANDROID BOOT'' True, introduce_android E,
     system_exec (cpio_args SBIN_CPIO_ANDROID)]"

definition finish :: "boot_env \<Rightarrow> calls" where
  "finish E = in_order [finish_init E, write_date E BOOT_TXT True,
     Inr ([Unlink EXEC_TOYBOX, Umount ''/proc'', Umount ''/sys''] @
       (if argc E < 2 then [Clear_dir ''/dev'', Inline [''/init'']] else []))]"

definition init_main :: "boot_env \<Rightarrow> calls" where
  "init_main E = (case prepare E of
       Inl f \<Rightarrow> Inl f
     | Inr a \<Rightarrow>
         (case keycheck E of
            Inl f \<Rightarrow> Inl f
          | Inr (b, recoveryBoot) \<Rightarrow>
              in_order [Inr a, Inr b, if recoveryBoot then boot_recovery E else boot_android E, finish E]))"

end
