(* ===== verification/Boot_Props.thy ===== *)
theory Boot_Props
  imports Boot
begin

text \<open>
  Properties of the first process: it unpacks one ramdisk, the right one, and leaves no file system
  mounted; what becomes of it when keycheck cannot be started; and what the removal of /dev leaves.
\<close>

section \<open>Output\<close>

text \<open>The texts the process writes fit the shared buffer, so that every write is just that text or nothing.\<close>

definition written :: "boot_env \<Rightarrow> string \<Rightarrow> string \<Rightarrow> bool \<Rightarrow> sys list" where
  "written E path txt app = (if can_open E path then [Output path txt app] else [])"

lemma write_out_ok: "length txt < 80 \<Longrightarrow> write_out E path txt app = Inr (written E path txt app)"
  by (simp add: write_out_def written_def buffered_short CMD_MAX_LENGTH_def)

lemma init_write_int_ok: "0 \<le> v \<Longrightarrow> v < 10 ^ 9 \<Longrightarrow> init_write_int E path v = Inr (written E path (dec_text v @ [CHR 0x0A]) False)"
proof -
  assume v: "0 \<le> v" "v < 10 ^ 9"
  then have "nat v < 10 ^ 9" by simp
  then have "length (dec_nat (nat v)) \<le> 9" by (intro dec_nat_length) simp_all
  then show ?thesis using v(1) by (simp add: init_write_int_def write_out_ok dec_text_def)
qed

lemma init_write_string_ok: "length v < 79 \<Longrightarrow> init_write_string E path v app = Inr (written E path (v @ [CHR 0x0A]) app)"
  unfolding init_write_string_def by (subst write_out_ok) auto

lemma write_date_ok: "\<exists>txt. write_date E path app = Inr (written E path txt app)"
  unfolding write_date_def written_def by auto

section \<open>What a sequence of calls does\<close>

text \<open>The programs that are run to the end, and the file systems that are mounted after the calls.\<close>

fun runs :: "sys list \<Rightarrow> string list list" where
  "runs [] = []"
| "runs (Run argv # cs) = argv # runs cs"
| "runs (c # cs) = runs cs"

fun mounted :: "string set \<Rightarrow> sys list \<Rightarrow> string set" where
  "mounted M [] = M"
| "mounted M (Mount dev dir fs # cs) = mounted (insert dir M) cs"
| "mounted M (Umount dir # cs) = mounted (M - {dir}) cs"
| "mounted M (c # cs) = mounted M cs"

lemma runs_append [simp]: "runs (cs @ ds) = runs cs @ runs ds"
  by (induction cs rule: runs.induct) auto

lemma mounted_append [simp]: "mounted M (cs @ ds) = mounted (mounted M cs) ds"
  by (induction M cs rule: mounted.induct) auto

text \<open>Calls that run no program and mount nothing.\<close>

definition plain :: "sys list \<Rightarrow> bool" where
  "plain cs \<longleftrightarrow> runs cs = [] \<and> (\<forall>M. mounted M cs = M)"

lemma plain_simps [simp]: "plain []" "plain cs \<Longrightarrow> plain ds \<Longrightarrow> plain (cs @ ds)" "plain (written E path txt app)"
  "plain [Unlink p]" "plain [Sleep n]" "plain [Kill pid]" "plain (Background argv # cs) = plain cs"
  "plain (Unlink p # cs) = plain cs" "plain (Mknod p k m a b # cs) = plain cs"
  by (auto simp: plain_def written_def)

lemma plain_runs [simp]: "plain cs \<Longrightarrow> runs cs = []" "plain cs \<Longrightarrow> mounted M cs = M"
  by (auto simp: plain_def)

lemma led_ok: "0 \<le> r \<Longrightarrow> r < 256 \<Longrightarrow> 0 \<le> g \<Longrightarrow> g < 256 \<Longrightarrow> 0 \<le> b \<Longrightarrow> b < 256 \<Longrightarrow> \<exists>cs. led_color E r g b = Inr cs \<and> plain cs"
  by (simp add: led_color_def init_write_int_ok)

lemma vibrate_ok: "0 \<le> n \<Longrightarrow> n < 256 \<Longrightarrow> \<exists>cs. vibrate E n = Inr cs \<and> plain cs"
  by (simp add: vibrate_def init_write_int_ok)

section \<open>The parts of main\<close>

lemma introduce_ok:
  "\<exists>cs. introduce_keycheck E = Inr cs \<and> plain cs"
  "\<exists>cs. introduce_android E = Inr cs \<and> plain cs"
  "\<exists>cs. introduce_recovery E = Inr cs \<and> plain cs"
  using led_ok[of 255 0 255 E] led_ok[of 0 255 0 E] led_ok[of 0 0 255 E] vibrate_ok[of 30 E]
  by (auto simp: introduce_keycheck_def introduce_android_def introduce_recovery_def)

lemma nodes_plain: "plain (map (\<lambda>i. Mknod (f i) k m a (g i)) ns)"
  by (induction ns) simp_all

lemma prepare_ok: "\<exists>cs. prepare E = Inr cs \<and> runs cs = [] \<and> mounted M cs = insert ''/cache'' (insert ''/sys'' (insert ''/proc'' M))"
proof -
  obtain t where d: "write_date E BOOT_TXT True = Inr (written E BOOT_TXT t True)" using write_date_ok by blast
  show ?thesis
    using nodes_plain[of "\<lambda>i. ''/dev/input/event'' @ dec_nat i" "CHR ''c''" 384 13 "\<lambda>i. 64 + i" "[0..<13]"]
    by (simp add: prepare_def d init_write_string_ok start_init_def del: upt_rec_numeral upt_Suc map_append)
qed

lemma boot_ok:
  "\<exists>cs. boot_recovery E = Inr cs \<and> runs cs = [cpio_args SBIN_CPIO_RECOVERY] \<and> (\<forall>M. mounted M cs = M)"
  "\<exists>cs. boot_android E = Inr cs \<and> runs cs = [cpio_args SBIN_CPIO_ANDROID] \<and> (\<forall>M. mounted M cs = M)"
  using introduce_ok(2,3)[of E] by (auto simp: boot_recovery_def boot_android_def init_write_string_ok system_exec_def)

lemma finish_ok:
  "\<exists>cs. finish E = Inr (cs @ (if argc E < 2 then [Clear_dir ''/dev'', Inline [''/init'']] else [])) \<and> runs cs = [] \<and>
    (\<forall>M. mounted M cs = M - {''/cache'', ''/proc'', ''/sys''})"
proof -
  obtain t where d: "write_date E BOOT_TXT True = Inr (written E BOOT_TXT t True)" using write_date_ok by blast
  obtain l v where lv: "led_color E 0 0 0 = Inr l" "plain l" "vibrate E 0 = Inr v" "plain v"
    using led_ok[of 0 0 0 E] vibrate_ok[of 0 E] by auto
  let ?cs = "l @ v @ [Umount ''/cache'', Rmdir ''/cache''] @ written E BOOT_TXT t True @
    [Unlink EXEC_TOYBOX, Umount ''/proc'', Umount ''/sys'']"
  have "finish E = Inr (?cs @ (if argc E < 2 then [Clear_dir ''/dev'', Inline [''/init'']] else []))"
    by (simp add: finish_def finish_init_def lv d)
  moreover have "runs ?cs = []" "\<forall>M. mounted M ?cs = M - {''/cache'', ''/proc'', ''/sys''}" using lv by auto
  ultimately show ?thesis by blast
qed

text \<open>Waiting for keycheck ends when it does, and otherwise when the time is over.\<close>

lemma kill_returns:
  "(pid, status, cur) \<in> set ws \<Longrightarrow> pid > 0 \<or> pid = - 1 \<or> timeout \<le> cur - start \<Longrightarrow>
    \<exists>st killed. system_exec_kill timeout start ws = Inr (st, killed)"
  by (induction timeout start ws rule: system_exec_kill.induct) auto

lemma keycheck_ok:
  assumes "\<not> file_contains E WARMBOOT_CMDLINE WARMBOOT_RECOVERY" "\<not> (fork_result E = 0 \<and> exec_ok E EXEC_KEYCHECK)"
    and "system_exec_kill KEYCHECK_TIMEOUT (time_start E) (waits E) = Inr (status, killed)"
  shows "\<exists>cs. keycheck E = Inr (cs, status = KEYCHECK_RECOVERY_BOOT \<or> status = KEYCHECK_RECOVERY_FOTA) \<and> plain cs"
  using assms introduce_ok(1)[of E] by (auto simp: keycheck_def system_exec_bg_def)

definition status_recovery :: "int \<Rightarrow> bool" where
  "status_recovery status \<longleftrightarrow> status \<in> {41 * 256, 42 * 256}"

lemma main_ok:
  assumes "keycheck E = Inr (ks, recovery)" "plain ks"
  shows "\<exists>cs. init_main E = Inr (cs @ (if argc E < 2 then [Clear_dir ''/dev'', Inline [''/init'']] else [])) \<and>
    runs cs = [cpio_args (if recovery then SBIN_CPIO_RECOVERY else SBIN_CPIO_ANDROID)] \<and> mounted {} cs = {}"
proof -
  obtain a where a: "prepare E = Inr a" "runs a = []" "mounted {} a = {''/cache'', ''/sys'', ''/proc''}"
    using prepare_ok[of E "{}"] by auto
  obtain b where b: "(if recovery then boot_recovery E else boot_android E) = Inr b"
      "runs b = [cpio_args (if recovery then SBIN_CPIO_RECOVERY else SBIN_CPIO_ANDROID)]" "\<forall>M. mounted M b = M"
    using boot_ok[of E] by (cases recovery) auto
  obtain c where c: "finish E = Inr (c @ (if argc E < 2 then [Clear_dir ''/dev'', Inline [''/init'']] else []))" "runs c = []"
      "\<forall>M. mounted M c = M - {''/cache'', ''/proc'', ''/sys''}" using finish_ok[of E] by blast
  have "init_main E = Inr ((a @ ks @ b @ c) @ (if argc E < 2 then [Clear_dir ''/dev'', Inline [''/init'']] else []))"
    using assms(1) a(1) b(1) c(1) by (simp add: init_main_def split del: if_split)
  moreover have "mounted {} (a @ ks @ b @ c) = {}" using assms(2) a(3) b(3) c(3) by auto
  moreover have "runs (a @ ks @ b @ c) = [cpio_args (if recovery then SBIN_CPIO_RECOVERY else SBIN_CPIO_ANDROID)]"
    using assms(2) a(2) b(2) c(2) by simp
  ultimately show ?thesis by blast
qed

text \<open>
  C19 The boot: the process unpacks one ramdisk, that of the recovery system if the warm boot file asks for it or
  keycheck exits with 41 or 42 in time, and that of Android otherwise; every file system it has
  mounted is unmounted again, and started without arguments it ends as the init of that ramdisk.
\<close>

theorem boot_choice:
  fixes E :: boot_env
  defines "warm \<equiv> file_contains E WARMBOOT_CMDLINE WARMBOOT_RECOVERY"
  assumes "warm \<or> fork_result E \<noteq> 0 \<and> system_exec_kill 3 (time_start E) (waits E) = Inr (status, killed)"
  shows "\<exists>cs. init_main E = Inr (cs @ (if argc E < 2 then [Clear_dir ''/dev'', Inline [''/init'']] else [])) \<and>
    runs cs = [cpio_args (if warm \<or> status_recovery status then SBIN_CPIO_RECOVERY else SBIN_CPIO_ANDROID)] \<and>
    mounted {} cs = {}"
proof (cases warm)
  case True
  then have "keycheck E = Inr ([], True)" by (simp add: keycheck_def warm_def)
  from main_ok[OF this] show ?thesis using True by simp
next
  case False
  then have a: "fork_result E \<noteq> 0" "system_exec_kill KEYCHECK_TIMEOUT (time_start E) (waits E) = Inr (status, killed)"
    using assms(2) by (auto simp: KEYCHECK_TIMEOUT_def)
  obtain ks where "keycheck E = Inr (ks, status = KEYCHECK_RECOVERY_BOOT \<or> status = KEYCHECK_RECOVERY_FOTA)" "plain ks"
    using keycheck_ok[of E, OF False[unfolded warm_def] _ a(2)] a(1) by auto
  moreover have "(status = KEYCHECK_RECOVERY_BOOT \<or> status = KEYCHECK_RECOVERY_FOTA) = status_recovery status"
    by (auto simp: KEYCHECK_RECOVERY_BOOT_def KEYCHECK_RECOVERY_FOTA_def status_recovery_def)
  ultimately show ?thesis using main_ok[of E ks] False by auto
qed

text \<open>A sample: keycheck exits with 42 on the second look.\<close>

definition sample_boot :: boot_env where
  "sample_boot = \<lparr>can_open = (\<lambda>p. True), file_content = (\<lambda>p. []), date_text = ''Thu Jan  1 00:00:00 UTC 1970'', fork_result = 7,
     exec_ok = (\<lambda>p. True), time_start = 100, waits = [(0, 0, 101), (7, 42 * 256, 101)], argc = 1\<rparr>"

theorem boot_choice_witness:
  "\<exists>cs. init_main sample_boot = Inr (cs @ [Clear_dir ''/dev'', Inline [''/init'']]) \<and>
    runs cs = [[''/sbin/toybox_init'', ''cpio'', ''-i'', ''-F'', ''/sbin/ramdisk-recovery.cpio'']] \<and> mounted {} cs = {}"
proof -
  have w: "system_exec_kill 3 (time_start sample_boot) (waits sample_boot) = Inr (42 * 256, False)"
    by (simp add: sample_boot_def)
  have f: "fork_result sample_boot \<noteq> 0" by (simp add: sample_boot_def)
  show ?thesis using boot_choice[of sample_boot "42 * 256" False] w f
    by (simp add: status_recovery_def cpio_args_def EXEC_TOYBOX_def SBIN_CPIO_RECOVERY_def sample_boot_def)
qed

text \<open>
  C20 When keycheck cannot be started: the child that was to become keycheck goes on as a second first
  process. It takes the failure of \<open>waitpid\<close> for a key check without a key, unpacks the Android ramdisk and
  ends as init, beside its parent.
\<close>

theorem keycheck_child_boots:
  assumes "\<not> file_contains E WARMBOOT_CMDLINE WARMBOOT_RECOVERY" "fork_result E = 0" "\<not> exec_ok E EXEC_KEYCHECK"
    and "waits E = (- 1, status, cur) # ws" "argc E < 2"
  shows "\<exists>cs. init_main E = Inr (cs @ [Clear_dir ''/dev'', Inline [''/init'']]) \<and> runs cs = [cpio_args SBIN_CPIO_ANDROID]"
proof -
  have "system_exec_kill KEYCHECK_TIMEOUT (time_start E) (waits E) = Inr (- 1, False)" by (simp add: assms(4))
  then obtain ks where "keycheck E = Inr (ks, False)" "plain ks"
    using keycheck_ok[OF assms(1), of "- 1" False] assms(3)
    by (auto simp: KEYCHECK_RECOVERY_BOOT_def KEYCHECK_RECOVERY_FOTA_def)
  then show ?thesis using main_ok[of E ks False] assms(5) by auto
qed

theorem keycheck_child_boots_witness:
  "\<exists>cs. init_main (sample_boot\<lparr>fork_result := 0, exec_ok := (\<lambda>p. False), waits := [(- 1, 0, 100)]\<rparr>) =
      Inr (cs @ [Clear_dir ''/dev'', Inline [''/init'']]) \<and>
    runs cs = [[''/sbin/toybox_init'', ''cpio'', ''-i'', ''-F'', ''/sbin/ramdisk.cpio'']]"
  using keycheck_child_boots[of "sample_boot\<lparr>fork_result := 0, exec_ok := (\<lambda>p. False), waits := [(- 1, 0, 100)]\<rparr>" 0 100 "[]"]
  by (simp add: file_contains_def sample_boot_def WARMBOOT_RECOVERY_def cpio_args_def EXEC_TOYBOX_def SBIN_CPIO_ANDROID_def)

section \<open>Clearing a directory\<close>

text \<open>Trees of files and directories with visible names and short paths.\<close>

fun removable :: "nat \<Rightarrow> node \<Rightarrow> bool" and removable_all :: "nat \<Rightarrow> (string \<times> node) list \<Rightarrow> bool" where
  "removable n File = True"
| "removable n (Dir es) = removable_all n es"
| "removable n (Link t) = False"
| "removable_all n [] = True"
| "removable_all n ((name, e) # es) = ((name = [] \<or> hd name \<noteq> CHR ''.'') \<and> n + 1 + length name \<le> 511 \<and>
     removable (n + 1 + length name) e \<and> removable_all n es)"

lemma unlink_removes:
  "removable n e \<Longrightarrow> unlink_node n e = None"
  "removable_all n es \<Longrightarrow> unlink_entries n es = []"
  by (induction n e and n es rule: unlink_node_unlink_entries.induct) auto

lemma dir_cleared: "removable_all (length path) es \<Longrightarrow> dir_unlink_r path es = []"
  by (simp add: dir_unlink_r_def unlink_removes(2))

text \<open>A link that leads nowhere stays, and one to a directory stays too, while the directory it leads to is emptied.\<close>

lemma dangling_link_stays: "dir_unlink_r ''/dev'' [(''log'', Link None)] = [(''log'', Link None)]"
  by (simp add: dir_unlink_r_def)

lemma linked_dir_emptied:
  "dir_unlink_r ''/dev'' [(''fd'', Link (Some (Dir [(''config'', File)])))] = [(''fd'', Link (Some (Dir [])))]"
  by (simp add: dir_unlink_r_def)

end
