(* ===== verification/Keycheck.thy ===== *)
theory Keycheck
  imports Prelude
begin

text \<open>
  keycheck/keycheck.c: it watches the input devices in /dev/input, those that are there and those that
  come and go, and exits with 42 when one of them reports a volume key. The two arrays it keeps in step,
  the descriptors to poll and the names of the devices, grow by \<open>realloc\<close> and shrink by \<open>memmove\<close>. What the
  kernel and the C library answer is a parameter of each operation.
\<close>

section \<open>State\<close>

text \<open>
  An element of \<open>ufds\<close> is a descriptor and whether \<open>revents\<close> has \<open>POLLIN\<close>. \<open>device_names\<close> are pointers; the
  first is never set and \<open>None\<close> like \<open>NULL\<close>. \<open>nfds\<close> is the length of both. \<open>opened\<close> are the descriptors that
  are open.
\<close>

record key_state =
  ufds :: "(int \<times> bool) list"
  device_names :: "string option list"
  opened :: "int list"

text \<open>
  The answers while a device is opened: the descriptor, whether the two calls of \<open>ioctl\<close> that matter
  and the allocations succeed, and what the new element of \<open>ufds\<close> holds in \<open>revents\<close>.
\<close>

record dev_answer =
  a_fd :: int
  a_version :: bool
  a_id :: bool
  a_mem_ufds :: bool
  a_mem_names :: bool
  a_strdup :: bool
  a_revents :: bool

section \<open>Devices\<close>

definition open_device :: "dev_answer \<Rightarrow> string \<Rightarrow> key_state \<Rightarrow> int \<times> key_state" where
  "open_device A device s =
     (if a_fd A < 0 then (- 1, s)
      else let s = s\<lparr>opened := a_fd A # opened s\<rparr> in
        if \<not> a_version A then (- 1, s)
        else if \<not> a_id A then (- 1, s)
        else if \<not> a_mem_ufds A then (- 1, s)
        else if \<not> a_mem_names A then (- 1, s)
        else (0, s\<lparr>ufds := ufds s @ [(a_fd A, a_revents A)],
               device_names := device_names s @ [if a_strdup A then Some device else None]\<rparr>))"

text \<open>The loop of \<open>close_device\<close>, from \<open>i\<close> on.\<close>

fun close_loop :: "nat \<Rightarrow> nat \<Rightarrow> string \<Rightarrow> key_state \<Rightarrow> (int \<times> key_state) result" where
  "close_loop 0 i device s = Inr (- 1, s)"
| "close_loop (Suc k) i device s = (case device_names s ! i of
     None \<Rightarrow> Inl NullDeref
   | Some name \<Rightarrow>
       if name = device then
         Inr (0, s\<lparr>device_names := take i (device_names s) @ drop (i + 1) (device_names s),
           ufds := take i (ufds s) @ drop (i + 1) (ufds s)\<rparr>)
       else close_loop k (i + 1) device s)"

definition close_device :: "string \<Rightarrow> key_state \<Rightarrow> (int \<times> key_state) result" where
  "close_device device s = close_loop (length (ufds s) - 1) 1 device s"

text \<open>
  What \<open>read\<close> returns for the notifications: an error, interrupted or not, or events. An event has a name
  or none, and says whether the device has been created; \<open>None\<close> for a name of length 0.
\<close>

datatype notify = Interrupted | NoEvent | Events "(bool \<times> string option \<times> dev_answer) list"

primrec notify_events :: "string \<Rightarrow> (bool \<times> string option \<times> dev_answer) list \<Rightarrow> key_state \<Rightarrow> key_state result" where
  "notify_events dirname [] s = Inr s"
| "notify_events dirname (e # es) s = (case e of (created, name, A) \<Rightarrow>
     (case name of
        None \<Rightarrow> notify_events dirname es s
      | Some n \<Rightarrow>
          if created then notify_events dirname es (snd (open_device A (dirname @ ''/'' @ n) s))
          else (case close_device (dirname @ ''/'' @ n) s of
              Inl f \<Rightarrow> Inl f
            | Inr (r, s) \<Rightarrow> notify_events dirname es s)))"

definition read_notify :: "string \<Rightarrow> notify \<Rightarrow> key_state \<Rightarrow> (int \<times> key_state) result" where
  "read_notify dirname ev s = (case ev of
       Interrupted \<Rightarrow> Inr (0, s)
     | NoEvent \<Rightarrow> Inr (1, s)
     | Events es \<Rightarrow> map_sum id (Pair 0) (notify_events dirname es s))"

text \<open>\<open>entries\<close> are the names in the directory, \<open>None\<close> when it cannot be read.\<close>

primrec scan_entries :: "string \<Rightarrow> (string \<times> dev_answer) list \<Rightarrow> key_state \<Rightarrow> key_state" where
  "scan_entries dirname [] s = s"
| "scan_entries dirname (e # es) s = (case e of (name, A) \<Rightarrow>
     if name = ''.'' \<or> name = ''..'' then scan_entries dirname es s
     else scan_entries dirname es (snd (open_device A (dirname @ ''/'' @ name) s)))"

definition scan_dir :: "string \<Rightarrow> (string \<times> dev_answer) list option \<Rightarrow> key_state \<Rightarrow> int \<times> key_state" where
  "scan_dir dirname entries s = (case entries of None \<Rightarrow> (- 1, s) | Some es \<Rightarrow> (0, scan_entries dirname es s))"

section \<open>The program\<close>

text \<open>
  One round of the main loop: what \<open>poll\<close> reports for each element, the notifications to be read, and
  what a descriptor gives when it is read: fewer bytes than an event has, or the code of the event.
\<close>

datatype input = Short | Code nat

record round =
  rd_poll :: "(nat \<Rightarrow> bool) option"
  rd_notify :: notify
  rd_read :: "int \<Rightarrow> input"

text \<open>Codes of linux/input.h.\<close>

record input_h =
  KEY_VOLUMEDOWN :: nat
  KEY_VOLUMEUP :: nat

fun read_devices :: "input_h \<Rightarrow> (int \<Rightarrow> input) \<Rightarrow> (int \<times> bool) list \<Rightarrow> int option" where
  "read_devices H rd [] = None"
| "read_devices H rd ((fd, pollin) # us) =
     (if pollin then
        (case rd fd of
           Short \<Rightarrow> Some 1
         | Code c \<Rightarrow> if c = KEY_VOLUMEDOWN H \<or> c = KEY_VOLUMEUP H then Some 42 else read_devices H rd us)
      else read_devices H rd us)"

text \<open>\<open>poll\<close> fills \<open>revents\<close> of the elements it is given; when it fails they stay as they were.\<close>

definition set_revents :: "(nat \<Rightarrow> bool) option \<Rightarrow> key_state \<Rightarrow> key_state" where
  "set_revents answer s = (case answer of
       None \<Rightarrow> s
     | Some ready \<Rightarrow> s\<lparr>ufds := map2 (\<lambda>i u. (fst u, ready i)) [0..<length (ufds s)] (ufds s)\<rparr>)"

definition key_round :: "input_h \<Rightarrow> round \<Rightarrow> key_state \<Rightarrow> (int option \<times> key_state) result" where
  "key_round H r s =
     (let s = set_revents (rd_poll r) s
      in case (if ufds s \<noteq> [] \<and> snd (ufds s ! 0) then map_sum id snd (read_notify ''/dev/input'' (rd_notify r) s) else Inr s) of
           Inl f \<Rightarrow> Inl f
         | Inr s \<Rightarrow> Inr (read_devices H (rd_read r) (drop 1 (ufds s)), s))"

text \<open>The main loop; a program that has seen all rounds without an exit waits in \<open>poll\<close>.\<close>

fun key_loop :: "input_h \<Rightarrow> round list \<Rightarrow> key_state \<Rightarrow> int result" where
  "key_loop H [] s = Inl Blocked"
| "key_loop H (r # rs) s = (case key_round H r s of
     Inl f \<Rightarrow> Inl f
   | Inr (Some code, s) \<Rightarrow> Inr code
   | Inr (None, s) \<Rightarrow> key_loop H rs s)"

text \<open>
  \<open>inotify\<close> and \<open>watch\<close> are the results of \<open>inotify_init\<close> and \<open>inotify_add_watch\<close>. The result of \<open>calloc\<close> is used
  without a test; \<open>memory\<close> tells whether it is not \<open>NULL\<close>.
\<close>

definition keycheck_main ::
  "input_h \<Rightarrow> bool \<Rightarrow> int \<Rightarrow> int \<Rightarrow> (string \<times> dev_answer) list option \<Rightarrow> round list \<Rightarrow> int result" where
  "keycheck_main H memory inotify watch entries rounds =
     (if \<not> memory then Inl NullDeref
      else let s = \<lparr>ufds = [(inotify, False)], device_names = [None], opened = [inotify]\<rparr> in
        if watch < 0 then Inr 1
        else (case scan_dir ''/dev/input'' entries s of (r, s) \<Rightarrow> if r < 0 then Inr 1 else key_loop H rounds s))"

section \<open>Properties\<close>

text \<open>The two arrays are in step, and every element but the first has a name.\<close>

definition in_step :: "key_state \<Rightarrow> bool" where
  "in_step s \<longleftrightarrow> ufds s \<noteq> [] \<and> length (device_names s) = length (ufds s) \<and> None \<notin> set (tl (device_names s))"

text \<open>The devices that are watched, with their descriptors.\<close>

definition devices :: "key_state \<Rightarrow> (string \<times> int) list" where
  "devices s = zip (map the (tl (device_names s))) (map fst (tl (ufds s)))"

lemma in_stepE:
  assumes "in_step s"
  obtains u n zs where "ufds s = u # map snd zs" "device_names s = n # map (Some \<circ> fst) zs"
    "devices s = map (map_prod id fst) zs"
proof -
  obtain u us where u: "ufds s = u # us" using assms by (cases "ufds s") (auto simp: in_step_def)
  obtain n ms where n: "device_names s = n # ms" using assms u by (cases "device_names s") (auto simp: in_step_def)
  have len: "length ms = length us" using assms u n by (simp add: in_step_def)
  have "None \<notin> set ms" using assms n by (simp add: in_step_def)
  then have "map (Some \<circ> the) ms = ms" by (induction ms) auto
  then show ?thesis
    using that[of u "zip (map the ms) us" n] u n len
    by (simp add: devices_def zip_map2 map_prod_def split_def flip: map_map)
qed

text \<open>What closing a device does to a table of devices: the first of that name goes, the others stay in order.\<close>

fun unwatch :: "string \<Rightarrow> (string \<times> 'a) list \<Rightarrow> (string \<times> 'a) list" where
  "unwatch n [] = []"
| "unwatch n (d # ds) = (if fst d = n then ds else d # unwatch n ds)"

lemma unwatch_map_prod: "map (map_prod id f) (unwatch n ds) = unwatch n (map (map_prod id f) ds)"
  by (induction ds) auto

text \<open>
  The devices that should be watched, from the answers of the kernel alone: a device that has come and works
  is added, one that has gone is taken out. Notifications are read in a round whose \<open>poll\<close> reports them; when
  \<open>poll\<close> fails the answer of the round before is seen again, the first component.
\<close>

definition works :: "dev_answer \<Rightarrow> bool" where
  "works A \<longleftrightarrow> 0 \<le> a_fd A \<and> a_version A \<and> a_id A \<and> a_mem_ufds A \<and> a_mem_names A"

fun watch_event :: "bool \<times> string option \<times> dev_answer \<Rightarrow> (string \<times> int) list \<Rightarrow> (string \<times> int) list" where
  "watch_event (created, None, A) ds = ds"
| "watch_event (True, Some n, A) ds = ds @ (if works A then [(''/dev/input/'' @ n, a_fd A)] else [])"
| "watch_event (False, Some n, A) ds = unwatch (''/dev/input/'' @ n) ds"

definition watch_round :: "round \<Rightarrow> bool \<times> (string \<times> int) list \<Rightarrow> bool \<times> (string \<times> int) list" where
  "watch_round r t =
     (let told = (case rd_poll r of None \<Rightarrow> fst t | Some ready \<Rightarrow> ready 0)
      in (told, case rd_notify r of Events es \<Rightarrow> if told then fold watch_event es (snd t) else snd t | _ \<Rightarrow> snd t))"

definition watch_start :: "(string \<times> dev_answer) list option \<Rightarrow> bool \<times> (string \<times> int) list" where
  "watch_start entries = (False, case entries of None \<Rightarrow> []
     | Some es \<Rightarrow> fold (\<lambda>(n, A). watch_event (n \<noteq> ''.'' \<and> n \<noteq> ''..'', if n = ''.'' \<or> n = ''..'' then None else Some n, A)) es [])"

text \<open>The same of a state of the program.\<close>

definition watch_view :: "key_state \<Rightarrow> bool \<times> (string \<times> int) list" where
  "watch_view s = (snd (hd (ufds s)), devices s)"

lemma open_device_in_step:
  assumes "in_step s" "a_strdup A"
  shows "in_step (snd (open_device A device s))"
  using assms by (elim in_stepE) (auto simp: open_device_def in_step_def Let_def)

lemma open_device_works: "fst (open_device A device s) = 0 \<longleftrightarrow> works A"
  by (simp add: open_device_def works_def Let_def)

lemma open_device_devices:
  assumes "in_step s" "a_strdup A"
  shows "devices (snd (open_device A device s)) = devices s @ (if works A then [(device, a_fd A)] else [])"
  using assms by (elim in_stepE) (auto simp: open_device_def devices_def works_def Let_def)

lemma open_device_view:
  assumes "in_step s" "a_strdup A"
  shows "watch_view (snd (open_device A (''/dev/input'' @ ''/'' @ n) s)) =
    (fst (watch_view s), watch_event (True, Some n, A) (snd (watch_view s)))"
proof -
  have "hd (ufds (snd (open_device A d s))) = hd (ufds s)" for d
    using assms(1) by (elim in_stepE) (auto simp: open_device_def Let_def)
  then show ?thesis using open_device_devices[OF assms] by (simp add: watch_view_def)
qed

text \<open>The loop, with the elements split into those it has passed and those ahead of it.\<close>

lemma close_loop_spec:
  assumes "device_names s = ns @ map (Some \<circ> fst) zs" "ufds s = us @ map snd zs" "length ns = i" "length us = i"
  shows "close_loop (length zs) i device s =
    Inr (if device \<in> fst ` set zs then 0 else - 1,
      s\<lparr>device_names := ns @ map (Some \<circ> fst) (unwatch device zs), ufds := us @ map snd (unwatch device zs)\<rparr>)"
  using assms
proof (induction zs arbitrary: i ns us)
  case Nil
  then show ?case by simp
next
  case (Cons z zs)
  show ?case
  proof (cases "fst z = device")
    case True
    then show ?thesis using Cons.prems by (simp add: nth_append)
  next
    case False
    then show ?thesis
      using Cons.prems Cons.IH[of "ns @ [Some (fst z)]" "us @ [snd z]" "i + 1"] by (auto simp: nth_append)
  qed
qed

lemma close_device_spec:
  assumes "in_step s"
  obtains s' where "close_device device s = Inr (if device \<in> fst ` set (devices s) then 0 else - 1, s')"
    "in_step s'" "devices s' = unwatch device (devices s)" "hd (ufds s') = hd (ufds s)"
proof -
  obtain u n zs where z: "ufds s = u # map snd zs" "device_names s = n # map (Some \<circ> fst) zs"
    "devices s = map (map_prod id fst) zs"
    using assms by (rule in_stepE)
  let ?s = "s\<lparr>device_names := n # map (Some \<circ> fst) (unwatch device zs), ufds := u # map snd (unwatch device zs)\<rparr>"
  have "close_device device s = Inr (if device \<in> fst ` set zs then 0 else - 1, ?s)"
    using close_loop_spec[of s "[n]" zs "[u]" 1 device] z by (simp add: close_device_def)
  moreover have "fst ` set (devices s) = fst ` set zs" using z by (force simp: image_image)
  moreover have "devices ?s = unwatch device (devices s)"
    unfolding z unwatch_map_prod[symmetric] by (simp add: devices_def zip_map_map zip_same_conv_map comp_def map_prod_def split_def)
  ultimately show ?thesis using z that[of ?s] by (auto simp: in_step_def)
qed

section \<open>The program keeps the tables in step\<close>

lemma scan_entries_view:
  assumes "in_step s" "\<forall>e\<in>set es. a_strdup (snd e)"
  shows "in_step (scan_entries ''/dev/input'' es s) \<and> watch_view (scan_entries ''/dev/input'' es s) =
    (fst (watch_view s), fold (\<lambda>(n, A). watch_event (n \<noteq> ''.'' \<and> n \<noteq> ''..'',
      if n = ''.'' \<or> n = ''..'' then None else Some n, A)) es (snd (watch_view s)))"
  using assms
proof (induction es arbitrary: s)
  case (Cons e es)
  obtain n A where e: "e = (n, A)" by (cases e)
  then have A: "a_strdup A" using Cons.prems by simp
  show ?case
    using Cons.IH[of s] Cons.IH[OF open_device_in_step[OF Cons.prems(1) A, of "''/dev/input'' @ ''/'' @ n"]] Cons.prems
      open_device_view[OF Cons.prems(1) A, of n] e
    by auto
qed simp

text \<open>The notifications of a round ask for devices whose names could be copied.\<close>

definition notify_names :: "notify \<Rightarrow> bool" where
  "notify_names ev = (case ev of Events es \<Rightarrow> \<forall>e\<in>set es. a_strdup (snd (snd e)) | _ \<Rightarrow> True)"

lemma notify_events_view:
  assumes "in_step s" "\<forall>e\<in>set es. a_strdup (snd (snd e))"
  obtains s' where "notify_events ''/dev/input'' es s = Inr s'" "in_step s'"
    "watch_view s' = (fst (watch_view s), fold watch_event es (snd (watch_view s)))"
  using assms
proof (induction es arbitrary: s thesis)
  case Nil
  then show ?case by simp
next
  case (Cons e es)
  obtain created name A where e: "e = (created, name, A)" by (cases e)
  consider "name = None" | n where "name = Some n" created | n where "name = Some n" "\<not> created" by (cases name) auto
  then show ?case
  proof cases
    case 1
    then show ?thesis using Cons.IH[of s] Cons.prems e by auto
  next
    case 2
    let ?s = "snd (open_device A (''/dev/input'' @ ''/'' @ n) s)"
    have A: "a_strdup A" using Cons.prems e by simp
    show ?thesis
      using Cons.IH[OF _ open_device_in_step[OF Cons.prems(2) A, of "''/dev/input'' @ ''/'' @ n"]] Cons.prems e 2
        open_device_view[OF Cons.prems(2) A, of n] by auto
  next
    case 3
    obtain r s' where c: "close_device (''/dev/input'' @ ''/'' @ n) s = Inr (r, s')" "in_step s'"
        "devices s' = unwatch (''/dev/input'' @ ''/'' @ n) (devices s)" "hd (ufds s') = hd (ufds s)"
      using close_device_spec[OF Cons.prems(2), of "''/dev/input'' @ ''/'' @ n"] by metis
    then have "watch_view s' = (fst (watch_view s), watch_event e (snd (watch_view s)))" using e 3 by (simp add: watch_view_def)
    then show ?thesis using Cons.IH[OF _ c(2)] Cons.prems e 3 c by auto
  qed
qed

lemma set_revents_in_step: "in_step (set_revents a s) \<longleftrightarrow> in_step s"
  by (cases a; cases "ufds s") (simp_all add: set_revents_def in_step_def upt_conv_Cons del: upt_Suc)

lemma set_revents_fds: "map fst (ufds (set_revents a s)) = map fst (ufds s)"
proof (cases a)
  case (Some ready)
  then show ?thesis by (intro nth_equalityI) (simp_all add: set_revents_def)
qed (simp add: set_revents_def)

lemma set_revents_view:
  assumes "in_step s"
  shows "watch_view (set_revents a s) = (case a of None \<Rightarrow> fst (watch_view s) | Some ready \<Rightarrow> ready 0, snd (watch_view s))"
proof -
  have "devices (set_revents a s) = devices s"
    unfolding devices_def map_tl set_revents_fds by (cases a) (simp_all add: set_revents_def)
  moreover have "snd (hd (ufds (set_revents (Some ready) s))) = ready 0" for ready
    using assms by (cases "ufds s") (simp_all add: set_revents_def in_step_def upt_conv_Cons del: upt_Suc)
  ultimately show ?thesis by (cases a) (simp_all add: watch_view_def set_revents_def)
qed

lemma key_round_view:
  assumes "in_step s" "notify_names (rd_notify r)"
  obtains s' where "in_step s'" "key_round H r s = Inr (read_devices H (rd_read r) (tl (ufds s')), s')"
    "watch_view s' = watch_round r (watch_view s)"
proof -
  let ?s = "set_revents (rd_poll r) s"
  have s: "in_step ?s" using assms by (simp add: set_revents_in_step)
  note v = set_revents_view[OF assms(1), of "rd_poll r"]
  have told: "fst (watch_view ?s) \<longleftrightarrow> ufds ?s \<noteq> [] \<and> snd (ufds ?s ! 0)"
    using s by (simp add: watch_view_def in_step_def hd_conv_nth)
  obtain c s' where n: "read_notify ''/dev/input'' (rd_notify r) ?s = Inr (c, s')" "in_step s'"
    "watch_view s' = (fst (watch_view ?s), case rd_notify r of Events es \<Rightarrow> fold watch_event es (snd (watch_view ?s)) | _ \<Rightarrow> snd (watch_view ?s))"
  proof (cases "rd_notify r")
    case (Events es)
    then have "\<forall>e\<in>set es. a_strdup (snd (snd e))" using assms(2) by (simp add: notify_names_def)
    then obtain s' where "notify_events ''/dev/input'' es ?s = Inr s'" "in_step s'"
        "watch_view s' = (fst (watch_view ?s), fold watch_event es (snd (watch_view ?s)))"
      using notify_events_view[OF s] by metis
    then show ?thesis using that Events by (simp add: read_notify_def)
  qed (use that s in \<open>auto simp: read_notify_def\<close>)
  show ?thesis
  proof (cases "fst (watch_view ?s)")
    case True
    moreover have "watch_view s' = watch_round r (watch_view s)"
      using True n(3) v by (auto simp: watch_round_def Let_def split: notify.splits)
    ultimately show ?thesis using that[OF n(2)] n(1) told by (simp add: key_round_def Let_def drop_Suc)
  next
    case False
    then have "key_round H r s = Inr (read_devices H (rd_read r) (tl (ufds ?s)), ?s)"
      unfolding told by (simp only: key_round_def Let_def if_False sum.case drop_Suc drop_0 One_nat_def)
    moreover have "watch_view ?s = watch_round r (watch_view s)"
      using False v by (auto simp: watch_round_def Let_def split: notify.splits)
    ultimately show ?thesis using that[OF s] by blast
  qed
qed

text \<open>A volume key: in some round a device that is watched then gives the code of one.\<close>

definition volume_key :: "input_h \<Rightarrow> round list \<Rightarrow> bool \<times> (string \<times> int) list \<Rightarrow> bool" where
  "volume_key H rs t \<longleftrightarrow> (\<exists>i<length rs. \<exists>(name, fd)\<in>set (snd (fold watch_round (take (i + 1) rs) t)).
     rd_read (rs ! i) fd \<in> {Code (KEY_VOLUMEDOWN H), Code (KEY_VOLUMEUP H)})"

lemma read_devices_exit:
  assumes "read_devices H rd us = Some code"
  shows "code = 1 \<or> code = 42 \<and> (\<exists>fd\<in>fst ` set us. rd fd \<in> {Code (KEY_VOLUMEDOWN H), Code (KEY_VOLUMEUP H)})"
  using assms by (induction H rd us rule: read_devices.induct) (auto split: if_splits input.splits)

lemma watched_fd:
  assumes "in_step s" "fd \<in> fst ` set (tl (ufds s))"
  shows "\<exists>name. (name, fd) \<in> set (snd (watch_view s))"
  using assms by (elim in_stepE) (force simp: watch_view_def)

lemma key_loop_exit:
  assumes "in_step s" "\<forall>r\<in>set rs. notify_names (rd_notify r)"
  shows "key_loop H rs s = Inl Blocked \<or> key_loop H rs s = Inr 1 \<or>
    key_loop H rs s = Inr 42 \<and> volume_key H rs (watch_view s)"
  using assms
proof (induction rs arbitrary: s)
  case Nil
  then show ?case by simp
next
  case (Cons r rs)
  obtain s' where s': "in_step s'" "key_round H r s = Inr (read_devices H (rd_read r) (tl (ufds s')), s')"
      "watch_view s' = watch_round r (watch_view s)"
    using key_round_view Cons.prems by (metis list.set_intros(1))
  show ?case
  proof (cases "read_devices H (rd_read r) (tl (ufds s'))")
    case None
    have "volume_key H (r # rs) (watch_view s)" if "volume_key H rs (watch_view s')"
    proof -
      from that obtain i where "i < length rs" "\<exists>(name, fd)\<in>set (snd (fold watch_round (take (i + 1) rs) (watch_view s'))).
          rd_read (rs ! i) fd \<in> {Code (KEY_VOLUMEDOWN H), Code (KEY_VOLUMEUP H)}"
        by (auto simp: volume_key_def)
      then show ?thesis using s'(3) unfolding volume_key_def by (intro exI[of _ "Suc i"]) simp
    qed
    then show ?thesis using None Cons.IH[OF s'(1)] Cons.prems s'(2) by auto
  next
    case (Some code)
    from read_devices_exit[OF this] show ?thesis
    proof
      assume c: "code = 42 \<and> (\<exists>fd\<in>fst ` set (tl (ufds s')). rd_read r fd \<in> {Code (KEY_VOLUMEDOWN H), Code (KEY_VOLUMEUP H)})"
      then obtain name fd where "(name, fd) \<in> set (snd (watch_view s'))" "rd_read r fd \<in> {Code (KEY_VOLUMEDOWN H), Code (KEY_VOLUMEUP H)}"
        using watched_fd[OF s'(1)] by blast
      then have "volume_key H (r # rs) (watch_view s)" using s'(3) unfolding volume_key_def by (intro exI[of _ 0]) auto
      then show ?thesis using c Some s'(2) by simp
    qed (use Some s'(2) in simp)
  qed
qed

text \<open>
  The watched devices behave as a list: a device that could be opened is added at the end of it, closing a
  device takes the first of that name out and keeps the others in their order with their descriptors, and
  the two arrays stay in step.
\<close>

theorem watched_devices:
  assumes "in_step s" "a_strdup A"
  shows "in_step (snd (open_device A device s)) \<and>
    devices (snd (open_device A device s)) =
      devices s @ (if fst (open_device A device s) = 0 then [(device, a_fd A)] else []) \<and>
    (\<exists>s'. close_device device s = Inr (if device \<in> fst ` set (devices s) then 0 else - 1, s') \<and>
      in_step s' \<and> devices s' = unwatch device (devices s) \<and> hd (ufds s') = hd (ufds s))"
  using open_device_in_step[OF assms] open_device_devices[OF assms] close_device_spec[OF assms(1), of device]
  unfolding open_device_works by metis

text \<open>
  The exit code: with memory for the tables and the names, the program never dereferences \<open>NULL\<close>; it
  waits, exits with 1, or exits with 42 after a device that is watched has given the code of a volume key.
\<close>

lemma keycheck_exits:
  assumes "memory" "\<forall>es. entries = Some es \<longrightarrow> (\<forall>e\<in>set es. a_strdup (snd e))"
    "\<forall>r\<in>set rounds. notify_names (rd_notify r)"
  shows "keycheck_main H memory inotify watch entries rounds = Inl Blocked \<or>
    keycheck_main H memory inotify watch entries rounds = Inr 1 \<or>
    keycheck_main H memory inotify watch entries rounds = Inr 42 \<and> volume_key H rounds (watch_start entries)"
proof -
  let ?s = "\<lparr>ufds = [(inotify, False)], device_names = [None], opened = [inotify]\<rparr>"
  have s: "in_step ?s" "watch_view ?s = (False, [])" by (simp_all add: in_step_def watch_view_def devices_def)
  show ?thesis
  proof (cases entries)
    case (Some es)
    let ?t = "scan_entries ''/dev/input'' es ?s"
    have "in_step ?t" "watch_view ?t = watch_start entries"
      using scan_entries_view[OF s(1), of es] assms(2) s(2) Some by (auto simp: watch_start_def)
    then show ?thesis
      using assms(1) key_loop_exit[OF _ assms(3), of ?t H] Some by (auto simp: keycheck_main_def scan_dir_def Let_def)
  qed (use assms(1) in \<open>simp add: keycheck_main_def scan_dir_def Let_def\<close>)
qed

text \<open>
  A keyboard that is there at the start, and one that is plugged in and removed again before the volume key
  of the first is pressed.
\<close>

definition ok_answer :: "int \<Rightarrow> dev_answer" where
  "ok_answer fd = \<lparr>a_fd = fd, a_version = True, a_id = True, a_mem_ufds = True, a_mem_names = True, a_strdup = True,
     a_revents = False\<rparr>"

definition sample_rounds :: "round list" where
  "sample_rounds = [
     \<lparr>rd_poll = Some (\<lambda>i. i = 0), rd_notify = Events [(True, Some ''event1'', ok_answer 5)], rd_read = (\<lambda>fd. Short)\<rparr>,
     \<lparr>rd_poll = Some (\<lambda>i. i = 0), rd_notify = Events [(False, Some ''event0'', ok_answer 0)], rd_read = (\<lambda>fd. Short)\<rparr>,
     \<lparr>rd_poll = Some (\<lambda>i. i = 1), rd_notify = NoEvent, rd_read = (\<lambda>fd. if fd = 5 then Code 115 else Short)\<rparr>]"

lemma watched_devices_sample:
  "let s = snd (open_device (ok_answer 5) ''b'' (snd (open_device (ok_answer 4) ''a''
       \<lparr>ufds = [(3, False)], device_names = [None], opened = [3]\<rparr>)))
   in devices s = [(''a'', 4), (''b'', 5)] \<and>
     (\<exists>s'. close_device ''a'' s = Inr (0, s') \<and> devices s' = [(''b'', 5)])"
proof -
  let ?s = "snd (open_device (ok_answer 5) ''b'' (snd (open_device (ok_answer 4) ''a''
       \<lparr>ufds = [(3, False)], device_names = [None], opened = [3]\<rparr>)))"
  have "devices ?s = [(''a'', 4), (''b'', 5)]" by code_simp
  moreover have "in_step ?s" "a_strdup (ok_answer 4)" by (code_simp)+
  ultimately show ?thesis using watched_devices[of ?s "ok_answer 4" "''a''"] by (auto simp: Let_def)
qed

lemma keycheck_sample:
  "keycheck_main \<lparr>KEY_VOLUMEDOWN = 114, KEY_VOLUMEUP = 115\<rparr> True 3 1
     (Some [(''.'', ok_answer 0), (''event0'', ok_answer 4)]) sample_rounds = Inr 42 \<and>
   volume_key \<lparr>KEY_VOLUMEDOWN = 114, KEY_VOLUMEUP = 115\<rparr> sample_rounds (watch_start (Some [(''.'', ok_answer 0), (''event0'', ok_answer 4)]))"
proof -
  let ?H = "\<lparr>KEY_VOLUMEDOWN = 114, KEY_VOLUMEUP = 115\<rparr>"
  let ?es = "[(''.'', ok_answer 0), (''event0'', ok_answer 4)]"
  have "keycheck_main ?H True 3 1 (Some ?es) sample_rounds = Inr 42" by code_simp
  moreover have "\<forall>es. Some ?es = Some es \<longrightarrow> (\<forall>e\<in>set es. a_strdup (snd e))" by (simp add: ok_answer_def)
  moreover have "\<forall>r\<in>set sample_rounds. notify_names (rd_notify r)"
    by (simp add: sample_rounds_def notify_names_def ok_answer_def)
  ultimately show ?thesis using keycheck_exits[of True "Some ?es" sample_rounds ?H 3 1] by auto
qed

end
