(* ===== verification/Boot_Key.thy ===== *)
theory Boot_Key
  imports Boot_Props Keycheck
begin

text \<open>
  The first process and keycheck together: the status the process waits for is the one keycheck exits
  with, so that a volume key, and nothing else, leads to the recovery system.
\<close>

text \<open>The status \<open>waitpid\<close> reports for a process that exits with this code.\<close>

definition exit_status :: "int \<Rightarrow> int" where
  "exit_status code = code * 256"

text \<open>Looks at a process that still runs, before the time is over.\<close>

definition still_running :: "int \<Rightarrow> (int \<times> int \<times> int) list \<Rightarrow> bool" where
  "still_running start ws \<longleftrightarrow> (\<forall>(pid, status, cur)\<in>set ws. pid = 0 \<and> cur - start < 3)"

lemma kill_waits:
  assumes "still_running start ws"
  shows "system_exec_kill 3 start (ws @ ws') = system_exec_kill 3 start ws'"
  using assms by (induction ws) (auto simp: still_running_def)

text \<open>
  C18 Booting with keycheck, when the warm boot file does not ask for the recovery system, keycheck could be
  started and the names of the devices could be copied: if keycheck ends within three seconds, the recovery
  ramdisk is unpacked exactly if it has exited with 42, and then a device of /dev/input that had come and not
  gone, whose descriptor was read in that round, has given the code of a volume key; otherwise it is the ramdisk
  of Android. When keycheck still waits after three seconds it is terminated, and Android is booted.
\<close>

theorem volume_key_recovery:
  assumes "\<not> file_contains E WARMBOOT_CMDLINE WARMBOOT_RECOVERY" "fork_result E > 0"
    and "waits E = ws @ [w]" "still_running (time_start E) ws"
    and "keycheck_main H True inotify watch entries rounds = outcome"
    and "\<forall>es. entries = Some es \<longrightarrow> (\<forall>e\<in>set es. a_strdup (snd e))" "\<forall>r\<in>set rounds. notify_names (rd_notify r)"
    and "w = (case outcome of Inr code \<Rightarrow> (fork_result E, exit_status code, cur) | Inl f \<Rightarrow> (0, 0, time_start E + 3))"
  shows "\<exists>cs. init_main E = Inr (cs @ (if argc E < 2 then [Clear_dir ''/dev'', Inline [''/init'']] else [])) \<and>
    runs cs = [cpio_args (if outcome = Inr 42 then SBIN_CPIO_RECOVERY else SBIN_CPIO_ANDROID)] \<and>
    (outcome = Inr 42 \<longrightarrow> volume_key H rounds (watch_start entries))"
proof -
  have out: "outcome = Inl Blocked \<or> outcome = Inr 1 \<or> outcome = Inr 42 \<and> volume_key H rounds (watch_start entries)"
    using keycheck_exits[OF TrueI assms(6,7), of H inotify watch] assms(5) by blast
  let ?status = "case outcome of Inr code \<Rightarrow> exit_status code | Inl f \<Rightarrow> 0"
  have "system_exec_kill KEYCHECK_TIMEOUT (time_start E) (waits E) = Inr (?status, outcome = Inl Blocked)"
    using assms(2,3,8) out kill_waits[OF assms(4), of "[w]"] by (auto simp: KEYCHECK_TIMEOUT_def)
  then obtain ks where "keycheck E = Inr (ks, ?status = KEYCHECK_RECOVERY_BOOT \<or> ?status = KEYCHECK_RECOVERY_FOTA)" "plain ks"
    using keycheck_ok[OF assms(1)] assms(2) by fastforce
  moreover have "(?status = KEYCHECK_RECOVERY_BOOT \<or> ?status = KEYCHECK_RECOVERY_FOTA) = (outcome = Inr 42)"
    using out by (auto simp: KEYCHECK_RECOVERY_BOOT_def KEYCHECK_RECOVERY_FOTA_def exit_status_def)
  ultimately obtain cs where "init_main E = Inr (cs @ (if argc E < 2 then [Clear_dir ''/dev'', Inline [''/init'']] else []))"
      "runs cs = [cpio_args (if outcome = Inr 42 then SBIN_CPIO_RECOVERY else SBIN_CPIO_ANDROID)]"
    using main_ok[of E ks "outcome = Inr 42"] by auto
  then show ?thesis using out by (intro exI[of _ cs] conjI) auto
qed

theorem volume_key_recovery_witness:
  "keycheck_main \<lparr>KEY_VOLUMEDOWN = 114, KEY_VOLUMEUP = 115\<rparr> True 3 1 (Some [(''event0'', ok_answer 4)]) sample_rounds = Inr 42 \<and>
   (\<exists>cs. init_main sample_boot = Inr (cs @ [Clear_dir ''/dev'', Inline [''/init'']]) \<and> runs cs = [cpio_args ''/sbin/ramdisk-recovery.cpio''])"
proof -
  let ?H = "\<lparr>KEY_VOLUMEDOWN = 114, KEY_VOLUMEUP = 115\<rparr>"
  let ?es = "[(''event0'', ok_answer 4)]"
  have k: "keycheck_main ?H True 3 1 (Some ?es) sample_rounds = Inr 42" by code_simp
  have "\<not> file_contains sample_boot WARMBOOT_CMDLINE WARMBOOT_RECOVERY" "fork_result sample_boot > 0"
    by (simp_all add: file_contains_def sample_boot_def WARMBOOT_RECOVERY_def)
  moreover have "waits sample_boot = [(0, 0, 101)] @ [(7, 42 * 256, 101)]" "still_running (time_start sample_boot) [(0, 0, 101)]"
    by (simp_all add: sample_boot_def still_running_def)
  moreover have "\<forall>es. Some ?es = Some es \<longrightarrow> (\<forall>e\<in>set es. a_strdup (snd e))" by (simp add: ok_answer_def)
  moreover have "\<forall>r\<in>set sample_rounds. notify_names (rd_notify r)"
    by (simp add: sample_rounds_def notify_names_def ok_answer_def)
  ultimately have "\<exists>cs. init_main sample_boot = Inr (cs @ (if argc sample_boot < 2 then [Clear_dir ''/dev'', Inline [''/init'']] else [])) \<and>
      runs cs = [cpio_args (if Inr 42 = (Inr 42 :: int result) then SBIN_CPIO_RECOVERY else SBIN_CPIO_ANDROID)] \<and>
      (Inr 42 = (Inr 42 :: int result) \<longrightarrow> volume_key ?H sample_rounds (watch_start (Some ?es)))"
    using k by (intro volume_key_recovery[where cur = 101]) (auto simp: sample_boot_def exit_status_def)
  then have "\<exists>cs. init_main sample_boot = Inr (cs @ (if argc sample_boot < 2 then [Clear_dir ''/dev'', Inline [''/init'']] else [])) \<and>
      runs cs = [cpio_args SBIN_CPIO_RECOVERY]" by auto
  moreover have "argc sample_boot < 2" by (simp add: sample_boot_def)
  ultimately show ?thesis using k by (simp add: SBIN_CPIO_RECOVERY_def)
qed

end
