(* ===== verification/Shim_Weak.thy ===== *)
theory Shim_Weak
  imports Shim_RefBase
begin

text \<open>
  The weak pointers of libshims/RefBase.h. An operation on them calls operations of \<open>RefBase\<close>, whose counting
  is the subject of \<open>Shim_RefBase\<close>; here the calls are recorded, and compared with what those operations
  need (\<open>takes\<close>) and leave (\<open>gives\<close>). The versions of an operation for another class differ only in its type.
\<close>

section \<open>Pointers\<close>

text \<open>Addresses are numbers, 0 is \<open>NULL\<close>. \<open>m_refs\<close> of a pointer that is \<open>NULL\<close> may be uninitialised.\<close>

record wp =
  m_ptr :: nat
  m_refs :: nat

text \<open>A call of an operation on the counters at an address.\<close>

type_synonym ref_call = "nat \<times> ref_op"

text \<open>\<open>R\<close> gives the address of an object's counters, \<open>mRefs\<close>.\<close>

definition createWeak :: "(nat \<Rightarrow> nat) \<Rightarrow> nat \<Rightarrow> ref_call list \<times> nat" where
  "createWeak R p = ([(R p, WeakOfStrong)], R p)"

definition drop_wp :: "wp \<Rightarrow> ref_call list" where
  "drop_wp w = (if m_ptr w \<noteq> 0 then [(m_refs w, DropWeak)] else [])"

definition wp_null :: "nat \<Rightarrow> wp" where
  "wp_null garbage = \<lparr>m_ptr = 0, m_refs = garbage\<rparr>"

definition wp_of_ptr :: "(nat \<Rightarrow> nat) \<Rightarrow> nat \<Rightarrow> nat \<Rightarrow> ref_call list \<times> wp" where
  "wp_of_ptr R garbage other =
     (if other \<noteq> 0 then (case createWeak R other of (cs, r) \<Rightarrow> (cs, \<lparr>m_ptr = other, m_refs = r\<rparr>))
      else ([], \<lparr>m_ptr = other, m_refs = garbage\<rparr>))"

definition wp_of_wp :: "wp \<Rightarrow> ref_call list \<times> wp" where
  "wp_of_wp other = (if m_ptr other \<noteq> 0 then [(m_refs other, CopyWeak)] else [], \<lparr>m_ptr = m_ptr other, m_refs = m_refs other\<rparr>)"

text \<open>\<open>other\<close> is the pointer in the \<open>sp\<close>.\<close>

definition wp_of_sp :: "(nat \<Rightarrow> nat) \<Rightarrow> nat \<Rightarrow> nat \<Rightarrow> ref_call list \<times> wp" where
  "wp_of_sp R garbage other =
     (if other \<noteq> 0 then (case createWeak R other of (cs, r) \<Rightarrow> (cs, \<lparr>m_ptr = other, m_refs = r\<rparr>))
      else ([], \<lparr>m_ptr = other, m_refs = garbage\<rparr>))"

definition delete_wp :: "wp \<Rightarrow> ref_call list" where
  "delete_wp w = drop_wp w"

definition assign_ptr :: "(nat \<Rightarrow> nat) \<Rightarrow> nat \<Rightarrow> wp \<Rightarrow> ref_call list \<times> wp" where
  "assign_ptr R other w =
     (case (if other \<noteq> 0 then createWeak R other else ([], 0)) of
        (cs, newRefs) \<Rightarrow> (cs @ drop_wp w, \<lparr>m_ptr = other, m_refs = newRefs\<rparr>))"

definition assign_wp :: "wp \<Rightarrow> wp \<Rightarrow> ref_call list \<times> wp" where
  "assign_wp other w =
     (let otherRefs = m_refs other; otherPtr = m_ptr other
      in ((if otherPtr \<noteq> 0 then [(otherRefs, CopyWeak)] else []) @ drop_wp w, \<lparr>m_ptr = otherPtr, m_refs = otherRefs\<rparr>))"

definition assign_sp :: "(nat \<Rightarrow> nat) \<Rightarrow> nat \<Rightarrow> wp \<Rightarrow> ref_call list \<times> wp" where
  "assign_sp R other w =
     (case (if other \<noteq> 0 then createWeak R other else ([], 0)) of
        (cs, newRefs) \<Rightarrow> (cs @ drop_wp w, \<lparr>m_ptr = other, m_refs = newRefs\<rparr>))"

definition set_object_and_refs :: "nat \<Rightarrow> nat \<Rightarrow> wp \<Rightarrow> ref_call list \<times> wp" where
  "set_object_and_refs other refs w =
     ((if other \<noteq> 0 then [(refs, CopyWeak)] else []) @ drop_wp w, \<lparr>m_ptr = other, m_refs = refs\<rparr>)"

text \<open>\<open>ok\<close> is the answer of \<open>attemptIncStrong\<close>; the result is the pointer in the \<open>sp\<close>.\<close>

definition promote :: "bool \<Rightarrow> wp \<Rightarrow> ref_call list \<times> nat" where
  "promote ok w = (if m_ptr w \<noteq> 0 then ([(m_refs w, Promote)], if ok then m_ptr w else 0) else ([], 0))"

definition clear_wp :: "wp \<Rightarrow> ref_call list \<times> wp" where
  "clear_wp w = (if m_ptr w \<noteq> 0 then (drop_wp w, w\<lparr>m_ptr := 0\<rparr>) else ([], w))"

section \<open>Comparison\<close>

definition wp_eq :: "wp \<Rightarrow> wp \<Rightarrow> bool" where
  "wp_eq w v \<longleftrightarrow> m_ptr w = m_ptr v \<and> m_refs w = m_refs v"

definition wp_gt :: "wp \<Rightarrow> wp \<Rightarrow> bool" where
  "wp_gt w v = (if m_ptr w = m_ptr v then m_refs w > m_refs v else m_ptr w > m_ptr v)"

definition wp_lt :: "wp \<Rightarrow> wp \<Rightarrow> bool" where
  "wp_lt w v = (if m_ptr w = m_ptr v then m_refs w < m_refs v else m_ptr w < m_ptr v)"

definition wp_ne :: "wp \<Rightarrow> wp \<Rightarrow> bool" where
  "wp_ne w v \<longleftrightarrow> m_refs w \<noteq> m_refs v"

definition wp_le :: "wp \<Rightarrow> wp \<Rightarrow> bool" where
  "wp_le w v \<longleftrightarrow> \<not> wp_gt w v"

definition wp_ge :: "wp \<Rightarrow> wp \<Rightarrow> bool" where
  "wp_ge w v \<longleftrightarrow> \<not> wp_lt w v"

section \<open>LightRefBase\<close>

definition light_incStrong :: "i32 \<Rightarrow> i32" where
  "light_incStrong mCount = mCount + 1"

text \<open>The count, and whether the object is deleted.\<close>

definition light_decStrong :: "i32 \<Rightarrow> i32 \<times> bool" where
  "light_decStrong mCount = (mCount - 1, mCount = 1)"

end
