(* ===== verification/Shim_Weak_Props.thy ===== *)
theory Shim_Weak_Props
  imports Shim_Weak Guarded_System
begin

text \<open>
  Weak pointers keep to the contract of \<open>RefBase\<close>: in every program the references that are counted at an
  object are the weak pointers to it, and no operation is called without the reference it needs, in
  particular not when a pointer is assigned to itself.
\<close>

section \<open>The contract\<close>

text \<open>The references held at an address, strong ones first; a call is allowed if those it takes are there.\<close>

type_synonym ledger = "nat \<Rightarrow> nat \<times> nat"

definition book :: "bool \<Rightarrow> ref_call \<Rightarrow> ledger \<Rightarrow> ledger option" where
  "book ok c L = (case c of (r, op1) \<Rightarrow>
     if fst (takes op1) \<le> fst (L r) \<and> snd (takes op1) \<le> snd (L r)
     then Some (L(r := (fst (L r) - fst (takes op1) + fst (gives op1 ok), snd (L r) - snd (takes op1) + snd (gives op1 ok))))
     else None)"

primrec books :: "bool \<Rightarrow> ref_call list \<Rightarrow> ledger \<Rightarrow> ledger option" where
  "books ok [] L = Some L"
| "books ok (c # cs) L = Option.bind (book ok c L) (books ok cs)"

lemma books_append: "books ok (cs @ ds) L = Option.bind (books ok cs L) (books ok ds)"
  by (induction cs arbitrary: L) (simp_all split: bind_split)

section \<open>Programs\<close>

text \<open>
  Variables that hold weak pointers, and the ledger. A program constructs, copies, assigns, promotes, clears and
  deletes them; a plain pointer or a \<open>sp\<close> is used while a strong reference is held. Strong references come and go besides.
\<close>

record wp_sys =
  vars :: "nat \<rightharpoonup> wp"
  ledger :: ledger

datatype wp_act = New_null nat nat | New_ptr nat nat nat | New_sp nat nat nat | New_wp nat nat | Assign_ptr nat nat | Assign_sp nat nat
  | Assign_wp nat nat | Set_object nat nat | Promote_wp nat bool | Clear_wp nat | Delete_wp nat | Strong nat ref_op

definition settle :: "bool \<Rightarrow> nat \<Rightarrow> ref_call list \<times> wp option \<Rightarrow> wp_sys \<Rightarrow> wp_sys result" where
  "settle ok v res s = (case res of (cs, w) \<Rightarrow> case books ok cs (ledger s) of
       None \<Rightarrow> Inl UseAfterFree
     | Some L \<Rightarrow> Inr (s\<lparr>vars := (vars s)(v := w), ledger := L\<rparr>))"

definition usable :: "(nat \<Rightarrow> nat) \<Rightarrow> nat \<Rightarrow> wp_sys \<Rightarrow> bool" where
  "usable R p s \<longleftrightarrow> p = 0 \<or> fst (ledger s (R p)) > 0"

text \<open>\<open>None\<close> when the program may not do this.\<close>

fun wp_step :: "(nat \<Rightarrow> nat) \<Rightarrow> wp_act \<Rightarrow> wp_sys \<Rightarrow> wp_sys result option" where
  "wp_step R (New_null v g) s = (if vars s v = None then Some (settle True v ([], Some (wp_null g)) s) else None)"
| "wp_step R (New_ptr v g p) s =
     (if vars s v = None \<and> usable R p s then Some (settle True v (map_prod id Some (wp_of_ptr R g p)) s) else None)"
| "wp_step R (New_sp v g p) s =
     (if vars s v = None \<and> usable R p s then Some (settle True v (map_prod id Some (wp_of_sp R g p)) s) else None)"
| "wp_step R (New_wp v u) s = (case vars s u of
     None \<Rightarrow> None
   | Some x \<Rightarrow> if vars s v = None then Some (settle True v (map_prod id Some (wp_of_wp x)) s) else None)"
| "wp_step R (Assign_ptr v p) s = (case vars s v of
     None \<Rightarrow> None
   | Some w \<Rightarrow> if usable R p s then Some (settle True v (map_prod id Some (assign_ptr R p w)) s) else None)"
| "wp_step R (Assign_sp v p) s = (case vars s v of
     None \<Rightarrow> None
   | Some w \<Rightarrow> if usable R p s then Some (settle True v (map_prod id Some (assign_sp R p w)) s) else None)"
| "wp_step R (Assign_wp v u) s = (case (vars s v, vars s u) of
     (Some w, Some x) \<Rightarrow> Some (settle True v (map_prod id Some (assign_wp x w)) s)
   | _ \<Rightarrow> None)"
| "wp_step R (Set_object v p) s = (case vars s v of
     None \<Rightarrow> None
   | Some w \<Rightarrow> if p = 0 \<or> snd (ledger s (R p)) > 0
       then Some (settle True v (map_prod id Some (set_object_and_refs p (R p) w)) s) else None)"
| "wp_step R (Promote_wp v ok) s = (case vars s v of
     None \<Rightarrow> None | Some w \<Rightarrow> Some (settle ok v (fst (promote ok w), Some w) s))"
| "wp_step R (Clear_wp v) s = (case vars s v of
     None \<Rightarrow> None | Some w \<Rightarrow> Some (settle True v (map_prod id Some (clear_wp w)) s))"
| "wp_step R (Delete_wp v) s = (case vars s v of None \<Rightarrow> None | Some w \<Rightarrow> Some (settle True v (delete_wp w, None) s))"
| "wp_step R (Strong r op1) s =
     (if op1 \<in> {CopyStrong, DropStrong, FirstStrong}
      then map_option (\<lambda>L. Inr (s\<lparr>ledger := L\<rparr>)) (book True (r, op1) (ledger s)) else None)"

section \<open>Counting\<close>

definition here :: "nat \<Rightarrow> wp option \<Rightarrow> nat" where
  "here r x = (case x of None \<Rightarrow> 0 | Some w \<Rightarrow> if m_ptr w \<noteq> 0 \<and> m_refs w = r then 1 else 0)"

text \<open>The weak pointers to the object whose counters are at \<open>r\<close>.\<close>

definition pointers :: "nat \<Rightarrow> (nat \<rightharpoonup> wp) \<Rightarrow> nat" where
  "pointers r V = (\<Sum>v\<in>dom V. here r (V v))"

lemma pointers_on: "finite A \<Longrightarrow> dom V \<subseteq> A \<Longrightarrow> pointers r V = (\<Sum>v\<in>A. here r (V v))"
  unfolding pointers_def by (rule sum.mono_neutral_left) (auto simp: here_def split: option.splits)

lemma pointers_upd:
  assumes "finite (dom V)"
  shows "pointers r (V(v := x)) + here r (V v) = pointers r V + here r x"
proof -
  let ?A = "insert v (dom V)"
  have A: "finite ?A" "dom (V(v := x)) \<subseteq> ?A" "dom V \<subseteq> ?A" using assms by auto
  have "pointers r (V(v := x)) = here r x + (\<Sum>u\<in>?A - {v}. here r ((V(v := x)) u))"
    unfolding pointers_on[OF A(1,2)] by (subst sum.remove[OF A(1), of v]) (simp_all only: insertI1 fun_upd_same)
  moreover have "(\<Sum>u\<in>?A - {v}. here r ((V(v := x)) u)) = (\<Sum>u\<in>?A - {v}. here r (V u))" by (rule sum.cong) auto
  moreover have "pointers r V = here r (V v) + (\<Sum>u\<in>?A - {v}. here r (V u))"
    unfolding pointers_on[OF A(1,3)] by (rule sum.remove[OF A(1)]) simp
  ultimately show ?thesis by simp
qed

lemma pointers_ge: "finite (dom V) \<Longrightarrow> V v = x \<Longrightarrow> here r x \<le> pointers r V"
  unfolding pointers_def using member_le_sum[of v "dom V" "\<lambda>v. here r (V v)"] by (cases x) (auto simp: here_def dom_def)

definition wp_ok :: "(nat \<Rightarrow> nat) \<Rightarrow> wp_sys \<Rightarrow> bool" where
  "wp_ok R s \<longleftrightarrow> finite (dom (vars s)) \<and> (\<forall>r. snd (ledger s r) = pointers r (vars s)) \<and>
     (\<forall>v w. vars s v = Some w \<longrightarrow> m_ptr w \<noteq> 0 \<longrightarrow> m_refs w = R (m_ptr w))"

text \<open>
  An operation that replaces the pointer in a variable: first it takes a reference for the new one, then it drops the
  reference of the old one.
\<close>

lemma settle_ok:
  assumes "wp_ok R s" "books ok cs (ledger s) = Some L"
    and "\<And>r. snd (L r) = snd (ledger s r) + here r x"
    and "\<And>w. x = Some w \<Longrightarrow> m_ptr w \<noteq> 0 \<Longrightarrow> m_refs w = R (m_ptr w)"
    and "drops = (case vars s v of None \<Rightarrow> [] | Some w \<Rightarrow> drop_wp w)"
  obtains s' where "settle ok v (cs @ drops, x) s = Inr s'" "wp_ok R s'"
proof -
  let ?old = "vars s v"
  have fin: "finite (dom (vars s))" using assms(1) by (simp add: wp_ok_def)
  have cnt: "snd (ledger s r) = pointers r (vars s)" for r using assms(1) by (simp add: wp_ok_def)
  have ge: "here r ?old \<le> snd (L r)" for r using pointers_ge[OF fin refl, of r v] assms(3)[of r] cnt[of r] by simp
  obtain L' where L': "books ok drops L = Some L'" "\<And>r. snd (L' r) = snd (L r) - here r ?old"
  proof (cases "\<exists>w. ?old = Some w \<and> m_ptr w \<noteq> 0")
    case True
    then obtain w where w: "?old = Some w" "m_ptr w \<noteq> 0" by blast
    have "1 \<le> snd (L (m_refs w))" using ge[of "m_refs w"] w by (simp add: here_def)
    then show ?thesis using that w assms(5) by (simp add: drop_wp_def book_def here_def)
  next
    case False
    then have "drops = []" "here r ?old = 0" for r using assms(5) by (auto simp: drop_wp_def here_def split: option.splits)
    then show ?thesis using that by simp
  qed
  let ?s = "s\<lparr>vars := (vars s)(v := x), ledger := L'\<rparr>"
  have "snd (L' r) = pointers r ((vars s)(v := x))" for r
    using pointers_upd[OF fin, of r v x] L'(2)[of r] assms(3)[of r] cnt[of r] by simp
  then have "wp_ok R ?s" using assms(1,4) fin by (auto simp: wp_ok_def)
  then show ?thesis using that assms(2) L'(1) by (simp add: settle_def books_append)
qed

text \<open>The references that constructors and assignments take.\<close>

lemma books_create: "fst (L (R p)) > 0 \<Longrightarrow> books True [(R p, WeakOfStrong)] L = Some (L(R p := (fst (L (R p)), snd (L (R p)) + 1)))"
  by (simp add: book_def)

lemma books_copy: "snd (L r) > 0 \<Longrightarrow> books True [(r, CopyWeak)] L = Some (L(r := (fst (L r), snd (L r) + 1)))"
  by (simp add: book_def)

lemma here_wp: "here r (Some w) = (if m_ptr w \<noteq> 0 \<and> m_refs w = r then 1 else 0)"
  by (simp add: here_def)

lemma take_ptr_ok:
  assumes "wp_ok R s" "usable R p s" "drops = (case vars s v of None \<Rightarrow> [] | Some w \<Rightarrow> drop_wp w)"
  shows "\<exists>s'. settle True v ((if p \<noteq> 0 then [(R p, WeakOfStrong)] else []) @ drops,
    Some \<lparr>m_ptr = p, m_refs = if p \<noteq> 0 then R p else g\<rparr>) s = Inr s' \<and> wp_ok R s'"
proof (cases "p = 0")
  case True
  show ?thesis
    by (rule settle_ok[OF assms(1), of True "[]" "ledger s" "Some \<lparr>m_ptr = p, m_refs = if p \<noteq> 0 then R p else g\<rparr>" drops v])
      (use True assms(3) in \<open>auto simp: here_wp\<close>)
next
  case False
  then have "fst (ledger s (R p)) > 0" using assms(2) by (simp add: usable_def)
  note b = books_create[of "ledger s" R p, OF this]
  show ?thesis
    by (rule settle_ok[OF assms(1) b, of "Some \<lparr>m_ptr = p, m_refs = if p \<noteq> 0 then R p else g\<rparr>" drops v])
      (use False assms(3) in \<open>auto simp: here_wp\<close>)
qed

lemma take_wp_ok:
  assumes "wp_ok R s" "m_ptr x \<noteq> 0 \<Longrightarrow> m_refs x = R (m_ptr x) \<and> snd (ledger s (m_refs x)) > 0"
    and "drops = (case vars s v of None \<Rightarrow> [] | Some w \<Rightarrow> drop_wp w)"
  shows "\<exists>s'. settle True v ((if m_ptr x \<noteq> 0 then [(m_refs x, CopyWeak)] else []) @ drops, Some x) s = Inr s' \<and> wp_ok R s'"
proof (cases "m_ptr x = 0")
  case True
  show ?thesis
    by (rule settle_ok[OF assms(1), of True "[]" "ledger s" "Some x" drops v]) (use True assms(3) in \<open>auto simp: here_wp\<close>)
next
  case False
  then have "snd (ledger s (m_refs x)) > 0" using assms(2) by blast
  note b = books_copy[of "ledger s" "m_refs x", OF this]
  show ?thesis
    by (rule settle_ok[OF assms(1) b, of "Some x" drops v]) (use False assms(2,3) in \<open>auto simp: here_wp\<close>)
qed

lemma wp_ok_var:
  assumes "wp_ok R s" "vars s v = Some w" "m_ptr w \<noteq> 0"
  shows "m_refs w = R (m_ptr w) \<and> snd (ledger s (m_refs w)) > 0"
proof -
  have "here (m_refs w) (Some w) \<le> pointers (m_refs w) (vars s)"
    using assms(1,2) by (intro pointers_ge[of _ v]) (simp_all add: wp_ok_def)
  then show ?thesis using assms by (simp add: wp_ok_def here_wp)
qed

section \<open>Programs keep to the contract\<close>

lemma replace_ok:
  assumes "wp_ok R s" "vars s v = Some w"
  shows "\<exists>s'. settle True v (drop_wp w, None) s = Inr s' \<and> wp_ok R s'"
    and "\<exists>s'. settle True v (map_prod id Some (clear_wp w)) s = Inr s' \<and> wp_ok R s'"
proof -
  show "\<exists>s'. settle True v (drop_wp w, None) s = Inr s' \<and> wp_ok R s'"
    by (rule settle_ok[OF assms(1), of True "[]" "ledger s" None "drop_wp w" v]) (use assms(2) in \<open>auto simp: here_def\<close>)
  have "\<exists>s'. settle True v (drop_wp w, Some (w\<lparr>m_ptr := 0\<rparr>)) s = Inr s' \<and> wp_ok R s'"
    by (rule settle_ok[OF assms(1), of True "[]" "ledger s" "Some (w\<lparr>m_ptr := 0\<rparr>)" "drop_wp w" v])
      (use assms(2) in \<open>auto simp: here_def\<close>)
  moreover have "s\<lparr>vars := (vars s)(v \<mapsto> w), ledger := ledger s\<rparr> = s" using assms(2) by (simp add: fun_upd_idem)
  ultimately show "\<exists>s'. settle True v (map_prod id Some (clear_wp w)) s = Inr s' \<and> wp_ok R s'"
    using assms(1) by (simp add: clear_wp_def settle_def)
qed

lemma promote_ok:
  assumes "wp_ok R s" "vars s v = Some w"
  shows "\<exists>s'. settle ok v (fst (promote ok w), Some w) s = Inr s' \<and> wp_ok R s'"
proof (cases "m_ptr w = 0")
  case True
  have "s\<lparr>vars := (vars s)(v \<mapsto> w), ledger := ledger s\<rparr> = s" using assms(2) by (simp add: fun_upd_idem)
  then show ?thesis using True assms(1) by (simp add: promote_def settle_def)
next
  case False
  let ?r = "m_refs w"
  have "snd (ledger s ?r) > 0" using wp_ok_var[OF assms False] by blast
  then have "settle ok v (fst (promote ok w), Some w) s =
      Inr (s\<lparr>ledger := (ledger s)(?r := (fst (ledger s ?r) + (if ok then 1 else 0), snd (ledger s ?r)))\<rparr>)"
    using False assms(2) by (simp add: promote_def settle_def book_def fun_upd_idem)
  moreover have "wp_ok R (s\<lparr>ledger := (ledger s)(?r := (fst (ledger s ?r) + (if ok then 1 else 0), snd (ledger s ?r)))\<rparr>)"
    using assms(1) by (simp add: wp_ok_def)
  ultimately show ?thesis by blast
qed

text \<open>Constructors and assignments in one form.\<close>

lemma wp_forms:
  "map_prod id Some (wp_of_ptr R g p) = ((if p \<noteq> 0 then [(R p, WeakOfStrong)] else []) @ [], Some \<lparr>m_ptr = p, m_refs = if p \<noteq> 0 then R p else g\<rparr>)"
  "map_prod id Some (wp_of_sp R g p) = ((if p \<noteq> 0 then [(R p, WeakOfStrong)] else []) @ [], Some \<lparr>m_ptr = p, m_refs = if p \<noteq> 0 then R p else g\<rparr>)"
  "map_prod id Some (wp_of_wp x) = ((if m_ptr x \<noteq> 0 then [(m_refs x, CopyWeak)] else []) @ [], Some x)"
  "map_prod id Some (assign_ptr R p w) = ((if p \<noteq> 0 then [(R p, WeakOfStrong)] else []) @ drop_wp w, Some \<lparr>m_ptr = p, m_refs = if p \<noteq> 0 then R p else 0\<rparr>)"
  "map_prod id Some (assign_sp R p w) = ((if p \<noteq> 0 then [(R p, WeakOfStrong)] else []) @ drop_wp w, Some \<lparr>m_ptr = p, m_refs = if p \<noteq> 0 then R p else 0\<rparr>)"
  "map_prod id Some (assign_wp x w) = ((if m_ptr x \<noteq> 0 then [(m_refs x, CopyWeak)] else []) @ drop_wp w, Some x)"
  by (simp_all add: wp_of_ptr_def wp_of_sp_def wp_of_wp_def assign_ptr_def assign_sp_def assign_wp_def createWeak_def Let_def)

lemma wp_step_ok:
  assumes "wp_ok R s" "wp_step R act s = Some res"
  shows "\<exists>s'. res = Inr s' \<and> wp_ok R s'"
proof (cases act)
  case (New_null v g)
  then have "vars s v = None" "res = settle True v ([], Some (wp_null g)) s" using assms(2) by (auto split: if_splits)
  then show ?thesis using take_ptr_ok[OF assms(1), of 0 "[]" v g] by (simp add: usable_def wp_null_def)
next
  case (New_ptr v g p)
  then have n: "vars s v = None" "usable R p s" "res = settle True v (map_prod id Some (wp_of_ptr R g p)) s"
    using assms(2) by (auto split: if_splits)
  show ?thesis unfolding n(3) wp_forms by (rule take_ptr_ok[OF assms(1) n(2)]) (simp add: n(1))
next
  case (New_sp v g p)
  then have n: "vars s v = None" "usable R p s" "res = settle True v (map_prod id Some (wp_of_sp R g p)) s"
    using assms(2) by (auto split: if_splits)
  show ?thesis unfolding n(3) wp_forms by (rule take_ptr_ok[OF assms(1) n(2)]) (simp add: n(1))
next
  case (New_wp v u)
  then obtain x where n: "vars s u = Some x" "vars s v = None" "res = settle True v (map_prod id Some (wp_of_wp x)) s"
    using assms(2) by (auto split: if_splits option.splits)
  show ?thesis unfolding n(3) wp_forms by (rule take_wp_ok[OF assms(1) wp_ok_var[OF assms(1) n(1)]]) (simp_all add: n(2))
next
  case (Assign_ptr v p)
  then obtain w where n: "vars s v = Some w" "usable R p s" "res = settle True v (map_prod id Some (assign_ptr R p w)) s"
    using assms(2) by (auto split: if_splits option.splits)
  show ?thesis unfolding n(3) wp_forms by (rule take_ptr_ok[OF assms(1) n(2)]) (simp add: n(1))
next
  case (Assign_sp v p)
  then obtain w where n: "vars s v = Some w" "usable R p s" "res = settle True v (map_prod id Some (assign_sp R p w)) s"
    using assms(2) by (auto split: if_splits option.splits)
  show ?thesis unfolding n(3) wp_forms by (rule take_ptr_ok[OF assms(1) n(2)]) (simp add: n(1))
next
  case (Assign_wp v u)
  then obtain w x where n: "vars s v = Some w" "vars s u = Some x" "res = settle True v (map_prod id Some (assign_wp x w)) s"
    using assms(2) by (auto split: option.splits)
  show ?thesis unfolding n(3) wp_forms by (rule take_wp_ok[OF assms(1) wp_ok_var[OF assms(1) n(2)]]) (simp_all add: n(1))
next
  case (Set_object v p)
  then obtain w where n: "vars s v = Some w" "p = 0 \<or> snd (ledger s (R p)) > 0"
      "res = settle True v (map_prod id Some (set_object_and_refs p (R p) w)) s"
    using assms(2) by (auto split: if_splits option.splits)
  show ?thesis
    using take_wp_ok[OF assms(1), of "\<lparr>m_ptr = p, m_refs = R p\<rparr>" "drop_wp w" v] n by (auto simp: set_object_and_refs_def)
next
  case (Promote_wp v ok)
  then show ?thesis using assms promote_ok by (auto split: option.splits)
next
  case (Clear_wp v)
  then show ?thesis using assms replace_ok(2) by (auto split: option.splits)
next
  case (Delete_wp v)
  then show ?thesis using assms replace_ok(1) by (auto simp: delete_wp_def split: option.splits)
next
  case (Strong r op1)
  then obtain L where L: "op1 \<in> {CopyStrong, DropStrong, FirstStrong}" "book True (r, op1) (ledger s) = Some L"
      "res = Inr (s\<lparr>ledger := L\<rparr>)"
    using assms(2) by (auto split: if_splits)
  then have "snd (L x) = snd (ledger s x)" for x by (auto simp: book_def split: if_splits)
  then show ?thesis using L(3) assms(1) by (simp add: wp_ok_def)
qed

definition wp_start :: wp_sys where
  "wp_start = \<lparr>vars = Map.empty, ledger = (\<lambda>r. (0, 0))\<rparr>"

definition wp_reach :: "(nat \<Rightarrow> nat) \<Rightarrow> wp_sys \<Rightarrow> bool" where
  "wp_reach R = act_reach (\<lambda>s. s = wp_start) (wp_step R) (\<lambda>act. True)"

interpretation weak: guarded_system "\<lambda>s. s = wp_start" "wp_step R" "\<lambda>act. True" "wp_ok R" for R
proof unfold_locales
  show "s = wp_start \<Longrightarrow> wp_ok R s" for s by (simp add: wp_ok_def pointers_def wp_start_def)
qed (rule wp_step_ok)

text \<open>
  C28 Weak pointers and their counts: in every program that constructs, copies, assigns, promotes, clears and
  deletes weak pointers, the weak references that are counted for an object are the pointers to it, and every
  operation of \<open>RefBase\<close> that is called finds the references it needs.
\<close>

theorem weak_pointers_counted:
  assumes "wp_reach R s"
  shows "(\<forall>act res. wp_step R act s = Some res \<longrightarrow> (\<exists>s'. res = Inr s')) \<and>
    (\<forall>r. snd (ledger s r) = pointers r (vars s))"
  using weak.no_fault[of R s] weak.inv_reachable[of R s] assms by (auto simp: wp_reach_def wp_ok_def)

text \<open>A pointer to the object at 8 is copied and assigned to itself; then the other one is cleared.\<close>

definition sample_wp_acts :: "wp_act list" where
  "sample_wp_acts = [Strong 9 FirstStrong, New_ptr 1 0 8, New_wp 2 1, Assign_wp 2 2, Strong 9 DropStrong, Clear_wp 1]"

theorem weak_pointers_counted_witness:
  "\<exists>s. act_run (wp_step Suc) sample_wp_acts wp_start = Some s \<and> snd (ledger s 9) = 1 \<and> pointers 9 (vars s) = 1"
proof -
  have "map_option (\<lambda>s. ledger s 9) (act_run (wp_step Suc) sample_wp_acts wp_start) = Some (0, 1)" by code_simp
  then obtain s where s: "act_run (wp_step Suc) sample_wp_acts wp_start = Some s" "snd (ledger s 9) = 1" by auto
  have "wp_reach Suc s" unfolding wp_reach_def by (rule act_run_reach[OF act_start _ s(1)]) simp_all
  then have "snd (ledger s 9) = pointers 9 (vars s)" using weak_pointers_counted[of Suc s] by blast
  then show ?thesis using s by auto
qed

text \<open>
  Why the new reference comes first: with the last reference at an object, dropping it before it is copied would
  leave nothing to copy.
\<close>

lemma drop_first_fails:
  assumes "m_ptr w \<noteq> 0" "L (m_refs w) = (0, 1)"
  shows "books True (drop_wp w @ fst (wp_of_wp w)) L = None" "books True (fst (assign_wp w w)) L \<noteq> None"
  using assms by (simp_all add: drop_wp_def wp_of_wp_def assign_wp_def book_def Let_def)

section \<open>Comparison\<close>

text \<open>The order of weak pointers, by which sorted vectors of them are kept.\<close>

interpretation wp_order: linorder wp_le wp_lt
  by unfold_locales (auto simp: wp_le_def wp_gt_def wp_lt_def split: if_splits intro: wp.equality)

lemma wp_eq_equal: "wp_eq w v \<longleftrightarrow> w = v"
  by (auto simp: wp_eq_def intro: wp.equality)

lemma wp_ge_le: "wp_ge w v = wp_le v w"
  by (auto simp: wp_ge_def wp_le_def wp_lt_def wp_gt_def)

text \<open>Two pointers to nothing need not be equal, and pointers may be neither equal nor unequal.\<close>

lemma null_unequal: "\<not> wp_eq (wp_null 1) (wp_null 2)"
  by (simp add: wp_eq_def wp_null_def)

lemma neither_equal: "\<not> wp_eq \<lparr>m_ptr = 8, m_refs = 9\<rparr> (wp_null 9) \<and> \<not> wp_ne \<lparr>m_ptr = 8, m_refs = 9\<rparr> (wp_null 9)"
  by (simp add: wp_eq_def wp_ne_def wp_null_def)

section \<open>LightRefBase\<close>

text \<open>
  An object is deleted by the call that drops the last of its references, if there were fewer than \<open>2 ^ 32\<close>.
\<close>

lemma light_count:
  assumes "n < 2 ^ 32" "0 < n"
  shows "light_incStrong (of_nat (n - 1)) = of_nat n" "light_decStrong (of_nat n) = (of_nat (n - 1), n = 1)"
proof -
  obtain m where m: "n = Suc m" using assms(2) by (cases n) auto
  show "light_incStrong (of_nat (n - 1)) = of_nat n" by (simp add: m light_incStrong_def)
  have "(of_nat n :: i32) = of_nat 1 \<longleftrightarrow> n = 1" using assms(1) by (subst word_of_nat_eq_iff) (auto simp: take_bit_nat_eq_self)
  then show "light_decStrong (of_nat n) = (of_nat (n - 1), n = 1)" by (simp add: m light_decStrong_def)
qed

end
