(* ===== verification/Shim_Pmem.thy ===== *)
theory Shim_Pmem
  imports Prelude "HOL-Library.Multiset"
begin

unbundle bit_operations_syntax

text \<open>
  libshims/MemoryHeapPmem.cpp: a heap that maps regions of physical memory for its clients and can revoke
  them, while clients drop their references in other threads. The calls of \<open>ioctl\<close> are recorded in order; each
  carries the region it is made for. The build is that of Android (\<open>HAVE_ANDROID_OS\<close>) without assertions.
\<close>

section \<open>State\<close>

text \<open>
  Who holds a strong reference to a region: a client, or a thread that runs \<open>MemoryHeapPmem::revoke\<close> and
  has promoted its weak reference. The strong count is the size of this multiset; that a region is deleted
  when it becomes empty, and that a promotion succeeds before and fails after that, is what the model
  of RefBase.cpp shows.
\<close>

datatype holder = Client | Revoker nat

text \<open>The fields \<open>mOffset\<close> and \<open>mSize\<close> of a region.\<close>

record region =
  rOffset :: "32 word"
  rSize :: "32 word"
  holders :: "holder multiset"

datatype pmem_call = PMEM_MAP nat "32 word" "32 word" | PMEM_UNMAP nat "32 word" "32 word"

text \<open>
  The places in \<open>MemoryHeapPmem::revoke\<close> and \<open>SubRegionMemory::revoke\<close>, with the region at hand and the rest of
  the copy of \<open>mAllocations\<close>: before \<open>promote\<close>, the test of \<open>mSize\<close>, the call of \<open>ioctl\<close>, \<open>mSize = 0\<close>, and the end of the
  reference.
\<close>

datatype revoke_at = Promote "nat list" | Test nat "nat list" | Unmap nat "nat list" | Clear nat "nat list" | Unref nat "nat list"

text \<open>
  A region is named by a number that stands for its address and its block of counters, by which weak
  references are compared, so that it is not used again. \<open>mAllocations\<close> is sorted by it.
\<close>

record heap_pmem =
  heapID :: int
  heap_size :: "32 word"
  regions :: "nat \<rightharpoonup> region"
  used :: "nat set"
  mAllocations :: "nat list"
  revoking :: "nat \<rightharpoonup> revoke_at"
  ioctls :: "pmem_call list"

definition page_round :: "32 word \<Rightarrow> 32 word \<Rightarrow> 32 word" where
  "page_round pagesize len = (len + pagesize - 1) AND NOT (pagesize - 1)"

section \<open>Regions\<close>

definition log_call :: "pmem_call \<Rightarrow> heap_pmem \<Rightarrow> heap_pmem" where
  "log_call c s = s\<lparr>ioctls := ioctls s @ [c]\<rparr>"

definition set_region :: "nat \<Rightarrow> region option \<Rightarrow> heap_pmem \<Rightarrow> heap_pmem" where
  "set_region a r s = s\<lparr>regions := (regions s)(a := r)\<rparr>"

definition new_SubRegionMemory :: "32 word \<Rightarrow> nat \<Rightarrow> 32 word \<Rightarrow> 32 word \<Rightarrow> heap_pmem \<Rightarrow> heap_pmem" where
  "new_SubRegionMemory pagesize a offset len s =
     (let s = (set_region a (Some \<lparr>rOffset = offset, rSize = len, holders = {#Client#}\<rparr>) s)\<lparr>used := insert a (used s)\<rparr>
      in if len > 0 then log_call (PMEM_MAP a offset (page_round pagesize len)) s else s)"

definition getMemory :: "nat \<Rightarrow> heap_pmem \<Rightarrow> (32 word \<times> 32 word) result" where
  "getMemory a s = (case regions s a of None \<Rightarrow> Inl UseAfterFree | Some r \<Rightarrow> Inr (rOffset r, rSize r))"

definition sub_revoke :: "nat \<Rightarrow> heap_pmem \<Rightarrow> heap_pmem result" where
  "sub_revoke a s = (case regions s a of
       None \<Rightarrow> Inl UseAfterFree
     | Some r \<Rightarrow> Inr (if rSize r \<noteq> 0
         then set_region a (Some (r\<lparr>rSize := 0\<rparr>)) (log_call (PMEM_UNMAP a (rOffset r) (rSize r)) s) else s))"

definition remove_region :: "nat \<Rightarrow> heap_pmem \<Rightarrow> heap_pmem" where
  "remove_region a s = s\<lparr>mAllocations := remove1 a (mAllocations s)\<rparr>"

text \<open>The destructors, and the end of a reference; the destructor runs in the thread that drops the last one.\<close>

definition delete_SubRegionMemory :: "nat \<Rightarrow> heap_pmem \<Rightarrow> heap_pmem result" where
  "delete_SubRegionMemory a s = map_sum id (\<lambda>s. set_region a None (remove_region a s)) (sub_revoke a s)"

definition unref_region :: "holder \<Rightarrow> nat \<Rightarrow> heap_pmem \<Rightarrow> heap_pmem result" where
  "unref_region h a s = (case regions s a of
       None \<Rightarrow> Inl UseAfterFree
     | Some r \<Rightarrow>
         let s = set_region a (Some (r\<lparr>holders := holders r - {#h#}\<rparr>)) s
         in if holders r - {#h#} = {#} then delete_SubRegionMemory a s else Inr s)"

section \<open>The heap\<close>

text \<open>
  The constructor, with what \<open>open\<close> and \<open>ioctl\<close> return; a heap that is not connected keeps the descriptor \<open>-1\<close>
  and the size 0 that \<open>MemoryHeapBase\<close> gives it. \<open>getSize\<close> of the parent is an argument.
\<close>

definition new_MemoryHeapPmem :: "string option \<Rightarrow> int \<Rightarrow> int \<Rightarrow> 32 word \<Rightarrow> heap_pmem" where
  "new_MemoryHeapPmem device fd err len =
     (let s = \<lparr>heapID = - 1, heap_size = 0, regions = Map.empty, used = {}, mAllocations = [], revoking = Map.empty, ioctls = []\<rparr>
      in if device \<noteq> None \<and> fd \<ge> 0 \<and> err \<ge> 0 then s\<lparr>heapID := fd, heap_size := len\<rparr> else s)"

definition createMemory :: "32 word \<Rightarrow> nat \<Rightarrow> 32 word \<Rightarrow> 32 word \<Rightarrow> heap_pmem \<Rightarrow> nat option \<times> heap_pmem" where
  "createMemory pagesize a offset len s =
     (if heapID s > 0 then (Some a, new_SubRegionMemory pagesize a offset len s) else (None, s))"

definition mapMemory :: "32 word \<Rightarrow> nat \<Rightarrow> 32 word \<Rightarrow> 32 word \<Rightarrow> heap_pmem \<Rightarrow> nat option \<times> heap_pmem" where
  "mapMemory pagesize a offset len s = (case createMemory pagesize a offset len s of
       (None, s) \<Rightarrow> (None, s)
     | (Some m, s) \<Rightarrow> (Some m, s\<lparr>mAllocations := insort_insert m (mAllocations s)\<rparr>))"

text \<open>
  \<open>slap\<close> and \<open>unslap\<close>: the region they pass to \<open>ioctl\<close> and what they return, for the value \<open>errno\<close> has after it, which a call that
  succeeds leaves as it was.
\<close>

definition slap :: "32 word \<Rightarrow> int \<Rightarrow> heap_pmem \<Rightarrow> (32 word \<times> 32 word) \<times> int" where
  "slap pagesize errno s = ((0, page_round pagesize (heap_size s)), - errno)"

definition unslap :: "32 word \<Rightarrow> int \<Rightarrow> heap_pmem \<Rightarrow> (32 word \<times> 32 word) \<times> int" where
  "unslap pagesize errno s = ((0, page_round pagesize (heap_size s)), - errno)"

text \<open>A step of a thread in \<open>MemoryHeapPmem::revoke\<close>. The copy is made under the lock, when the thread starts.\<close>

definition go :: "nat \<Rightarrow> revoke_at option \<Rightarrow> heap_pmem \<Rightarrow> heap_pmem" where
  "go t l s = s\<lparr>revoking := (revoking s)(t := l)\<rparr>"

definition begin_revoke :: "nat \<Rightarrow> heap_pmem \<Rightarrow> heap_pmem" where
  "begin_revoke t s = go t (Some (Promote (mAllocations s))) s"

fun at_place :: "nat \<Rightarrow> revoke_at \<Rightarrow> heap_pmem \<Rightarrow> heap_pmem result" where
  "at_place t (Promote []) s = Inr (go t None s)"
| "at_place t (Promote (a # as)) s = (case regions s a of
     None \<Rightarrow> Inr (go t (Some (Promote as)) s)
   | Some r \<Rightarrow> Inr (go t (Some (Test a as)) (set_region a (Some (r\<lparr>holders := add_mset (Revoker t) (holders r)\<rparr>)) s)))"
| "at_place t (Test a as) s = (case regions s a of
     None \<Rightarrow> Inl UseAfterFree
   | Some r \<Rightarrow> Inr (go t (Some (if rSize r \<noteq> 0 then Unmap a as else Unref a as)) s))"
| "at_place t (Unmap a as) s = (case regions s a of
     None \<Rightarrow> Inl UseAfterFree
   | Some r \<Rightarrow> Inr (go t (Some (Clear a as)) (log_call (PMEM_UNMAP a (rOffset r) (rSize r)) s)))"
| "at_place t (Clear a as) s = (case regions s a of
     None \<Rightarrow> Inl UseAfterFree
   | Some r \<Rightarrow> Inr (go t (Some (Unref a as)) (set_region a (Some (r\<lparr>rSize := 0\<rparr>)) s)))"
| "at_place t (Unref a as) s = map_sum id (go t (Some (Promote as))) (unref_region (Revoker t) a s)"

section \<open>Steps of all threads\<close>

datatype pmem_act = Map_mem nat "32 word" "32 word" | Copy_ref nat | Drop_ref nat | Begin nat | Step nat

text \<open>
  What can happen: a client maps memory, copies a reference it has or drops it, a thread starts to revoke or goes
  on. \<open>None\<close> when the action is not possible.
\<close>

definition client_has :: "nat \<Rightarrow> heap_pmem \<Rightarrow> bool" where
  "client_has a s = (case regions s a of None \<Rightarrow> False | Some r \<Rightarrow> Client \<in># holders r)"

fun pmem_step :: "32 word \<Rightarrow> pmem_act \<Rightarrow> heap_pmem \<Rightarrow> heap_pmem result option" where
  "pmem_step pagesize (Map_mem a offset len) s =
     (if a \<in> used s then None else Some (Inr (snd (mapMemory pagesize a offset len s))))"
| "pmem_step pagesize (Copy_ref a) s =
     (if client_has a s then Some (Inr (set_region a
         (map_option (\<lambda>r. r\<lparr>holders := add_mset Client (holders r)\<rparr>) (regions s a)) s)) else None)"
| "pmem_step pagesize (Drop_ref a) s = (if client_has a s then Some (unref_region Client a s) else None)"
| "pmem_step pagesize (Begin t) s = (if revoking s t = None then Some (Inr (begin_revoke t s)) else None)"
| "pmem_step pagesize (Step t) s = (case revoking s t of None \<Rightarrow> None | Some l \<Rightarrow> Some (at_place t l s))"

end
