(* ===== verification/Shim_Pmem_Props.thy ===== *)
theory Shim_Pmem_Props
  imports Shim_Pmem Guarded_System
begin

text \<open>
  The regions of a heap in every interleaving of its clients with threads that revoke it: no step uses a
  region that has been deleted; with one thread that revokes at a time every region that was mapped is
  unmapped once; two threads may unmap a region twice. Besides, what the rounding to pages gives.
\<close>

section \<open>References\<close>

fun holds :: "revoke_at \<Rightarrow> nat option" where
  "holds (Promote as) = None"
| "holds (Test a as) = Some a"
| "holds (Unmap a as) = Some a"
| "holds (Clear a as) = Some a"
| "holds (Unref a as) = Some a"

definition held_by :: "heap_pmem \<Rightarrow> nat \<Rightarrow> nat option" where
  "held_by s t = Option.bind (revoking s t) holds"

text \<open>Every region has a holder; a thread holds the region it is at, once, and no other.\<close>

definition refs_ok :: "heap_pmem \<Rightarrow> bool" where
  "refs_ok s \<longleftrightarrow>
     (\<forall>a r. regions s a = Some r \<longrightarrow> holders r \<noteq> {#} \<and> a \<in> used s \<and>
        (\<forall>t. count (holders r) (Revoker t) = (if held_by s t = Some a then 1 else 0))) \<and>
     (\<forall>t a. held_by s t = Some a \<longrightarrow> regions s a \<noteq> None)"

lemmas pmem_simps = set_region_def log_call_def go_def begin_revoke_def remove_region_def

lemma refs_okD:
  assumes "refs_ok s" "regions s a = Some r"
  shows "holders r \<noteq> {#}" "a \<in> used s" "count (holders r) (Revoker t) = (if held_by s t = Some a then 1 else 0)"
  using assms unfolding refs_ok_def by blast+

lemma refs_ok_held: "refs_ok s \<Longrightarrow> held_by s t = Some a \<Longrightarrow> \<exists>r. regions s a = Some r \<and> Revoker t \<in># holders r"
  unfolding refs_ok_def by (metis not_None_eq count_inI one_neq_zero)

lemma held_by_go: "held_by (go t l s) = (held_by s)(t := Option.bind l holds)"
  by (auto simp: held_by_def go_def)

lemma refs_ok_cong:
  "refs_ok s \<Longrightarrow> regions s' = regions s \<Longrightarrow> used s' = used s \<Longrightarrow> held_by s' = held_by s \<Longrightarrow> refs_ok s'"
  unfolding refs_ok_def by simp

text \<open>The end of a reference: the region loses it, or is revoked and deleted.\<close>

lemma unref_regionE:
  assumes "regions s a = Some r"
  obtains "holders r - {#h#} \<noteq> {#}" "unref_region h a s = Inr (set_region a (Some (r\<lparr>holders := holders r - {#h#}\<rparr>)) s)"
  | s' where "holders r - {#h#} = {#}" "unref_region h a s = Inr s'" "regions s' = (regions s)(a := None)"
    "used s' = used s" "revoking s' = revoking s"
    "ioctls s' = ioctls s @ (if rSize r \<noteq> 0 then [PMEM_UNMAP a (rOffset r) (rSize r)] else [])"
    "mAllocations s' = remove1 a (mAllocations s)"
proof (cases "holders r - {#h#} = {#}")
  case True
  then show ?thesis using assms that(2)
    by (auto simp: unref_region_def Let_def delete_SubRegionMemory_def sub_revoke_def pmem_simps)
next
  case False
  then show ?thesis using assms that(1) by (simp add: unref_region_def)
qed

lemma unref_region_refs_ok:
  assumes "refs_ok s" "regions s a = Some r" "h \<in># holders r" "\<And>t. h \<noteq> Revoker t"
  obtains s' where "unref_region h a s = Inr s'" "refs_ok s'"
  using assms(2)
proof (cases rule: unref_regionE[where h = h])
  case 1
  have "refs_ok (set_region a (Some (r\<lparr>holders := holders r - {#h#}\<rparr>)) s)"
    using assms 1(1) unfolding refs_ok_def by (auto simp: pmem_simps held_by_def)
  then show ?thesis using that 1(2) by blast
next
  case (2 s')
  have none: "held_by s t \<noteq> Some a" for t
  proof
    assume "held_by s t = Some a"
    then have "Revoker t \<in># holders r" using refs_ok_held[OF assms(1)] assms(2) by fastforce
    then have "Revoker t \<in># holders r - {#h#}" using assms(4)[of t] by (simp add: in_diff_count)
    then show False using 2(1) by simp
  qed
  have "refs_ok s'" using assms(1) none 2 unfolding refs_ok_def by (auto simp: held_by_def split: if_splits)
  then show ?thesis using that 2(2) by blast
qed

lemma unref_refs_ok:
  assumes "refs_ok s" "revoking s t = Some (Unref a as)"
  obtains s' where "at_place t (Unref a as) s = Inr s'" "refs_ok s'"
proof -
  have h: "held_by s t = Some a" using assms(2) by (simp add: held_by_def)
  obtain r where r: "regions s a = Some r" "Revoker t \<in># holders r" using refs_ok_held[OF assms(1) h] by blast
  have c: "count (holders r - {#Revoker t#}) (Revoker u) = (if held_by s u = Some a \<and> u \<noteq> t then 1 else 0)" for u
    using refs_okD(3)[OF assms(1) r(1), of u] h by auto
  from r(1) show ?thesis
  proof (cases rule: unref_regionE[where h = "Revoker t"])
    case 1
    let ?s = "go t (Some (Promote as)) (set_region a (Some (r\<lparr>holders := holders r - {#Revoker t#}\<rparr>)) s)"
    have "refs_ok ?s" using assms h r 1(1) c unfolding refs_ok_def by (auto simp: pmem_simps held_by_def)
    then show ?thesis using that 1(2) by simp
  next
    case (2 s')
    have none: "held_by s u \<noteq> Some a" if "u \<noteq> t" for u using c[of u] 2(1) that by (auto split: if_splits)
    have "refs_ok (go t (Some (Promote as)) s')"
      using assms(1) none h 2(3-5) unfolding refs_ok_def by (auto simp: held_by_def pmem_simps split: if_splits)
    then show ?thesis using that 2(2) by simp
  qed
qed

lemma at_place_refs_ok:
  assumes "refs_ok s" "revoking s t = Some l"
  obtains s' where "at_place t l s = Inr s'" "refs_ok s'"
proof (cases l)
  case (Promote as)
  show ?thesis
  proof (cases as)
    case Nil
    have "refs_ok (go t None s)"
      using assms Promote by (intro refs_ok_cong[OF assms(1)]) (auto simp: held_by_def go_def)
    then show ?thesis using that Promote Nil by simp
  next
    case (Cons a bs)
    then show ?thesis
    proof (cases "regions s a")
      case None
      then have "refs_ok (go t (Some (Promote bs)) s)"
        using assms Promote by (intro refs_ok_cong[OF assms(1)]) (auto simp: held_by_def go_def)
      then show ?thesis using that Promote Cons None by simp
    next
      case (Some r)
      let ?s = "go t (Some (Test a bs)) (set_region a (Some (r\<lparr>holders := add_mset (Revoker t) (holders r)\<rparr>)) s)"
      have "refs_ok ?s" using assms Promote Some unfolding refs_ok_def by (auto simp: held_by_def pmem_simps)
      then show ?thesis using that Promote Cons Some by simp
    qed
  qed
next
  case (Test a as)
  then obtain r where r: "regions s a = Some r" using refs_ok_held[of s t a] assms by (auto simp: held_by_def)
  have "refs_ok (go t (Some (if rSize r \<noteq> 0 then Unmap a as else Unref a as)) s)"
    using assms Test by (intro refs_ok_cong[OF assms(1)]) (auto simp: held_by_def go_def)
  then show ?thesis using that Test r by simp
next
  case (Unmap a as)
  then obtain r where r: "regions s a = Some r" using refs_ok_held[of s t a] assms by (auto simp: held_by_def)
  have "refs_ok (go t (Some (Clear a as)) (log_call (PMEM_UNMAP a (rOffset r) (rSize r)) s))"
    using assms Unmap by (intro refs_ok_cong[OF assms(1)]) (auto simp: held_by_def go_def log_call_def)
  then show ?thesis using that Unmap r by simp
next
  case (Clear a as)
  then obtain r where r: "regions s a = Some r" using refs_ok_held[of s t a] assms by (auto simp: held_by_def)
  have "refs_ok (go t (Some (Unref a as)) (set_region a (Some (r\<lparr>rSize := 0\<rparr>)) s))"
    using assms Clear r unfolding refs_ok_def by (auto simp: held_by_def pmem_simps)
  then show ?thesis using that Clear r by simp
next
  case (Unref a as)
  then show ?thesis using unref_refs_ok[OF assms(1)] assms(2) that by blast
qed

lemma map_refs_ok:
  assumes "refs_ok s" "a \<notin> used s"
  shows "refs_ok (snd (mapMemory pagesize a offset len s))"
proof (cases "heapID s > 0")
  case True
  have "held_by s t \<noteq> Some a" for t using refs_ok_held[OF assms(1), of t a] refs_okD(2)[OF assms(1), of a] assms(2) by auto
  then show ?thesis using True assms unfolding refs_ok_def
    by (auto simp: mapMemory_def createMemory_def new_SubRegionMemory_def held_by_def pmem_simps Let_def)
qed (use assms in \<open>simp add: mapMemory_def createMemory_def\<close>)

text \<open>Every step that is possible succeeds, and keeps the references in order.\<close>

lemma step_refs_ok:
  assumes "refs_ok s" "pmem_step pagesize act s = Some res"
  obtains s' where "res = Inr s'" "refs_ok s'"
proof (cases act)
  case (Map_mem a offset len)
  then show ?thesis using assms that map_refs_ok by (auto split: if_splits)
next
  case (Copy_ref a)
  then obtain r where r: "regions s a = Some r" using assms by (auto simp: client_has_def split: if_splits option.splits)
  have "refs_ok (set_region a (Some (r\<lparr>holders := add_mset Client (holders r)\<rparr>)) s)"
    using assms(1) r unfolding refs_ok_def by (auto simp: held_by_def pmem_simps)
  then show ?thesis using assms(2) that Copy_ref r by (auto split: if_splits)
next
  case (Drop_ref a)
  then obtain r where r: "regions s a = Some r" "Client \<in># holders r" "res = unref_region Client a s"
    using assms by (auto simp: client_has_def split: if_splits option.splits)
  show ?thesis using unref_region_refs_ok[OF assms(1) r(1,2)] that r(3) by auto
next
  case (Begin t)
  then have b: "revoking s t = None" "res = Inr (begin_revoke t s)" using assms(2) by (auto split: if_splits)
  have "refs_ok (begin_revoke t s)"
    using b(1) by (intro refs_ok_cong[OF assms(1)]) (auto simp: held_by_def go_def begin_revoke_def)
  then show ?thesis using that b(2) by blast
next
  case (Step t)
  then obtain l where "revoking s t = Some l" "res = at_place t l s" using assms(2) by (auto split: option.splits)
  then show ?thesis using at_place_refs_ok[OF assms(1)] that by metis
qed

section \<open>Mapped and unmapped\<close>

fun maps_of :: "nat \<Rightarrow> pmem_call \<Rightarrow> (32 word \<times> 32 word) list" where
  "maps_of a (PMEM_MAP b off len) = (if b = a then [(off, len)] else [])"
| "maps_of a (PMEM_UNMAP b off len) = []"

fun unmaps_of :: "nat \<Rightarrow> pmem_call \<Rightarrow> (32 word \<times> 32 word) list" where
  "unmaps_of a (PMEM_MAP b off len) = []"
| "unmaps_of a (PMEM_UNMAP b off len) = (if b = a then [(off, len)] else [])"

text \<open>What a region has been mapped and unmapped with, in order.\<close>

definition maps :: "nat \<Rightarrow> heap_pmem \<Rightarrow> (32 word \<times> 32 word) list" where
  "maps a s = concat (map (maps_of a) (ioctls s))"

definition unmaps :: "nat \<Rightarrow> heap_pmem \<Rightarrow> (32 word \<times> 32 word) list" where
  "unmaps a s = concat (map (unmaps_of a) (ioctls s))"

text \<open>What is still mapped, unless the thread that revokes stands right after the call that unmaps it.\<close>

definition pending :: "nat \<Rightarrow> heap_pmem \<Rightarrow> (32 word \<times> 32 word) list" where
  "pending a s = (case regions s a of
       None \<Rightarrow> []
     | Some r \<Rightarrow> if rSize r \<noteq> 0 \<and> (\<forall>as. revoking s 0 \<noteq> Some (Clear a as)) then [(rOffset r, rSize r)] else [])"

definition rounded :: "32 word \<Rightarrow> (32 word \<times> 32 word) list \<Rightarrow> (32 word \<times> 32 word) list" where
  "rounded pagesize = map (map_prod id (page_round pagesize))"

text \<open>
  With the one thread 0 that revokes: every mapping has been undone or is pending, with the length before it was
  rounded.
\<close>

definition once_ok :: "32 word \<Rightarrow> heap_pmem \<Rightarrow> bool" where
  "once_ok pagesize s \<longleftrightarrow>
     (\<forall>t. revoking s t \<noteq> None \<longrightarrow> t = 0) \<and>
     (\<forall>a. maps a s = rounded pagesize (unmaps a s @ pending a s) \<and> length (maps a s) \<le> 1 \<and> (a \<notin> used s \<longrightarrow> maps a s = [])) \<and>
     (\<forall>a as r. revoking s 0 = Some (Unmap a as) \<longrightarrow> regions s a = Some r \<longrightarrow> rSize r \<noteq> 0)"

lemma once_okD:
  assumes "once_ok pagesize s"
  shows "revoking s t \<noteq> None \<Longrightarrow> t = 0" "maps a s = rounded pagesize (unmaps a s @ pending a s)" "length (maps a s) \<le> 1"
    "a \<notin> used s \<Longrightarrow> maps a s = []" "revoking s 0 = Some (Unmap a as) \<Longrightarrow> regions s a = Some r \<Longrightarrow> rSize r \<noteq> 0"
  using assms unfolding once_ok_def by blast+

lemma rounded_simps [simp]: "rounded P [] = []" "rounded P (x # xs) = (fst x, page_round P (snd x)) # rounded P xs"
  "rounded P (xs @ ys) = rounded P xs @ rounded P ys" "rounded P xs = [] \<longleftrightarrow> xs = []" "length (rounded P xs) = length xs"
  by (simp_all add: rounded_def map_prod_def split_def)

lemma calls_append [simp]:
  "maps a (s\<lparr>ioctls := ioctls s @ cs\<rparr>) = maps a s @ concat (map (maps_of a) cs)"
  "unmaps a (s\<lparr>ioctls := ioctls s @ cs\<rparr>) = unmaps a s @ concat (map (unmaps_of a) cs)"
  by (simp_all add: maps_def unmaps_def)

text \<open>The calls are all that matters for them.\<close>

lemma calls_cong:
  "ioctls s' = ioctls s @ cs \<Longrightarrow> maps a s' = maps a s @ concat (map (maps_of a) cs)"
  "ioctls s' = ioctls s @ cs \<Longrightarrow> unmaps a s' = unmaps a s @ concat (map (unmaps_of a) cs)"
  by (simp_all add: maps_def unmaps_def)

text \<open>A step that makes the calls \<open>cs\<close> keeps the invariant if it takes what it unmaps from what is pending.\<close>

lemma once_ok_step:
  assumes "once_ok P s" "ioctls s' = ioctls s @ cs" "used s' = used s" "\<forall>t. revoking s' t \<noteq> None \<longrightarrow> t = 0"
    and "\<And>a. concat (map (maps_of a) cs) = []" "\<And>a. pending a s = concat (map (unmaps_of a) cs) @ pending a s'"
    and "\<And>a as r. revoking s' 0 = Some (Unmap a as) \<Longrightarrow> regions s' a = Some r \<Longrightarrow> rSize r \<noteq> 0"
  shows "once_ok P s'"
  unfolding once_ok_def
proof (intro conjI allI impI)
  fix a
  have m: "maps a s' = maps a s" using assms(5)[of a] by (simp only: calls_cong(1)[OF assms(2)] append_Nil2)
  have "unmaps a s' @ pending a s' = unmaps a s @ pending a s"
    unfolding calls_cong(2)[OF assms(2)] assms(6)[of a] by simp
  then show "maps a s' = rounded P (unmaps a s' @ pending a s')" using once_okD(2)[OF assms(1), of a] m by (simp only:)
  show "length (maps a s') \<le> 1" using once_okD(3)[OF assms(1), of a] m by simp
  show "maps a s' = []" if "a \<notin> used s'" using once_okD(4)[OF assms(1), of a] assms(3) m that by simp
qed (use assms in auto)

lemma unref_region_once_ok:
  assumes "once_ok P s" "regions s a = Some r" "unref_region h a s = Inr s'"
    and "holders r - {#h#} = {#} \<Longrightarrow> \<forall>as. revoking s 0 \<noteq> Some (Clear a as) \<and> revoking s 0 \<noteq> Some (Unmap a as)"
  shows "once_ok P s' \<and> revoking s' = revoking s"
  using assms(2)
proof (cases rule: unref_regionE[where h = h])
  case 1
  then have s': "s' = set_region a (Some (r\<lparr>holders := holders r - {#h#}\<rparr>)) s" using assms(3) by simp
  have "once_ok P s'"
    by (rule once_ok_step[OF assms(1), of _ "[]"])
      (use s' assms(2) once_okD(1,5)[OF assms(1)] in \<open>auto simp: set_region_def pending_def split: if_splits option.split\<close>)
  then show ?thesis using s' by (simp add: set_region_def)
next
  case (2 s'')
  then have s': "s'' = s'" using assms(3) by simp
  have "once_ok P s'"
    by (rule once_ok_step[OF assms(1) 2(6)[unfolded s']])
      (use s' 2 assms(2) assms(4) once_okD(1,5)[OF assms(1)] in \<open>auto simp: pending_def split: if_splits option.split\<close>)
  then show ?thesis using 2(5) s' by simp
qed

lemma at_place_once_ok:
  assumes "once_ok P s" "refs_ok s" "revoking s 0 = Some l" "at_place 0 l s = Inr s'"
  shows "once_ok P s'"
proof (cases l)
  case (Promote as)
  show ?thesis
    by (rule once_ok_step[OF assms(1), of _ "[]"])
      (use assms(3,4) Promote once_okD(1)[OF assms(1)] in
        \<open>cases as; auto simp: pmem_simps pending_def split: if_splits option.splits\<close>)+
next
  case (Test a as)
  show ?thesis
    by (rule once_ok_step[OF assms(1), of _ "[]"])
      (use assms(3,4) Test once_okD(1)[OF assms(1)] in
        \<open>auto simp: pmem_simps pending_def split: if_splits option.splits\<close>)
next
  case (Unmap a as)
  then obtain r where r: "regions s a = Some r" using refs_ok_held[of s 0 a] assms(2,3) by (auto simp: held_by_def)
  have nz: "rSize r \<noteq> 0" using once_okD(5)[OF assms(1) assms(3)[unfolded Unmap] r] .
  have s': "s' = go 0 (Some (Clear a as)) (log_call (PMEM_UNMAP a (rOffset r) (rSize r)) s)" using assms(4) Unmap r by simp
  show ?thesis
    by (rule once_ok_step[OF assms(1), of _ "[PMEM_UNMAP a (rOffset r) (rSize r)]"])
      (use s' r nz assms(3) Unmap once_okD(1)[OF assms(1)] in
        \<open>auto simp: pmem_simps pending_def split: if_splits option.split\<close>)
next
  case (Clear a as)
  then obtain r where r: "regions s a = Some r" using refs_ok_held[of s 0 a] assms(2,3) by (auto simp: held_by_def)
  have s': "s' = go 0 (Some (Unref a as)) (set_region a (Some (r\<lparr>rSize := 0\<rparr>)) s)" using assms(4) Clear r by simp
  show ?thesis
    by (rule once_ok_step[OF assms(1), of _ "[]"])
      (use s' r assms(3) Clear once_okD(1)[OF assms(1)] in
        \<open>auto simp: pmem_simps pending_def split: if_splits option.split\<close>)
next
  case (Unref a as)
  then obtain r where r: "regions s a = Some r" using refs_ok_held[of s 0 a] assms(2,3) by (auto simp: held_by_def)
  obtain s1 where s1: "unref_region (Revoker 0) a s = Inr s1" "s' = go 0 (Some (Promote as)) s1"
    using assms(4) Unref by (cases "unref_region (Revoker 0) a s") auto
  have o: "once_ok P s1" "revoking s1 = revoking s"
    using unref_region_once_ok[OF assms(1) r s1(1)] assms(3) Unref by auto
  show ?thesis
    by (rule once_ok_step[OF o(1), of _ "[]"])
      (use s1(2) o(2) assms(3) Unref once_okD(1)[OF assms(1)] in
        \<open>auto simp: pmem_simps pending_def split: if_splits option.split\<close>)
qed

lemma map_once_ok:
  assumes "once_ok P s" "refs_ok s" "a \<notin> used s"
  shows "once_ok P (snd (mapMemory P a offset len s))"
proof (cases "heapID s > 0")
  case True
  let ?s = "snd (mapMemory P a offset len s)"
  let ?cs = "if len > 0 then [PMEM_MAP a offset (page_round P len)] else []"
  have s: "ioctls ?s = ioctls s @ ?cs" "revoking ?s = revoking s" "used ?s = insert a (used s)"
      "regions ?s = (regions s)(a \<mapsto> \<lparr>rOffset = offset, rSize = len, holders = {#Client#}\<rparr>)"
    using True by (simp_all add: mapMemory_def createMemory_def new_SubRegionMemory_def pmem_simps Let_def)
  have free: "regions s a = None" using refs_okD(2)[OF assms(2)] assms(3) by (cases "regions s a") auto
  then have away: "revoking s 0 \<noteq> Some (Clear a as)" "revoking s 0 \<noteq> Some (Unmap a as)" for as
    using refs_ok_held[OF assms(2), of 0 a] by (auto simp: held_by_def)
  have e: "maps a s = []" using once_okD(4)[OF assms(1) assms(3)] .
  then have "rounded P (unmaps a s @ pending a s) = []" using once_okD(2)[OF assms(1), of a] by simp
  then have u: "unmaps a s = []" by simp
  have p: "pending b ?s = (if b = a then if len > 0 then [(offset, len)] else [] else pending b s)" for b
    unfolding pending_def s using away by (auto simp: word_gt_0 split: option.split)
  have m: "maps b ?s = maps b s @ (if b = a \<and> len > 0 then [(offset, page_round P len)] else [])" "unmaps b ?s = unmaps b s" for b
    by (simp_all add: calls_cong[OF s(1)])
  show ?thesis
    unfolding once_ok_def
  proof (intro conjI allI impI)
    fix b
    show "maps b ?s = rounded P (unmaps b ?s @ pending b ?s)" "length (maps b ?s) \<le> 1"
      using once_okD(2,3)[OF assms(1), of b] e u by (cases "b = a"; simp add: p m)+
    show "maps b ?s = []" if "b \<notin> used ?s" using once_okD(4)[OF assms(1), of b] that by (auto simp: s m)
  qed (use once_okD(1,5)[OF assms(1)] away in \<open>auto simp: s split: if_splits\<close>)
qed (use assms in \<open>simp add: mapMemory_def createMemory_def\<close>)

text \<open>Actions in which no thread but 0 revokes.\<close>

fun only_first :: "pmem_act \<Rightarrow> bool" where
  "only_first (Begin t) = (t = 0)"
| "only_first (Step t) = (t = 0)"
| "only_first _ = True"

lemma step_once_ok:
  assumes "once_ok P s" "refs_ok s" "pmem_step P act s = Some (Inr s')" "only_first act"
  shows "once_ok P s'"
proof (cases act)
  case (Map_mem a offset len)
  then show ?thesis using assms map_once_ok by (auto split: if_splits)
next
  case (Copy_ref a)
  then obtain r where r: "regions s a = Some r" using assms by (auto simp: client_has_def split: if_splits option.splits)
  then have s': "s' = set_region a (Some (r\<lparr>holders := add_mset Client (holders r)\<rparr>)) s"
    using assms(3) Copy_ref by (auto split: if_splits)
  show ?thesis
    by (rule once_ok_step[OF assms(1), of _ "[]"])
      (use s' r once_okD(1,5)[OF assms(1)] in \<open>auto simp: set_region_def pending_def split: if_splits option.split\<close>)
next
  case (Drop_ref a)
  then obtain r where r: "regions s a = Some r" "Client \<in># holders r" "unref_region Client a s = Inr s'"
    using assms by (auto simp: client_has_def split: if_splits option.splits)
  have "held_by s 0 \<noteq> Some a" if "holders r - {#Client#} = {#}"
  proof
    assume "held_by s 0 = Some a"
    then have "count (holders r) (Revoker 0) = 1" using refs_okD(3)[OF assms(2) r(1), of 0] by simp
    then have "Revoker 0 \<in># holders r - {#Client#}" by (simp add: in_diff_count)
    then show False using that by simp
  qed
  then have "\<forall>as. revoking s 0 \<noteq> Some (Clear a as) \<and> revoking s 0 \<noteq> Some (Unmap a as)" if "holders r - {#Client#} = {#}"
    using that by (auto simp: held_by_def)
  then show ?thesis using unref_region_once_ok[OF assms(1) r(1,3)] by blast
next
  case (Begin t)
  then have b: "revoking s 0 = None" "s' = begin_revoke 0 s" using assms(3,4) by (auto split: if_splits)
  show ?thesis
    by (rule once_ok_step[OF assms(1), of _ "[]"])
      (use b once_okD(1)[OF assms(1)] in \<open>auto simp: pmem_simps pending_def split: if_splits option.split\<close>)
next
  case (Step t)
  then show ?thesis using assms at_place_once_ok by (auto split: option.splits)
qed

section \<open>Reachable states\<close>

text \<open>The states of a heap that is connected, after actions that satisfy \<open>A\<close>.\<close>

definition pmem_start :: "heap_pmem \<Rightarrow> bool" where
  "pmem_start s \<longleftrightarrow> (\<exists>device fd err len. s = new_MemoryHeapPmem device fd err len)"

definition pmem_reach :: "32 word \<Rightarrow> (pmem_act \<Rightarrow> bool) \<Rightarrow> heap_pmem \<Rightarrow> bool" where
  "pmem_reach pagesize A = act_reach pmem_start (pmem_step pagesize) A"

lemma new_ok: "refs_ok (new_MemoryHeapPmem device fd err len)" "once_ok P (new_MemoryHeapPmem device fd err len)"
  by (simp_all add: new_MemoryHeapPmem_def refs_ok_def once_ok_def held_by_def maps_def unmaps_def pending_def Let_def)

lemma start_ok: "pmem_start s \<Longrightarrow> refs_ok s" "pmem_start s \<Longrightarrow> once_ok P s"
  using new_ok by (auto simp: pmem_start_def)

text \<open>The references are in order whatever happens; the calls are in pairs with one thread that revokes.\<close>

interpretation references: guarded_system pmem_start "pmem_step P" "\<lambda>act. True" refs_ok for P
  by unfold_locales (use start_ok(1) step_refs_ok in blast)+

interpretation one_revoker: guarded_system pmem_start "pmem_step P" only_first "\<lambda>s. refs_ok s \<and> once_ok P s" for P
proof unfold_locales
  fix s :: heap_pmem and a :: pmem_act and res
  assume s: "refs_ok s \<and> once_ok P s" "only_first a" "pmem_step P a s = Some res"
  then obtain s' where "res = Inr s'" "refs_ok s'" using step_refs_ok by blast
  then show "\<exists>s'. res = Inr s' \<and> refs_ok s' \<and> once_ok P s'" using s step_once_ok by blast
qed (use start_ok in blast)

section \<open>Pages\<close>

text \<open>The length that is mapped: the smallest multiple of the page size that is not less, if that is a length at all.\<close>

lemma page_round_unat:
  assumes "pagesize = 2 ^ k" "k < 32" "unat len + 2 ^ k \<le> 2 ^ 32"
  shows "unat (page_round pagesize len) = (unat len + 2 ^ k - 1) div 2 ^ k * 2 ^ k"
proof -
  let ?x = "len + mask k :: 32 word"
  have m: "pagesize - 1 = mask k" using assms(1) by (simp add: mask_eq_exp_minus_1)
  have "(2 :: nat) ^ k < 2 ^ 32" using assms(2) by (intro power_strict_increasing) auto
  then have "unat (of_nat (2 ^ k - 1) :: 32 word) = 2 ^ k - 1" by (subst unat_of_nat) simp
  then have "unat (mask k :: 32 word) = 2 ^ k - 1" by (simp add: mask_eq_exp_minus_1 of_nat_diff)
  moreover from this have "unat len + unat (mask k :: 32 word) < 2 ^ LENGTH(32)" using assms(3) by simp
  ultimately have x: "unat ?x = unat len + 2 ^ k - 1" by (simp add: unat_add_lem[THEN iffD1])
  have "page_round pagesize len = ?x AND NOT (mask k)" using m by (simp add: page_round_def flip: add_diff_eq)
  also have "\<dots> = push_bit k (drop_bit k ?x)" by (rule bit_eqI) (auto simp: bit_simps)
  finally have "unat (page_round pagesize len) = take_bit LENGTH(32) (push_bit k (drop_bit k (take_bit LENGTH(32) (unat ?x))))"
    by (simp only: unsigned_push_bit_eq unsigned_drop_bit_eq)
  moreover have "take_bit LENGTH(32) (unat ?x) = unat ?x" by (rule take_bit_nat_eq_self) (rule unsigned_less)
  ultimately have "unat (page_round pagesize len) = take_bit 32 (unat ?x div 2 ^ k * 2 ^ k)"
    by (simp add: push_bit_eq_mult drop_bit_eq_div)
  moreover have "unat ?x div 2 ^ k * 2 ^ k < 2 ^ 32"
    using unsigned_less[of ?x, where ?'a = nat] by (intro le_less_trans[OF div_times_less_eq_dividend]) simp
  ultimately show ?thesis using x by (simp add: take_bit_nat_eq_self)
qed

text \<open>A length in the last page of the address space wraps around: nothing is mapped for it.\<close>

lemma page_round_wraps: "page_round 4096 0xFFFFF001 = 0"
  by (simp add: page_round_def)

text \<open>
  C21 The regions of a heap: whatever clients and threads that revoke do, no step uses a region that has been
  deleted. With one thread that revokes at a time, a region is mapped at most once, with its length rounded up to
  pages, and what is mapped has been unmapped once or is still to be unmapped; nothing stays mapped for a region
  that has been deleted.
\<close>

theorem regions_unmapped_once:
  assumes "pmem_reach pagesize A s"
  shows "(\<forall>act res. pmem_step pagesize act s = Some res \<longrightarrow> (\<exists>s'. res = Inr s')) \<and>
    (A = only_first \<longrightarrow> (\<forall>a. length (maps a s) \<le> 1 \<and> maps a s = rounded pagesize (unmaps a s @ pending a s) \<and>
      (regions s a = None \<longrightarrow> maps a s = rounded pagesize (unmaps a s))))"
proof (intro conjI impI allI)
  fix act res
  assume "pmem_step pagesize act s = Some res"
  moreover have "act_reach pmem_start (pmem_step pagesize) (\<lambda>act. True) s"
    by (rule act_reach_mono[OF assms[unfolded pmem_reach_def]]) simp
  ultimately show "\<exists>s'. res = Inr s'" using references.no_fault by blast
next
  fix a
  assume "A = only_first"
  then have ok: "once_ok pagesize s" using one_revoker.inv_reachable assms by (auto simp: pmem_reach_def)
  show "length (maps a s) \<le> 1" "maps a s = rounded pagesize (unmaps a s @ pending a s)" using once_okD(2,3)[OF ok] by blast+
  show "maps a s = rounded pagesize (unmaps a s)" if "regions s a = None" using once_okD(2)[OF ok, of a] that by (simp add: pending_def)
qed

definition sample_heap :: heap_pmem where
  "sample_heap = new_MemoryHeapPmem (Some ''/dev/pmem'') 7 0 65536"

lemma sample_start: "pmem_start sample_heap"
  by (auto simp: pmem_start_def sample_heap_def)

definition sample_acts :: "pmem_act list" where
  "sample_acts = [Map_mem 1 4096 100, Begin 0, Step 0, Drop_ref 1, Step 0, Step 0, Step 0, Step 0]"

theorem regions_unmapped_once_witness:
  "\<exists>s. act_run (pmem_step 4096) sample_acts sample_heap = Some s \<and> regions s 1 = None \<and> maps 1 s = [(4096, 4096)] \<and>
    maps 1 s = rounded 4096 (unmaps 1 s)"
proof -
  have "map_option (\<lambda>s. (regions s 1 = None, maps 1 s)) (act_run (pmem_step 4096) sample_acts sample_heap) = Some (True, [(4096, 4096)])"
    by code_simp
  then obtain s where s: "act_run (pmem_step 4096) sample_acts sample_heap = Some s" "regions s 1 = None" "maps 1 s = [(4096, 4096)]"
    by auto
  have "pmem_reach 4096 only_first s"
    unfolding pmem_reach_def by (rule act_run_reach[OF act_start[of pmem_start, OF sample_start] _ s(1)]) (simp add: sample_acts_def)
  then have "maps 1 s = rounded 4096 (unmaps 1 s)" using regions_unmapped_once[of 4096 only_first s] s(2) by blast
  then show ?thesis using s by blast
qed

text \<open>
  C22 Two threads that revoke the heap at the same time may both find a region mapped and both unmap it: the comment
  in \<open>SubRegionMemory::revoke\<close> that it needs no lock covers only its destructor. Besides, the length that is
  unmapped is the one before it was rounded up.
\<close>

theorem revoked_twice:
  "\<exists>s. pmem_reach 4096 (\<lambda>act. True) s \<and> maps 1 s = [(4096, 4096)] \<and> unmaps 1 s = [(4096, 100), (4096, 100)]"
proof -
  let ?acts = "[Map_mem 1 4096 100, Begin 0, Begin 1, Step 0, Step 1, Step 0, Step 1, Step 0, Step 1]"
  have "map_option (\<lambda>s. (maps 1 s, unmaps 1 s)) (act_run (pmem_step 4096) ?acts sample_heap) =
      Some ([(4096, 4096)], [(4096, 100), (4096, 100)])" by code_simp
  then obtain s where s: "act_run (pmem_step 4096) ?acts sample_heap = Some s" "maps 1 s = [(4096, 4096)]"
      "unmaps 1 s = [(4096, 100), (4096, 100)]" by auto
  have "pmem_reach 4096 (\<lambda>act. True) s"
    unfolding pmem_reach_def by (rule act_run_reach[OF act_start[of pmem_start, OF sample_start] _ s(1)]) simp
  then show ?thesis using s by blast
qed

end
