(* ===== verification/Shim_Pmem_Vector.thy ===== *)
theory Shim_Pmem_Vector
  imports Shim_Sorted_Set Shim_Weak_Props Shim_Pmem_Props
begin

text \<open>
  The allocations of a heap are a sorted vector of weak pointers: the order of weak pointers meets the contract
  of sorted vectors, and what the model of the heap does to its sorted list of regions is what the vector
  does to its items.
\<close>

section \<open>Weak pointers in sorted vectors\<close>

text \<open>
  A comparison that agrees with \<open>operator <\<close> of weak pointers, which is what the class of the vector asks of its
  items.
\<close>

definition wp_compare :: "wp \<Rightarrow> wp \<Rightarrow> int" where
  "wp_compare w v = (if wp_lt w v then - 1 else if wp_lt v w then 1 else 0)"

lemma wp_compare_signs:
  "wp_compare w v < 0 \<longleftrightarrow> wp_lt w v" "0 < wp_compare w v \<longleftrightarrow> wp_lt v w" "wp_compare w v = 0 \<longleftrightarrow> w = v"
  using wp_order.less_asym[of w v] wp_order.less_linear[of w v] by (auto simp: wp_compare_def)

interpretation wps: comparison wp_compare
proof
  fix x y z
  show "(wp_compare x y < 0) = (0 < wp_compare y x)" by (simp add: wp_compare_signs)
  show "wp_compare x z \<le> 0" if "wp_compare x y \<le> 0" "wp_compare y z \<le> 0"
    using that by (metis not_less wp_compare_signs(2) wp_order.le_less_trans wp_order.not_less)
qed

interpretation wp_items: sorted_items "plain_ops x wp_compare" x for x
  by unfold_locales (simp_all add: plain_ops_def wps.swap wps.trans)

section \<open>The allocations\<close>

text \<open>\<open>W\<close> gives the weak pointer to a region; the numbers of regions are ordered as these are.\<close>

definition region_order :: "(nat \<Rightarrow> wp) \<Rightarrow> bool" where
  "region_order W \<longleftrightarrow> (\<forall>a b. a < b \<longleftrightarrow> wp_lt (W a) (W b))"

lemma region_inj: "region_order W \<Longrightarrow> W a = W b \<longleftrightarrow> a = b"
  unfolding region_order_def by (metis less_linear wp_order.less_irrefl)

lemma parts_map:
  assumes "region_order W"
  shows "smaller wp_compare (W a) (map W as) = map W (filter (\<lambda>b. b < a) as)"
    "greater wp_compare (W a) (map W as) = map W (filter (\<lambda>b. a < b) as)"
  using assms unfolding region_order_def by (simp_all add: parts_defs wp_compare_signs filter_map comp_def)

lemma filter_above:
  assumes "sorted (b # bs)" "distinct (b # bs)" "a \<le> (b :: nat)"
  shows "filter (\<lambda>c. c < a) bs = []" "filter (\<lambda>c. a < c) bs = bs" "a \<notin> set bs"
  using assms by (auto simp: filter_empty_conv filter_id_conv order_le_less)

lemma sorted_parts:
  assumes "sorted as" "distinct as"
  shows "insort_insert a as = filter (\<lambda>b. b < a) as @ a # filter (\<lambda>b. a < b) (as :: nat list)"
    "remove1 a as = filter (\<lambda>b. b < a) as @ filter (\<lambda>b. a < b) as"
  using assms
proof (induction as)
  case (Cons b bs)
  case 1
  note IH = Cons.IH and p = 1
  show ?case
  proof (cases "a \<le> b")
    case True
    then show ?thesis using filter_above[OF p True] by (auto simp: insort_insert_key_def)
  next
    case False
    then show ?thesis using IH p by (auto simp: insort_insert_key_def split: if_splits)
  qed
  case 2
  note p = 2
  show ?case
  proof (cases "a \<le> b")
    case True
    then show ?thesis using filter_above[OF p True] by (auto simp: remove1_idem)
  next
    case False
    then show ?thesis using IH p by auto
  qed
qed (simp_all add: insort_insert_key_def)

text \<open>
  \<open>mapMemory\<close> adds to the list what \<open>SortedVector::add\<close> adds to the vector, and \<open>MemoryHeapPmem::remove\<close> removes what
  \<open>SortedVector::remove\<close> does; the list stays sorted without repetition, as the vector stays strictly sorted.
\<close>

lemma allocations_are_vector:
  assumes "region_order W" "sorted (mAllocations s)" "distinct (mAllocations s)" "heapID s > 0"
  shows "map W (mAllocations (snd (mapMemory pagesize a offset len s))) = set_add wp_compare (W a) (map W (mAllocations s))"
    "map W (mAllocations (remove_region a s)) = set_del wp_compare (W a) (map W (mAllocations s))"
proof -
  have "mAllocations (snd (mapMemory pagesize a offset len s)) = insort_insert a (mAllocations s)"
    using assms(4) by (simp add: mapMemory_def createMemory_def new_SubRegionMemory_def pmem_simps Let_def)
  then show "map W (mAllocations (snd (mapMemory pagesize a offset len s))) = set_add wp_compare (W a) (map W (mAllocations s))"
    using sorted_parts(1)[OF assms(2,3), of a] parts_map[OF assms(1), of a] by (simp add: set_add_def)
  show "map W (mAllocations (remove_region a s)) = set_del wp_compare (W a) (map W (mAllocations s))"
    using sorted_parts(2)[OF assms(2,3), of a] parts_map[OF assms(1), of a] by (simp add: set_del_def remove_region_def)
qed

lemma strict_allocations:
  assumes "region_order W" "sorted as" "distinct as"
  shows "strict_by wp_compare (map W as)"
proof -
  have "sorted_wrt (<) as" using assms(2,3) by (simp add: strict_sorted_iff)
  moreover have "(\<lambda>a b. wp_lt (W a) (W b)) = (<)" using assms(1) by (simp add: region_order_def fun_eq_iff)
  ultimately show ?thesis by (simp add: strict_by_def sorted_wrt_map wp_compare_signs)
qed

section \<open>The allocations are the regions\<close>

definition allocations_ok :: "heap_pmem \<Rightarrow> bool" where
  "allocations_ok s \<longleftrightarrow> sorted (mAllocations s) \<and> distinct (mAllocations s) \<and> set (mAllocations s) = dom (regions s)"

lemma allocations_ok_same:
  "allocations_ok s \<Longrightarrow> mAllocations s' = mAllocations s \<Longrightarrow> dom (regions s') = dom (regions s) \<Longrightarrow> allocations_ok s'"
  by (simp add: allocations_ok_def)

lemma unref_allocations_ok:
  assumes "allocations_ok s" "unref_region h a s = Inr s'"
  shows "allocations_ok s'"
proof (cases "regions s a")
  case (Some r)
  from Some show ?thesis
  proof (cases rule: unref_regionE[where h = h])
    case 1
    then have "s' = set_region a (Some (r\<lparr>holders := holders r - {#h#}\<rparr>)) s" using assms(2) by simp
    then show ?thesis using Some by (intro allocations_ok_same[OF assms(1)]) (auto simp: set_region_def)
  next
    case (2 s'')
    then show ?thesis using assms by (simp add: allocations_ok_def sorted_remove1)
  qed
qed (use assms in \<open>simp add: unref_region_def\<close>)

lemma at_place_allocations_ok:
  assumes "allocations_ok s" "at_place t l s = Inr s'"
  shows "allocations_ok s'"
proof (cases l)
  case (Unref a as)
  then obtain s1 where s1: "unref_region (Revoker t) a s = Inr s1" "s' = go t (Some (Promote as)) s1"
    using assms(2) by (cases "unref_region (Revoker t) a s") auto
  show ?thesis by (rule allocations_ok_same[OF unref_allocations_ok[OF assms(1) s1(1)]]) (simp_all add: s1(2) go_def)
next
  case (Promote as)
  show ?thesis
  proof (cases as)
    case Nil
    then show ?thesis using assms(2) Promote by (intro allocations_ok_same[OF assms(1)]) (auto simp: go_def)
  next
    case (Cons a bs)
    show ?thesis by (rule allocations_ok_same[OF assms(1)]; cases "regions s a") (use assms(2) Promote Cons in \<open>auto simp: pmem_simps split: if_splits\<close>)
  qed
next
  case (Test a as)
  show ?thesis by (rule allocations_ok_same[OF assms(1)]; cases "regions s a") (use assms(2) Test in \<open>auto simp: pmem_simps\<close>)
next
  case (Unmap a as)
  show ?thesis by (rule allocations_ok_same[OF assms(1)]; cases "regions s a") (use assms(2) Unmap in \<open>auto simp: pmem_simps\<close>)
next
  case (Clear a as)
  show ?thesis by (rule allocations_ok_same[OF assms(1)]; cases "regions s a") (use assms(2) Clear in \<open>auto simp: pmem_simps split: if_splits\<close>)
qed

lemma map_allocations_ok:
  assumes "allocations_ok s"
  shows "allocations_ok (snd (mapMemory pagesize a offset len s))"
proof (cases "heapID s > 0")
  case True
  then have "mAllocations (snd (mapMemory pagesize a offset len s)) = insort_insert a (mAllocations s)"
      "dom (regions (snd (mapMemory pagesize a offset len s))) = insert a (dom (regions s))"
    by (simp_all add: mapMemory_def createMemory_def new_SubRegionMemory_def pmem_simps Let_def)
  then show ?thesis using assms by (simp add: allocations_ok_def sorted_insort_insert distinct_insort_insert set_insort_insert)
qed (use assms in \<open>simp add: mapMemory_def createMemory_def\<close>)

lemma step_allocations_ok:
  assumes "allocations_ok s" "pmem_step pagesize act s = Some (Inr s')"
  shows "allocations_ok s'"
proof (cases act)
  case (Map_mem a offset len)
  then show ?thesis using assms map_allocations_ok by (auto split: if_splits)
next
  case (Copy_ref a)
  then show ?thesis using assms
    by (intro allocations_ok_same[OF assms(1)]) (auto simp: client_has_def set_region_def split: if_splits option.splits)
next
  case (Begin t)
  then show ?thesis using assms
    by (intro allocations_ok_same[OF assms(1)]) (auto simp: pmem_simps split: if_splits)
next
  case (Drop_ref a)
  then have "unref_region Client a s = Inr s'" using assms(2) by (simp split: if_splits)
  then show ?thesis using unref_allocations_ok[OF assms(1)] by blast
next
  case (Step t)
  then obtain l where "at_place t l s = Inr s'" using assms(2) by (auto split: option.splits)
  then show ?thesis using at_place_allocations_ok[OF assms(1)] by blast
qed

interpretation allocations: guarded_system pmem_start "pmem_step P" "\<lambda>act. True" "\<lambda>s. refs_ok s \<and> allocations_ok s" for P
proof unfold_locales
  have "allocations_ok (new_MemoryHeapPmem device fd err len)" for device fd err len
    by (simp add: allocations_ok_def new_MemoryHeapPmem_def Let_def)
  then show "refs_ok s \<and> allocations_ok s" if "pmem_start s" for s
    using that start_ok(1)[OF that] by (auto simp: pmem_start_def)
  fix s :: heap_pmem and a :: pmem_act and res
  assume s: "refs_ok s \<and> allocations_ok s" "pmem_step P a s = Some res"
  then obtain s' where "res = Inr s'" "refs_ok s'" using step_refs_ok by blast
  then show "\<exists>s'. res = Inr s' \<and> refs_ok s' \<and> allocations_ok s'" using s step_allocations_ok by blast
qed

text \<open>
  In every reachable state the vector of allocations holds the weak pointers to the regions there are, each once and
  in the order sorted vectors rely on: a copy of it, as \<open>revoke\<close> makes it, misses no region.
\<close>

theorem allocations_are_regions:
  assumes "pmem_reach pagesize A s" "region_order W"
  shows "set (mAllocations s) = dom (regions s) \<and> strict_by wp_compare (map W (mAllocations s))"
proof -
  have "allocations_ok s"
    using allocations.inv_reachable[OF act_reach_mono[OF assms(1)[unfolded pmem_reach_def]]] by simp
  then show ?thesis using strict_allocations[OF assms(2)] by (simp add: allocations_ok_def)
qed

end
