(* ===== verification/Gralloc.thy ===== *)
theory Gralloc
  imports Prelude
begin

unbundle bit_operations_syntax

text \<open>
  The handle of a graphics buffer, include/gralloc\_priv.h: its construction, and how a handle that comes from
  another process is recognised. A \<open>native_handle\<close> of the C library is a header and the descriptors and integers it
  counts; the size of the header is a parameter.
\<close>

section \<open>Handles\<close>

record native_handle =
  version :: i32
  numFds :: i32
  numInts :: i32
  nh_data :: "i32 list"

definition handle_ok :: "native_handle \<Rightarrow> bool" where
  "handle_ok h \<longleftrightarrow> length (nh_data h) = unat (numFds h) + unat (numInts h)"

record private_handle_t =
  fd :: i32
  fd_metadata :: i32
  magic :: i32
  flags :: i32
  handle_size :: i32
  offset :: i32
  bufferType :: i32
  base :: i32
  offset_metadata :: i32
  gpuaddr :: i32
  format :: i32
  width :: i32
  height :: i32
  base_metadata :: i32

definition sNumInts :: i32 where "sNumInts = 12"
definition sNumFds :: i32 where "sNumFds = 2"

text \<open>\<open>'gmsm'\<close>, the four characters from the highest byte to the lowest.\<close>

definition sMagic :: i32 where "sMagic = 0x676D736D"

definition PRIV_FLAGS_USES_PMEM :: i32 where "PRIV_FLAGS_USES_PMEM = 0x00000002"
definition PRIV_FLAGS_EXTERNAL_ONLY :: i32 where "PRIV_FLAGS_EXTERNAL_ONLY = 0x00002000"
definition PRIV_FLAGS_PROTECTED_BUFFER :: i32 where "PRIV_FLAGS_PROTECTED_BUFFER = 0x00004000"
definition PRIV_FLAGS_OPAQUE_SURFACE :: i32 where "PRIV_FLAGS_OPAQUE_SURFACE = 0x00006000"

text \<open>The structure in memory: the fields follow the header, descriptors first.\<close>

definition in_memory :: "i32 \<Rightarrow> private_handle_t \<Rightarrow> native_handle" where
  "in_memory sz p = \<lparr>version = sz, numFds = sNumFds, numInts = sNumInts,
     nh_data = [fd p, fd_metadata p, magic p, flags p, handle_size p, offset p, bufferType p, base p, offset_metadata p,
       gpuaddr p, format p, width p, height p, base_metadata p]\<rparr>"

fun as_private :: "i32 list \<Rightarrow> private_handle_t result" where
  "as_private [a, b, c, d, e, f, g, h, i, j, k, l, m, n] =
     Inr \<lparr>fd = a, fd_metadata = b, magic = c, flags = d, handle_size = e, offset = f, bufferType = g, base = h,
       offset_metadata = i, gpuaddr = j, format = k, width = l, height = m, base_metadata = n\<rparr>"
| "as_private _ = Inl OutOfBounds"

definition new_private_handle_t ::
  "i32 \<Rightarrow> i32 \<Rightarrow> i32 \<Rightarrow> i32 \<Rightarrow> i32 \<Rightarrow> i32 \<Rightarrow> i32 \<Rightarrow> i32 \<Rightarrow> i32 \<Rightarrow> i32 \<Rightarrow> private_handle_t" where
  "new_private_handle_t fd1 sz flags1 bufferType1 format1 width1 height1 eFd eOffset eBase =
     \<lparr>fd = fd1, fd_metadata = eFd, magic = sMagic, flags = flags1, handle_size = sz, offset = 0, bufferType = bufferType1,
       base = 0, offset_metadata = eOffset, gpuaddr = 0, format = format1, width = width1, height = height1,
       base_metadata = eBase\<rparr>"

definition delete_private_handle_t :: "private_handle_t \<Rightarrow> private_handle_t" where
  "delete_private_handle_t p = p\<lparr>magic := 0\<rparr>"

definition usesPhysicallyContiguousMemory :: "private_handle_t \<Rightarrow> bool" where
  "usesPhysicallyContiguousMemory p \<longleftrightarrow> flags p AND PRIV_FLAGS_USES_PMEM \<noteq> 0"

section \<open>Recognition\<close>

text \<open>The third word after the header, which lies in the handle only if it is long enough.\<close>

definition read_magic :: "native_handle \<Rightarrow> i32 result" where
  "read_magic h = (if length (nh_data h) > 2 then Inr (nh_data h ! 2) else Inl OutOfBounds)"

text \<open>The refusal logs the magic number of any handle but \<open>NULL\<close>.\<close>

definition refuse :: "native_handle option \<Rightarrow> int result" where
  "refuse h = (case h of
       None \<Rightarrow> Inr (- 22)
     | Some h \<Rightarrow> (case read_magic h of Inl f \<Rightarrow> Inl f | Inr m \<Rightarrow> Inr (- 22)))"

definition validate :: "i32 \<Rightarrow> native_handle option \<Rightarrow> int result" where
  "validate sz h = (case h of
       None \<Rightarrow> refuse None
     | Some n \<Rightarrow>
         if version n \<noteq> sz \<or> numInts n \<noteq> sNumInts \<or> numFds n \<noteq> sNumFds then refuse h
         else (case read_magic n of Inl f \<Rightarrow> Inl f | Inr m \<Rightarrow> if m \<noteq> sMagic then refuse h else Inr 0))"

definition dynamicCast :: "i32 \<Rightarrow> native_handle option \<Rightarrow> native_handle option result" where
  "dynamicCast sz h = (case validate sz h of Inl f \<Rightarrow> Inl f | Inr r \<Rightarrow> Inr (if r = 0 then h else None))"

section \<open>Properties\<close>

lemma as_private_in_memory [simp]: "as_private (nh_data (in_memory sz p)) = Inr p"
  by (simp add: in_memory_def)

lemma in_memory_ok [simp]: "handle_ok (in_memory sz p)"
  by (simp add: in_memory_def handle_ok_def sNumFds_def sNumInts_def)

lemma in_memory_long [simp]: "length (nh_data (in_memory sz p)) > 2"
  by (simp add: in_memory_def)

lemma as_private_long: "length xs = 14 \<Longrightarrow> \<exists>p. as_private xs = Inr p \<and> magic p = xs ! 2"
  by (auto simp: length_Suc_conv eval_nat_numeral)

lemma private_of_long:
  assumes "as_private xs = Inr p" "version h = sz" "numFds h = sNumFds" "numInts h = sNumInts" "nh_data h = xs"
  shows "h = in_memory sz p"
  using assms by (cases h; cases xs rule: as_private.cases) (auto simp: in_memory_def)

text \<open>
  C23 A handle that is cast is a private handle: for a handle whose data are as long as it says, and at
  least three words, \<open>dynamicCast\<close> stays inside the handle and returns it if and only if it is the memory of
  a \<open>private_handle_t\<close> with the magic number, so that all fields may be read. It returns every handle that the
  constructor made, and none that the destructor has left.
\<close>

theorem handle_cast:
  assumes "handle_ok h" "length (nh_data h) > 2"
  shows "dynamicCast sz (Some h) =
      Inr (if \<exists>p. magic p = sMagic \<and> h = in_memory sz p then Some h else None) \<and>
    dynamicCast sz (Some (in_memory sz (new_private_handle_t a b c d e f g i j k))) =
      Inr (Some (in_memory sz (new_private_handle_t a b c d e f g i j k))) \<and>
    dynamicCast sz (Some (in_memory sz (delete_private_handle_t p))) = Inr None"
proof (intro conjI)
  let ?fits = "version h = sz \<and> numInts h = sNumInts \<and> numFds h = sNumFds"
  have "(\<exists>p. magic p = sMagic \<and> h = in_memory sz p) \<longleftrightarrow> ?fits \<and> nh_data h ! 2 = sMagic"
  proof
    assume r: "?fits \<and> nh_data h ! 2 = sMagic"
    then have "length (nh_data h) = 14" using assms(1) by (simp add: handle_ok_def sNumFds_def sNumInts_def)
    then obtain p where "as_private (nh_data h) = Inr p" "magic p = nh_data h ! 2" using as_private_long by blast
    then show "\<exists>p. magic p = sMagic \<and> h = in_memory sz p" using r private_of_long[of "nh_data h" p h sz] by auto
  qed (auto simp: in_memory_def)
  then show "dynamicCast sz (Some h) = Inr (if \<exists>p. magic p = sMagic \<and> h = in_memory sz p then Some h else None)"
    using assms(2) by (auto simp: dynamicCast_def validate_def refuse_def read_magic_def)
  show "dynamicCast sz (Some (in_memory sz (new_private_handle_t a b c d e f g i j k))) =
      Inr (Some (in_memory sz (new_private_handle_t a b c d e f g i j k)))"
    by (simp add: dynamicCast_def validate_def read_magic_def in_memory_def new_private_handle_t_def)
  show "dynamicCast sz (Some (in_memory sz (delete_private_handle_t p))) = Inr None"
    by (simp add: dynamicCast_def validate_def refuse_def read_magic_def in_memory_def delete_private_handle_t_def sMagic_def)
qed

theorem handle_cast_witness:
  "dynamicCast 12 (Some (in_memory 12 (new_private_handle_t 5 4096 2 0 1 64 32 (- 1) 0 0))) =
     Inr (Some (in_memory 12 (new_private_handle_t 5 4096 2 0 1 64 32 (- 1) 0 0)))"
  using handle_cast[of "in_memory 12 (new_private_handle_t 5 4096 2 0 1 64 32 (- 1) 0 0)" 12 5 4096 2 0 1 64 32 "- 1" 0 0]
    in_memory_ok in_memory_long by blast

text \<open>The refusal of a handle with less than three words of data reads beyond it.\<close>

lemma short_handle_overread:
  "validate sz (Some \<lparr>version = sz, numFds = 0, numInts = 1, nh_data = [x]\<rparr>) = Inl OutOfBounds"
  by (simp add: validate_def refuse_def read_magic_def sNumInts_def)

text \<open>A surface that is opaque has the flags of one that is protected and for the external display only.\<close>

lemma opaque_flags: "PRIV_FLAGS_OPAQUE_SURFACE = PRIV_FLAGS_EXTERNAL_ONLY OR PRIV_FLAGS_PROTECTED_BUFFER"
  by (simp add: PRIV_FLAGS_OPAQUE_SURFACE_def PRIV_FLAGS_EXTERNAL_ONLY_def PRIV_FLAGS_PROTECTED_BUFFER_def)

end
