(* ===== verification/Vendor_Init.thy ===== *)
theory Vendor_Init
  imports Prelude
begin

text \<open>
  libinit/init\_semc.cpp: the serial number that the boot loader passes on the kernel command line becomes a system
  property. \<open>import_kernel_cmdline\<close> of init, which calls the function for every word of the command line, and the
  functions of the C library on properties are parameters; a word may be changed by the function, as it is in the code.
\<close>

definition SERIAL_PROP :: string where "SERIAL_PROP = ''ro.serialno''"

record 's prop_ops =
  property_find :: "string \<Rightarrow> 's \<Rightarrow> bool"
  property_update :: "string \<Rightarrow> string \<Rightarrow> 's \<Rightarrow> 's"
  property_add :: "string \<Rightarrow> string \<Rightarrow> 's \<Rightarrow> 's"

text \<open>
  The word is split at its first \<open>=\<close>, where the code writes a NUL; the length that is tested is that of the word
  before that.
\<close>

definition import_kernel_nv :: "'s prop_ops \<Rightarrow> string \<Rightarrow> 's \<Rightarrow> 's" where
  "import_kernel_nv P word s =
     (case dropWhile (\<lambda>c. c \<noteq> CHR ''='') word of
        [] \<Rightarrow> s
      | eq # val \<Rightarrow>
          let name = takeWhile (\<lambda>c. c \<noteq> CHR ''='') word
          in if length word = 0 then s
             else if name = ''serialno'' then
               (if property_find P SERIAL_PROP s then property_update P SERIAL_PROP val s else property_add P SERIAL_PROP val s)
             else s)"

definition vendor_load_properties :: "'s prop_ops \<Rightarrow> string list \<Rightarrow> 's \<Rightarrow> 's" where
  "vendor_load_properties P words s = fold (import_kernel_nv P) words s"

text \<open>Only a word that starts with \<open>serialno=\<close> has an effect; the value may contain further signs \<open>=\<close>.\<close>

lemma import_serial:
  "import_kernel_nv P (''serialno='' @ val) s =
     (if property_find P SERIAL_PROP s then property_update P SERIAL_PROP val s else property_add P SERIAL_PROP val s)"
  by (simp add: import_kernel_nv_def)

lemma import_other:
  assumes "\<And>val. word \<noteq> ''serialno='' @ val"
  shows "import_kernel_nv P word s = s"
proof (cases "dropWhile (\<lambda>c. c \<noteq> CHR ''='') word")
  case (Cons eq val)
  then have "eq = CHR ''=''" by (metis (full_types) hd_dropWhile list.distinct(1) list.sel(1))
  then have "word = takeWhile (\<lambda>c. c \<noteq> CHR ''='') word @ CHR ''='' # val" using Cons takeWhile_dropWhile_id by metis
  then have "takeWhile (\<lambda>c. c \<noteq> CHR ''='') word \<noteq> ''serialno''" using assms[of val] by (metis append_Cons append_Nil)
  then show ?thesis using Cons by (simp add: import_kernel_nv_def Let_def)
qed (simp add: import_kernel_nv_def del: dropWhile_eq_Nil_conv)

text \<open>With properties that keep what they are given, the last serial number of the command line is the one that stays.\<close>

definition serial_of :: "string list \<Rightarrow> string option" where
  "serial_of words = fold (\<lambda>w r. if take 9 w = ''serialno='' then Some (drop 9 w) else r) words None"

lemma serial_number_kept:
  fixes get :: "'s \<Rightarrow> string \<Rightarrow> string option"
  assumes "\<And>s v. get (property_update P SERIAL_PROP v s) SERIAL_PROP = Some v"
    and "\<And>s v. get (property_add P SERIAL_PROP v s) SERIAL_PROP = Some v"
  shows "get (vendor_load_properties P words s) SERIAL_PROP =
    (case serial_of words of Some v \<Rightarrow> Some v | None \<Rightarrow> get s SERIAL_PROP)"
proof (induction words rule: rev_induct)
  case (snoc w ws)
  show ?case
  proof (cases "take 9 w = ''serialno=''")
    case True
    then have "w = ''serialno='' @ drop 9 w" by (metis append_take_drop_id)
    then have "import_kernel_nv P w s' = (if property_find P SERIAL_PROP s' then property_update P SERIAL_PROP (drop 9 w) s'
        else property_add P SERIAL_PROP (drop 9 w) s')" for s' using import_serial by metis
    then show ?thesis using True assms by (simp add: vendor_load_properties_def serial_of_def)
  next
    case False
    then have "import_kernel_nv P w s' = s'" for s' by (intro import_other) auto
    then show ?thesis using snoc False by (simp add: vendor_load_properties_def serial_of_def)
  qed
qed (simp add: vendor_load_properties_def serial_of_def)

end
