(* ===== verification/Ril_Startup.thy ===== *)
theory Ril_Startup
  imports Prelude
begin

text \<open>
  The start of the event loop, \<open>RIL_startEventLoop\<close> and the beginning of \<open>eventLoop\<close> in ril.cpp: the thread that
  registers the vendor library creates the thread of the loop and waits, with a mutex and a condition variable, until
  that has set \<open>s_started\<close>. A step is one access to what the two share.
\<close>

section \<open>The two threads\<close>

datatype starter = Registrar | Dispatcher

text \<open>The places in \<open>RIL_startEventLoop\<close>; \<open>M_wake\<close> is a thread that has to get the mutex back after its wait.\<close>

datatype main_place = M_clear | M_lock | M_create | M_tid | M_test | M_wait | M_wake | M_unlock | M_done

text \<open>The places in \<open>eventLoop\<close>, until it runs \<open>ril_event_loop\<close> or returns because there is no pipe.\<close>

datatype loop_place = L_none | L_init | L_lock | L_set | L_broadcast | L_unlock | L_pipe | L_read int int | L_write int
  | L_watch | L_loop | L_exit

record startup =
  startupMutex :: "starter option"
  started :: bool
  tid_dispatch :: bool
  event_lists :: bool
  fdWakeupRead :: int
  fdWakeupWrite :: int
  wakeup_watched :: bool
  main_at :: main_place
  loop_at :: loop_place

text \<open>\<open>created\<close>: the thread could be created. \<open>None\<close> when the thread has to wait or has finished.\<close>

definition RIL_startEventLoop :: "bool \<Rightarrow> startup \<Rightarrow> startup option" where
  "RIL_startEventLoop created s = (case main_at s of
       M_clear \<Rightarrow> Some (s\<lparr>started := False, main_at := M_lock\<rparr>)
     | M_lock \<Rightarrow> if startupMutex s = None then Some (s\<lparr>startupMutex := Some Registrar, main_at := M_create\<rparr>) else None
     | M_create \<Rightarrow> Some (if created then s\<lparr>loop_at := L_init, main_at := M_tid\<rparr> else s\<lparr>main_at := M_unlock\<rparr>)
     | M_tid \<Rightarrow> Some (s\<lparr>tid_dispatch := True, main_at := M_test\<rparr>)
     | M_test \<Rightarrow> Some (if started s then s\<lparr>main_at := M_unlock\<rparr> else s\<lparr>startupMutex := None, main_at := M_wait\<rparr>)
     | M_wait \<Rightarrow> None
     | M_wake \<Rightarrow> if startupMutex s = None then Some (s\<lparr>startupMutex := Some Registrar, main_at := M_test\<rparr>) else None
     | M_unlock \<Rightarrow> Some (s\<lparr>startupMutex := None, main_at := M_done\<rparr>)
     | M_done \<Rightarrow> None)"

text \<open>\<open>pipe\<close>: the descriptors of the pipe, if it could be opened.\<close>

definition eventLoop :: "(int \<times> int) option \<Rightarrow> startup \<Rightarrow> startup option" where
  "eventLoop pipe s = (case loop_at s of
       L_none \<Rightarrow> None
     | L_init \<Rightarrow> Some (s\<lparr>event_lists := True, loop_at := L_lock\<rparr>)
     | L_lock \<Rightarrow> if startupMutex s = None then Some (s\<lparr>startupMutex := Some Dispatcher, loop_at := L_set\<rparr>) else None
     | L_set \<Rightarrow> Some (s\<lparr>started := True, loop_at := L_broadcast\<rparr>)
     | L_broadcast \<Rightarrow> Some (s\<lparr>main_at := (if main_at s = M_wait then M_wake else main_at s), loop_at := L_unlock\<rparr>)
     | L_unlock \<Rightarrow> Some (s\<lparr>startupMutex := None, loop_at := L_pipe\<rparr>)
     | L_pipe \<Rightarrow> Some (s\<lparr>loop_at := (case pipe of None \<Rightarrow> L_exit | Some (r, w) \<Rightarrow> L_read r w)\<rparr>)
     | L_read r w \<Rightarrow> Some (s\<lparr>fdWakeupRead := r, loop_at := L_write w\<rparr>)
     | L_write w \<Rightarrow> Some (s\<lparr>fdWakeupWrite := w, loop_at := L_watch\<rparr>)
     | L_watch \<Rightarrow> Some (s\<lparr>wakeup_watched := True, loop_at := L_loop\<rparr>)
     | L_loop \<Rightarrow> None
     | L_exit \<Rightarrow> None)"

text \<open>The system wakes a thread up without a reason, as it may.\<close>

definition spurious :: "startup \<Rightarrow> startup option" where
  "spurious s = (if main_at s = M_wait then Some (s\<lparr>main_at := M_wake\<rparr>) else None)"

inductive startup_step :: "startup \<Rightarrow> startup \<Rightarrow> bool" where
  registrar: "RIL_startEventLoop created s = Some s' \<Longrightarrow> startup_step s s'"
| dispatcher: "eventLoop pipe s = Some s' \<Longrightarrow> startup_step s s'"

definition startup_init :: startup where
  "startup_init = \<lparr>startupMutex = None, started = False, tid_dispatch = False, event_lists = False, fdWakeupRead = 0,
     fdWakeupWrite = 0, wakeup_watched = False, main_at = M_clear, loop_at = L_none\<rparr>"

inductive startup_reach :: "startup \<Rightarrow> bool" where
  start: "startup_reach startup_init"
| step: "startup_reach s \<Longrightarrow> startup_step s s' \<Longrightarrow> startup_reach s'"
| wake: "startup_reach s \<Longrightarrow> spurious s = Some s' \<Longrightarrow> startup_reach s'"

text \<open>\<open>triggerEvLoop\<close> in the thread that registers: the descriptor it writes a blank to.\<close>

definition trigger_fd :: "startup \<Rightarrow> int" where
  "trigger_fd s = fdWakeupWrite s"

section \<open>Invariant\<close>

text \<open>Who holds the mutex where, what has been done where, and the places that go together.\<close>

fun main_holds :: "main_place \<Rightarrow> bool" where
  "main_holds M_clear = False"
| "main_holds M_lock = False"
| "main_holds M_create = True"
| "main_holds M_tid = True"
| "main_holds M_test = True"
| "main_holds M_wait = False"
| "main_holds M_wake = False"
| "main_holds M_unlock = True"
| "main_holds M_done = False"

fun loop_holds :: "loop_place \<Rightarrow> bool" where
  "loop_holds L_set = True"
| "loop_holds L_broadcast = True"
| "loop_holds L_unlock = True"
| "loop_holds l = False"

fun loop_begun :: "loop_place \<Rightarrow> bool" where
  "loop_begun L_none = False"
| "loop_begun L_init = False"
| "loop_begun L_lock = False"
| "loop_begun L_set = False"
| "loop_begun l = True"

fun before_write :: "loop_place \<Rightarrow> bool" where
  "before_write L_watch = False"
| "before_write L_loop = False"
| "before_write l = True"

text \<open>A thread waits only for a broadcast that is still to come.\<close>

fun places_ok :: "main_place \<Rightarrow> loop_place \<Rightarrow> bool" where
  "places_ok M_clear l = (l = L_none)"
| "places_ok M_lock l = (l = L_none)"
| "places_ok M_create l = (l = L_none)"
| "places_ok M_tid l = (l = L_init \<or> l = L_lock)"
| "places_ok M_test l = (l \<noteq> L_none \<and> \<not> loop_holds l)"
| "places_ok M_wait l = (l = L_init \<or> l = L_lock \<or> l = L_set \<or> l = L_broadcast)"
| "places_ok M_wake l = (l \<noteq> L_none)"
| "places_ok M_unlock l = (l = L_none \<or> loop_begun l \<and> \<not> loop_holds l)"
| "places_ok M_done l = (l = L_none \<or> loop_begun l)"

fun has_tid :: "main_place \<Rightarrow> bool \<Rightarrow> bool" where
  "has_tid M_clear c = False"
| "has_tid M_lock c = False"
| "has_tid M_create c = False"
| "has_tid M_tid c = False"
| "has_tid M_unlock c = c"
| "has_tid M_done c = c"
| "has_tid m c = True"

definition startup_inv :: "startup \<Rightarrow> bool" where
  "startup_inv s \<longleftrightarrow>
     places_ok (main_at s) (loop_at s) \<and>
     startupMutex s = (if main_holds (main_at s) then Some Registrar else if loop_holds (loop_at s) then Some Dispatcher else None) \<and>
     started s = loop_begun (loop_at s) \<and>
     tid_dispatch s = has_tid (main_at s) (loop_at s \<noteq> L_none) \<and>
     event_lists s = (loop_at s \<noteq> L_none \<and> loop_at s \<noteq> L_init) \<and>
     (before_write (loop_at s) \<longrightarrow> fdWakeupWrite s = 0) \<and>
     wakeup_watched s = (loop_at s = L_loop)"

lemma inv_init: "startup_inv startup_init"
  by (simp add: startup_inv_def startup_init_def)

lemma inv_registrar: "startup_inv s \<Longrightarrow> pred_option startup_inv (RIL_startEventLoop created s)"
  unfolding RIL_startEventLoop_def startup_inv_def
  by (cases "main_at s"; cases "loop_at s") simp_all

lemma inv_dispatcher: "startup_inv s \<Longrightarrow> pred_option startup_inv (eventLoop pipe s)"
  unfolding eventLoop_def startup_inv_def
  by (cases "loop_at s"; cases "main_at s") (simp_all split: option.split prod.split)

lemma inv_spurious: "startup_inv s \<Longrightarrow> pred_option startup_inv (spurious s)"
  unfolding spurious_def startup_inv_def by (cases "loop_at s"; cases "main_at s") simp_all

lemma reach_startup_inv: "startup_reach s \<Longrightarrow> startup_inv s"
proof (induction rule: startup_reach.induct)
  case start
  show ?case by (rule inv_init)
next
  case (step s s')
  from step.hyps(2) show ?case
  proof cases
    case (registrar created)
    then show ?thesis using inv_registrar[OF step.IH, of created] by simp
  next
    case (dispatcher pipe)
    then show ?thesis using inv_dispatcher[OF step.IH, of pipe] by simp
  qed
next
  case (wake s s')
  then show ?case using inv_spurious[OF wake.IH] by simp
qed

section \<open>The start ends\<close>

fun main_rank :: "main_place \<Rightarrow> nat" where
  "main_rank M_clear = 9"
| "main_rank M_lock = 8"
| "main_rank M_create = 7"
| "main_rank M_tid = 6"
| "main_rank M_wake = 5"
| "main_rank M_test = 4"
| "main_rank M_wait = 3"
| "main_rank M_unlock = 1"
| "main_rank M_done = 0"

fun loop_rank :: "loop_place \<Rightarrow> nat" where
  "loop_rank L_none = 11"
| "loop_rank L_init = 10"
| "loop_rank L_lock = 9"
| "loop_rank L_set = 8"
| "loop_rank L_broadcast = 7"
| "loop_rank L_unlock = 6"
| "loop_rank L_pipe = 5"
| "loop_rank (L_read r w) = 4"
| "loop_rank (L_write w) = 3"
| "loop_rank L_watch = 2"
| "loop_rank L_loop = 1"
| "loop_rank L_exit = 0"

text \<open>An upper bound of the steps that are left, apart from wake-ups without a reason.\<close>

definition startup_rank :: "startup \<Rightarrow> nat" where
  "startup_rank s = 3 * loop_rank (loop_at s) + main_rank (main_at s)"

lemma rank_registrar:
  "startup_inv s \<Longrightarrow> pred_option (\<lambda>s'. startup_rank s' < startup_rank s) (RIL_startEventLoop created s)"
  unfolding RIL_startEventLoop_def startup_rank_def startup_inv_def by (cases "main_at s"; cases "loop_at s") simp_all

lemma rank_dispatcher: "pred_option (\<lambda>s'. startup_rank s' < startup_rank s) (eventLoop pipe s)"
  unfolding eventLoop_def startup_rank_def by (cases "loop_at s") (simp_all split: option.split prod.split)

lemma rank_decreases:
  assumes "startup_inv s" "startup_step s s'"
  shows "startup_rank s' < startup_rank s"
  using assms(2)
proof cases
  case (registrar created)
  then show ?thesis using rank_registrar[OF assms(1), of created] by simp
next
  case (dispatcher pipe)
  then show ?thesis using rank_dispatcher[of s pipe] by simp
qed

lemma start_not_stuck:
  assumes "startup_inv s" "main_at s \<noteq> M_done"
  shows "\<exists>s'. startup_step s s'"
proof -
  obtain m where m: "main_at s = m" by simp
  obtain l where l: "loop_at s = l" by simp
  have "RIL_startEventLoop True s \<noteq> None \<or> eventLoop None s \<noteq> None"
    using assms m l unfolding RIL_startEventLoop_def eventLoop_def startup_inv_def by (cases m; cases l) simp_all
  then show ?thesis using startup_step.intros by blast
qed

text \<open>
  C5 Starting the event loop: in every interleaving of the two threads, with wake-ups without a reason,
  \<open>RIL_startEventLoop\<close> does not get stuck before it returns and only finitely many steps are left to it.
  When it has returned and the thread was created, the lists of events are initialised, \<open>s_started\<close> is set, and the thread
  of the loop can be told from others; when \<open>pthread_create\<close> failed, nothing of this has been done.
\<close>

theorem start_returns:
  assumes "startup_reach s"
  shows "(main_at s \<noteq> M_done \<longrightarrow> (\<exists>s'. startup_step s s')) \<and>
    (\<forall>s'. startup_step s s' \<longrightarrow> startup_rank s' < startup_rank s) \<and>
    (main_at s = M_done \<and> loop_at s \<noteq> L_none \<longrightarrow> event_lists s \<and> started s \<and> tid_dispatch s) \<and>
    (main_at s = M_done \<and> loop_at s = L_none \<longrightarrow> \<not> event_lists s \<and> \<not> started s \<and> \<not> tid_dispatch s)"
proof (intro conjI impI allI)
  note inv = reach_startup_inv[OF assms]
  show "\<exists>s'. startup_step s s'" if "main_at s \<noteq> M_done" using start_not_stuck[OF inv that] .
  show "startup_rank s' < startup_rank s" if "startup_step s s'" for s' using rank_decreases[OF inv that] .
  show "event_lists s" "started s" "tid_dispatch s" if "main_at s = M_done \<and> loop_at s \<noteq> L_none"
    using that inv unfolding startup_inv_def by (cases "loop_at s"; simp)+
  show "\<not> event_lists s" "\<not> started s" "\<not> tid_dispatch s" if "main_at s = M_done \<and> loop_at s = L_none"
    using that inv unfolding startup_inv_def by simp_all
qed

text \<open>Runs: who makes the next step; the thread is created and the pipe is opened.\<close>

fun startup_run :: "starter list \<Rightarrow> startup \<Rightarrow> startup option" where
  "startup_run [] s = Some s"
| "startup_run (Registrar # ts) s = Option.bind (RIL_startEventLoop True s) (startup_run ts)"
| "startup_run (Dispatcher # ts) s = Option.bind (eventLoop (Some (5, 6)) s) (startup_run ts)"

lemma startup_run_reach: "startup_reach s \<Longrightarrow> startup_run ts s = Some s' \<Longrightarrow> startup_reach s'"
  by (induction ts s rule: startup_run.induct)
    (auto split: bind_splits intro: startup_reach.step startup_step.intros)

definition waiting_run :: "starter list" where
  "waiting_run = replicate 5 Registrar @ replicate 5 Dispatcher @ replicate 3 Registrar"

theorem start_returns_witness:
  "\<exists>s. startup_run waiting_run startup_init = Some s \<and> main_at s = M_done \<and> event_lists s \<and> started s \<and> tid_dispatch s"
proof -
  have "map_option (\<lambda>s. (main_at s, loop_at s)) (startup_run waiting_run startup_init) = Some (M_done, L_pipe)" by code_simp
  then obtain s where s: "startup_run waiting_run startup_init = Some s" "main_at s = M_done" "loop_at s = L_pipe" by auto
  have "startup_reach s" by (rule startup_run_reach[OF startup_reach.start s(1)])
  then have "event_lists s \<and> started s \<and> tid_dispatch s" using start_returns[of s] s(2,3) by simp
  then show ?thesis using s by blast
qed

text \<open>As long as the descriptor of the pipe is not set, the loop does not wait for events yet.\<close>

lemma unset_before_loop:
  assumes "startup_reach s" "before_write (loop_at s)"
  shows "trigger_fd s = 0" "loop_at s \<noteq> L_loop"
  using reach_startup_inv[OF assms(1)] assms(2) unfolding startup_inv_def trigger_fd_def by auto

text \<open>
  C6 The wake-up pipe may be missing: \<open>RIL_startEventLoop\<close> can return before \<open>eventLoop\<close> has opened the pipe, so that a
  wake-up, which the registration asks for next, writes a blank to descriptor 0.
\<close>

theorem wakeup_before_pipe:
  "\<exists>s. startup_reach s \<and> main_at s = M_done \<and> started s \<and> trigger_fd s = 0 \<and> \<not> wakeup_watched s"
proof -
  have "map_option (\<lambda>s. (main_at s, started s, trigger_fd s, wakeup_watched s)) (startup_run waiting_run startup_init) =
      Some (M_done, True, 0, False)" by code_simp
  then obtain s where s: "startup_run waiting_run startup_init = Some s" "main_at s = M_done" "started s" "trigger_fd s = 0"
      "\<not> wakeup_watched s" by auto
  then show ?thesis using startup_run_reach[OF startup_reach.start s(1)] by blast
qed

section \<open>The name of the socket\<close>

text \<open>
  The array \<open>rild\<close> of \<open>MAX_SOCKET_NAME_LENGTH\<close> (telephony/ril.h) characters. \<open>strncpy\<close> fills it up with NUL, and
  writes none when the name is as long as the array; the readers of the name take it for a string.
\<close>

definition RIL_setRilSocketName :: "nat \<Rightarrow> string \<Rightarrow> string" where
  "RIL_setRilSocketName max_name name = take max_name name @ replicate (max_name - length name) (CHR 0x00)"

definition RIL_getRilSocketName :: "string \<Rightarrow> string result" where
  "RIL_getRilSocketName rild =
     (if CHR 0x00 \<in> set rild then Inr (takeWhile (\<lambda>c. c \<noteq> CHR 0x00) rild) else Inl OutOfBounds)"

lemma socket_name_kept:
  assumes "CHR 0x00 \<notin> set name" "length name < max_name"
  shows "RIL_getRilSocketName (RIL_setRilSocketName max_name name) = Inr name"
proof -
  obtain k where k: "max_name - length name = Suc k" using assms(2) by (metis Suc_diff_Suc)
  have "takeWhile (\<lambda>c. c \<noteq> CHR 0x00) (name @ replicate (Suc k) (CHR 0x00)) = name"
    using assms(1) by (subst takeWhile_append2) auto
  then show ?thesis using assms(2) by (simp add: RIL_getRilSocketName_def RIL_setRilSocketName_def k)
qed

lemma socket_name_overread:
  assumes "CHR 0x00 \<notin> set name" "max_name \<le> length name"
  shows "RIL_getRilSocketName (RIL_setRilSocketName max_name name) = Inl OutOfBounds"
  using assms by (auto simp: RIL_getRilSocketName_def RIL_setRilSocketName_def dest: in_set_takeD)

end
