(* ===== verification/Spec2Isabelle.thy ===== *)
theory Spec2Isabelle
  imports Ril_Roundtrip Ril_Requests Ril_Unsol_Props Shim_Sorted_Set Shim_RefBase_Reach
    Ril_Names Sap_Props Lights_Props Boot_Key Shim_Pmem_Vector Gralloc Vendor_Init
    Shim_Weak_Props Ril_Startup Ril_Wake
begin

text \<open>
  Verification of the radio interface library (libril/) of the Sony Ericsson msm7x30 devices, of the shims
  (libshims/) that stand in for removed system libraries, of the lights module (liblights/), and of the programs
  that boot the devices (init/, keycheck/, libinit/).

  \<^bold>\<open>The program.\<close> The library sits between the telephony framework, which talks to it over a socket in
  frames that hold parcels, and a vendor library of interface version 6. \<open>ril.cpp\<close> unmarshals a
  request (\<open>processCommandBuffer\<close> and the functions \<open>dispatchXxx\<close>) into the C structures of the
  vendor interface, keeps it in the list of pending requests until the vendor library
  completes it (\<open>RIL_onRequestComplete\<close>), and marshals the answer (the functions \<open>responseXxx\<close>).
  Unsolicited messages go the same way out (\<open>RIL_onUnsolicitedResponse\<close>), under a wake lock that a timer
  releases. \<open>ril_event.cpp\<close> is the event loop: a table of watched descriptors and two intrusive
  doubly linked lists, the timers in order of expiry and the events that are due. A second socket
  (\<open>RilSapSocket.cpp\<close>) carries the requests of the bluetooth process to the SIM: the event loop puts them in a
  queue, a thread of its own hands them to the vendor library, and completions send the responses.

  \<^bold>\<open>Theories.\<close>
  \<^item> \<open>Prelude\<close>: machine types, faults as values, loops of the state monad. \<open>C_Text\<close>: numbers as text, in and out.
    \<open>Guarded_System\<close>: reachable states of systems of actions, and the contract (locale \<open>guarded_system\<close>) under which no action faults.
  \<^item> \<open>Ril_Ext\<close>: what the library uses from outside, as parameters: the operations of \<open>Parcel\<close>,
    string conversion and \<open>alloca\<close> (record \<open>ext\<close>) and the constants and structure sizes of
    telephony/ril.h (record \<open>ril_h\<close>), with the documented laws of a parcel as the locales \<open>parcel_api\<close> and
    \<open>ril_env\<close>. \<open>Flat_Parcel\<close> interprets them on a parcel of little-endian 32-bit units.
  \<^item> \<open>Ril_Types\<close>, \<open>Ril_Dispatch\<close>, \<open>Ril_Dispatch_Sms\<close>, \<open>Ril_Radio\<close>: requests; one definition for every
    \<open>dispatchXxx\<close> function of ril.cpp. A dispatch function reads the parcel and yields the calls it makes
    (\<open>onRequest\<close>, \<open>RIL_onRequestComplete\<close>, ...), in order, or a fault.
  \<^item> \<open>Ril_Response_Types\<close>, \<open>Ril_Response\<close>, \<open>Ril_Response_More\<close>, \<open>Ril_Response_Cells\<close>: answers; one
    definition for every \<open>responseXxx\<close> function. The untyped pointer of the code is a value of \<open>cdata\<close>
    and the functions cast it.
  \<^item> \<open>Ril_Tables\<close>: ril_commands.h, ril_unsol_commands.h and the translation of old message codes.
    \<open>Ril_Names\<close>: the names for the log.
  \<^item> \<open>Ril_Codec\<close>, \<open>Ril_Roundtrip\<close>, \<open>Ril_Requests\<close>: what the dispatch and response functions read and
    write, round trips over the wire, the rearrangements for the old vendor interface, requests whose parcel ends
    after any number of items.
  \<^item> \<open>Ril_Event\<close>, \<open>Ril_Event_Lists\<close>, \<open>Ril_Event_Props\<close>: ril_event.cpp on a heap of event structures with their
    links, the shape of the linked lists, and the correctness of timers, table and loop.
  \<^item> \<open>Ril_Core\<close>, \<open>Ril_Unsol\<close>: the state of ril.cpp and its operations: command socket, pending
    requests, unsolicited messages, timed callbacks, connections, debug socket and registration.
  \<^item> \<open>Ril_Core_Props\<close>, \<open>Ril_Lifecycle\<close>: frames, the life of a request, its errors.
  \<^item> \<open>Ril_Invariant\<close>, \<open>Ril_System\<close>, \<open>Ril_Reach\<close>: an invariant over event lists, table, live blocks,
    descriptors and wake lock that every operation keeps; the callbacks of ril.cpp as an interpretation of the
    event loop's contract \<open>event_callbacks\<close>; registration establishes the invariant; the steps of
    loop, vendor library and environment in any order, and what holds in every reachable state.
  \<^item> \<open>Ril_Startup\<close>: the two threads that start the event loop, with mutex and condition variable: the start returns, with
    the loop's lists initialised but perhaps without its pipe; the name of the socket.
  \<^item> \<open>Ril_Wake\<close>: the wake lock step by step. In \<open>Ril_Unsol\<close> an unsolicited message is one step; here the accesses of
    \<open>RIL_onUnsolicitedResponse\<close> and \<open>userTimerCallback\<close> to what they share interleave between any number of threads and the event loop,
    blocking writes included: the lock is released in the end, and the races on \<open>s_last_wake_timeout_info\<close>.
  \<^item> \<open>Ril_Unsol_Props\<close>: the bytes of unsolicited messages, connecting, the network time; what a message that runs alone in
    \<open>Ril_Wake\<close> does is what it does in \<open>Ril_Unsol\<close>.

  \<^item> \<open>Shim_Vector\<close>: VectorImpl.cpp and SharedBuffer.cpp of libshims/, which blobs built for an older system
    need: vectors over buffers that count their owners, in an explicit store. The class of the items (utils/Vector.h)
    is a parameter, its documented behaviour the locale \<open>item_ops\<close>, interpreted on plain items.
  \<^item> \<open>Shim_Vector_Props\<close>, \<open>Shim_Vector_Remove\<close>, \<open>Shim_Vector_Values\<close>: what every way through \<open>_grow\<close> and \<open>_shrink\<close> does
    to the items, with and without memory, and that programs over vectors refine programs over lists.
  \<^item> \<open>Shim_Vector_Sorted\<close>, \<open>Shim_Sorted_Set\<close>: the stable sort, the binary search, sorted vectors as ordered sets.

  \<^item> \<open>Shim_RefBase\<close>: RefBase.cpp of libshims/, reference counts that threads change with atomic operations: every
    operation is a program of atomic steps, and a step relation interleaves any number of them, begun by holders of references.
  \<^item> \<open>Shim_RefBase_Props\<close>, \<open>Shim_RefBase_Reach\<close>: an invariant that ties the counters to the references held and to the
    operations under way; safety in every interleaving, promotion, and a race on the first reference.
  \<^item> \<open>Shim_Weak\<close>, \<open>Shim_Weak_Props\<close>: the weak pointers \<open>wp\<close> of RefBase.h as clients of those operations: the references
    counted are the pointers there are, and no operation is called without the reference it takes; their order.

  \<^item> \<open>Sap_Queue\<close>: rilSocketQueue.h, a list linked in memory, and what its clients rely on (locale
    \<open>request_queue\<close>). \<open>Sap_Log\<close>: the hexadecimal dump. \<open>Sap_Socket\<close>: RilSocket.cpp and RilSapSocket.cpp on a
    memory of requests, messages and payloads; the messages of nanopb are parameters.
  \<^item> \<open>Sap_Invariant\<close>, \<open>Sap_Steps\<close>, \<open>Sap_Props\<close>: the steps of client, request loop and vendor library in any order, the
    invariant of the memory they share, memory safety, the life of a request, and what a repeated token does.

  \<^item> \<open>Lights\<close>, \<open>Lights_Props\<close>: lights.c, with the answers of the kernel to writes, the constants of
    hardware/lights.h and the arithmetic of \<open>double\<close> (locale \<open>double_arith\<close>, interpreted on rounding to 53 bits) as
    parameters; the range of the backlight, and that the shared LED shows what it has to.

  \<^item> \<open>Boot\<close>, \<open>Boot_Props\<close>: init/, the first process; the calls it makes are its result, the answers of kernel and
    child processes a parameter. The choice of the ramdisk, what is mounted, a missing keycheck, clearing /dev.
  \<^item> \<open>Keycheck\<close>, \<open>Boot_Key\<close>: keycheck.c with its two arrays of devices, which hold the devices that have come and not gone;
    the two programs together.
  \<^item> \<open>Vendor_Init\<close>: libinit/, the serial number from the kernel command line.

  \<^item> \<open>Shim_Pmem\<close>, \<open>Shim_Pmem_Props\<close>: MemoryHeapPmem.cpp of libshims/: regions that clients hold and drop while
    threads revoke them, step by step; no use after deletion, one \<open>PMEM_UNMAP\<close> for every \<open>PMEM_MAP\<close> with one thread that revokes,
    and two with two. \<open>Shim_Pmem_Vector\<close>: its allocations are a sorted vector of weak pointers that holds every region.
  \<^item> \<open>Gralloc\<close>: gralloc_priv.h, handles of graphics buffers and how they are recognised.

  \<^bold>\<open>Conventions.\<close> \<open>int\<close> is a 32-bit word and \<open>size_t\<close> a natural number below the bound written out where
  it wraps (32-bit target); the fields of \<open>timeval\<close> are integers that wrap at 32 bits in \<open>timeradd\<close> and \<open>timersub\<close>. Where the code would dereference \<open>NULL\<close>, overrun an array or read
  a structure at the wrong type, the model returns a fault (\<open>Inl\<close>). Logging and the debug print buffer
  (\<open>RILC_LOG\<close> is 0) are left out. Mutexes make the operations they guard atomic; a step of the
  model is one such operation, and so are, without a mutex, a whole unsolicited message in \<open>Ril_Unsol\<close> (\<open>Ril_Wake\<close> takes it
  apart), the dispatch of a request and its completion by \<open>processRequest\<close> and \<open>sOnRequestComplete\<close> of the SIM access profile socket,
  and \<open>mapMemory\<close>.

  \<^bold>\<open>Fuel.\<close> The list traversals of \<open>ril_event.cpp\<close> are \<open>partial_function (option)\<close> and are proved to return on
  well-formed lists. The recursion of \<open>RIL_onUnsolicitedResponse\<close> through \<open>processRadioState\<close> has a depth
  argument; depth 2 is used and proved to be enough. The search of \<open>checkAndDequeue\<close> has as many rounds as there were
  allocations, which no queue exceeds, and \<open>log_hex\<close> one more than there are bytes; both are proved to return.

  \<^bold>\<open>Not modelled.\<close> The sockets of further SIMs, which this build leaves out; GraphicBufferMapper.cpp, which passes one call
  on; the tracking of references in debug builds; allocations of ril.cpp that fail, which the code tests for in some places only; vectors
  that are inserted into or appended to themselves, where \<open>_grow\<close> may free what is then read; \<open>extendObjectLifetime\<close> as a step of the interleavings
  of \<open>Shim_RefBase\<close> and \<open>forceIncStrong\<close> by others than holders of a strong reference. The events of the SIM access profile socket share the
  table of the event loop with those of ril.cpp, but are no steps of the system of \<open>Ril_Reach\<close>; that the table has room for them is part of
  what is proved there. Not modelled are also the settings in Java and the configuration files.
\<close>

end
